(* ===== verification/Prelude.thy ===== *)
theory Prelude
  imports Main "HOL-Library.Word" "HOL-Library.While_Combinator"
begin

text \<open>
  Shared vocabulary of the development: the fact collections the component proofs use,
  C's checked signed 64-bit arithmetic, generic facts on lists and loops, and the
  interface of the growable arrays that the compiler uses for tokens, diagnostics and
  syntax-tree children.
\<close>

section \<open>Fact collections\<close>

named_theorems lexer_defs \<open>definitions of the single steps of the lexer\<close>
named_theorems parser_defs \<open>definitions of the parser functions that are not recursive\<close>
named_theorems wp_rules \<open>weakest-precondition rules of the parser operations\<close>
named_theorems alloc_defs \<open>definitions of the allocator's list and bucket operations\<close>

section \<open>C's signed 64-bit integers\<close>

text \<open>
  An \<open>int64_t\<close> is a 64-bit word read as two's complement. Signed overflow is undefined
  behaviour in C, which the checked operations below return as \<^term>\<open>None\<close>; division and
  remainder truncate towards zero and are undefined for a zero divisor and for
  \<open>INT64_MIN / -1\<close>.
\<close>

type_synonym int64 = "64 word"

definition int64_range :: "int \<Rightarrow> bool" where
  "int64_range x \<longleftrightarrow> - (2 ^ 63) \<le> x \<and> x < 2 ^ 63"

definition int64_of :: "int \<Rightarrow> int64 option" where
  "int64_of x = (if int64_range x then Some (word_of_int x) else None)"

definition c_quot :: "int \<Rightarrow> int \<Rightarrow> int" where
  "c_quot a b = sgn a * sgn b * (\<bar>a\<bar> div \<bar>b\<bar>)"

definition c_rem :: "int \<Rightarrow> int \<Rightarrow> int" where
  "c_rem a b = a - b * c_quot a b"

definition c_neg64 :: "int64 \<Rightarrow> int64 option" where
  "c_neg64 a = int64_of (- sint a)"

definition c_add64 :: "int64 \<Rightarrow> int64 \<Rightarrow> int64 option" where
  "c_add64 a b = int64_of (sint a + sint b)"

definition c_sub64 :: "int64 \<Rightarrow> int64 \<Rightarrow> int64 option" where
  "c_sub64 a b = int64_of (sint a - sint b)"

definition c_mul64 :: "int64 \<Rightarrow> int64 \<Rightarrow> int64 option" where
  "c_mul64 a b = int64_of (sint a * sint b)"

definition c_div64 :: "int64 \<Rightarrow> int64 \<Rightarrow> int64 option" where
  "c_div64 a b = (if sint b = 0 then None else int64_of (c_quot (sint a) (sint b)))"

definition c_mod64 :: "int64 \<Rightarrow> int64 \<Rightarrow> int64 option" where
  "c_mod64 a b =
     (if sint b = 0 \<or> \<not> int64_range (c_quot (sint a) (sint b)) then None
      else int64_of (c_rem (sint a) (sint b)))"

lemma sint_int64_range [simp]: "int64_range (sint (a :: int64))"
  using sint_range_size [of a] by (simp add: int64_range_def word_size)

lemma sint_of_int64_range: "int64_range x \<Longrightarrow> sint (word_of_int x :: int64) = x"
  by (simp add: int64_range_def sint_sbintrunc' signed_take_bit_int_eq_self)

lemma int64_of_sint [simp]: "int64_of (sint (a :: int64)) = Some a"
  by (simp add: int64_of_def)

lemma int64_of_SomeD: "int64_of x = Some a \<Longrightarrow> sint a = x"
  by (auto simp: int64_of_def sint_of_int64_range split: if_splits)

lemma int64_of_eq_Some_iff: "int64_of x = Some a \<longleftrightarrow> sint a = x"
  by (auto dest: int64_of_SomeD)

lemma int64_of_None_iff: "int64_of x = None \<longleftrightarrow> \<not> int64_range x"
  by (simp add: int64_of_def)

lemma c_rem_bound: "b \<noteq> 0 \<Longrightarrow> \<bar>c_rem a b\<bar> < \<bar>b\<bar>"
proof -
  assume b: "b \<noteq> 0"
  have "c_rem a b = sgn a * (\<bar>a\<bar> mod \<bar>b\<bar>)"
    using b by (cases "0 \<le> a"; cases "0 \<le> b")
      (auto simp: c_rem_def c_quot_def minus_div_mult_eq_mod algebra_simps sgn_if
        minus_mult_div_eq_mod [symmetric])
  then show ?thesis
    using b by (auto simp: abs_mult sgn_if)
qed

section \<open>Lists\<close>

lemma take_Suc_nth_append: "i < length xs \<Longrightarrow> take (Suc i) xs = take i xs @ [xs ! i]"
  by (rule take_Suc_conv_app_nth)

lemma nth_in_drop: "i \<le> j \<Longrightarrow> j < length xs \<Longrightarrow> xs ! j \<in> set (drop i xs)"
  by (auto simp: in_set_conv_nth intro!: exI [of _ "j - i"])

lemma in_set_drop_mono: "x \<in> set (drop j xs) \<Longrightarrow> i \<le> j \<Longrightarrow> x \<in> set (drop i xs)"
  using set_drop_subset_set_drop [of i j xs] by auto

end
