(* ===== verification/Common.thy ===== *)
theory Common
  imports Prelude
begin

unbundle bit_operations_syntax

text \<open>
  The header \<open>include/cnegative/common.h\<close> (string views and their hash) and the growable
  arrays. A string view is a pointer into a buffer and a length: \<open>Sv base start len\<close> is
  the view of \<open>len\<close> bytes at \<open>base + start\<close>, and \<open>SvNull\<close> the view with a null pointer.
  A growable array is the triple \<open>items / count / capacity\<close> that \<open>token.h\<close>,
  \<open>diagnostics.h\<close>, \<open>ast.h\<close> and \<open>ir.h\<close> repeat; a slot that was never written holds
  \<^term>\<open>None\<close>, so that a write outside the array would be lost and the laws below fail.
\<close>

section \<open>String views\<close>

datatype cn_strview =
    SvNull
  | Sv (sv_base: string) (sv_start: nat) (sv_len: nat)

fun cn_sv_length :: "cn_strview \<Rightarrow> nat" where
  "cn_sv_length SvNull = 0"
| "cn_sv_length (Sv b s n) = n"

fun sv_str :: "cn_strview \<Rightarrow> string" where
  "sv_str SvNull = []"
| "sv_str (Sv b s n) = take n (drop s b)"

text \<open>The byte \<open>data[-1]\<close> in front of a view; \<^term>\<open>None\<close> where that is outside the buffer.\<close>

fun sv_prev_byte :: "cn_strview \<Rightarrow> char option" where
  "sv_prev_byte SvNull = None"
| "sv_prev_byte (Sv b s n) = (if 0 < s \<and> s \<le> length b then Some (b ! (s - 1)) else None)"

fun sv_valid :: "cn_strview \<Rightarrow> bool" where
  "sv_valid SvNull = True"
| "sv_valid (Sv b s n) = (s + n \<le> length b)"

definition cn_sv_eq :: "cn_strview \<Rightarrow> cn_strview \<Rightarrow> bool" where
  "cn_sv_eq left right =
     (if cn_sv_length left \<noteq> cn_sv_length right then False
      else if cn_sv_length left = 0 then True
      else sv_str left = sv_str right)"

definition cn_sv_from_cstr :: "string \<Rightarrow> cn_strview" where
  "cn_sv_from_cstr s = Sv s 0 (length s)"

definition cn_sv_eq_cstr :: "cn_strview \<Rightarrow> string \<Rightarrow> bool" where
  "cn_sv_eq_cstr left right = cn_sv_eq left (cn_sv_from_cstr right)"

definition cn_sv_hash :: "cn_strview \<Rightarrow> 64 word" where
  "cn_sv_hash v =
     foldl (\<lambda>hash c. (hash XOR of_nat (of_char c)) * 1099511628211) 1469598103934665603 (sv_str v)"

lemma sv_str_length [simp]: "sv_valid v \<Longrightarrow> length (sv_str v) = cn_sv_length v"
  by (cases v) auto

lemma cn_sv_eq_iff: "sv_valid l \<Longrightarrow> sv_valid r \<Longrightarrow> cn_sv_eq l r \<longleftrightarrow> sv_str l = sv_str r"
  unfolding cn_sv_eq_def by (metis length_0_conv sv_str_length)

lemma sv_str_from_cstr [simp]: "sv_str (cn_sv_from_cstr s) = s"
  by (simp add: cn_sv_from_cstr_def)

lemma sv_valid_from_cstr [simp]: "sv_valid (cn_sv_from_cstr s)"
  by (simp add: cn_sv_from_cstr_def)

lemma cn_sv_eq_cstr_iff: "sv_valid v \<Longrightarrow> cn_sv_eq_cstr v s \<longleftrightarrow> sv_str v = s"
  by (simp add: cn_sv_eq_cstr_def cn_sv_eq_iff)

lemma cn_sv_hash_content: "sv_valid l \<Longrightarrow> sv_valid r \<Longrightarrow> cn_sv_eq l r \<Longrightarrow> cn_sv_hash l = cn_sv_hash r"
  by (simp add: cn_sv_eq_iff cn_sv_hash_def)

section \<open>Formatting\<close>

text \<open>\<open>snprintf\<close> into a buffer of \<open>n\<close> bytes keeps at most \<open>n - 1\<close> characters.\<close>

definition c_snprintf :: "nat \<Rightarrow> string \<Rightarrow> string" where
  "c_snprintf n s = take (n - 1) s"

text \<open>The conversion \<open>%zu\<close>.\<close>

fun nat_digits :: "nat \<Rightarrow> string" where
  "nat_digits n =
     (if n < 10 then [char_of (n + 48)] else nat_digits (n div 10) @ [char_of (n mod 10 + 48)])"

declare nat_digits.simps [simp del]

section \<open>Growable arrays\<close>

record 'a dyn_array =
  slots :: "'a option list"
  count :: nat
  capacity :: nat

definition arr_empty :: "'a dyn_array" where
  "arr_empty = \<lparr>slots = [], count = 0, capacity = 0\<rparr>"

definition arr_items :: "'a dyn_array \<Rightarrow> 'a list" where
  "arr_items b = map the (take (count b) (slots b))"

definition arr_invar :: "'a dyn_array \<Rightarrow> bool" where
  "arr_invar b \<longleftrightarrow> length (slots b) = capacity b \<and> count b \<le> capacity b
     \<and> (\<forall>i < count b. slots b ! i \<noteq> None)"

text \<open>\<open>CN_REALLOC\<close> to a larger size keeps the old elements and adds unwritten ones.\<close>

definition arr_realloc :: "nat \<Rightarrow> 'a dyn_array \<Rightarrow> 'a dyn_array" where
  "arr_realloc new_capacity b = b\<lparr>slots := take new_capacity (slots b)
       @ replicate (new_capacity - length (slots b)) None, capacity := new_capacity\<rparr>"

text \<open>\<open>items[count++] = x\<close>\<close>

definition arr_store :: "'a dyn_array \<Rightarrow> 'a \<Rightarrow> 'a dyn_array" where
  "arr_store b x = b\<lparr>slots := (slots b)[count b := Some x], count := Suc (count b)\<rparr>"

text \<open>The loop \<open>while (new_capacity < required) new_capacity *= 2\<close>.\<close>

function cn_double_until :: "nat \<Rightarrow> nat \<Rightarrow> nat" where
  "cn_double_until cap required =
     (if 0 < cap \<and> cap < required then cn_double_until (cap * 2) required else cap)"
  by pat_completeness auto
termination
  by (relation "measure (\<lambda>(cap, required). required - cap)") auto

declare cn_double_until.simps [simp del]

text \<open>\<open>cn_grow_items\<close> of \<open>ast.c\<close>, which \<open>ir.c\<close> repeats as \<open>cn_ir_grow_items\<close>.\<close>

definition cn_grow_items :: "nat \<Rightarrow> 'a dyn_array \<Rightarrow> 'a dyn_array" where
  "cn_grow_items required b =
     (if required \<le> capacity b then b
      else arr_realloc
             (cn_double_until (if capacity b = 0 then 8 else capacity b * 2) required) b)"

definition cn_list_push :: "'a dyn_array \<Rightarrow> 'a \<Rightarrow> 'a dyn_array" where
  "cn_list_push b x = arr_store (cn_grow_items (count b + 1) b) x"

lemma cn_double_until_ge: "0 < cap \<Longrightarrow> required \<le> cn_double_until cap required"
proof (induction cap required rule: cn_double_until.induct)
  case (1 cap required)
  then show ?case
    by (cases "cap < required") (auto simp: cn_double_until.simps [of cap required])
qed

lemma arr_realloc_invar:
  "arr_invar b \<Longrightarrow> capacity b \<le> n \<Longrightarrow> arr_invar (arr_realloc n b)"
  by (auto simp: arr_invar_def arr_realloc_def nth_append)

lemma arr_realloc_items:
  "arr_invar b \<Longrightarrow> capacity b \<le> n \<Longrightarrow> arr_items (arr_realloc n b) = arr_items b"
  by (auto simp: arr_invar_def arr_realloc_def arr_items_def)

lemma arr_realloc_count [simp]: "count (arr_realloc n b) = count b"
  and arr_realloc_capacity [simp]: "capacity (arr_realloc n b) = n"
  by (simp_all add: arr_realloc_def)

lemma arr_store_invar:
  "arr_invar b \<Longrightarrow> count b < capacity b \<Longrightarrow> arr_invar (arr_store b x)"
  by (auto simp: arr_invar_def arr_store_def nth_list_update less_Suc_eq)

lemma arr_store_items:
  "arr_invar b \<Longrightarrow> count b < capacity b \<Longrightarrow> arr_items (arr_store b x) = arr_items b @ [x]"
  by (simp add: arr_invar_def arr_store_def arr_items_def take_Suc_conv_app_nth)

lemma arr_items_length: "arr_invar b \<Longrightarrow> length (arr_items b) = count b"
  by (simp add: arr_invar_def arr_items_def)

lemma arr_empty_laws [simp]: "arr_invar arr_empty" "arr_items arr_empty = []"
  by (simp_all add: arr_invar_def arr_empty_def arr_items_def)

section \<open>The contract of a growable array\<close>

text \<open>
  What every client of a push operation relies on: the array seen as a list grows by one
  element at its end, and the invariant (every counted slot is allocated and written)
  is kept.
\<close>

locale growable =
  fixes push :: "'b \<Rightarrow> 'a \<Rightarrow> 'b"
    and items :: "'b \<Rightarrow> 'a list"
    and invar :: "'b \<Rightarrow> bool"
  assumes items_push: "invar b \<Longrightarrow> items (push b x) = items b @ [x]"
    and invar_push: "invar b \<Longrightarrow> invar (push b x)"
begin

lemma invar_pushes: "invar b \<Longrightarrow> invar (foldl push b xs)"
  by (induction xs arbitrary: b) (auto simp: invar_push)

lemma items_pushes: "invar b \<Longrightarrow> items (foldl push b xs) = items b @ xs"
  by (induction xs arbitrary: b) (auto simp: items_push invar_push)

lemma push_keeps_old:
  "invar b \<Longrightarrow> i < length (items b) \<Longrightarrow> items (foldl push b xs) ! i = items b ! i"
  by (simp add: items_pushes nth_append)

end

interpretation ast_list: growable cn_list_push arr_items arr_invar
proof
  fix b :: "'a dyn_array" and x
  assume inv: "arr_invar b"
  let ?g = "cn_grow_items (count b + 1) b"
  have g: "arr_invar ?g \<and> arr_items ?g = arr_items b \<and> count ?g = count b \<and> count b < capacity ?g"
  proof (cases "count b + 1 \<le> capacity b")
    case True
    with inv show ?thesis by (simp add: cn_grow_items_def)
  next
    case False
    let ?n = "cn_double_until (if capacity b = 0 then 8 else capacity b * 2) (count b + 1)"
    have ge: "count b + 1 \<le> ?n"
      by (rule cn_double_until_ge) simp
    with False have "capacity b \<le> ?n" by simp
    with False ge inv show ?thesis
      by (simp add: cn_grow_items_def arr_realloc_invar arr_realloc_items)
  qed
  then show "arr_items (cn_list_push b x) = arr_items b @ [x]"
    and "arr_invar (cn_list_push b x)"
    by (simp_all add: cn_list_push_def arr_store_items arr_store_invar)
qed

end
