(* ===== verification/Source.thy ===== *)
theory Source
  imports Common
begin

text \<open>
  Source files, \<open>src/support/source.c\<close>: loading a file with its table of line starts, and
  the two queries the diagnostics printer makes, from a byte offset to a line and column
  (a binary search in the table) and from a line number to the text of the line. The file
  system is a parameter: what \<open>fopen\<close>, \<open>fseek\<close>, \<open>ftell\<close> and \<open>fread\<close> answer for a path.
  Sizes and offsets are \<open>size_t\<close> values, modelled as natural numbers.
\<close>

abbreviation c_nul :: char where "c_nul \<equiv> CHR 0x00"
abbreviation c_nl :: char where "c_nl \<equiv> CHR 0x0A"
abbreviation c_cr :: char where "c_cr \<equiv> CHR 0x0D"
abbreviation c_tab :: char where "c_tab \<equiv> CHR 0x09"
abbreviation c_quote :: string where "c_quote \<equiv> [CHR 0x27]"

section \<open>State and operations\<close>

record cn_source =
  src_path :: string
  src_text :: string
  src_length :: nat
  line_offsets :: "nat list"
  line_count :: nat

datatype file_answer =
    OpenFails
  | SeekFails
  | TellFails
  | RewindFails
  | ShortRead
  | FileBytes string

definition cn_count_lines :: "string \<Rightarrow> nat" where
  "cn_count_lines buf = foldl (\<lambda>lines c. if c = c_nl then lines + 1 else lines) 1 buf"

text \<open>The loop that fills the table: \<open>i\<close> is the byte index, \<open>li\<close> the next free entry.\<close>

fun fill_line_offsets :: "string \<Rightarrow> nat \<Rightarrow> nat \<Rightarrow> nat \<Rightarrow> nat list \<Rightarrow> nat list" where
  "fill_line_offsets [] i li n offs = offs"
| "fill_line_offsets (c # cs) i li n offs =
     (if c = c_nl \<and> li < n then fill_line_offsets cs (i + 1) (li + 1) n (offs[li := i + 1])
      else fill_line_offsets cs (i + 1) li n offs)"

definition cn_source_of_bytes :: "string \<Rightarrow> string \<Rightarrow> cn_source" where
  "cn_source_of_bytes p bytes =
     (let n = cn_count_lines bytes
      in \<lparr>src_path = p, src_text = bytes, src_length = length bytes,
          line_offsets = fill_line_offsets bytes 0 1 n ((replicate n 0)[0 := 0]),
          line_count = n\<rparr>)"

definition cn_source_load :: "(string \<Rightarrow> file_answer) \<Rightarrow> string \<Rightarrow> nat \<Rightarrow> string + cn_source" where
  "cn_source_load fs p error_buffer_size =
     (case fs p of
        OpenFails \<Rightarrow> Inl (c_snprintf error_buffer_size (''could not open '' @ c_quote @ p @ c_quote))
      | SeekFails \<Rightarrow> Inl (c_snprintf error_buffer_size (''could not seek '' @ c_quote @ p @ c_quote))
      | TellFails \<Rightarrow> Inl (c_snprintf error_buffer_size (''could not measure '' @ c_quote @ p @ c_quote))
      | RewindFails \<Rightarrow> Inl (c_snprintf error_buffer_size (''could not rewind '' @ c_quote @ p @ c_quote))
      | ShortRead \<Rightarrow> Inl (c_snprintf error_buffer_size (''could not read '' @ c_quote @ p @ c_quote))
      | FileBytes bytes \<Rightarrow> Inr (cn_source_of_bytes p bytes))"

function position_search :: "nat list \<Rightarrow> nat \<Rightarrow> nat \<Rightarrow> nat \<Rightarrow> nat" where
  "position_search offs offset low high =
     (if low + 1 < high
      then let mid = low + (high - low) div 2
           in if offs ! mid \<le> offset then position_search offs offset mid high
              else position_search offs offset low mid
      else low)"
  by pat_completeness auto
termination
  by (relation "measure (\<lambda>(offs, offset, low, high). high - low)") auto

declare position_search.simps [simp del]

definition cn_source_position :: "cn_source \<Rightarrow> nat \<Rightarrow> nat \<times> nat" where
  "cn_source_position s offset =
     (let low = position_search (line_offsets s) offset 0 (line_count s)
      in (low + 1, (offset - line_offsets s ! low) + 1))"

text \<open>The loop \<open>while (end > start && text[end - 1] == '\r') end -= 1\<close>.\<close>

fun trim_cr :: "string \<Rightarrow> nat \<Rightarrow> nat \<Rightarrow> nat" where
  "trim_cr buf start 0 = 0"
| "trim_cr buf start (Suc e) =
     (if start < Suc e \<and> buf ! e = c_cr then trim_cr buf start e else Suc e)"

definition cn_source_line :: "cn_source \<Rightarrow> nat \<Rightarrow> cn_strview option" where
  "cn_source_line s ln =
     (if ln = 0 \<or> line_count s < ln then None
      else let start = line_offsets s ! (ln - 1);
               e0 = (if ln < line_count s then line_offsets s ! ln - 1 else src_length s);
               e = trim_cr (src_text s) start e0
           in Some (Sv (src_text s) start (e - start)))"

section \<open>The table of line starts\<close>

text \<open>
  The specification: the line of an offset is one more than the number of newlines in
  front of it, its column one more than the distance to the last of them.
\<close>

definition pos_line :: "string \<Rightarrow> nat \<Rightarrow> nat" where
  "pos_line buf i = 1 + count_list (take i buf) c_nl"

definition pos_column :: "string \<Rightarrow> nat \<Rightarrow> nat" where
  "pos_column buf i = 1 + length (takeWhile (\<lambda>c. c \<noteq> c_nl) (rev (take i buf)))"

text \<open>The starts of all lines, read off the text.\<close>

fun line_starts :: "nat \<Rightarrow> string \<Rightarrow> nat list" where
  "line_starts i [] = []"
| "line_starts i (c # cs) = (if c = c_nl then (i + 1) # line_starts (i + 1) cs else line_starts (i + 1) cs)"

lemma length_line_starts: "length (line_starts i cs) = count_list cs c_nl"
  by (induction cs arbitrary: i) auto

lemma cn_count_lines_eq: "cn_count_lines buf = 1 + count_list buf c_nl"
proof -
  have "foldl (\<lambda>lines c. if c = c_nl then lines + 1 else lines) k buf = k + count_list buf c_nl" for k :: nat
    by (induction buf arbitrary: k) auto
  then show ?thesis by (simp add: cn_count_lines_def)
qed

lemma fill_line_offsets_eq:
  "li + count_list cs c_nl = n \<Longrightarrow> length offs = n \<Longrightarrow>
   fill_line_offsets cs i li n offs = take li offs @ line_starts i cs"
proof (induction cs arbitrary: i li offs)
  case Nil
  then show ?case by simp
next
  case (Cons c cs)
  then show ?case
    by (cases "c = c_nl") (simp_all add: take_Suc_conv_app_nth)
qed

definition wf_source :: "cn_source \<Rightarrow> bool" where
  "wf_source s \<longleftrightarrow> src_length s = length (src_text s) \<and> line_count s = length (line_offsets s)
     \<and> line_offsets s = 0 # line_starts 0 (src_text s)"

lemma wf_source_of_bytes: "wf_source (cn_source_of_bytes p bytes)"
  by (simp add: wf_source_def cn_source_of_bytes_def Let_def cn_count_lines_eq
      fill_line_offsets_eq length_line_starts)

lemma text_source_of_bytes [simp]: "src_text (cn_source_of_bytes p bytes) = bytes"
  and length_source_of_bytes [simp]: "src_length (cn_source_of_bytes p bytes) = length bytes"
  by (simp_all add: cn_source_of_bytes_def Let_def)

lemma cn_source_load_wf: "cn_source_load fs p n = Inr s \<Longrightarrow> wf_source s"
  by (auto simp: cn_source_load_def wf_source_of_bytes split: file_answer.splits)

section \<open>Offsets to lines and columns\<close>

lemma line_starts_bounds: "x \<in> set (line_starts i cs) \<Longrightarrow> i < x \<and> x \<le> i + length cs"
  by (induction cs arbitrary: i) (fastforce split: if_splits)+

lemma line_starts_sorted: "sorted_wrt (<) (line_starts i cs)"
  by (induction cs arbitrary: i) (auto dest: line_starts_bounds)

lemma line_starts_nth:
  "k < length cs \<Longrightarrow> cs ! k = c_nl \<Longrightarrow> line_starts i cs ! count_list (take k cs) c_nl = i + k + 1"
proof (induction cs arbitrary: i k)
  case Nil
  then show ?case by simp
next
  case (Cons c cs)
  then show ?case by (cases k) auto
qed

lemma line_start_of_offset:
  assumes "off \<le> length buf"
  shows "(0 # line_starts 0 buf) ! count_list (take off buf) c_nl
           = off - length (takeWhile (\<lambda>c. c \<noteq> c_nl) (rev (take off buf)))"
  using assms
proof (induction off)
  case 0
  show ?case by simp
next
  case (Suc off)
  then have t: "take (Suc off) buf = take off buf @ [buf ! off]"
    by (simp add: take_Suc_conv_app_nth)
  have le: "length (takeWhile (\<lambda>c. c \<noteq> c_nl) (rev (take off buf))) \<le> off"
    by (rule order_trans [OF length_takeWhile_le]) simp
  from Suc le show ?case
    by (cases "buf ! off = c_nl") (simp_all add: t line_starts_nth)
qed

lemma starts_upto_offset:
  "length (filter (\<lambda>x. x \<le> off) (line_starts i cs)) = count_list (take (off - i) cs) c_nl"
proof (induction cs arbitrary: i)
  case Nil
  then show ?case by simp
next
  case (Cons c cs)
  have none: "filter (\<lambda>x. x \<le> off) (line_starts (i + 1) cs) = []" if "off \<le> i"
    using that by (auto simp: filter_empty_conv dest!: line_starts_bounds)
  show ?case
  proof (cases "i < off")
    case True
    then have "off - i = Suc (off - (i + 1))" by simp
    with Cons True show ?thesis by simp
  next
    case False
    with none show ?thesis by simp
  qed
qed

lemma sorted_count_le:
  assumes "sorted_wrt (<) xs" and "r < length xs" and "xs ! r \<le> (off :: nat)"
    and "r + 1 < length xs \<Longrightarrow> off < xs ! (r + 1)"
  shows "length (filter (\<lambda>x. x \<le> off) xs) = r + 1"
proof -
  have mono: "xs ! i \<le> xs ! j" if "i \<le> j" and "j < length xs" for i j
    using that assms(1) by (metis le_neq_implies_less less_imp_le order_refl sorted_wrt_nth_less)
  have "xs ! i \<le> off \<longleftrightarrow> i \<le> r" if "i < length xs" for i
  proof
    assume le: "xs ! i \<le> off"
    show "i \<le> r"
    proof (rule ccontr)
      assume "\<not> i \<le> r"
      with that have "r + 1 < length xs" and "xs ! (r + 1) \<le> xs ! i" by (auto intro: mono)
      with le assms(4) show False by simp
    qed
  next
    assume "i \<le> r"
    with assms(2,3) mono [of i r] show "xs ! i \<le> off" by simp
  qed
  then have "{i. i < length xs \<and> xs ! i \<le> off} = {..r}"
    using assms(2) by auto
  then show ?thesis by (simp add: length_filter_conv_card)
qed

lemma position_search_spec:
  assumes "low < high" and "high \<le> length offs" and "offs ! low \<le> offset"
    and "high < length offs \<Longrightarrow> offset < offs ! high"
  shows "position_search offs offset low high < length offs
     \<and> offs ! position_search offs offset low high \<le> offset
     \<and> (position_search offs offset low high + 1 < length offs \<longrightarrow>
          offset < offs ! (position_search offs offset low high + 1))"
  using assms
proof (induction offs offset low high rule: position_search.induct)
  case (1 offs offset low high)
  let ?mid = "low + (high - low) div 2"
  show ?case
  proof (cases "low + 1 < high")
    case True
    then have m: "low < ?mid" "?mid < high" by auto
    show ?thesis
    proof (cases "offs ! ?mid \<le> offset")
      case T2: True
      from "1.IH"(1) [OF True refl T2] m T2 "1.prems" True show ?thesis
        by (simp add: position_search.simps [of offs offset low high] Let_def)
    next
      case F2: False
      from "1.IH"(2) [OF True refl F2] m F2 "1.prems" True show ?thesis
        by (simp add: position_search.simps [of offs offset low high] Let_def)
    qed
  next
    case False
    then have "position_search offs offset low high = low"
      by (simp add: position_search.simps [of offs offset low high])
    moreover from False "1.prems" have "high = low + 1" by simp
    ultimately show ?thesis using "1.prems" by simp
  qed
qed

lemma cn_source_position_spec:
  assumes wf: "wf_source s" and off: "offset \<le> src_length s"
  shows "cn_source_position s offset = (pos_line (src_text s) offset, pos_column (src_text s) offset)"
proof -
  let ?offs = "0 # line_starts 0 (src_text s)"
  let ?r = "position_search ?offs offset 0 (length ?offs)"
  from wf have offs: "line_offsets s = ?offs" and n: "line_count s = length ?offs"
    by (auto simp: wf_source_def)
  have r: "?r < length ?offs" "?offs ! ?r \<le> offset" "?r + 1 < length ?offs \<Longrightarrow> offset < ?offs ! (?r + 1)"
    using position_search_spec [of 0 "length ?offs" ?offs offset] by auto
  have "sorted_wrt (<) ?offs"
    using line_starts_sorted by (auto dest: line_starts_bounds)
  from sorted_count_le [OF this r] have "?r = count_list (take offset (src_text s)) c_nl"
    using starts_upto_offset [of offset 0 "src_text s"] by simp
  moreover have "offset \<le> length (src_text s)"
    using wf off by (simp add: wf_source_def)
  moreover have "length (takeWhile (\<lambda>c. c \<noteq> c_nl) (rev (take offset (src_text s)))) \<le> offset"
    by (rule order_trans [OF length_takeWhile_le]) simp
  ultimately show ?thesis
    by (simp add: cn_source_position_def offs n Let_def pos_line_def pos_column_def
        line_start_of_offset)
qed

section \<open>Lines\<close>

text \<open>The specification of a line: the text cut at its newlines, without trailing carriage returns.\<close>

fun split_lines :: "string \<Rightarrow> string list" where
  "split_lines [] = [[]]"
| "split_lines (c # cs) =
     (if c = c_nl then [] # split_lines cs
      else (c # hd (split_lines cs)) # tl (split_lines cs))"

definition strip_cr :: "string \<Rightarrow> string" where
  "strip_cr l = rev (dropWhile (\<lambda>c. c = c_cr) (rev l))"

lemma split_lines_nonempty [simp]: "split_lines cs \<noteq> []"
  by (induction cs) auto

lemma length_split_lines: "length (split_lines cs) = Suc (count_list cs c_nl)"
  by (induction cs) auto

lemma trim_cr_bounds: "start \<le> e \<Longrightarrow> start \<le> trim_cr buf start e \<and> trim_cr buf start e \<le> e"
  by (induction e) auto

lemma trim_cr_strip:
  "start \<le> e \<Longrightarrow> e \<le> length buf \<Longrightarrow>
   take (trim_cr buf start e - start) (drop start buf) = strip_cr (take (e - start) (drop start buf))"
proof (induction e)
  case 0
  then show ?case by (simp add: strip_cr_def)
next
  case (Suc e)
  show ?case
  proof (cases "start \<le> e")
    case True
    with Suc.prems have "take (Suc e - start) (drop start buf) = take (e - start) (drop start buf) @ [buf ! e]"
      by (simp add: Suc_diff_le take_Suc_conv_app_nth)
    with Suc True show ?thesis by (auto simp: strip_cr_def)
  next
    case False
    with Suc.prems have "start = Suc e" by simp
    then show ?thesis by (simp add: strip_cr_def)
  qed
qed

text \<open>The slice between two neighbouring entries of the table is the line between them.\<close>

definition line_end :: "nat \<Rightarrow> string \<Rightarrow> nat \<Rightarrow> nat" where
  "line_end i cs k = (if k < length (line_starts i cs) then line_starts i cs ! k - 1 else i + length cs)"

lemma line_starts_ge: "k < length (line_starts i cs) \<Longrightarrow> i < line_starts i cs ! k"
  using line_starts_bounds nth_mem by blast

lemma line_end_ge: "i \<le> line_end i cs 0"
  using line_starts_ge [of 0 i cs] by (auto simp: line_end_def)

lemma line_slice:
  "k < Suc (count_list cs c_nl) \<Longrightarrow>
   take (line_end i cs k - (i # line_starts i cs) ! k) (drop ((i # line_starts i cs) ! k - i) cs)
     = split_lines cs ! k"
proof (induction cs arbitrary: i k)
  case Nil
  then show ?case by simp
next
  case (Cons c cs)
  show ?case
  proof (cases "c = c_nl")
    case True
    show ?thesis
    proof (cases k)
      case 0
      with True show ?thesis by (simp add: line_end_def)
    next
      case (Suc k')
      let ?x = "((i + 1) # line_starts (i + 1) cs) ! k'"
      have "i + 1 \<le> ?x"
        using Cons.prems Suc True line_starts_ge [of "k' - 1" "i + 1" cs]
        by (cases k') (auto simp: length_line_starts)
      then have "drop (?x - i) (c # cs) = drop (?x - (i + 1)) cs"
        by (simp add: drop_Cons')
      moreover have "line_end i (c # cs) k = line_end (i + 1) cs k'"
        using True Suc by (simp add: line_end_def)
      ultimately show ?thesis
        using Cons.IH [of k' "i + 1"] Cons.prems True Suc by simp
    qed
  next
    case False
    have e: "line_end i (c # cs) k = line_end (i + 1) cs k"
      using False by (simp add: line_end_def)
    show ?thesis
    proof (cases k)
      case 0
      have "take (line_end (i + 1) cs 0 - i) (c # cs) = c # take (line_end (i + 1) cs 0 - (i + 1)) cs"
        using line_end_ge [of "i + 1" cs] by (simp add: take_Cons')
      with Cons.IH [of 0 "i + 1"] False 0 e show ?thesis
        by (simp add: hd_conv_nth)
    next
      case (Suc k')
      have "i + 1 < line_starts (i + 1) cs ! k'"
        using Cons.prems Suc False line_starts_ge [of k' "i + 1" cs]
        by (simp add: length_line_starts)
      then have "drop (line_starts (i + 1) cs ! k' - i) (c # cs) = drop (line_starts (i + 1) cs ! k' - (i + 1)) cs"
        by (simp add: drop_Cons')
      moreover have "split_lines (c # cs) ! k = split_lines cs ! k"
        using Suc False by (cases "split_lines cs") auto
      ultimately show ?thesis
        using Cons.IH [of k "i + 1"] Cons.prems False Suc e by simp
    qed
  qed
qed

lemma line_end_bounds:
  assumes "k < Suc (count_list cs c_nl)"
  shows "(i # line_starts i cs) ! k \<le> line_end i cs k \<and> line_end i cs k \<le> i + length cs"
proof -
  let ?xs = "i # line_starts i cs"
  have sorted: "sorted_wrt (<) ?xs"
    using line_starts_sorted by (auto dest: line_starts_bounds)
  have len: "length ?xs = Suc (count_list cs c_nl)"
    by (simp add: length_line_starts)
  have upper: "x \<in> set ?xs \<Longrightarrow> x \<le> i + length cs" for x
    by (auto dest: line_starts_bounds)
  show ?thesis
  proof (cases "Suc k < length ?xs")
    case True
    then have "?xs ! k < ?xs ! Suc k"
      by (intro sorted_wrt_nth_less [OF sorted]) simp_all
    moreover have "?xs ! Suc k \<le> i + length cs"
      using True by (intro upper nth_mem)
    ultimately show ?thesis using True by (auto simp: line_end_def)
  next
    case False
    then have "line_end i cs k = i + length cs"
      by (simp add: line_end_def)
    moreover have "?xs ! k \<le> i + length cs"
      using assms len by (intro upper nth_mem) simp
    ultimately show ?thesis by simp
  qed
qed

lemma cn_source_line_spec:
  assumes wf: "wf_source s" and k: "k < line_count s"
  shows "\<exists>v. cn_source_line s (Suc k) = Some v \<and> sv_valid v
           \<and> sv_str v = strip_cr (split_lines (src_text s) ! k)"
proof -
  let ?t = "src_text s"
  let ?start = "line_offsets s ! k"
  let ?e = "line_end 0 ?t k"
  from wf have offs: "line_offsets s = 0 # line_starts 0 ?t" and len: "src_length s = length ?t"
    and n: "line_count s = Suc (count_list ?t c_nl)"
    by (auto simp: wf_source_def length_line_starts)
  have e: "(if Suc k < line_count s then line_offsets s ! Suc k - 1 else src_length s) = ?e"
    by (simp add: n offs len line_end_def length_line_starts)
  have b: "?start \<le> ?e" "?e \<le> length ?t"
    using line_end_bounds [of k ?t 0] k n offs by auto
  have "cn_source_line s (Suc k) = Some (Sv ?t ?start (trim_cr ?t ?start ?e - ?start))"
    using k e by (simp add: cn_source_line_def Let_def)
  moreover have "take (trim_cr ?t ?start ?e - ?start) (drop ?start ?t) = strip_cr (split_lines ?t ! k)"
    using trim_cr_strip [OF b] line_slice [of k ?t 0] k n offs by simp
  moreover have "?start + (trim_cr ?t ?start ?e - ?start) \<le> length ?t"
    using trim_cr_bounds [of ?start ?e ?t] b by simp
  ultimately show ?thesis by simp
qed

section \<open>Properties\<close>

text \<open>
  C19: The binary search of \<open>cn_source_position\<close> agrees with counting: for a file loaded by
  \<open>cn_source_load\<close> and every offset up to its end, the line is one more than the number of
  newlines before the offset and the column one more than the distance to the last newline.
\<close>

theorem source_position_counts_newlines:
  assumes "cn_source_load fs p n = Inr s" and "offset \<le> src_length s"
  shows "cn_source_position s offset
           = (1 + count_list (take offset (src_text s)) c_nl,
              1 + length (takeWhile (\<lambda>c. c \<noteq> c_nl) (rev (take offset (src_text s)))))"
  using cn_source_position_spec [OF cn_source_load_wf [OF assms(1)] assms(2)]
  by (simp add: pos_line_def pos_column_def)

theorem source_position_counts_newlines_witness:
  "cn_source_position (cn_source_of_bytes ''m.cneg'' (''ab'' @ [c_nl, c_nl] @ ''cd'')) 5 = (3, 2)"
  using source_position_counts_newlines
    [of "\<lambda>_. FileBytes (''ab'' @ [c_nl, c_nl] @ ''cd'')" "''m.cneg''" 64
        "cn_source_of_bytes ''m.cneg'' (''ab'' @ [c_nl, c_nl] @ ''cd'')" 5]
  by (simp add: cn_source_load_def)

text \<open>
  C20: Lines and positions fit together: for a loaded file, \<open>cn_source_line\<close> answers exactly
  for the line numbers \<open>1 \<dots> line_count\<close>, the view it returns lies inside the file's
  bytes, and its text is that line of the file, cut at the newlines, without its trailing
  carriage returns.
\<close>

theorem source_line_is_split_line:
  assumes "cn_source_load fs p n = Inr s"
  shows "line_count s = length (split_lines (src_text s))
     \<and> (cn_source_line s ln = None \<longleftrightarrow> ln = 0 \<or> length (split_lines (src_text s)) < ln)
     \<and> (\<forall>v. cn_source_line s ln = Some v \<longrightarrow>
           sv_valid v \<and> sv_str v = strip_cr (split_lines (src_text s) ! (ln - 1)))"
proof (intro conjI allI impI)
  have wf: "wf_source s" using assms by (rule cn_source_load_wf)
  then show n: "line_count s = length (split_lines (src_text s))"
    by (auto simp: wf_source_def length_line_starts length_split_lines)
  then show "cn_source_line s ln = None \<longleftrightarrow> ln = 0 \<or> length (split_lines (src_text s)) < ln"
    by (auto simp: cn_source_line_def Let_def)
  fix v
  assume v: "cn_source_line s ln = Some v"
  then have "0 < ln" and "ln \<le> line_count s"
    by (auto simp: cn_source_line_def split: if_splits)
  then have "ln - 1 < line_count s" and "Suc (ln - 1) = ln" by simp_all
  with cn_source_line_spec [OF wf, of "ln - 1"] v
  show "sv_valid v" and "sv_str v = strip_cr (split_lines (src_text s) ! (ln - 1))"
    by auto
qed

theorem source_line_is_split_line_witness:
  "line_count (cn_source_of_bytes ''m.cneg'' (''ab'' @ [c_cr, c_nl] @ ''cd'')) = 2
   \<and> map_option sv_str (cn_source_line (cn_source_of_bytes ''m.cneg'' (''ab'' @ [c_cr, c_nl] @ ''cd'')) 1)
       = Some ''ab''"
proof -
  let ?b = "''ab'' @ [c_cr, c_nl] @ ''cd''"
  let ?s = "cn_source_of_bytes ''m.cneg'' ?b"
  have load: "cn_source_load (\<lambda>_. FileBytes ?b) ''m.cneg'' 64 = Inr ?s"
    by (simp add: cn_source_load_def)
  have split: "split_lines ?b = [''ab'' @ [c_cr], ''cd'']" by simp
  from source_line_is_split_line [OF load, of 1]
  obtain v where "cn_source_line ?s 1 = Some v" and "sv_str v = ''ab''" and "line_count ?s = 2"
    unfolding text_source_of_bytes split by (auto simp: strip_cr_def)
  then show ?thesis by simp
qed

end
