(* ===== verification/Diagnostics.thy ===== *)
theory Diagnostics
  imports Source
begin

text \<open>
  The diagnostics bag, \<open>src/support/diagnostics.c\<close>: a growable array of diagnostics that
  the lexer, the parser and the later passes append to and that is scanned for errors at
  the end of each pass. A diagnostic keeps the source file it belongs to. The message is
  the formatted text; formatting itself (\<open>vsnprintf\<close>) is done at the call sites below, so
  its failure branch cannot be reached. Printing is modelled as the text it writes.
\<close>

datatype cn_diag_level = CN_DIAG_ERROR | CN_DIAG_NOTE

record cn_diagnostic =
  level :: cn_diag_level
  code :: string
  diag_source :: "cn_source option"
  diag_offset :: nat
  message :: string

record cn_diag_bag =
  bag_source :: "cn_source option"
  bag_items :: "cn_diagnostic dyn_array"

definition cn_diag_level_name :: "cn_diag_level \<Rightarrow> string" where
  "cn_diag_level_name l = (case l of CN_DIAG_ERROR \<Rightarrow> ''error'' | CN_DIAG_NOTE \<Rightarrow> ''note'')"

definition cn_diag_reserve :: "cn_diag_bag \<Rightarrow> nat \<Rightarrow> cn_diag_bag" where
  "cn_diag_reserve bag required =
     (if required \<le> capacity (bag_items bag) then bag
      else bag\<lparr>bag_items :=
        arr_realloc
          (cn_double_until
             (if capacity (bag_items bag) = 0 then 8 else capacity (bag_items bag) * 2) required)
          (bag_items bag)\<rparr>)"

definition cn_diag_bag_init :: "cn_source option \<Rightarrow> cn_diag_bag" where
  "cn_diag_bag_init src = \<lparr>bag_source = src, bag_items = arr_empty\<rparr>"

definition cn_diag_bag_set_source :: "cn_diag_bag \<Rightarrow> cn_source option \<Rightarrow> cn_diag_bag" where
  "cn_diag_bag_set_source bag src = bag\<lparr>bag_source := src\<rparr>"

definition cn_diag_bag_destroy :: "cn_diag_bag \<Rightarrow> cn_diag_bag" where
  "cn_diag_bag_destroy bag = bag\<lparr>bag_items := arr_empty\<rparr>"

definition cn_diag_push :: "cn_diag_bag \<Rightarrow> cn_diagnostic \<Rightarrow> cn_diag_bag" where
  "cn_diag_push bag d =
     (let bag' = cn_diag_reserve bag (count (bag_items bag) + 1)
      in bag'\<lparr>bag_items := arr_store (bag_items bag') d\<rparr>)"

definition cn_diag_emit :: "cn_diag_bag \<Rightarrow> cn_diag_level \<Rightarrow> string \<Rightarrow> nat \<Rightarrow> string \<Rightarrow> cn_diag_bag" where
  "cn_diag_emit bag l c off msg =
     cn_diag_push bag \<lparr>level = l, code = c, diag_source = bag_source bag,
       diag_offset = off, message = msg\<rparr>"

definition diags :: "cn_diag_bag \<Rightarrow> cn_diagnostic list" where
  "diags bag = arr_items (bag_items bag)"

definition diag_invar :: "cn_diag_bag \<Rightarrow> bool" where
  "diag_invar bag \<longleftrightarrow> arr_invar (bag_items bag)"

text \<open>The loop of \<open>cn_diag_has_error\<close>, with its early return.\<close>

fun has_error_from :: "cn_diagnostic list \<Rightarrow> bool" where
  "has_error_from [] = False"
| "has_error_from (d # ds) = (if level d = CN_DIAG_ERROR then True else has_error_from ds)"

definition cn_diag_has_error :: "cn_diag_bag \<Rightarrow> bool" where
  "cn_diag_has_error bag = has_error_from (diags bag)"

section \<open>Printing\<close>

definition diag_header :: "cn_diagnostic \<Rightarrow> nat \<Rightarrow> nat \<Rightarrow> string" where
  "diag_header d ln col =
     (case diag_source d of
        Some s \<Rightarrow> src_path s @ '':'' @ nat_digits ln @ '':'' @ nat_digits col @ '': ''
      | None \<Rightarrow> '''')
     @ cn_diag_level_name (level d) @ ''['' @ code d @ '']: '' @ message d @ [c_nl]"

definition diag_caret :: "cn_strview option \<Rightarrow> nat \<Rightarrow> string" where
  "diag_caret line_text col =
     (case line_text of
        None \<Rightarrow> ''''
      | Some v \<Rightarrow> ''  '' @ sv_str v @ [c_nl] @ ''  '' @ replicate (col - 1) (CHR '' '') @ ''^'' @ [c_nl])"

definition cn_diag_print :: "cn_diagnostic \<Rightarrow> string" where
  "cn_diag_print d =
     (let (ln, col) = (case diag_source d of
             None \<Rightarrow> (1, diag_offset d + 1)
           | Some s \<Rightarrow> cn_source_position s (diag_offset d));
          line_text = (case diag_source d of
             None \<Rightarrow> None
           | Some s \<Rightarrow> cn_source_line s ln)
      in diag_header d ln col @ diag_caret line_text col)"

definition cn_diag_print_all :: "cn_diag_bag \<Rightarrow> string" where
  "cn_diag_print_all bag = concat (map cn_diag_print (diags bag))"

section \<open>The bag is a growable array\<close>

interpretation diag_array: growable cn_diag_push diags diag_invar
proof
  fix b :: cn_diag_bag and d
  assume inv: "diag_invar b"
  let ?a = "bag_items b"
  let ?r = "cn_diag_reserve b (count ?a + 1)"
  have r: "arr_invar (bag_items ?r) \<and> arr_items (bag_items ?r) = arr_items ?a
      \<and> count (bag_items ?r) = count ?a \<and> count ?a < capacity (bag_items ?r)"
  proof (cases "count ?a + 1 \<le> capacity ?a")
    case True
    with inv show ?thesis by (simp add: cn_diag_reserve_def diag_invar_def)
  next
    case False
    have ge: "count ?a + 1 \<le> cn_double_until (if capacity ?a = 0 then 8 else capacity ?a * 2) (count ?a + 1)"
      by (rule cn_double_until_ge) simp
    with False inv show ?thesis
      by (simp add: cn_diag_reserve_def diag_invar_def arr_realloc_invar arr_realloc_items)
  qed
  then show "diags (cn_diag_push b d) = diags b @ [d]" and "diag_invar (cn_diag_push b d)"
    by (simp_all add: cn_diag_push_def Let_def diags_def diag_invar_def arr_store_items arr_store_invar)
qed

lemma cn_diag_emit_invar [simp]: "diag_invar bag \<Longrightarrow> diag_invar (cn_diag_emit bag l c off msg)"
  by (simp add: cn_diag_emit_def diag_array.invar_push)

lemma cn_diag_emit_diags:
  "diag_invar bag \<Longrightarrow> diags (cn_diag_emit bag l c off msg) =
     diags bag @ [\<lparr>level = l, code = c, diag_source = bag_source bag, diag_offset = off, message = msg\<rparr>]"
  by (simp add: cn_diag_emit_def diag_array.items_push)

lemma cn_diag_emit_source [simp]: "bag_source (cn_diag_emit bag l c off msg) = bag_source bag"
  by (simp add: cn_diag_emit_def cn_diag_push_def cn_diag_reserve_def Let_def)

lemma has_error_from_iff: "has_error_from ds \<longleftrightarrow> (\<exists>d \<in> set ds. level d = CN_DIAG_ERROR)"
  by (induction ds) auto

lemma cn_diag_bag_init_laws [simp]:
  "diag_invar (cn_diag_bag_init src)" "diags (cn_diag_bag_init src) = []"
  by (simp_all add: cn_diag_bag_init_def diag_invar_def diags_def)

text \<open>The number of errors in the bag, the measure the parser contract counts.\<close>

definition error_count :: "cn_diag_bag \<Rightarrow> nat" where
  "error_count bag = length (filter (\<lambda>d. level d = CN_DIAG_ERROR) (diags bag))"

lemma cn_diag_has_error_iff: "cn_diag_has_error bag \<longleftrightarrow> 0 < error_count bag"
  by (auto simp: cn_diag_has_error_def has_error_from_iff error_count_def filter_empty_conv)

lemma error_count_emit:
  "diag_invar bag \<Longrightarrow> error_count (cn_diag_emit bag CN_DIAG_ERROR c off msg) = Suc (error_count bag)"
  by (simp add: error_count_def cn_diag_emit_diags)

section \<open>Properties\<close>

text \<open>A run of \<open>cn_diag_emit\<close> calls.\<close>

definition emit_all :: "(cn_diag_level \<times> string \<times> nat \<times> string) list \<Rightarrow> cn_diag_bag \<Rightarrow> cn_diag_bag" where
  "emit_all es bag = fold (\<lambda>(l, c, off, msg) b. cn_diag_emit b l c off msg) es bag"

lemma emit_all_laws:
  "diag_invar bag \<Longrightarrow>
   diag_invar (emit_all es bag) \<and>
   diags (emit_all es bag) = diags bag @ map (\<lambda>(l, c, off, msg). \<lparr>level = l, code = c,
     diag_source = bag_source bag, diag_offset = off, message = msg\<rparr>) es"
proof (induction es arbitrary: bag)
  case Nil
  then show ?case by (simp add: emit_all_def)
next
  case (Cons e es)
  obtain l c off msg where e: "e = (l, c, off, msg)" by (cases e)
  from Cons.IH [of "cn_diag_emit bag l c off msg"] Cons.prems show ?case
    by (simp add: emit_all_def e cn_diag_emit_diags)
qed

text \<open>
  C21: No diagnostic is lost or reordered, however often the array grows: after any sequence
  of emits on a fresh bag the bag holds exactly those diagnostics, in order, each with the
  bag's source file; and \<open>cn_diag_has_error\<close> answers true exactly when one of the emitted
  levels was an error.
\<close>

theorem diag_bag_keeps_all:
  "diags (emit_all es (cn_diag_bag_init src)) = map (\<lambda>(l, c, off, msg). \<lparr>level = l, code = c,
           diag_source = src, diag_offset = off, message = msg\<rparr>) es
   \<and> (cn_diag_has_error (emit_all es (cn_diag_bag_init src)) \<longleftrightarrow> CN_DIAG_ERROR \<in> fst ` set es)"
proof -
  have "bag_source (cn_diag_bag_init src) = src" by (simp add: cn_diag_bag_init_def)
  then have d: "diags (emit_all es (cn_diag_bag_init src)) = map (\<lambda>(l, c, off, msg). \<lparr>level = l, code = c,
           diag_source = src, diag_offset = off, message = msg\<rparr>) es"
    using emit_all_laws [of "cn_diag_bag_init src" es] by simp
  then have "cn_diag_has_error (emit_all es (cn_diag_bag_init src)) \<longleftrightarrow> CN_DIAG_ERROR \<in> fst ` set es"
    by (force simp: cn_diag_has_error_def has_error_from_iff)
  with d show ?thesis by simp
qed

end
