(* ===== verification/Tokens.thy ===== *)
theory Tokens
  imports Diagnostics
begin

text \<open>
  Tokens, \<open>include/cnegative/token.h\<close> and \<open>src/lex/token.c\<close>: the token kinds with the names
  the diagnostics print, and the token buffer, a growable array that starts at 64 entries
  and doubles.
\<close>

datatype (plugins only: size) cn_token_kind =
    CN_TOKEN_EOF
  | CN_TOKEN_IDENTIFIER
  | CN_TOKEN_INT_LITERAL
  | CN_TOKEN_STRING_LITERAL
  | CN_TOKEN_TRUE
  | CN_TOKEN_FALSE
  | CN_TOKEN_NULL
  | CN_TOKEN_FN
  | CN_TOKEN_PFN
  | CN_TOKEN_CONST
  | CN_TOKEN_PCONST
  | CN_TOKEN_LET
  | CN_TOKEN_MUT
  | CN_TOKEN_RETURN
  | CN_TOKEN_IF
  | CN_TOKEN_ELSE
  | CN_TOKEN_WHILE
  | CN_TOKEN_LOOP
  | CN_TOKEN_FOR
  | CN_TOKEN_IN
  | CN_TOKEN_STRUCT
  | CN_TOKEN_PSTRUCT
  | CN_TOKEN_IMPORT
  | CN_TOKEN_AS
  | CN_TOKEN_INT
  | CN_TOKEN_U8
  | CN_TOKEN_BYTE
  | CN_TOKEN_BOOL
  | CN_TOKEN_STR
  | CN_TOKEN_VOID
  | CN_TOKEN_RESULT
  | CN_TOKEN_OK
  | CN_TOKEN_ERR
  | CN_TOKEN_PTR
  | CN_TOKEN_ALLOC
  | CN_TOKEN_ZALLOC
  | CN_TOKEN_ADDR
  | CN_TOKEN_DEREF
  | CN_TOKEN_FREE
  | CN_TOKEN_DEFER
  | CN_TOKEN_TRY
  | CN_TOKEN_ZONE
  | CN_TOKEN_SLICE
  | CN_TOKEN_LPAREN
  | CN_TOKEN_RPAREN
  | CN_TOKEN_LBRACE
  | CN_TOKEN_RBRACE
  | CN_TOKEN_LBRACKET
  | CN_TOKEN_RBRACKET
  | CN_TOKEN_COLON
  | CN_TOKEN_SEMICOLON
  | CN_TOKEN_COMMA
  | CN_TOKEN_DOT
  | CN_TOKEN_RANGE
  | CN_TOKEN_PLUS
  | CN_TOKEN_MINUS
  | CN_TOKEN_STAR
  | CN_TOKEN_SLASH
  | CN_TOKEN_PERCENT
  | CN_TOKEN_BANG
  | CN_TOKEN_EQUAL
  | CN_TOKEN_EQUAL_EQUAL
  | CN_TOKEN_BANG_EQUAL
  | CN_TOKEN_LESS
  | CN_TOKEN_LESS_EQUAL
  | CN_TOKEN_GREATER
  | CN_TOKEN_GREATER_EQUAL
  | CN_TOKEN_AMP_AMP
  | CN_TOKEN_PIPE_PIPE

text \<open>The switch of \<open>cn_token_kind_name\<close>.\<close>

primrec cn_token_kind_name :: "cn_token_kind \<Rightarrow> string" where
  "cn_token_kind_name CN_TOKEN_EOF = ''eof''"
| "cn_token_kind_name CN_TOKEN_IDENTIFIER = ''identifier''"
| "cn_token_kind_name CN_TOKEN_INT_LITERAL = ''int-literal''"
| "cn_token_kind_name CN_TOKEN_STRING_LITERAL = ''string-literal''"
| "cn_token_kind_name CN_TOKEN_TRUE = ''true''"
| "cn_token_kind_name CN_TOKEN_FALSE = ''false''"
| "cn_token_kind_name CN_TOKEN_NULL = ''null''"
| "cn_token_kind_name CN_TOKEN_FN = ''fn''"
| "cn_token_kind_name CN_TOKEN_PFN = ''pfn''"
| "cn_token_kind_name CN_TOKEN_CONST = ''const''"
| "cn_token_kind_name CN_TOKEN_PCONST = ''pconst''"
| "cn_token_kind_name CN_TOKEN_LET = ''let''"
| "cn_token_kind_name CN_TOKEN_MUT = ''mut''"
| "cn_token_kind_name CN_TOKEN_RETURN = ''return''"
| "cn_token_kind_name CN_TOKEN_IF = ''if''"
| "cn_token_kind_name CN_TOKEN_ELSE = ''else''"
| "cn_token_kind_name CN_TOKEN_WHILE = ''while''"
| "cn_token_kind_name CN_TOKEN_LOOP = ''loop''"
| "cn_token_kind_name CN_TOKEN_FOR = ''for''"
| "cn_token_kind_name CN_TOKEN_IN = ''in''"
| "cn_token_kind_name CN_TOKEN_STRUCT = ''struct''"
| "cn_token_kind_name CN_TOKEN_PSTRUCT = ''pstruct''"
| "cn_token_kind_name CN_TOKEN_IMPORT = ''import''"
| "cn_token_kind_name CN_TOKEN_AS = ''as''"
| "cn_token_kind_name CN_TOKEN_INT = ''int''"
| "cn_token_kind_name CN_TOKEN_U8 = ''u8''"
| "cn_token_kind_name CN_TOKEN_BYTE = ''byte''"
| "cn_token_kind_name CN_TOKEN_BOOL = ''bool''"
| "cn_token_kind_name CN_TOKEN_STR = ''str''"
| "cn_token_kind_name CN_TOKEN_VOID = ''void''"
| "cn_token_kind_name CN_TOKEN_RESULT = ''result''"
| "cn_token_kind_name CN_TOKEN_OK = ''ok''"
| "cn_token_kind_name CN_TOKEN_ERR = ''err''"
| "cn_token_kind_name CN_TOKEN_PTR = ''ptr''"
| "cn_token_kind_name CN_TOKEN_ALLOC = ''alloc''"
| "cn_token_kind_name CN_TOKEN_ZALLOC = ''zalloc''"
| "cn_token_kind_name CN_TOKEN_ADDR = ''addr''"
| "cn_token_kind_name CN_TOKEN_DEREF = ''deref''"
| "cn_token_kind_name CN_TOKEN_FREE = ''free''"
| "cn_token_kind_name CN_TOKEN_DEFER = ''defer''"
| "cn_token_kind_name CN_TOKEN_TRY = ''try''"
| "cn_token_kind_name CN_TOKEN_ZONE = ''zone''"
| "cn_token_kind_name CN_TOKEN_SLICE = ''slice''"
| "cn_token_kind_name CN_TOKEN_LPAREN = ''(''"
| "cn_token_kind_name CN_TOKEN_RPAREN = '')''"
| "cn_token_kind_name CN_TOKEN_LBRACE = ''{''"
| "cn_token_kind_name CN_TOKEN_RBRACE = ''}''"
| "cn_token_kind_name CN_TOKEN_LBRACKET = ''[''"
| "cn_token_kind_name CN_TOKEN_RBRACKET = '']''"
| "cn_token_kind_name CN_TOKEN_COLON = '':''"
| "cn_token_kind_name CN_TOKEN_SEMICOLON = '';''"
| "cn_token_kind_name CN_TOKEN_COMMA = '',''"
| "cn_token_kind_name CN_TOKEN_DOT = ''.''"
| "cn_token_kind_name CN_TOKEN_RANGE = ''..''"
| "cn_token_kind_name CN_TOKEN_PLUS = ''+''"
| "cn_token_kind_name CN_TOKEN_MINUS = ''-''"
| "cn_token_kind_name CN_TOKEN_STAR = ''*''"
| "cn_token_kind_name CN_TOKEN_SLASH = ''/''"
| "cn_token_kind_name CN_TOKEN_PERCENT = ''%''"
| "cn_token_kind_name CN_TOKEN_BANG = ''!''"
| "cn_token_kind_name CN_TOKEN_EQUAL = ''=''"
| "cn_token_kind_name CN_TOKEN_EQUAL_EQUAL = ''==''"
| "cn_token_kind_name CN_TOKEN_BANG_EQUAL = ''!=''"
| "cn_token_kind_name CN_TOKEN_LESS = ''<''"
| "cn_token_kind_name CN_TOKEN_LESS_EQUAL = ''<=''"
| "cn_token_kind_name CN_TOKEN_GREATER = ''>''"
| "cn_token_kind_name CN_TOKEN_GREATER_EQUAL = ''>=''"
| "cn_token_kind_name CN_TOKEN_AMP_AMP = ''&&''"
| "cn_token_kind_name CN_TOKEN_PIPE_PIPE = ''||''"

record cn_token =
  kind :: cn_token_kind
  lexeme :: cn_strview
  offset :: nat
  line :: nat
  column :: nat

type_synonym cn_token_buffer = "cn_token dyn_array"

definition cn_token_buffer_init :: cn_token_buffer where
  "cn_token_buffer_init = arr_empty"

definition cn_token_buffer_destroy :: "cn_token_buffer \<Rightarrow> cn_token_buffer" where
  "cn_token_buffer_destroy b = b\<lparr>slots := [], count := 0, capacity := 0\<rparr>"

definition cn_token_buffer_push :: "cn_token_buffer \<Rightarrow> cn_token \<Rightarrow> cn_token_buffer" where
  "cn_token_buffer_push b t =
     (let b' = (if count b = capacity b
                then arr_realloc (if capacity b = 0 then 64 else capacity b * 2) b else b)
      in arr_store b' t)"

interpretation token_array: growable cn_token_buffer_push arr_items arr_invar
proof
  fix b :: cn_token_buffer and t
  assume inv: "arr_invar b"
  let ?b = "if count b = capacity b then arr_realloc (if capacity b = 0 then 64 else capacity b * 2) b else b"
  have "arr_invar ?b \<and> arr_items ?b = arr_items b \<and> count ?b = count b \<and> count b < capacity ?b"
  proof (cases "count b = capacity b")
    case True
    with inv show ?thesis by (simp add: arr_realloc_invar arr_realloc_items)
  next
    case False
    with inv show ?thesis by (simp add: arr_invar_def)
  qed
  then show "arr_items (cn_token_buffer_push b t) = arr_items b @ [t]"
    and "arr_invar (cn_token_buffer_push b t)"
    by (simp_all only: cn_token_buffer_push_def Let_def arr_store_items arr_store_invar)
qed

lemma cn_token_buffer_init_laws [simp]:
  "arr_invar cn_token_buffer_init" "arr_items cn_token_buffer_init = []"
  by (simp_all add: cn_token_buffer_init_def)

text \<open>The kinds whose spelling is fixed: all but the end of file and the literal classes.\<close>

definition fixed_spelling :: "cn_token_kind \<Rightarrow> bool" where
  "fixed_spelling k \<longleftrightarrow>
     k \<notin> {CN_TOKEN_EOF, CN_TOKEN_IDENTIFIER, CN_TOKEN_INT_LITERAL, CN_TOKEN_STRING_LITERAL}"

end
