(* ===== verification/Lexer.thy ===== *)
theory Lexer
  imports Tokens
begin

text \<open>
  The lexer, \<open>src/lex/lexer.c\<close>, with the portable scanners of \<open>src/asm/scan_fallback.c\<close>.
  The state is the record \<open>cn_lexer\<close>; the token buffer is passed and returned. The main
  loop is kept as a loop (\<^const>\<open>while_option\<close>): \<^term>\<open>None\<close> means that it never ends, which
  happens exactly when the file has a NUL byte, since \<open>cn_lexer_advance\<close> does not step over
  one. The argument list of \<open>cn_lexer_emit\<close> for \<open>!\<close>, \<open>=\<close>, \<open><\<close> and \<open>>\<close> calls
  \<open>cn_lexer_match\<close>, which moves the index, beside an argument that reads the index; C leaves
  the order open, so the model has it as the parameter \<open>ltr\<close> (left to right).
\<close>

section \<open>State and scanning primitives\<close>

record cn_lexer =
  lx_source :: cn_source
  lx_diags :: cn_diag_bag
  lx_index :: nat
  lx_line :: nat
  lx_column :: nat

definition cn_lexer_peek :: "cn_lexer \<Rightarrow> char" where
  "cn_lexer_peek lx =
     (if src_length (lx_source lx) \<le> lx_index lx then c_nul
      else src_text (lx_source lx) ! lx_index lx)"

definition cn_lexer_peek_next :: "cn_lexer \<Rightarrow> char" where
  "cn_lexer_peek_next lx =
     (if src_length (lx_source lx) \<le> lx_index lx + 1 then c_nul
      else src_text (lx_source lx) ! (lx_index lx + 1))"

definition cn_lexer_advance :: "cn_lexer \<Rightarrow> char \<times> cn_lexer" where
  "cn_lexer_advance lx =
     (let value = cn_lexer_peek lx
      in if value = c_nul then (value, lx)
         else (value,
           if value = c_nl
           then lx\<lparr>lx_index := lx_index lx + 1, lx_line := lx_line lx + 1, lx_column := 1\<rparr>
           else lx\<lparr>lx_index := lx_index lx + 1, lx_column := lx_column lx + 1\<rparr>))"

definition cn_lexer_match :: "cn_lexer \<Rightarrow> char \<Rightarrow> bool \<times> cn_lexer" where
  "cn_lexer_match lx expected =
     (if cn_lexer_peek lx \<noteq> expected then (False, lx) else (True, snd (cn_lexer_advance lx)))"

definition cn_lexer_emit ::
  "cn_lexer \<Rightarrow> cn_token_buffer \<Rightarrow> cn_token_kind \<Rightarrow> nat \<Rightarrow> nat \<Rightarrow> nat \<Rightarrow> nat \<Rightarrow> cn_token_buffer" where
  "cn_lexer_emit lx toks k off ln col len =
     cn_token_buffer_push toks
       \<lparr>kind = k, lexeme = Sv (src_text (lx_source lx)) off len, offset = off, line = ln, column = col\<rparr>"

definition lexer_error :: "cn_lexer \<Rightarrow> string \<Rightarrow> nat \<Rightarrow> string \<Rightarrow> cn_lexer" where
  "lexer_error lx c off msg = lx\<lparr>lx_diags := cn_diag_emit (lx_diags lx) CN_DIAG_ERROR c off msg\<rparr>"

definition cn_keyword_kind :: "cn_strview \<Rightarrow> cn_token_kind" where
  "cn_keyword_kind v =
     (if cn_sv_eq_cstr v ''fn'' then CN_TOKEN_FN
      else if cn_sv_eq_cstr v ''pfn'' then CN_TOKEN_PFN
      else if cn_sv_eq_cstr v ''const'' then CN_TOKEN_CONST
      else if cn_sv_eq_cstr v ''pconst'' then CN_TOKEN_PCONST
      else if cn_sv_eq_cstr v ''let'' then CN_TOKEN_LET
      else if cn_sv_eq_cstr v ''mut'' then CN_TOKEN_MUT
      else if cn_sv_eq_cstr v ''return'' then CN_TOKEN_RETURN
      else if cn_sv_eq_cstr v ''if'' then CN_TOKEN_IF
      else if cn_sv_eq_cstr v ''else'' then CN_TOKEN_ELSE
      else if cn_sv_eq_cstr v ''while'' then CN_TOKEN_WHILE
      else if cn_sv_eq_cstr v ''loop'' then CN_TOKEN_LOOP
      else if cn_sv_eq_cstr v ''for'' then CN_TOKEN_FOR
      else if cn_sv_eq_cstr v ''in'' then CN_TOKEN_IN
      else if cn_sv_eq_cstr v ''struct'' then CN_TOKEN_STRUCT
      else if cn_sv_eq_cstr v ''pstruct'' then CN_TOKEN_PSTRUCT
      else if cn_sv_eq_cstr v ''import'' then CN_TOKEN_IMPORT
      else if cn_sv_eq_cstr v ''as'' then CN_TOKEN_AS
      else if cn_sv_eq_cstr v ''int'' then CN_TOKEN_INT
      else if cn_sv_eq_cstr v ''u8'' then CN_TOKEN_U8
      else if cn_sv_eq_cstr v ''byte'' then CN_TOKEN_BYTE
      else if cn_sv_eq_cstr v ''bool'' then CN_TOKEN_BOOL
      else if cn_sv_eq_cstr v ''str'' then CN_TOKEN_STR
      else if cn_sv_eq_cstr v ''void'' then CN_TOKEN_VOID
      else if cn_sv_eq_cstr v ''ok'' then CN_TOKEN_OK
      else if cn_sv_eq_cstr v ''err'' then CN_TOKEN_ERR
      else if cn_sv_eq_cstr v ''ptr'' then CN_TOKEN_PTR
      else if cn_sv_eq_cstr v ''alloc'' then CN_TOKEN_ALLOC
      else if cn_sv_eq_cstr v ''zalloc'' then CN_TOKEN_ZALLOC
      else if cn_sv_eq_cstr v ''addr'' then CN_TOKEN_ADDR
      else if cn_sv_eq_cstr v ''deref'' then CN_TOKEN_DEREF
      else if cn_sv_eq_cstr v ''free'' then CN_TOKEN_FREE
      else if cn_sv_eq_cstr v ''defer'' then CN_TOKEN_DEFER
      else if cn_sv_eq_cstr v ''try'' then CN_TOKEN_TRY
      else if cn_sv_eq_cstr v ''zone'' then CN_TOKEN_ZONE
      else if cn_sv_eq_cstr v ''slice'' then CN_TOKEN_SLICE
      else if cn_sv_eq_cstr v ''true'' then CN_TOKEN_TRUE
      else if cn_sv_eq_cstr v ''false'' then CN_TOKEN_FALSE
      else if cn_sv_eq_cstr v ''null'' then CN_TOKEN_NULL
      else CN_TOKEN_IDENTIFIER)"

definition cn_is_ascii_digit :: "char \<Rightarrow> bool" where
  "cn_is_ascii_digit c \<longleftrightarrow> (48 :: nat) \<le> of_char c \<and> of_char c \<le> (57 :: nat)"

definition cn_is_ascii_alpha :: "char \<Rightarrow> bool" where
  "cn_is_ascii_alpha c \<longleftrightarrow>
     ((65 :: nat) \<le> of_char c \<and> of_char c \<le> (90 :: nat))
     \<or> ((97 :: nat) \<le> of_char c \<and> of_char c \<le> (122 :: nat))"

definition cn_is_ascii_ident_continue :: "char \<Rightarrow> bool" where
  "cn_is_ascii_ident_continue c \<longleftrightarrow> c = CHR ''_'' \<or> cn_is_ascii_digit c \<or> cn_is_ascii_alpha c"

function cn_scan_number_tail :: "string \<Rightarrow> nat \<Rightarrow> nat \<Rightarrow> nat" where
  "cn_scan_number_tail buf len i =
     (if i < len \<and> cn_is_ascii_digit (buf ! i) then cn_scan_number_tail buf len (i + 1) else i)"
  by pat_completeness auto
termination
  by (relation "measure (\<lambda>(buf, len, i). len - i)") auto

function cn_scan_identifier_tail :: "string \<Rightarrow> nat \<Rightarrow> nat \<Rightarrow> nat" where
  "cn_scan_identifier_tail buf len i =
     (if i < len \<and> cn_is_ascii_ident_continue (buf ! i)
      then cn_scan_identifier_tail buf len (i + 1) else i)"
  by pat_completeness auto
termination
  by (relation "measure (\<lambda>(buf, len, i). len - i)") auto

declare cn_scan_number_tail.simps [simp del] cn_scan_identifier_tail.simps [simp del]

lemma advance_source [simp]: "lx_source (snd (cn_lexer_advance lx)) = lx_source lx"
  and advance_diags [simp]: "lx_diags (snd (cn_lexer_advance lx)) = lx_diags lx"
  and advance_index: "lx_index (snd (cn_lexer_advance lx)) =
        (if cn_lexer_peek lx = c_nul then lx_index lx else Suc (lx_index lx))"
  and advance_value [simp]: "fst (cn_lexer_advance lx) = cn_lexer_peek lx"
  by (simp_all add: cn_lexer_advance_def Let_def)

lemma peek_in_range: "cn_lexer_peek lx \<noteq> c_nul \<Longrightarrow> lx_index lx < src_length (lx_source lx)"
  by (auto simp: cn_lexer_peek_def split: if_splits)

definition lx_left :: "cn_lexer \<Rightarrow> nat" where
  "lx_left lx = src_length (lx_source lx) - lx_index lx"

lemma advance_left: "cn_lexer_peek lx \<noteq> c_nul \<Longrightarrow> lx_left (snd (cn_lexer_advance lx)) < lx_left lx"
  using peek_in_range [of lx] by (simp add: lx_left_def advance_index)

section \<open>White space, numbers, identifiers and strings\<close>

text \<open>The inner loop of a comment: up to the end of the line or the end of the text.\<close>

function lexer_skip_comment :: "cn_lexer \<Rightarrow> cn_lexer" where
  "lexer_skip_comment lx =
     (if cn_lexer_peek lx \<noteq> c_nul \<and> cn_lexer_peek lx \<noteq> c_nl
      then lexer_skip_comment (snd (cn_lexer_advance lx)) else lx)"
  by pat_completeness auto
termination
  by (relation "measure lx_left") (simp_all add: advance_left)

declare lexer_skip_comment.simps [simp del]

lemma skip_comment_left: "lx_left (lexer_skip_comment lx) \<le> lx_left lx"
proof (induction lx rule: lexer_skip_comment.induct)
  case (1 lx)
  show ?case
  proof (cases "cn_lexer_peek lx \<noteq> c_nul \<and> cn_lexer_peek lx \<noteq> c_nl")
    case True
    with 1 advance_left [of lx] show ?thesis
      by (simp add: lexer_skip_comment.simps [of lx])
  next
    case False
    then show ?thesis by (auto simp: lexer_skip_comment.simps [of lx])
  qed
qed

definition lexer_is_space :: "char \<Rightarrow> bool" where
  "lexer_is_space c \<longleftrightarrow> c = CHR '' '' \<or> c = c_tab \<or> c = c_cr \<or> c = c_nl"

definition lexer_at_comment :: "cn_lexer \<Rightarrow> bool" where
  "lexer_at_comment lx \<longleftrightarrow> cn_lexer_peek lx = CHR ''/'' \<and> cn_lexer_peek_next lx = CHR ''/''"

function cn_lexer_skip_whitespace :: "cn_lexer \<Rightarrow> cn_lexer" where
  "cn_lexer_skip_whitespace lx =
     (if lexer_is_space (cn_lexer_peek lx) then cn_lexer_skip_whitespace (snd (cn_lexer_advance lx))
      else if lexer_at_comment lx then cn_lexer_skip_whitespace (lexer_skip_comment lx)
      else lx)"
  by pat_completeness auto
termination
proof (relation "measure lx_left")
  fix lx assume "lexer_is_space (cn_lexer_peek lx)"
  then show "(snd (cn_lexer_advance lx), lx) \<in> measure lx_left"
    by (auto simp: lexer_is_space_def intro!: advance_left)
next
  fix lx assume "lexer_at_comment lx"
  then have c: "cn_lexer_peek lx = CHR ''/''" by (simp add: lexer_at_comment_def)
  then have "lexer_skip_comment lx = lexer_skip_comment (snd (cn_lexer_advance lx))"
    by (simp add: lexer_skip_comment.simps [of lx])
  moreover have "lx_left (snd (cn_lexer_advance lx)) < lx_left lx"
    by (rule advance_left) (simp add: c)
  ultimately show "(lexer_skip_comment lx, lx) \<in> measure lx_left"
    using skip_comment_left [of "snd (cn_lexer_advance lx)"] by simp
qed simp

declare cn_lexer_skip_whitespace.simps [simp del]

definition cn_lexer_scan_number ::
  "cn_lexer \<Rightarrow> cn_token_buffer \<Rightarrow> nat \<Rightarrow> nat \<Rightarrow> nat \<Rightarrow> cn_lexer \<times> cn_token_buffer" where
  "cn_lexer_scan_number lx toks off ln col =
     (let e = cn_scan_number_tail (src_text (lx_source lx)) (src_length (lx_source lx)) (lx_index lx);
          lx' = lx\<lparr>lx_column := lx_column lx + (e - lx_index lx), lx_index := e\<rparr>
      in (lx', cn_lexer_emit lx' toks CN_TOKEN_INT_LITERAL off ln col (e - off)))"

definition cn_lexer_scan_identifier ::
  "cn_lexer \<Rightarrow> cn_token_buffer \<Rightarrow> nat \<Rightarrow> nat \<Rightarrow> nat \<Rightarrow> cn_lexer \<times> cn_token_buffer" where
  "cn_lexer_scan_identifier lx toks off ln col =
     (let e = cn_scan_identifier_tail (src_text (lx_source lx)) (src_length (lx_source lx)) (lx_index lx);
          lx' = lx\<lparr>lx_column := lx_column lx + (e - lx_index lx), lx_index := e\<rparr>;
          v = Sv (src_text (lx_source lx)) off (e - off)
      in (lx', cn_lexer_emit lx' toks (cn_keyword_kind v) off ln col (e - off)))"

text \<open>
  The loop of a quoted string: \<open>True\<close> when it stopped at a quote or at the end, \<open>False\<close>
  when it stopped at a newline.
\<close>

function lexer_string_loop :: "cn_lexer \<Rightarrow> bool \<times> cn_lexer" where
  "lexer_string_loop lx =
     (if cn_lexer_peek lx \<noteq> c_nul \<and> cn_lexer_peek lx \<noteq> CHR 0x22
      then if cn_lexer_peek lx = c_nl then (False, lx)
           else let lx1 = (if cn_lexer_peek lx = CHR 0x5C \<and> cn_lexer_peek_next lx \<noteq> c_nul
                           then snd (cn_lexer_advance lx) else lx)
                in lexer_string_loop (snd (cn_lexer_advance lx1))
      else (True, lx))"
  by pat_completeness auto
termination
proof (relation "measure lx_left", goal_cases)
  case (2 lx lx1)
  then have a: "lx_left (snd (cn_lexer_advance lx)) < lx_left lx"
    by (intro advance_left) simp
  have b: "lx_left (snd (cn_lexer_advance l)) \<le> lx_left l" for l
    by (auto simp: lx_left_def advance_index)
  from a b [of "snd (cn_lexer_advance lx)"] 2 show ?case
    by (auto split: if_splits)
qed simp

function lexer_raw_string_loop :: "cn_lexer \<Rightarrow> cn_lexer" where
  "lexer_raw_string_loop lx =
     (if cn_lexer_peek lx \<noteq> c_nul \<and> cn_lexer_peek lx \<noteq> CHR 0x60
      then lexer_raw_string_loop (snd (cn_lexer_advance lx)) else lx)"
  by pat_completeness auto
termination
  by (relation "measure lx_left") (simp_all add: advance_left)

declare lexer_string_loop.simps [simp del] lexer_raw_string_loop.simps [simp del]

definition lexer_string_token :: "cn_lexer \<Rightarrow> nat \<Rightarrow> nat \<Rightarrow> nat \<Rightarrow> nat \<Rightarrow> nat \<Rightarrow> cn_token" where
  "lexer_string_token lx off ln col content_start content_end =
     \<lparr>kind = CN_TOKEN_STRING_LITERAL,
      lexeme = Sv (src_text (lx_source lx)) content_start (content_end - content_start),
      offset = off, line = ln, column = col\<rparr>"

definition cn_lexer_scan_string ::
  "cn_lexer \<Rightarrow> cn_token_buffer \<Rightarrow> nat \<Rightarrow> nat \<Rightarrow> nat \<Rightarrow> cn_lexer \<times> cn_token_buffer" where
  "cn_lexer_scan_string lx toks off ln col =
     (let content_start = lx_index lx; (ended, lx1) = lexer_string_loop lx
      in if \<not> ended then (lexer_error lx1 ''E1005'' off ''unterminated string literal'', toks)
         else if cn_lexer_peek lx1 \<noteq> CHR 0x22
         then (lexer_error lx1 ''E1005'' off ''unterminated string literal'', toks)
         else let content_end = lx_index lx1; lx2 = snd (cn_lexer_advance lx1)
              in (lx2, cn_token_buffer_push toks (lexer_string_token lx off ln col content_start content_end)))"

definition cn_lexer_scan_raw_string ::
  "cn_lexer \<Rightarrow> cn_token_buffer \<Rightarrow> nat \<Rightarrow> nat \<Rightarrow> nat \<Rightarrow> cn_lexer \<times> cn_token_buffer" where
  "cn_lexer_scan_raw_string lx toks off ln col =
     (let content_start = lx_index lx; lx1 = lexer_raw_string_loop lx
      in if cn_lexer_peek lx1 \<noteq> CHR 0x60
         then (lexer_error lx1 ''E1005'' off ''unterminated raw string literal'', toks)
         else let content_end = lx_index lx1; lx2 = snd (cn_lexer_advance lx1)
              in (lx2, cn_token_buffer_push toks (lexer_string_token lx off ln col content_start content_end)))"

definition cn_lexer_init :: "cn_source \<Rightarrow> cn_diag_bag \<Rightarrow> cn_lexer" where
  "cn_lexer_init src bag =
     \<lparr>lx_source = src, lx_diags = bag, lx_index = 0, lx_line = 1, lx_column = 1\<rparr>"

section \<open>The main loop\<close>

text \<open>The cases of the switch that emit a token of one byte.\<close>

definition lexer_single :: "char \<Rightarrow> cn_token_kind option" where
  "lexer_single c =
     (if c = CHR ''('' then Some CN_TOKEN_LPAREN
      else if c = CHR '')'' then Some CN_TOKEN_RPAREN
      else if c = CHR ''{'' then Some CN_TOKEN_LBRACE
      else if c = CHR ''}'' then Some CN_TOKEN_RBRACE
      else if c = CHR ''['' then Some CN_TOKEN_LBRACKET
      else if c = CHR '']'' then Some CN_TOKEN_RBRACKET
      else if c = CHR '':'' then Some CN_TOKEN_COLON
      else if c = CHR '';'' then Some CN_TOKEN_SEMICOLON
      else if c = CHR '','' then Some CN_TOKEN_COMMA
      else if c = CHR ''+'' then Some CN_TOKEN_PLUS
      else if c = CHR ''-'' then Some CN_TOKEN_MINUS
      else if c = CHR ''*'' then Some CN_TOKEN_STAR
      else if c = CHR ''/'' then Some CN_TOKEN_SLASH
      else if c = CHR ''%'' then Some CN_TOKEN_PERCENT
      else None)"

text \<open>The cases that emit one token if an equals sign follows and another if not.\<close>

definition lexer_with_equal :: "char \<Rightarrow> (cn_token_kind \<times> cn_token_kind) option" where
  "lexer_with_equal c =
     (if c = CHR ''!'' then Some (CN_TOKEN_BANG_EQUAL, CN_TOKEN_BANG)
      else if c = CHR ''='' then Some (CN_TOKEN_EQUAL_EQUAL, CN_TOKEN_EQUAL)
      else if c = CHR ''<'' then Some (CN_TOKEN_LESS_EQUAL, CN_TOKEN_LESS)
      else if c = CHR ''>'' then Some (CN_TOKEN_GREATER_EQUAL, CN_TOKEN_GREATER)
      else None)"

definition lexer_unexpected :: "char \<Rightarrow> string" where
  "lexer_unexpected c = ''unexpected character '' @ c_quote @ [c] @ c_quote"

text \<open>The body of the switch for the byte \<open>value\<close> at \<open>off\<close>, which was just consumed.\<close>

definition lexer_switch ::
  "bool \<Rightarrow> char \<Rightarrow> cn_lexer \<Rightarrow> cn_token_buffer \<Rightarrow> nat \<Rightarrow> nat \<Rightarrow> nat \<Rightarrow> cn_lexer \<times> cn_token_buffer" where
  "lexer_switch ltr value lx toks off ln col =
     (case lexer_single value of
        Some k \<Rightarrow> (lx, cn_lexer_emit lx toks k off ln col 1)
      | None \<Rightarrow>
     (case lexer_with_equal value of
        Some (k2, k1) \<Rightarrow>
          (let (b, lx') = cn_lexer_match lx (CHR ''='')
           in (lx', cn_lexer_emit lx' toks (if b then k2 else k1) off ln col
                      ((if ltr then lx_index lx' else lx_index lx) - off)))
      | None \<Rightarrow>
     (if value = CHR ''.'' then
        (let (b, lx') = cn_lexer_match lx (CHR ''.'')
         in if b then (lx', cn_lexer_emit lx' toks CN_TOKEN_RANGE off ln col 2)
            else (lx', cn_lexer_emit lx' toks CN_TOKEN_DOT off ln col 1))
      else if value = CHR ''&'' then
        (let (b, lx') = cn_lexer_match lx (CHR ''&'')
         in if b then (lx', cn_lexer_emit lx' toks CN_TOKEN_AMP_AMP off ln col 2)
            else (lexer_error lx' ''E1004'' off (lexer_unexpected (CHR ''&'')), toks))
      else if value = CHR ''|'' then
        (let (b, lx') = cn_lexer_match lx (CHR ''|'')
         in if b then (lx', cn_lexer_emit lx' toks CN_TOKEN_PIPE_PIPE off ln col 2)
            else (lexer_error lx' ''E1004'' off (lexer_unexpected (CHR ''|'')), toks))
      else if value = CHR 0x22 then cn_lexer_scan_string lx toks off ln col
      else if value = CHR 0x60 then cn_lexer_scan_raw_string lx toks off ln col
      else if cn_is_ascii_digit value then cn_lexer_scan_number lx toks off ln col
      else if cn_is_ascii_alpha value \<or> value = CHR ''_'' then cn_lexer_scan_identifier lx toks off ln col
      else (lexer_error lx ''E1004'' off (lexer_unexpected value), toks))))"

text \<open>One turn of the main loop. The \<open>break\<close> at the end of the text leaves the state that the
  loop condition stops at.\<close>

definition lexer_turn :: "bool \<Rightarrow> cn_lexer \<times> cn_token_buffer \<Rightarrow> cn_lexer \<times> cn_token_buffer" where
  "lexer_turn ltr st =
     (let lx = cn_lexer_skip_whitespace (fst st)
      in if src_length (lx_source lx) \<le> lx_index lx then (lx, snd st)
         else lexer_switch ltr (fst (cn_lexer_advance lx)) (snd (cn_lexer_advance lx)) (snd st)
                (lx_index lx) (lx_line lx) (lx_column lx))"

definition lexer_eof :: "cn_lexer \<Rightarrow> cn_token" where
  "lexer_eof lx =
     \<lparr>kind = CN_TOKEN_EOF, lexeme = Sv (src_text (lx_source lx)) (src_length (lx_source lx)) 0,
      offset = src_length (lx_source lx), line = lx_line lx, column = lx_column lx\<rparr>"

definition cn_lexer_run :: "bool \<Rightarrow> cn_lexer \<Rightarrow> cn_token_buffer \<Rightarrow> (bool \<times> cn_lexer \<times> cn_token_buffer) option" where
  "cn_lexer_run ltr lx toks =
     (case while_option (\<lambda>st. lx_index (fst st) < src_length (lx_source (fst st)))
             (lexer_turn ltr) (lx, toks) of
        None \<Rightarrow> None
      | Some (lx', toks') \<Rightarrow>
          Some (\<not> cn_diag_has_error (lx_diags lx'), lx', cn_token_buffer_push toks' (lexer_eof lx')))"

section \<open>Positions are kept\<close>

lemma pos_line_Suc:
  "i < length buf \<Longrightarrow> pos_line buf (Suc i) = (if buf ! i = c_nl then pos_line buf i + 1 else pos_line buf i)"
  by (simp add: pos_line_def take_Suc_conv_app_nth)

lemma pos_column_Suc:
  "i < length buf \<Longrightarrow> pos_column buf (Suc i) = (if buf ! i = c_nl then 1 else pos_column buf i + 1)"
  by (simp add: pos_column_def take_Suc_conv_app_nth)

lemma pos_zero [simp]: "pos_line buf 0 = 1" "pos_column buf 0 = 1"
  by (simp_all add: pos_line_def pos_column_def)

text \<open>Moving over bytes that are not newlines leaves the line and adds to the column.\<close>

lemma pos_jump:
  "i + k \<le> length buf \<Longrightarrow> (\<And>j. i \<le> j \<Longrightarrow> j < i + k \<Longrightarrow> buf ! j \<noteq> c_nl) \<Longrightarrow>
   pos_line buf (i + k) = pos_line buf i \<and> pos_column buf (i + k) = pos_column buf i + k"
  by (induction k) (auto simp: pos_line_Suc pos_column_Suc)

definition lex_pos :: "cn_lexer \<Rightarrow> bool" where
  "lex_pos lx \<longleftrightarrow> wf_source (lx_source lx) \<and> lx_index lx \<le> src_length (lx_source lx)
     \<and> lx_line lx = pos_line (src_text (lx_source lx)) (lx_index lx)
     \<and> lx_column lx = pos_column (src_text (lx_source lx)) (lx_index lx)"

text \<open>
  \<open>lex_to lx lx'\<close>: the lexer moved forward in the same source without diagnostics, kept its
  line and column right, and passed no NUL byte.
\<close>

definition lex_to :: "cn_lexer \<Rightarrow> cn_lexer \<Rightarrow> bool" where
  "lex_to lx lx' \<longleftrightarrow> lx_source lx' = lx_source lx \<and> lx_diags lx' = lx_diags lx
     \<and> lx_index lx \<le> lx_index lx'
     \<and> (lex_pos lx \<longrightarrow> lex_pos lx')
     \<and> (\<forall>j. lx_index lx \<le> j \<and> j < lx_index lx' \<longrightarrow> src_text (lx_source lx) ! j \<noteq> c_nul)"

lemma lex_to_refl [simp]: "lex_to lx lx"
  by (auto simp: lex_to_def)

lemma lex_to_trans: "lex_to a b \<Longrightarrow> lex_to b c \<Longrightarrow> lex_to a c"
  by (auto simp: lex_to_def) (metis leI)+

lemma lex_to_advance: "lex_to lx (snd (cn_lexer_advance lx))"
proof (cases "cn_lexer_peek lx = c_nul")
  case True
  then show ?thesis by (simp add: cn_lexer_advance_def)
next
  case False
  then have lt: "lx_index lx < src_length (lx_source lx)"
    and v: "cn_lexer_peek lx = src_text (lx_source lx) ! lx_index lx"
    by (auto simp: cn_lexer_peek_def split: if_splits)
  show ?thesis
  proof (cases "wf_source (lx_source lx)")
    case True
    then have "src_length (lx_source lx) = length (src_text (lx_source lx))"
      by (simp add: wf_source_def)
    with False lt v show ?thesis
      by (auto simp: lex_to_def lex_pos_def cn_lexer_advance_def Let_def pos_line_Suc pos_column_Suc
          less_Suc_eq)
  next
    case no_wf: False
    with False v show ?thesis
      by (auto simp: lex_to_def lex_pos_def cn_lexer_advance_def Let_def less_Suc_eq)
  qed
qed

lemma lex_to_match: "cn_lexer_match lx c = (b, lx') \<Longrightarrow> lex_to lx lx'"
  by (auto simp: cn_lexer_match_def lex_to_advance split: if_splits)

lemma lex_to_skip_comment: "lex_to lx (lexer_skip_comment lx)"
proof (induction lx rule: lexer_skip_comment.induct)
  case (1 lx)
  then show ?case
    using lex_to_trans [OF lex_to_advance [of lx]] by (auto simp: lexer_skip_comment.simps [of lx])
qed

lemma lex_to_skip_whitespace: "lex_to lx (cn_lexer_skip_whitespace lx)"
proof (induction lx rule: cn_lexer_skip_whitespace.induct)
  case (1 lx)
  then show ?case
    using lex_to_trans [OF lex_to_advance [of lx]] lex_to_trans [OF lex_to_skip_comment [of lx]]
    by (auto simp: cn_lexer_skip_whitespace.simps [of lx])
qed

lemma lex_to_string_loop: "lex_to lx (snd (lexer_string_loop lx))"
proof (induction lx rule: lexer_string_loop.induct)
  case (1 lx)
  show ?case
  proof (cases "cn_lexer_peek lx \<noteq> c_nul \<and> cn_lexer_peek lx \<noteq> CHR 0x22 \<and> cn_lexer_peek lx \<noteq> c_nl")
    case True
    let ?lx1 = "if cn_lexer_peek lx = CHR 0x5C \<and> cn_lexer_peek_next lx \<noteq> c_nul
                then snd (cn_lexer_advance lx) else lx"
    have "lex_to lx ?lx1" by (simp add: lex_to_advance)
    from lex_to_trans [OF this lex_to_advance] have "lex_to lx (snd (cn_lexer_advance ?lx1))" .
    moreover have "lex_to (snd (cn_lexer_advance ?lx1)) (snd (lexer_string_loop (snd (cn_lexer_advance ?lx1))))"
      using True by (intro 1) simp_all
    ultimately have "lex_to lx (snd (lexer_string_loop (snd (cn_lexer_advance ?lx1))))"
      by (rule lex_to_trans)
    with True show ?thesis
      by (simp add: lexer_string_loop.simps [of lx] Let_def)
  next
    case False
    then show ?thesis by (auto simp: lexer_string_loop.simps [of lx])
  qed
qed

lemma lex_to_raw_string_loop: "lex_to lx (lexer_raw_string_loop lx)"
proof (induction lx rule: lexer_raw_string_loop.induct)
  case (1 lx)
  then show ?case
    using lex_to_trans [OF lex_to_advance [of lx]] by (auto simp: lexer_raw_string_loop.simps [of lx])
qed

section \<open>The tail scanners\<close>

text \<open>
  Both scanners, and their assembly versions, promise the same: the first index from
  \<open>i\<close> on at which the byte class ends or the text does.
\<close>

locale tail_scanner =
  fixes cls :: "char \<Rightarrow> bool" and scan :: "string \<Rightarrow> nat \<Rightarrow> nat \<Rightarrow> nat"
  assumes scan_step: "i < len \<Longrightarrow> cls (buf ! i) \<Longrightarrow> scan buf len i = scan buf len (Suc i)"
    and scan_stop: "\<not> (i < len \<and> cls (buf ! i)) \<Longrightarrow> scan buf len i = i"
    and cls_not_nul: "\<not> cls c_nul"
    and cls_not_nl: "\<not> cls c_nl"
begin

lemma scan_spec:
  "i \<le> len \<Longrightarrow> i \<le> scan buf len i \<and> scan buf len i \<le> len
     \<and> (\<forall>j. i \<le> j \<and> j < scan buf len i \<longrightarrow> cls (buf ! j))
     \<and> (scan buf len i < len \<longrightarrow> \<not> cls (buf ! scan buf len i))"
proof (induction "len - i" arbitrary: i)
  case 0
  then show ?case by (auto simp: scan_stop)
next
  case (Suc n)
  show ?case
  proof (cases "cls (buf ! i)")
    case True
    from Suc.hyps(1) [of "Suc i"] Suc.hyps(2) have IH: "Suc i \<le> scan buf len (Suc i) \<and> scan buf len (Suc i) \<le> len
        \<and> (\<forall>j. Suc i \<le> j \<and> j < scan buf len (Suc i) \<longrightarrow> cls (buf ! j))
        \<and> (scan buf len (Suc i) < len \<longrightarrow> \<not> cls (buf ! scan buf len (Suc i)))"
      by simp
    have "scan buf len i = scan buf len (Suc i)"
      using True Suc by (intro scan_step) auto
    with IH True show ?thesis
      by (metis Suc_leD Suc_leI le_neq_implies_less)
  next
    case False
    with Suc.prems show ?thesis by (auto simp: scan_stop)
  qed
qed

text \<open>The update of \<open>index\<close> and \<open>column\<close> that both callers make is a move of the lexer.\<close>

lemma lex_to_scan:
  assumes "e = scan (src_text (lx_source lx)) (src_length (lx_source lx)) (lx_index lx)"
    and "lx_index lx \<le> src_length (lx_source lx)"
  shows "lex_to lx (lx\<lparr>lx_column := lx_column lx + (e - lx_index lx), lx_index := e\<rparr>)"
proof -
  let ?t = "src_text (lx_source lx)" and ?i = "lx_index lx"
  have sp: "?i \<le> e" "e \<le> src_length (lx_source lx)" and cls: "\<And>j. ?i \<le> j \<Longrightarrow> j < e \<Longrightarrow> cls (?t ! j)"
    using scan_spec [OF assms(2), of ?t] assms(1) by auto
  show ?thesis
  proof (cases "lex_pos lx")
    case True
    then have len: "src_length (lx_source lx) = length ?t"
      by (simp add: lex_pos_def wf_source_def)
    have "pos_line ?t (?i + (e - ?i)) = pos_line ?t ?i \<and> pos_column ?t (?i + (e - ?i)) = pos_column ?t ?i + (e - ?i)"
      using sp len cls cls_not_nl by (intro pos_jump) (auto, metis)
    with sp True cls cls_not_nul show ?thesis
      by (auto simp: lex_to_def lex_pos_def) metis
  next
    case False
    with sp cls cls_not_nul show ?thesis by (auto simp: lex_to_def) metis
  qed
qed

end

interpretation number_tail: tail_scanner cn_is_ascii_digit cn_scan_number_tail
proof (unfold_locales, goal_cases)
  case (1 i len buf)
  then show ?case by (simp add: cn_scan_number_tail.simps [of buf len i])
next
  case (2 i len buf)
  then show ?case by (auto simp: cn_scan_number_tail.simps [of buf len i])
qed (simp_all add: cn_is_ascii_digit_def)

interpretation identifier_tail: tail_scanner cn_is_ascii_ident_continue cn_scan_identifier_tail
proof (unfold_locales, goal_cases)
  case (1 i len buf)
  then show ?case by (simp add: cn_scan_identifier_tail.simps [of buf len i])
next
  case (2 i len buf)
  then show ?case by (auto simp: cn_scan_identifier_tail.simps [of buf len i])
qed (simp_all add: cn_is_ascii_ident_continue_def cn_is_ascii_digit_def cn_is_ascii_alpha_def)

section \<open>What a turn of the loop does\<close>

text \<open>
  The spelling a token of each kind has. Where the order of evaluation is right to left,
  a token that consumed an equals sign has the first byte only as its lexeme.
\<close>

definition token_spelled :: "bool \<Rightarrow> cn_token \<Rightarrow> bool" where
  "token_spelled ltr t \<longleftrightarrow>
     (let s = sv_str (lexeme t)
      in if kind t = CN_TOKEN_EOF then s = []
         else if kind t = CN_TOKEN_INT_LITERAL then s \<noteq> [] \<and> list_all cn_is_ascii_digit s
         else if kind t = CN_TOKEN_STRING_LITERAL
         then sv_prev_byte (lexeme t) \<in> {Some (CHR 0x22), Some (CHR 0x60)}
         else if kind t = CN_TOKEN_IDENTIFIER
         then s \<noteq> [] \<and> \<not> cn_is_ascii_digit (hd s) \<and> list_all cn_is_ascii_ident_continue s
              \<and> cn_keyword_kind (lexeme t) = CN_TOKEN_IDENTIFIER
         else kind t \<noteq> CN_TOKEN_RESULT \<and>
              (s = cn_token_kind_name (kind t)
               \<or> \<not> ltr \<and> s = take 1 (cn_token_kind_name (kind t))
                   \<and> kind t \<in> {CN_TOKEN_BANG_EQUAL, CN_TOKEN_EQUAL_EQUAL, CN_TOKEN_LESS_EQUAL,
                              CN_TOKEN_GREATER_EQUAL}))"

text \<open>\<open>token_at ltr buf lo hi t\<close>: the token starts at \<open>lo\<close>, carries the position of that offset,
  and its lexeme is a valid view of the bytes between \<open>lo\<close> and \<open>hi\<close>.\<close>

definition token_at :: "bool \<Rightarrow> string \<Rightarrow> nat \<Rightarrow> nat \<Rightarrow> cn_token \<Rightarrow> bool" where
  "token_at ltr buf lo hi t \<longleftrightarrow> offset t = lo \<and> line t = pos_line buf lo \<and> column t = pos_column buf lo
     \<and> (\<exists>s n. lexeme t = Sv buf s n \<and> lo \<le> s \<and> s + n \<le> hi) \<and> sv_valid (lexeme t)
     \<and> token_spelled ltr t"

lemma lexer_single_spelling:
  "lexer_single c = Some k \<Longrightarrow> cn_token_kind_name k = [c] \<and> fixed_spelling k \<and> k \<noteq> CN_TOKEN_RESULT"
  by (simp add: lexer_single_def fixed_spelling_def split: if_splits)

lemma lexer_with_equal_spelling:
  "lexer_with_equal c = Some (k2, k1) \<Longrightarrow>
     cn_token_kind_name k1 = [c] \<and> cn_token_kind_name k2 = [c, CHR ''='']
     \<and> fixed_spelling k1 \<and> fixed_spelling k2 \<and> k1 \<noteq> CN_TOKEN_RESULT
     \<and> k2 \<in> {CN_TOKEN_BANG_EQUAL, CN_TOKEN_EQUAL_EQUAL, CN_TOKEN_LESS_EQUAL, CN_TOKEN_GREATER_EQUAL}"
  by (simp add: lexer_with_equal_def fixed_spelling_def split: if_splits)

lemma cn_keyword_kind_spelling:
  assumes "sv_valid v"
  shows "cn_keyword_kind v = CN_TOKEN_IDENTIFIER
     \<or> (sv_str v = cn_token_kind_name (cn_keyword_kind v) \<and> fixed_spelling (cn_keyword_kind v)
        \<and> cn_keyword_kind v \<noteq> CN_TOKEN_RESULT)"
  unfolding cn_keyword_kind_def cn_sv_eq_cstr_iff [OF assms]
  by (simp add: fixed_spelling_def)

text \<open>
  \<open>lex_emits ltr lx toks lx' toks'\<close>: from \<open>lx\<close> the lexer moved to \<open>lx'\<close> and either pushed one
  token for the bytes it passed or reported one error.
\<close>

definition lex_moved :: "cn_lexer \<Rightarrow> cn_lexer \<Rightarrow> bool" where
  "lex_moved lx lx' \<longleftrightarrow> lx_source lx' = lx_source lx \<and> lex_pos lx' \<and> lx_index lx < lx_index lx'
     \<and> (\<forall>j. lx_index lx \<le> j \<and> j < lx_index lx' \<longrightarrow> src_text (lx_source lx) ! j \<noteq> c_nul)"

definition lex_emits ::
  "bool \<Rightarrow> cn_lexer \<Rightarrow> cn_token_buffer \<Rightarrow> cn_lexer \<Rightarrow> cn_token_buffer \<Rightarrow> bool" where
  "lex_emits ltr lx toks lx' toks' \<longleftrightarrow> lex_moved lx lx' \<and>
     ((\<exists>t. toks' = cn_token_buffer_push toks t \<and> lx_diags lx' = lx_diags lx \<and> kind t \<noteq> CN_TOKEN_EOF
          \<and> token_at ltr (src_text (lx_source lx)) (lx_index lx) (lx_index lx') t)
      \<or> (toks' = toks \<and> (\<exists>c off msg. lx_diags lx' = cn_diag_emit (lx_diags lx) CN_DIAG_ERROR c off msg)))"

lemma lex_emits_error:
  "lex_pos lx \<Longrightarrow> lex_to lx lx' \<Longrightarrow> lx_index lx < lx_index lx' \<Longrightarrow>
   lex_emits ltr lx toks (lexer_error lx' c off msg) toks"
  unfolding lex_emits_def lexer_error_def
  by (intro conjI disjI2) (auto simp: lex_moved_def lex_to_def lex_pos_def)

lemma lex_emits_token:
  assumes "lex_pos lx" and "lex_to lx lx'" and "lx_index lx < lx_index lx'"
    and "lx_index lx \<le> s" and "s + n \<le> lx_index lx'" and "k \<noteq> CN_TOKEN_EOF"
    and "token_spelled ltr \<lparr>kind = k, lexeme = Sv (src_text (lx_source lx)) s n, offset = lx_index lx,
            line = lx_line lx, column = lx_column lx\<rparr>"
  shows "lex_emits ltr lx toks lx'
     (cn_token_buffer_push toks \<lparr>kind = k, lexeme = Sv (src_text (lx_source lx)) s n, offset = lx_index lx,
            line = lx_line lx, column = lx_column lx\<rparr>)"
proof -
  have "lx_index lx' \<le> length (src_text (lx_source lx))"
    using assms(1,2) by (auto simp: lex_to_def lex_pos_def wf_source_def)
  with assms show ?thesis
    by (auto simp: lex_emits_def lex_moved_def token_at_def lex_to_def lex_pos_def)
qed

lemma lex_emits_emit:
  assumes "lex_pos lx" and "lex_to lx lx'" and "lx_index lx < lx_index lx'"
    and "lx_index lx + n \<le> lx_index lx'"
    and "fixed_spelling k" and "k \<noteq> CN_TOKEN_RESULT"
    and "take n (drop (lx_index lx) (src_text (lx_source lx))) = cn_token_kind_name k
       \<or> \<not> ltr \<and> take n (drop (lx_index lx) (src_text (lx_source lx))) = take 1 (cn_token_kind_name k)
          \<and> k \<in> {CN_TOKEN_BANG_EQUAL, CN_TOKEN_EQUAL_EQUAL, CN_TOKEN_LESS_EQUAL, CN_TOKEN_GREATER_EQUAL}"
  shows "lex_emits ltr lx toks lx'
     (cn_lexer_emit lx' toks k (lx_index lx) (lx_line lx) (lx_column lx) n)"
proof -
  have "lx_source lx' = lx_source lx" using assms(2) by (simp add: lex_to_def)
  with assms show ?thesis
    by (auto simp: cn_lexer_emit_def token_spelled_def fixed_spelling_def Let_def intro!: lex_emits_token)
qed

lemma match_True:
  assumes "cn_lexer_match lx c = (True, lx')" and "c \<noteq> c_nul"
  shows "lx_index lx' = Suc (lx_index lx) \<and> lx_index lx < src_length (lx_source lx)
     \<and> src_text (lx_source lx) ! lx_index lx = c"
  using assms peek_in_range [of lx]
  by (auto simp: cn_lexer_match_def advance_index cn_lexer_peek_def split: if_splits)

lemma match_False: "cn_lexer_match lx c = (False, lx') \<Longrightarrow> lx' = lx"
  by (auto simp: cn_lexer_match_def split: if_splits)

text \<open>The situation in which the switch runs: one byte, not NUL, has just been consumed.\<close>

definition after_byte :: "cn_lexer \<Rightarrow> char \<Rightarrow> cn_lexer \<Rightarrow> bool" where
  "after_byte lx c lx' \<longleftrightarrow> lex_pos lx \<and> lex_to lx lx' \<and> lx_index lx' = Suc (lx_index lx)
     \<and> lx_index lx < length (src_text (lx_source lx)) \<and> src_text (lx_source lx) ! lx_index lx = c"

lemma after_byte_slice1:
  "after_byte lx c lx' \<Longrightarrow> take 1 (drop (lx_index lx) (src_text (lx_source lx))) = [c]"
  by (simp add: after_byte_def take_Suc_conv_app_nth)

lemma after_byte_slice2:
  assumes "after_byte lx c lx'" and "cn_lexer_match lx' d = (True, lx'')" and "d \<noteq> c_nul"
  shows "take 2 (drop (lx_index lx) (src_text (lx_source lx))) = [c, d]
     \<and> lx_index lx'' = lx_index lx + 2"
proof -
  have "lx_source lx' = lx_source lx" "wf_source (lx_source lx)"
    using assms(1) by (auto simp: after_byte_def lex_to_def lex_pos_def)
  with match_True [OF assms(2,3)] assms(1)
  have "lx_index lx'' = lx_index lx + 2" "src_text (lx_source lx) ! lx_index lx = c"
    "src_text (lx_source lx) ! Suc (lx_index lx) = d" "Suc (lx_index lx) < length (src_text (lx_source lx))"
    by (auto simp: after_byte_def wf_source_def)
  moreover from this have "drop (lx_index lx) (src_text (lx_source lx)) = c # d # drop (lx_index lx + 2) (src_text (lx_source lx))"
    by (metis Cons_nth_drop_Suc Suc_lessD add_2_eq_Suc')
  ultimately show ?thesis by simp
qed

lemma match_token_emits:
  assumes "after_byte lx c lx'" and "lexer_with_equal c = Some (k2, k1)"
    and m: "cn_lexer_match lx' (CHR ''='') = (b, lx'')"
  shows "lex_emits ltr lx toks lx''
     (cn_lexer_emit lx'' toks (if b then k2 else k1) (lx_index lx) (lx_line lx) (lx_column lx)
        ((if ltr then lx_index lx'' else lx_index lx') - lx_index lx))"
proof -
  note sp = lexer_with_equal_spelling [OF assms(2)]
  note s1 = after_byte_slice1 [OF assms(1)]
  have to: "lex_pos lx" "lex_to lx lx''" "lx_index lx' = Suc (lx_index lx)" "lx_index lx' \<le> lx_index lx''"
    using assms(1) lex_to_trans lex_to_match [OF m] by (auto simp: after_byte_def) (auto simp: lex_to_def)
  show ?thesis
  proof (cases b)
    case True
    with after_byte_slice2 [OF assms(1)] m
    have s2: "take 2 (drop (lx_index lx) (src_text (lx_source lx))) = [c, CHR ''='']"
      and i2: "lx_index lx'' = lx_index lx + 2" by auto
    show ?thesis
      using True sp to s1 s2 i2
      by (intro lex_emits_emit) (auto simp: numeral_2_eq_2)
  next
    case False
    with match_False m have "lx'' = lx'" by auto
    then show ?thesis
      using False sp to s1 by (intro lex_emits_emit) auto
  qed
qed

lemma match_char_emits:
  assumes "after_byte lx c lx'" and m: "cn_lexer_match lx' d = (True, lx'')" and "d \<noteq> c_nul"
    and "cn_token_kind_name k = [c, d]" and "fixed_spelling k" and "k \<noteq> CN_TOKEN_RESULT"
  shows "lex_emits ltr lx toks lx''
     (cn_lexer_emit lx'' toks k (lx_index lx) (lx_line lx) (lx_column lx) 2)"
proof -
  have "lex_pos lx" "lex_to lx lx''"
    using assms(1) lex_to_trans lex_to_match [OF m] by (auto simp: after_byte_def)
  with after_byte_slice2 [OF assms(1) m assms(3)] assms(4-6) show ?thesis
    by (intro lex_emits_emit) auto
qed

lemma scan_string_emits:
  assumes "after_byte lx (CHR 0x22) lx'"
    and r: "cn_lexer_scan_string lx' toks (lx_index lx) (lx_line lx) (lx_column lx) = (lx'', toks')"
  shows "lex_emits ltr lx toks lx'' toks'"
proof -
  obtain ended lx1 where l: "lexer_string_loop lx' = (ended, lx1)" by fastforce
  have to: "lex_pos lx" "lex_to lx lx1" "lx_index lx' = Suc (lx_index lx)" "lex_to lx' lx1" "lx_index lx' \<le> lx_index lx1"
    using assms(1) lex_to_trans lex_to_string_loop [of lx'] l
    by (auto simp: after_byte_def) (auto simp: lex_to_def)
  show ?thesis
  proof (cases "ended \<and> cn_lexer_peek lx1 = CHR 0x22")
    case True
    let ?lx2 = "snd (cn_lexer_advance lx1)"
    have "lex_to lx ?lx2" using to lex_to_trans lex_to_advance by blast
    moreover have "lx_index ?lx2 = Suc (lx_index lx1)" using True by (simp add: advance_index)
    moreover have "lx'' = ?lx2" and "toks' = cn_token_buffer_push toks
        (lexer_string_token lx' (lx_index lx) (lx_line lx) (lx_column lx) (lx_index lx') (lx_index lx1))"
      using r l True by (auto simp: cn_lexer_scan_string_def Let_def)
    moreover have "lx_index lx' \<le> lx_index lx1" "lx_source lx' = lx_source lx"
      using to assms(1) by (auto simp: lex_to_def after_byte_def)
    moreover have "src_text (lx_source lx) ! lx_index lx = CHR 0x22"
      "lx_index lx < length (src_text (lx_source lx))"
      using assms(1) by (auto simp: after_byte_def)
    ultimately show ?thesis
      using to by (auto simp: lexer_string_token_def token_spelled_def Let_def intro!: lex_emits_token)
  next
    case False
    then show ?thesis
      using r l to by (auto simp: cn_lexer_scan_string_def Let_def intro!: lex_emits_error split: if_splits)
  qed
qed

lemma scan_raw_string_emits:
  assumes "after_byte lx (CHR 0x60) lx'"
    and r: "cn_lexer_scan_raw_string lx' toks (lx_index lx) (lx_line lx) (lx_column lx) = (lx'', toks')"
  shows "lex_emits ltr lx toks lx'' toks'"
proof -
  let ?lx1 = "lexer_raw_string_loop lx'"
  have to: "lex_pos lx" "lex_to lx ?lx1" "lx_index lx' = Suc (lx_index lx)" "lex_to lx' ?lx1" "lx_index lx' \<le> lx_index ?lx1"
    using assms(1) lex_to_trans lex_to_raw_string_loop [of lx']
    by (auto simp: after_byte_def) (auto simp: lex_to_def)
  show ?thesis
  proof (cases "cn_lexer_peek ?lx1 = CHR 0x60")
    case True
    let ?lx2 = "snd (cn_lexer_advance ?lx1)"
    have "lex_to lx ?lx2" using to lex_to_trans lex_to_advance by blast
    moreover have "lx_index ?lx2 = Suc (lx_index ?lx1)" using True by (simp add: advance_index)
    moreover have "lx'' = ?lx2" and "toks' = cn_token_buffer_push toks
        (lexer_string_token lx' (lx_index lx) (lx_line lx) (lx_column lx) (lx_index lx') (lx_index ?lx1))"
      using r True by (auto simp: cn_lexer_scan_raw_string_def Let_def)
    moreover have "lx_index lx' \<le> lx_index ?lx1" "lx_source lx' = lx_source lx"
      using to assms(1) by (auto simp: lex_to_def after_byte_def)
    moreover have "src_text (lx_source lx) ! lx_index lx = CHR 0x60"
      "lx_index lx < length (src_text (lx_source lx))"
      using assms(1) by (auto simp: after_byte_def)
    ultimately show ?thesis
      using to by (auto simp: lexer_string_token_def token_spelled_def Let_def intro!: lex_emits_token)
  next
    case False
    then show ?thesis
      using r to by (auto simp: cn_lexer_scan_raw_string_def Let_def intro!: lex_emits_error)
  qed
qed

lemma scan_number_emits:
  assumes ab: "after_byte lx c lx'" and "cn_is_ascii_digit c"
    and r: "cn_lexer_scan_number lx' toks (lx_index lx) (lx_line lx) (lx_column lx) = (lx'', toks')"
  shows "lex_emits ltr lx toks lx'' toks'"
proof -
  let ?t = "src_text (lx_source lx)" and ?i = "lx_index lx"
  define e where "e = cn_scan_number_tail ?t (length ?t) (Suc ?i)"
  have lx': "lx_source lx' = lx_source lx" "src_length (lx_source lx) = length ?t" "lx_index lx' = Suc ?i"
    "?i < length ?t" "?t ! ?i = c" "lex_pos lx" "lex_to lx lx'"
    using ab by (auto simp: after_byte_def lex_to_def lex_pos_def wf_source_def)
  have e: "Suc ?i \<le> e" "e \<le> length ?t" "\<And>j. Suc ?i \<le> j \<Longrightarrow> j < e \<Longrightarrow> cn_is_ascii_digit (?t ! j)"
    using number_tail.scan_spec [of "Suc ?i" "length ?t" ?t] lx'(4) by (auto simp: e_def)
  have r': "lx'' = lx'\<lparr>lx_column := lx_column lx' + (e - lx_index lx'), lx_index := e\<rparr>"
    "toks' = cn_lexer_emit lx'' toks CN_TOKEN_INT_LITERAL ?i (lx_line lx) (lx_column lx) (e - ?i)"
    using r lx' by (auto simp: cn_lexer_scan_number_def Let_def e_def)
  have "lex_to lx' lx''"
    unfolding r'(1) by (rule number_tail.lex_to_scan) (use lx' e_def in auto)
  with lx' have "lex_to lx lx''" by (blast intro: lex_to_trans)
  moreover have "list_all cn_is_ascii_digit (take (e - ?i) (drop ?i ?t))"
  proof -
    have "cn_is_ascii_digit (?t ! (?i + j))" if "j < e - ?i" for j
      using that e(3) [of "?i + j"] lx' assms(2) by (cases j) auto
    then show ?thesis using e by (auto simp: list_all_length)
  qed
  moreover have "take (e - ?i) (drop ?i ?t) \<noteq> []"
    using e lx' by simp
  ultimately show ?thesis
    unfolding r'(2) cn_lexer_emit_def using r'(1) lx' e
    by (auto simp: token_spelled_def Let_def intro!: lex_emits_token)
qed

lemma scan_identifier_emits:
  assumes ab: "after_byte lx c lx'" and c: "cn_is_ascii_alpha c \<or> c = CHR ''_''"
    and r: "cn_lexer_scan_identifier lx' toks (lx_index lx) (lx_line lx) (lx_column lx) = (lx'', toks')"
  shows "lex_emits ltr lx toks lx'' toks'"
proof -
  let ?t = "src_text (lx_source lx)" and ?i = "lx_index lx"
  define e where "e = cn_scan_identifier_tail ?t (length ?t) (Suc ?i)"
  let ?v = "Sv ?t ?i (e - ?i)"
  have lx': "lx_source lx' = lx_source lx" "src_length (lx_source lx) = length ?t" "lx_index lx' = Suc ?i"
    "?i < length ?t" "?t ! ?i = c" "lex_pos lx" "lex_to lx lx'"
    using ab by (auto simp: after_byte_def lex_to_def lex_pos_def wf_source_def)
  have e: "Suc ?i \<le> e" "e \<le> length ?t" "\<And>j. Suc ?i \<le> j \<Longrightarrow> j < e \<Longrightarrow> cn_is_ascii_ident_continue (?t ! j)"
    using identifier_tail.scan_spec [of "Suc ?i" "length ?t" ?t] lx'(4) by (auto simp: e_def)
  have r': "lx'' = lx'\<lparr>lx_column := lx_column lx' + (e - lx_index lx'), lx_index := e\<rparr>"
    "toks' = cn_lexer_emit lx'' toks (cn_keyword_kind ?v) ?i (lx_line lx) (lx_column lx) (e - ?i)"
    using r lx' by (auto simp: cn_lexer_scan_identifier_def Let_def e_def)
  have "lex_to lx' lx''"
    unfolding r'(1) by (rule identifier_tail.lex_to_scan) (use lx' e_def in auto)
  with lx' have to: "lex_to lx lx''" by (blast intro: lex_to_trans)
  have all: "list_all cn_is_ascii_ident_continue (sv_str ?v)"
  proof -
    have "cn_is_ascii_ident_continue (?t ! (?i + j))" if "j < e - ?i" for j
      using that e(3) [of "?i + j"] lx' c
      by (cases j) (auto simp: cn_is_ascii_ident_continue_def)
    then show ?thesis using e by (auto simp: list_all_length)
  qed
  have hd: "sv_str ?v \<noteq> []" "hd (sv_str ?v) = c"
    using e lx' by (auto simp: hd_drop_conv_nth)
  have "\<not> cn_is_ascii_digit c"
    using c by (auto simp: cn_is_ascii_alpha_def cn_is_ascii_digit_def)
  then have "token_spelled ltr \<lparr>kind = cn_keyword_kind ?v, lexeme = ?v, offset = ?i, line = lx_line lx, column = lx_column lx\<rparr>"
    using cn_keyword_kind_spelling [of ?v] all hd e
    by (auto simp: token_spelled_def Let_def fixed_spelling_def)
  then show ?thesis
    unfolding r'(2) cn_lexer_emit_def using r'(1) lx' e to cn_keyword_kind_spelling [of ?v]
    by (auto simp: fixed_spelling_def intro!: lex_emits_token)
qed

lemma switch_emits:
  assumes ab: "after_byte lx c lx'"
    and r: "lexer_switch ltr c lx' toks (lx_index lx) (lx_line lx) (lx_column lx) = (lx'', toks')"
  shows "lex_emits ltr lx toks lx'' toks'"
proof -
  have pos: "lex_pos lx" "lex_to lx lx'" "lx_index lx' = Suc (lx_index lx)"
    using ab by (auto simp: after_byte_def)
  have err: "lex_emits ltr lx toks (lexer_error lx2 cd (lx_index lx) msg) toks"
    if "lex_to lx' lx2" for lx2 cd msg
  proof (rule lex_emits_error)
    show "lex_pos lx" by (rule pos)
    show "lex_to lx lx2" by (rule lex_to_trans [OF pos(2) that])
    show "lx_index lx < lx_index lx2" using pos(3) that by (simp add: lex_to_def)
  qed
  have two: "lex_emits ltr lx toks lx'' toks'"
    if "cn_lexer_match lx' d = (b, lx2)" and "d \<noteq> c_nul"
      and "cn_token_kind_name k = [c, d]" "fixed_spelling k" "k \<noteq> CN_TOKEN_RESULT"
      and "(if b then (lx2, cn_lexer_emit lx2 toks k (lx_index lx) (lx_line lx) (lx_column lx) 2)
            else (lexer_error lx2 cd (lx_index lx) msg, toks)) = (lx'', toks')" for d b lx2 k cd msg
    using that match_char_emits [OF ab] err [OF lex_to_match] by (auto split: if_splits)
  show ?thesis
  proof (cases "lexer_single c")
    case (Some k)
    with r have "lx'' = lx'" "toks' = cn_lexer_emit lx' toks k (lx_index lx) (lx_line lx) (lx_column lx) 1"
      by (auto simp: lexer_switch_def)
    then show ?thesis
      using lexer_single_spelling [OF Some] pos after_byte_slice1 [OF ab]
      by (auto intro!: lex_emits_emit)
  next
    case None
    show ?thesis
    proof (cases "lexer_with_equal c")
      case (Some ks)
      then show ?thesis
        using r None match_token_emits [OF ab, where ltr = ltr and toks = toks]
        by (auto simp: lexer_switch_def split: prod.splits)
    next
      case none2: None
      consider "c = CHR ''.''" | "c = CHR ''&''" | "c = CHR ''|''" | "c = CHR 0x22" | "c = CHR 0x60"
        | "c \<notin> {CHR ''.'', CHR ''&'', CHR ''|'', CHR 0x22, CHR 0x60}" by blast
      then show ?thesis
      proof cases
        case 1
        obtain b lx2 where m: "cn_lexer_match lx' (CHR ''.'') = (b, lx2)" by fastforce
        show ?thesis
        proof (cases b)
          case True
          with m r 1 None none2 have "lx'' = lx2" and
            "toks' = cn_lexer_emit lx2 toks CN_TOKEN_RANGE (lx_index lx) (lx_line lx) (lx_column lx) 2"
            by (auto simp: lexer_switch_def)
          then show ?thesis
            using m True 1 by (auto simp: fixed_spelling_def intro!: match_char_emits [OF ab])
        next
          case False
          with m r 1 None none2 match_False have "lx'' = lx'" and
            "toks' = cn_lexer_emit lx' toks CN_TOKEN_DOT (lx_index lx) (lx_line lx) (lx_column lx) 1"
            by (auto simp: lexer_switch_def)
          then show ?thesis
            using 1 pos after_byte_slice1 [OF ab]
            by (auto simp: fixed_spelling_def intro!: lex_emits_emit)
        qed
      next
        case 2
        obtain b lx2 where m: "cn_lexer_match lx' (CHR ''&'') = (b, lx2)" by fastforce
        from two [OF m, of CN_TOKEN_AMP_AMP] m r 2 None none2 show ?thesis
          by (auto simp: lexer_switch_def fixed_spelling_def)
      next
        case 3
        obtain b lx2 where m: "cn_lexer_match lx' (CHR ''|'') = (b, lx2)" by fastforce
        from two [OF m, of CN_TOKEN_PIPE_PIPE] m r 3 None none2 show ?thesis
          by (auto simp: lexer_switch_def fixed_spelling_def)
      next
        case 4
        with r None none2 ab show ?thesis
          by (auto simp: lexer_switch_def intro: scan_string_emits)
      next
        case 5
        with r None none2 ab show ?thesis
          by (auto simp: lexer_switch_def intro: scan_raw_string_emits)
      next
        case 6
        then have sw: "lexer_switch ltr c lx' toks (lx_index lx) (lx_line lx) (lx_column lx) =
            (if cn_is_ascii_digit c
             then cn_lexer_scan_number lx' toks (lx_index lx) (lx_line lx) (lx_column lx)
             else if cn_is_ascii_alpha c \<or> c = CHR ''_''
             then cn_lexer_scan_identifier lx' toks (lx_index lx) (lx_line lx) (lx_column lx)
             else (lexer_error lx' ''E1004'' (lx_index lx) (lexer_unexpected c), toks))"
          using None none2 by (simp add: lexer_switch_def)
        consider (digit) "cn_is_ascii_digit c"
          | (ident) "\<not> cn_is_ascii_digit c" "cn_is_ascii_alpha c \<or> c = CHR ''_''"
          | (other) "\<not> cn_is_ascii_digit c" "\<not> (cn_is_ascii_alpha c \<or> c = CHR ''_'')" by blast
        then show ?thesis
        proof cases
          case digit
          with r sw show ?thesis by (intro scan_number_emits [OF ab]) auto
        next
          case ident
          with r sw show ?thesis by (intro scan_identifier_emits [OF ab]) auto
        next
          case other
          with r sw have "(lexer_error lx' ''E1004'' (lx_index lx) (lexer_unexpected c), toks) = (lx'', toks')"
            by simp
          then show ?thesis using err [OF lex_to_refl] by auto
        qed
      qed
    qed
  qed
qed

section \<open>Runs of the lexer\<close>

definition lexer_at_end :: "cn_lexer \<Rightarrow> bool" where
  "lexer_at_end lx \<longleftrightarrow> src_length (lx_source lx) \<le> lx_index lx"

text \<open>
  A turn skips white space and then stops at the end of the text, stays at a NUL byte with
  one more error, or emits.
\<close>

lemma turn_cases:
  assumes "lex_pos lx" and "lexer_turn ltr (lx, toks) = (lx', toks')"
  obtains (stop) lx1 where "lex_to lx lx1" "lexer_at_end lx1" "lx' = lx1" "toks' = toks"
    | (nul) lx1 where "lex_to lx lx1" "\<not> lexer_at_end lx1" "cn_lexer_peek lx1 = c_nul"
        "lx' = lexer_error lx1 ''E1004'' (lx_index lx1) (lexer_unexpected c_nul)" "toks' = toks"
    | (emit) lx1 where "lex_to lx lx1" "\<not> lexer_at_end lx1" "cn_lexer_peek lx1 \<noteq> c_nul"
        "lex_emits ltr lx1 toks lx' toks'"
proof -
  let ?lx1 = "cn_lexer_skip_whitespace lx"
  have to: "lex_to lx ?lx1" by (rule lex_to_skip_whitespace)
  with assms(1) have pos: "lex_pos ?lx1" by (simp add: lex_to_def)
  show thesis
  proof (cases "lexer_at_end ?lx1")
    case True
    then show thesis using stop [OF to] assms(2) by (simp add: lexer_turn_def lexer_at_end_def)
  next
    case False
    with assms(2) have sw: "lexer_switch ltr (cn_lexer_peek ?lx1) (snd (cn_lexer_advance ?lx1)) toks
        (lx_index ?lx1) (lx_line ?lx1) (lx_column ?lx1) = (lx', toks')"
      by (simp add: lexer_turn_def lexer_at_end_def Let_def)
    show thesis
    proof (cases "cn_lexer_peek ?lx1 = c_nul")
      case True
      then have "snd (cn_lexer_advance ?lx1) = ?lx1" by (simp add: cn_lexer_advance_def)
      with sw True show thesis
        using nul [OF to False True]
        by (simp add: lexer_switch_def lexer_single_def lexer_with_equal_def cn_is_ascii_digit_def
            cn_is_ascii_alpha_def)
    next
      case notnul: False
      have "after_byte ?lx1 (cn_lexer_peek ?lx1) (snd (cn_lexer_advance ?lx1))"
        using notnul pos False
        by (auto simp: after_byte_def lex_to_advance advance_index lexer_at_end_def lex_pos_def
            wf_source_def cn_lexer_peek_def)
      from emit [OF to False notnul switch_emits [OF this sw]] show thesis .
    qed
  qed
qed

text \<open>The tokens of a run: well placed, well spelled, in order and without overlap.\<close>

definition lexeme_end :: "cn_token \<Rightarrow> nat" where
  "lexeme_end t = (case lexeme t of SvNull \<Rightarrow> 0 | Sv b s n \<Rightarrow> s + n)"

definition tokens_ok :: "bool \<Rightarrow> string \<Rightarrow> nat \<Rightarrow> cn_token list \<Rightarrow> bool" where
  "tokens_ok ltr buf hi ts \<longleftrightarrow>
     (\<forall>t \<in> set ts. token_at ltr buf (offset t) hi t \<and> offset t < hi \<and> kind t \<noteq> CN_TOKEN_EOF)
     \<and> sorted_wrt (\<lambda>a b. offset a < offset b \<and> lexeme_end a \<le> offset b) ts"

lemma token_at_mono: "token_at ltr buf lo hi t \<Longrightarrow> hi \<le> hi' \<Longrightarrow> token_at ltr buf lo hi' t"
  by (auto simp: token_at_def)

lemma token_at_end: "token_at ltr buf lo hi t \<Longrightarrow> lexeme_end t \<le> hi"
  by (auto simp: token_at_def lexeme_end_def)

lemma tokens_ok_mono: "tokens_ok ltr buf hi ts \<Longrightarrow> hi \<le> hi' \<Longrightarrow> tokens_ok ltr buf hi' ts"
  by (fastforce simp: tokens_ok_def intro: token_at_mono)

lemma tokens_ok_append:
  assumes "tokens_ok ltr buf lo ts" and "token_at ltr buf lo hi t" and "lo < hi" and "kind t \<noteq> CN_TOKEN_EOF"
  shows "tokens_ok ltr buf hi (ts @ [t])"
proof -
  have off: "offset t = lo" using assms(2) by (simp add: token_at_def)
  have "\<forall>a \<in> set ts. offset a < offset t \<and> lexeme_end a \<le> offset t"
    using assms(1) off by (auto simp: tokens_ok_def dest: token_at_end)
  moreover have "tokens_ok ltr buf hi ts"
    using assms(1,3) by (auto intro: tokens_ok_mono)
  ultimately show ?thesis
    using assms off by (auto simp: tokens_ok_def sorted_wrt_append)
qed

definition lex_inv :: "bool \<Rightarrow> cn_source \<Rightarrow> cn_lexer \<times> cn_token_buffer \<Rightarrow> bool" where
  "lex_inv ltr src st \<longleftrightarrow> lx_source (fst st) = src \<and> lex_pos (fst st) \<and> diag_invar (lx_diags (fst st))
     \<and> arr_invar (snd st) \<and> tokens_ok ltr (src_text src) (lx_index (fst st)) (arr_items (snd st))"

lemma lexer_turn_inv: "lex_inv ltr src st \<Longrightarrow> lex_inv ltr src (lexer_turn ltr st)"
proof -
  assume inv: "lex_inv ltr src st"
  obtain lx toks lx' toks' where st: "st = (lx, toks)" and t: "lexer_turn ltr (lx, toks) = (lx', toks')"
    by (metis surj_pair)
  from inv st have i: "lx_source lx = src" "lex_pos lx" "diag_invar (lx_diags lx)" "arr_invar toks"
    "tokens_ok ltr (src_text src) (lx_index lx) (arr_items toks)"
    by (simp_all add: lex_inv_def)
  from i(2) t show ?thesis
  proof (cases rule: turn_cases)
    case (stop lx1)
    with i st t show ?thesis by (auto simp: lex_inv_def lex_to_def intro: tokens_ok_mono)
  next
    case (nul lx1)
    with i st t show ?thesis
      by (auto simp: lex_inv_def lex_to_def lexer_error_def lex_pos_def intro: tokens_ok_mono)
  next
    case (emit lx1)
    with i have i1: "lx_source lx1 = src" "lex_pos lx1" "diag_invar (lx_diags lx1)"
      "tokens_ok ltr (src_text src) (lx_index lx1) (arr_items toks)"
      by (auto simp: lex_to_def intro: tokens_ok_mono)
    from emit(4) have m: "lex_moved lx1 lx'" by (simp add: lex_emits_def)
    from emit(4) consider
      (tok) tk where "toks' = cn_token_buffer_push toks tk" "lx_diags lx' = lx_diags lx1" "kind tk \<noteq> CN_TOKEN_EOF"
        "token_at ltr (src_text (lx_source lx1)) (lx_index lx1) (lx_index lx') tk"
      | (err) c off msg where "toks' = toks" "lx_diags lx' = cn_diag_emit (lx_diags lx1) CN_DIAG_ERROR c off msg"
      by (auto simp: lex_emits_def)
    then show ?thesis
    proof cases
      case tok
      with i i1 m st t show ?thesis
        by (auto simp: lex_inv_def lex_moved_def token_array.items_push token_array.invar_push
            intro: tokens_ok_append)
    next
      case err
      with i i1 m st t show ?thesis
        by (auto simp: lex_inv_def lex_moved_def intro: tokens_ok_mono)
    qed
  qed
qed

lemma lex_inv_init:
  "wf_source src \<Longrightarrow> diag_invar bag \<Longrightarrow> lex_inv ltr src (cn_lexer_init src bag, cn_token_buffer_init)"
  by (simp add: lex_inv_def cn_lexer_init_def lex_pos_def tokens_ok_def)

lemma lexer_loop_inv:
  assumes "while_option (\<lambda>st. lx_index (fst st) < src_length (lx_source (fst st))) (lexer_turn ltr) st = Some st'"
    and "lex_inv ltr src st"
  shows "lex_inv ltr src st' \<and> lx_index (fst st') = src_length src"
proof -
  have "lex_inv ltr src st'"
    by (rule while_option_rule [where P = "lex_inv ltr src", OF _ assms(1) assms(2)]) (rule lexer_turn_inv)
  moreover have "\<not> lx_index (fst st') < src_length (lx_source (fst st'))"
    using while_option_stop [OF assms(1)] .
  ultimately show ?thesis by (auto simp: lex_inv_def lex_pos_def)
qed

lemma cn_lexer_run_spec:
  assumes "cn_lexer_run ltr (cn_lexer_init src bag) cn_token_buffer_init = Some (ok, lx', toks')"
    and "wf_source src" and "diag_invar bag"
  shows "\<exists>ts eof. arr_items toks' = ts @ [eof] \<and> tokens_ok ltr (src_text src) (src_length src) ts
     \<and> kind eof = CN_TOKEN_EOF \<and> offset eof = src_length src
     \<and> token_at ltr (src_text src) (src_length src) (src_length src) eof
     \<and> (ok \<longleftrightarrow> \<not> cn_diag_has_error (lx_diags lx')) \<and> arr_invar toks' \<and> diag_invar (lx_diags lx')"
proof -
  let ?loop = "while_option (\<lambda>st. lx_index (fst st) < src_length (lx_source (fst st))) (lexer_turn ltr)
     (cn_lexer_init src bag, cn_token_buffer_init)"
  obtain toks1 where w: "?loop = Some (lx', toks1)" and
    r: "ok = (\<not> cn_diag_has_error (lx_diags lx'))" "toks' = cn_token_buffer_push toks1 (lexer_eof lx')"
    using assms(1) by (auto simp: cn_lexer_run_def split: option.splits)
  from lexer_loop_inv [OF w lex_inv_init [OF assms(2,3)]]
  have inv: "lx_source lx' = src" "lex_pos lx'" "diag_invar (lx_diags lx')" "arr_invar toks1"
    "tokens_ok ltr (src_text src) (src_length src) (arr_items toks1)" "lx_index lx' = src_length src"
    by (auto simp: lex_inv_def)
  have "token_at ltr (src_text src) (src_length src) (src_length src) (lexer_eof lx')"
    using inv by (auto simp: token_at_def lexer_eof_def lex_pos_def wf_source_def token_spelled_def)
  with inv r show ?thesis
    by (auto simp: token_array.items_push token_array.invar_push lexer_eof_def)
qed

section \<open>Termination\<close>

text \<open>With no NUL byte every turn moves forward; with one the index never passes it.\<close>

lemma lexer_turn_progress:
  assumes "lex_inv ltr src st" and "c_nul \<notin> set (src_text src)"
    and "lx_index (fst st) < src_length (lx_source (fst st))"
  shows "lx_index (fst st) < lx_index (fst (lexer_turn ltr st))"
proof -
  obtain lx toks lx' toks' where st: "st = (lx, toks)" and t: "lexer_turn ltr (lx, toks) = (lx', toks')"
    by (metis surj_pair)
  from assms(1) st have i: "lx_source lx = src" "lex_pos lx" by (simp_all add: lex_inv_def)
  from i(2) t show ?thesis
  proof (cases rule: turn_cases)
    case (stop lx1)
    with assms(3) st t show ?thesis by (auto simp: lexer_at_end_def lex_to_def)
  next
    case (nul lx1)
    then have "c_nul \<in> set (src_text src)"
      using i by (auto simp: lexer_at_end_def lex_to_def cn_lexer_peek_def lex_pos_def wf_source_def)
        (metis not_le nth_mem)
    with assms(2) show ?thesis by simp
  next
    case (emit lx1)
    with st t show ?thesis by (auto simp: lex_emits_def lex_moved_def lex_to_def)
  qed
qed

lemma lexer_turn_stays_before_nul:
  assumes "lex_inv ltr src st" and "lx_index (fst st) \<le> n" and "n < length (src_text src)"
    and "src_text src ! n = c_nul"
  shows "lx_index (fst (lexer_turn ltr st)) \<le> n"
proof -
  obtain lx toks lx' toks' where st: "st = (lx, toks)" and t: "lexer_turn ltr (lx, toks) = (lx', toks')"
    by (metis surj_pair)
  from assms(1) st have i: "lx_source lx = src" "lex_pos lx" by (simp_all add: lex_inv_def)
  have to: "lx_index lx1 \<le> n" if "lex_to lx lx1" for lx1
    using that assms(2,4) st i by (auto simp: lex_to_def not_le [symmetric])
  from i(2) t show ?thesis
  proof (cases rule: turn_cases)
    case (stop lx1)
    with to st t show ?thesis by auto
  next
    case (nul lx1)
    with to st t show ?thesis by (auto simp: lexer_error_def)
  next
    case (emit lx1)
    then have "lx_source lx1 = src" using i by (simp add: lex_to_def)
    with emit to [OF emit(1)] assms(4) st t show ?thesis
      by (auto simp: lex_emits_def lex_moved_def not_le [symmetric])
  qed
qed

lemma lexer_loop_diverges_iff:
  assumes "wf_source src" and "diag_invar bag"
  shows "while_option (\<lambda>st. lx_index (fst st) < src_length (lx_source (fst st))) (lexer_turn ltr)
           (cn_lexer_init src bag, cn_token_buffer_init) = None
         \<longleftrightarrow> c_nul \<in> set (src_text src)" (is "?loop = None \<longleftrightarrow> _")
proof
  assume none: "?loop = None"
  show "c_nul \<in> set (src_text src)"
  proof (rule ccontr)
    assume no_nul: "c_nul \<notin> set (src_text src)"
    have "\<exists>t. ?loop = Some t"
    proof (rule measure_while_option_Some [where P = "lex_inv ltr src" and f = "\<lambda>st. src_length src - lx_index (fst st)"])
      show "lex_inv ltr src (cn_lexer_init src bag, cn_token_buffer_init)"
        by (rule lex_inv_init [OF assms])
      fix st
      assume inv: "lex_inv ltr src st" and lt: "lx_index (fst st) < src_length (lx_source (fst st))"
      have "lx_index (fst st) < src_length src" using inv lt by (simp add: lex_inv_def)
      then show "lex_inv ltr src (lexer_turn ltr st)
          \<and> src_length src - lx_index (fst (lexer_turn ltr st)) < src_length src - lx_index (fst st)"
        using lexer_turn_inv [OF inv] lexer_turn_progress [OF inv no_nul lt] by auto
    qed
    with none show False by simp
  qed
next
  assume "c_nul \<in> set (src_text src)"
  then obtain n where n: "n < length (src_text src)" "src_text src ! n = c_nul"
    by (auto simp: in_set_conv_nth)
  show "?loop = None"
  proof (rule ccontr)
    assume "?loop \<noteq> None"
    then obtain st' where w: "?loop = Some st'" by auto
    have "lex_inv ltr src st' \<and> lx_index (fst st') \<le> n"
      by (rule while_option_rule [OF _ w])
        (auto simp: lexer_turn_inv lexer_turn_stays_before_nul n lex_inv_init [OF assms],
          simp add: cn_lexer_init_def)
    with while_option_stop [OF w] n(1) show False
      using assms(1) by (auto simp: lex_inv_def wf_source_def)
  qed
qed

lemma cn_lexer_run_None_iff:
  "wf_source src \<Longrightarrow> diag_invar bag \<Longrightarrow>
   cn_lexer_run ltr (cn_lexer_init src bag) cn_token_buffer_init = None \<longleftrightarrow> c_nul \<in> set (src_text src)"
  using lexer_loop_diverges_iff [of src bag ltr] by (auto simp: cn_lexer_run_def split: option.splits)

text \<open>The lexer as \<open>cn_project_load\<close> starts it on a loaded file: a fresh bag and an empty buffer.\<close>

definition lex_bytes :: "bool \<Rightarrow> string \<Rightarrow> string \<Rightarrow> (bool \<times> cn_lexer \<times> cn_token_buffer) option" where
  "lex_bytes ltr p bytes =
     cn_lexer_run ltr
       (cn_lexer_init (cn_source_of_bytes p bytes) (cn_diag_bag_init (Some (cn_source_of_bytes p bytes))))
       cn_token_buffer_init"

lemma lex_bytes_None_iff: "lex_bytes ltr p bytes = None \<longleftrightarrow> c_nul \<in> set bytes"
  by (simp add: lex_bytes_def cn_lexer_run_None_iff wf_source_of_bytes)

lemma lex_bytes_spec:
  assumes "c_nul \<notin> set bytes"
  obtains ok lx toks ts eof where "lex_bytes ltr p bytes = Some (ok, lx, toks)"
    "arr_items toks = ts @ [eof]" "tokens_ok ltr bytes (length bytes) ts"
    "kind eof = CN_TOKEN_EOF" "offset eof = length bytes"
    "token_at ltr bytes (length bytes) (length bytes) eof"
    "ok \<longleftrightarrow> \<not> cn_diag_has_error (lx_diags lx)" "arr_invar toks" "diag_invar (lx_diags lx)"
proof -
  from assms obtain ok lx toks where r: "lex_bytes ltr p bytes = Some (ok, lx, toks)"
    by (metis lex_bytes_None_iff option.exhaust prod_cases3)
  from cn_lexer_run_spec [OF r [unfolded lex_bytes_def] wf_source_of_bytes cn_diag_bag_init_laws(1)]
  show thesis using that r by auto
qed

lemmas lexer_eval = lex_bytes_def cn_lexer_run_def cn_lexer_init_def while_option_unfold lexer_turn_def
  cn_lexer_skip_whitespace.simps lexer_skip_comment.simps lexer_is_space_def lexer_at_comment_def
  cn_lexer_peek_def cn_lexer_peek_next_def cn_lexer_advance_def lexer_switch_def lexer_single_def
  lexer_with_equal_def cn_is_ascii_digit_def cn_is_ascii_alpha_def cn_lexer_scan_number_def
  cn_lexer_scan_identifier_def cn_scan_number_tail.simps cn_scan_identifier_tail.simps
  cn_is_ascii_ident_continue_def cn_lexer_emit_def cn_lexer_match_def cn_lexer_scan_string_def
  cn_lexer_scan_raw_string_def lexer_string_loop.simps lexer_raw_string_loop.simps
  lexer_string_token_def lexer_error_def cn_source_of_bytes_def cn_count_lines_def
  cn_keyword_kind_def cn_sv_eq_cstr_def cn_sv_eq_def cn_sv_from_cstr_def cn_diag_has_error_def
  lexer_eof_def token_array.items_push token_array.invar_push

section \<open>Properties\<close>

text \<open>
  C1: The lexer returns on a file exactly when the file has no NUL byte; on every file with a
  NUL byte its main loop runs forever.
\<close>

theorem lexer_returns_iff_no_nul:
  "(\<exists>r. lex_bytes ltr p bytes = Some r) \<longleftrightarrow> c_nul \<notin> set bytes"
  using lex_bytes_None_iff [of ltr p bytes] by (auto simp: not_None_eq [symmetric])

text \<open>
  C2: On every file without a NUL byte the lexer returns a buffer that ends with the only
  end-of-file token, at the length of the file; the offsets of the tokens are strictly
  increasing and below it, and each lexeme is a valid view of the file that lies at or
  after the token's offset and ends before the next token starts.
\<close>

theorem lexer_tokens_ordered:
  assumes "c_nul \<notin> set bytes"
  shows "\<exists>ok lx toks ts eof. lex_bytes ltr p bytes = Some (ok, lx, toks)
     \<and> arr_items toks = ts @ [eof]
     \<and> kind eof = CN_TOKEN_EOF \<and> offset eof = length bytes
     \<and> (\<forall>t \<in> set ts. kind t \<noteq> CN_TOKEN_EOF \<and> offset t < length bytes
          \<and> (\<exists>s n. lexeme t = Sv bytes s n \<and> offset t \<le> s \<and> s + n \<le> length bytes))
     \<and> sorted_wrt (\<lambda>a b. offset a < offset b \<and> lexeme_end a \<le> offset b) ts"
  using assms by (rule lex_bytes_spec [of bytes ltr p]) (auto simp: tokens_ok_def token_at_def; blast)

theorem lexer_tokens_ordered_witness:
  "c_nul \<notin> set ''a+1'' \<and> (\<exists>ok lx toks ts eof. lex_bytes True ''f'' ''a+1'' = Some (ok, lx, toks)
     \<and> arr_items toks = ts @ [eof]
     \<and> kind eof = CN_TOKEN_EOF \<and> offset eof = length ''a+1''
     \<and> (\<forall>t \<in> set ts. kind t \<noteq> CN_TOKEN_EOF \<and> offset t < length ''a+1''
          \<and> (\<exists>s n. lexeme t = Sv ''a+1'' s n \<and> offset t \<le> s \<and> s + n \<le> length ''a+1''))
     \<and> sorted_wrt (\<lambda>a b. offset a < offset b \<and> lexeme_end a \<le> offset b) ts)"
proof -
  have h: "c_nul \<notin> set ''a+1''" by simp
  show ?thesis using h lexer_tokens_ordered [OF h, of True "''f''"] by blast
qed

text \<open>
  C3: The line and column the lexer stores in a token, which it counts while it scans, are the
  ones that the binary search of \<open>cn_source_position\<close> computes from the token's offset.
\<close>

theorem lexer_positions_agree_with_source:
  assumes "c_nul \<notin> set bytes"
  shows "\<exists>ok lx toks. lex_bytes ltr p bytes = Some (ok, lx, toks)
     \<and> (\<forall>t \<in> set (arr_items toks).
          cn_source_position (cn_source_of_bytes p bytes) (offset t) = (line t, column t))"
proof -
  from assms obtain ok lx toks ts eof where r: "lex_bytes ltr p bytes = Some (ok, lx, toks)"
    and t: "arr_items toks = ts @ [eof]" "tokens_ok ltr bytes (length bytes) ts"
    "token_at ltr bytes (length bytes) (length bytes) eof" "offset eof = length bytes"
    by (rule lex_bytes_spec)
  have "cn_source_position (cn_source_of_bytes p bytes) (offset tk) = (line tk, column tk)"
    if "tk \<in> set (arr_items toks)" for tk
    using that t
    by (subst cn_source_position_spec [OF wf_source_of_bytes])
      (auto simp: tokens_ok_def token_at_def less_imp_le)
  with r show ?thesis by blast
qed

theorem lexer_positions_agree_with_source_witness:
  "c_nul \<notin> set [CHR ''a'', c_nl, CHR ''b''] \<and>
   (\<exists>ok lx toks. lex_bytes True ''f'' [CHR ''a'', c_nl, CHR ''b''] = Some (ok, lx, toks)
     \<and> (\<forall>t \<in> set (arr_items toks).
          cn_source_position (cn_source_of_bytes ''f'' [CHR ''a'', c_nl, CHR ''b'']) (offset t) = (line t, column t)))"
proof -
  have h: "c_nul \<notin> set [CHR ''a'', c_nl, CHR ''b'']" by simp
  show ?thesis using h lexer_positions_agree_with_source [OF h, of True "''f''"] by blast
qed

text \<open>
  C4: Every token is spelled as its kind says: an integer literal is a nonempty run of
  digits, an identifier starts with no digit, has identifier bytes only and is no keyword,
  a string literal follows an opening quote, and every other token has the bytes that
  \<open>cn_token_kind_name\<close> gives for its kind (its first byte only, for the operators ending in
  an equals sign, when the compiler evaluates arguments from right to left). No token has
  the kind \<open>CN_TOKEN_RESULT\<close>.
\<close>

theorem lexer_tokens_spelled:
  assumes "c_nul \<notin> set bytes"
  shows "\<exists>ok lx toks. lex_bytes ltr p bytes = Some (ok, lx, toks)
     \<and> (\<forall>t \<in> set (arr_items toks). token_spelled ltr t \<and> kind t \<noteq> CN_TOKEN_RESULT)"
proof -
  from assms obtain ok lx toks ts eof where r: "lex_bytes ltr p bytes = Some (ok, lx, toks)"
    and t: "arr_items toks = ts @ [eof]" "tokens_ok ltr bytes (length bytes) ts"
    "token_at ltr bytes (length bytes) (length bytes) eof"
    by (rule lex_bytes_spec)
  have "token_spelled ltr tk \<and> kind tk \<noteq> CN_TOKEN_RESULT" if "tk \<in> set (arr_items toks)" for tk
  proof -
    have "token_spelled ltr tk" using that t by (auto simp: tokens_ok_def token_at_def)
    then show ?thesis by (auto simp: token_spelled_def Let_def)
  qed
  with r show ?thesis by blast
qed

theorem lexer_tokens_spelled_witness:
  "c_nul \<notin> set ''x<=2'' \<and> (\<exists>ok lx toks. lex_bytes True ''f'' ''x<=2'' = Some (ok, lx, toks)
     \<and> (\<forall>t \<in> set (arr_items toks). token_spelled True t \<and> kind t \<noteq> CN_TOKEN_RESULT))"
proof -
  have h: "c_nul \<notin> set ''x<=2''" by simp
  show ?thesis using h lexer_tokens_spelled [OF h, of True "''f''"] by blast
qed

text \<open>
  C5: Round trip of the fixed spellings: lexing the name that \<open>cn_token_kind_name\<close> prints for a
  keyword, an operator or a punctuation mark gives back exactly that kind, and no error.
  (\<open>CN_TOKEN_RESULT\<close> is the exception: \<open>result\<close> is an identifier.)
\<close>

theorem lexer_reads_back_names:
  "fixed_spelling k \<Longrightarrow> k \<noteq> CN_TOKEN_RESULT \<Longrightarrow>
   map_option (\<lambda>(ok, lx, toks). (ok, map kind (arr_items toks))) (lex_bytes ltr p (cn_token_kind_name k))
     = Some (True, [k, CN_TOKEN_EOF])"
  by (cases k) (simp_all add: fixed_spelling_def lexer_eval Let_def)

theorem lexer_reads_back_names_witness:
  "fixed_spelling CN_TOKEN_GREATER_EQUAL \<and> CN_TOKEN_GREATER_EQUAL \<noteq> CN_TOKEN_RESULT \<and>
   map_option (\<lambda>(ok, lx, toks). (ok, map kind (arr_items toks))) (lex_bytes True ''f'' ''>='')
     = Some (True, [CN_TOKEN_GREATER_EQUAL, CN_TOKEN_EOF])"
  using lexer_reads_back_names [of CN_TOKEN_GREATER_EQUAL True "''f''"]
  by (simp add: fixed_spelling_def)

end
