(* ===== verification/Ast.thy ===== *)
theory Ast
  imports Common
begin

text \<open>
  The syntax tree, \<open>include/cnegative/ast.h\<close> and \<open>src/parse/ast.c\<close>. A tagged union becomes a
  datatype with one constructor per tag, whose first argument is the node's \<open>offset\<close>; a
  pointer that may be null becomes an option. String views in the tree are only ever
  compared by content, so a node holds the string itself. A child list is the list of its
  items: every push of \<open>ast.c\<close> is \<^const>\<open>cn_list_push\<close> on the array, which the
  interpretation \<open>ast_list\<close> shows to append one item.
\<close>

section \<open>Types and expressions\<close>

datatype cn_type_kind =
    CN_TYPE_INT
  | CN_TYPE_U8
  | CN_TYPE_BOOL
  | CN_TYPE_STR
  | CN_TYPE_VOID
  | CN_TYPE_NULL
  | CN_TYPE_RESULT
  | CN_TYPE_PTR
  | CN_TYPE_SLICE
  | CN_TYPE_ARRAY
  | CN_TYPE_NAMED
  | CN_TYPE_UNKNOWN

datatype cn_unary_op = CN_UNARY_NEGATE | CN_UNARY_NOT

datatype cn_binary_op =
    CN_BINARY_ADD
  | CN_BINARY_SUB
  | CN_BINARY_MUL
  | CN_BINARY_DIV
  | CN_BINARY_MOD
  | CN_BINARY_EQUAL
  | CN_BINARY_NOT_EQUAL
  | CN_BINARY_LESS
  | CN_BINARY_LESS_EQUAL
  | CN_BINARY_GREATER
  | CN_BINARY_GREATER_EQUAL
  | CN_BINARY_AND
  | CN_BINARY_OR

text \<open>
  \<open>CnType kind module_name name inner array_size_expr array_size offset\<close> is the struct
  \<open>cn_type_ref\<close>; the fields of an expression follow its offset in the order of the union.
\<close>

datatype cn_type_ref =
    CnType (type_kind: cn_type_kind) (type_module: string) (type_name: string)
      (type_inner: "cn_type_ref option") (array_size_expr: "cn_expr option")
      (array_size: nat) (type_offset: nat)
and cn_expr =
    CN_EXPR_INT nat int64
  | CN_EXPR_BOOL nat bool
  | CN_EXPR_STRING nat string
  | CN_EXPR_NULL nat
  | CN_EXPR_NAME nat string
  | CN_EXPR_UNARY nat cn_unary_op cn_expr
  | CN_EXPR_BINARY nat cn_binary_op cn_expr cn_expr
  | CN_EXPR_IF nat cn_expr cn_expr cn_expr
  | CN_EXPR_CALL nat cn_expr "cn_expr list"
  | CN_EXPR_ARRAY_LITERAL nat "cn_expr list" "cn_expr option" nat
  | CN_EXPR_INDEX nat cn_expr cn_expr
  | CN_EXPR_SLICE_VIEW nat cn_expr "cn_expr option" "cn_expr option"
  | CN_EXPR_FIELD nat cn_expr string
  | CN_EXPR_STRUCT_LITERAL nat string string "cn_field_init list"
  | CN_EXPR_OK nat cn_expr
  | CN_EXPR_ERR nat
  | CN_EXPR_ALLOC nat cn_type_ref
  | CN_EXPR_ZALLOC nat cn_type_ref
  | CN_EXPR_ADDR nat cn_expr
  | CN_EXPR_DEREF nat cn_expr
and cn_field_init =
    CnFieldInit (field_init_name: string) (field_init_value: cn_expr) (field_init_offset: nat)

primrec expr_offset :: "cn_expr \<Rightarrow> nat" where
  "expr_offset (CN_EXPR_INT off v) = off"
| "expr_offset (CN_EXPR_BOOL off v) = off"
| "expr_offset (CN_EXPR_STRING off v) = off"
| "expr_offset (CN_EXPR_NULL off) = off"
| "expr_offset (CN_EXPR_NAME off n) = off"
| "expr_offset (CN_EXPR_UNARY off uop e) = off"
| "expr_offset (CN_EXPR_BINARY off bop l r) = off"
| "expr_offset (CN_EXPR_IF off c t e) = off"
| "expr_offset (CN_EXPR_CALL off f xs) = off"
| "expr_offset (CN_EXPR_ARRAY_LITERAL off xs rc n) = off"
| "expr_offset (CN_EXPR_INDEX off b i) = off"
| "expr_offset (CN_EXPR_SLICE_VIEW off b s e) = off"
| "expr_offset (CN_EXPR_FIELD off b f) = off"
| "expr_offset (CN_EXPR_STRUCT_LITERAL off m n fs) = off"
| "expr_offset (CN_EXPR_OK off e) = off"
| "expr_offset (CN_EXPR_ERR off) = off"
| "expr_offset (CN_EXPR_ALLOC off t) = off"
| "expr_offset (CN_EXPR_ZALLOC off t) = off"
| "expr_offset (CN_EXPR_ADDR off e) = off"
| "expr_offset (CN_EXPR_DEREF off e) = off"

section \<open>Statements and declarations\<close>

datatype cn_stmt =
    CN_STMT_LET nat string bool cn_type_ref cn_expr
  | CN_STMT_ASSIGN nat cn_expr cn_expr
  | CN_STMT_RETURN nat "cn_expr option"
  | CN_STMT_EXPR nat cn_expr
  | CN_STMT_DEFER nat cn_stmt
  | CN_STMT_TRY nat string cn_expr
  | CN_STMT_ZONE nat cn_block
  | CN_STMT_IF nat cn_expr cn_block "cn_block option"
  | CN_STMT_WHILE nat cn_expr cn_block
  | CN_STMT_LOOP nat cn_block
  | CN_STMT_FOR nat string cn_type_ref cn_expr cn_expr cn_block
  | CN_STMT_FREE nat cn_expr
and cn_block =
    CnBlock (block_statements: "cn_stmt list") (block_offset: nat)

record cn_struct_field =
  sf_name :: string
  sf_type :: cn_type_ref
  sf_offset :: nat

record cn_struct_decl =
  sd_is_public :: bool
  sd_name :: string
  sd_fields :: "cn_struct_field list"
  sd_offset :: nat

record cn_import_decl =
  im_module_name :: string
  im_alias :: string
  im_has_alias :: bool
  im_offset :: nat

record cn_param =
  pa_name :: string
  pa_type :: cn_type_ref
  pa_offset :: nat

record cn_function =
  fn_is_public :: bool
  fn_is_builtin :: bool
  fn_name :: string
  fn_return_type :: cn_type_ref
  fn_parameters :: "cn_param list"
  fn_body :: "cn_block option"
  fn_offset :: nat

record cn_const_decl =
  cd_is_public :: bool
  cd_name :: string
  cd_type :: cn_type_ref
  cd_initializer :: cn_expr
  cd_sema_checked :: bool
  cd_sema_checking :: bool
  cd_offset :: nat

record cn_program =
  pr_imports :: "cn_import_decl list"
  pr_consts :: "cn_const_decl list"
  pr_structs :: "cn_struct_decl list"
  pr_functions :: "cn_function list"

definition cn_program_create :: cn_program where
  "cn_program_create = \<lparr>pr_imports = [], pr_consts = [], pr_structs = [], pr_functions = []\<rparr>"

definition cn_type_create :: "cn_type_kind \<Rightarrow> string \<Rightarrow> cn_type_ref option \<Rightarrow> nat \<Rightarrow> cn_type_ref" where
  "cn_type_create k n inner off = CnType k [] n inner None 0 off"

definition cn_program_push_import :: "cn_program \<Rightarrow> cn_import_decl \<Rightarrow> cn_program" where
  "cn_program_push_import prog d = prog\<lparr>pr_imports := pr_imports prog @ [d]\<rparr>"

definition cn_program_push_const :: "cn_program \<Rightarrow> cn_const_decl \<Rightarrow> cn_program" where
  "cn_program_push_const prog d = prog\<lparr>pr_consts := pr_consts prog @ [d]\<rparr>"

definition cn_program_push_struct :: "cn_program \<Rightarrow> cn_struct_decl \<Rightarrow> cn_program" where
  "cn_program_push_struct prog d = prog\<lparr>pr_structs := pr_structs prog @ [d]\<rparr>"

definition cn_program_push_function :: "cn_program \<Rightarrow> cn_function \<Rightarrow> cn_program" where
  "cn_program_push_function prog d = prog\<lparr>pr_functions := pr_functions prog @ [d]\<rparr>"

section \<open>Type equality\<close>

text \<open>
  \<open>cn_type_equal\<close> takes two pointers that may be null. The model takes two options; a null
  pointer on either side makes the types unequal.
\<close>

function cn_type_equal :: "cn_type_ref option \<Rightarrow> cn_type_ref option \<Rightarrow> bool" where
  "cn_type_equal None r = False"
| "cn_type_equal (Some l) None = False"
| "cn_type_equal (Some l) (Some r) =
     (if type_kind l \<noteq> type_kind r then False
      else case type_kind l of
             CN_TYPE_RESULT \<Rightarrow> cn_type_equal (type_inner l) (type_inner r)
           | CN_TYPE_PTR \<Rightarrow> cn_type_equal (type_inner l) (type_inner r)
           | CN_TYPE_SLICE \<Rightarrow> cn_type_equal (type_inner l) (type_inner r)
           | CN_TYPE_ARRAY \<Rightarrow> array_size l = array_size r \<and> cn_type_equal (type_inner l) (type_inner r)
           | CN_TYPE_NAMED \<Rightarrow> type_module l = type_module r \<and> type_name l = type_name r
           | _ \<Rightarrow> True)"
  by pat_completeness auto

termination
proof (relation "measure (\<lambda>(l, r). size_option size l)", goal_cases)
  case (2 l r)
  then show ?case by (cases l) auto
next
  case (3 l r)
  then show ?case by (cases l) auto
next
  case (4 l r)
  then show ?case by (cases l) auto
next
  case (5 l r)
  then show ?case by (cases l) auto
qed simp

section \<open>Descriptions of types\<close>

text \<open>
  \<open>cn_type_describe\<close> formats an inner type into a local buffer of 128 bytes and the whole
  into the caller's buffer; \<open>snprintf\<close> cuts both.
\<close>

function cn_type_describe :: "cn_type_ref option \<Rightarrow> nat \<Rightarrow> string" where
  "cn_type_describe None n = c_snprintf n ''<null>''"
| "cn_type_describe (Some t) n =
     (case type_kind t of
        CN_TYPE_INT \<Rightarrow> c_snprintf n ''int''
      | CN_TYPE_U8 \<Rightarrow> c_snprintf n ''u8''
      | CN_TYPE_BOOL \<Rightarrow> c_snprintf n ''bool''
      | CN_TYPE_STR \<Rightarrow> c_snprintf n ''str''
      | CN_TYPE_VOID \<Rightarrow> c_snprintf n ''void''
      | CN_TYPE_NULL \<Rightarrow> c_snprintf n ''null''
      | CN_TYPE_RESULT \<Rightarrow> c_snprintf n (''result '' @ cn_type_describe (type_inner t) 128)
      | CN_TYPE_PTR \<Rightarrow> c_snprintf n (''ptr '' @ cn_type_describe (type_inner t) 128)
      | CN_TYPE_SLICE \<Rightarrow> c_snprintf n (''slice '' @ cn_type_describe (type_inner t) 128)
      | CN_TYPE_ARRAY \<Rightarrow>
          c_snprintf n (cn_type_describe (type_inner t) 128 @ ''['' @ nat_digits (array_size t) @ '']'')
      | CN_TYPE_NAMED \<Rightarrow>
          if type_module t \<noteq> [] then c_snprintf n (type_module t @ ''.'' @ type_name t)
          else c_snprintf n (type_name t)
      | CN_TYPE_UNKNOWN \<Rightarrow> c_snprintf n ''<unknown>'')"
  by pat_completeness auto
termination
proof (relation "measure (\<lambda>(t, n). size_option size t)", goal_cases)
  case (2 t n)
  then show ?case by (cases t) auto
next
  case (3 t n)
  then show ?case by (cases t) auto
next
  case (4 t n)
  then show ?case by (cases t) auto
next
  case (5 t n)
  then show ?case by (cases t) auto
qed simp

lemma cn_type_describe_fits: "0 < n \<Longrightarrow> length (cn_type_describe t n) < n"
  by (cases t) (auto simp: c_snprintf_def split: cn_type_kind.splits)

section \<open>Type equality is equality of shapes\<close>

text \<open>
  The reference: the structure of a type without its offsets and without the spelling of
  builtin names. A type constructor that lacks its inner type has no shape.
\<close>

datatype type_shape =
    ShBase cn_type_kind
  | ShUnary cn_type_kind type_shape
  | ShArray nat type_shape
  | ShNamed string string

definition has_inner :: "cn_type_kind \<Rightarrow> bool" where
  "has_inner k \<longleftrightarrow> k \<in> {CN_TYPE_RESULT, CN_TYPE_PTR, CN_TYPE_SLICE, CN_TYPE_ARRAY}"

function shape_of :: "cn_type_ref option \<Rightarrow> type_shape option" where
  "shape_of None = None"
| "shape_of (Some t) =
     (if has_inner (type_kind t)
      then map_option (if type_kind t = CN_TYPE_ARRAY then ShArray (array_size t) else ShUnary (type_kind t))
             (shape_of (type_inner t))
      else if type_kind t = CN_TYPE_NAMED then Some (ShNamed (type_module t) (type_name t))
      else Some (ShBase (type_kind t)))"
  by pat_completeness auto
termination
proof (relation "measure (size_option size)", goal_cases)
  case (2 t)
  then show ?case by (cases t) auto
qed simp

fun shape_kind :: "type_shape \<Rightarrow> cn_type_kind" where
  "shape_kind (ShBase k) = k"
| "shape_kind (ShUnary k s) = k"
| "shape_kind (ShArray n s) = CN_TYPE_ARRAY"
| "shape_kind (ShNamed m n) = CN_TYPE_NAMED"

lemma shape_kind_of: "shape_of (Some t) = Some s \<Longrightarrow> shape_kind s = type_kind t"
  by (auto split: if_splits)

lemma cn_type_equal_shape_of:
  "cn_type_equal l r \<longleftrightarrow> shape_of l \<noteq> None \<and> shape_of l = shape_of r"
proof (induction l r rule: cn_type_equal.induct)
  case (3 l r)
  show ?case
  proof (cases "type_kind l = type_kind r")
    case False
    then have "shape_of (Some l) = None \<or> shape_of (Some l) \<noteq> shape_of (Some r)"
      by (metis shape_kind_of option.exhaust)
    with False show ?thesis by simp
  next
    case True
    let ?li = "type_inner l" and ?ri = "type_inner r"
    have inner: "cn_type_equal ?li ?ri \<longleftrightarrow> shape_of ?li \<noteq> None \<and> shape_of ?li = shape_of ?ri"
      if "has_inner (type_kind l)"
      using that 3 True by (auto simp: has_inner_def)
    show ?thesis
    proof (cases "has_inner (type_kind l)")
      case inn: True
      then show ?thesis
        using True inner [OF inn]
        by (cases "shape_of ?li"; cases "shape_of ?ri") (auto simp: has_inner_def)
    next
      case False
      with True show ?thesis
        by (cases "type_kind l") (auto simp: has_inner_def)
    qed
  qed
qed auto

section \<open>Properties\<close>

text \<open>
  C18: \<open>cn_type_equal\<close> decides equality of the structure of two types: it holds exactly when
  both have a shape (no null pointer where a type constructor needs its inner type) and the
  shapes agree, whatever their offsets, their size expressions and the spelling of builtin
  names. So it is symmetric and transitive, and reflexive on complete types.
\<close>

theorem cn_type_equal_iff_same_shape:
  "cn_type_equal l r \<longleftrightarrow> (\<exists>s. shape_of l = Some s \<and> shape_of r = Some s)"
  by (auto simp: cn_type_equal_shape_of)


end
