(* ===== verification/Parser_Core.thy ===== *)
theory Parser_Core
  imports Lexer Ast
begin

text \<open>
  The parser, \<open>src/parse/parser.c\<close>, first part: the state \<open>cn_parser\<close>, the cursor operations
  and the error reports. A parser function is a state transformer with three outcomes:
  it returns a value and the new state, it reads outside the token buffer or overflows a
  signed integer (\<open>Undef\<close>, undefined behaviour in C), or it runs out of the fuel that bounds
  its loops and recursion (\<open>NoFuel\<close>). A null pointer that a function returns is the value
  \<^term>\<open>None\<close>. Reading \<open>tokens->items[index]\<close> is guarded, so that freedom from \<open>Undef\<close> is
  memory safety of the cursor.

  The contracts are stated with weakest preconditions: \<open>wp t m Q p\<close> says that \<open>m\<close>, started in
  \<open>p\<close>, is never undefined, satisfies \<open>Q\<close> if it returns, and does return if \<open>t\<close> holds.
\<close>

section \<open>State and outcomes\<close>

record cn_parser =
  ps_tokens :: "cn_token list"
  ps_diags :: cn_diag_bag
  ps_index :: nat

datatype 'a pres = Ret 'a cn_parser | Undef | NoFuel

type_synonym 'a pm = "cn_parser \<Rightarrow> 'a pres"

definition pret :: "'a \<Rightarrow> 'a pm" where
  "pret x p = Ret x p"

definition pbind :: "'a pm \<Rightarrow> ('a \<Rightarrow> 'b pm) \<Rightarrow> 'b pm" where
  "pbind m k p = (case m p of Ret x p' \<Rightarrow> k x p' | Undef \<Rightarrow> Undef | NoFuel \<Rightarrow> NoFuel)"

definition pseq :: "'a pm \<Rightarrow> 'b pm \<Rightarrow> 'b pm" where
  "pseq m k = pbind m (\<lambda>_. k)"

definition pif :: "bool pm \<Rightarrow> 'a pm \<Rightarrow> 'a pm \<Rightarrow> 'a pm" where
  "pif c a b = pbind c (\<lambda>x. if x then a else b)"

definition por :: "bool pm \<Rightarrow> bool pm \<Rightarrow> bool pm" where
  "por a b = pif a (pret True) b"

definition pand :: "bool pm \<Rightarrow> bool pm \<Rightarrow> bool pm" where
  "pand a b = pif a b (pret False)"

definition pnot :: "bool pm \<Rightarrow> bool pm" where
  "pnot a = pif a (pret False) (pret True)"

text \<open>\<open>ptry m a k\<close>: call \<open>m\<close>; on a null result go on with \<open>a\<close>, otherwise with \<open>k\<close>.\<close>

definition ptry :: "'a option pm \<Rightarrow> 'b pm \<Rightarrow> ('a \<Rightarrow> 'b pm) \<Rightarrow> 'b pm" where
  "ptry m a k = pbind m (\<lambda>r. case r of None \<Rightarrow> a | Some x \<Rightarrow> k x)"

text \<open>The pointer to a node that is never null.\<close>

definition psome :: "'a pm \<Rightarrow> 'a option pm" where
  "psome m = pbind m (\<lambda>x. pret (Some x))"

definition pundef :: "'a pm" where
  "pundef p = Undef"

definition pfuel :: "'a pm" where
  "pfuel p = NoFuel"

definition cn_parser_init :: "cn_token_buffer \<Rightarrow> cn_diag_bag \<Rightarrow> cn_parser" where
  "cn_parser_init toks bag = \<lparr>ps_tokens = arr_items toks, ps_diags = bag, ps_index = 0\<rparr>"

section \<open>The cursor\<close>

definition cn_parser_current :: "cn_token pm" where
  "cn_parser_current p =
     (if ps_index p < length (ps_tokens p) then Ret (ps_tokens p ! ps_index p) p else Undef)"

definition cn_parser_previous :: "cn_token pm" where
  "cn_parser_previous p =
     (if 0 < ps_index p \<and> ps_index p - 1 < length (ps_tokens p)
      then Ret (ps_tokens p ! (ps_index p - 1)) p else Undef)"

definition cn_parser_is_at_end :: "bool pm" where
  "cn_parser_is_at_end = pbind cn_parser_current (\<lambda>t. pret (kind t = CN_TOKEN_EOF))"

definition pbump :: "unit pm" where
  "pbump p = Ret () (p\<lparr>ps_index := ps_index p + 1\<rparr>)"

definition cn_parser_advance :: "cn_token pm" where
  "cn_parser_advance =
     pseq (pif cn_parser_is_at_end (pret ()) pbump) cn_parser_previous"

definition cn_parser_check :: "cn_token_kind \<Rightarrow> bool pm" where
  "cn_parser_check k =
     pif cn_parser_is_at_end (pret (k = CN_TOKEN_EOF))
       (pbind cn_parser_current (\<lambda>t. pret (kind t = k)))"

definition cn_parser_match :: "cn_token_kind \<Rightarrow> bool pm" where
  "cn_parser_match k = pif (cn_parser_check k) (pseq cn_parser_advance (pret True)) (pret False)"

definition cn_parser_peek :: "nat \<Rightarrow> cn_token pm" where
  "cn_parser_peek distance p =
     (let n = length (ps_tokens p); i = ps_index p + distance; j = (if n \<le> i then n - 1 else i)
      in if j < n then Ret (ps_tokens p ! j) p else Undef)"

definition cn_token_is_identifier_text :: "cn_token \<Rightarrow> string \<Rightarrow> bool" where
  "cn_token_is_identifier_text t s \<longleftrightarrow> kind t = CN_TOKEN_IDENTIFIER \<and> cn_sv_eq_cstr (lexeme t) s"

definition cn_parser_check_identifier_text :: "string \<Rightarrow> bool pm" where
  "cn_parser_check_identifier_text s =
     pbind cn_parser_current (\<lambda>t. pret (cn_token_is_identifier_text t s))"

definition cn_parser_match_identifier_text :: "string \<Rightarrow> bool pm" where
  "cn_parser_match_identifier_text s =
     pif (cn_parser_check_identifier_text s) (pseq cn_parser_advance (pret True)) (pret False)"

section \<open>Errors\<close>

definition perror :: "string \<Rightarrow> nat \<Rightarrow> string \<Rightarrow> unit pm" where
  "perror c off msg p = Ret () (p\<lparr>ps_diags := cn_diag_emit (ps_diags p) CN_DIAG_ERROR c off msg\<rparr>)"

definition got :: "string \<Rightarrow> cn_token \<Rightarrow> string" where
  "got msg t = msg @ '', got '' @ c_quote @ cn_token_kind_name (kind t) @ c_quote"

definition cn_parser_consume :: "cn_token_kind \<Rightarrow> string \<Rightarrow> cn_token option pm" where
  "cn_parser_consume k msg =
     pif (cn_parser_check k) (pbind cn_parser_advance (\<lambda>t. pret (Some t)))
       (pbind cn_parser_current (\<lambda>t. pseq (perror ''E1001'' (offset t) (got msg t)) (pret None)))"

definition cn_parser_consume_field_name :: "cn_token option pm" where
  "cn_parser_consume_field_name =
     pif (por (cn_parser_check CN_TOKEN_IDENTIFIER) (cn_parser_check CN_TOKEN_OK))
       (pbind cn_parser_advance (\<lambda>t. pret (Some t)))
       (pbind cn_parser_current (\<lambda>t.
          pseq (perror ''E1001'' (offset t) (got (''expected field name after '' @ c_quote @ ''.'' @ c_quote) t))
            (pret None)))"

definition cn_parser_require_semicolon :: "string \<Rightarrow> unit pm" where
  "cn_parser_require_semicolon msg = pseq (cn_parser_consume CN_TOKEN_SEMICOLON msg) (pret ())"

definition cn_parser_type_starts_here :: "bool pm" where
  "cn_parser_type_starts_here =
     pbind cn_parser_current (\<lambda>t. pret (kind t = CN_TOKEN_INT \<or> kind t = CN_TOKEN_U8
       \<or> kind t = CN_TOKEN_BYTE \<or> kind t = CN_TOKEN_BOOL \<or> kind t = CN_TOKEN_STR \<or> kind t = CN_TOKEN_VOID
       \<or> kind t = CN_TOKEN_IDENTIFIER \<or> kind t = CN_TOKEN_RESULT))"

definition cn_parser_is_top_level_start :: "cn_token_kind \<Rightarrow> bool" where
  "cn_parser_is_top_level_start k \<longleftrightarrow> k = CN_TOKEN_IMPORT \<or> k = CN_TOKEN_CONST \<or> k = CN_TOKEN_PCONST
     \<or> k = CN_TOKEN_STRUCT \<or> k = CN_TOKEN_PSTRUCT \<or> k = CN_TOKEN_FN \<or> k = CN_TOKEN_PFN \<or> k = CN_TOKEN_EOF"

definition cn_parser_is_statement_start :: "cn_token_kind \<Rightarrow> bool" where
  "cn_parser_is_statement_start k \<longleftrightarrow> k = CN_TOKEN_LET \<or> k = CN_TOKEN_RETURN \<or> k = CN_TOKEN_FREE
     \<or> k = CN_TOKEN_DEFER \<or> k = CN_TOKEN_TRY \<or> k = CN_TOKEN_ZONE \<or> k = CN_TOKEN_IF \<or> k = CN_TOKEN_WHILE
     \<or> k = CN_TOKEN_LOOP \<or> k = CN_TOKEN_FOR"

primrec cn_parser_sync_statement :: "nat \<Rightarrow> unit pm" where
  "cn_parser_sync_statement 0 = pfuel"
| "cn_parser_sync_statement (Suc n) =
     pif cn_parser_is_at_end (pret ())
       (pif (cn_parser_match CN_TOKEN_SEMICOLON) (pret ())
         (pif (por (cn_parser_check CN_TOKEN_RBRACE)
                (pbind cn_parser_current (\<lambda>t.
                   pret (cn_parser_is_statement_start (kind t) \<or> cn_parser_is_top_level_start (kind t)))))
           (pret ())
           (pseq cn_parser_advance (cn_parser_sync_statement n))))"

primrec cn_parser_sync_top_level :: "nat \<Rightarrow> unit pm" where
  "cn_parser_sync_top_level 0 = pfuel"
| "cn_parser_sync_top_level (Suc n) =
     pif cn_parser_is_at_end (pret ())
       (pif (cn_parser_match CN_TOKEN_SEMICOLON) (pret ())
         (pif (pbind cn_parser_current (\<lambda>t. pret (cn_parser_is_top_level_start (kind t))))
           (pret ())
           (pseq cn_parser_advance (cn_parser_sync_top_level n))))"

section \<open>Literals\<close>

text \<open>The normalisation of line ends in a raw string.\<close>

fun normalize_cr :: "string \<Rightarrow> string" where
  "normalize_cr [] = []"
| "normalize_cr [c] = [if c = c_cr then c_nl else c]"
| "normalize_cr (c # d # ds) =
     (if c = c_cr then c_nl # (if d = c_nl then normalize_cr ds else normalize_cr (d # ds))
      else c # normalize_cr (d # ds))"

definition cn_parser_string_literal_value :: "cn_token \<Rightarrow> string pm" where
  "cn_parser_string_literal_value t =
     (if lexeme t = SvNull then pret (sv_str (lexeme t))
      else case sv_prev_byte (lexeme t) of
             None \<Rightarrow> pundef
           | Some c \<Rightarrow>
               if c \<noteq> CHR 0x60 then pret (sv_str (lexeme t))
               else if c_cr \<notin> set (sv_str (lexeme t)) then pret (sv_str (lexeme t))
               else pret (normalize_cr (sv_str (lexeme t))))"

text \<open>The loop \<open>value = (value * 10) + (data[i] - '0')\<close> of an integer literal.\<close>

fun literal_from :: "int64 \<Rightarrow> string \<Rightarrow> int64 option" where
  "literal_from v [] = Some v"
| "literal_from v (c # cs) =
     (case c_mul64 v 10 of
        None \<Rightarrow> None
      | Some w \<Rightarrow>
          (case c_add64 w (word_of_int (int (of_char c) - 48)) of
             None \<Rightarrow> None
           | Some v' \<Rightarrow> literal_from v' cs))"

definition int_literal_value :: "cn_token \<Rightarrow> int64 pm" where
  "int_literal_value t =
     (case literal_from 0 (sv_str (lexeme t)) of None \<Rightarrow> pundef | Some v \<Rightarrow> pret v)"

end
