(* ===== verification/Parser_Expr.thy ===== *)
theory Parser_Expr
  imports Parser_Core
begin

text \<open>
  The types and expressions of \<open>src/parse/parser.c\<close>. The functions of the C file are mutually
  recursive through \<open>cn_parse_expression\<close>; here that callee is a parameter \<open>pe\<close> of every function
  that calls it, and \<open>cn_parse_expression\<close> at the end ties the knot. The first argument of a
  function with a loop or a recursion of its own is fuel: the number of turns left.
\<close>

section \<open>Types\<close>

definition cn_parse_type_atom :: "cn_type_ref option pm" where
  "cn_parse_type_atom = pbind cn_parser_current (\<lambda>tok.
     let name = sv_str (lexeme tok); atom = (\<lambda>k. pret (Some (cn_type_create k name None (offset tok)))) in
     pif (cn_parser_match CN_TOKEN_INT) (atom CN_TYPE_INT)
    (pif (por (cn_parser_match CN_TOKEN_U8) (cn_parser_match CN_TOKEN_BYTE)) (atom CN_TYPE_U8)
    (pif (cn_parser_match CN_TOKEN_BOOL) (atom CN_TYPE_BOOL)
    (pif (cn_parser_match CN_TOKEN_STR) (atom CN_TYPE_STR)
    (pif (cn_parser_match CN_TOKEN_VOID) (atom CN_TYPE_VOID)
    (pif (cn_parser_match CN_TOKEN_IDENTIFIER)
      (pif (cn_parser_match CN_TOKEN_DOT)
        (ptry (cn_parser_consume CN_TOKEN_IDENTIFIER ''expected type name after module qualifier'')
          (pret None)
          (\<lambda>ty. pret (Some (CnType CN_TYPE_NAMED name (sv_str (lexeme ty)) None None 0 (offset tok)))))
        (atom CN_TYPE_NAMED))
      (pseq (perror ''E1003'' (offset tok) (got ''expected a type'' tok)) (pret None))))))))"

text \<open>One turn of the prefix loop: \<open>result\<close>, \<open>ptr\<close> or \<open>slice\<close>, or none of them.\<close>

definition type_prefix_here :: "cn_type_kind option pm" where
  "type_prefix_here =
     pif (por (cn_parser_match CN_TOKEN_RESULT)
           (pand (cn_parser_check_identifier_text ''result'')
             (pand (pbind (cn_parser_peek 1) (\<lambda>t. pret (kind t \<noteq> CN_TOKEN_DOT)))
               (cn_parser_match_identifier_text ''result''))))
       (pret (Some CN_TYPE_RESULT))
    (pif (cn_parser_match CN_TOKEN_PTR) (pret (Some CN_TYPE_PTR))
    (pif (cn_parser_match CN_TOKEN_SLICE) (pret (Some CN_TYPE_SLICE))
      (pret None)))"

text \<open>The loop that fills \<open>prefixes\<close>; the argument counts the free entries of the array.\<close>

primrec type_prefixes :: "nat \<Rightarrow> (cn_type_kind \<times> string \<times> nat) list pm" where
  "type_prefixes 0 = pret []"
| "type_prefixes (Suc n) = pbind cn_parser_current (\<lambda>tok.
     ptry type_prefix_here (pret [])
       (\<lambda>k. pbind (type_prefixes n) (\<lambda>ps. pret ((k, sv_str (lexeme tok), offset tok) # ps))))"

definition wrap_prefixes :: "(cn_type_kind \<times> string \<times> nat) list \<Rightarrow> cn_type_ref \<Rightarrow> cn_type_ref" where
  "wrap_prefixes ps ty = foldr (\<lambda>(k, n, off) inner. cn_type_create k n (Some inner) off) ps ty"

primrec type_array_suffixes :: "nat \<Rightarrow> cn_expr option pm \<Rightarrow> cn_type_ref \<Rightarrow> cn_type_ref pm" where
  "type_array_suffixes 0 pe ty = pfuel"
| "type_array_suffixes (Suc n) pe ty =
     pif (cn_parser_match CN_TOKEN_LBRACKET)
       (pbind pe (\<lambda>size_expr.
          pseq (cn_parser_consume CN_TOKEN_RBRACKET (''expected '' @ c_quote @ '']'' @ c_quote @ '' after array size''))
            (case size_expr of
               None \<Rightarrow> pret ty
             | Some e \<Rightarrow> type_array_suffixes n pe
                 (CnType CN_TYPE_ARRAY [] [] (Some ty) (Some e) 0 (type_offset ty)))))
       (pret ty)"

text \<open>The report on a prefix without an inner type.\<close>

definition lone_prefix :: "(cn_type_kind \<times> string \<times> nat) \<Rightarrow> cn_type_ref option pm" where
  "lone_prefix = (\<lambda>(k, _, off).
     if k = CN_TYPE_RESULT
     then pseq (perror ''E1007'' off (''result type requires an inner type; write '' @ c_quote @ ''result T'' @ c_quote))
            (pret None)
     else let w = (if k = CN_TYPE_PTR then ''ptr'' else ''slice'') in
          pseq (perror ''E1008'' off (w @ '' type requires an inner type; write '' @ c_quote @ w @ '' T'' @ c_quote))
            (pret None))"

definition cn_parse_type :: "nat \<Rightarrow> cn_expr option pm \<Rightarrow> cn_type_ref option pm" where
  "cn_parse_type n pe = pbind (type_prefixes 32) (\<lambda>prefixes.
     pif (pand (pret (prefixes \<noteq> [])) (pnot cn_parser_type_starts_here))
       (lone_prefix (last prefixes))
       (ptry cn_parse_type_atom (pret None)
         (\<lambda>ty. psome (type_array_suffixes n pe (wrap_prefixes prefixes ty)))))"

section \<open>Primary expressions\<close>

text \<open>A list of expressions separated by commas; the flag says that the last call gave no expression.\<close>

primrec expr_comma_list :: "nat \<Rightarrow> cn_expr option pm \<Rightarrow> cn_expr list \<Rightarrow> (bool \<times> cn_expr list) pm" where
  "expr_comma_list 0 pe acc = pfuel"
| "expr_comma_list (Suc n) pe acc =
     ptry pe (pret (True, acc))
       (\<lambda>item. pif (cn_parser_match CN_TOKEN_COMMA) (expr_comma_list n pe (acc @ [item]))
                 (pret (False, acc @ [item])))"

definition cn_parse_array_literal :: "nat \<Rightarrow> cn_expr option pm \<Rightarrow> cn_token \<Rightarrow> cn_expr pm" where
  "cn_parse_array_literal n pe left_bracket =
     (let array = (\<lambda>items rc. CN_EXPR_ARRAY_LITERAL (offset left_bracket) items rc 0);
          close = (\<lambda>items rc. pseq
            (cn_parser_consume CN_TOKEN_RBRACKET (''expected '' @ c_quote @ '']'' @ c_quote @ '' after array literal''))
            (pret (array items rc)))
      in pif (pnot (cn_parser_check CN_TOKEN_RBRACKET))
           (ptry pe (pret (array [] None))
             (\<lambda>first.
                pif (cn_parser_match CN_TOKEN_SEMICOLON)
                  (ptry pe (pret (array [first] None)) (\<lambda>rc. close [first] (Some rc)))
                  (pif (cn_parser_match CN_TOKEN_COMMA)
                    (pbind (expr_comma_list n pe [first]) (\<lambda>(failed, items).
                       if failed then pret (array items None) else close items None))
                    (close [first] None))))
           (close [] None))"

primrec struct_literal_fields :: "nat \<Rightarrow> cn_expr option pm \<Rightarrow> cn_field_init list \<Rightarrow> cn_field_init list pm" where
  "struct_literal_fields 0 pe acc = pfuel"
| "struct_literal_fields (Suc n) pe acc =
     pif (pand (pnot (cn_parser_check CN_TOKEN_RBRACE)) (pnot cn_parser_is_at_end))
       (pbind (cn_parser_consume CN_TOKEN_IDENTIFIER ''expected struct field name'') (\<lambda>field_name.
        pseq (cn_parser_consume CN_TOKEN_COLON (''expected '' @ c_quote @ '':'' @ c_quote @ '' after struct field name''))
        (pbind pe (\<lambda>val.
           case (field_name, val) of
             (Some f, Some v) \<Rightarrow>
               pseq (cn_parser_match CN_TOKEN_COMMA)
                 (struct_literal_fields n pe (acc @ [CnFieldInit (sv_str (lexeme f)) v (offset f)]))
           | _ \<Rightarrow> pret acc))))
       (pret acc)"

definition cn_parse_struct_literal ::
  "nat \<Rightarrow> cn_expr option pm \<Rightarrow> string \<Rightarrow> cn_token \<Rightarrow> cn_expr pm" where
  "cn_parse_struct_literal n pe module_name type_token =
     pseq (cn_parser_consume CN_TOKEN_LBRACE
             (''expected '' @ c_quote @ ''{'' @ c_quote @ '' after struct literal type name''))
    (pbind (struct_literal_fields n pe []) (\<lambda>fields.
     pseq (cn_parser_consume CN_TOKEN_RBRACE (''expected '' @ c_quote @ ''}'' @ c_quote @ '' after struct literal''))
       (pret (CN_EXPR_STRUCT_LITERAL (offset type_token) module_name (sv_str (lexeme type_token)) fields))))"

definition cn_parse_alloc_expression :: "nat \<Rightarrow> cn_expr option pm \<Rightarrow> cn_token \<Rightarrow> cn_expr option pm" where
  "cn_parse_alloc_expression n pe alloc_token =
     ptry (cn_parse_type n pe) (pret None) (\<lambda>ty. pret (Some (CN_EXPR_ALLOC (offset alloc_token) ty)))"

definition cn_parse_zalloc_expression :: "nat \<Rightarrow> cn_expr option pm \<Rightarrow> cn_token \<Rightarrow> cn_expr option pm" where
  "cn_parse_zalloc_expression n pe zalloc_token =
     ptry (cn_parse_type n pe) (pret None) (\<lambda>ty. pret (Some (CN_EXPR_ZALLOC (offset zalloc_token) ty)))"

definition cn_parse_if_expression_branch :: "cn_expr option pm \<Rightarrow> string \<Rightarrow> cn_expr option pm" where
  "cn_parse_if_expression_branch pe msg =
     ptry (cn_parser_consume CN_TOKEN_LBRACE msg) (pret None)
       (\<lambda>_. pbind pe (\<lambda>e.
          pseq (cn_parser_consume CN_TOKEN_RBRACE
                  (''expected '' @ c_quote @ ''}'' @ c_quote @ '' after if-expression branch''))
            (pret e)))"

primrec cn_parse_if_expression :: "nat \<Rightarrow> cn_expr option pm \<Rightarrow> cn_token \<Rightarrow> cn_expr option pm" where
  "cn_parse_if_expression 0 pe if_token = pfuel"
| "cn_parse_if_expression (Suc n) pe if_token =
     pbind pe (\<lambda>condition.
     pbind (cn_parse_if_expression_branch pe
              (''expected '' @ c_quote @ ''{'' @ c_quote @ '' after if-expression condition'')) (\<lambda>then_expr.
       case (condition, then_expr) of
         (Some c, Some t) \<Rightarrow>
           pif (cn_parser_match CN_TOKEN_ELSE)
             (ptry (pif (cn_parser_check CN_TOKEN_IF)
                      (pbind cn_parser_advance (\<lambda>else_if. cn_parse_if_expression n pe else_if))
                      (cn_parse_if_expression_branch pe
                        (''expected '' @ c_quote @ ''{'' @ c_quote @ '' or nested '' @ c_quote @ ''if'' @ c_quote
                         @ '' after '' @ c_quote @ ''else'' @ c_quote)))
               (pret None)
               (\<lambda>e. pret (Some (CN_EXPR_IF (offset if_token) c t e))))
             (pbind cn_parser_current (\<lambda>cur.
                pseq (perror ''E1001'' (offset cur)
                        (got (''expected '' @ c_quote @ ''else'' @ c_quote @ '' after if-expression branch'') cur))
                  (pret None)))
       | _ \<Rightarrow> pret None))"

definition peek_is :: "nat \<Rightarrow> cn_token_kind \<Rightarrow> bool pm" where
  "peek_is distance k = pbind (cn_parser_peek distance) (\<lambda>t. pret (kind t = k))"

definition starts_local_struct_literal :: "bool pm" where
  "starts_local_struct_literal =
     pand (peek_is 1 CN_TOKEN_LBRACE) (pand (peek_is 2 CN_TOKEN_IDENTIFIER) (peek_is 3 CN_TOKEN_COLON))"

definition starts_qualified_struct_literal :: "bool pm" where
  "starts_qualified_struct_literal =
     pand (peek_is 1 CN_TOKEN_DOT) (pand (peek_is 2 CN_TOKEN_IDENTIFIER) (pand (peek_is 3 CN_TOKEN_LBRACE)
       (pand (peek_is 4 CN_TOKEN_IDENTIFIER) (peek_is 5 CN_TOKEN_COLON))))"

text \<open>The branch of \<open>cn_parse_primary\<close> that starts at an identifier.\<close>

definition primary_identifier :: "nat \<Rightarrow> cn_expr option pm \<Rightarrow> cn_token \<Rightarrow> cn_expr option pm" where
  "primary_identifier n pe tok =
     pbind starts_local_struct_literal (\<lambda>loc.
     pbind starts_qualified_struct_literal (\<lambda>qualified.
     pseq cn_parser_advance
       (if qualified
        then pseq cn_parser_advance
               (ptry (cn_parser_consume CN_TOKEN_IDENTIFIER ''expected type name after module qualifier'')
                 (pret None)
                 (\<lambda>type_token. psome (cn_parse_struct_literal n pe (sv_str (lexeme tok)) type_token)))
        else if loc then psome (cn_parse_struct_literal n pe [] tok)
        else pret (Some (CN_EXPR_NAME (offset tok) (sv_str (lexeme tok)))))))"

definition cn_parse_primary :: "nat \<Rightarrow> cn_expr option pm \<Rightarrow> cn_expr option pm" where
  "cn_parse_primary n pe = pbind cn_parser_current (\<lambda>tok.
     pif (cn_parser_match CN_TOKEN_INT_LITERAL)
       (pbind (int_literal_value tok) (\<lambda>v. pret (Some (CN_EXPR_INT (offset tok) v))))
    (pif (cn_parser_match CN_TOKEN_TRUE) (pret (Some (CN_EXPR_BOOL (offset tok) True)))
    (pif (cn_parser_match CN_TOKEN_FALSE) (pret (Some (CN_EXPR_BOOL (offset tok) False)))
    (pif (cn_parser_match CN_TOKEN_STRING_LITERAL)
       (pbind (cn_parser_string_literal_value tok) (\<lambda>v. pret (Some (CN_EXPR_STRING (offset tok) v))))
    (pif (cn_parser_match CN_TOKEN_NULL) (pret (Some (CN_EXPR_NULL (offset tok))))
    (pif (cn_parser_match CN_TOKEN_ERR) (pret (Some (CN_EXPR_ERR (offset tok))))
    (pif (cn_parser_match CN_TOKEN_ALLOC) (cn_parse_alloc_expression n pe tok)
    (pif (cn_parser_match CN_TOKEN_ZALLOC) (cn_parse_zalloc_expression n pe tok)
    (pif (cn_parser_match CN_TOKEN_IF) (cn_parse_if_expression n pe tok)
    (pif (cn_parser_check CN_TOKEN_IDENTIFIER) (primary_identifier n pe tok)
    (pif (cn_parser_match CN_TOKEN_LBRACKET) (psome (cn_parse_array_literal n pe tok))
    (pif (cn_parser_match CN_TOKEN_LPAREN)
       (pbind pe (\<lambda>e.
          pseq (cn_parser_consume CN_TOKEN_RPAREN (''expected '' @ c_quote @ '')'' @ c_quote @ '' after grouped expression''))
            (pret e)))
       (pseq (perror ''E1002'' (offset tok) (got ''expected an expression'' tok)) (pret None))))))))))))))"

section \<open>Postfix operators\<close>

text \<open>
  One turn of the loop in \<open>cn_parse_postfix\<close> for each operator: it returns the expression and
  whether the loop goes on.
\<close>

definition postfix_call :: "nat \<Rightarrow> cn_expr option pm \<Rightarrow> cn_expr \<Rightarrow> (bool \<times> cn_expr) pm" where
  "postfix_call n pe e =
     pbind (pif (cn_parser_check CN_TOKEN_RPAREN) (pret (False, [])) (expr_comma_list n pe []))
       (\<lambda>(failed, args).
          let call_expr = CN_EXPR_CALL (expr_offset e) e args in
          if failed then pret (False, call_expr)
          else pseq (cn_parser_consume CN_TOKEN_RPAREN (''expected '' @ c_quote @ '')'' @ c_quote @ '' after arguments''))
                 (pret (True, call_expr)))"

text \<open>An optional expression: absent, a failed parse, or present.\<close>

definition optional_expr :: "bool pm \<Rightarrow> cn_expr option pm \<Rightarrow> cn_expr option option pm" where
  "optional_expr absent pe = pif absent (pret (Some None)) (ptry pe (pret None) (\<lambda>e. pret (Some (Some e))))"

definition postfix_index :: "cn_expr option pm \<Rightarrow> cn_expr \<Rightarrow> (bool \<times> cn_expr) pm" where
  "postfix_index pe e =
     ptry (optional_expr (por (cn_parser_check CN_TOKEN_RANGE) (cn_parser_check CN_TOKEN_RBRACKET)) pe)
       (pret (False, e))
       (\<lambda>start.
          pif (cn_parser_match CN_TOKEN_RANGE)
            (ptry (optional_expr (cn_parser_check CN_TOKEN_RBRACKET) pe) (pret (False, e))
              (\<lambda>end_expr.
                 pseq (cn_parser_consume CN_TOKEN_RBRACKET
                         (''expected '' @ c_quote @ '']'' @ c_quote @ '' after slice expression''))
                   (pret (True, CN_EXPR_SLICE_VIEW (expr_offset e) e start end_expr))))
            (pseq (cn_parser_consume CN_TOKEN_RBRACKET
                     (''expected '' @ c_quote @ '']'' @ c_quote @ '' after index expression''))
              (case start of
                 None \<Rightarrow>
                   pseq (perror ''E1002'' (expr_offset e)
                           (''expected an index expression before '' @ c_quote @ '']'' @ c_quote))
                     (pret (False, e))
               | Some i \<Rightarrow> pret (True, CN_EXPR_INDEX (expr_offset e) e i))))"

definition postfix_field :: "cn_expr \<Rightarrow> (bool \<times> cn_expr) pm" where
  "postfix_field e =
     ptry cn_parser_consume_field_name (pret (False, e))
       (\<lambda>f. pret (True, CN_EXPR_FIELD (expr_offset e) e (sv_str (lexeme f))))"

primrec postfix_loop :: "nat \<Rightarrow> cn_expr option pm \<Rightarrow> cn_expr \<Rightarrow> cn_expr pm" where
  "postfix_loop 0 pe e = pfuel"
| "postfix_loop (Suc n) pe e =
     pbind (pif (cn_parser_match CN_TOKEN_LPAREN) (postfix_call n pe e)
           (pif (cn_parser_match CN_TOKEN_LBRACKET) (postfix_index pe e)
           (pif (cn_parser_match CN_TOKEN_DOT) (postfix_field e)
             (pret (False, e)))))
       (\<lambda>(continue, e'). if continue then postfix_loop n pe e' else pret e')"

definition cn_parse_postfix :: "nat \<Rightarrow> cn_expr option pm \<Rightarrow> cn_expr option pm" where
  "cn_parse_postfix n pe =
     ptry (cn_parse_primary n pe) (pret None) (\<lambda>e. psome (postfix_loop n pe e))"

section \<open>Operators\<close>

primrec cn_parse_unary :: "nat \<Rightarrow> cn_expr option pm \<Rightarrow> cn_expr option pm" where
  "cn_parse_unary 0 pe = pfuel"
| "cn_parse_unary (Suc n) pe = pbind cn_parser_current (\<lambda>tok.
     pif (por (cn_parser_match CN_TOKEN_MINUS) (cn_parser_match CN_TOKEN_BANG))
       (let uop = (if kind tok = CN_TOKEN_MINUS then CN_UNARY_NEGATE else CN_UNARY_NOT) in
        ptry (cn_parse_unary n pe) (pret None) (\<lambda>x. pret (Some (CN_EXPR_UNARY (offset tok) uop x))))
    (pif (cn_parser_match CN_TOKEN_ADDR)
       (ptry (cn_parse_unary n pe) (pret None) (\<lambda>x. pret (Some (CN_EXPR_ADDR (offset tok) x))))
    (pif (cn_parser_match CN_TOKEN_DEREF)
       (ptry (cn_parse_unary n pe) (pret None) (\<lambda>x. pret (Some (CN_EXPR_DEREF (offset tok) x))))
       (cn_parse_postfix (Suc n) pe))))"

definition cn_binary_from_token :: "cn_token_kind \<Rightarrow> cn_binary_op" where
  "cn_binary_from_token k =
     (if k = CN_TOKEN_PLUS then CN_BINARY_ADD
      else if k = CN_TOKEN_MINUS then CN_BINARY_SUB
      else if k = CN_TOKEN_STAR then CN_BINARY_MUL
      else if k = CN_TOKEN_SLASH then CN_BINARY_DIV
      else if k = CN_TOKEN_PERCENT then CN_BINARY_MOD
      else if k = CN_TOKEN_EQUAL_EQUAL then CN_BINARY_EQUAL
      else if k = CN_TOKEN_BANG_EQUAL then CN_BINARY_NOT_EQUAL
      else if k = CN_TOKEN_LESS then CN_BINARY_LESS
      else if k = CN_TOKEN_LESS_EQUAL then CN_BINARY_LESS_EQUAL
      else if k = CN_TOKEN_GREATER then CN_BINARY_GREATER
      else if k = CN_TOKEN_GREATER_EQUAL then CN_BINARY_GREATER_EQUAL
      else if k = CN_TOKEN_AMP_AMP then CN_BINARY_AND
      else if k = CN_TOKEN_PIPE_PIPE then CN_BINARY_OR
      else CN_BINARY_ADD)"

primrec check_any :: "cn_token_kind list \<Rightarrow> bool pm" where
  "check_any [] = pret False"
| "check_any (k # ks) = pif (cn_parser_check k) (pret True) (check_any ks)"

primrec binary_chain_loop :: "nat \<Rightarrow> cn_expr option pm \<Rightarrow> cn_token_kind list \<Rightarrow> cn_expr \<Rightarrow> cn_expr pm" where
  "binary_chain_loop 0 sub kinds e = pfuel"
| "binary_chain_loop (Suc n) sub kinds e =
     pif (check_any kinds)
       (pbind cn_parser_advance (\<lambda>opt.
          ptry sub (pret e)
            (\<lambda>right. binary_chain_loop n sub kinds
               (CN_EXPR_BINARY (offset opt) (cn_binary_from_token (kind opt)) e right))))
       (pret e)"

definition cn_parse_binary_chain :: "nat \<Rightarrow> cn_expr option pm \<Rightarrow> cn_token_kind list \<Rightarrow> cn_expr option pm" where
  "cn_parse_binary_chain n sub kinds =
     ptry sub (pret None) (\<lambda>e. psome (binary_chain_loop n sub kinds e))"

definition cn_parse_factor :: "nat \<Rightarrow> cn_expr option pm \<Rightarrow> cn_expr option pm" where
  "cn_parse_factor n pe =
     cn_parse_binary_chain n (cn_parse_unary n pe) [CN_TOKEN_STAR, CN_TOKEN_SLASH, CN_TOKEN_PERCENT]"

definition cn_parse_term :: "nat \<Rightarrow> cn_expr option pm \<Rightarrow> cn_expr option pm" where
  "cn_parse_term n pe = cn_parse_binary_chain n (cn_parse_factor n pe) [CN_TOKEN_PLUS, CN_TOKEN_MINUS]"

definition cn_parse_comparison :: "nat \<Rightarrow> cn_expr option pm \<Rightarrow> cn_expr option pm" where
  "cn_parse_comparison n pe = cn_parse_binary_chain n (cn_parse_term n pe)
     [CN_TOKEN_LESS, CN_TOKEN_LESS_EQUAL, CN_TOKEN_GREATER, CN_TOKEN_GREATER_EQUAL]"

definition cn_parse_equality :: "nat \<Rightarrow> cn_expr option pm \<Rightarrow> cn_expr option pm" where
  "cn_parse_equality n pe =
     cn_parse_binary_chain n (cn_parse_comparison n pe) [CN_TOKEN_EQUAL_EQUAL, CN_TOKEN_BANG_EQUAL]"

definition cn_parse_and :: "nat \<Rightarrow> cn_expr option pm \<Rightarrow> cn_expr option pm" where
  "cn_parse_and n pe = cn_parse_binary_chain n (cn_parse_equality n pe) [CN_TOKEN_AMP_AMP]"

definition cn_parse_or :: "nat \<Rightarrow> cn_expr option pm \<Rightarrow> cn_expr option pm" where
  "cn_parse_or n pe = cn_parse_binary_chain n (cn_parse_and n pe) [CN_TOKEN_PIPE_PIPE]"

definition cn_parse_ok_expression :: "nat \<Rightarrow> cn_expr option pm \<Rightarrow> cn_expr option pm" where
  "cn_parse_ok_expression n pe = pbind cn_parser_current (\<lambda>tok.
     pif (cn_parser_match CN_TOKEN_OK)
       (ptry pe (pret None) (\<lambda>v. pret (Some (CN_EXPR_OK (offset tok) v))))
       (cn_parse_or n pe))"

primrec cn_parse_expression :: "nat \<Rightarrow> cn_expr option pm" where
  "cn_parse_expression 0 = pfuel"
| "cn_parse_expression (Suc n) = cn_parse_ok_expression (Suc n) (cn_parse_expression n)"

end
