(* ===== verification/Parser_Wp.thy ===== *)
theory Parser_Wp
  imports Parser_Expr
begin

text \<open>
  Contracts for parser functions. \<open>wp t m Q p\<close> is the weakest precondition of \<open>m\<close>: never
  undefined, \<open>Q\<close> on return, and a return if \<open>t\<close> holds. A proof for both values of \<open>t\<close> gives
  memory safety (for any fuel) and termination (for enough fuel) at once. The rules of
  \<open>wp_rules\<close> execute a function symbolically; each step leaves facts on the four quantities
  that the contracts talk about: well-formedness, the token list, the index and the number of
  errors reported.
\<close>

section \<open>Weakest preconditions\<close>

definition wp :: "bool \<Rightarrow> 'a pm \<Rightarrow> ('a \<Rightarrow> cn_parser \<Rightarrow> bool) \<Rightarrow> cn_parser \<Rightarrow> bool" where
  "wp t m Q p = (case m p of Ret x p' \<Rightarrow> Q x p' | Undef \<Rightarrow> False | NoFuel \<Rightarrow> \<not> t)"

lemma wp_mono: "wp t m Q p \<Longrightarrow> (\<And>x p'. Q x p' \<Longrightarrow> R x p') \<Longrightarrow> wp t m R p"
  by (simp add: wp_def split: pres.splits)

lemma wp_pret: "Q x p \<Longrightarrow> wp t (pret x) Q p"
  by (simp add: wp_def pret_def)

lemma wp_pbind: "wp t m (\<lambda>x. wp t (k x) Q) p \<Longrightarrow> wp t (pbind m k) Q p"
  by (simp add: wp_def pbind_def split: pres.splits)

lemma wp_pseq: "wp t m (\<lambda>_. wp t k Q) p \<Longrightarrow> wp t (pseq m k) Q p"
  unfolding pseq_def by (rule wp_pbind)

lemma wp_pif: "wp t c (\<lambda>x. wp t (if x then a else b) Q) p \<Longrightarrow> wp t (pif c a b) Q p"
  unfolding pif_def by (rule wp_pbind)

lemma wp_por: "wp t a (\<lambda>x p'. if x then Q True p' else wp t b Q p') p \<Longrightarrow> wp t (por a b) Q p"
  unfolding por_def by (auto intro!: wp_pif elim!: wp_mono simp: wp_pret split: if_splits)

lemma wp_pand: "wp t a (\<lambda>x p'. if x then wp t b Q p' else Q False p') p \<Longrightarrow> wp t (pand a b) Q p"
  unfolding pand_def by (auto intro!: wp_pif elim!: wp_mono simp: wp_pret split: if_splits)

lemma wp_pnot: "wp t a (\<lambda>x p'. if x then Q False p' else Q True p') p \<Longrightarrow> wp t (pnot a) Q p"
  unfolding pnot_def by (auto intro!: wp_pif elim!: wp_mono simp: wp_pret split: if_splits)

lemma wp_psome: "wp t m (\<lambda>x. Q (Some x)) p \<Longrightarrow> wp t (psome m) Q p"
  unfolding psome_def by (rule wp_pbind) (erule wp_mono, erule wp_pret)

lemma wp_ptry:
  "wp t m (\<lambda>r. wp t (case r of None \<Rightarrow> a | Some x \<Rightarrow> k x) Q) p \<Longrightarrow> wp t (ptry m a k) Q p"
  unfolding ptry_def by (rule wp_pbind)

lemma wp_pfuel: "\<not> t \<Longrightarrow> wp t pfuel Q p"
  by (simp add: wp_def pfuel_def)

text \<open>Reductions of a decided condition, tried before the rules that split it.\<close>

lemma wp_reduce:
  "wp t a Q p \<Longrightarrow> wp t (if True then a else b) Q p"
  "wp t b Q p \<Longrightarrow> wp t (if False then a else b) Q p"
  "wp t a Q p \<Longrightarrow> wp t (case None of None \<Rightarrow> a | Some x \<Rightarrow> k x) Q p"
  "wp t (k y) Q p \<Longrightarrow> wp t (case Some y of None \<Rightarrow> a | Some x \<Rightarrow> k x) Q p"
  "wp t (f y z) Q p \<Longrightarrow> wp t (case (y, z) of (u, v) \<Rightarrow> f u v) Q p"
  "A \<Longrightarrow> if True then A else B"
  "B \<Longrightarrow> if False then A else B"
  by simp_all

lemma wp_if: "(c \<Longrightarrow> wp t a Q p) \<Longrightarrow> (\<not> c \<Longrightarrow> wp t b Q p) \<Longrightarrow> wp t (if c then a else b) Q p"
  by simp

lemma if_goal: "(c \<Longrightarrow> A) \<Longrightarrow> (\<not> c \<Longrightarrow> B) \<Longrightarrow> if c then A else B"
  by simp

lemma wp_option:
  "(r = None \<Longrightarrow> wp t a Q p) \<Longrightarrow> (\<And>x. r = Some x \<Longrightarrow> wp t (k x) Q p) \<Longrightarrow>
   wp t (case r of None \<Rightarrow> a | Some x \<Rightarrow> k x) Q p"
  by (cases r) auto

lemma wp_prod: "(\<And>x y. r = (x, y) \<Longrightarrow> wp t (f x y) Q p) \<Longrightarrow> wp t (case r of (x, y) \<Rightarrow> f x y) Q p"
  by (cases r) auto

lemmas [wp_rules] = wp_pret wp_pbind wp_pseq wp_pif wp_por wp_pand wp_pnot wp_psome wp_ptry wp_if wp_option wp_prod if_goal

section \<open>Well-formed parser states\<close>

definition token_ok :: "cn_token \<Rightarrow> bool" where
  "token_ok tok \<longleftrightarrow>
     (kind tok = CN_TOKEN_INT_LITERAL \<longrightarrow> literal_from 0 (sv_str (lexeme tok)) \<noteq> None) \<and>
     (kind tok = CN_TOKEN_STRING_LITERAL \<longrightarrow> lexeme tok = SvNull \<or> sv_prev_byte (lexeme tok) \<noteq> None)"

definition wf_parser :: "cn_parser \<Rightarrow> bool" where
  "wf_parser p \<longleftrightarrow> ps_index p < length (ps_tokens p) \<and> kind (last (ps_tokens p)) = CN_TOKEN_EOF
     \<and> diag_invar (ps_diags p) \<and> (\<forall>tok \<in> set (ps_tokens p). token_ok tok)"

definition ps_tok :: "cn_parser \<Rightarrow> cn_token" where
  "ps_tok p = ps_tokens p ! ps_index p"

abbreviation ps_errors :: "cn_parser \<Rightarrow> nat" where
  "ps_errors p \<equiv> error_count (ps_diags p)"

text \<open>Fuel \<open>n\<close> is at least the number of tokens left, if termination is asked for.\<close>

definition fits :: "bool \<Rightarrow> nat \<Rightarrow> cn_parser \<Rightarrow> bool" where
  "fits t n p \<longleftrightarrow> (t \<longrightarrow> length (ps_tokens p) \<le> ps_index p + n)"

definition padv :: "cn_parser \<Rightarrow> cn_parser" where
  "padv p = p\<lparr>ps_index := ps_index p + 1\<rparr>"

lemma padv_simps [simp]:
  "ps_index (padv p) = Suc (ps_index p)" "ps_tokens (padv p) = ps_tokens p" "ps_diags (padv p) = ps_diags p"
  by (simp_all add: padv_def)

lemma wf_padv: "wf_parser p \<Longrightarrow> kind (ps_tok p) \<noteq> CN_TOKEN_EOF \<Longrightarrow> wf_parser (padv p)"
proof -
  assume wf: "wf_parser p" and k: "kind (ps_tok p) \<noteq> CN_TOKEN_EOF"
  then have "ps_index p \<noteq> length (ps_tokens p) - 1"
    by (metis last_conv_nth length_greater_0_conv less_zeroE list.size(3) ps_tok_def wf_parser_def)
  with wf show ?thesis by (auto simp: wf_parser_def)
qed

lemma token_ok_ps_tok: "wf_parser p \<Longrightarrow> token_ok (ps_tok p)"
  by (simp add: wf_parser_def ps_tok_def)

section \<open>The cursor\<close>

lemma current_eq: "wf_parser p \<Longrightarrow> cn_parser_current p = Ret (ps_tok p) p"
  by (simp add: cn_parser_current_def wf_parser_def ps_tok_def)

lemma wp_current: "wf_parser p \<Longrightarrow> Q (ps_tok p) p \<Longrightarrow> wp t cn_parser_current Q p"
  by (simp add: wp_def current_eq)

lemma is_at_end_eq: "wf_parser p \<Longrightarrow> cn_parser_is_at_end p = Ret (kind (ps_tok p) = CN_TOKEN_EOF) p"
  by (simp add: cn_parser_is_at_end_def pbind_def current_eq pret_def)

lemma wp_is_at_end:
  "wf_parser p \<Longrightarrow> (kind (ps_tok p) = CN_TOKEN_EOF \<Longrightarrow> Q True p) \<Longrightarrow>
   (kind (ps_tok p) \<noteq> CN_TOKEN_EOF \<Longrightarrow> Q False p) \<Longrightarrow> wp t cn_parser_is_at_end Q p"
  by (cases "kind (ps_tok p) = CN_TOKEN_EOF") (simp_all add: wp_def is_at_end_eq)

lemma advance_eq:
  "wf_parser p \<Longrightarrow> kind (ps_tok p) \<noteq> CN_TOKEN_EOF \<Longrightarrow> cn_parser_advance p = Ret (ps_tok p) (padv p)"
  by (simp add: cn_parser_advance_def pseq_def pif_def pbind_def is_at_end_eq pret_def pbump_def
      cn_parser_previous_def padv_def wf_parser_def ps_tok_def)

lemma wp_advance:
  "wf_parser p \<Longrightarrow> kind (ps_tok p) \<noteq> CN_TOKEN_EOF \<Longrightarrow>
   (\<And>p'. wf_parser p' \<Longrightarrow> ps_tokens p' = ps_tokens p \<Longrightarrow> ps_index p' = Suc (ps_index p) \<Longrightarrow>
      ps_errors p' = ps_errors p \<Longrightarrow> Q (ps_tok p) p') \<Longrightarrow>
   wp t cn_parser_advance Q p"
  by (simp add: wp_def advance_eq wf_padv)

lemma check_eq: "wf_parser p \<Longrightarrow> cn_parser_check k p = Ret (kind (ps_tok p) = k) p"
  by (auto simp: cn_parser_check_def pif_def pbind_def is_at_end_eq current_eq pret_def)

lemma wp_check:
  "wf_parser p \<Longrightarrow> (kind (ps_tok p) = k \<Longrightarrow> Q True p) \<Longrightarrow> (kind (ps_tok p) \<noteq> k \<Longrightarrow> Q False p) \<Longrightarrow>
   wp t (cn_parser_check k) Q p"
  by (cases "kind (ps_tok p) = k") (simp_all add: wp_def check_eq)

lemma wp_match:
  assumes "wf_parser p" and "k \<noteq> CN_TOKEN_EOF"
    and "\<And>p'. kind (ps_tok p) = k \<Longrightarrow> wf_parser p' \<Longrightarrow> ps_tokens p' = ps_tokens p \<Longrightarrow>
       ps_index p' = Suc (ps_index p) \<Longrightarrow> ps_errors p' = ps_errors p \<Longrightarrow> Q True p'"
    and "kind (ps_tok p) \<noteq> k \<Longrightarrow> Q False p"
  shows "wp t (cn_parser_match k) Q p"
  unfolding cn_parser_match_def
  using assms by (intro wp_pif wp_check) (auto intro!: wp_pseq wp_advance wp_pret)

lemma wp_peek: "wf_parser p \<Longrightarrow> (\<And>tok. Q tok p) \<Longrightarrow> wp t (cn_parser_peek d) Q p"
  by (auto simp: wp_def cn_parser_peek_def Let_def wf_parser_def)

lemma identifier_text_kind: "cn_token_is_identifier_text tok s \<Longrightarrow> kind tok = CN_TOKEN_IDENTIFIER"
  by (simp add: cn_token_is_identifier_text_def)

lemma wp_check_identifier_text:
  "wf_parser p \<Longrightarrow> (kind (ps_tok p) = CN_TOKEN_IDENTIFIER \<Longrightarrow> Q True p) \<Longrightarrow> Q False p \<Longrightarrow>
   wp t (cn_parser_check_identifier_text s) Q p"
  unfolding cn_parser_check_identifier_text_def
  by (intro wp_pbind wp_current wp_pret, assumption)
    (cases "cn_token_is_identifier_text (ps_tok p) s"; simp add: identifier_text_kind)

lemma wp_match_identifier_text:
  assumes "wf_parser p"
    and "\<And>p'. wf_parser p' \<Longrightarrow> ps_tokens p' = ps_tokens p \<Longrightarrow>
       ps_index p' = Suc (ps_index p) \<Longrightarrow> ps_errors p' = ps_errors p \<Longrightarrow> Q True p'"
    and "Q False p"
  shows "wp t (cn_parser_match_identifier_text s) Q p"
  unfolding cn_parser_match_identifier_text_def
  using assms by (intro wp_pif wp_check_identifier_text) (auto intro!: wp_pseq wp_advance wp_pret)

section \<open>Errors\<close>

lemma wp_perror:
  assumes "wf_parser p"
    and "\<And>p'. wf_parser p' \<Longrightarrow> ps_tokens p' = ps_tokens p \<Longrightarrow> ps_index p' = ps_index p \<Longrightarrow>
       ps_errors p' = Suc (ps_errors p) \<Longrightarrow> Q () p'"
  shows "wp t (perror c off msg) Q p"
  using assms by (simp add: wp_def perror_def wf_parser_def error_count_emit)

lemma wp_consume:
  assumes "wf_parser p" and "k \<noteq> CN_TOKEN_EOF"
    and "\<And>p'. kind (ps_tok p) = k \<Longrightarrow> wf_parser p' \<Longrightarrow> ps_tokens p' = ps_tokens p \<Longrightarrow>
       ps_index p' = Suc (ps_index p) \<Longrightarrow> ps_errors p' = ps_errors p \<Longrightarrow> Q (Some (ps_tok p)) p'"
    and "\<And>p'. kind (ps_tok p) \<noteq> k \<Longrightarrow> wf_parser p' \<Longrightarrow> ps_tokens p' = ps_tokens p \<Longrightarrow>
       ps_index p' = ps_index p \<Longrightarrow> ps_errors p' = Suc (ps_errors p) \<Longrightarrow> Q None p'"
  shows "wp t (cn_parser_consume k msg) Q p"
  unfolding cn_parser_consume_def
  using assms by (intro wp_pif wp_check)
    (auto intro!: wp_pbind wp_pseq wp_advance wp_pret wp_current wp_perror)

text \<open>A consumed token whose value is not used.\<close>

lemma wp_skip:
  assumes "wf_parser p" and "k \<noteq> CN_TOKEN_EOF"
    and "\<And>p'. wf_parser p' \<Longrightarrow> ps_tokens p' = ps_tokens p \<Longrightarrow> ps_index p \<le> ps_index p' \<Longrightarrow>
       ps_errors p \<le> ps_errors p' \<Longrightarrow> wp t m Q p'"
  shows "wp t (pseq (cn_parser_consume k msg) m) Q p"
  using assms by (intro wp_pseq wp_consume) auto

lemma wp_consume_field_name:
  assumes "wf_parser p"
    and "\<And>p'. wf_parser p' \<Longrightarrow> ps_tokens p' = ps_tokens p \<Longrightarrow>
       ps_index p' = Suc (ps_index p) \<Longrightarrow> ps_errors p' = ps_errors p \<Longrightarrow> Q (Some (ps_tok p)) p'"
    and "\<And>p'. wf_parser p' \<Longrightarrow> ps_tokens p' = ps_tokens p \<Longrightarrow>
       ps_index p' = ps_index p \<Longrightarrow> ps_errors p' = Suc (ps_errors p) \<Longrightarrow> Q None p'"
  shows "wp t cn_parser_consume_field_name Q p"
  unfolding cn_parser_consume_field_name_def
  using assms by (intro wp_pif wp_por wp_check)
    (auto intro!: wp_check wp_pbind wp_pseq wp_advance wp_pret wp_current wp_perror)

lemma wp_type_starts_here:
  "wf_parser p \<Longrightarrow> (\<And>b. Q b p) \<Longrightarrow> wp t cn_parser_type_starts_here Q p"
  unfolding cn_parser_type_starts_here_def by (intro wp_pbind wp_current wp_pret) auto

lemma wp_int_literal_value:
  "wf_parser p \<Longrightarrow> token_ok tok \<Longrightarrow> kind tok = CN_TOKEN_INT_LITERAL \<Longrightarrow> (\<And>v. Q v p) \<Longrightarrow>
   wp t (int_literal_value tok) Q p"
  by (auto simp: int_literal_value_def token_ok_def intro!: wp_pret)

lemma wp_string_literal_value:
  "wf_parser p \<Longrightarrow> token_ok tok \<Longrightarrow> kind tok = CN_TOKEN_STRING_LITERAL \<Longrightarrow> (\<And>v. Q v p) \<Longrightarrow>
   wp t (cn_parser_string_literal_value tok) Q p"
  by (auto simp: cn_parser_string_literal_value_def token_ok_def intro!: wp_pret split: if_splits)

lemmas [wp_rules] = wp_current wp_advance wp_is_at_end wp_check wp_match wp_peek wp_check_identifier_text
  wp_match_identifier_text wp_perror wp_consume wp_consume_field_name wp_type_starts_here

section \<open>The contract of a parser function\<close>

text \<open>
  A function that returns a pointer: on null it has reported an error; on a node it has
  consumed a token. It never moves backwards and never loses an error.
\<close>

definition parsed :: "cn_parser \<Rightarrow> 'a option \<Rightarrow> cn_parser \<Rightarrow> bool" where
  "parsed p r p' \<longleftrightarrow> wf_parser p' \<and> ps_tokens p' = ps_tokens p \<and> ps_index p \<le> ps_index p'
     \<and> ps_errors p \<le> ps_errors p' \<and> (r = None \<longrightarrow> ps_errors p < ps_errors p')
     \<and> (r \<noteq> None \<longrightarrow> ps_index p < ps_index p')"

definition node_spec :: "bool \<Rightarrow> nat \<Rightarrow> 'a option pm \<Rightarrow> bool" where
  "node_spec t n m \<longleftrightarrow> (\<forall>p. wf_parser p \<longrightarrow> fits t n p \<longrightarrow> wp t m (parsed p) p)"

lemma node_specI: "(\<And>p. wf_parser p \<Longrightarrow> fits t n p \<Longrightarrow> wp t m (parsed p) p) \<Longrightarrow> node_spec t n m"
  by (simp add: node_spec_def)

lemma wp_node:
  assumes "node_spec t n m" and "wf_parser p" and "fits t n p"
    and "\<And>p'. wf_parser p' \<Longrightarrow> ps_tokens p' = ps_tokens p \<Longrightarrow> ps_index p \<le> ps_index p' \<Longrightarrow>
       ps_errors p < ps_errors p' \<Longrightarrow> Q None p'"
    and "\<And>x p'. wf_parser p' \<Longrightarrow> ps_tokens p' = ps_tokens p \<Longrightarrow> ps_index p < ps_index p' \<Longrightarrow>
       ps_errors p \<le> ps_errors p' \<Longrightarrow> Q (Some x) p'"
  shows "wp t m Q p"
proof (rule wp_mono)
  show "wp t m (parsed p) p" using assms(1,2,3) by (simp add: node_spec_def)
  show "Q r p'" if "parsed p r p'" for r p'
    using that assms(4,5) by (cases r) (auto simp: parsed_def)
qed

text \<open>A loop or a function without a null result: it only moves forward.\<close>

definition moved :: "cn_parser \<Rightarrow> cn_parser \<Rightarrow> bool" where
  "moved p p' \<longleftrightarrow> wf_parser p' \<and> ps_tokens p' = ps_tokens p \<and> ps_index p \<le> ps_index p'
     \<and> ps_errors p \<le> ps_errors p'"

definition loop_spec :: "bool \<Rightarrow> nat \<Rightarrow> 'a pm \<Rightarrow> bool" where
  "loop_spec t n m \<longleftrightarrow> (\<forall>p. wf_parser p \<longrightarrow> fits t n p \<longrightarrow> wp t m (\<lambda>_. moved p) p)"

lemma loop_specI: "(\<And>p. wf_parser p \<Longrightarrow> fits t n p \<Longrightarrow> wp t m (\<lambda>_. moved p) p) \<Longrightarrow> loop_spec t n m"
  by (simp add: loop_spec_def)

lemma wp_loop:
  assumes "loop_spec t n m" and "wf_parser p" and "fits t n p"
    and "\<And>x p'. wf_parser p' \<Longrightarrow> ps_tokens p' = ps_tokens p \<Longrightarrow> ps_index p \<le> ps_index p' \<Longrightarrow>
       ps_errors p \<le> ps_errors p' \<Longrightarrow> Q x p'"
  shows "wp t m Q p"
proof (rule wp_mono)
  show "wp t m (\<lambda>_. moved p) p" using assms(1,2,3) by (simp add: loop_spec_def)
  show "Q x p'" if "moved p p'" for x p'
    using that assms(4) by (auto simp: moved_def)
qed

lemma fits_zero: "wf_parser p \<Longrightarrow> fits t 0 p \<Longrightarrow> \<not> t"
  by (auto simp: fits_def wf_parser_def)

lemma fits_index: "wf_parser p \<Longrightarrow> ps_index p < length (ps_tokens p)"
  by (simp add: wf_parser_def)

lemma fits_min [simp]: "fits t (min a b) p \<longleftrightarrow> fits t a p \<and> fits t b p"
  by (auto simp: fits_def)

lemmas contract_defs = parsed_def moved_def fits_def

end
