(* ===== verification/Parser_Safe.thy ===== *)
theory Parser_Safe
  imports Parser_Wp
begin

text \<open>The contracts of the type and expression parsers.\<close>

section \<open>Types\<close>

lemma type_atom_spec: "node_spec t n cn_parse_type_atom"
  unfolding cn_parse_type_atom_def Let_def
  by (rule node_specI) (rule wp_reduce wp_skip wp_rules | (auto simp: contract_defs; fail))+

lemma type_prefix_here_spec: "wf_parser p \<Longrightarrow>
   wp t type_prefix_here (\<lambda>r p'. moved p p' \<and> (r \<noteq> None \<longrightarrow> ps_index p < ps_index p')) p"
  unfolding type_prefix_here_def
  by (rule wp_reduce wp_skip wp_rules | (auto simp: contract_defs; fail))+

lemma wp_type_prefix_here:
  assumes "wf_parser p"
    and "\<And>r p'. wf_parser p' \<Longrightarrow> ps_tokens p' = ps_tokens p \<Longrightarrow> ps_index p \<le> ps_index p' \<Longrightarrow>
       ps_errors p \<le> ps_errors p' \<Longrightarrow> Q r p'"
  shows "wp t type_prefix_here Q p"
  by (rule wp_mono [OF type_prefix_here_spec [OF assms(1)]]) (auto simp: moved_def assms(2))

lemma type_prefixes_spec: "loop_spec t m (type_prefixes n)"
proof (induction n)
  case 0
  show ?case by (auto intro!: loop_specI wp_pret simp: moved_def)
next
  case (Suc n)
  note loop = wp_loop [OF Suc.IH]
  show ?case
    unfolding type_prefixes.simps
    by (intro loop_specI)
      (rule wp_reduce wp_skip wp_rules wp_type_prefix_here loop | (auto simp: contract_defs; fail))+
qed

lemma type_array_suffixes_spec:
  assumes pe: "node_spec t m pe"
  shows "loop_spec t (min n (Suc m)) (type_array_suffixes n pe ty)"
proof (induction n arbitrary: ty)
  case 0
  show ?case by (auto intro!: loop_specI wp_pfuel dest: fits_zero)
next
  case (Suc n)
  note loop = wp_loop [OF Suc.IH]
  show ?case
    unfolding type_array_suffixes.simps
    by (intro loop_specI)
      (rule wp_reduce wp_skip wp_rules wp_node [OF pe] loop | (auto simp: contract_defs; fail))+
qed

lemma lone_prefix_spec: "node_spec t n (lone_prefix x)"
  unfolding lone_prefix_def Let_def
  by (intro node_specI) (rule wp_reduce wp_skip wp_rules | (auto simp: contract_defs; fail))+

lemma cn_parse_type_spec:
  assumes pe: "node_spec t m pe"
  shows "node_spec t (min n (Suc m)) (cn_parse_type n pe)"
  unfolding cn_parse_type_def
  by (intro node_specI)
    (rule wp_reduce wp_skip wp_rules wp_loop [OF type_prefixes_spec [of _ n]] wp_node [OF lone_prefix_spec [of _ n]]
       wp_node [OF type_atom_spec [of _ n]] wp_loop [OF type_array_suffixes_spec [OF pe]]
     | (auto simp: contract_defs; fail))+

section \<open>Primary expressions\<close>

lemma expr_comma_list_spec:
  assumes pe: "node_spec t m pe"
  shows "loop_spec t (min n m) (expr_comma_list n pe acc)"
proof (induction n arbitrary: acc)
  case 0
  show ?case by (auto intro!: loop_specI wp_pfuel dest: fits_zero)
next
  case (Suc n)
  note loop = wp_loop [OF Suc.IH]
  show ?case
    unfolding expr_comma_list.simps
    by (intro loop_specI)
      (rule wp_reduce wp_skip wp_rules wp_node [OF pe] loop | (auto simp: contract_defs; fail))+
qed

lemma wp_pair_loop:
  assumes "loop_spec t n m" and "wf_parser p" and "fits t n p"
    and "\<And>x y p'. wf_parser p' \<Longrightarrow> ps_tokens p' = ps_tokens p \<Longrightarrow> ps_index p \<le> ps_index p' \<Longrightarrow>
       ps_errors p \<le> ps_errors p' \<Longrightarrow> Q (x, y) p'"
  shows "wp t m Q p"
  by (rule wp_loop [OF assms(1,2,3)]) (auto intro: assms(4))

lemma array_literal_spec:
  assumes pe: "node_spec t m pe"
  shows "loop_spec t (min n m) (cn_parse_array_literal n pe tok)"
  unfolding cn_parse_array_literal_def Let_def
  by (intro loop_specI)
    (rule wp_reduce wp_skip wp_rules wp_node [OF pe] wp_pair_loop [OF expr_comma_list_spec [OF pe]]
     | (auto simp: contract_defs; fail))+

lemma struct_literal_fields_spec:
  assumes pe: "node_spec t m pe"
  shows "loop_spec t (min n m) (struct_literal_fields n pe acc)"
proof (induction n arbitrary: acc)
  case 0
  show ?case by (auto intro!: loop_specI wp_pfuel dest: fits_zero)
next
  case (Suc n)
  note loop = wp_loop [OF Suc.IH]
  show ?case
    unfolding struct_literal_fields.simps
    by (intro loop_specI)
      (rule wp_reduce wp_skip wp_rules wp_node [OF pe] loop | (auto simp: contract_defs; fail))+
qed

lemma struct_literal_spec:
  assumes pe: "node_spec t m pe"
  shows "loop_spec t (min n m) (cn_parse_struct_literal n pe md tok)"
  unfolding cn_parse_struct_literal_def
  by (intro loop_specI)
    (rule wp_reduce wp_skip wp_rules wp_loop [OF struct_literal_fields_spec [OF pe]]
     | (auto simp: contract_defs; fail))+

lemma alloc_expression_spec:
  assumes pe: "node_spec t m pe"
  shows "node_spec t (min n (Suc m)) (cn_parse_alloc_expression n pe tok)"
  unfolding cn_parse_alloc_expression_def
  by (intro node_specI)
    (rule wp_reduce wp_skip wp_rules wp_node [OF cn_parse_type_spec [OF pe]] | (auto simp: contract_defs; fail))+

lemma zalloc_expression_spec:
  assumes pe: "node_spec t m pe"
  shows "node_spec t (min n (Suc m)) (cn_parse_zalloc_expression n pe tok)"
  unfolding cn_parse_zalloc_expression_def
  by (intro node_specI)
    (rule wp_reduce wp_skip wp_rules wp_node [OF cn_parse_type_spec [OF pe]] | (auto simp: contract_defs; fail))+

lemma if_expression_branch_spec:
  assumes pe: "node_spec t m pe"
  shows "node_spec t (Suc m) (cn_parse_if_expression_branch pe msg)"
  unfolding cn_parse_if_expression_branch_def
  by (intro node_specI)
    (rule wp_reduce wp_skip wp_rules wp_node [OF pe] | (auto simp: contract_defs; fail))+

lemma if_expression_spec:
  assumes pe: "node_spec t m pe"
  shows "node_spec t (min n m) (cn_parse_if_expression n pe tok)"
proof (induction n arbitrary: tok)
  case 0
  show ?case by (auto intro!: node_specI wp_pfuel dest: fits_zero)
next
  case (Suc n)
  note rec = wp_node [OF Suc.IH]
  show ?case
    unfolding cn_parse_if_expression.simps
    by (intro node_specI)
      (rule wp_reduce wp_skip wp_rules wp_node [OF pe] wp_node [OF if_expression_branch_spec [OF pe]] rec
       | (auto simp: contract_defs; fail))+
qed

lemma wp_peek_is: "wf_parser p \<Longrightarrow> (\<And>b. Q b p) \<Longrightarrow> wp t (peek_is d k) Q p"
  unfolding peek_is_def by (auto intro!: wp_pbind wp_peek wp_pret)

lemma wp_starts_local: "wf_parser p \<Longrightarrow> (\<And>b. Q b p) \<Longrightarrow> wp t starts_local_struct_literal Q p"
  unfolding starts_local_struct_literal_def by (auto intro!: wp_pand wp_peek_is)

lemma wp_peek_next:
  assumes "wf_parser p" and "k \<noteq> CN_TOKEN_EOF"
    and "kind (ps_tokens p ! Suc (ps_index p)) = k \<Longrightarrow> Q True p" and "Q False p"
  shows "wp t (peek_is 1 k) Q p"
proof (cases "Suc (ps_index p) < length (ps_tokens p)")
  case True
  with assms show ?thesis
    by (cases "kind (ps_tokens p ! Suc (ps_index p)) = k")
      (simp_all add: wp_def peek_is_def pbind_def cn_parser_peek_def pret_def)
next
  case False
  with assms(1) have "length (ps_tokens p) - 1 < length (ps_tokens p)"
    and "kind (ps_tokens p ! (length (ps_tokens p) - 1)) = CN_TOKEN_EOF"
    by (auto simp: wf_parser_def) (metis One_nat_def last_conv_nth length_0_conv not_less_zero)
  with False assms(2,4) show ?thesis
    by (simp add: wp_def peek_is_def pbind_def cn_parser_peek_def pret_def Let_def)
qed

lemma wp_starts_qualified:
  assumes "wf_parser p" and "kind (ps_tokens p ! Suc (ps_index p)) = CN_TOKEN_DOT \<Longrightarrow> Q True p" and "Q False p"
  shows "wp t starts_qualified_struct_literal Q p"
proof -
  have "Q b p" if "kind (ps_tokens p ! Suc (ps_index p)) = CN_TOKEN_DOT" for b
    using assms(2,3) that by (cases b) simp_all
  with assms(1,3) show ?thesis
    unfolding starts_qualified_struct_literal_def
    by (intro wp_pand wp_peek_next) (auto intro!: wp_pand wp_peek_is split: if_splits)
qed

lemma primary_identifier_spec:
  assumes pe: "node_spec t m pe"
  shows "wf_parser p \<Longrightarrow> kind (ps_tok p) = CN_TOKEN_IDENTIFIER \<Longrightarrow> fits t (min n (Suc m)) p \<Longrightarrow>
    wp t (primary_identifier n pe tok) (parsed p) p"
  unfolding primary_identifier_def
  by (rule wp_reduce wp_skip wp_rules wp_starts_local wp_starts_qualified
        wp_loop [OF struct_literal_spec [OF pe]]
      | (auto simp: contract_defs ps_tok_def; fail))+

text \<open>The literals need the token that was matched to be a proper one.\<close>

lemma wp_int_literal:
  "wf_parser p \<Longrightarrow> kind (ps_tok p) = CN_TOKEN_INT_LITERAL \<Longrightarrow> wf_parser p' \<Longrightarrow> (\<And>v. Q v p') \<Longrightarrow>
   wp t (int_literal_value (ps_tok p)) Q p'"
  by (rule wp_int_literal_value) (simp_all add: token_ok_ps_tok)

lemma wp_string_literal:
  "wf_parser p \<Longrightarrow> kind (ps_tok p) = CN_TOKEN_STRING_LITERAL \<Longrightarrow> wf_parser p' \<Longrightarrow> (\<And>v. Q v p') \<Longrightarrow>
   wp t (cn_parser_string_literal_value (ps_tok p)) Q p'"
  by (rule wp_string_literal_value) (simp_all add: token_ok_ps_tok)

lemma wp_primary_identifier:
  assumes "node_spec t m pe" and "wf_parser p" and "kind (ps_tok p) = CN_TOKEN_IDENTIFIER"
    and "fits t (min n (Suc m)) p" and "\<And>r p'. parsed p r p' \<Longrightarrow> Q r p'"
  shows "wp t (primary_identifier n pe tok) Q p"
  by (rule wp_mono [OF primary_identifier_spec [OF assms(1-4)] assms(5)])

lemma primary_spec:
  assumes pe: "node_spec t m pe"
  shows "node_spec t (min n (Suc m)) (cn_parse_primary n pe)"
  unfolding cn_parse_primary_def
  by (intro node_specI)
    (rule wp_reduce wp_skip wp_rules wp_int_literal wp_string_literal wp_node [OF alloc_expression_spec [OF pe]]
       wp_node [OF zalloc_expression_spec [OF pe]] wp_node [OF if_expression_spec [OF pe]]
       wp_primary_identifier [OF pe] wp_loop [OF array_literal_spec [OF pe]] wp_node [OF pe]
     | assumption | (auto simp: contract_defs; fail))+

section \<open>Operators\<close>

lemma postfix_call_spec:
  assumes pe: "node_spec t m pe"
  shows "loop_spec t (min n m) (postfix_call n pe e)"
  unfolding postfix_call_def Let_def
  by (intro loop_specI)
    (rule wp_reduce wp_skip wp_rules wp_pair_loop [OF expr_comma_list_spec [OF pe]] | (auto simp: contract_defs; fail))+

lemma wp_optional_expr:
  assumes pe: "node_spec t m pe" and "wf_parser p" and "fits t m p"
    and chk: "\<And>Q. (\<And>b. Q b p) \<Longrightarrow> wp t c Q p"
    and "\<And>r p'. wf_parser p' \<Longrightarrow> ps_tokens p' = ps_tokens p \<Longrightarrow> ps_index p \<le> ps_index p' \<Longrightarrow>
       ps_errors p \<le> ps_errors p' \<Longrightarrow> Q r p'"
  shows "wp t (optional_expr c pe) Q p"
  unfolding optional_expr_def using assms(2,3,5)
  by (intro wp_pif chk wp_if wp_ptry wp_pret wp_node [OF pe] wp_reduce) auto

lemma wp_check_any_value: "wf_parser p \<Longrightarrow> (\<And>b. Q b p) \<Longrightarrow> wp t (cn_parser_check k) Q p"
  by (rule wp_check) auto

lemma wp_check_two:
  "wf_parser p \<Longrightarrow> (\<And>b. Q b p) \<Longrightarrow> wp t (por (cn_parser_check k) (cn_parser_check l)) Q p"
  by (intro wp_por wp_check) (auto intro: wp_check_any_value)

lemma postfix_index_spec:
  assumes pe: "node_spec t m pe"
  shows "loop_spec t m (postfix_index pe e)"
  unfolding postfix_index_def
  by (intro loop_specI)
    (rule wp_reduce wp_pret wp_pbind wp_pseq wp_pif wp_ptry wp_option wp_match wp_consume wp_perror
       wp_optional_expr [OF pe] wp_check_two wp_check_any_value
     | assumption | (auto simp: contract_defs; fail))+

lemma postfix_field_spec: "loop_spec t n (postfix_field e)"
  unfolding postfix_field_def
  by (intro loop_specI) (rule wp_reduce wp_skip wp_rules | (auto simp: contract_defs; fail))+

lemma postfix_loop_spec:
  assumes pe: "node_spec t m pe"
  shows "loop_spec t (min n (Suc m)) (postfix_loop n pe e)"
proof (induction n arbitrary: e)
  case 0
  show ?case by (auto intro!: loop_specI wp_pfuel dest: fits_zero)
next
  case (Suc n)
  note rec = wp_loop [OF Suc.IH]
  show ?case
    unfolding postfix_loop.simps
    by (intro loop_specI)
      (rule wp_reduce wp_skip wp_rules wp_pair_loop [OF postfix_call_spec [OF pe]]
         wp_pair_loop [OF postfix_index_spec [OF pe]] wp_pair_loop [OF postfix_field_spec [of _ n]] rec
       | (auto simp: contract_defs; fail))+
qed

lemma postfix_spec:
  assumes pe: "node_spec t m pe"
  shows "node_spec t (min n (Suc m)) (cn_parse_postfix n pe)"
  unfolding cn_parse_postfix_def
  by (intro node_specI)
    (rule wp_reduce wp_skip wp_rules wp_node [OF primary_spec [OF pe]] wp_loop [OF postfix_loop_spec [OF pe]]
     | (auto simp: contract_defs; fail))+

lemma unary_spec:
  assumes pe: "node_spec t m pe"
  shows "node_spec t (min n (Suc m)) (cn_parse_unary n pe)"
proof (induction n)
  case 0
  show ?case by (auto intro!: node_specI wp_pfuel dest: fits_zero)
next
  case (Suc n)
  note rec = wp_node [OF Suc.IH]
  show ?case
    unfolding cn_parse_unary.simps Let_def
    by (intro node_specI)
      (rule wp_reduce wp_skip wp_rules rec wp_node [OF postfix_spec [OF pe]] | (auto simp: contract_defs; fail))+
qed

lemma wp_check_any:
  "wf_parser p \<Longrightarrow> CN_TOKEN_EOF \<notin> set ks \<Longrightarrow> (kind (ps_tok p) \<noteq> CN_TOKEN_EOF \<Longrightarrow> Q True p) \<Longrightarrow> Q False p \<Longrightarrow>
   wp t (check_any ks) Q p"
proof (induction ks)
  case Nil
  then show ?case by (simp add: wp_pret)
next
  case (Cons k ks)
  then show ?case by (auto intro!: wp_pif wp_check wp_pret)
qed

lemma binary_chain_loop_spec:
  assumes sub: "node_spec t m sub" and ks: "CN_TOKEN_EOF \<notin> set ks"
  shows "loop_spec t (min n m) (binary_chain_loop n sub ks e)"
proof (induction n arbitrary: e)
  case 0
  show ?case by (auto intro!: loop_specI wp_pfuel dest: fits_zero)
next
  case (Suc n)
  note rec = wp_loop [OF Suc.IH]
  show ?case
    unfolding binary_chain_loop.simps
    by (intro loop_specI)
      (rule wp_reduce wp_skip wp_rules wp_check_any wp_node [OF sub] rec ks | (auto simp: contract_defs; fail))+
qed

lemma binary_chain_spec:
  assumes sub: "node_spec t m sub" and ks: "CN_TOKEN_EOF \<notin> set ks"
  shows "node_spec t (min n m) (cn_parse_binary_chain n sub ks)"
  unfolding cn_parse_binary_chain_def
  by (intro node_specI)
    (rule wp_reduce wp_skip wp_rules wp_node [OF sub] wp_loop [OF binary_chain_loop_spec [OF sub ks]]
     | (auto simp: contract_defs; fail))+

lemma or_spec:
  assumes "node_spec t m pe"
  shows "node_spec t (min n (Suc m)) (cn_parse_or n pe)"
proof -
  have chain: "node_spec t (min n (Suc m)) (cn_parse_binary_chain n sub ks)"
    if "node_spec t (min n (Suc m)) sub" and "CN_TOKEN_EOF \<notin> set ks" for sub ks
    using binary_chain_spec [OF that, of n] by (simp add: min.left_idem)
  show ?thesis
    unfolding cn_parse_or_def cn_parse_and_def cn_parse_equality_def cn_parse_comparison_def
      cn_parse_term_def cn_parse_factor_def
    by (intro chain unary_spec assms) simp_all
qed

lemma expression_spec: "node_spec t n (cn_parse_expression n)"
proof (induction n)
  case 0
  show ?case by (auto intro!: node_specI wp_pfuel dest: fits_zero)
next
  case (Suc n)
  note pe = Suc.IH
  show ?case
    unfolding cn_parse_expression.simps cn_parse_ok_expression_def
    by (intro node_specI)
      (rule wp_reduce wp_skip wp_rules wp_node [OF pe] wp_node [OF or_spec [OF pe]] | (auto simp: contract_defs; fail))+
qed

end
