(* ===== verification/Parser_Stmt.thy ===== *)
theory Parser_Stmt
  imports Parser_Expr
begin

text \<open>
  The statements and declarations of \<open>src/parse/parser.c\<close>. As for expressions, the recursion
  of statements through \<open>cn_parse_block\<close> is opened: \<open>pb\<close> is the block parser a statement calls,
  and \<open>cn_parse_block\<close> ties the knot. Fuel is passed on as in the expression parser.
\<close>

section \<open>Simple statements\<close>

definition cn_expr_is_assignable :: "cn_expr \<Rightarrow> bool" where
  "cn_expr_is_assignable e =
     (case e of CN_EXPR_NAME _ _ \<Rightarrow> True | CN_EXPR_FIELD _ _ _ \<Rightarrow> True | CN_EXPR_INDEX _ _ _ \<Rightarrow> True
      | CN_EXPR_DEREF _ _ \<Rightarrow> True | _ \<Rightarrow> False)"

definition cn_parse_let_statement :: "nat \<Rightarrow> cn_token \<Rightarrow> cn_stmt option pm" where
  "cn_parse_let_statement n let_token =
     pbind (cn_parser_match CN_TOKEN_MUT) (\<lambda>is_mutable.
     pbind (cn_parser_consume CN_TOKEN_IDENTIFIER (''expected local name after '' @ c_quote @ ''let'' @ c_quote)) (\<lambda>name.
     pseq (cn_parser_consume CN_TOKEN_COLON (''expected '' @ c_quote @ '':'' @ c_quote @ '' after local name''))
    (pbind (cn_parse_type n (cn_parse_expression n)) (\<lambda>type_ref.
     pseq (cn_parser_consume CN_TOKEN_EQUAL (''expected '' @ c_quote @ ''='' @ c_quote @ '' after variable type''))
    (pbind (cn_parse_expression n) (\<lambda>initializer.
     pseq (cn_parser_require_semicolon (''expected '' @ c_quote @ '';'' @ c_quote @ '' after let statement''))
       (case (name, type_ref, initializer) of
          (Some nm, Some ty, Some e) \<Rightarrow>
            pret (Some (CN_STMT_LET (offset let_token) (sv_str (lexeme nm)) is_mutable ty e))
        | _ \<Rightarrow> pret None)))))))"

definition cn_parse_return_statement :: "nat \<Rightarrow> cn_token \<Rightarrow> cn_stmt pm" where
  "cn_parse_return_statement n return_token =
     pbind (pif (cn_parser_check CN_TOKEN_SEMICOLON) (pret None) (cn_parse_expression n)) (\<lambda>val.
     pseq (cn_parser_require_semicolon (''expected '' @ c_quote @ '';'' @ c_quote @ '' after return statement''))
       (pret (CN_STMT_RETURN (offset return_token) val)))"

definition cn_parse_try_statement :: "nat \<Rightarrow> cn_token \<Rightarrow> cn_stmt option pm" where
  "cn_parse_try_statement n try_token =
     pbind (cn_parser_consume CN_TOKEN_IDENTIFIER (''expected binding name after '' @ c_quote @ ''try'' @ c_quote)) (\<lambda>name.
     pseq (cn_parser_consume CN_TOKEN_EQUAL (''expected '' @ c_quote @ ''='' @ c_quote @ '' after try binding name''))
    (pbind (cn_parse_expression n) (\<lambda>initializer.
     pseq (cn_parser_require_semicolon (''expected '' @ c_quote @ '';'' @ c_quote @ '' after try statement''))
       (case (name, initializer) of
          (Some nm, Some e) \<Rightarrow> pret (Some (CN_STMT_TRY (offset try_token) (sv_str (lexeme nm)) e))
        | _ \<Rightarrow> pret None))))"

definition cn_parse_zone_statement :: "cn_block option pm \<Rightarrow> cn_token \<Rightarrow> cn_stmt option pm" where
  "cn_parse_zone_statement pb zone_token =
     ptry pb (pret None) (\<lambda>body. pret (Some (CN_STMT_ZONE (offset zone_token) body)))"

definition cn_parse_free_statement :: "nat \<Rightarrow> cn_token \<Rightarrow> cn_stmt option pm" where
  "cn_parse_free_statement n free_token =
     pbind (cn_parse_expression n) (\<lambda>val.
     pseq (cn_parser_require_semicolon (''expected '' @ c_quote @ '';'' @ c_quote @ '' after free statement''))
       (case val of None \<Rightarrow> pret None | Some e \<Rightarrow> pret (Some (CN_STMT_FREE (offset free_token) e))))"

definition cn_parse_defer_statement :: "nat \<Rightarrow> cn_token \<Rightarrow> cn_stmt option pm" where
  "cn_parse_defer_statement n defer_token =
     ptry (pif (cn_parser_check CN_TOKEN_FREE)
            (pbind cn_parser_advance (\<lambda>free_token. cn_parse_free_statement n free_token))
            (pbind (cn_parse_expression n) (\<lambda>val.
               pseq (cn_parser_require_semicolon (''expected '' @ c_quote @ '';'' @ c_quote @ '' after defer statement''))
                 (case val of None \<Rightarrow> pret None | Some e \<Rightarrow> pret (Some (CN_STMT_EXPR (expr_offset e) e))))))
       (pret None)
       (\<lambda>deferred. pret (Some (CN_STMT_DEFER (offset defer_token) deferred)))"

section \<open>Statements with blocks\<close>

primrec cn_parse_if_statement :: "nat \<Rightarrow> cn_expr option pm \<Rightarrow> cn_block option pm \<Rightarrow> cn_token \<Rightarrow> cn_stmt option pm" where
  "cn_parse_if_statement 0 pe pb if_token = pfuel"
| "cn_parse_if_statement (Suc n) pe pb if_token =
     pbind pe (\<lambda>condition.
     pbind pb (\<lambda>then_block.
       case (condition, then_block) of
         (Some c, Some b) \<Rightarrow>
           pbind (pif (cn_parser_match CN_TOKEN_ELSE)
                   (pif (cn_parser_check CN_TOKEN_IF)
                     (pbind cn_parser_advance (\<lambda>nested_if.
                        ptry (cn_parse_if_statement n pe pb nested_if) (pret None)
                          (\<lambda>nested. pret (Some (CnBlock [nested] (offset nested_if))))))
                     pb)
                   (pret None))
             (\<lambda>else_block. pret (Some (CN_STMT_IF (offset if_token) c b else_block)))
       | _ \<Rightarrow> pret None))"

definition cn_parse_while_statement :: "nat \<Rightarrow> cn_block option pm \<Rightarrow> cn_token \<Rightarrow> cn_stmt option pm" where
  "cn_parse_while_statement n pb while_token =
     pbind (cn_parse_expression n) (\<lambda>condition.
     pbind pb (\<lambda>body.
       case (condition, body) of
         (Some c, Some b) \<Rightarrow> pret (Some (CN_STMT_WHILE (offset while_token) c b))
       | _ \<Rightarrow> pret None))"

definition cn_parse_loop_statement :: "cn_block option pm \<Rightarrow> cn_token \<Rightarrow> cn_stmt option pm" where
  "cn_parse_loop_statement pb loop_token =
     ptry pb (pret None) (\<lambda>body. pret (Some (CN_STMT_LOOP (offset loop_token) body)))"

definition cn_parse_for_statement :: "nat \<Rightarrow> cn_block option pm \<Rightarrow> cn_token \<Rightarrow> cn_stmt option pm" where
  "cn_parse_for_statement n pb for_token =
     pbind (cn_parser_consume CN_TOKEN_IDENTIFIER (''expected loop binding name after '' @ c_quote @ ''for'' @ c_quote)) (\<lambda>name.
     pseq (cn_parser_consume CN_TOKEN_COLON (''expected '' @ c_quote @ '':'' @ c_quote @ '' after loop binding name''))
    (pbind (cn_parse_type n (cn_parse_expression n)) (\<lambda>type_ref.
     pseq (cn_parser_consume CN_TOKEN_IN (''expected '' @ c_quote @ ''in'' @ c_quote @ '' in range loop''))
    (pbind (cn_parse_expression n) (\<lambda>start.
     pseq (cn_parser_consume CN_TOKEN_RANGE (''expected '' @ c_quote @ ''..'' @ c_quote @ '' in range loop''))
    (pbind (cn_parse_expression n) (\<lambda>end_expr.
     pbind pb (\<lambda>body.
       case (name, type_ref, start, end_expr, body) of
         (Some nm, Some ty, Some s, Some e, Some b) \<Rightarrow>
           pret (Some (CN_STMT_FOR (offset for_token) (sv_str (lexeme nm)) ty s e b))
       | _ \<Rightarrow> pret None))))))))"

definition cn_parse_assignment_or_expr_statement :: "nat \<Rightarrow> cn_stmt option pm" where
  "cn_parse_assignment_or_expr_statement n =
     ptry (cn_parse_expression n) (pret None) (\<lambda>left.
       pif (cn_parser_match CN_TOKEN_EQUAL)
         (pbind (cn_parse_expression n) (\<lambda>val.
          pseq (cn_parser_require_semicolon (''expected '' @ c_quote @ '';'' @ c_quote @ '' after assignment''))
            (case val of
               None \<Rightarrow> pret None
             | Some v \<Rightarrow>
                 pseq (if cn_expr_is_assignable left then pret ()
                       else perror ''E1006'' (expr_offset left) ''invalid assignment target'')
                   (pret (Some (CN_STMT_ASSIGN (expr_offset left) left v))))))
         (pseq (cn_parser_require_semicolon (''expected '' @ c_quote @ '';'' @ c_quote @ '' after expression statement''))
           (pret (Some (CN_STMT_EXPR (expr_offset left) left)))))"

definition cn_parse_statement :: "nat \<Rightarrow> cn_block option pm \<Rightarrow> cn_stmt option pm" where
  "cn_parse_statement n pb =
     pif (cn_parser_check CN_TOKEN_LET)
       (pbind cn_parser_advance (\<lambda>tok. cn_parse_let_statement n tok))
    (pif (cn_parser_check CN_TOKEN_RETURN)
       (pbind cn_parser_advance (\<lambda>tok. psome (cn_parse_return_statement n tok)))
    (pif (cn_parser_check CN_TOKEN_ZONE)
       (pbind cn_parser_advance (\<lambda>tok. cn_parse_zone_statement pb tok))
    (pif (cn_parser_check CN_TOKEN_TRY)
       (pbind cn_parser_advance (\<lambda>tok. cn_parse_try_statement n tok))
    (pif (cn_parser_check CN_TOKEN_FREE)
       (pbind cn_parser_advance (\<lambda>tok. cn_parse_free_statement n tok))
    (pif (cn_parser_check CN_TOKEN_DEFER)
       (pbind cn_parser_advance (\<lambda>tok. cn_parse_defer_statement n tok))
    (pif (cn_parser_check CN_TOKEN_IF)
       (pbind cn_parser_advance (\<lambda>tok. cn_parse_if_statement n (cn_parse_expression n) pb tok))
    (pif (cn_parser_check CN_TOKEN_WHILE)
       (pbind cn_parser_advance (\<lambda>tok. cn_parse_while_statement n pb tok))
    (pif (cn_parser_check CN_TOKEN_LOOP)
       (pbind cn_parser_advance (\<lambda>tok. cn_parse_loop_statement pb tok))
    (pif (cn_parser_check CN_TOKEN_FOR)
       (pbind cn_parser_advance (\<lambda>tok. cn_parse_for_statement n pb tok))
       (cn_parse_assignment_or_expr_statement n))))))))))"

text \<open>The loop of \<open>cn_parse_block\<close>; \<open>st\<close> is the statement parser.\<close>

primrec block_loop :: "nat \<Rightarrow> cn_stmt option pm \<Rightarrow> cn_stmt list \<Rightarrow> cn_stmt list pm" where
  "block_loop 0 st acc = pfuel"
| "block_loop (Suc n) st acc =
     pif (pand (pnot (cn_parser_check CN_TOKEN_RBRACE)) (pnot cn_parser_is_at_end))
       (ptry st
         (pseq (cn_parser_sync_statement (Suc n)) (block_loop n st acc))
         (\<lambda>s. block_loop n st (acc @ [s])))
       (pret acc)"

primrec cn_parse_block :: "nat \<Rightarrow> cn_block option pm" where
  "cn_parse_block 0 = pfuel"
| "cn_parse_block (Suc n) =
     ptry (cn_parser_consume CN_TOKEN_LBRACE (''expected '' @ c_quote @ ''{'' @ c_quote @ '' to start block'')) (pret None)
       (\<lambda>left_brace.
          pbind (block_loop n (cn_parse_statement n (cn_parse_block n)) []) (\<lambda>statements.
          pseq (cn_parser_consume CN_TOKEN_RBRACE (''expected '' @ c_quote @ ''}'' @ c_quote @ '' after block''))
            (pret (Some (CnBlock statements (offset left_brace))))))"

section \<open>Declarations\<close>

primrec import_path_loop :: "nat \<Rightarrow> string \<Rightarrow> string \<Rightarrow> (string \<times> string) option pm" where
  "import_path_loop 0 module_name default_alias = pfuel"
| "import_path_loop (Suc n) module_name default_alias =
     pif (cn_parser_match CN_TOKEN_DOT)
       (ptry (cn_parser_consume CN_TOKEN_IDENTIFIER (''expected module path segment after '' @ c_quote @ ''.'' @ c_quote)) (pret None)
         (\<lambda>seg. import_path_loop n (module_name @ ''.'' @ sv_str (lexeme seg)) (sv_str (lexeme seg))))
       (pret (Some (module_name, default_alias)))"

definition cn_parser_parse_import_path :: "nat \<Rightarrow> (string \<times> string) option pm" where
  "cn_parser_parse_import_path n =
     ptry (cn_parser_consume CN_TOKEN_IDENTIFIER (''expected module name after '' @ c_quote @ ''import'' @ c_quote)) (pret None)
       (\<lambda>seg. import_path_loop n (sv_str (lexeme seg)) (sv_str (lexeme seg)))"

text \<open>\<open>cn_parse_import_decl\<close> answers false, here \<^term>\<open>None\<close>, or pushes the import on the program.\<close>

definition cn_parse_import_decl :: "nat \<Rightarrow> cn_program \<Rightarrow> cn_token \<Rightarrow> cn_program option pm" where
  "cn_parse_import_decl n prog import_token =
     ptry (cn_parser_parse_import_path n) (pret None) (\<lambda>(module_name, default_alias).
       pbind (pif (cn_parser_match CN_TOKEN_AS)
               (ptry (cn_parser_consume CN_TOKEN_IDENTIFIER (''expected alias after '' @ c_quote @ ''as'' @ c_quote))
                 (pret (default_alias, False)) (\<lambda>al. pret (sv_str (lexeme al), True)))
               (pret (default_alias, False)))
         (\<lambda>(al, has_alias).
            pseq (cn_parser_require_semicolon (''expected '' @ c_quote @ '';'' @ c_quote @ '' after import declaration''))
              (pret (Some (cn_program_push_import prog
                 \<lparr>im_module_name = module_name, im_alias = al, im_has_alias = has_alias,
                  im_offset = offset import_token\<rparr>)))))"

definition cn_parse_const_decl :: "nat \<Rightarrow> bool \<Rightarrow> cn_token \<Rightarrow> cn_const_decl option pm" where
  "cn_parse_const_decl n is_public const_token =
     ptry (cn_parser_consume CN_TOKEN_IDENTIFIER ''expected constant name'') (pret None) (\<lambda>name.
     ptry (cn_parser_consume CN_TOKEN_COLON (''expected '' @ c_quote @ '':'' @ c_quote @ '' after constant name'')) (pret None) (\<lambda>_.
     ptry (cn_parse_type n (cn_parse_expression n)) (pret None) (\<lambda>ty.
     ptry (cn_parser_consume CN_TOKEN_EQUAL (''expected '' @ c_quote @ ''='' @ c_quote @ '' after constant type'')) (pret None) (\<lambda>_.
     pbind (cn_parse_expression n) (\<lambda>initializer.
     pseq (cn_parser_require_semicolon (''expected '' @ c_quote @ '';'' @ c_quote @ '' after constant declaration''))
       (case initializer of
          None \<Rightarrow> pret None
        | Some e \<Rightarrow> pret (Some
            \<lparr>cd_is_public = is_public, cd_name = sv_str (lexeme name), cd_type = ty, cd_initializer = e,
             cd_sema_checked = False, cd_sema_checking = False, cd_offset = offset const_token\<rparr>)))))))"

primrec struct_fields_loop :: "nat \<Rightarrow> cn_type_ref option pm \<Rightarrow> cn_struct_field list \<Rightarrow> cn_struct_field list pm" where
  "struct_fields_loop 0 pt acc = pfuel"
| "struct_fields_loop (Suc n) pt acc =
     pif (pand (pnot (cn_parser_check CN_TOKEN_RBRACE)) (pnot cn_parser_is_at_end))
       (pbind (cn_parser_consume CN_TOKEN_IDENTIFIER ''expected struct field name'') (\<lambda>field_name.
        pseq (cn_parser_consume CN_TOKEN_COLON (''expected '' @ c_quote @ '':'' @ c_quote @ '' after struct field name''))
       (pbind pt (\<lambda>field_type.
        pseq (cn_parser_require_semicolon (''expected '' @ c_quote @ '';'' @ c_quote @ '' after struct field''))
          (struct_fields_loop n pt
            (case (field_name, field_type) of
               (Some f, Some ty) \<Rightarrow> acc @ [\<lparr>sf_name = sv_str (lexeme f), sf_type = ty, sf_offset = offset f\<rparr>]
             | _ \<Rightarrow> acc))))))
       (pret acc)"

definition cn_parse_struct_decl :: "nat \<Rightarrow> bool \<Rightarrow> cn_token \<Rightarrow> cn_struct_decl option pm" where
  "cn_parse_struct_decl n is_public struct_token =
     ptry (cn_parser_consume CN_TOKEN_IDENTIFIER ''expected struct name'') (pret None) (\<lambda>name.
     ptry (cn_parser_consume CN_TOKEN_LBRACE (''expected '' @ c_quote @ ''{'' @ c_quote @ '' after struct name'')) (pret None) (\<lambda>_.
     pbind (struct_fields_loop n (cn_parse_type n (cn_parse_expression n)) []) (\<lambda>fields.
     pseq (cn_parser_consume CN_TOKEN_RBRACE (''expected '' @ c_quote @ ''}'' @ c_quote @ '' after struct declaration''))
       (pret (Some \<lparr>sd_is_public = is_public, sd_name = sv_str (lexeme name), sd_fields = fields,
          sd_offset = offset struct_token\<rparr>)))))"

primrec params_loop :: "nat \<Rightarrow> cn_type_ref option pm \<Rightarrow> cn_param list \<Rightarrow> cn_param list pm" where
  "params_loop 0 pt acc = pfuel"
| "params_loop (Suc n) pt acc =
     pbind (cn_parser_consume CN_TOKEN_IDENTIFIER ''expected parameter name'') (\<lambda>param_name.
     pseq (cn_parser_consume CN_TOKEN_COLON (''expected '' @ c_quote @ '':'' @ c_quote @ '' after parameter name''))
    (pbind pt (\<lambda>param_type.
       let acc' = (case (param_name, param_type) of
                     (Some p, Some ty) \<Rightarrow> acc @ [\<lparr>pa_name = sv_str (lexeme p), pa_type = ty, pa_offset = offset p\<rparr>]
                   | _ \<Rightarrow> acc)
       in pif (cn_parser_match CN_TOKEN_COMMA) (params_loop n pt acc') (pret acc'))))"

definition cn_parse_function :: "nat \<Rightarrow> bool \<Rightarrow> cn_token \<Rightarrow> cn_function option pm" where
  "cn_parse_function n is_public start_token =
     ptry (cn_parser_consume CN_TOKEN_COLON (''expected '' @ c_quote @ '':'' @ c_quote @ '' after function visibility keyword'')) (pret None) (\<lambda>_.
     ptry (cn_parse_type n (cn_parse_expression n)) (pret None) (\<lambda>return_type.
     ptry (cn_parser_consume CN_TOKEN_IDENTIFIER ''expected function name'') (pret None) (\<lambda>name.
     ptry (cn_parser_consume CN_TOKEN_LPAREN (''expected '' @ c_quote @ ''('' @ c_quote @ '' after function name'')) (pret None) (\<lambda>_.
     pbind (pif (cn_parser_check CN_TOKEN_RPAREN) (pret [])
             (params_loop n (cn_parse_type n (cn_parse_expression n)) [])) (\<lambda>params.
     ptry (cn_parser_consume CN_TOKEN_RPAREN (''expected '' @ c_quote @ '')'' @ c_quote @ '' after parameters'')) (pret None) (\<lambda>_.
     ptry (cn_parse_block n) (pret None) (\<lambda>body.
       pret (Some \<lparr>fn_is_public = is_public, fn_is_builtin = False, fn_name = sv_str (lexeme name),
         fn_return_type = return_type, fn_parameters = params, fn_body = Some body, fn_offset = offset start_token\<rparr>))))))))"

section \<open>Programs\<close>

text \<open>
  One turn of the loop of \<open>cn_parse_program\<close> for the keywords that have a public and a private
  form: \<open>pd\<close> parses the declaration, \<open>push\<close> adds it to the program.
\<close>

definition decl_turn ::
  "nat \<Rightarrow> (cn_token \<Rightarrow> 'a option pm) \<Rightarrow> (cn_program \<Rightarrow> 'a \<Rightarrow> cn_program) \<Rightarrow> cn_program \<Rightarrow> cn_program pm" where
  "decl_turn n pd push prog =
     pbind cn_parser_previous (\<lambda>tok.
     ptry (pd tok) (pseq (cn_parser_sync_top_level n) (pret prog)) (\<lambda>d. pret (push prog d)))"

definition program_turn :: "nat \<Rightarrow> cn_program \<Rightarrow> cn_program pm" where
  "program_turn n prog =
     pif (cn_parser_match CN_TOKEN_IMPORT)
       (decl_turn n (cn_parse_import_decl n prog) (\<lambda>_ prog'. prog') prog)
    (pif (cn_parser_match CN_TOKEN_CONST)
       (decl_turn n (cn_parse_const_decl n False) cn_program_push_const prog)
    (pif (cn_parser_match CN_TOKEN_PCONST)
       (decl_turn n (cn_parse_const_decl n True) cn_program_push_const prog)
    (pif (cn_parser_match CN_TOKEN_STRUCT)
       (decl_turn n (cn_parse_struct_decl n False) cn_program_push_struct prog)
    (pif (cn_parser_match CN_TOKEN_PSTRUCT)
       (decl_turn n (cn_parse_struct_decl n True) cn_program_push_struct prog)
    (pif (cn_parser_match CN_TOKEN_FN)
       (decl_turn n (cn_parse_function n False) cn_program_push_function prog)
    (pif (cn_parser_match CN_TOKEN_PFN)
       (decl_turn n (cn_parse_function n True) cn_program_push_function prog)
       (pbind cn_parser_current (\<lambda>tok.
          pseq (perror ''E1002'' (offset tok)
                 (''unexpected top-level token '' @ c_quote @ cn_token_kind_name (kind tok) @ c_quote))
            (pseq (cn_parser_sync_top_level n) (pret prog))))))))))"

primrec program_loop :: "nat \<Rightarrow> cn_program \<Rightarrow> cn_program pm" where
  "program_loop 0 prog = pfuel"
| "program_loop (Suc n) prog =
     pif cn_parser_is_at_end (pret prog) (pbind (program_turn (Suc n) prog) (\<lambda>prog'. program_loop n prog'))"

definition cn_parse_program :: "nat \<Rightarrow> cn_program pm" where
  "cn_parse_program n = program_loop n cn_program_create"

end
