(* ===== verification/Parser_Total.thy ===== *)
theory Parser_Total
  imports Parser_Safe Parser_Stmt
begin

text \<open>
  The contracts of the statement and declaration parsers. Statements and blocks end only on a
  buffer without declaration keywords: \<open>cn_parser_sync_statement\<close> stops in front of such a
  keyword without consuming it and the loop of \<open>cn_parse_block\<close> starts again at the same
  token. Termination is therefore proved for \<open>no_decl_tokens\<close> buffers, safety for all.
\<close>

definition no_decl_tokens :: "cn_token list \<Rightarrow> bool" where
  "no_decl_tokens toks \<longleftrightarrow>
     (\<forall>tok \<in> set toks. cn_parser_is_top_level_start (kind tok) \<longrightarrow> kind tok = CN_TOKEN_EOF)"

definition stmt_spec :: "bool \<Rightarrow> nat \<Rightarrow> 'a option pm \<Rightarrow> bool" where
  "stmt_spec t n m \<longleftrightarrow>
     (\<forall>p. wf_parser p \<longrightarrow> fits t n p \<longrightarrow> (t \<longrightarrow> no_decl_tokens (ps_tokens p)) \<longrightarrow> wp t m (parsed p) p)"

lemma stmt_specI:
  "(\<And>p. wf_parser p \<Longrightarrow> fits t n p \<Longrightarrow> (t \<longrightarrow> no_decl_tokens (ps_tokens p)) \<Longrightarrow> wp t m (parsed p) p) \<Longrightarrow> stmt_spec t n m"
  by (simp add: stmt_spec_def)

lemma wp_stmt:
  assumes "stmt_spec t n m" and "wf_parser p" and "fits t n p" and "t \<longrightarrow> no_decl_tokens (ps_tokens p)"
    and "\<And>p'. wf_parser p' \<Longrightarrow> ps_tokens p' = ps_tokens p \<Longrightarrow> ps_index p \<le> ps_index p' \<Longrightarrow>
       ps_errors p < ps_errors p' \<Longrightarrow> Q None p'"
    and "\<And>x p'. wf_parser p' \<Longrightarrow> ps_tokens p' = ps_tokens p \<Longrightarrow> ps_index p < ps_index p' \<Longrightarrow>
       ps_errors p \<le> ps_errors p' \<Longrightarrow> Q (Some x) p'"
  shows "wp t m Q p"
proof (rule wp_mono)
  show "wp t m (parsed p) p" using assms(1,2,3,4) by (simp add: stmt_spec_def)
  show "Q r p'" if "parsed p r p'" for r p'
    using that assms(5,6) by (cases r) (auto simp: parsed_def)
qed

lemma wp_require_semicolon:
  assumes "wf_parser p"
    and "\<And>p'. wf_parser p' \<Longrightarrow> ps_tokens p' = ps_tokens p \<Longrightarrow> ps_index p \<le> ps_index p' \<Longrightarrow>
       ps_errors p \<le> ps_errors p' \<Longrightarrow> Q () p'"
  shows "wp t (cn_parser_require_semicolon msg) Q p"
  unfolding cn_parser_require_semicolon_def
  using assms by (intro wp_pseq wp_consume wp_pret) auto

lemma type_here_spec: "node_spec t n (cn_parse_type n (cn_parse_expression n))"
  using cn_parse_type_spec [OF expression_spec, of t n n] by simp

lemmas [wp_rules] = wp_require_semicolon wp_node [OF expression_spec] wp_node [OF type_here_spec]

section \<open>Synchronisation\<close>

definition sync_stops :: "cn_parser \<Rightarrow> bool" where
  "sync_stops p \<longleftrightarrow> kind (ps_tok p) = CN_TOKEN_RBRACE \<or> cn_parser_is_statement_start (kind (ps_tok p))
     \<or> cn_parser_is_top_level_start (kind (ps_tok p))"

lemma sync_statement_spec:
  "wf_parser p \<Longrightarrow> fits t n p \<Longrightarrow>
   wp t (cn_parser_sync_statement n)
     (\<lambda>_ p'. moved p p' \<and> (\<not> sync_stops p \<longrightarrow> ps_index p < ps_index p')) p"
proof (induction n arbitrary: p)
  case 0
  then show ?case by (auto intro!: wp_pfuel dest: fits_zero)
next
  case (Suc n)
  have rec: "wp t (cn_parser_sync_statement n) Q q"
    if "wf_parser q" and "fits t n q" and "\<And>p'. moved q p' \<Longrightarrow> Q () p'" for q Q
    by (rule wp_mono [OF Suc.IH [OF that(1,2)]]) (auto intro: that(3))
  from Suc.prems show ?case
    unfolding cn_parser_sync_statement.simps
    by (intro wp_reduce wp_rules rec)
      (auto simp: contract_defs sync_stops_def cn_parser_is_top_level_start_def)
qed

lemma sync_top_level_spec: "loop_spec t n (cn_parser_sync_top_level n)"
proof (induction n)
  case 0
  show ?case by (auto intro!: loop_specI wp_pfuel dest: fits_zero)
next
  case (Suc n)
  note rec = wp_loop [OF Suc.IH]
  show ?case
    unfolding cn_parser_sync_top_level.simps
    by (intro loop_specI) (rule wp_reduce wp_skip wp_rules rec | (auto simp: contract_defs; fail))+
qed

section \<open>Statements\<close>

lemma let_statement_spec: "node_spec t n (cn_parse_let_statement n tok)"
  unfolding cn_parse_let_statement_def
  by (intro node_specI) (rule wp_reduce wp_skip wp_rules | (auto simp: contract_defs; fail))+

lemma return_statement_spec: "loop_spec t n (cn_parse_return_statement n tok)"
  unfolding cn_parse_return_statement_def
  by (intro loop_specI) (rule wp_reduce wp_skip wp_rules | (auto simp: contract_defs; fail))+

lemma try_statement_spec: "node_spec t n (cn_parse_try_statement n tok)"
  unfolding cn_parse_try_statement_def
  by (intro node_specI) (rule wp_reduce wp_skip wp_rules | (auto simp: contract_defs; fail))+

lemma free_statement_spec: "node_spec t n (cn_parse_free_statement n tok)"
  unfolding cn_parse_free_statement_def
  by (intro node_specI) (rule wp_reduce wp_skip wp_rules | (auto simp: contract_defs; fail))+

lemma defer_statement_spec: "node_spec t n (cn_parse_defer_statement n tok)"
  unfolding cn_parse_defer_statement_def
  by (intro node_specI)
    (rule wp_reduce wp_skip wp_rules wp_node [OF free_statement_spec] | (auto simp: contract_defs; fail))+

lemma assignment_or_expr_statement_spec: "node_spec t n (cn_parse_assignment_or_expr_statement n)"
  unfolding cn_parse_assignment_or_expr_statement_def
  by (intro node_specI) (rule wp_reduce wp_skip wp_rules | (auto simp: contract_defs; fail))+

lemma zone_statement_spec:
  assumes pb: "stmt_spec t n pb"
  shows "stmt_spec t n (cn_parse_zone_statement pb tok)"
  unfolding cn_parse_zone_statement_def
  by (intro stmt_specI) (rule wp_reduce wp_skip wp_rules wp_stmt [OF pb] | (auto simp: contract_defs; fail))+

lemma loop_statement_spec:
  assumes pb: "stmt_spec t n pb"
  shows "stmt_spec t n (cn_parse_loop_statement pb tok)"
  unfolding cn_parse_loop_statement_def
  by (intro stmt_specI) (rule wp_reduce wp_skip wp_rules wp_stmt [OF pb] | (auto simp: contract_defs; fail))+

lemma while_statement_spec:
  assumes pb: "stmt_spec t n pb"
  shows "stmt_spec t n (cn_parse_while_statement n pb tok)"
  unfolding cn_parse_while_statement_def
  by (intro stmt_specI)
    (rule wp_reduce wp_skip wp_rules wp_stmt [OF pb] | (auto simp: contract_defs; fail))+

lemma for_statement_spec:
  assumes pb: "stmt_spec t n pb"
  shows "stmt_spec t n (cn_parse_for_statement n pb tok)"
  unfolding cn_parse_for_statement_def
  by (intro stmt_specI)
    (rule wp_reduce wp_skip wp_rules wp_stmt [OF pb] | (auto simp: contract_defs; fail))+

lemma if_statement_spec:
  assumes pe: "node_spec t m pe" and pb: "stmt_spec t m pb"
  shows "stmt_spec t (min n m) (cn_parse_if_statement n pe pb tok)"
proof (induction n arbitrary: tok)
  case 0
  show ?case by (auto intro!: stmt_specI wp_pfuel dest: fits_zero)
next
  case (Suc n)
  note rec = wp_stmt [OF Suc.IH]
  show ?case
    unfolding cn_parse_if_statement.simps
    by (intro stmt_specI)
      (rule wp_reduce wp_skip wp_rules wp_node [OF pe] wp_stmt [OF pb] rec
       | (auto simp: contract_defs; fail))+
qed

text \<open>
  A statement that starts at a statement keyword consumes it, also when it fails. Together
  with the synchronisation this makes every turn of the block loop consume a token.
\<close>

definition stmt_done :: "cn_parser \<Rightarrow> cn_stmt option \<Rightarrow> cn_parser \<Rightarrow> bool" where
  "stmt_done p r p' \<longleftrightarrow> parsed p r p' \<and>
     (cn_parser_is_statement_start (kind (ps_tok p)) \<longrightarrow> ps_index p < ps_index p')"

lemma statement_spec:
  assumes pb: "stmt_spec t n pb"
  shows "wf_parser p \<Longrightarrow> fits t n p \<Longrightarrow> (t \<longrightarrow> no_decl_tokens (ps_tokens p)) \<Longrightarrow>
    wp t (cn_parse_statement n pb) (stmt_done p) p"
  unfolding cn_parse_statement_def
  by (rule wp_reduce wp_rules wp_node [OF let_statement_spec] wp_loop [OF return_statement_spec]
        wp_stmt [OF zone_statement_spec [OF pb]] wp_node [OF try_statement_spec]
        wp_node [OF free_statement_spec] wp_node [OF defer_statement_spec]
        wp_stmt [OF if_statement_spec [OF expression_spec pb]] wp_stmt [OF while_statement_spec [OF pb]]
        wp_stmt [OF loop_statement_spec [OF pb]] wp_stmt [OF for_statement_spec [OF pb]]
        wp_node [OF assignment_or_expr_statement_spec]
      | (auto simp: contract_defs stmt_done_def cn_parser_is_statement_start_def; fail))+

lemma block_loop_spec:
  assumes pb: "stmt_spec t m pb"
  shows "wf_parser p \<Longrightarrow> fits t (min n m) p \<Longrightarrow> (t \<longrightarrow> no_decl_tokens (ps_tokens p)) \<Longrightarrow>
    wp t (block_loop n (cn_parse_statement m pb) acc) (\<lambda>_. moved p) p"
proof (induction n arbitrary: p acc)
  case 0
  then show ?case by (auto intro!: wp_pfuel dest: fits_zero)
next
  case (Suc n)
  have rec: "wp t (block_loop n (cn_parse_statement m pb) acc) Q q"
    if "wf_parser q" and "fits t (min n m) q" and "t \<longrightarrow> no_decl_tokens (ps_tokens q)"
      and "\<And>x p'. moved q p' \<Longrightarrow> Q x p'" for q Q acc
    by (rule wp_mono [OF Suc.IH [OF that(1,2,3)]]) (rule that(4))
  have st: "wp t (cn_parse_statement m pb) Q q"
    if "wf_parser q" and "fits t m q" and "t \<longrightarrow> no_decl_tokens (ps_tokens q)"
      and "\<And>p'. stmt_done q None p' \<Longrightarrow> Q None p'" and "\<And>x p'. stmt_done q (Some x) p' \<Longrightarrow> Q (Some x) p'" for q Q
    by (rule wp_mono [OF statement_spec [OF pb that(1,2,3)]]) (metis that(4,5) option.exhaust)
  have sync: "wp t (pseq (cn_parser_sync_statement (Suc n)) k) Q q"
    if "wf_parser q" and "fits t (Suc n) q"
      and "\<And>p'. moved q p' \<Longrightarrow> (\<not> sync_stops q \<longrightarrow> ps_index q < ps_index p') \<Longrightarrow> wp t k Q p'" for q Q and k :: "'b pm"
    by (rule wp_pseq, rule wp_mono [OF sync_statement_spec [OF that(1,2)]]) (simp add: that(3))
  have stays: "\<not> sync_stops q"
    if "stmt_done p None q" and "ps_index q = ps_index p" and "no_decl_tokens (ps_tokens p)"
      and "kind (ps_tok p) \<noteq> CN_TOKEN_RBRACE" and "kind (ps_tok p) \<noteq> CN_TOKEN_EOF" for q
    using that Suc.prems(1)
    by (auto simp: stmt_done_def parsed_def sync_stops_def ps_tok_def no_decl_tokens_def wf_parser_def)
  have turn: "fits t (min n m) p'"
    if "stmt_done p None q" and "moved q p'" and "\<not> sync_stops q \<longrightarrow> ps_index q < ps_index p'"
      and "kind (ps_tok p) \<noteq> CN_TOKEN_RBRACE" and "kind (ps_tok p) \<noteq> CN_TOKEN_EOF" for q p'
  proof -
    have "ps_index p < ps_index p'" if t
      using stays [OF \<open>stmt_done p None q\<close>] Suc.prems(3) that
        \<open>moved q p'\<close> \<open>\<not> sync_stops q \<longrightarrow> ps_index q < ps_index p'\<close> \<open>stmt_done p None q\<close>
        \<open>kind (ps_tok p) \<noteq> CN_TOKEN_RBRACE\<close> \<open>kind (ps_tok p) \<noteq> CN_TOKEN_EOF\<close>
      by (cases "ps_index q = ps_index p") (auto simp: stmt_done_def parsed_def moved_def)
    with Suc.prems(2) that(1,2) show ?thesis
      by (auto simp: contract_defs stmt_done_def)
  qed
  from Suc.prems show ?case
    unfolding block_loop.simps
    by - (rule wp_reduce sync wp_rules st rec | (rule turn; assumption) | assumption
          | (auto simp: contract_defs stmt_done_def; fail))+
qed

lemma block_spec: "stmt_spec t n (cn_parse_block n)"
proof (induction n)
  case 0
  show ?case by (auto intro!: stmt_specI wp_pfuel dest: fits_zero)
next
  case (Suc n)
  have loop: "wp t (block_loop n (cn_parse_statement n (cn_parse_block n)) acc) Q q"
    if "wf_parser q" and "fits t n q" and "t \<longrightarrow> no_decl_tokens (ps_tokens q)"
      and "\<And>x p'. moved q p' \<Longrightarrow> Q x p'" for q Q acc
    by (rule wp_mono [OF block_loop_spec [OF Suc.IH]]) (use that in \<open>auto simp: contract_defs\<close>)
  show ?case
    unfolding cn_parse_block.simps
    by (intro stmt_specI) (rule wp_reduce wp_skip wp_rules loop | (auto simp: contract_defs; fail))+
qed

section \<open>Declarations\<close>

lemma import_path_loop_spec:
  "wf_parser p \<Longrightarrow> fits t n p \<Longrightarrow>
   wp t (import_path_loop n md al) (\<lambda>r p'. moved p p' \<and> (r = None \<longrightarrow> ps_errors p < ps_errors p')) p"
proof (induction n arbitrary: p md al)
  case 0
  then show ?case by (auto intro!: wp_pfuel dest: fits_zero)
next
  case (Suc n)
  have rec: "wp t (import_path_loop n md al) Q q"
    if "wf_parser q" and "fits t n q"
      and "\<And>r p'. moved q p' \<Longrightarrow> (r = None \<longrightarrow> ps_errors q < ps_errors p') \<Longrightarrow> Q r p'" for q Q md al
    by (rule wp_mono [OF Suc.IH [OF that(1,2)]]) (auto intro: that(3))
  from Suc.prems show ?case
    unfolding import_path_loop.simps
    by - (rule wp_reduce wp_rules rec | (auto simp: contract_defs; fail))+
qed

lemma import_path_spec: "node_spec t n (cn_parser_parse_import_path n)"
proof (rule node_specI)
  fix p
  assume p: "wf_parser p" "fits t n p"
  have rec: "wp t (import_path_loop n md al) Q q"
    if "wf_parser q" and "fits t n q"
      and "\<And>r p'. moved q p' \<Longrightarrow> (r = None \<longrightarrow> ps_errors q < ps_errors p') \<Longrightarrow> Q r p'" for q Q md al
    by (rule wp_mono [OF import_path_loop_spec [OF that(1,2)]]) (auto intro: that(3))
  from p show "wp t (cn_parser_parse_import_path n) (parsed p) p"
    unfolding cn_parser_parse_import_path_def
    by - (rule wp_reduce wp_rules rec | (auto simp: contract_defs; fail))+
qed

lemma import_decl_spec: "node_spec t n (cn_parse_import_decl n prog tok)"
  unfolding cn_parse_import_decl_def
  by (intro node_specI)
    (rule wp_reduce wp_skip wp_rules wp_node [OF import_path_spec] | (auto simp: contract_defs; fail))+

lemma const_decl_spec: "node_spec t n (cn_parse_const_decl n is_public tok)"
  unfolding cn_parse_const_decl_def
  by (intro node_specI) (rule wp_reduce wp_skip wp_rules | (auto simp: contract_defs; fail))+

text \<open>
  A struct declaration and a function may not return, on a malformed field or on a declaration
  keyword in the body; their contracts are about the runs that return.
\<close>

lemma struct_fields_loop_spec:
  assumes pt: "node_spec False m pt"
  shows "loop_spec False n (struct_fields_loop k pt acc)"
proof (induction k arbitrary: acc)
  case 0
  show ?case by (auto intro!: loop_specI wp_pfuel)
next
  case (Suc k)
  note rec = wp_loop [OF Suc.IH]
  show ?case
    unfolding struct_fields_loop.simps
    by (intro loop_specI) (rule wp_reduce wp_skip wp_rules wp_node [OF pt] rec | (auto simp: contract_defs; fail))+
qed

lemma struct_decl_spec: "node_spec False n (cn_parse_struct_decl n is_public tok)"
  unfolding cn_parse_struct_decl_def
  by (intro node_specI)
    (rule wp_reduce wp_skip wp_rules wp_loop [OF struct_fields_loop_spec [OF type_here_spec]]
     | (auto simp: contract_defs; fail))+

lemma params_loop_spec:
  assumes pt: "node_spec t m pt"
  shows "loop_spec t (min n m) (params_loop n pt acc)"
proof (induction n arbitrary: acc)
  case 0
  show ?case by (auto intro!: loop_specI wp_pfuel dest: fits_zero)
next
  case (Suc n)
  note rec = wp_loop [OF Suc.IH]
  show ?case
    unfolding params_loop.simps Let_def
    by (intro loop_specI) (rule wp_reduce wp_skip wp_rules wp_node [OF pt] rec | (auto simp: contract_defs; fail))+
qed

lemma function_spec: "node_spec False n (cn_parse_function n is_public tok)"
  unfolding cn_parse_function_def
  by (intro node_specI)
    (rule wp_reduce wp_skip wp_rules wp_loop [OF params_loop_spec [OF type_here_spec]] wp_stmt [OF block_spec]
     | (auto simp: contract_defs; fail))+

section \<open>Programs\<close>

lemma wp_previous: "wf_parser p \<Longrightarrow> 0 < ps_index p \<Longrightarrow> (\<And>tok. Q tok p) \<Longrightarrow> wp t cn_parser_previous Q p"
  by (auto simp: wp_def cn_parser_previous_def wf_parser_def)

lemma decl_turn_spec:
  assumes pd: "\<And>tok. node_spec t n (pd tok)"
  shows "wf_parser p \<Longrightarrow> fits t n p \<Longrightarrow> 0 < ps_index p \<Longrightarrow> wp t (decl_turn n pd push prog) (\<lambda>_. moved p) p"
  unfolding decl_turn_def
  by (rule wp_reduce wp_rules wp_previous wp_node [OF pd] wp_loop [OF sync_top_level_spec]
      | (auto simp: contract_defs; fail))+

lemma wp_decl_turn:
  assumes pd: "\<And>tok. node_spec t n (pd tok)" and "wf_parser p" and "fits t n p" and "0 < ps_index p"
    and "\<And>x p'. moved p p' \<Longrightarrow> Q x p'"
  shows "wp t (decl_turn n pd push prog) Q p"
  by (rule wp_mono [OF decl_turn_spec [OF pd assms(2-4)] assms(5)])

lemma program_turn_spec: "loop_spec False n (program_turn n prog)"
  unfolding program_turn_def
  by (intro loop_specI)
    (rule wp_reduce wp_rules wp_decl_turn wp_loop [OF sync_top_level_spec]
       import_decl_spec const_decl_spec struct_decl_spec function_spec
     | (auto simp: contract_defs; fail))+

text \<open>The program loop only returns in front of the end marker.\<close>

lemma program_loop_spec:
  "wf_parser p \<Longrightarrow> wp False (program_loop n prog) (\<lambda>_ p'. moved p p' \<and> kind (ps_tok p') = CN_TOKEN_EOF) p"
proof (induction n arbitrary: p prog)
  case 0
  then show ?case by (auto intro!: wp_pfuel)
next
  case (Suc n)
  have rec: "wp False (program_loop n prog) Q q"
    if "wf_parser q" and "\<And>x p'. moved q p' \<Longrightarrow> kind (ps_tok p') = CN_TOKEN_EOF \<Longrightarrow> Q x p'" for q Q prog
    by (rule wp_mono [OF Suc.IH [OF that(1)]]) (auto intro: that(2))
  from Suc.prems show ?case
    unfolding program_loop.simps
    by - (rule wp_reduce wp_rules wp_loop [OF program_turn_spec] rec | (auto simp: contract_defs; fail))+
qed

end
