(* ===== verification/Parser.thy ===== *)
theory Parser
  imports Parser_Total
begin

text \<open>
  What the contracts of the parser say of whole runs: the value of literals, termination and
  memory safety of the expression parser, safety of the program parser on the output of the
  lexer, and the two loops of the statement and declaration parsers that never end.
\<close>

section \<open>Integer literals\<close>

definition dec_value :: "int \<Rightarrow> string \<Rightarrow> int" where
  "dec_value v s = foldl (\<lambda>v c. v * 10 + (int (of_char c) - 48)) v s"

lemma dec_value_Cons: "dec_value v (c # cs) = dec_value (v * 10 + (int (of_char c) - 48)) cs"
  by (simp add: dec_value_def)

lemma digit_value: "cn_is_ascii_digit c \<Longrightarrow> 0 \<le> int (of_char c) - 48 \<and> int (of_char c) - 48 \<le> 9"
  by (simp add: cn_is_ascii_digit_def)

lemma dec_value_mono: "0 \<le> v \<Longrightarrow> list_all cn_is_ascii_digit s \<Longrightarrow> v \<le> dec_value v s"
proof (induction s arbitrary: v)
  case Nil
  then show ?case by (simp add: dec_value_def)
next
  case (Cons c cs)
  let ?w = "v * 10 + (int (of_char c) - 48)"
  have "v \<le> ?w" using Cons.prems digit_value [of c] by auto
  moreover have "?w \<le> dec_value ?w cs"
    using Cons.prems digit_value [of c] by (intro Cons.IH) auto
  ultimately show ?case by (simp add: dec_value_Cons)
qed

lemma literal_from_value:
  "0 \<le> sint v \<Longrightarrow> list_all cn_is_ascii_digit s \<Longrightarrow> literal_from v s = int64_of (dec_value (sint v) s)"
proof (induction s arbitrary: v)
  case Nil
  then show ?case by (simp add: dec_value_def)
next
  case (Cons c cs)
  let ?d = "int (of_char c) - 48"
  let ?w = "sint v * 10 + ?d"
  have d: "0 \<le> ?d" "?d \<le> 9" using Cons.prems digit_value [of c] by auto
  have sd: "sint (word_of_int ?d :: int64) = ?d"
    using d by (intro sint_of_int64_range) (simp add: int64_range_def)
  have s10: "sint (10 :: int64) = 10" by simp
  have ge: "?w \<le> dec_value ?w cs"
    using Cons.prems d by (intro dec_value_mono) auto
  show ?case
  proof (cases "int64_range ?w")
    case True
    then have r10: "int64_range (sint v * 10)" using d Cons.prems by (simp add: int64_range_def)
    have "c_mul64 v 10 = Some (word_of_int (sint v * 10))"
      using r10 by (simp add: c_mul64_def s10 int64_of_def)
    moreover have "c_add64 (word_of_int (sint v * 10)) (word_of_int ?d) = Some (word_of_int ?w)"
      using True r10 by (simp only: c_add64_def sint_of_int64_range sd int64_of_def if_True)
    moreover have "literal_from (word_of_int ?w) cs = int64_of (dec_value ?w cs)"
      using Cons.IH [of "word_of_int ?w"] Cons.prems d by (simp only: sint_of_int64_range [OF True]) simp
    ultimately show ?thesis by (simp only: literal_from.simps option.case dec_value_Cons)
  next
    case False
    then have big: "2 ^ 63 \<le> ?w" using d Cons.prems by (simp add: int64_range_def)
    with ge have none: "int64_of (dec_value (sint v) (c # cs)) = None"
      by (simp add: int64_of_def int64_range_def dec_value_Cons)
    show ?thesis
    proof (cases "int64_range (sint v * 10)")
      case True
      then have "c_add64 (word_of_int (sint v * 10)) (word_of_int ?d) = None"
        using False by (simp only: c_add64_def sint_of_int64_range sd int64_of_def if_False)
      with True none show ?thesis by (simp add: c_mul64_def s10 int64_of_def)
    next
      case False
      with none show ?thesis by (simp add: c_mul64_def s10 int64_of_def)
    qed
  qed
qed

text \<open>
  C17: The value of an integer literal. For every run of decimal digits, the loop of
  \<open>cn_parse_primary\<close> computes the number they denote when it is below \<open>2 ^ 63\<close>; for every
  larger literal a signed multiplication or addition overflows, which C leaves undefined.
\<close>

theorem int_literal_value_spec:
  assumes "list_all cn_is_ascii_digit (sv_str (lexeme tok))"
  shows "int_literal_value tok p =
    (if dec_value 0 (sv_str (lexeme tok)) < 2 ^ 63
     then Ret (word_of_int (dec_value 0 (sv_str (lexeme tok)))) p else Undef)"
  using literal_from_value [of 0 "sv_str (lexeme tok)"] dec_value_mono [of 0 "sv_str (lexeme tok)"] assms
  by (simp add: int_literal_value_def int64_of_def int64_range_def pret_def pundef_def)

theorem int_literal_value_spec_witness:
  "int_literal_value \<lparr>kind = CN_TOKEN_INT_LITERAL, lexeme = Sv ''407'' 0 3, offset = 0, line = 1, column = 1\<rparr>
      (cn_parser_init arr_empty (cn_diag_bag_init None))
     = Ret 407 (cn_parser_init arr_empty (cn_diag_bag_init None))"
  using int_literal_value_spec
    [of "\<lparr>kind = CN_TOKEN_INT_LITERAL, lexeme = Sv ''407'' 0 3, offset = 0, line = 1, column = 1\<rparr>"
        "cn_parser_init arr_empty (cn_diag_bag_init None)"]
  by (simp add: cn_is_ascii_digit_def dec_value_def)

section \<open>Raw strings\<close>

text \<open>
  The text of a file saved with Windows line ends: every newline becomes a carriage return and
  a newline.
\<close>

definition crlf :: "string \<Rightarrow> string" where
  "crlf s = concat (map (\<lambda>c. if c = c_nl then [c_cr, c_nl] else [c]) s)"

lemma normalize_cr_Cons: "c \<noteq> c_cr \<Longrightarrow> normalize_cr (c # s) = c # normalize_cr s"
  by (cases s) auto

lemma normalize_crlf: "c_cr \<notin> set s \<Longrightarrow> normalize_cr (crlf s) = s"
  by (induction s) (auto simp: crlf_def normalize_cr_Cons)

lemma normalize_cr_no_cr: "c_cr \<notin> set (normalize_cr s)"
  by (induction s rule: normalize_cr.induct) auto

text \<open>
  Raw strings do not depend on the line ends of the file: the value of a raw string literal
  never contains a carriage return, and when its text was saved with Windows line ends the
  value is the text with plain newlines.
\<close>

theorem raw_string_value_normalized:
  assumes "sv_prev_byte (lexeme tok) = Some (CHR 0x60)"
  shows "(\<exists>v. cn_parser_string_literal_value tok p = Ret v p \<and> c_cr \<notin> set v)
     \<and> (sv_str (lexeme tok) = crlf s \<and> c_cr \<notin> set s \<longrightarrow> cn_parser_string_literal_value tok p = Ret s p)"
proof -
  have "lexeme tok \<noteq> SvNull" using assms by auto
  moreover have "normalize_cr t = t" if "c_cr \<notin> set t" for t
    using that by (induction t) (auto simp: normalize_cr_Cons)
  ultimately have "cn_parser_string_literal_value tok p = Ret (normalize_cr (sv_str (lexeme tok))) p"
    using assms by (simp add: cn_parser_string_literal_value_def pret_def)
  then show ?thesis using normalize_cr_no_cr normalize_crlf by auto
qed

theorem raw_string_value_normalized_witness:
  "cn_parser_string_literal_value
     \<lparr>kind = CN_TOKEN_STRING_LITERAL, lexeme = Sv [CHR 0x60, CHR ''a'', c_cr, c_nl, CHR ''b'', CHR 0x60] 1 4,
      offset = 0, line = 1, column = 1\<rparr> (cn_parser_init arr_empty (cn_diag_bag_init None))
   = Ret [CHR ''a'', c_nl, CHR ''b''] (cn_parser_init arr_empty (cn_diag_bag_init None))"
  using raw_string_value_normalized
    [of "\<lparr>kind = CN_TOKEN_STRING_LITERAL, lexeme = Sv [CHR 0x60, CHR ''a'', c_cr, c_nl, CHR ''b'', CHR 0x60] 1 4,
          offset = 0, line = 1, column = 1\<rparr>" "cn_parser_init arr_empty (cn_diag_bag_init None)"
        "[CHR ''a'', c_nl, CHR ''b'']"]
  by (simp add: crlf_def)

section \<open>Termination and safety\<close>

lemma wp_total: "wp True m Q p \<longleftrightarrow> (\<exists>x p'. m p = Ret x p' \<and> Q x p')"
  by (auto simp: wp_def split: pres.splits)

lemma wp_partial: "wp False m Q p \<longleftrightarrow> m p \<noteq> Undef \<and> (\<forall>x p'. m p = Ret x p' \<longrightarrow> Q x p')"
  by (auto simp: wp_def split: pres.splits)

text \<open>
  C6: The expression parser always returns and never reads outside the token buffer: from every
  well-formed state (the buffer ends with the end marker, integer literals fit 64 bits) with
  fuel for the tokens left, \<open>cn_parse_expression\<close> returns; it never moves the cursor back nor
  past the end marker, keeps every diagnostic, reports at least one new error when it returns
  null, and consumes at least one token when it returns an expression.
\<close>

theorem parse_expression_total:
  assumes "wf_parser p" and "length (ps_tokens p) - ps_index p \<le> n"
  shows "\<exists>r p'. cn_parse_expression n p = Ret r p' \<and> wf_parser p' \<and> ps_tokens p' = ps_tokens p
     \<and> ps_index p \<le> ps_index p' \<and> ps_errors p \<le> ps_errors p'
     \<and> (r = None \<longrightarrow> ps_errors p < ps_errors p') \<and> (r \<noteq> None \<longrightarrow> ps_index p < ps_index p')"
proof -
  have "wp True (cn_parse_expression n) (parsed p) p"
    using expression_spec [of True n] assms by (auto simp: node_spec_def fits_def)
  then show ?thesis by (auto simp: wp_total parsed_def)
qed

text \<open>A small buffer for the witnesses.\<close>

definition tok_of :: "cn_token_kind \<Rightarrow> string \<Rightarrow> cn_token" where
  "tok_of k s = \<lparr>kind = k, lexeme = Sv s 0 (length s), offset = 0, line = 1, column = 1\<rparr>"

definition parser_on :: "cn_token list \<Rightarrow> cn_parser" where
  "parser_on toks = \<lparr>ps_tokens = toks, ps_diags = cn_diag_bag_init None, ps_index = 0\<rparr>"

lemma tok_of_simps [simp]: "kind (tok_of k s) = k" "lexeme (tok_of k s) = Sv s 0 (length s)" "offset (tok_of k s) = 0"
  by (simp_all add: tok_of_def)

lemma parser_on_simps [simp]: "ps_tokens (parser_on toks) = toks" "ps_index (parser_on toks) = 0"
    "ps_diags (parser_on toks) = cn_diag_bag_init None"
  by (simp_all add: parser_on_def)

theorem parse_expression_total_witness:
  "\<exists>r p'. cn_parse_expression 4 (parser_on [tok_of CN_TOKEN_MINUS ''-'', tok_of CN_TOKEN_IDENTIFIER ''x'',
       tok_of CN_TOKEN_EOF []]) = Ret r p' \<and> wf_parser p'"
proof -
  let ?p = "parser_on [tok_of CN_TOKEN_MINUS ''-'', tok_of CN_TOKEN_IDENTIFIER ''x'', tok_of CN_TOKEN_EOF []]"
  have "wf_parser ?p" by (simp add: wf_parser_def token_ok_def)
  from parse_expression_total [OF this, of 4] show ?thesis by auto
qed

text \<open>
  C13: Blocks always return when no declaration keyword is in the buffer: from every well-formed
  state over such tokens, with fuel for the tokens left, \<open>cn_parse_block\<close> and with it every
  statement parser returns, whatever errors the statements have; a null result comes with an
  error and a block with progress.
\<close>

theorem parse_block_total:
  assumes "wf_parser p" and "length (ps_tokens p) - ps_index p \<le> n"
    and "\<forall>tok \<in> set (ps_tokens p). cn_parser_is_top_level_start (kind tok) \<longrightarrow> kind tok = CN_TOKEN_EOF"
  shows "\<exists>r p'. cn_parse_block n p = Ret r p' \<and> wf_parser p' \<and> ps_tokens p' = ps_tokens p
     \<and> ps_errors p \<le> ps_errors p' \<and> (r = None \<longrightarrow> ps_errors p < ps_errors p')
     \<and> (r \<noteq> None \<longrightarrow> ps_index p < ps_index p')"
proof -
  have "wp True (cn_parse_block n) (parsed p) p"
    using block_spec [of True n] assms by (auto simp: stmt_spec_def fits_def no_decl_tokens_def)
  then show ?thesis by (auto simp: wp_total parsed_def)
qed

theorem parse_block_total_witness:
  "\<exists>r p'. cn_parse_block 4 (parser_on [tok_of CN_TOKEN_LBRACE ''{'', tok_of CN_TOKEN_ELSE ''else'',
       tok_of CN_TOKEN_EOF []]) = Ret r p' \<and> wf_parser p'"
proof -
  let ?p = "parser_on [tok_of CN_TOKEN_LBRACE ''{'', tok_of CN_TOKEN_ELSE ''else'', tok_of CN_TOKEN_EOF []]"
  have "wf_parser ?p" by (simp add: wf_parser_def token_ok_def)
  from parse_block_total [OF this, of 4] show ?thesis
    by (auto simp: cn_parser_is_top_level_start_def)
qed

text \<open>The buffer the lexer returns is a well-formed start of the parser.\<close>

lemma wf_parser_after_lexer:
  assumes lex: "lex_bytes ltr path bytes = Some (ok, lx, toks)"
    and ints: "\<forall>tok \<in> set (arr_items toks). kind tok = CN_TOKEN_INT_LITERAL \<longrightarrow>
       dec_value 0 (sv_str (lexeme tok)) < 2 ^ 63"
  shows "wf_parser (cn_parser_init toks (lx_diags lx))"
proof -
  from lex have "c_nul \<notin> set bytes" using lex_bytes_None_iff [of ltr path bytes] by auto
  with lex obtain ts eof where ts: "arr_items toks = ts @ [eof]" "tokens_ok ltr bytes (length bytes) ts"
    "kind eof = CN_TOKEN_EOF" "token_at ltr bytes (length bytes) (length bytes) eof" "diag_invar (lx_diags lx)"
    by (metis lex_bytes_spec option.inject prod.inject)
  have "token_ok tok" if "tok \<in> set (arr_items toks)" for tok
  proof -
    have "token_spelled ltr tok" using that ts by (auto simp: tokens_ok_def token_at_def)
    moreover have "literal_from 0 x \<noteq> None" if "list_all cn_is_ascii_digit x" and "dec_value 0 x < 2 ^ 63" for x
      using that literal_from_value [of 0 x] dec_value_mono [of 0 x] by (simp add: int64_of_def int64_range_def)
    ultimately show ?thesis
      using ints that by (auto simp: token_ok_def token_spelled_def Let_def)
  qed
  with ts show ?thesis by (simp add: wf_parser_def cn_parser_init_def)
qed



section \<open>Loops that never end\<close>

text \<open>A run that reports an error, returns null and consumes nothing.\<close>

definition stuck :: "cn_parser \<Rightarrow> 'a option \<Rightarrow> cn_parser \<Rightarrow> bool" where
  "stuck p r p' \<longleftrightarrow> r = None \<and> wf_parser p' \<and> ps_tokens p' = ps_tokens p \<and> ps_index p' = ps_index p"

definition decl_keyword :: "cn_token_kind \<Rightarrow> bool" where
  "decl_keyword k \<longleftrightarrow> cn_parser_is_top_level_start k \<and> k \<noteq> CN_TOKEN_EOF"

definition stuck_at_decl :: "'a option pm \<Rightarrow> bool" where
  "stuck_at_decl m \<longleftrightarrow> (\<forall>p. wf_parser p \<longrightarrow> decl_keyword (kind (ps_tok p)) \<longrightarrow> wp False m (stuck p) p)"

lemma stuck_at_declI:
  "(\<And>p. wf_parser p \<Longrightarrow> decl_keyword (kind (ps_tok p)) \<Longrightarrow> wp False m (stuck p) p) \<Longrightarrow> stuck_at_decl m"
  by (simp add: stuck_at_decl_def)

lemma wp_stuck:
  assumes "stuck_at_decl m" and "wf_parser p" and "decl_keyword (kind (ps_tok p))"
    and "\<And>p'. wf_parser p' \<Longrightarrow> ps_tokens p' = ps_tokens p \<Longrightarrow> ps_index p' = ps_index p \<Longrightarrow> Q None p'"
  shows "wp False m Q p"
proof (rule wp_mono)
  show "wp False m (stuck p) p" using assms(1,2,3) by (simp add: stuck_at_decl_def)
  show "Q r p'" if "stuck p r p'" for r p'
    using that assms(4) by (auto simp: stuck_def)
qed

text \<open>Matching or checking another token fails in front of a declaration keyword.\<close>

lemma wp_match_not:
  "wf_parser p \<Longrightarrow> kind (ps_tok p) \<noteq> k \<Longrightarrow> Q False p \<Longrightarrow> wp t (cn_parser_match k) Q p"
  unfolding cn_parser_match_def by (intro wp_pif wp_check wp_reduce wp_pret) simp_all

lemma wp_check_not:
  "wf_parser p \<Longrightarrow> kind (ps_tok p) \<noteq> k \<Longrightarrow> Q False p \<Longrightarrow> wp t (cn_parser_check k) Q p"
  by (rule wp_check) simp_all

lemmas stuck_rules = wp_reduce wp_match_not wp_check_not wp_pret wp_pbind wp_pseq wp_pif wp_por wp_ptry
  wp_current wp_perror wp_pfuel

lemmas stuck_defs = decl_keyword_def cn_parser_is_top_level_start_def stuck_def

lemma primary_stuck: "stuck_at_decl (cn_parse_primary n pe)"
  unfolding cn_parse_primary_def
  by (intro stuck_at_declI) (rule stuck_rules | (auto simp: stuck_defs; fail))+

lemma unary_stuck: "stuck_at_decl (cn_parse_unary n pe)"
proof (cases n)
  case 0
  then show ?thesis by (auto intro!: stuck_at_declI wp_pfuel)
next
  case (Suc k)
  show ?thesis
    unfolding Suc cn_parse_unary.simps cn_parse_postfix_def Let_def
    by (intro stuck_at_declI) (rule stuck_rules wp_stuck [OF primary_stuck] | (auto simp: stuck_defs; fail))+
qed

lemma binary_chain_stuck:
  assumes "stuck_at_decl sub"
  shows "stuck_at_decl (cn_parse_binary_chain n sub ks)"
  unfolding cn_parse_binary_chain_def
  by (intro stuck_at_declI) (rule stuck_rules wp_stuck [OF assms] | (auto simp: stuck_defs; fail))+

lemma expression_stuck: "stuck_at_decl (cn_parse_expression n)"
proof (cases n)
  case 0
  then show ?thesis by (auto intro!: stuck_at_declI wp_pfuel)
next
  case (Suc k)
  have "stuck_at_decl (cn_parse_or (Suc k) (cn_parse_expression k))"
    unfolding cn_parse_or_def cn_parse_and_def cn_parse_equality_def cn_parse_comparison_def
      cn_parse_term_def cn_parse_factor_def
    by (intro binary_chain_stuck unary_stuck)
  then show ?thesis
    unfolding Suc cn_parse_expression.simps cn_parse_ok_expression_def
    by (intro stuck_at_declI) (rule stuck_rules wp_stuck | assumption | (auto simp: stuck_defs; fail))+
qed

lemma statement_stuck: "stuck_at_decl (cn_parse_statement n pb)"
  unfolding cn_parse_statement_def cn_parse_assignment_or_expr_statement_def
  by (intro stuck_at_declI) (rule stuck_rules wp_stuck [OF expression_stuck] | (auto simp: stuck_defs; fail))+

lemma sync_statement_stays:
  "wf_parser p \<Longrightarrow> decl_keyword (kind (ps_tok p)) \<Longrightarrow> (\<And>u. Q u p) \<Longrightarrow>
   wp False (cn_parser_sync_statement n) Q p"
  by (cases n) (auto intro!: wp_pfuel wp_pif wp_is_at_end wp_reduce wp_pret wp_match_not wp_por wp_check_not
      wp_pbind wp_current simp: decl_keyword_def cn_parser_is_top_level_start_def)

lemma block_loop_diverges:
  "wf_parser p \<Longrightarrow> decl_keyword (kind (ps_tok p)) \<Longrightarrow>
   wp False (block_loop n (cn_parse_statement m pb) acc) (\<lambda>_ _. False) p"
proof (induction n arbitrary: p)
  case 0
  then show ?case by (auto intro!: wp_pfuel)
next
  case (Suc n)
  from Suc.prems show ?case
    unfolding block_loop.simps
    by - (rule stuck_rules wp_pand wp_pnot wp_is_at_end wp_stuck [OF statement_stuck] sync_statement_stays Suc.IH
          | (auto simp: stuck_defs ps_tok_def; fail))+
qed

text \<open>
  C14: A declaration keyword inside a block hangs the parser: when the first token after the
  opening brace is one of \<open>import\<close>, \<open>const\<close>, \<open>pconst\<close>, \<open>struct\<close>, \<open>pstruct\<close>, \<open>fn\<close> or \<open>pfn\<close>,
  \<open>cn_parse_block\<close> returns for no amount of fuel; the statement parser fails in front of the
  keyword and \<open>cn_parser_sync_statement\<close> stops there, so the loop starts again in the same place.
\<close>

theorem parse_block_hangs_at_declaration:
  assumes "wf_parser p" and "kind (ps_tokens p ! ps_index p) = CN_TOKEN_LBRACE"
    and "decl_keyword (kind (ps_tokens p ! Suc (ps_index p)))"
  shows "cn_parse_block n p = NoFuel"
proof (cases n)
  case 0
  then show ?thesis by (simp add: pfuel_def)
next
  case (Suc k)
  have "wp False (cn_parse_block n) (\<lambda>_ _. False) p"
    unfolding Suc cn_parse_block.simps
  proof (intro wp_ptry wp_consume)
    fix p'
    assume "wf_parser p'" "ps_tokens p' = ps_tokens p" "ps_index p' = Suc (ps_index p)"
    then have "wp False (block_loop k (cn_parse_statement k (cn_parse_block k)) []) (\<lambda>_ _. False) p'"
      using assms(3) by (intro block_loop_diverges) (simp_all add: ps_tok_def)
    then show "wp False (case Some (ps_tok p) of None \<Rightarrow> pret None
        | Some left_brace \<Rightarrow> pbind (block_loop k (cn_parse_statement k (cn_parse_block k)) []) (\<lambda>statements.
            pseq (cn_parser_consume CN_TOKEN_RBRACE (''expected '' @ c_quote @ ''}'' @ c_quote @ '' after block''))
              (pret (Some (CnBlock statements (offset left_brace)))))) (\<lambda>_ _. False) p'"
      by (intro wp_reduce wp_pbind) (erule wp_mono, simp)
  qed (use assms in \<open>simp_all add: ps_tok_def\<close>)
  then show ?thesis by (cases "cn_parse_block n p") (simp_all add: wp_def)
qed

theorem parse_block_hangs_at_declaration_witness:
  "cn_parse_block 1000 (parser_on [tok_of CN_TOKEN_LBRACE ''{'', tok_of CN_TOKEN_FN ''fn'', tok_of CN_TOKEN_EOF []])
     = NoFuel"
  by (rule parse_block_hangs_at_declaration)
    (simp_all add: wf_parser_def token_ok_def decl_keyword_def cn_parser_is_top_level_start_def)

text \<open>The tokens on which no part of a struct field can start.\<close>

definition bad_field_token :: "cn_token_kind \<Rightarrow> bool" where
  "bad_field_token k \<longleftrightarrow> k \<notin> {CN_TOKEN_IDENTIFIER, CN_TOKEN_COLON, CN_TOKEN_SEMICOLON, CN_TOKEN_RBRACE,
     CN_TOKEN_EOF, CN_TOKEN_INT, CN_TOKEN_U8, CN_TOKEN_BYTE, CN_TOKEN_BOOL, CN_TOKEN_STR, CN_TOKEN_VOID,
     CN_TOKEN_RESULT, CN_TOKEN_PTR, CN_TOKEN_SLICE}"

lemma wp_consume_not:
  assumes "wf_parser p" and "kind (ps_tok p) \<noteq> k"
    and "\<And>p'. wf_parser p' \<Longrightarrow> ps_tokens p' = ps_tokens p \<Longrightarrow> ps_index p' = ps_index p \<Longrightarrow> Q None p'"
  shows "wp t (cn_parser_consume k msg) Q p"
  unfolding cn_parser_consume_def
  using assms by (auto intro!: wp_pif wp_check_not wp_reduce wp_pbind wp_current wp_pseq wp_perror wp_pret)

lemma wp_require_semicolon_not:
  assumes "wf_parser p" and "kind (ps_tok p) \<noteq> CN_TOKEN_SEMICOLON"
    and "\<And>p'. wf_parser p' \<Longrightarrow> ps_tokens p' = ps_tokens p \<Longrightarrow> ps_index p' = ps_index p \<Longrightarrow> Q () p'"
  shows "wp t (cn_parser_require_semicolon msg) Q p"
  unfolding cn_parser_require_semicolon_def
  using assms by (auto intro!: wp_pseq wp_consume_not wp_pret)

lemma wp_identifier_text_not:
  assumes "wf_parser p" and "kind (ps_tok p) \<noteq> CN_TOKEN_IDENTIFIER" and "Q False p"
  shows "wp t (cn_parser_check_identifier_text x) Q p"
  using assms by (intro wp_check_identifier_text) simp_all

lemma type_stuck:
  assumes "wf_parser p" and "bad_field_token (kind (ps_tok p))"
    and "\<And>p'. wf_parser p' \<Longrightarrow> ps_tokens p' = ps_tokens p \<Longrightarrow> ps_index p' = ps_index p \<Longrightarrow> Q None p'"
  shows "wp t (cn_parse_type n pe) Q p"
proof -
  have here: "wp t type_prefix_here R p" if "R None p" for R
    unfolding type_prefix_here_def using assms(1,2) that
    by - (rule stuck_rules wp_pand wp_identifier_text_not | (auto simp: bad_field_token_def; fail))+
  have prefixes: "wp t (type_prefixes 32) R p" if "R [] p" for R
    unfolding numeral_eq_Suc type_prefixes.simps using assms(1) that
    by - (rule wp_pbind wp_current wp_ptry here wp_reduce wp_pret | assumption)+
  have "wp t (ptry cn_parse_type_atom (pret None) k) Q p" for k
  proof -
    have "wp t cn_parse_type_atom (\<lambda>r p'. r = None \<and> Q None p') p"
      unfolding cn_parse_type_atom_def Let_def using assms
      by - (rule stuck_rules | (auto simp: bad_field_token_def; fail))+
    then show ?thesis by (intro wp_ptry) (erule wp_mono, auto intro: wp_pret)
  qed
  then show ?thesis
    unfolding cn_parse_type_def using assms(1)
    by (intro wp_pbind prefixes wp_pif wp_pand wp_pret) (simp add: wp_pret)
qed

lemma struct_fields_loop_diverges:
  "wf_parser p \<Longrightarrow> bad_field_token (kind (ps_tok p)) \<Longrightarrow>
   wp False (struct_fields_loop n (cn_parse_type m pe) acc) (\<lambda>_ _. False) p"
proof (induction n arbitrary: p acc)
  case 0
  then show ?case by (auto intro!: wp_pfuel)
next
  case (Suc n)
  from Suc.prems show ?case
    unfolding struct_fields_loop.simps
    by - (rule wp_reduce wp_require_semicolon_not type_stuck wp_consume_not wp_check_not wp_is_at_end
            wp_pand wp_pnot wp_pif wp_pbind wp_pseq wp_pret Suc.IH
          | (auto simp: bad_field_token_def ps_tok_def; fail))+
qed

text \<open>
  C15: A malformed field hangs the parser in a struct declaration: when after the opening brace
  comes a token with which neither a field name, a colon, a type nor a semicolon can start,
  for example a parenthesis, a literal or the keyword of the next declaration,
  \<open>cn_parse_struct_decl\<close> returns for no amount of fuel, because its loop does not skip the token.
\<close>

theorem parse_struct_hangs_at_bad_field:
  assumes "wf_parser p" and "kind (ps_tokens p ! ps_index p) = CN_TOKEN_IDENTIFIER"
    and "kind (ps_tokens p ! Suc (ps_index p)) = CN_TOKEN_LBRACE"
    and "bad_field_token (kind (ps_tokens p ! Suc (Suc (ps_index p))))"
  shows "cn_parse_struct_decl n is_public tok p = NoFuel"
proof -
  have fields: "wp False (struct_fields_loop n (cn_parse_type n (cn_parse_expression n)) []) Q p'"
    if "wf_parser p'" "ps_tokens p' = ps_tokens p" "ps_index p' = Suc (Suc (ps_index p))" for p' Q
    by (rule wp_mono [OF struct_fields_loop_diverges]) (use that assms in \<open>simp_all add: ps_tok_def\<close>)
  have "wp False (cn_parse_struct_decl n is_public tok) (\<lambda>_ _. False) p"
    unfolding cn_parse_struct_decl_def
    by (rule wp_reduce wp_ptry wp_consume wp_pbind fields
        | (use assms in \<open>auto simp: ps_tok_def; fail\<close>))+
  then show ?thesis by (cases "cn_parse_struct_decl n is_public tok p") (simp_all add: wp_def)
qed

theorem parse_struct_hangs_at_bad_field_witness:
  "cn_parse_struct_decl 1000 False (tok_of CN_TOKEN_STRUCT ''struct'')
     (parser_on [tok_of CN_TOKEN_IDENTIFIER ''S'', tok_of CN_TOKEN_LBRACE ''{'', tok_of CN_TOKEN_LPAREN ''('',
        tok_of CN_TOKEN_EOF []]) = NoFuel"
  by (rule parse_struct_hangs_at_bad_field)
    (simp_all add: wf_parser_def token_ok_def bad_field_token_def)

end
