(* ===== verification/Parser_Fuel.thy ===== *)
theory Parser_Fuel
  imports Parser_Stmt
begin

text \<open>
  Fuel is no part of the program: a parser function that returns, or is undefined, with some
  fuel does the same with more. So the outcome of a run is a property of the tokens alone, and
  running out of fuel for every amount means that the C function does not return.

  \<open>mle m m'\<close>: wherever \<open>m\<close> does not run out of fuel, \<open>m'\<close> has the same outcome.
\<close>

definition mle :: "'a pm \<Rightarrow> 'a pm \<Rightarrow> bool" where
  "mle m m' \<longleftrightarrow> (\<forall>p. m p = NoFuel \<or> m p = m' p)"

lemma mle_refl: "mle m m"
  by (simp add: mle_def)

lemma mle_pfuel: "mle pfuel m"
  by (simp add: mle_def pfuel_def)

lemma mle_pbind: "mle m m' \<Longrightarrow> (\<And>x. mle (k x) (k' x)) \<Longrightarrow> mle (pbind m k) (pbind m' k')"
  unfolding mle_def pbind_def
proof
  fix p
  assume m: "\<forall>p. m p = NoFuel \<or> m p = m' p" and k: "\<And>x. \<forall>p. k x p = NoFuel \<or> k x p = k' x p"
  show "(case m p of Ret x p' \<Rightarrow> k x p' | Undef \<Rightarrow> Undef | NoFuel \<Rightarrow> NoFuel) = NoFuel \<or>
        (case m p of Ret x p' \<Rightarrow> k x p' | Undef \<Rightarrow> Undef | NoFuel \<Rightarrow> NoFuel) =
        (case m' p of Ret x p' \<Rightarrow> k' x p' | Undef \<Rightarrow> Undef | NoFuel \<Rightarrow> NoFuel)"
  proof (cases "m p")
    case (Ret x q)
    with m have "m' p = Ret x q" by (metis pres.distinct(3))
    with Ret k show ?thesis by simp
  next
    case Undef
    with m have "m' p = Undef" by (metis pres.distinct(5))
    with Undef show ?thesis by simp
  qed simp
qed

lemma mle_if: "mle a a' \<Longrightarrow> mle b b' \<Longrightarrow> mle (if c then a else b) (if c then a' else b')"
  by simp

lemma mle_option:
  "mle a a' \<Longrightarrow> (\<And>x. mle (k x) (k' x)) \<Longrightarrow>
   mle (case r of None \<Rightarrow> a | Some x \<Rightarrow> k x) (case r of None \<Rightarrow> a' | Some x \<Rightarrow> k' x)"
  by (cases r) auto

lemma mle_prod: "(\<And>x y. mle (f x y) (f' x y)) \<Longrightarrow> mle (case r of (x, y) \<Rightarrow> f x y) (case r of (x, y) \<Rightarrow> f' x y)"
  by (cases r) auto

lemma mle_pseq: "mle m m' \<Longrightarrow> mle k k' \<Longrightarrow> mle (pseq m k) (pseq m' k')"
  unfolding pseq_def by (intro mle_pbind)

lemma mle_pif: "mle c c' \<Longrightarrow> mle a a' \<Longrightarrow> mle b b' \<Longrightarrow> mle (pif c a b) (pif c' a' b')"
  unfolding pif_def by (intro mle_pbind mle_if)

lemma mle_ptry: "mle m m' \<Longrightarrow> mle a a' \<Longrightarrow> (\<And>x. mle (k x) (k' x)) \<Longrightarrow> mle (ptry m a k) (ptry m' a' k')"
  unfolding ptry_def by (intro mle_pbind mle_option)

lemma mle_psome: "mle m m' \<Longrightarrow> mle (psome m) (psome m')"
  unfolding psome_def by (intro mle_pbind mle_refl)

lemmas mle_rules = mle_refl mle_pfuel mle_pbind mle_pseq mle_pif mle_ptry mle_psome mle_if mle_option mle_prod

section \<open>Types and expressions\<close>

lemma type_array_suffixes_mle:
  assumes pe: "mle pe pe'"
  shows "n \<le> n' \<Longrightarrow> mle (type_array_suffixes n pe ty) (type_array_suffixes n' pe' ty)"
proof (induction n arbitrary: n' ty)
  case (Suc n)
  then obtain k where "n' = Suc k" "n \<le> k" by (cases n') auto
  with Suc.IH [of k] pe show ?case by (auto intro!: mle_rules)
qed (simp add: mle_pfuel)

lemma cn_parse_type_mle: "mle pe pe' \<Longrightarrow> n \<le> n' \<Longrightarrow> mle (cn_parse_type n pe) (cn_parse_type n' pe')"
  unfolding cn_parse_type_def by (intro mle_rules type_array_suffixes_mle)

lemma expr_comma_list_mle:
  assumes pe: "mle pe pe'"
  shows "n \<le> n' \<Longrightarrow> mle (expr_comma_list n pe acc) (expr_comma_list n' pe' acc)"
proof (induction n arbitrary: n' acc)
  case (Suc n)
  then obtain k where "n' = Suc k" "n \<le> k" by (cases n') auto
  with Suc.IH [of k] pe show ?case by (auto intro!: mle_rules split del: if_split)
qed (simp add: mle_pfuel)

lemma array_literal_mle: "mle pe pe' \<Longrightarrow> n \<le> n' \<Longrightarrow> mle (cn_parse_array_literal n pe tok) (cn_parse_array_literal n' pe' tok)"
  unfolding cn_parse_array_literal_def Let_def by (intro mle_rules expr_comma_list_mle)

lemma struct_literal_fields_mle:
  assumes pe: "mle pe pe'"
  shows "n \<le> n' \<Longrightarrow> mle (struct_literal_fields n pe acc) (struct_literal_fields n' pe' acc)"
proof (induction n arbitrary: n' acc)
  case (Suc n)
  then obtain k where "n' = Suc k" "n \<le> k" by (cases n') auto
  with Suc.IH [of k] pe show ?case by (auto intro!: mle_rules split del: if_split)
qed (simp add: mle_pfuel)

lemma struct_literal_mle: "mle pe pe' \<Longrightarrow> n \<le> n' \<Longrightarrow> mle (cn_parse_struct_literal n pe md tok) (cn_parse_struct_literal n' pe' md tok)"
  unfolding cn_parse_struct_literal_def by (intro mle_rules struct_literal_fields_mle)

lemma if_branch_mle: "mle pe pe' \<Longrightarrow> mle (cn_parse_if_expression_branch pe msg) (cn_parse_if_expression_branch pe' msg)"
  unfolding cn_parse_if_expression_branch_def by (intro mle_rules )

lemma if_expression_mle:
  assumes pe: "mle pe pe'"
  shows "n \<le> n' \<Longrightarrow> mle (cn_parse_if_expression n pe tok) (cn_parse_if_expression n' pe' tok)"
proof (induction n arbitrary: n' tok)
  case (Suc n)
  then obtain k where "n' = Suc k" "n \<le> k" by (cases n') auto
  with Suc.IH [of k] pe show ?case by (auto intro!: mle_rules if_branch_mle)
qed (simp add: mle_pfuel)

lemma primary_mle: "mle pe pe' \<Longrightarrow> n \<le> n' \<Longrightarrow> mle (cn_parse_primary n pe) (cn_parse_primary n' pe')"
  unfolding cn_parse_primary_def cn_parse_alloc_expression_def cn_parse_zalloc_expression_def primary_identifier_def
  by (intro mle_rules cn_parse_type_mle if_expression_mle struct_literal_mle array_literal_mle)

lemma postfix_call_mle: "mle pe pe' \<Longrightarrow> n \<le> n' \<Longrightarrow> mle (postfix_call n pe e) (postfix_call n' pe' e)"
  unfolding postfix_call_def Let_def by (intro mle_rules expr_comma_list_mle)

lemma postfix_index_mle: "mle pe pe' \<Longrightarrow> mle (postfix_index pe e) (postfix_index pe' e)"
  unfolding postfix_index_def optional_expr_def by (intro mle_rules)

lemma postfix_loop_mle:
  assumes pe: "mle pe pe'"
  shows "n \<le> n' \<Longrightarrow> mle (postfix_loop n pe e) (postfix_loop n' pe' e)"
proof (induction n arbitrary: n' e)
  case (Suc n)
  then obtain k where k: "n' = Suc k" "n \<le> k" by (cases n') auto
  with Suc.IH [of k] show ?case
    unfolding k postfix_loop.simps by (intro mle_rules postfix_call_mle postfix_index_mle pe) auto
qed (simp add: mle_pfuel)

lemma postfix_mle: "mle pe pe' \<Longrightarrow> n \<le> n' \<Longrightarrow> mle (cn_parse_postfix n pe) (cn_parse_postfix n' pe')"
  unfolding cn_parse_postfix_def by (intro mle_rules primary_mle postfix_loop_mle)

lemma unary_mle:
  assumes pe: "mle pe pe'"
  shows "n \<le> n' \<Longrightarrow> mle (cn_parse_unary n pe) (cn_parse_unary n' pe')"
proof (induction n arbitrary: n')
  case (Suc n)
  then obtain k where k: "n' = Suc k" "n \<le> k" by (cases n') auto
  with Suc.IH [of k] show ?case
    unfolding k cn_parse_unary.simps Let_def by (intro mle_rules postfix_mle pe) auto
qed (simp add: mle_pfuel)

lemma binary_chain_loop_mle:
  assumes sub: "mle sub sub'"
  shows "n \<le> n' \<Longrightarrow> mle (binary_chain_loop n sub ks e) (binary_chain_loop n' sub' ks e)"
proof (induction n arbitrary: n' e)
  case (Suc n)
  then obtain k where k: "n' = Suc k" "n \<le> k" by (cases n') auto
  with Suc.IH [of k] show ?case
    unfolding k binary_chain_loop.simps by (intro mle_rules sub) auto
qed (simp add: mle_pfuel)

lemma binary_chain_mle:
  "mle sub sub' \<Longrightarrow> n \<le> n' \<Longrightarrow> mle (cn_parse_binary_chain n sub ks) (cn_parse_binary_chain n' sub' ks)"
  unfolding cn_parse_binary_chain_def by (intro mle_rules binary_chain_loop_mle)

lemma or_mle: "mle pe pe' \<Longrightarrow> n \<le> n' \<Longrightarrow> mle (cn_parse_or n pe) (cn_parse_or n' pe')"
  unfolding cn_parse_or_def cn_parse_and_def cn_parse_equality_def cn_parse_comparison_def
    cn_parse_term_def cn_parse_factor_def
  by (intro binary_chain_mle unary_mle)

lemma expression_mle: "n \<le> n' \<Longrightarrow> mle (cn_parse_expression n) (cn_parse_expression n')"
proof (induction n arbitrary: n')
  case (Suc n)
  then obtain k where k: "n' = Suc k" "n \<le> k" by (cases n') auto
  with Suc.IH [of k] show ?case
    unfolding k cn_parse_expression.simps cn_parse_ok_expression_def by (intro mle_rules or_mle) auto
qed (simp add: mle_pfuel)

section \<open>Statements and declarations\<close>

lemma sync_statement_mle: "n \<le> n' \<Longrightarrow> mle (cn_parser_sync_statement n) (cn_parser_sync_statement n')"
proof (induction n arbitrary: n')
  case (Suc n)
  then obtain k where k: "n' = Suc k" "n \<le> k" by (cases n') auto
  with Suc.IH [of k] show ?case unfolding k cn_parser_sync_statement.simps by (intro mle_rules)
qed (simp add: mle_pfuel)

lemma sync_top_level_mle: "n \<le> n' \<Longrightarrow> mle (cn_parser_sync_top_level n) (cn_parser_sync_top_level n')"
proof (induction n arbitrary: n')
  case (Suc n)
  then obtain k where k: "n' = Suc k" "n \<le> k" by (cases n') auto
  with Suc.IH [of k] show ?case unfolding k cn_parser_sync_top_level.simps by (intro mle_rules)
qed (simp add: mle_pfuel)

lemma if_statement_mle:
  assumes pe: "mle pe pe'" and pb: "mle pb pb'"
  shows "n \<le> n' \<Longrightarrow> mle (cn_parse_if_statement n pe pb tok) (cn_parse_if_statement n' pe' pb' tok)"
proof (induction n arbitrary: n' tok)
  case (Suc n)
  then obtain k where k: "n' = Suc k" "n \<le> k" by (cases n') auto
  with Suc.IH [of k] show ?case
    unfolding k cn_parse_if_statement.simps by (intro mle_rules pe pb) auto
qed (simp add: mle_pfuel)

lemmas statement_defs = cn_parse_statement_def cn_parse_let_statement_def cn_parse_return_statement_def
  cn_parse_zone_statement_def cn_parse_try_statement_def cn_parse_free_statement_def
  cn_parse_defer_statement_def cn_parse_while_statement_def cn_parse_loop_statement_def
  cn_parse_for_statement_def cn_parse_assignment_or_expr_statement_def

lemma statement_mle: "mle pb pb' \<Longrightarrow> n \<le> n' \<Longrightarrow> mle (cn_parse_statement n pb) (cn_parse_statement n' pb')"
  unfolding statement_defs
  by (intro mle_rules expression_mle cn_parse_type_mle if_statement_mle)

lemma block_loop_mle:
  assumes st: "mle st st'"
  shows "n \<le> n' \<Longrightarrow> mle (block_loop n st acc) (block_loop n' st' acc)"
proof (induction n arbitrary: n' acc)
  case (Suc n)
  then obtain k where k: "n' = Suc k" "n \<le> k" by (cases n') auto
  with Suc.IH [of k] Suc.prems show ?case
    unfolding k block_loop.simps by (intro mle_rules st sync_statement_mle) auto
qed (simp add: mle_pfuel)

lemma block_mle: "n \<le> n' \<Longrightarrow> mle (cn_parse_block n) (cn_parse_block n')"
proof (induction n arbitrary: n')
  case (Suc n)
  then obtain k where k: "n' = Suc k" "n \<le> k" by (cases n') auto
  with Suc.IH [of k] show ?case
    unfolding k cn_parse_block.simps by (intro mle_rules block_loop_mle statement_mle) auto
qed (simp add: mle_pfuel)

lemma import_path_loop_mle: "n \<le> n' \<Longrightarrow> mle (import_path_loop n md al) (import_path_loop n' md al)"
proof (induction n arbitrary: n' md al)
  case (Suc n)
  then obtain k where k: "n' = Suc k" "n \<le> k" by (cases n') auto
  with Suc.IH [of k] show ?case unfolding k import_path_loop.simps by (intro mle_rules) auto
qed (simp add: mle_pfuel)

lemma struct_fields_loop_mle:
  assumes pt: "mle pt pt'"
  shows "n \<le> n' \<Longrightarrow> mle (struct_fields_loop n pt acc) (struct_fields_loop n' pt' acc)"
proof (induction n arbitrary: n' acc)
  case (Suc n)
  then obtain k where k: "n' = Suc k" "n \<le> k" by (cases n') auto
  with Suc.IH [of k] show ?case unfolding k struct_fields_loop.simps by (intro mle_rules pt) auto
qed (simp add: mle_pfuel)

lemma params_loop_mle:
  assumes pt: "mle pt pt'"
  shows "n \<le> n' \<Longrightarrow> mle (params_loop n pt acc) (params_loop n' pt' acc)"
proof (induction n arbitrary: n' acc)
  case (Suc n)
  then obtain k where k: "n' = Suc k" "n \<le> k" by (cases n') auto
  with Suc.IH [of k] show ?case unfolding k params_loop.simps Let_def by (intro mle_rules pt) auto
qed (simp add: mle_pfuel)

lemma program_turn_mle: "n \<le> n' \<Longrightarrow> mle (program_turn n prog) (program_turn n' prog)"
  unfolding program_turn_def decl_turn_def cn_parse_import_decl_def cn_parser_parse_import_path_def
    cn_parse_const_decl_def cn_parse_struct_decl_def cn_parse_function_def
  by (intro mle_rules sync_top_level_mle import_path_loop_mle cn_parse_type_mle expression_mle
      struct_fields_loop_mle params_loop_mle block_mle)

lemma program_loop_mle: "n \<le> n' \<Longrightarrow> mle (program_loop n prog) (program_loop n' prog)"
proof (induction n arbitrary: n' prog)
  case (Suc n)
  then obtain k where k: "n' = Suc k" "n \<le> k" by (cases n') auto
  with Suc.IH [of k] Suc.prems show ?case
    unfolding k program_loop.simps by (intro mle_rules program_turn_mle) auto
qed (simp add: mle_pfuel)



end
