(* ===== verification/Ir.thy ===== *)
theory Ir
  imports Ast Source
begin

text \<open>
  The intermediate representation, \<open>include/cnegative/ir.h\<close> and the constructors and type
  helpers of \<open>src/ir/ir.c\<close>. As in the syntax tree, a tagged union is a datatype with a
  constructor per tag, a pointer that may be null is an option, and a child list is the list
  of its items (every push of \<open>ir.c\<close> is \<^const>\<open>cn_list_push\<close>). The first arguments of an
  expression are its \<open>type\<close> and \<open>offset\<close>, the first argument of a statement is its offset.
\<close>

section \<open>Types\<close>

datatype cn_ir_type_kind =
    CN_IR_TYPE_INT
  | CN_IR_TYPE_U8
  | CN_IR_TYPE_BOOL
  | CN_IR_TYPE_STR
  | CN_IR_TYPE_VOID
  | CN_IR_TYPE_NULL
  | CN_IR_TYPE_RESULT
  | CN_IR_TYPE_PTR
  | CN_IR_TYPE_SLICE
  | CN_IR_TYPE_ARRAY
  | CN_IR_TYPE_NAMED
  | CN_IR_TYPE_UNKNOWN

text \<open>\<open>IrType kind module_name name inner array_size\<close>\<close>

datatype cn_ir_type =
    IrType (ir_kind: cn_ir_type_kind) (ir_module: string) (ir_name: string)
      (ir_inner: "cn_ir_type option") (ir_array_size: nat)

definition cn_ir_type_kind_from_ast :: "cn_type_kind \<Rightarrow> cn_ir_type_kind" where
  "cn_ir_type_kind_from_ast k =
     (case k of
        CN_TYPE_INT \<Rightarrow> CN_IR_TYPE_INT
      | CN_TYPE_U8 \<Rightarrow> CN_IR_TYPE_U8
      | CN_TYPE_BOOL \<Rightarrow> CN_IR_TYPE_BOOL
      | CN_TYPE_STR \<Rightarrow> CN_IR_TYPE_STR
      | CN_TYPE_VOID \<Rightarrow> CN_IR_TYPE_VOID
      | CN_TYPE_NULL \<Rightarrow> CN_IR_TYPE_NULL
      | CN_TYPE_RESULT \<Rightarrow> CN_IR_TYPE_RESULT
      | CN_TYPE_PTR \<Rightarrow> CN_IR_TYPE_PTR
      | CN_TYPE_SLICE \<Rightarrow> CN_IR_TYPE_SLICE
      | CN_TYPE_ARRAY \<Rightarrow> CN_IR_TYPE_ARRAY
      | CN_TYPE_NAMED \<Rightarrow> CN_IR_TYPE_NAMED
      | CN_TYPE_UNKNOWN \<Rightarrow> CN_IR_TYPE_UNKNOWN)"

definition cn_ir_type_create ::
  "cn_ir_type_kind \<Rightarrow> string \<Rightarrow> string \<Rightarrow> cn_ir_type option \<Rightarrow> nat \<Rightarrow> cn_ir_type" where
  "cn_ir_type_create k md n inner sz = IrType k md n inner sz"

function cn_ir_type_clone :: "cn_ir_type option \<Rightarrow> cn_ir_type option" where
  "cn_ir_type_clone None = None"
| "cn_ir_type_clone (Some t) =
     Some (cn_ir_type_create (ir_kind t) (ir_module t) (ir_name t) (cn_ir_type_clone (ir_inner t)) (ir_array_size t))"
  by pat_completeness auto
termination
proof (relation "measure (size_option size)", goal_cases)
  case (2 t)
  then show ?case by (cases t) auto
qed simp

function cn_ir_type_from_ast :: "cn_type_ref option \<Rightarrow> cn_ir_type option" where
  "cn_ir_type_from_ast None = None"
| "cn_ir_type_from_ast (Some t) =
     Some (cn_ir_type_create (cn_ir_type_kind_from_ast (type_kind t)) (type_module t) (type_name t)
       (cn_ir_type_from_ast (type_inner t)) (array_size t))"
  by pat_completeness auto
termination
proof (relation "measure (size_option size)", goal_cases)
  case (2 t)
  then show ?case by (cases t) auto
qed simp

function cn_ir_type_describe :: "cn_ir_type option \<Rightarrow> nat \<Rightarrow> string" where
  "cn_ir_type_describe None n = c_snprintf n ''<null>''"
| "cn_ir_type_describe (Some t) n =
     (case ir_kind t of
        CN_IR_TYPE_INT \<Rightarrow> c_snprintf n ''int''
      | CN_IR_TYPE_U8 \<Rightarrow> c_snprintf n ''u8''
      | CN_IR_TYPE_BOOL \<Rightarrow> c_snprintf n ''bool''
      | CN_IR_TYPE_STR \<Rightarrow> c_snprintf n ''str''
      | CN_IR_TYPE_VOID \<Rightarrow> c_snprintf n ''void''
      | CN_IR_TYPE_NULL \<Rightarrow> c_snprintf n ''null''
      | CN_IR_TYPE_RESULT \<Rightarrow> c_snprintf n (''result '' @ cn_ir_type_describe (ir_inner t) 128)
      | CN_IR_TYPE_PTR \<Rightarrow> c_snprintf n (''ptr '' @ cn_ir_type_describe (ir_inner t) 128)
      | CN_IR_TYPE_SLICE \<Rightarrow> c_snprintf n (''slice '' @ cn_ir_type_describe (ir_inner t) 128)
      | CN_IR_TYPE_ARRAY \<Rightarrow>
          c_snprintf n (cn_ir_type_describe (ir_inner t) 128 @ ''['' @ nat_digits (ir_array_size t) @ '']'')
      | CN_IR_TYPE_NAMED \<Rightarrow>
          if 0 < length (ir_module t) then c_snprintf n (ir_module t @ ''.'' @ ir_name t)
          else c_snprintf n (ir_name t)
      | CN_IR_TYPE_UNKNOWN \<Rightarrow> c_snprintf n ''<unknown>'')"
  by pat_completeness auto
termination
proof (relation "measure (\<lambda>(t, n). size_option size t)", goal_cases)
  case (2 t n)
  then show ?case by (cases t) auto
next
  case (3 t n)
  then show ?case by (cases t) auto
next
  case (4 t n)
  then show ?case by (cases t) auto
next
  case (5 t n)
  then show ?case by (cases t) auto
qed simp

section \<open>Expressions and statements\<close>

datatype cn_ir_unary_op = CN_IR_UNARY_NEGATE | CN_IR_UNARY_NOT

datatype cn_ir_binary_op =
    CN_IR_BINARY_ADD
  | CN_IR_BINARY_SUB
  | CN_IR_BINARY_MUL
  | CN_IR_BINARY_DIV
  | CN_IR_BINARY_MOD
  | CN_IR_BINARY_EQUAL
  | CN_IR_BINARY_NOT_EQUAL
  | CN_IR_BINARY_LESS
  | CN_IR_BINARY_LESS_EQUAL
  | CN_IR_BINARY_GREATER
  | CN_IR_BINARY_GREATER_EQUAL
  | CN_IR_BINARY_AND
  | CN_IR_BINARY_OR

datatype cn_ir_call_target_kind = CN_IR_CALL_BUILTIN | CN_IR_CALL_LOCAL | CN_IR_CALL_MODULE

datatype cn_ir_expr =
    CN_IR_EXPR_INT (expr_type: "cn_ir_type option") nat int64
  | CN_IR_EXPR_BOOL (expr_type: "cn_ir_type option") nat bool
  | CN_IR_EXPR_STRING (expr_type: "cn_ir_type option") nat string
  | CN_IR_EXPR_NULL (expr_type: "cn_ir_type option") nat
  | CN_IR_EXPR_LOCAL (expr_type: "cn_ir_type option") nat string
  | CN_IR_EXPR_UNARY (expr_type: "cn_ir_type option") nat cn_ir_unary_op cn_ir_expr
  | CN_IR_EXPR_BINARY (expr_type: "cn_ir_type option") nat cn_ir_binary_op cn_ir_expr cn_ir_expr
  | CN_IR_EXPR_IF (expr_type: "cn_ir_type option") nat cn_ir_expr cn_ir_expr cn_ir_expr
  | CN_IR_EXPR_CALL (expr_type: "cn_ir_type option") nat cn_ir_call_target_kind string string "cn_ir_expr list"
  | CN_IR_EXPR_ARRAY_LITERAL (expr_type: "cn_ir_type option") nat "cn_ir_expr list"
  | CN_IR_EXPR_SLICE_FROM_ARRAY (expr_type: "cn_ir_type option") nat cn_ir_expr
  | CN_IR_EXPR_INDEX (expr_type: "cn_ir_type option") nat cn_ir_expr cn_ir_expr
  | CN_IR_EXPR_SLICE_VIEW (expr_type: "cn_ir_type option") nat cn_ir_expr "cn_ir_expr option" "cn_ir_expr option"
  | CN_IR_EXPR_FIELD (expr_type: "cn_ir_type option") nat cn_ir_expr string
  | CN_IR_EXPR_STRUCT_LITERAL (expr_type: "cn_ir_type option") nat string string "(string \<times> cn_ir_expr) list"
  | CN_IR_EXPR_OK (expr_type: "cn_ir_type option") nat cn_ir_expr
  | CN_IR_EXPR_ERR (expr_type: "cn_ir_type option") nat
  | CN_IR_EXPR_ALLOC (expr_type: "cn_ir_type option") nat cn_ir_type
  | CN_IR_EXPR_ZALLOC (expr_type: "cn_ir_type option") nat cn_ir_type string
  | CN_IR_EXPR_ADDR (expr_type: "cn_ir_type option") nat cn_ir_expr
  | CN_IR_EXPR_DEREF (expr_type: "cn_ir_type option") nat cn_ir_expr

datatype cn_ir_stmt =
    CN_IR_STMT_LET nat string bool cn_ir_type cn_ir_expr
  | CN_IR_STMT_ASSIGN nat cn_ir_expr cn_ir_expr
  | CN_IR_STMT_RETURN nat "cn_ir_expr option"
  | CN_IR_STMT_EXPR nat cn_ir_expr
  | CN_IR_STMT_ZONE nat string cn_ir_block
  | CN_IR_STMT_IF nat cn_ir_expr cn_ir_block "cn_ir_block option"
  | CN_IR_STMT_WHILE nat cn_ir_expr cn_ir_block
  | CN_IR_STMT_LOOP nat cn_ir_block
  | CN_IR_STMT_FOR nat string cn_ir_type cn_ir_expr cn_ir_expr cn_ir_block
  | CN_IR_STMT_FREE nat cn_ir_expr
and cn_ir_block =
    IrBlock (ir_statements: "cn_ir_stmt list") (ir_block_offset: nat)

section \<open>Declarations\<close>

record cn_ir_param =
  irp_name :: string
  irp_type :: cn_ir_type
  irp_offset :: nat

record cn_ir_struct_field =
  irsf_name :: string
  irsf_type :: cn_ir_type
  irsf_offset :: nat

record cn_ir_const =
  irc_is_public :: bool
  irc_module_name :: string
  irc_name :: string
  irc_type :: "cn_ir_type option"
  irc_initializer :: "cn_ir_expr option"
  irc_offset :: nat

record cn_ir_struct =
  irs_is_public :: bool
  irs_module_name :: string
  irs_name :: string
  irs_fields :: "cn_ir_struct_field list"
  irs_offset :: nat

record cn_ir_function =
  irf_is_public :: bool
  irf_module_name :: string
  irf_name :: string
  irf_return_type :: "cn_ir_type option"
  irf_parameters :: "cn_ir_param list"
  irf_body :: "cn_ir_block option"
  irf_owned_names :: "string list"
  irf_offset :: nat

record cn_ir_module =
  irm_name :: string
  irm_path :: string
  irm_source :: "cn_source option"
  irm_consts :: "cn_ir_const list"
  irm_structs :: "cn_ir_struct list"
  irm_functions :: "cn_ir_function list"

record cn_ir_program =
  ir_modules :: "cn_ir_module list"

definition cn_ir_program_create :: cn_ir_program where
  "cn_ir_program_create = \<lparr>ir_modules = []\<rparr>"

definition cn_ir_module_create :: "string \<Rightarrow> string \<Rightarrow> cn_source option \<Rightarrow> cn_ir_module" where
  "cn_ir_module_create n p src = \<lparr>irm_name = n, irm_path = p, irm_source = src,
     irm_consts = [], irm_structs = [], irm_functions = []\<rparr>"

definition cn_ir_const_create :: "string \<Rightarrow> string \<Rightarrow> bool \<Rightarrow> nat \<Rightarrow> cn_ir_const" where
  "cn_ir_const_create md n is_public off = \<lparr>irc_is_public = is_public, irc_module_name = md, irc_name = n,
     irc_type = None, irc_initializer = None, irc_offset = off\<rparr>"

definition cn_ir_struct_create :: "string \<Rightarrow> string \<Rightarrow> bool \<Rightarrow> nat \<Rightarrow> cn_ir_struct" where
  "cn_ir_struct_create md n is_public off = \<lparr>irs_is_public = is_public, irs_module_name = md, irs_name = n,
     irs_fields = [], irs_offset = off\<rparr>"

definition cn_ir_function_create :: "string \<Rightarrow> string \<Rightarrow> bool \<Rightarrow> nat \<Rightarrow> cn_ir_function" where
  "cn_ir_function_create md n is_public off = \<lparr>irf_is_public = is_public, irf_module_name = md, irf_name = n,
     irf_return_type = None, irf_parameters = [], irf_body = None, irf_owned_names = [], irf_offset = off\<rparr>"

definition cn_ir_block_create :: "nat \<Rightarrow> cn_ir_block" where
  "cn_ir_block_create off = IrBlock [] off"

definition cn_ir_program_push_module :: "cn_ir_program \<Rightarrow> cn_ir_module \<Rightarrow> cn_ir_program" where
  "cn_ir_program_push_module prog m = prog\<lparr>ir_modules := ir_modules prog @ [m]\<rparr>"

definition cn_ir_module_push_const :: "cn_ir_module \<Rightarrow> cn_ir_const \<Rightarrow> cn_ir_module" where
  "cn_ir_module_push_const m c = m\<lparr>irm_consts := irm_consts m @ [c]\<rparr>"

definition cn_ir_module_push_struct :: "cn_ir_module \<Rightarrow> cn_ir_struct \<Rightarrow> cn_ir_module" where
  "cn_ir_module_push_struct m c = m\<lparr>irm_structs := irm_structs m @ [c]\<rparr>"

definition cn_ir_module_push_function :: "cn_ir_module \<Rightarrow> cn_ir_function \<Rightarrow> cn_ir_module" where
  "cn_ir_module_push_function m f = m\<lparr>irm_functions := irm_functions m @ [f]\<rparr>"

section \<open>Properties\<close>

lemma cn_ir_type_clone_id: "cn_ir_type_clone t = t"
  by (induction t rule: cn_ir_type_clone.induct) (simp_all add: cn_ir_type_create_def)

lemma describe_from_ast: "cn_ir_type_describe (cn_ir_type_from_ast t) n = cn_type_describe t n"
proof (induction t n rule: cn_type_describe.induct)
  case (2 t n)
  show ?case
    by (cases "type_kind t")
      (simp_all add: "2.IH" cn_ir_type_kind_from_ast_def cn_ir_type_create_def)
qed simp

text \<open>
  Types survive the way into the intermediate representation: a type converted by
  \<open>cn_ir_type_from_ast\<close> and copied by \<open>cn_ir_type_clone\<close> is described, in a buffer of any size, by
  the same text as the type of the syntax tree, so the messages and the dumps of the two
  passes agree; and the copy equals its original.
\<close>

theorem ir_type_keeps_description:
  "cn_ir_type_describe (cn_ir_type_clone (cn_ir_type_from_ast t)) n = cn_type_describe t n
   \<and> cn_ir_type_clone u = u"
  by (simp add: cn_ir_type_clone_id describe_from_ast)

end
