(* ===== verification/Ir_Semantics.thy ===== *)
theory Ir_Semantics
  imports Ir "HOL-Library.Monad_Syntax"
begin

text \<open>
  The meaning of the intermediate representation, as the code generator \<open>src/backend/llvm_text.c\<close>
  gives it: the specification against which the optimiser is verified. Integers are 64-bit
  words; \<open>add\<close>, \<open>sub\<close>, \<open>mul\<close> wrap around, \<open>sdiv\<close> and \<open>srem\<close> are undefined on a zero divisor
  and on overflow, comparisons are unsigned at type \<open>u8\<close> and signed otherwise, \<open>and\<close> and \<open>or\<close>
  are short-circuit, strings are compared by \<open>strcmp\<close>. What the optimiser does not look into
  (memory, calls, locals, aggregates, input and output) is a machine, a record of arbitrary
  functions on an arbitrary state, so the theorems hold for each of them.

  \<open>ir_eval\<close> answers \<^term>\<open>None\<close> where the generated code is undefined. Loops are bounded by
  fuel; a run that needs more is \<open>OutOfFuel\<close>.
\<close>

section \<open>Machines\<close>

datatype 'a ir_value = VInt int64 | VBool bool | VStr string | VOther 'a

datatype ir_prim =
    PNull "cn_ir_type option"
  | PLocal string
  | PCall cn_ir_call_target_kind string string
  | PArray "cn_ir_type option"
  | PSliceFromArray "cn_ir_type option"
  | PIndex
  | PSliceView bool bool
  | PField string
  | PStruct string string "string list"
  | POk "cn_ir_type option"
  | PErr "cn_ir_type option"
  | PAlloc cn_ir_type
  | PZalloc cn_ir_type string
  | PDeref "cn_ir_type option"

record ('a, 's, 'p) ir_machine =
  mach_prim :: "ir_prim \<Rightarrow> 'a ir_value list \<Rightarrow> 's \<Rightarrow> ('a ir_value \<times> 's) option"
  mach_equal :: "'a \<Rightarrow> 'a \<Rightarrow> 's \<Rightarrow> bool option"
  mach_local_place :: "string \<Rightarrow> 's \<Rightarrow> 'p option"
  mach_ptr_field :: "string \<Rightarrow> 'a ir_value \<Rightarrow> 's \<Rightarrow> 'p option"
  mach_field_place :: "string \<Rightarrow> 'p \<Rightarrow> 's \<Rightarrow> 'p option"
  mach_slice_item :: "'a ir_value \<Rightarrow> 'a ir_value \<Rightarrow> 's \<Rightarrow> 'p option"
  mach_item_place :: "'a ir_value \<Rightarrow> 'p \<Rightarrow> 's \<Rightarrow> 'p option"
  mach_deref_place :: "'a ir_value \<Rightarrow> 's \<Rightarrow> 'p option"
  mach_addr :: "'p \<Rightarrow> 'a ir_value"
  mach_store :: "'p \<Rightarrow> 'a ir_value \<Rightarrow> 's \<Rightarrow> 's option"
  mach_let :: "string \<Rightarrow> cn_ir_type \<Rightarrow> 'a ir_value \<Rightarrow> 's \<Rightarrow> 's option"
  mach_zone :: "string \<Rightarrow> 's \<Rightarrow> 's option"
  mach_for_enter :: "string \<Rightarrow> cn_ir_type \<Rightarrow> 'a ir_value \<Rightarrow> 'a ir_value \<Rightarrow> 's \<Rightarrow> 's option"
  mach_for_test :: "string \<Rightarrow> 's \<Rightarrow> bool option"
  mach_for_step :: "string \<Rightarrow> 's \<Rightarrow> 's option"
  mach_free :: "'a ir_value \<Rightarrow> 's \<Rightarrow> 's option"

section \<open>Operators\<close>

definition ty_kind :: "cn_ir_type option \<Rightarrow> cn_ir_type_kind option" where
  "ty_kind ty = map_option ir_kind ty"

definition expr_kind :: "cn_ir_expr \<Rightarrow> cn_ir_type_kind option" where
  "expr_kind e = ty_kind (expr_type e)"

definition ir_unop :: "cn_ir_unary_op \<Rightarrow> 'a ir_value \<Rightarrow> 'a ir_value option" where
  "ir_unop uop v =
     (case (uop, v) of
        (CN_IR_UNARY_NEGATE, VInt a) \<Rightarrow> Some (VInt (0 - a))
      | (CN_IR_UNARY_NOT, VBool b) \<Rightarrow> Some (VBool (\<not> b))
      | _ \<Rightarrow> None)"

text \<open>\<open>sdiv\<close> and \<open>srem\<close> of the generated code.\<close>

definition llvm_sdiv :: "int64 \<Rightarrow> int64 \<Rightarrow> int64 option" where
  "llvm_sdiv a b =
     (if b = 0 \<or> \<not> int64_range (c_quot (sint a) (sint b)) then None
      else Some (word_of_int (c_quot (sint a) (sint b))))"

definition llvm_srem :: "int64 \<Rightarrow> int64 \<Rightarrow> int64 option" where
  "llvm_srem a b =
     (if b = 0 \<or> \<not> int64_range (c_quot (sint a) (sint b)) then None
      else Some (word_of_int (c_rem (sint a) (sint b))))"

text \<open>An integer comparison at the type of the left operand.\<close>

definition icmp :: "cn_ir_type_kind option \<Rightarrow> (int \<Rightarrow> int \<Rightarrow> bool) \<Rightarrow> int64 \<Rightarrow> int64 \<Rightarrow> bool" where
  "icmp k rel a b =
     (if k = Some CN_IR_TYPE_U8 then rel (uint (take_bit 8 a)) (uint (take_bit 8 b)) else rel (sint a) (sint b))"

text \<open>The bytes \<open>strcmp\<close> sees.\<close>

definition c_bytes :: "string \<Rightarrow> string" where
  "c_bytes s = takeWhile (\<lambda>c. c \<noteq> c_nul) s"

definition ir_equal ::
  "('a, 's, 'p) ir_machine \<Rightarrow> cn_ir_type_kind option \<Rightarrow> 'a ir_value \<Rightarrow> 'a ir_value \<Rightarrow> 's \<Rightarrow> bool option" where
  "ir_equal M k v w s =
     (case (v, w) of
        (VInt a, VInt b) \<Rightarrow> Some (icmp k (=) a b)
      | (VBool a, VBool b) \<Rightarrow> Some (a = b)
      | (VStr a, VStr b) \<Rightarrow> Some (c_bytes a = c_bytes b)
      | (VOther a, VOther b) \<Rightarrow> mach_equal M a b s
      | _ \<Rightarrow> None)"

definition ir_arith :: "cn_ir_type_kind option \<Rightarrow> cn_ir_binary_op \<Rightarrow> int64 \<Rightarrow> int64 \<Rightarrow> 'a ir_value option" where
  "ir_arith k bop a b =
     (case bop of
        CN_IR_BINARY_ADD \<Rightarrow> Some (VInt (a + b))
      | CN_IR_BINARY_SUB \<Rightarrow> Some (VInt (a - b))
      | CN_IR_BINARY_MUL \<Rightarrow> Some (VInt (a * b))
      | CN_IR_BINARY_DIV \<Rightarrow> map_option VInt (llvm_sdiv a b)
      | CN_IR_BINARY_MOD \<Rightarrow> map_option VInt (llvm_srem a b)
      | CN_IR_BINARY_LESS \<Rightarrow> Some (VBool (icmp k (<) a b))
      | CN_IR_BINARY_LESS_EQUAL \<Rightarrow> Some (VBool (icmp k (\<le>) a b))
      | CN_IR_BINARY_GREATER \<Rightarrow> Some (VBool (icmp k (>) a b))
      | CN_IR_BINARY_GREATER_EQUAL \<Rightarrow> Some (VBool (icmp k (\<ge>) a b))
      | _ \<Rightarrow> None)"

definition ir_binop ::
  "('a, 's, 'p) ir_machine \<Rightarrow> cn_ir_type_kind option \<Rightarrow> cn_ir_binary_op \<Rightarrow>
   'a ir_value \<Rightarrow> 'a ir_value \<Rightarrow> 's \<Rightarrow> 'a ir_value option" where
  "ir_binop M k bop v w s =
     (if bop = CN_IR_BINARY_EQUAL then map_option VBool (ir_equal M k v w s)
      else if bop = CN_IR_BINARY_NOT_EQUAL then map_option (\<lambda>b. VBool (\<not> b)) (ir_equal M k v w s)
      else case (v, w) of (VInt a, VInt b) \<Rightarrow> ir_arith k bop a b | _ \<Rightarrow> None)"

definition val_branch :: "'a ir_value \<Rightarrow> 'b option \<Rightarrow> 'b option \<Rightarrow> 'b option" where
  "val_branch v a b = (case v of VBool True \<Rightarrow> a | VBool False \<Rightarrow> b | _ \<Rightarrow> None)"

section \<open>Expressions\<close>

text \<open>
  \<open>ir_eval\<close> gives the value of an expression and the new state, \<open>ir_place\<close> the address of a
  place; \<open>ir_evals\<close> evaluates a list from left to right.
\<close>

fun ir_eval :: "('a, 's, 'p) ir_machine \<Rightarrow> cn_ir_expr \<Rightarrow> 's \<Rightarrow> ('a ir_value \<times> 's) option"
and ir_evals :: "('a, 's, 'p) ir_machine \<Rightarrow> cn_ir_expr list \<Rightarrow> 's \<Rightarrow> ('a ir_value list \<times> 's) option"
and ir_eval_fields ::
  "('a, 's, 'p) ir_machine \<Rightarrow> (string \<times> cn_ir_expr) list \<Rightarrow> 's \<Rightarrow> ('a ir_value list \<times> 's) option"
and ir_eval_option :: "('a, 's, 'p) ir_machine \<Rightarrow> cn_ir_expr option \<Rightarrow> 's \<Rightarrow> ('a ir_value list \<times> 's) option"
and ir_place :: "('a, 's, 'p) ir_machine \<Rightarrow> cn_ir_expr \<Rightarrow> 's \<Rightarrow> ('p \<times> 's) option" where
  "ir_eval M (CN_IR_EXPR_INT ty off v) s = Some (VInt v, s)"
| "ir_eval M (CN_IR_EXPR_BOOL ty off b) s = Some (VBool b, s)"
| "ir_eval M (CN_IR_EXPR_STRING ty off x) s = Some (VStr x, s)"
| "ir_eval M (CN_IR_EXPR_NULL ty off) s = mach_prim M (PNull ty) [] s"
| "ir_eval M (CN_IR_EXPR_LOCAL ty off n) s = mach_prim M (PLocal n) [] s"
| "ir_eval M (CN_IR_EXPR_UNARY ty off uop e) s =
     do { (v, s1) \<leftarrow> ir_eval M e s; w \<leftarrow> ir_unop uop v; Some (w, s1) }"
| "ir_eval M (CN_IR_EXPR_BINARY ty off bop l r) s =
     (if bop = CN_IR_BINARY_AND then
        do { (v, s1) \<leftarrow> ir_eval M l s;
             val_branch v (ir_eval M r s1) (Some (VBool False, s1)) }
      else if bop = CN_IR_BINARY_OR then
        do { (v, s1) \<leftarrow> ir_eval M l s;
             val_branch v (Some (VBool True, s1)) (ir_eval M r s1) }
      else
        do { (v, s1) \<leftarrow> ir_eval M l s; (w, s2) \<leftarrow> ir_eval M r s1;
             x \<leftarrow> ir_binop M (expr_kind l) bop v w s2; Some (x, s2) })"
| "ir_eval M (CN_IR_EXPR_IF ty off c t e) s =
     do { (v, s1) \<leftarrow> ir_eval M c s;
          val_branch v (ir_eval M t s1) (ir_eval M e s1) }"
| "ir_eval M (CN_IR_EXPR_CALL ty off k md fn args) s =
     do { (vs, s1) \<leftarrow> ir_evals M args s; mach_prim M (PCall k md fn) vs s1 }"
| "ir_eval M (CN_IR_EXPR_ARRAY_LITERAL ty off xs) s =
     do { (vs, s1) \<leftarrow> ir_evals M xs s; mach_prim M (PArray ty) vs s1 }"
| "ir_eval M (CN_IR_EXPR_SLICE_FROM_ARRAY ty off b) s =
     do { (v, s1) \<leftarrow> ir_eval M b s; mach_prim M (PSliceFromArray ty) [v] s1 }"
| "ir_eval M (CN_IR_EXPR_INDEX ty off b i) s =
     do { (w, s1) \<leftarrow> ir_eval M i s; (v, s2) \<leftarrow> ir_eval M b s1; mach_prim M PIndex [v, w] s2 }"
| "ir_eval M (CN_IR_EXPR_SLICE_VIEW ty off b st en) s =
     do { (v, s1) \<leftarrow> ir_eval M b s; (vs, s2) \<leftarrow> ir_eval_option M st s1; (ws, s3) \<leftarrow> ir_eval_option M en s2;
          mach_prim M (PSliceView (st \<noteq> None) (en \<noteq> None)) (v # vs @ ws) s3 }"
| "ir_eval M (CN_IR_EXPR_FIELD ty off b f) s =
     do { (v, s1) \<leftarrow> ir_eval M b s; mach_prim M (PField f) [v] s1 }"
| "ir_eval M (CN_IR_EXPR_STRUCT_LITERAL ty off md n fs) s =
     do { (vs, s1) \<leftarrow> ir_eval_fields M fs s; mach_prim M (PStruct md n (map fst fs)) vs s1 }"
| "ir_eval M (CN_IR_EXPR_OK ty off e) s =
     do { (v, s1) \<leftarrow> ir_eval M e s; mach_prim M (POk ty) [v] s1 }"
| "ir_eval M (CN_IR_EXPR_ERR ty off) s = mach_prim M (PErr ty) [] s"
| "ir_eval M (CN_IR_EXPR_ALLOC ty off at) s = mach_prim M (PAlloc at) [] s"
| "ir_eval M (CN_IR_EXPR_ZALLOC ty off at z) s = mach_prim M (PZalloc at z) [] s"
| "ir_eval M (CN_IR_EXPR_ADDR ty off e) s =
     do { (p, s1) \<leftarrow> ir_place M e s; Some (mach_addr M p, s1) }"
| "ir_eval M (CN_IR_EXPR_DEREF ty off e) s =
     do { (v, s1) \<leftarrow> ir_eval M e s; mach_prim M (PDeref ty) [v] s1 }"
| "ir_evals M [] s = Some ([], s)"
| "ir_evals M (x # xs) s = do { (v, s1) \<leftarrow> ir_eval M x s; (vs, s2) \<leftarrow> ir_evals M xs s1; Some (v # vs, s2) }"
| "ir_eval_fields M [] s = Some ([], s)"
| "ir_eval_fields M ((f, x) # fs) s =
     do { (v, s1) \<leftarrow> ir_eval M x s; (vs, s2) \<leftarrow> ir_eval_fields M fs s1; Some (v # vs, s2) }"
| "ir_eval_option M None s = Some ([], s)"
| "ir_eval_option M (Some x) s = do { (v, s1) \<leftarrow> ir_eval M x s; Some ([v], s1) }"
| "ir_place M (CN_IR_EXPR_LOCAL ty off n) s = do { p \<leftarrow> mach_local_place M n s; Some (p, s) }"
| "ir_place M (CN_IR_EXPR_FIELD ty off b f) s =
     (if expr_kind b = Some CN_IR_TYPE_PTR
      then do { (v, s1) \<leftarrow> ir_eval M b s; p \<leftarrow> mach_ptr_field M f v s1; Some (p, s1) }
      else do { (q, s1) \<leftarrow> ir_place M b s; p \<leftarrow> mach_field_place M f q s1; Some (p, s1) })"
| "ir_place M (CN_IR_EXPR_INDEX ty off b i) s =
     do { (w, s1) \<leftarrow> ir_eval M i s;
          (if expr_kind b = Some CN_IR_TYPE_SLICE
           then do { (v, s2) \<leftarrow> ir_eval M b s1; p \<leftarrow> mach_slice_item M v w s2; Some (p, s2) }
           else do { (q, s2) \<leftarrow> ir_place M b s1; p \<leftarrow> mach_item_place M w q s2; Some (p, s2) }) }"
| "ir_place M (CN_IR_EXPR_DEREF ty off e) s =
     do { (v, s1) \<leftarrow> ir_eval M e s; p \<leftarrow> mach_deref_place M v s1; Some (p, s1) }"
| "ir_place M e s = None"

section \<open>Statements\<close>

datatype ('a, 's) ir_run =
    Next 's
  | Returned "'a ir_value option" 's
  | Stuck
  | OutOfFuel

definition run_eval ::
  "('a ir_value \<times> 's) option \<Rightarrow> ('a ir_value \<Rightarrow> 's \<Rightarrow> ('a, 's) ir_run) \<Rightarrow> ('a, 's) ir_run" where
  "run_eval r k = (case r of None \<Rightarrow> Stuck | Some (v, s) \<Rightarrow> k v s)"

definition run_next :: "'s option \<Rightarrow> ('a, 's) ir_run" where
  "run_next r = (case r of None \<Rightarrow> Stuck | Some s \<Rightarrow> Next s)"

definition run_then :: "('a, 's) ir_run \<Rightarrow> ('s \<Rightarrow> ('a, 's) ir_run) \<Rightarrow> ('a, 's) ir_run" where
  "run_then r k = (case r of Next s \<Rightarrow> k s | _ \<Rightarrow> r)"

definition run_branch :: "'a ir_value \<Rightarrow> ('a, 's) ir_run \<Rightarrow> ('a, 's) ir_run \<Rightarrow> ('a, 's) ir_run" where
  "run_branch v a b = (case v of VBool True \<Rightarrow> a | VBool False \<Rightarrow> b | _ \<Rightarrow> Stuck)"

text \<open>The loops, over the meaning of their condition and body; the first argument is fuel.\<close>

primrec run_while ::
  "nat \<Rightarrow> ('s \<Rightarrow> ('a ir_value \<times> 's) option) \<Rightarrow> ('s \<Rightarrow> ('a, 's) ir_run) \<Rightarrow> 's \<Rightarrow> ('a, 's) ir_run" where
  "run_while 0 c body s = OutOfFuel"
| "run_while (Suc n) c body s =
     run_eval (c s) (\<lambda>v s1. run_branch v (run_then (body s1) (run_while n c body)) (Next s1))"

primrec run_for ::
  "nat \<Rightarrow> ('a, 's, 'p) ir_machine \<Rightarrow> string \<Rightarrow> ('s \<Rightarrow> ('a, 's) ir_run) \<Rightarrow> 's \<Rightarrow> ('a, 's) ir_run" where
  "run_for 0 M name body s = OutOfFuel"
| "run_for (Suc n) M name body s =
     (case mach_for_test M name s of
        None \<Rightarrow> Stuck
      | Some False \<Rightarrow> Next s
      | Some True \<Rightarrow> run_then (body s) (\<lambda>s1. run_then (run_next (mach_for_step M name s1)) (run_for n M name body)))"

fun ir_exec :: "nat \<Rightarrow> ('a, 's, 'p) ir_machine \<Rightarrow> cn_ir_stmt \<Rightarrow> 's \<Rightarrow> ('a, 's) ir_run"
and ir_execs :: "nat \<Rightarrow> ('a, 's, 'p) ir_machine \<Rightarrow> cn_ir_stmt list \<Rightarrow> 's \<Rightarrow> ('a, 's) ir_run"
and ir_exec_block :: "nat \<Rightarrow> ('a, 's, 'p) ir_machine \<Rightarrow> cn_ir_block \<Rightarrow> 's \<Rightarrow> ('a, 's) ir_run" where
  "ir_exec n M (CN_IR_STMT_LET off name mut ty e) s =
     run_eval (ir_eval M e s) (\<lambda>v s1. run_next (mach_let M name ty v s1))"
| "ir_exec n M (CN_IR_STMT_ASSIGN off t e) s =
     (case ir_place M t s of
        None \<Rightarrow> Stuck
      | Some (p, s1) \<Rightarrow> run_eval (ir_eval M e s1) (\<lambda>v s2. run_next (mach_store M p v s2)))"
| "ir_exec n M (CN_IR_STMT_RETURN off None) s = Returned None s"
| "ir_exec n M (CN_IR_STMT_RETURN off (Some e)) s = run_eval (ir_eval M e s) (\<lambda>v s1. Returned (Some v) s1)"
| "ir_exec n M (CN_IR_STMT_EXPR off e) s = run_eval (ir_eval M e s) (\<lambda>v s1. Next s1)"
| "ir_exec n M (CN_IR_STMT_ZONE off z b) s = run_then (run_next (mach_zone M z s)) (ir_exec_block n M b)"
| "ir_exec n M (CN_IR_STMT_IF off c t None) s =
     run_eval (ir_eval M c s) (\<lambda>v s1. run_branch v (ir_exec_block n M t s1) (Next s1))"
| "ir_exec n M (CN_IR_STMT_IF off c t (Some e)) s =
     run_eval (ir_eval M c s) (\<lambda>v s1. run_branch v (ir_exec_block n M t s1) (ir_exec_block n M e s1))"
| "ir_exec n M (CN_IR_STMT_WHILE off c b) s = run_while n (ir_eval M c) (ir_exec_block n M b) s"
| "ir_exec n M (CN_IR_STMT_LOOP off b) s = run_while n (\<lambda>s. Some (VBool True, s)) (ir_exec_block n M b) s"
| "ir_exec n M (CN_IR_STMT_FOR off name ty st en b) s =
     run_eval (ir_eval M st s) (\<lambda>v s1. run_eval (ir_eval M en s1) (\<lambda>w s2.
       run_then (run_next (mach_for_enter M name ty v w s2)) (run_for n M name (ir_exec_block n M b))))"
| "ir_exec n M (CN_IR_STMT_FREE off e) s = run_eval (ir_eval M e s) (\<lambda>v s1. run_next (mach_free M v s1))"
| "ir_execs n M [] s = Next s"
| "ir_execs n M (x # xs) s = run_then (ir_exec n M x s) (ir_execs n M xs)"
| "ir_exec_block n M (IrBlock xs off) s = ir_execs n M xs s"

end
