(* ===== verification/Optimize.thy ===== *)
theory Optimize
  imports Ir_Semantics
begin

text \<open>
  The optimiser, \<open>src/ir/optimize.c\<close>: constant folding of expressions and removal of the
  statements after a \<open>return\<close>. It rewrites the tree in place; the model returns the new tree.
  Folding computes with C's signed integers, whose overflow is undefined: every function
  answers \<^term>\<open>None\<close> there. The \<open>destroy\<close> functions only release memory and have no
  counterpart.
\<close>

section \<open>Folding\<close>

text \<open>The tests \<open>cn_ir_expr_is_int\<close>, \<open>cn_ir_expr_is_bool\<close>, \<open>cn_ir_expr_is_string\<close>, with the value they guard.\<close>

definition int_constant :: "cn_ir_expr \<Rightarrow> int64 option" where
  "int_constant e = (case e of CN_IR_EXPR_INT _ _ v \<Rightarrow> Some v | _ \<Rightarrow> None)"

definition bool_constant :: "cn_ir_expr \<Rightarrow> bool option" where
  "bool_constant e = (case e of CN_IR_EXPR_BOOL _ _ b \<Rightarrow> Some b | _ \<Rightarrow> None)"

definition string_constant :: "cn_ir_expr \<Rightarrow> string option" where
  "string_constant e = (case e of CN_IR_EXPR_STRING _ _ x \<Rightarrow> Some x | _ \<Rightarrow> None)"

definition cn_ir_opt_fold_unary ::
  "cn_ir_type option \<Rightarrow> nat \<Rightarrow> cn_ir_unary_op \<Rightarrow> cn_ir_expr \<Rightarrow> cn_ir_expr option" where
  "cn_ir_opt_fold_unary ty off uop operand =
     (case (uop, int_constant operand, bool_constant operand) of
        (CN_IR_UNARY_NEGATE, Some v, _) \<Rightarrow> map_option (CN_IR_EXPR_INT ty off) (c_neg64 v)
      | (CN_IR_UNARY_NOT, _, Some b) \<Rightarrow> Some (CN_IR_EXPR_BOOL ty off (\<not> b))
      | _ \<Rightarrow> Some (CN_IR_EXPR_UNARY ty off uop operand))"

text \<open>
  The three switches of \<open>cn_ir_opt_fold_binary\<close>; \<open>same\<close> is the expression itself, where the
  code returns without a change.
\<close>

definition fold_int_binary ::
  "cn_ir_type option \<Rightarrow> nat \<Rightarrow> cn_ir_binary_op \<Rightarrow> int64 \<Rightarrow> int64 \<Rightarrow> cn_ir_expr \<Rightarrow> cn_ir_expr option" where
  "fold_int_binary ty off bop lhs rhs same =
     (let int = map_option (CN_IR_EXPR_INT ty off); bool = (\<lambda>b. Some (CN_IR_EXPR_BOOL ty off b)) in
      case bop of
        CN_IR_BINARY_ADD \<Rightarrow> int (c_add64 lhs rhs)
      | CN_IR_BINARY_SUB \<Rightarrow> int (c_sub64 lhs rhs)
      | CN_IR_BINARY_MUL \<Rightarrow> int (c_mul64 lhs rhs)
      | CN_IR_BINARY_DIV \<Rightarrow> if rhs \<noteq> 0 then int (c_div64 lhs rhs) else Some same
      | CN_IR_BINARY_MOD \<Rightarrow> if rhs \<noteq> 0 then int (c_mod64 lhs rhs) else Some same
      | CN_IR_BINARY_EQUAL \<Rightarrow> bool (lhs = rhs)
      | CN_IR_BINARY_NOT_EQUAL \<Rightarrow> bool (lhs \<noteq> rhs)
      | CN_IR_BINARY_LESS \<Rightarrow> bool (sint lhs < sint rhs)
      | CN_IR_BINARY_LESS_EQUAL \<Rightarrow> bool (sint lhs \<le> sint rhs)
      | CN_IR_BINARY_GREATER \<Rightarrow> bool (sint lhs > sint rhs)
      | CN_IR_BINARY_GREATER_EQUAL \<Rightarrow> bool (sint lhs \<ge> sint rhs)
      | CN_IR_BINARY_AND \<Rightarrow> Some same
      | CN_IR_BINARY_OR \<Rightarrow> Some same)"

definition fold_bool_binary ::
  "cn_ir_type option \<Rightarrow> nat \<Rightarrow> cn_ir_binary_op \<Rightarrow> bool \<Rightarrow> bool \<Rightarrow> cn_ir_expr \<Rightarrow> cn_ir_expr" where
  "fold_bool_binary ty off bop lhs rhs same =
     (case bop of
        CN_IR_BINARY_EQUAL \<Rightarrow> CN_IR_EXPR_BOOL ty off (lhs = rhs)
      | CN_IR_BINARY_NOT_EQUAL \<Rightarrow> CN_IR_EXPR_BOOL ty off (lhs \<noteq> rhs)
      | CN_IR_BINARY_AND \<Rightarrow> CN_IR_EXPR_BOOL ty off (lhs \<and> rhs)
      | CN_IR_BINARY_OR \<Rightarrow> CN_IR_EXPR_BOOL ty off (lhs \<or> rhs)
      | _ \<Rightarrow> same)"

definition fold_string_binary ::
  "cn_ir_type option \<Rightarrow> nat \<Rightarrow> cn_ir_binary_op \<Rightarrow> string \<Rightarrow> string \<Rightarrow> cn_ir_expr \<Rightarrow> cn_ir_expr" where
  "fold_string_binary ty off bop lhs rhs same =
     (let equal = (lhs = rhs) in
      if bop = CN_IR_BINARY_EQUAL then CN_IR_EXPR_BOOL ty off equal
      else if bop = CN_IR_BINARY_NOT_EQUAL then CN_IR_EXPR_BOOL ty off (\<not> equal)
      else same)"

definition cn_ir_opt_fold_binary ::
  "cn_ir_type option \<Rightarrow> nat \<Rightarrow> cn_ir_binary_op \<Rightarrow> cn_ir_expr \<Rightarrow> cn_ir_expr \<Rightarrow> cn_ir_expr option" where
  "cn_ir_opt_fold_binary ty off bop left right =
     (let same = CN_IR_EXPR_BINARY ty off bop left right in
      case (int_constant left, int_constant right) of
        (Some lhs, Some rhs) \<Rightarrow> fold_int_binary ty off bop lhs rhs same
      | _ \<Rightarrow>
          (case (bool_constant left, bool_constant right) of
             (Some lhs, Some rhs) \<Rightarrow> Some (fold_bool_binary ty off bop lhs rhs same)
           | _ \<Rightarrow>
               (case (string_constant left, string_constant right) of
                  (Some lhs, Some rhs) \<Rightarrow> Some (fold_string_binary ty off bop lhs rhs same)
                | _ \<Rightarrow> Some same)))"

definition cn_ir_opt_fold_if ::
  "cn_ir_type option \<Rightarrow> nat \<Rightarrow> cn_ir_expr \<Rightarrow> cn_ir_expr \<Rightarrow> cn_ir_expr \<Rightarrow> cn_ir_expr" where
  "cn_ir_opt_fold_if ty off condition then_expr else_expr =
     (case bool_constant condition of
        None \<Rightarrow> CN_IR_EXPR_IF ty off condition then_expr else_expr
      | Some b \<Rightarrow> if b then then_expr else else_expr)"

section \<open>Expressions, blocks, programs\<close>

fun cn_ir_optimize_expr :: "cn_ir_expr \<Rightarrow> cn_ir_expr option"
and optimize_exprs :: "cn_ir_expr list \<Rightarrow> cn_ir_expr list option"
and optimize_fields :: "(string \<times> cn_ir_expr) list \<Rightarrow> (string \<times> cn_ir_expr) list option"
and optimize_option :: "cn_ir_expr option \<Rightarrow> cn_ir_expr option option" where
  "cn_ir_optimize_expr (CN_IR_EXPR_UNARY ty off uop e) =
     do { e' \<leftarrow> cn_ir_optimize_expr e; cn_ir_opt_fold_unary ty off uop e' }"
| "cn_ir_optimize_expr (CN_IR_EXPR_BINARY ty off bop l r) =
     do { l' \<leftarrow> cn_ir_optimize_expr l; r' \<leftarrow> cn_ir_optimize_expr r; cn_ir_opt_fold_binary ty off bop l' r' }"
| "cn_ir_optimize_expr (CN_IR_EXPR_IF ty off c t e) =
     do { c' \<leftarrow> cn_ir_optimize_expr c; t' \<leftarrow> cn_ir_optimize_expr t; e' \<leftarrow> cn_ir_optimize_expr e;
          Some (cn_ir_opt_fold_if ty off c' t' e') }"
| "cn_ir_optimize_expr (CN_IR_EXPR_CALL ty off k md fn args) =
     do { args' \<leftarrow> optimize_exprs args; Some (CN_IR_EXPR_CALL ty off k md fn args') }"
| "cn_ir_optimize_expr (CN_IR_EXPR_ARRAY_LITERAL ty off xs) =
     do { xs' \<leftarrow> optimize_exprs xs; Some (CN_IR_EXPR_ARRAY_LITERAL ty off xs') }"
| "cn_ir_optimize_expr (CN_IR_EXPR_NULL ty off) = Some (CN_IR_EXPR_NULL ty off)"
| "cn_ir_optimize_expr (CN_IR_EXPR_SLICE_FROM_ARRAY ty off b) =
     do { b' \<leftarrow> cn_ir_optimize_expr b; Some (CN_IR_EXPR_SLICE_FROM_ARRAY ty off b') }"
| "cn_ir_optimize_expr (CN_IR_EXPR_INDEX ty off b i) =
     do { b' \<leftarrow> cn_ir_optimize_expr b; i' \<leftarrow> cn_ir_optimize_expr i; Some (CN_IR_EXPR_INDEX ty off b' i') }"
| "cn_ir_optimize_expr (CN_IR_EXPR_SLICE_VIEW ty off b st en) =
     do { b' \<leftarrow> cn_ir_optimize_expr b; st' \<leftarrow> optimize_option st; en' \<leftarrow> optimize_option en;
          Some (CN_IR_EXPR_SLICE_VIEW ty off b' st' en') }"
| "cn_ir_optimize_expr (CN_IR_EXPR_FIELD ty off b f) =
     do { b' \<leftarrow> cn_ir_optimize_expr b; Some (CN_IR_EXPR_FIELD ty off b' f) }"
| "cn_ir_optimize_expr (CN_IR_EXPR_STRUCT_LITERAL ty off md n fs) =
     do { fs' \<leftarrow> optimize_fields fs; Some (CN_IR_EXPR_STRUCT_LITERAL ty off md n fs') }"
| "cn_ir_optimize_expr (CN_IR_EXPR_OK ty off e) =
     do { e' \<leftarrow> cn_ir_optimize_expr e; Some (CN_IR_EXPR_OK ty off e') }"
| "cn_ir_optimize_expr (CN_IR_EXPR_ADDR ty off e) =
     do { e' \<leftarrow> cn_ir_optimize_expr e; Some (CN_IR_EXPR_ADDR ty off e') }"
| "cn_ir_optimize_expr (CN_IR_EXPR_DEREF ty off e) =
     do { e' \<leftarrow> cn_ir_optimize_expr e; Some (CN_IR_EXPR_DEREF ty off e') }"
| "cn_ir_optimize_expr (CN_IR_EXPR_INT ty off v) = Some (CN_IR_EXPR_INT ty off v)"
| "cn_ir_optimize_expr (CN_IR_EXPR_BOOL ty off b) = Some (CN_IR_EXPR_BOOL ty off b)"
| "cn_ir_optimize_expr (CN_IR_EXPR_STRING ty off x) = Some (CN_IR_EXPR_STRING ty off x)"
| "cn_ir_optimize_expr (CN_IR_EXPR_LOCAL ty off n) = Some (CN_IR_EXPR_LOCAL ty off n)"
| "cn_ir_optimize_expr (CN_IR_EXPR_ERR ty off) = Some (CN_IR_EXPR_ERR ty off)"
| "cn_ir_optimize_expr (CN_IR_EXPR_ALLOC ty off at) = Some (CN_IR_EXPR_ALLOC ty off at)"
| "cn_ir_optimize_expr (CN_IR_EXPR_ZALLOC ty off at z) = Some (CN_IR_EXPR_ZALLOC ty off at z)"
| "optimize_exprs [] = Some []"
| "optimize_exprs (x # xs) = do { x' \<leftarrow> cn_ir_optimize_expr x; xs' \<leftarrow> optimize_exprs xs; Some (x' # xs') }"
| "optimize_fields [] = Some []"
| "optimize_fields ((f, x) # fs) =
     do { x' \<leftarrow> cn_ir_optimize_expr x; fs' \<leftarrow> optimize_fields fs; Some ((f, x') # fs') }"
| "optimize_option None = Some None"
| "optimize_option (Some x) = do { x' \<leftarrow> cn_ir_optimize_expr x; Some (Some x') }"

fun is_return :: "cn_ir_stmt \<Rightarrow> bool" where
  "is_return (CN_IR_STMT_RETURN off e) = True"
| "is_return s = False"

fun optimize_stmt :: "cn_ir_stmt \<Rightarrow> cn_ir_stmt option"
and optimize_stmts :: "cn_ir_stmt list \<Rightarrow> cn_ir_stmt list option"
and cn_ir_optimize_block :: "cn_ir_block \<Rightarrow> cn_ir_block option" where
  "optimize_stmt (CN_IR_STMT_LET off name mut ty e) =
     do { e' \<leftarrow> cn_ir_optimize_expr e; Some (CN_IR_STMT_LET off name mut ty e') }"
| "optimize_stmt (CN_IR_STMT_ASSIGN off t e) =
     do { t' \<leftarrow> cn_ir_optimize_expr t; e' \<leftarrow> cn_ir_optimize_expr e; Some (CN_IR_STMT_ASSIGN off t' e') }"
| "optimize_stmt (CN_IR_STMT_RETURN off e) =
     do { e' \<leftarrow> optimize_option e; Some (CN_IR_STMT_RETURN off e') }"
| "optimize_stmt (CN_IR_STMT_EXPR off e) =
     do { e' \<leftarrow> cn_ir_optimize_expr e; Some (CN_IR_STMT_EXPR off e') }"
| "optimize_stmt (CN_IR_STMT_IF off c t None) =
     do { c' \<leftarrow> cn_ir_optimize_expr c; t' \<leftarrow> cn_ir_optimize_block t; Some (CN_IR_STMT_IF off c' t' None) }"
| "optimize_stmt (CN_IR_STMT_IF off c t (Some e)) =
     do { c' \<leftarrow> cn_ir_optimize_expr c; t' \<leftarrow> cn_ir_optimize_block t; e' \<leftarrow> cn_ir_optimize_block e;
          Some (CN_IR_STMT_IF off c' t' (Some e')) }"
| "optimize_stmt (CN_IR_STMT_WHILE off c b) =
     do { c' \<leftarrow> cn_ir_optimize_expr c; b' \<leftarrow> cn_ir_optimize_block b; Some (CN_IR_STMT_WHILE off c' b') }"
| "optimize_stmt (CN_IR_STMT_LOOP off b) =
     do { b' \<leftarrow> cn_ir_optimize_block b; Some (CN_IR_STMT_LOOP off b') }"
| "optimize_stmt (CN_IR_STMT_FOR off name ty st en b) =
     do { st' \<leftarrow> cn_ir_optimize_expr st; en' \<leftarrow> cn_ir_optimize_expr en; b' \<leftarrow> cn_ir_optimize_block b;
          Some (CN_IR_STMT_FOR off name ty st' en' b') }"
| "optimize_stmt (CN_IR_STMT_FREE off e) =
     do { e' \<leftarrow> cn_ir_optimize_expr e; Some (CN_IR_STMT_FREE off e') }"
| "optimize_stmt (CN_IR_STMT_ZONE off z b) =
     do { b' \<leftarrow> cn_ir_optimize_block b; Some (CN_IR_STMT_ZONE off z b') }"
| "optimize_stmts [] = Some []"
| "optimize_stmts (x # xs) =
     do { x' \<leftarrow> optimize_stmt x;
          (if is_return x' then Some [x'] else do { xs' \<leftarrow> optimize_stmts xs; Some (x' # xs') }) }"
| "cn_ir_optimize_block (IrBlock xs off) = do { xs' \<leftarrow> optimize_stmts xs; Some (IrBlock xs' off) }"

text \<open>\<open>cn_ir_optimize_program\<close> runs over the constants and the functions of every module.\<close>

fun map_opt :: "('a \<Rightarrow> 'b option) \<Rightarrow> 'a list \<Rightarrow> 'b list option" where
  "map_opt f [] = Some []"
| "map_opt f (x # xs) = do { y \<leftarrow> f x; ys \<leftarrow> map_opt f xs; Some (y # ys) }"

definition optimize_const :: "cn_ir_const \<Rightarrow> cn_ir_const option" where
  "optimize_const c = do { e \<leftarrow> optimize_option (irc_initializer c); Some (c\<lparr>irc_initializer := e\<rparr>) }"

definition optimize_function :: "cn_ir_function \<Rightarrow> cn_ir_function option" where
  "optimize_function f =
     (case irf_body f of
        None \<Rightarrow> None
      | Some b \<Rightarrow> do { b' \<leftarrow> cn_ir_optimize_block b; Some (f\<lparr>irf_body := Some b'\<rparr>) })"

definition optimize_module :: "cn_ir_module \<Rightarrow> cn_ir_module option" where
  "optimize_module m =
     do { cs \<leftarrow> map_opt optimize_const (irm_consts m); fs \<leftarrow> map_opt optimize_function (irm_functions m);
          Some (m\<lparr>irm_consts := cs, irm_functions := fs\<rparr>) }"

definition cn_ir_optimize_program :: "cn_ir_program \<Rightarrow> cn_ir_program option" where
  "cn_ir_optimize_program prog =
     do { ms \<leftarrow> map_opt optimize_module (ir_modules prog); Some (prog\<lparr>ir_modules := ms\<rparr>) }"

end
