(* ===== verification/Optimize_Normal.thy ===== *)
theory Optimize_Normal
  imports Optimize
begin

text \<open>
  The shape of optimised code: the optimiser is idempotent, so no constant operation is left,
  and no statement follows a \<open>return\<close>.
\<close>

section \<open>Normal forms\<close>

lemma fold_unary_idem:
  assumes "cn_ir_opt_fold_unary ty off uop x = Some e" and "cn_ir_optimize_expr x = Some x"
  shows "cn_ir_optimize_expr e = Some e"
  using assms by (auto simp: cn_ir_opt_fold_unary_def split: option.splits cn_ir_unary_op.splits)

lemma fold_binary_cases:
  assumes "cn_ir_opt_fold_binary ty off bop l r = Some e"
  shows "(\<exists>v. e = CN_IR_EXPR_INT ty off v) \<or> (\<exists>b. e = CN_IR_EXPR_BOOL ty off b)
    \<or> e = CN_IR_EXPR_BINARY ty off bop l r"
  using assms
  by (auto simp: cn_ir_opt_fold_binary_def Let_def fold_int_binary_def fold_bool_binary_def fold_string_binary_def
      split: option.splits cn_ir_binary_op.splits if_splits)

text \<open>Fixed points of the optimiser, and of its list and option forms.\<close>

definition opt_fixed :: "cn_ir_expr \<Rightarrow> bool" where
  "opt_fixed e \<longleftrightarrow> cn_ir_optimize_expr e = Some e"

definition opts_fixed :: "cn_ir_expr list \<Rightarrow> bool" where
  "opts_fixed xs \<longleftrightarrow> optimize_exprs xs = Some xs"

definition opt_fields_fixed :: "(string \<times> cn_ir_expr) list \<Rightarrow> bool" where
  "opt_fields_fixed fs \<longleftrightarrow> optimize_fields fs = Some fs"

definition opt_option_fixed :: "cn_ir_expr option \<Rightarrow> bool" where
  "opt_option_fixed x \<longleftrightarrow> optimize_option x = Some x"

lemmas fixed_defs = opt_fixed_def opts_fixed_def opt_fields_fixed_def opt_option_fixed_def

lemma fixed_leaf:
  "opt_fixed (CN_IR_EXPR_NULL ty off)"
  "opt_fixed (CN_IR_EXPR_INT ty off v)"
  "opt_fixed (CN_IR_EXPR_BOOL ty off c)"
  "opt_fixed (CN_IR_EXPR_STRING ty off s)"
  "opt_fixed (CN_IR_EXPR_LOCAL ty off s)"
  "opt_fixed (CN_IR_EXPR_ERR ty off)"
  "opt_fixed (CN_IR_EXPR_ALLOC ty off at)"
  "opt_fixed (CN_IR_EXPR_ZALLOC ty off at s)"
  "opts_fixed []"
  "opt_fields_fixed []"
  "opt_option_fixed None"
  by (simp_all add: fixed_defs bind_eq_Some_conv)

lemma fixed_node:
  "opt_fixed (CN_IR_EXPR_CALL ty off k md fn args) = opts_fixed args"
  "opt_fixed (CN_IR_EXPR_ARRAY_LITERAL ty off args) = opts_fixed args"
  "opt_fixed (CN_IR_EXPR_SLICE_FROM_ARRAY ty off b) = opt_fixed b"
  "opt_fixed (CN_IR_EXPR_INDEX ty off b i) = (opt_fixed b \<and> opt_fixed i)"
  "opt_fixed (CN_IR_EXPR_SLICE_VIEW ty off b st en) = (opt_fixed b \<and> opt_option_fixed st \<and> opt_option_fixed en)"
  by (simp_all add: fixed_defs bind_eq_Some_conv)

lemma fixed_node2:
  "opt_fixed (CN_IR_EXPR_FIELD ty off b f) = opt_fixed b"
  "opt_fixed (CN_IR_EXPR_STRUCT_LITERAL ty off md nm fs) = opt_fields_fixed fs"
  "opt_fixed (CN_IR_EXPR_OK ty off b) = opt_fixed b"
  "opt_fixed (CN_IR_EXPR_ADDR ty off b) = opt_fixed b"
  "opt_fixed (CN_IR_EXPR_DEREF ty off b) = opt_fixed b"
  by (simp_all add: fixed_defs bind_eq_Some_conv)

lemma fixed_list:
  "opts_fixed (b # bs) = (opt_fixed b \<and> opts_fixed bs)"
  "opt_fields_fixed ((s, b) # fs) = (opt_fixed b \<and> opt_fields_fixed fs)"
  "opt_option_fixed (Some b) = opt_fixed b"
  by (simp_all add: fixed_defs bind_eq_Some_conv)

lemmas fixed_simps = fixed_leaf fixed_node fixed_node2 fixed_list

lemma fixed_unary:
  assumes "cn_ir_opt_fold_unary ty off uop x = Some e" and "opt_fixed x"
  shows "opt_fixed e"
  using assms unfolding opt_fixed_def by (rule fold_unary_idem)

lemma fixed_binary:
  assumes "cn_ir_opt_fold_binary ty off bop l r = Some e" and "opt_fixed l" and "opt_fixed r"
  shows "opt_fixed e"
  using fold_binary_cases [OF assms(1)]
proof (elim disjE exE)
  assume "e = CN_IR_EXPR_BINARY ty off bop l r"
  with assms show ?thesis by (simp add: opt_fixed_def)
qed (simp_all add: fixed_leaf)

lemma fixed_if:
  "opt_fixed c \<Longrightarrow> opt_fixed t \<Longrightarrow> opt_fixed e \<Longrightarrow> opt_fixed (cn_ir_opt_fold_if ty off c t e)"
  by (cases "bool_constant c") (simp_all add: cn_ir_opt_fold_if_def opt_fixed_def)

lemma optimize_idem:
  shows "cn_ir_optimize_expr e = Some e' \<Longrightarrow> opt_fixed e'"
    and "optimize_exprs xs = Some xs' \<Longrightarrow> opts_fixed xs'"
    and "optimize_fields fs = Some fs' \<Longrightarrow> opt_fields_fixed fs'"
    and "optimize_option x = Some x' \<Longrightarrow> opt_option_fixed x'"
proof (induction e and xs and fs and x arbitrary: e' and xs' and fs' and x'
    rule: cn_ir_optimize_expr_optimize_exprs_optimize_fields_optimize_option.induct)
  case (1 ty off uop e)
  then show ?case by (auto simp: bind_eq_Some_conv intro: fixed_unary)
next
  case (2 ty off bop l r)
  then show ?case by (auto simp: bind_eq_Some_conv intro: fixed_binary)
next
  case (3 ty off c t e)
  then show ?case by (auto simp: bind_eq_Some_conv intro: fixed_if)
qed (auto simp: bind_eq_Some_conv fixed_simps)

definition stmt_fixed :: "cn_ir_stmt \<Rightarrow> bool" where
  "stmt_fixed x \<longleftrightarrow> optimize_stmt x = Some x"

definition stmts_fixed :: "cn_ir_stmt list \<Rightarrow> bool" where
  "stmts_fixed xs \<longleftrightarrow> optimize_stmts xs = Some xs"

definition block_fixed :: "cn_ir_block \<Rightarrow> bool" where
  "block_fixed b \<longleftrightarrow> cn_ir_optimize_block b = Some b"

lemma stmt_fixed_simps:
  "stmt_fixed (CN_IR_STMT_LET off name mut ty e) = opt_fixed e"
  "stmt_fixed (CN_IR_STMT_ASSIGN off t e) = (opt_fixed t \<and> opt_fixed e)"
  "stmt_fixed (CN_IR_STMT_RETURN off o') = opt_option_fixed o'"
  "stmt_fixed (CN_IR_STMT_EXPR off e) = opt_fixed e"
  "stmt_fixed (CN_IR_STMT_ZONE off z b) = block_fixed b"
  "stmt_fixed (CN_IR_STMT_IF off e b None) = (opt_fixed e \<and> block_fixed b)"
  "stmt_fixed (CN_IR_STMT_IF off e b (Some c)) = (opt_fixed e \<and> block_fixed b \<and> block_fixed c)"
  "stmt_fixed (CN_IR_STMT_WHILE off e b) = (opt_fixed e \<and> block_fixed b)"
  "stmt_fixed (CN_IR_STMT_LOOP off b) = block_fixed b"
  "stmt_fixed (CN_IR_STMT_FOR off name ty t e b) = (opt_fixed t \<and> opt_fixed e \<and> block_fixed b)"
  "stmt_fixed (CN_IR_STMT_FREE off e) = opt_fixed e"
  "stmts_fixed []"
  "stmts_fixed (x # xs) = (stmt_fixed x \<and> (if is_return x then xs = [] else stmts_fixed xs))"
  "block_fixed (IrBlock xs off) = stmts_fixed xs"
  by (auto simp: stmt_fixed_def stmts_fixed_def block_fixed_def opt_fixed_def opt_option_fixed_def bind_eq_Some_conv)

lemma optimize_block_idem:
  shows "optimize_stmt x = Some x' \<Longrightarrow> stmt_fixed x'"
    and "optimize_stmts xs = Some xs' \<Longrightarrow> stmts_fixed xs'"
    and "cn_ir_optimize_block b = Some b' \<Longrightarrow> block_fixed b'"
  by (induction x and xs and b arbitrary: x' and xs' and b'
      rule: optimize_stmt_optimize_stmts_cn_ir_optimize_block.induct)
    (auto simp: bind_eq_Some_conv stmt_fixed_simps optimize_idem split: if_splits)

text \<open>No statement follows a \<open>return\<close>, in any nested block.\<close>

fun stmt_trimmed :: "cn_ir_stmt \<Rightarrow> bool" and stmts_trimmed :: "cn_ir_stmt list \<Rightarrow> bool"
and block_trimmed :: "cn_ir_block \<Rightarrow> bool" where
  "stmt_trimmed (CN_IR_STMT_ZONE off z b) = block_trimmed b"
| "stmt_trimmed (CN_IR_STMT_IF off c t None) = block_trimmed t"
| "stmt_trimmed (CN_IR_STMT_IF off c t (Some e)) = (block_trimmed t \<and> block_trimmed e)"
| "stmt_trimmed (CN_IR_STMT_WHILE off c b) = block_trimmed b"
| "stmt_trimmed (CN_IR_STMT_LOOP off b) = block_trimmed b"
| "stmt_trimmed (CN_IR_STMT_FOR off name ty st en b) = block_trimmed b"
| "stmt_trimmed x = True"
| "stmts_trimmed [] = True"
| "stmts_trimmed (x # xs) = (stmt_trimmed x \<and> (is_return x \<longrightarrow> xs = []) \<and> stmts_trimmed xs)"
| "block_trimmed (IrBlock xs off) = stmts_trimmed xs"

lemma optimize_block_trims:
  shows "optimize_stmt x = Some x' \<Longrightarrow> stmt_trimmed x'"
    and "optimize_stmts xs = Some xs' \<Longrightarrow> stmts_trimmed xs'"
    and "cn_ir_optimize_block b = Some b' \<Longrightarrow> block_trimmed b'"
  by (induction x and xs and b arbitrary: x' and xs' and b' rule: optimize_stmt_optimize_stmts_cn_ir_optimize_block.induct)
    (auto simp: bind_eq_Some_conv split: if_splits)

end
