(* ===== verification/Optimizer.thy ===== *)
theory Optimizer
  imports Optimize_Correct Optimize_Normal
begin

text \<open>
  What \<open>src/ir/optimize.c\<close> guarantees, as properties of whole programs: types and meaning are
  preserved, the result is a fixed point without dead statements, and the inputs on which its
  folding runs into undefined behaviour of C are exactly the overflowing ones.
\<close>

section \<open>Lifting to programs\<close>

lemma map_opt_iff: "map_opt f xs = Some ys \<longleftrightarrow> list_all2 (\<lambda>x y. f x = Some y) xs ys"
  by (induction xs arbitrary: ys) (auto simp: bind_eq_Some_conv list_all2_Cons1)

lemma map_opt_fixed: "\<forall>y \<in> set ys. f y = Some y \<Longrightarrow> map_opt f ys = Some ys"
  by (simp add: map_opt_iff list_all2_same)

lemma map_opt_idem:
  assumes "map_opt f xs = Some ys" and "\<And>x y. f x = Some y \<Longrightarrow> f y = Some y"
  shows "map_opt f ys = Some ys"
proof (rule map_opt_fixed, rule ballI)
  fix y assume "y \<in> set ys"
  then obtain i where "i < length ys" "ys ! i = y" by (auto simp: in_set_conv_nth)
  with assms(1) have "f (xs ! i) = Some y" by (auto simp: map_opt_iff list_all2_conv_all_nth)
  with assms(2) show "f y = Some y" by blast
qed

lemma optimize_const_idem: "optimize_const c = Some d \<Longrightarrow> optimize_const d = Some d"
  using optimize_idem(4) by (auto simp: optimize_const_def bind_eq_Some_conv opt_option_fixed_def)

lemma optimize_function_idem: "optimize_function f = Some g \<Longrightarrow> optimize_function g = Some g"
  using optimize_block_idem(3)
  by (auto simp: optimize_function_def bind_eq_Some_conv block_fixed_def split: option.splits)

lemma optimize_module_idem:
  assumes "optimize_module m = Some m'"
  shows "optimize_module m' = Some m'"
proof -
  from assms obtain cs fs where cs: "map_opt optimize_const (irm_consts m) = Some cs"
      and fs: "map_opt optimize_function (irm_functions m) = Some fs" and m': "m' = m\<lparr>irm_consts := cs, irm_functions := fs\<rparr>"
    by (auto simp: optimize_module_def bind_eq_Some_conv)
  note map_opt_idem [OF cs optimize_const_idem] map_opt_idem [OF fs optimize_function_idem]
  with m' show ?thesis by (simp add: optimize_module_def)
qed

text \<open>The constants and functions of a well-typed program.\<close>

definition const_typed :: "cn_ir_const \<Rightarrow> bool" where
  "const_typed c \<longleftrightarrow> (\<forall>x \<in> set_option (irc_initializer c). ir_typed x)"

definition function_typed :: "cn_ir_function \<Rightarrow> bool" where
  "function_typed f \<longleftrightarrow> (\<forall>b \<in> set_option (irf_body f). block_typed b)"

definition module_typed :: "cn_ir_module \<Rightarrow> bool" where
  "module_typed m \<longleftrightarrow> list_all const_typed (irm_consts m) \<and> list_all function_typed (irm_functions m)"

definition program_typed :: "cn_ir_program \<Rightarrow> bool" where
  "program_typed prog \<longleftrightarrow> list_all module_typed (ir_modules prog)"

text \<open>
  Same meaning on the machine \<open>M\<close>: everything but code is equal, initialisers evaluate alike and
  bodies run alike, for every amount of fuel.
\<close>

definition const_refines :: "('a, 's, 'p) ir_machine \<Rightarrow> cn_ir_const \<Rightarrow> cn_ir_const \<Rightarrow> bool" where
  "const_refines M c d \<longleftrightarrow> d\<lparr>irc_initializer := None\<rparr> = c\<lparr>irc_initializer := None\<rparr>
     \<and> ir_eval_option M (irc_initializer d) = ir_eval_option M (irc_initializer c)"

definition function_refines :: "('a, 's, 'p) ir_machine \<Rightarrow> cn_ir_function \<Rightarrow> cn_ir_function \<Rightarrow> bool" where
  "function_refines M f g \<longleftrightarrow> g\<lparr>irf_body := None\<rparr> = f\<lparr>irf_body := None\<rparr>
     \<and> rel_option (\<lambda>b b'. \<forall>n. ir_exec_block n M b' = ir_exec_block n M b) (irf_body f) (irf_body g)"

definition module_refines :: "('a, 's, 'p) ir_machine \<Rightarrow> cn_ir_module \<Rightarrow> cn_ir_module \<Rightarrow> bool" where
  "module_refines M m m' \<longleftrightarrow>
     m'\<lparr>irm_consts := [], irm_functions := []\<rparr> = m\<lparr>irm_consts := [], irm_functions := []\<rparr>
     \<and> list_all2 (const_refines M) (irm_consts m) (irm_consts m')
     \<and> list_all2 (function_refines M) (irm_functions m) (irm_functions m')"

lemma optimize_const_refines: "optimize_const c = Some d \<Longrightarrow> const_typed c \<Longrightarrow> const_refines M c d"
  by (auto simp: optimize_const_def const_refines_def const_typed_def bind_eq_Some_conv
      dest: optimize_expr_ok(4) [where M = M])

lemma optimize_function_refines:
  assumes "optimize_function f = Some g" and "function_typed f"
  shows "function_refines M f g"
proof -
  from assms(1) obtain b b' where b: "irf_body f = Some b" "cn_ir_optimize_block b = Some b'" "g = f\<lparr>irf_body := Some b'\<rparr>"
    by (auto simp: optimize_function_def bind_eq_Some_conv split: option.splits)
  with assms(2) have "ir_exec_block n M b' = ir_exec_block n M b" for n
    by (intro optimize_block_exec(3)) (auto simp: function_typed_def)
  with b show ?thesis by (simp add: function_refines_def)
qed

lemma list_all2_from_map_opt:
  assumes "map_opt f xs = Some ys" and "list_all T xs" and "\<And>x y. f x = Some y \<Longrightarrow> T x \<Longrightarrow> R x y"
  shows "list_all2 R xs ys"
  using assms by (auto simp: map_opt_iff list_all2_conv_all_nth list_all_length)

lemma optimize_module_refines:
  assumes "optimize_module m = Some m'" and "module_typed m"
  shows "module_refines M m m'"
proof -
  from assms(1) obtain cs fs where "map_opt optimize_const (irm_consts m) = Some cs"
      and "map_opt optimize_function (irm_functions m) = Some fs" and m': "m' = m\<lparr>irm_consts := cs, irm_functions := fs\<rparr>"
    by (auto simp: optimize_module_def bind_eq_Some_conv)
  with assms(2) have "list_all2 (const_refines M) (irm_consts m) cs"
      and "list_all2 (function_refines M) (irm_functions m) fs"
    by (auto simp: module_typed_def elim!: list_all2_from_map_opt
        intro: optimize_const_refines optimize_function_refines)
  with m' show ?thesis by (simp add: module_refines_def)
qed

section \<open>Overflow\<close>

lemma c_quot_range:
  assumes "b \<noteq> 0" and "int64_range a" and "int64_range b"
  shows "\<not> int64_range (c_quot a b) \<longleftrightarrow> a = - (2 ^ 63) \<and> b = - 1"
proof
  assume out: "\<not> int64_range (c_quot a b)"
  have q: "\<bar>c_quot a b\<bar> = \<bar>a\<bar> div \<bar>b\<bar>" using assms(1) 
    by (auto simp: c_quot_def abs_mult sgn_if pos_imp_zdiv_nonneg_iff neg_imp_zdiv_nonneg_iff)
  then have le: "\<bar>c_quot a b\<bar> \<le> \<bar>a\<bar>" using assms(1) zdiv_mono2 [of "\<bar>a\<bar>" 1 "\<bar>b\<bar>"] by simp
  with out assms(2) have a: "a = - (2 ^ 63)" and big: "c_quot a b = 2 ^ 63" by (auto simp: int64_range_def)
  have "\<bar>b\<bar> = 1"
  proof (rule ccontr)
    assume "\<bar>b\<bar> \<noteq> 1"
    with assms(1) have "\<bar>a\<bar> div \<bar>b\<bar> \<le> \<bar>a\<bar> div 2" by (intro zdiv_mono2) auto
    with q big a show False by simp
  qed
  with big a show "a = - (2 ^ 63) \<and> b = - 1" by (auto simp: c_quot_def abs_if split: if_splits)
qed (simp add: c_quot_def int64_range_def)

lemma sint_zero: "sint (b :: int64) = 0 \<longleftrightarrow> b = 0"
  using sint_eq_iff [of b 0] by simp

lemma c_div64_None:
  "b \<noteq> 0 \<Longrightarrow> c_div64 a b = None \<longleftrightarrow> sint a = - (2 ^ 63) \<and> sint b = - 1"
  using c_quot_range [of "sint b" "sint a"] by (simp add: c_div64_def int64_of_None_iff sint_zero)

lemma c_mod64_None:
  assumes "b \<noteq> 0"
  shows "c_mod64 a b = None \<longleftrightarrow> sint a = - (2 ^ 63) \<and> sint b = - 1"
proof -
  have "int64_range (c_rem (sint a) (sint b))"
    using c_rem_bound [of "sint b" "sint a"] sint_int64_range [of b] assms by (auto simp: int64_range_def sint_zero)
  with c_quot_range [of "sint b" "sint a"] assms show ?thesis by (auto simp: c_mod64_def int64_of_None_iff sint_zero)
qed

section \<open>Properties\<close>


abbreviation "ty_int \<equiv> Some (IrType CN_IR_TYPE_INT [] [] None 0)"
abbreviation "ty_bool \<equiv> Some (IrType CN_IR_TYPE_BOOL [] [] None 0)"

text \<open>The expression \<open>if 1 < 2 { 2 + 3 } else { 0 }\<close>.\<close>

definition sample_expr :: cn_ir_expr where
  "sample_expr = CN_IR_EXPR_IF ty_int 0
     (CN_IR_EXPR_BINARY ty_bool 0 CN_IR_BINARY_LESS (CN_IR_EXPR_INT ty_int 0 1) (CN_IR_EXPR_INT ty_int 0 2))
     (CN_IR_EXPR_BINARY ty_int 0 CN_IR_BINARY_ADD (CN_IR_EXPR_INT ty_int 0 2) (CN_IR_EXPR_INT ty_int 0 3))
     (CN_IR_EXPR_INT ty_int 0 0)"

lemma sample_expr_optimized:
  "cn_ir_optimize_expr sample_expr = Some (CN_IR_EXPR_INT ty_int 0 5)"
  by (simp add: sample_expr_def cn_ir_opt_fold_binary_def int_constant_def bool_constant_def fold_int_binary_def
      cn_ir_opt_fold_if_def c_add64_def int64_of_def int64_range_def)

lemma sample_expr_typed: "ir_typed sample_expr"
  by (simp add: sample_expr_def ty_kind_def expr_kind_def binary_typed_def)


text \<open>A program with one function, \<open>return\<close> of that expression followed by a dead \<open>return\<close>.\<close>

definition sample_function :: "cn_ir_expr \<Rightarrow> cn_ir_stmt list \<Rightarrow> cn_ir_function" where
  "sample_function e rest = (cn_ir_function_create ''m'' ''f'' True 0)
     \<lparr>irf_body := Some (IrBlock (CN_IR_STMT_RETURN 0 (Some e) # rest) 0)\<rparr>"

definition sample_program :: "cn_ir_expr \<Rightarrow> cn_ir_stmt list \<Rightarrow> cn_ir_program" where
  "sample_program e rest = cn_ir_program_push_module cn_ir_program_create
     (cn_ir_module_push_function (cn_ir_module_create ''m'' ''m.cneg'' None) (sample_function e rest))"

lemma sample_function_optimized:
  "optimize_function (sample_function sample_expr [CN_IR_STMT_RETURN 0 None]) =
     Some (sample_function (CN_IR_EXPR_INT ty_int 0 5) [])"
  by (simp add: optimize_function_def sample_function_def cn_ir_function_create_def sample_expr_optimized)

lemma sample_program_optimized:
  "cn_ir_optimize_program (sample_program sample_expr [CN_IR_STMT_RETURN 0 None]) =
     Some (sample_program (CN_IR_EXPR_INT ty_int 0 5) [])"
  by (simp add: cn_ir_optimize_program_def sample_program_def cn_ir_program_push_module_def cn_ir_program_create_def
      cn_ir_module_push_function_def cn_ir_module_create_def optimize_module_def sample_function_optimized)

lemma sample_program_typed: "program_typed (sample_program sample_expr [CN_IR_STMT_RETURN 0 None])"
  by (simp add: program_typed_def sample_program_def cn_ir_program_push_module_def cn_ir_program_create_def
      cn_ir_module_push_function_def cn_ir_module_create_def module_typed_def function_typed_def sample_function_def
      sample_expr_typed)

text \<open>
  C23: The optimiser refines the meaning of a program. On a well-typed program every machine
  (memory model, library, input and output) evaluates each constant to the same value and runs
  each function body to the same outcome (falling through, returning, getting stuck, or using
  up the fuel), while names, parameters, structs and everything else are kept as they are.
\<close>

theorem optimize_program_refines:
  assumes "cn_ir_optimize_program prog = Some prog'" and "program_typed prog"
  shows "list_all2 (module_refines M) (ir_modules prog) (ir_modules prog')"
  using assms
  by (auto simp: cn_ir_optimize_program_def program_typed_def bind_eq_Some_conv
      elim!: list_all2_from_map_opt intro: optimize_module_refines)

theorem optimize_program_refines_witness:
  "\<forall>M :: (unit, nat, nat) ir_machine. list_all2 (module_refines M)
     (ir_modules (sample_program sample_expr [CN_IR_STMT_RETURN 0 None]))
     (ir_modules (sample_program (CN_IR_EXPR_INT ty_int 0 5) []))"
  by (rule allI) (rule optimize_program_refines [OF sample_program_optimized sample_program_typed])

text \<open>
  C26: The optimiser is idempotent: on an optimised program it succeeds and changes nothing, so
  a single pass reaches every constant operation.
\<close>

theorem optimize_program_idempotent:
  assumes "cn_ir_optimize_program prog = Some prog'"
  shows "cn_ir_optimize_program prog' = Some prog'"
proof -
  from assms obtain ms where ms: "map_opt optimize_module (ir_modules prog) = Some ms" "prog' = prog\<lparr>ir_modules := ms\<rparr>"
    by (auto simp: cn_ir_optimize_program_def bind_eq_Some_conv)
  from map_opt_idem [OF ms(1) optimize_module_idem] ms(2) show ?thesis by (simp add: cn_ir_optimize_program_def)
qed

theorem optimize_program_idempotent_witness:
  "cn_ir_optimize_program (sample_program (CN_IR_EXPR_INT ty_int 0 5) []) =
     Some (sample_program (CN_IR_EXPR_INT ty_int 0 5) [])"
  by (rule optimize_program_idempotent [OF sample_program_optimized])

text \<open>
  No statement follows a \<open>return\<close> in any block, however nested, of an optimised function.
\<close>

theorem optimize_function_trims:
  assumes "optimize_function f = Some g"
  shows "\<exists>b. irf_body g = Some b \<and> block_trimmed b"
  using assms
  by (auto simp: optimize_function_def bind_eq_Some_conv split: option.splits dest: optimize_block_trims(3))

theorem optimize_function_trims_witness:
  "\<exists>b. irf_body (sample_function (CN_IR_EXPR_INT ty_int 0 5) []) = Some b \<and> block_trimmed b"
  by (rule optimize_function_trims [OF sample_function_optimized])

text \<open>
  C25: Where folding is undefined. Folding two integer constants has undefined behaviour in C
  exactly when the mathematical result leaves the 64-bit range: for \<open>+\<close>, \<open>-\<close>, \<open>*\<close>, and for \<open>/\<close>
  and \<open>%\<close> on the single pair \<open>INT64_MIN\<close>, \<open>-1\<close>; a zero divisor is left to run time and every
  other operator is total. The generated code wraps around on \<open>+\<close>, \<open>-\<close>, \<open>*\<close>, so there the
  compiler is undefined where the program is not.
\<close>

theorem fold_int_undefined_iff:
  "cn_ir_opt_fold_binary ty off bop (CN_IR_EXPR_INT t1 o1 a) (CN_IR_EXPR_INT t2 o2 b) = None \<longleftrightarrow>
     bop = CN_IR_BINARY_ADD \<and> \<not> int64_range (sint a + sint b)
     \<or> bop = CN_IR_BINARY_SUB \<and> \<not> int64_range (sint a - sint b)
     \<or> bop = CN_IR_BINARY_MUL \<and> \<not> int64_range (sint a * sint b)
     \<or> bop \<in> {CN_IR_BINARY_DIV, CN_IR_BINARY_MOD} \<and> sint a = - (2 ^ 63) \<and> sint b = - 1"
  by (cases bop)
    (auto simp: cn_ir_opt_fold_binary_def int_constant_def fold_int_binary_def c_add64_def c_sub64_def c_mul64_def
      int64_of_None_iff c_div64_None c_mod64_None)

end
