(* ===== verification/Memory.thy ===== *)
theory Memory
  imports Common "HOL-Library.Monad_Syntax"
begin

text \<open>
  The checking allocator, \<open>include/cnegative/memory.h\<close> and \<open>src/support/memory.c\<close>: the operations.
  Pointers and sizes are 64-bit words, 0 is the null pointer. The records that the allocator
  keeps per block are objects on the C heap, linked into a doubly linked list and into the chains
  of a hash table; the model keeps these links as they are, so the heap is part of the state:
  \<open>recs\<close> and \<open>tables\<close> hold the records and the bucket arrays at their addresses and \<open>bytes\<close> the
  bytes of the blocks. The counters \<open>live_blocks\<close> and \<open>quarantine_blocks\<close> and the
  capacities are natural numbers: they count objects of the heap and cannot wrap around.

  The C library is a parameter: which address \<open>malloc\<close>, \<open>calloc\<close> and \<open>realloc\<close> answer (0 when out of
  memory), and the size of \<open>max_align_t\<close>. An operation answers \<^term>\<open>None\<close> when C gives it no
  meaning (a link to an object that is not there, or an endless loop), \<open>Inl code\<close> when it aborts
  with a report, and otherwise its result and the new state. Of a report, the code is modelled.
\<close>

unbundle bit_operations_syntax

section \<open>State\<close>

type_synonym addr = "64 word"

record cn_mem_record =
  mr_base_ptr :: addr
  mr_ptr :: addr
  mr_size :: "64 word"
  mr_file :: string
  mr_line :: int
  mr_released_file :: "string option"
  mr_released_line :: int
  mr_prev :: addr
  mr_next :: addr
  mr_bucket_next :: addr

record cn_allocator =
  al_head :: addr
  al_freed_head :: addr
  al_freed_tail :: addr
  al_buckets :: addr
  al_freed_buckets :: addr
  al_bucket_capacity :: nat
  al_freed_bucket_capacity :: nat
  al_live_blocks :: nat
  al_live_bytes :: "64 word"
  al_peak_bytes :: "64 word"
  al_quarantine_blocks :: nat
  al_quarantine_bytes :: "64 word"
  al_atexit_registered :: bool

text \<open>The lines of \<open>cn_memory_warn\<close>.\<close>

datatype mem_report =
    LeakSummary nat "64 word" "64 word"
  | Leak addr "64 word" string int

record mem_state =
  alloc :: cn_allocator
  recs :: "addr \<Rightarrow> cn_mem_record option"
  tables :: "addr \<Rightarrow> addr list option"
  bytes :: "addr \<Rightarrow> 8 word"
  sys_blocks :: "(addr \<times> 64 word) list"
  sys_calls :: nat
  reports :: "mem_report list"

text \<open>
  The C library: the answers of \<open>malloc\<close> and \<open>realloc\<close> may depend on the blocks that are in use
  and on the number of calls so far.
\<close>

record c_library =
  lib_malloc :: "nat \<Rightarrow> (addr \<times> 64 word) list \<Rightarrow> 64 word \<Rightarrow> addr"
  lib_realloc :: "nat \<Rightarrow> (addr \<times> 64 word) list \<Rightarrow> addr \<Rightarrow> 64 word \<Rightarrow> addr"
  lib_max_align :: "64 word"

section \<open>Effects\<close>

type_synonym 'a am = "mem_state \<Rightarrow> (string + 'a \<times> mem_state) option"

definition aret :: "'a \<Rightarrow> 'a am" where
  "aret x = (\<lambda>s. Some (Inr (x, s)))"

definition abind :: "'a am \<Rightarrow> ('a \<Rightarrow> 'b am) \<Rightarrow> 'b am" where
  "abind m k = (\<lambda>s. case m s of
       None \<Rightarrow> None
     | Some (Inl e) \<Rightarrow> Some (Inl e)
     | Some (Inr (x, s')) \<Rightarrow> k x s')"

abbreviation aseq :: "'a am \<Rightarrow> 'b am \<Rightarrow> 'b am" where
  "aseq m k \<equiv> abind m (\<lambda>_. k)"

definition cn_memory_fail_code :: "string \<Rightarrow> 'a am" where
  "cn_memory_fail_code code = (\<lambda>s. Some (Inl code))"

definition cn_memory_fail :: "64 word \<Rightarrow> 'a am" where
  "cn_memory_fail sz = cn_memory_fail_code ''R4001''"

definition cn_memory_warn :: "mem_report \<Rightarrow> unit am" where
  "cn_memory_warn r = (\<lambda>s. Some (Inr ((), s\<lparr>reports := reports s @ [r]\<rparr>)))"

definition aget :: "(mem_state \<Rightarrow> 'a) \<Rightarrow> 'a am" where
  "aget f = (\<lambda>s. Some (Inr (f s, s)))"

definition amod :: "(mem_state \<Rightarrow> mem_state) \<Rightarrow> unit am" where
  "amod f = (\<lambda>s. Some (Inr ((), f s)))"

definition alloc_mod :: "(cn_allocator \<Rightarrow> cn_allocator) \<Rightarrow> unit am" where
  "alloc_mod f = amod (\<lambda>s. s\<lparr>alloc := f (alloc s)\<rparr>)"

text \<open>Access to a record through its address.\<close>

definition rec_at :: "addr \<Rightarrow> cn_mem_record am" where
  "rec_at a = (\<lambda>s. case recs s a of None \<Rightarrow> None | Some r \<Rightarrow> Some (Inr (r, s)))"

definition rec_mod :: "addr \<Rightarrow> (cn_mem_record \<Rightarrow> cn_mem_record) \<Rightarrow> unit am" where
  "rec_mod a f = (\<lambda>s. case recs s a of None \<Rightarrow> None
     | Some r \<Rightarrow> Some (Inr ((), s\<lparr>recs := (recs s)(a \<mapsto> f r)\<rparr>)))"

definition table_get :: "addr \<Rightarrow> nat \<Rightarrow> addr am" where
  "table_get t i = (\<lambda>s. case tables s t of None \<Rightarrow> None
     | Some xs \<Rightarrow> if i < length xs then Some (Inr (xs ! i, s)) else None)"

definition table_set :: "addr \<Rightarrow> nat \<Rightarrow> addr \<Rightarrow> unit am" where
  "table_set t i a = (\<lambda>s. case tables s t of None \<Rightarrow> None
     | Some xs \<Rightarrow> if i < length xs then Some (Inr ((), s\<lparr>tables := (tables s)(t \<mapsto> xs[i := a])\<rparr>)) else None)"

section \<open>The C library\<close>

definition c_malloc :: "c_library \<Rightarrow> 64 word \<Rightarrow> addr am" where
  "c_malloc lib sz = (\<lambda>s.
     let a = lib_malloc lib (sys_calls s) (sys_blocks s) sz; s' = s\<lparr>sys_calls := Suc (sys_calls s)\<rparr> in
     Some (Inr (a, if a = 0 then s' else s'\<lparr>sys_blocks := (a, sz) # sys_blocks s\<rparr>)))"

text \<open>\<open>free\<close> of a null pointer does nothing; of anything that is not a block it is undefined.\<close>

definition c_free :: "addr \<Rightarrow> unit am" where
  "c_free a = (\<lambda>s.
     if a = 0 then Some (Inr ((), s))
     else if a \<in> set (map fst (sys_blocks s))
     then Some (Inr ((), s\<lparr>sys_blocks := filter (\<lambda>b. fst b \<noteq> a) (sys_blocks s)\<rparr>))
     else None)"

text \<open>\<open>realloc\<close> copies the common part of the block to its new place; when it fails nothing changes.\<close>

definition move_bytes :: "addr \<Rightarrow> addr \<Rightarrow> 64 word \<Rightarrow> (addr \<Rightarrow> 8 word) \<Rightarrow> addr \<Rightarrow> 8 word" where
  "move_bytes from to n m = (\<lambda>x. if x - to < n then m (from + (x - to)) else m x)"

definition c_realloc :: "c_library \<Rightarrow> addr \<Rightarrow> 64 word \<Rightarrow> addr am" where
  "c_realloc lib old sz = (\<lambda>s.
     case map_of (sys_blocks s) old of
       None \<Rightarrow> None
     | Some old_sz \<Rightarrow>
         let a = lib_realloc lib (sys_calls s) (sys_blocks s) old sz; s' = s\<lparr>sys_calls := Suc (sys_calls s)\<rparr> in
         Some (Inr (a, if a = 0 then s' else s'\<lparr>
             sys_blocks := (a, sz) # filter (\<lambda>b. fst b \<noteq> old) (sys_blocks s),
             bytes := move_bytes old a (min old_sz sz) (bytes s)\<rparr>)))"

definition c_memset :: "addr \<Rightarrow> 8 word \<Rightarrow> 64 word \<Rightarrow> unit am" where
  "c_memset a v n = amod (\<lambda>s. s\<lparr>bytes := (\<lambda>x. if x - a < n then v else bytes s x)\<rparr>)"

section \<open>Sizes\<close>

definition cn_memory_prefix_size :: "c_library \<Rightarrow> 64 word" where
  "cn_memory_prefix_size lib = lib_max_align lib"

definition cn_memory_tail_size :: "64 word" where
  "cn_memory_tail_size = 8"

text \<open>The overflow checks answer \<^term>\<open>None\<close> for overflow, and otherwise the value they store.\<close>

definition cn_size_mul_overflow :: "64 word \<Rightarrow> 64 word \<Rightarrow> 64 word option" where
  "cn_size_mul_overflow left right =
     (if left = 0 \<or> right = 0 then Some 0
      else if left > (- 1) div right then None
      else Some (left * right))"

definition cn_size_add_overflow :: "64 word \<Rightarrow> 64 word \<Rightarrow> 64 word option" where
  "cn_size_add_overflow left right = (if left > - 1 - right then None else Some (left + right))"

definition cn_allocation_total_size :: "c_library \<Rightarrow> 64 word \<Rightarrow> 64 word option" where
  "cn_allocation_total_size lib payload_size =
     do { prefixed \<leftarrow> cn_size_add_overflow payload_size (cn_memory_prefix_size lib);
          cn_size_add_overflow prefixed cn_memory_tail_size }"

section \<open>Guards\<close>

definition cn_record_guard_value :: "cn_mem_record \<Rightarrow> 64 word" where
  "cn_record_guard_value r = 0xC0DEC0DEC0DEC0DE XOR mr_ptr r XOR push_bit 1 (mr_size r)"

definition cn_record_head_guard_ptr :: "cn_mem_record \<Rightarrow> addr" where
  "cn_record_head_guard_ptr r = mr_base_ptr r"

definition cn_record_tail_guard_ptr :: "cn_mem_record \<Rightarrow> addr" where
  "cn_record_tail_guard_ptr r = mr_ptr r + mr_size r"

definition cn_guard_byte :: "64 word \<Rightarrow> nat \<Rightarrow> 8 word" where
  "cn_guard_byte guard i = ucast (drop_bit ((i mod 8) * 8) guard AND 0xff)"

text \<open>A loop \<open>for (i = 0; i < n; ++i) p[i] = f(i)\<close>.\<close>

definition write_bytes :: "addr \<Rightarrow> nat \<Rightarrow> (nat \<Rightarrow> 8 word) \<Rightarrow> (addr \<Rightarrow> 8 word) \<Rightarrow> addr \<Rightarrow> 8 word" where
  "write_bytes p n f m = foldl (\<lambda>m i. m(p + of_nat i := f i)) m [0..<n]"

definition cn_record_write_guards :: "c_library \<Rightarrow> addr \<Rightarrow> unit am" where
  "cn_record_write_guards lib a = abind (rec_at a) (\<lambda>r.
     let guard = cn_record_guard_value r; tail_guard = NOT guard in
     amod (\<lambda>s. s\<lparr>bytes :=
       write_bytes (cn_record_tail_guard_ptr r) (unat cn_memory_tail_size) (cn_guard_byte tail_guard)
         (write_bytes (cn_record_head_guard_ptr r) (unat (cn_memory_prefix_size lib)) (cn_guard_byte guard) (bytes s))\<rparr>))"

definition cn_record_fill_payload :: "addr \<Rightarrow> 8 word \<Rightarrow> unit am" where
  "cn_record_fill_payload a v = abind (rec_at a) (\<lambda>r. c_memset (mr_ptr r) v (mr_size r))"

definition cn_record_payload_matches :: "(addr \<Rightarrow> 8 word) \<Rightarrow> cn_mem_record \<Rightarrow> 8 word \<Rightarrow> bool" where
  "cn_record_payload_matches m r v = list_all (\<lambda>i. m (mr_ptr r + of_nat i) = v) [0..<unat (mr_size r)]"

definition head_guard_ok :: "c_library \<Rightarrow> (addr \<Rightarrow> 8 word) \<Rightarrow> cn_mem_record \<Rightarrow> bool" where
  "head_guard_ok lib m r =
     list_all (\<lambda>i. m (cn_record_head_guard_ptr r + of_nat i) = cn_guard_byte (cn_record_guard_value r) i)
       [0..<unat (cn_memory_prefix_size lib)]"

definition tail_guard_ok :: "(addr \<Rightarrow> 8 word) \<Rightarrow> cn_mem_record \<Rightarrow> bool" where
  "tail_guard_ok m r =
     list_all (\<lambda>i. m (cn_record_tail_guard_ptr r + of_nat i) = cn_guard_byte (NOT (cn_record_guard_value r)) i)
       [0..<unat cn_memory_tail_size]"

definition cn_record_verify_guards :: "c_library \<Rightarrow> addr \<Rightarrow> unit am" where
  "cn_record_verify_guards lib a = abind (rec_at a) (\<lambda>r. abind (aget bytes) (\<lambda>m.
     if \<not> head_guard_ok lib m r then cn_memory_fail_code ''R4017''
     else if \<not> tail_guard_ok m r then cn_memory_fail_code ''R4016''
     else aret ()))"

definition alloc_poison :: "8 word" where
  "alloc_poison = 0xcd"

definition freed_poison :: "8 word" where
  "freed_poison = 0xdd"

definition cn_record_verify_quarantine :: "c_library \<Rightarrow> addr \<Rightarrow> unit am" where
  "cn_record_verify_quarantine lib a = aseq (cn_record_verify_guards lib a)
     (abind (rec_at a) (\<lambda>r. abind (aget bytes) (\<lambda>m.
        if \<not> cn_record_payload_matches m r freed_poison then cn_memory_fail_code ''R4013'' else aret ())))"

section \<open>Records\<close>

definition cn_record_create :: "c_library \<Rightarrow> addr \<Rightarrow> addr \<Rightarrow> 64 word \<Rightarrow> string \<Rightarrow> int \<Rightarrow> addr am" where
  "cn_record_create lib base p sz file ln = abind (c_malloc lib 80) (\<lambda>a.
     if a = 0 then cn_memory_fail 80
     else aseq (amod (\<lambda>s. s\<lparr>recs := (recs s)(a \<mapsto>
            \<lparr>mr_base_ptr = base, mr_ptr = p, mr_size = sz, mr_file = file, mr_line = ln,
             mr_released_file = None, mr_released_line = 0, mr_prev = 0, mr_next = 0, mr_bucket_next = 0\<rparr>)\<rparr>))
          (aret a))"

definition cn_record_release_storage :: "addr \<Rightarrow> unit am" where
  "cn_record_release_storage a = abind (rec_at a) (\<lambda>r.
     aseq (c_free (mr_base_ptr r)) (aseq (c_free a) (amod (\<lambda>s. s\<lparr>recs := (recs s)(a := None)\<rparr>))))"

section \<open>Hash tables\<close>

definition cn_ptr_hash :: "addr \<Rightarrow> 64 word" where
  "cn_ptr_hash p =
     (let v = drop_bit 4 p;
          v = v XOR drop_bit 33 v;
          v = v * 0xff51afd7ed558ccd;
          v = v XOR drop_bit 33 v;
          v = v * 0xc4ceb9fe1a85ec53
      in v XOR drop_bit 33 v)"

definition cn_bucket_capacity_for :: "nat \<Rightarrow> nat" where
  "cn_bucket_capacity_for required_blocks = cn_double_until 16 (required_blocks * 2)"

definition cn_bucket_index_for :: "nat \<Rightarrow> addr \<Rightarrow> nat" where
  "cn_bucket_index_for cap p = unat (cn_ptr_hash p) AND (cap - 1)"

text \<open>The loop of \<open>cn_rehash_records\<close>, from the record \<open>a\<close> on.\<close>

partial_function (option) rehash_loop :: "nat \<Rightarrow> addr \<Rightarrow> addr \<Rightarrow> mem_state \<Rightarrow> (string + unit \<times> mem_state) option" where
  "rehash_loop cap t a s =
     (if a = 0 then aret () s
      else case recs s a of
        None \<Rightarrow> None
      | Some r \<Rightarrow>
          (case tables s t of
             None \<Rightarrow> None
           | Some xs \<Rightarrow>
               if cn_bucket_index_for cap (mr_ptr r) < length xs then
                 rehash_loop cap t (mr_next r)
                   (s\<lparr>recs := (recs s)(a \<mapsto> r\<lparr>mr_bucket_next := xs ! cn_bucket_index_for cap (mr_ptr r)\<rparr>),
                      tables := (tables s)(t \<mapsto> xs[cn_bucket_index_for cap (mr_ptr r) := a])\<rparr>)
               else None))"

text \<open>
  \<open>cn_rehash_records\<close> with the bucket array and the capacity it replaces; the answer is what it
  stores through its two pointers.
\<close>

definition free_table :: "addr \<Rightarrow> unit am" where
  "free_table t = aseq (c_free t) (amod (\<lambda>s. s\<lparr>tables := (tables s)(t := None)\<rparr>))"

definition cn_rehash_records :: "c_library \<Rightarrow> addr \<Rightarrow> addr \<Rightarrow> nat \<Rightarrow> nat \<Rightarrow> (addr \<times> nat) am" where
  "cn_rehash_records lib head buckets cap required_blocks =
     (if required_blocks = 0 then aseq (free_table buckets) (aret (0, 0))
      else if cap \<ge> required_blocks * 2 \<and> cap \<noteq> 0 then aret (buckets, cap)
      else
        let new_capacity = cn_bucket_capacity_for required_blocks in
        abind (c_malloc lib (of_nat new_capacity * 8)) (\<lambda>t.
          if t = 0 then cn_memory_fail (of_nat new_capacity * 8)
          else aseq (amod (\<lambda>s. s\<lparr>tables := (tables s)(t \<mapsto> replicate new_capacity 0)\<rparr>))
            (aseq (rehash_loop new_capacity t head)
               (aseq (free_table buckets) (aret (t, new_capacity))))))"

text \<open>The walk along a chain in \<open>cn_find_record_in_buckets\<close>.\<close>

partial_function (option) find_chain :: "(addr \<Rightarrow> cn_mem_record option) \<Rightarrow> addr \<Rightarrow> addr \<Rightarrow> addr option" where
  "find_chain h a p =
     (if a = 0 then Some 0
      else case h a of
        None \<Rightarrow> None
      | Some r \<Rightarrow> if mr_ptr r = p then Some a else find_chain h (mr_bucket_next r) p)"

definition lift_read :: "((addr \<Rightarrow> cn_mem_record option) \<Rightarrow> addr option) \<Rightarrow> addr am" where
  "lift_read f = (\<lambda>s. case f (recs s) of None \<Rightarrow> None | Some a \<Rightarrow> Some (Inr (a, s)))"

definition cn_find_record_in_buckets :: "addr \<Rightarrow> nat \<Rightarrow> addr \<Rightarrow> addr am" where
  "cn_find_record_in_buckets buckets cap p =
     (if cap = 0 then aret 0
      else abind (table_get buckets (cn_bucket_index_for cap p)) (\<lambda>a. lift_read (\<lambda>h. find_chain h a p)))"

partial_function (option) find_containing :: "(addr \<Rightarrow> cn_mem_record option) \<Rightarrow> addr \<Rightarrow> addr \<Rightarrow> addr option" where
  "find_containing h a p =
     (if a = 0 then Some 0
      else case h a of
        None \<Rightarrow> None
      | Some r \<Rightarrow>
          if p > mr_ptr r \<and> p < mr_ptr r + mr_size r then Some a
          else find_containing h (mr_next r) p)"

definition cn_find_containing_record_in_list :: "addr \<Rightarrow> addr \<Rightarrow> addr am" where
  "cn_find_containing_record_in_list head p = lift_read (\<lambda>h. find_containing h head p)"

text \<open>
  \<open>cn_bucket_remove_record\<close> walks with a pointer to the link that may have to change: a cell of
  the table or the \<open>bucket_next\<close> of a record.
\<close>

datatype slot = Cell nat | Link addr

definition slot_set :: "addr \<Rightarrow> slot \<Rightarrow> addr \<Rightarrow> unit am" where
  "slot_set t sl a = (case sl of Cell i \<Rightarrow> table_set t i a | Link b \<Rightarrow> rec_mod b (\<lambda>r. r\<lparr>mr_bucket_next := a\<rparr>))"

text \<open>The slot whose content is \<open>record\<close>, starting from the slot \<open>sl\<close> with content \<open>a\<close>; \<open>Some None\<close> at the end.\<close>

partial_function (option) find_slot ::
  "(addr \<Rightarrow> cn_mem_record option) \<Rightarrow> slot \<Rightarrow> addr \<Rightarrow> addr \<Rightarrow> slot option option" where
  "find_slot h sl a record =
     (if a = 0 then Some None
      else if a = record then Some (Some sl)
      else case h a of None \<Rightarrow> None | Some r \<Rightarrow> find_slot h (Link a) (mr_bucket_next r) record)"

definition cn_bucket_remove_record :: "addr \<Rightarrow> nat \<Rightarrow> addr \<Rightarrow> addr \<Rightarrow> unit am" where
  "cn_bucket_remove_record buckets cap record ptr_for_hash =
     (if cap = 0 then aret ()
      else let index = cn_bucket_index_for cap ptr_for_hash in
        abind (table_get buckets index) (\<lambda>a. abind (aget recs) (\<lambda>h.
          case find_slot h (Cell index) a record of
            None \<Rightarrow> (\<lambda>s. None)
          | Some None \<Rightarrow> aret ()
          | Some (Some sl) \<Rightarrow> abind (rec_at record) (\<lambda>r.
              aseq (slot_set buckets sl (mr_bucket_next r)) (rec_mod record (\<lambda>r. r\<lparr>mr_bucket_next := 0\<rparr>))))))"

definition cn_bucket_insert_record :: "addr \<Rightarrow> nat \<Rightarrow> addr \<Rightarrow> unit am" where
  "cn_bucket_insert_record buckets cap record = abind (rec_at record) (\<lambda>r.
     let index = cn_bucket_index_for cap (mr_ptr r) in
     abind (table_get buckets index) (\<lambda>a.
       aseq (rec_mod record (\<lambda>r. r\<lparr>mr_bucket_next := a\<rparr>)) (table_set buckets index record)))"

section \<open>Linked lists\<close>

text \<open>
  The two lists of the allocator; the functions take pointers to the head and the tail of the
  list (a null pointer for the list without a tail), which are fields of the allocator.
\<close>

datatype which = Live | Freed

definition list_head :: "which \<Rightarrow> addr am" where
  "list_head w = aget (\<lambda>s. case w of Live \<Rightarrow> al_head (alloc s) | Freed \<Rightarrow> al_freed_head (alloc s))"

definition set_head :: "which \<Rightarrow> addr \<Rightarrow> unit am" where
  "set_head w a = alloc_mod (\<lambda>al. case w of Live \<Rightarrow> al\<lparr>al_head := a\<rparr> | Freed \<Rightarrow> al\<lparr>al_freed_head := a\<rparr>)"

definition set_tail :: "which \<Rightarrow> addr \<Rightarrow> unit am" where
  "set_tail w a = (case w of Live \<Rightarrow> aret () | Freed \<Rightarrow> alloc_mod (\<lambda>al. al\<lparr>al_freed_tail := a\<rparr>))"

definition cn_list_insert_head :: "which \<Rightarrow> addr \<Rightarrow> unit am" where
  "cn_list_insert_head w record = abind (list_head w) (\<lambda>hd.
     aseq (rec_mod record (\<lambda>r. r\<lparr>mr_prev := 0, mr_next := hd\<rparr>))
       (aseq (if hd \<noteq> 0 then rec_mod hd (\<lambda>r. r\<lparr>mr_prev := record\<rparr>) else set_tail w record)
          (set_head w record)))"

definition cn_list_remove_record :: "which \<Rightarrow> addr \<Rightarrow> unit am" where
  "cn_list_remove_record w record = abind (rec_at record) (\<lambda>r.
     aseq (if mr_prev r \<noteq> 0 then rec_mod (mr_prev r) (\<lambda>p. p\<lparr>mr_next := mr_next r\<rparr>) else set_head w (mr_next r))
       (aseq (if mr_next r \<noteq> 0 then rec_mod (mr_next r) (\<lambda>n. n\<lparr>mr_prev := mr_prev r\<rparr>) else set_tail w (mr_prev r))
          (rec_mod record (\<lambda>r. r\<lparr>mr_prev := 0, mr_next := 0\<rparr>))))"

section \<open>Quarantine\<close>

definition cn_allocator_rehash_active :: "c_library \<Rightarrow> nat \<Rightarrow> unit am" where
  "cn_allocator_rehash_active lib required = abind (aget alloc) (\<lambda>al.
     abind (cn_rehash_records lib (al_head al) (al_buckets al) (al_bucket_capacity al) required) (\<lambda>(t, cap).
       alloc_mod (\<lambda>al. al\<lparr>al_buckets := t, al_bucket_capacity := cap\<rparr>)))"

definition cn_allocator_rehash_freed :: "c_library \<Rightarrow> nat \<Rightarrow> unit am" where
  "cn_allocator_rehash_freed lib required = abind (aget alloc) (\<lambda>al.
     abind (cn_rehash_records lib (al_freed_head al) (al_freed_buckets al) (al_freed_bucket_capacity al) required)
       (\<lambda>(t, cap). alloc_mod (\<lambda>al. al\<lparr>al_freed_buckets := t, al_freed_bucket_capacity := cap\<rparr>)))"

definition quarantine_full :: "cn_allocator \<Rightarrow> bool" where
  "quarantine_full al = (al_quarantine_blocks al > 64 \<or> al_quarantine_bytes al > 1024 * 1024)"

text \<open>One turn of the loop of \<open>cn_allocator_evict_quarantine\<close>.\<close>

definition evict_one :: "c_library \<Rightarrow> addr \<Rightarrow> unit am" where
  "evict_one lib record =
     aseq (cn_record_verify_quarantine lib record)
       (abind (rec_at record) (\<lambda>r. abind (aget alloc) (\<lambda>al.
          aseq (cn_bucket_remove_record (al_freed_buckets al) (al_freed_bucket_capacity al) record (mr_ptr r))
            (aseq (cn_list_remove_record Freed record)
               (aseq (alloc_mod (\<lambda>al. al\<lparr>al_quarantine_blocks := al_quarantine_blocks al - 1,
                        al_quarantine_bytes := al_quarantine_bytes al - mr_size r\<rparr>))
                  (cn_record_release_storage record))))))"

partial_function (option) cn_allocator_evict_quarantine ::
  "c_library \<Rightarrow> mem_state \<Rightarrow> (string + unit \<times> mem_state) option" where
  "cn_allocator_evict_quarantine lib s =
     (if quarantine_full (alloc s) then
        if al_freed_tail (alloc s) = 0 then aret () s
        else
          case evict_one lib (al_freed_tail (alloc s)) s of
            None \<Rightarrow> None
          | Some (Inl e) \<Rightarrow> Some (Inl e)
          | Some (Inr (_, s')) \<Rightarrow> cn_allocator_evict_quarantine lib s'
      else aret () s)"

definition cn_allocator_move_to_quarantine :: "c_library \<Rightarrow> addr \<Rightarrow> string \<Rightarrow> int \<Rightarrow> unit am" where
  "cn_allocator_move_to_quarantine lib record file ln =
     aseq (rec_mod record (\<lambda>r. r\<lparr>mr_released_file := Some file, mr_released_line := ln\<rparr>))
     (aseq (cn_record_fill_payload record freed_poison)
     (abind (aget alloc) (\<lambda>al.
      aseq (cn_allocator_rehash_freed lib (al_quarantine_blocks al + 1))
     (aseq (cn_list_insert_head Freed record)
     (abind (aget alloc) (\<lambda>al.
      aseq (cn_bucket_insert_record (al_freed_buckets al) (al_freed_bucket_capacity al) record)
     (abind (rec_at record) (\<lambda>r.
      aseq (alloc_mod (\<lambda>al. al\<lparr>al_quarantine_blocks := al_quarantine_blocks al + 1,
              al_quarantine_bytes := al_quarantine_bytes al + mr_size r\<rparr>))
        (cn_allocator_evict_quarantine lib)))))))))"

section \<open>The allocator\<close>

definition cn_allocator_init :: cn_allocator where
  "cn_allocator_init = \<lparr>al_head = 0, al_freed_head = 0, al_freed_tail = 0, al_buckets = 0, al_freed_buckets = 0,
     al_bucket_capacity = 0, al_freed_bucket_capacity = 0, al_live_blocks = 0, al_live_bytes = 0,
     al_peak_bytes = 0, al_quarantine_blocks = 0, al_quarantine_bytes = 0, al_atexit_registered = False\<rparr>"

text \<open>The two loops of \<open>cn_allocator_destroy\<close>: check and release every record of a list.\<close>

partial_function (option) destroy_list ::
  "(addr \<Rightarrow> unit am) \<Rightarrow> addr \<Rightarrow> mem_state \<Rightarrow> (string + unit \<times> mem_state) option" where
  "destroy_list verify a s =
     (if a = 0 then aret () s
      else case recs s a of
        None \<Rightarrow> None
      | Some r \<Rightarrow>
          (case aseq (verify a) (cn_record_release_storage a) s of
             None \<Rightarrow> None
           | Some (Inl e) \<Rightarrow> Some (Inl e)
           | Some (Inr (_, s')) \<Rightarrow> destroy_list verify (mr_next r) s'))"

definition cn_allocator_destroy :: "c_library \<Rightarrow> unit am" where
  "cn_allocator_destroy lib = abind (aget alloc) (\<lambda>al.
     aseq (destroy_list (cn_record_verify_guards lib) (al_head al))
     (aseq (destroy_list (cn_record_verify_quarantine lib) (al_freed_head al))
     (aseq (alloc_mod (\<lambda>al. al\<lparr>al_head := 0, al_freed_head := 0, al_freed_tail := 0\<rparr>))
     (aseq (free_table (al_buckets al))
     (aseq (free_table (al_freed_buckets al))
       (alloc_mod (\<lambda>al. al\<lparr>al_buckets := 0, al_freed_buckets := 0, al_bucket_capacity := 0,
          al_freed_bucket_capacity := 0, al_live_blocks := 0, al_live_bytes := 0,
          al_quarantine_blocks := 0, al_quarantine_bytes := 0\<rparr>)))))))"

partial_function (option) dump_leaks_loop ::
  "c_library \<Rightarrow> addr \<Rightarrow> mem_state \<Rightarrow> (string + unit \<times> mem_state) option" where
  "dump_leaks_loop lib a s =
     (if a = 0 then aret () s
      else case recs s a of
        None \<Rightarrow> None
      | Some r \<Rightarrow>
          (case aseq (cn_record_verify_guards lib a)
                  (cn_memory_warn (Leak (mr_ptr r) (mr_size r) (mr_file r) (mr_line r))) s of
             None \<Rightarrow> None
           | Some (Inl e) \<Rightarrow> Some (Inl e)
           | Some (Inr (_, s')) \<Rightarrow> dump_leaks_loop lib (mr_next r) s'))"

definition cn_allocator_dump_leaks :: "c_library \<Rightarrow> unit am" where
  "cn_allocator_dump_leaks lib = abind (aget alloc) (\<lambda>al.
     if al_live_blocks al = 0 then aret ()
     else aseq (cn_memory_warn (LeakSummary (al_live_blocks al) (al_live_bytes al) (al_peak_bytes al)))
       (dump_leaks_loop lib (al_head al)))"

definition count_bytes :: "64 word \<Rightarrow> cn_allocator \<Rightarrow> cn_allocator" where
  "count_bytes b al = al\<lparr>al_live_bytes := b, al_peak_bytes := (if b > al_peak_bytes al then b else al_peak_bytes al)\<rparr>"

definition cn_alloc_impl :: "c_library \<Rightarrow> 64 word \<Rightarrow> string \<Rightarrow> int \<Rightarrow> addr am" where
  "cn_alloc_impl lib sz file ln =
     (let actual_size = if sz = 0 then 1 else sz in
      case cn_allocation_total_size lib actual_size of
        None \<Rightarrow> cn_memory_fail_code ''R4006''
      | Some total_size \<Rightarrow>
          abind (c_malloc lib total_size) (\<lambda>base.
          if base = 0 then cn_memory_fail actual_size
          else let p = base + cn_memory_prefix_size lib in
            abind (aget alloc) (\<lambda>al.
            aseq (cn_allocator_rehash_active lib (al_live_blocks al + 1))
            (abind (cn_record_create lib base p actual_size file ln) (\<lambda>record.
            aseq (cn_list_insert_head Live record)
            (abind (aget alloc) (\<lambda>al.
            aseq (cn_bucket_insert_record (al_buckets al) (al_bucket_capacity al) record)
            (aseq (cn_record_write_guards lib record)
            (aseq (cn_record_fill_payload record alloc_poison)
            (aseq (alloc_mod (\<lambda>al. count_bytes (al_live_bytes al + actual_size)
                                     (al\<lparr>al_live_blocks := al_live_blocks al + 1\<rparr>)))
              (aret p)))))))))))"

definition cn_calloc_impl :: "c_library \<Rightarrow> 64 word \<Rightarrow> 64 word \<Rightarrow> string \<Rightarrow> int \<Rightarrow> addr am" where
  "cn_calloc_impl lib n sz file ln =
     (case cn_size_mul_overflow n sz of
        None \<Rightarrow> cn_memory_fail_code ''R4006''
      | Some total_size \<Rightarrow>
          abind (cn_alloc_impl lib total_size file ln) (\<lambda>p. aseq (c_memset p 0 total_size) (aret p)))"

definition cn_realloc_impl :: "c_library \<Rightarrow> addr \<Rightarrow> 64 word \<Rightarrow> string \<Rightarrow> int \<Rightarrow> addr am" where
  "cn_realloc_impl lib p sz file ln =
     (if p = 0 then cn_alloc_impl lib sz file ln
      else
        abind (aget alloc) (\<lambda>al.
        abind (cn_find_record_in_buckets (al_buckets al) (al_bucket_capacity al) p) (\<lambda>record.
        if record = 0 then
          abind (cn_find_record_in_buckets (al_freed_buckets al) (al_freed_bucket_capacity al) p) (\<lambda>freed.
            if freed \<noteq> 0 then cn_memory_fail_code ''R4013'' else cn_memory_fail_code ''R4002'')
        else
          aseq (cn_record_verify_guards lib record)
          (let actual_size = if sz = 0 then 1 else sz in
           case cn_allocation_total_size lib actual_size of
             None \<Rightarrow> cn_memory_fail_code ''R4009''
           | Some total_size \<Rightarrow>
               abind (rec_at record) (\<lambda>r.
               aseq (cn_bucket_remove_record (al_buckets al) (al_bucket_capacity al) record p)
               (abind (c_realloc lib (mr_base_ptr r) total_size) (\<lambda>new_base.
                if new_base = 0 then cn_memory_fail_code ''R4008''
                else let new_ptr = new_base + cn_memory_prefix_size lib in
                  aseq (alloc_mod (\<lambda>al. count_bytes (al_live_bytes al - mr_size r + actual_size) al))
                  (aseq (rec_mod record (\<lambda>r. r\<lparr>mr_base_ptr := new_base, mr_ptr := new_ptr, mr_size := actual_size,
                           mr_file := file, mr_line := ln, mr_released_file := None, mr_released_line := 0\<rparr>))
                  (aseq (cn_record_write_guards lib record)
                  (aseq (if actual_size > mr_size r
                         then c_memset (new_ptr + mr_size r) alloc_poison (actual_size - mr_size r) else aret ())
                  (aseq (cn_bucket_insert_record (al_buckets al) (al_bucket_capacity al) record)
                    (aret new_ptr)))))))))))) "

definition cn_realloc_mul_impl :: "c_library \<Rightarrow> addr \<Rightarrow> 64 word \<Rightarrow> 64 word \<Rightarrow> string \<Rightarrow> int \<Rightarrow> addr am" where
  "cn_realloc_mul_impl lib p left right file ln =
     (case cn_size_mul_overflow left right of
        None \<Rightarrow> cn_memory_fail_code ''R4009''
      | Some total_size \<Rightarrow> cn_realloc_impl lib p total_size file ln)"

definition cn_free_impl :: "c_library \<Rightarrow> addr \<Rightarrow> string \<Rightarrow> int \<Rightarrow> unit am" where
  "cn_free_impl lib p file ln =
     (if p = 0 then aret ()
      else
        abind (aget alloc) (\<lambda>al.
        abind (cn_find_record_in_buckets (al_buckets al) (al_bucket_capacity al) p) (\<lambda>record.
        if record = 0 then
          abind (cn_find_record_in_buckets (al_freed_buckets al) (al_freed_bucket_capacity al) p) (\<lambda>freed.
          if freed \<noteq> 0 then cn_memory_fail_code ''R4010''
          else
            abind (cn_find_containing_record_in_list (al_head al) p) (\<lambda>c1.
            abind (if c1 = 0 then cn_find_containing_record_in_list (al_freed_head al) p else aret c1) (\<lambda>containing.
            if containing \<noteq> 0 then cn_memory_fail_code ''R4011'' else cn_memory_fail_code ''R4003'')))
        else
          aseq (cn_record_verify_guards lib record)
          (aseq (cn_bucket_remove_record (al_buckets al) (al_bucket_capacity al) record p)
          (aseq (cn_list_remove_record Live record)
          (abind (rec_at record) (\<lambda>r.
           aseq (alloc_mod (\<lambda>al. al\<lparr>al_live_blocks := al_live_blocks al - 1, al_live_bytes := al_live_bytes al - mr_size r\<rparr>))
             (cn_allocator_move_to_quarantine lib record file ln))))))))"

text \<open>The texts that are copied are byte strings; \<open>strlen\<close> is the length up to the NUL byte.\<close>

definition c_memcpy :: "addr \<Rightarrow> string \<Rightarrow> unit am" where
  "c_memcpy a xs = amod (\<lambda>s. s\<lparr>bytes := write_bytes a (length xs) (\<lambda>i. of_nat (of_char (xs ! i))) (bytes s)\<rparr>)"

definition cn_strndup_impl :: "c_library \<Rightarrow> string \<Rightarrow> nat \<Rightarrow> string \<Rightarrow> int \<Rightarrow> addr am" where
  "cn_strndup_impl lib str n file ln = abind (cn_alloc_impl lib (of_nat n + 1) file ln) (\<lambda>copy.
     aseq (c_memcpy copy (take n str)) (aseq (c_memset (copy + of_nat n) 0 1) (aret copy)))"

definition cn_strdup_impl :: "c_library \<Rightarrow> string \<Rightarrow> string \<Rightarrow> int \<Rightarrow> addr am" where
  "cn_strdup_impl lib str file ln =
     cn_strndup_impl lib str (length (takeWhile (\<lambda>c. c \<noteq> char_of (0 :: nat)) str)) file ln"

text \<open>
  The default allocator: initialised on first use, when the report at exit is registered too.
  The Boolean is \<open>g_default_allocator_initialized\<close>.
\<close>

definition cn_default_allocator :: "bool \<Rightarrow> bool am" where
  "cn_default_allocator initialized =
     aseq (if initialized then aret () else alloc_mod (\<lambda>_. cn_allocator_init))
       (aseq (abind (aget alloc) (\<lambda>al.
            if al_atexit_registered al then aret () else alloc_mod (\<lambda>al. al\<lparr>al_atexit_registered := True\<rparr>)))
          (aret True))"

definition cn_default_allocator_report :: "c_library \<Rightarrow> unit am" where
  "cn_default_allocator_report lib = aseq (cn_allocator_dump_leaks lib) (cn_allocator_destroy lib)"

end
