(* ===== verification/Memory_Heap.thy ===== *)
theory Memory_Heap
  imports Memory
begin

text \<open>
  Reasoning about the allocator's heap: a weakest-precondition view of its operations, lists that
  are linked through records (doubly linked lists, and the chains of a hash table) as lists of
  addresses, and what each list and table operation does to them.
\<close>

section \<open>Weakest preconditions\<close>

text \<open>
  The operation does return: it gives a result that satisfies the postcondition or aborts with
  a code of \<open>E\<close>.
\<close>

definition awp :: "'a am \<Rightarrow> (string \<Rightarrow> bool) \<Rightarrow> ('a \<Rightarrow> mem_state \<Rightarrow> bool) \<Rightarrow> mem_state \<Rightarrow> bool" where
  "awp m E P s = (case m s of None \<Rightarrow> False | Some (Inl e) \<Rightarrow> E e | Some (Inr (x, s')) \<Rightarrow> P x s')"

lemma awp_bind: "awp (abind m k) E P s = awp m E (\<lambda>x. awp (k x) E P) s"
  by (auto simp: awp_def abind_def split: option.splits sum.splits prod.splits)

lemma awp_basic:
  "awp (aret x) E P s = P x s"
  "awp (cn_memory_fail_code c) E P s = E c"
  "awp (cn_memory_fail n) E P s = E ''R4001''"
  "awp (aget f) E P s = P (f s) s"
  "awp (amod g) E Q s = Q () (g s)"
  "awp (alloc_mod ga) E Q s = Q () (s\<lparr>alloc := ga (alloc s)\<rparr>)"
  "awp (cn_memory_warn rep) E Q s = Q () (s\<lparr>reports := reports s @ [rep]\<rparr>)"
  by (simp_all add: awp_def aret_def cn_memory_fail_code_def cn_memory_fail_def aget_def amod_def alloc_mod_def
      cn_memory_warn_def)

lemma awp_recs:
  "awp (rec_at a) E P s = (\<exists>r. recs s a = Some r \<and> P r s)"
  "awp (rec_mod a f) E Q s = (\<exists>r. recs s a = Some r \<and> Q () (s\<lparr>recs := (recs s)(a \<mapsto> f r)\<rparr>))"
  by (auto simp: awp_def rec_at_def rec_mod_def split: option.splits)

lemma awp_tables:
  "awp (table_get t i) E P s = (\<exists>xs. tables s t = Some xs \<and> i < length xs \<and> P (xs ! i) s)"
  "awp (table_set t i a) E Q s =
     (\<exists>xs. tables s t = Some xs \<and> i < length xs \<and> Q () (s\<lparr>tables := (tables s)(t \<mapsto> xs[i := a])\<rparr>))"
  by (auto simp: awp_def table_get_def table_set_def split: option.splits)

lemma awp_if: "awp (if b then m else n) E P s = (if b then awp m E P s else awp n E P s)"
  by simp

lemma awp_read: "awp (lift_read f) E P s = (\<exists>a. f (recs s) = Some a \<and> P a s)"
  by (auto simp: awp_def lift_read_def split: option.splits)

lemmas awp_simps = awp_bind awp_basic awp_recs awp_tables awp_if awp_read

lemma awp_mono: "awp m E P s \<Longrightarrow> (\<And>x s'. P x s' \<Longrightarrow> Q x s') \<Longrightarrow> (\<And>e. E e \<Longrightarrow> E' e) \<Longrightarrow> awp m E' Q s"
  by (auto simp: awp_def split: option.splits sum.splits)

lemma awp_eq: "m s = Some (Inr (x, s')) \<Longrightarrow> awp m E P s = P x s'"
  by (simp add: awp_def)

lemma awp_returns: "awp m E P s \<Longrightarrow> (\<exists>e. m s = Some (Inl e) \<and> E e) \<or> (\<exists>x s'. m s = Some (Inr (x, s')) \<and> P x s')"
  by (auto simp: awp_def split: option.splits sum.splits)

section \<open>Lists of records\<close>

type_synonym rec_heap = "addr \<Rightarrow> cn_mem_record option"

text \<open>
  \<open>dseg h p a xs q\<close>: the records \<open>xs\<close> are linked in both directions, the first is at \<open>a\<close>, its
  predecessor is \<open>p\<close> and the successor of the last is \<open>q\<close>.
\<close>

fun dseg :: "rec_heap \<Rightarrow> addr \<Rightarrow> addr \<Rightarrow> addr list \<Rightarrow> addr \<Rightarrow> bool" where
  "dseg h p a [] q = (a = q)"
| "dseg h p a (x # xs) q = (a = x \<and> x \<noteq> 0 \<and> (\<exists>r. h x = Some r \<and> mr_prev r = p \<and> dseg h x (mr_next r) xs q))"

abbreviation dlist :: "rec_heap \<Rightarrow> addr \<Rightarrow> addr list \<Rightarrow> bool" where
  "dlist h a xs \<equiv> dseg h 0 a xs 0"

lemma dseg_append:
  "dseg h p a (xs @ ys) q \<longleftrightarrow> (\<exists>m. dseg h p a xs m \<and> dseg h (if xs = [] then p else last xs) m ys q)"
  by (induction xs arbitrary: p a) auto

text \<open>The parts of a record that the list operations change.\<close>

definition links :: "cn_mem_record \<Rightarrow> addr \<times> addr" where
  "links r = (mr_prev r, mr_next r)"

definition unlinked :: "cn_mem_record \<Rightarrow> cn_mem_record" where
  "unlinked r = r\<lparr>mr_prev := 0, mr_next := 0\<rparr>"

definition unchained :: "cn_mem_record \<Rightarrow> cn_mem_record" where
  "unchained r = r\<lparr>mr_bucket_next := 0\<rparr>"

definition same :: "(cn_mem_record \<Rightarrow> 'a) \<Rightarrow> rec_heap \<Rightarrow> rec_heap \<Rightarrow> addr \<Rightarrow> bool" where
  "same f h h' y \<longleftrightarrow> map_option f (h' y) = map_option f (h y)"

lemma same_refl [simp]: "same f h h y"
  by (simp add: same_def)

lemma same_trans: "same f h h' y \<Longrightarrow> same f h' h'' y \<Longrightarrow> same f h h'' y"
  by (simp add: same_def)

lemma same_comp: "same f h h' y \<Longrightarrow> (\<And>r. g r = k (f r)) \<Longrightarrow> same g h h' y"
  by (cases "h y"; cases "h' y") (auto simp: same_def)

lemma same_SomeD: "same f h h' y \<Longrightarrow> h y = Some r \<Longrightarrow> \<exists>r'. h' y = Some r' \<and> f r' = f r"
  by (auto simp: same_def)

lemma links_unchained: "links r = links (unchained r)"
  by (simp add: links_def unchained_def)

lemma dseg_same:
  assumes "\<forall>y \<in> set xs. same links h h' y"
  shows "dseg h' p a xs q = dseg h p a xs q"
  using assms
proof (induction xs arbitrary: p a)
  case (Cons x xs)
  then have "map_option links (h' x) = map_option links (h x)" by (simp add: same_def)
  with Cons show ?case by (cases "h x"; cases "h' x") (auto simp: links_def)
qed simp

lemma dseg_upd [simp]: "x \<notin> set xs \<Longrightarrow> dseg (h(x := v)) p a xs q = dseg h p a xs q"
  by (rule dseg_same) (auto simp: same_def)

lemma dseg_Some: "dseg h p a xs q \<Longrightarrow> x \<in> set xs \<Longrightarrow> \<exists>r. h x = Some r"
  by (induction xs arbitrary: p a) auto

lemma dseg_nonnull: "dseg h p a xs q \<Longrightarrow> 0 \<notin> set xs"
  by (induction xs arbitrary: p a) auto

lemma dseg_head: "dseg h p a xs 0 \<Longrightarrow> a = (if xs = [] then 0 else hd xs)"
  by (cases xs) auto

text \<open>Insertion at the head.\<close>

definition linked_head :: "rec_heap \<Rightarrow> addr \<Rightarrow> addr \<Rightarrow> cn_mem_record \<Rightarrow> rec_heap" where
  "linked_head h head x r =
     (let h1 = h(x \<mapsto> r\<lparr>mr_prev := 0, mr_next := head\<rparr>) in
      case h1 head of Some n \<Rightarrow> if head \<noteq> 0 then h1(head \<mapsto> n\<lparr>mr_prev := x\<rparr>) else h1 | None \<Rightarrow> h1)"

lemma linked_head_dlist:
  assumes "dlist h head xs" and "x \<notin> set xs" and "x \<noteq> 0" and "distinct xs"
  shows "dlist (linked_head h head x r) x (x # xs)"
  using assms by (cases xs) (auto simp: linked_head_def Let_def split: option.splits)

lemma linked_head_same: "h x = Some r \<Longrightarrow> same unlinked h (linked_head h head x r) y"
  by (auto simp: linked_head_def same_def unlinked_def Let_def split: option.splits)

lemma linked_head_frame:
  "y \<noteq> x \<Longrightarrow> y \<noteq> head \<Longrightarrow> linked_head h head x r y = h y"
  by (auto simp: linked_head_def Let_def split: option.splits)

text \<open>Removal.\<close>

definition link_next :: "rec_heap \<Rightarrow> addr \<Rightarrow> addr \<Rightarrow> rec_heap" where
  "link_next h p n = (case h p of Some r \<Rightarrow> if p \<noteq> 0 then h(p \<mapsto> r\<lparr>mr_next := n\<rparr>) else h | None \<Rightarrow> h)"

definition link_prev :: "rec_heap \<Rightarrow> addr \<Rightarrow> addr \<Rightarrow> rec_heap" where
  "link_prev h n p = (case h n of Some r \<Rightarrow> if n \<noteq> 0 then h(n \<mapsto> r\<lparr>mr_prev := p\<rparr>) else h | None \<Rightarrow> h)"

lemma link_other [simp]: "y \<noteq> p \<Longrightarrow> link_next h p n y = h y" "y \<noteq> n' \<Longrightarrow> link_prev h n' q y = h y"
  by (auto simp: link_next_def link_prev_def split: option.splits)

lemma link_next_last:
  assumes "dseg h p a (us @ [u]) q" and "distinct (us @ [u])"
  shows "dseg (link_next h u n) p a (us @ [u]) n"
  using assms by (auto simp: dseg_append link_next_def)

lemma link_prev_first:
  assumes "dseg h p n (v # vs) q" and "v \<notin> set vs"
  shows "dseg (link_prev h n p') p' n (v # vs) q"
  using assms by (auto simp: link_prev_def)

lemma dseg_link_next_other [simp]: "u \<notin> set xs \<Longrightarrow> dseg (link_next h u n) p a xs q = dseg h p a xs q"
  by (rule dseg_same) (metis link_other(1) same_def)

lemma dseg_link_prev_other [simp]: "u \<notin> set xs \<Longrightarrow> dseg (link_prev h u n) p a xs q = dseg h p a xs q"
  by (rule dseg_same) (metis link_other(2) same_def)

text \<open>The record at \<open>x\<close> of the list \<open>xs @ x # ys\<close> and what its removal leaves.\<close>

definition before :: "addr list \<Rightarrow> addr" where
  "before xs = (if xs = [] then 0 else last xs)"

definition after :: "addr list \<Rightarrow> addr" where
  "after ys = (if ys = [] then 0 else hd ys)"

lemma dlist_split:
  assumes "dlist h a (xs @ x # ys)"
  obtains r where "h x = Some r" and "mr_prev r = before xs" and "mr_next r = after ys"
    and "dseg h 0 a xs x" and "dseg h x (after ys) ys 0" and "x \<noteq> 0"
  using assms by (cases ys) (auto simp: dseg_append before_def after_def)

definition removed :: "rec_heap \<Rightarrow> addr list \<Rightarrow> addr \<Rightarrow> addr list \<Rightarrow> rec_heap" where
  "removed h xs x ys =
     (let h1 = link_prev (link_next h (before xs) (after ys)) (after ys) (before xs) in
      case h1 x of None \<Rightarrow> h1 | Some r \<Rightarrow> h1(x \<mapsto> r\<lparr>mr_prev := 0, mr_next := 0\<rparr>))"

lemma before_in: "xs \<noteq> [] \<Longrightarrow> before xs \<in> set xs" and after_in: "ys \<noteq> [] \<Longrightarrow> after ys \<in> set ys"
  by (auto simp: before_def after_def)

lemma removed_dlist:
  assumes "dlist h a (xs @ x # ys)" and "distinct (xs @ x # ys)"
  shows "dlist (removed h xs x ys) (if xs = [] then after ys else a) (xs @ ys)"
proof -
  from dlist_split [OF assms(1)] obtain r where r: "h x = Some r" "dseg h 0 a xs x" "dseg h x (after ys) ys 0" "x \<noteq> 0"
    by metis
  let ?h1 = "link_prev (link_next h (before xs) (after ys)) (after ys) (before xs)"
  have nin: "after ys \<notin> set xs" "before xs \<notin> set ys"
    using assms before_in [of xs] after_in [of ys] dseg_nonnull [OF r(2)] dseg_nonnull [OF r(3)]
    by (auto simp: before_def after_def dest: last_in_set hd_in_set)
  have left: "dseg ?h1 0 (if xs = [] then after ys else a) xs (after ys)"
  proof (cases xs rule: rev_cases)
    case (snoc us u)
    with link_next_last [of h 0 a us u x "after ys"] r assms(2) nin show ?thesis
      by (simp add: before_def)
  qed simp
  have right: "dseg ?h1 (before xs) (after ys) ys 0"
  proof (cases ys)
    case (Cons v vs)
    from r(3) nin(2) have "dseg (link_next h (before xs) (after ys)) x (after ys) (v # vs) 0"
      unfolding Cons [symmetric] by (simp only: dseg_link_next_other not_False_eq_True)
    from link_prev_first [OF this, of "before xs"] Cons assms(2) show ?thesis by (simp add: after_def)
  qed (simp add: after_def)
  from left right assms(2) show ?thesis
    by (auto simp: removed_def dseg_append before_def Let_def split: option.splits)
qed

lemma removed_same: "same unlinked h (removed h xs x ys) y"
  by (auto simp: removed_def same_def unlinked_def link_next_def link_prev_def Let_def split: option.splits)

lemma removed_frame:
  assumes "y \<noteq> x" and "y \<notin> set xs" and "y \<notin> set ys" and "y \<noteq> 0"
  shows "removed h xs x ys y = h y"
proof -
  have "y \<noteq> before xs" "y \<noteq> after ys"
    using assms before_in [of xs] after_in [of ys] by (auto simp: before_def after_def split: if_splits)
  with assms(1) show ?thesis by (simp add: removed_def Let_def split: option.splits)
qed

end
