(* ===== verification/Memory_Index.thy ===== *)
theory Memory_Index
  imports Memory_Heap
begin

text \<open>
  The list operations and the hash tables of the allocator: what \<open>cn_list_insert_head\<close>,
  \<open>cn_list_remove_record\<close>, the bucket operations and rehashing do to the lists and to the set of
  records that a table indexes.
\<close>

lemmas am_defs = abind_def aret_def aget_def amod_def alloc_mod_def rec_at_def rec_mod_def table_get_def table_set_def
  set_head_def set_tail_def list_head_def

section \<open>List operations\<close>

definition push_head :: "which \<Rightarrow> addr list \<Rightarrow> addr \<Rightarrow> cn_allocator \<Rightarrow> cn_allocator" where
  "push_head w xs x al = (case w of Live \<Rightarrow> al\<lparr>al_head := x\<rparr>
     | Freed \<Rightarrow> al\<lparr>al_freed_head := x, al_freed_tail := (if xs = [] then x else al_freed_tail al)\<rparr>)"

definition head_of :: "which \<Rightarrow> cn_allocator \<Rightarrow> addr" where
  "head_of w al = (case w of Live \<Rightarrow> al_head al | Freed \<Rightarrow> al_freed_head al)"

lemma insert_head_eq:
  assumes "dlist (recs s) (head_of w (alloc s)) xs" and "recs s x = Some r" and "x \<noteq> 0"
  shows "cn_list_insert_head w x s = Some (Inr ((),
    s\<lparr>recs := linked_head (recs s) (head_of w (alloc s)) x r, alloc := push_head w xs x (alloc s)\<rparr>))"
  using assms
  by (cases w; cases xs)
    (auto simp: cn_list_insert_head_def am_defs linked_head_def push_head_def head_of_def Let_def split: option.splits)

definition drop_record :: "which \<Rightarrow> addr list \<Rightarrow> addr list \<Rightarrow> cn_allocator \<Rightarrow> cn_allocator" where
  "drop_record w xs ys al = (case w of Live \<Rightarrow> al\<lparr>al_head := (if xs = [] then after ys else al_head al)\<rparr>
     | Freed \<Rightarrow> al\<lparr>al_freed_head := (if xs = [] then after ys else al_freed_head al),
         al_freed_tail := (if ys = [] then before xs else al_freed_tail al)\<rparr>)"

lemma remove_record_eq:
  assumes "dlist (recs s) a (xs @ x # ys)" and "distinct (xs @ x # ys)"
  shows "cn_list_remove_record w x s = Some (Inr ((),
    s\<lparr>recs := removed (recs s) xs x ys, alloc := drop_record w xs ys (alloc s)\<rparr>))"
proof -
  from dlist_split [OF assms(1)] obtain r where r: "recs s x = Some r" "mr_prev r = before xs" "mr_next r = after ys"
      "dseg (recs s) 0 a xs x" "dseg (recs s) x (after ys) ys 0" by metis
  have p: "before xs = 0 \<longleftrightarrow> xs = []" "after ys = 0 \<longleftrightarrow> ys = []"
    using dseg_nonnull [OF r(4)] dseg_nonnull [OF r(5)] by (metis before_def before_in, metis after_def after_in)
  have ne: "before xs \<noteq> x \<or> xs = []" "after ys \<noteq> x \<or> ys = []" "xs = [] \<or> ys = [] \<or> before xs \<noteq> after ys"
    using assms(2) before_in [of xs] after_in [of ys] by auto
  have def: "xs \<noteq> [] \<Longrightarrow> \<exists>rp. recs s (before xs) = Some rp" "ys \<noteq> [] \<Longrightarrow> \<exists>rn. recs s (after ys) = Some rn"
    using dseg_Some [OF r(4) before_in] dseg_Some [OF r(5) after_in] by auto
  show ?thesis
    using r(1-3) p ne def
    by (cases w; cases "xs = []"; cases "ys = []")
      (auto simp: cn_list_remove_record_def am_defs removed_def link_next_def link_prev_def drop_record_def Let_def
        split: option.splits)
qed

section \<open>Chains\<close>

fun chain :: "rec_heap \<Rightarrow> addr \<Rightarrow> addr list \<Rightarrow> bool" where
  "chain h a [] = (a = 0)"
| "chain h a (x # xs) = (a = x \<and> x \<noteq> 0 \<and> (\<exists>r. h x = Some r \<and> chain h (mr_bucket_next r) xs))"

lemma chain_same:
  assumes "\<forall>y \<in> set xs. same mr_bucket_next h h' y"
  shows "chain h' a xs = chain h a xs"
  using assms
proof (induction xs arbitrary: a)
  case (Cons x xs)
  then have "map_option mr_bucket_next (h' x) = map_option mr_bucket_next (h x)" by (simp add: same_def)
  with Cons show ?case by (cases "h x"; cases "h' x") auto
qed simp

lemma chain_upd [simp]: "x \<notin> set xs \<Longrightarrow> chain (h(x := v)) a xs = chain h a xs"
  by (rule chain_same) (auto simp: same_def)

lemma chain_unique: "chain h a xs \<Longrightarrow> chain h a ys \<Longrightarrow> xs = ys"
proof (induction xs arbitrary: a ys)
  case Nil
  then show ?case by (cases ys) auto
next
  case (Cons x xs)
  then show ?case by (cases ys) auto
qed

lemma chain_suffix: "chain h a (us @ x # vs) \<Longrightarrow> chain h x (x # vs)"
  by (induction us arbitrary: a) auto

lemma chain_distinct: "chain h a xs \<Longrightarrow> distinct xs"
proof (induction xs arbitrary: a)
  case (Cons x xs)
  have "x \<notin> set xs"
  proof
    assume "x \<in> set xs"
    then obtain us vs where xs: "xs = us @ x # vs" by (auto simp: in_set_conv_decomp)
    from Cons.prems obtain b where "chain h b xs" by auto
    then have "chain h x (x # vs)" unfolding xs by (rule chain_suffix)
    moreover from Cons.prems have "chain h x (x # xs)" by simp
    ultimately have "x # vs = x # xs" by (rule chain_unique)
    then have "length vs = length xs" by simp
    with arg_cong [OF xs, of length] show False by simp
  qed
  with Cons show ?case by auto
qed simp

lemma chain_Some: "chain h a xs \<Longrightarrow> x \<in> set xs \<Longrightarrow> \<exists>r. h x = Some r \<and> x \<noteq> 0"
  by (induction xs arbitrary: a) auto

text \<open>Searching a chain.\<close>

definition ptr_of :: "rec_heap \<Rightarrow> addr \<Rightarrow> addr" where
  "ptr_of h x = mr_ptr (the (h x))"

lemma find_chain_miss: "chain h a xs \<Longrightarrow> \<forall>x \<in> set xs. ptr_of h x \<noteq> p \<Longrightarrow> find_chain h a p = Some 0"
  by (induction xs arbitrary: a) (auto simp: find_chain.simps ptr_of_def)

lemma find_chain_hit:
  assumes "chain h a xs" and "x \<in> set xs" and "ptr_of h x = p" and "inj_on (ptr_of h) (set xs)"
  shows "find_chain h a p = Some x"
  using assms
proof (induction xs arbitrary: a)
  case (Cons y ys)
  show ?case
  proof (cases "y = x")
    case True
    with Cons.prems show ?thesis by (auto simp: find_chain.simps ptr_of_def)
  next
    case False
    with Cons.prems have "ptr_of h y \<noteq> p" by (auto simp: inj_on_def)
    with False Cons show ?thesis by (auto simp: find_chain.simps [of h y] ptr_of_def)
  qed
qed simp

text \<open>Removal from a chain, through the slot that holds the record.\<close>

lemma find_slot_miss: "chain h a xs \<Longrightarrow> x \<notin> set xs \<Longrightarrow> find_slot h sl a x = Some None"
  by (induction xs arbitrary: a sl) (auto simp: find_slot.simps)

lemma find_slot_hit:
  "chain h a (us @ x # vs) \<Longrightarrow> x \<notin> set us \<Longrightarrow>
   find_slot h sl a x = Some (Some (if us = [] then sl else Link (last us)))"
  by (induction us arbitrary: a sl) (auto simp: find_slot.simps)

definition unchain :: "rec_heap \<Rightarrow> addr list \<Rightarrow> addr \<Rightarrow> rec_heap" where
  "unchain h us x =
     (let n = mr_bucket_next (the (h x));
          h1 = if us = [] then h else h(last us \<mapsto> (the (h (last us)))\<lparr>mr_bucket_next := n\<rparr>)
      in h1(x \<mapsto> (the (h1 x))\<lparr>mr_bucket_next := 0\<rparr>))"

lemma unchain_chain:
  assumes "chain h a (us @ x # vs)"
  shows "chain (unchain h us x) (if us = [] then mr_bucket_next (the (h x)) else a) (us @ vs)"
proof -
  note d = chain_distinct [OF assms]
  have gen: "chain (h(u \<mapsto> (the (h u))\<lparr>mr_bucket_next := mr_bucket_next (the (h x))\<rparr>)) a (ws @ u # vs)"
    if "chain h a (ws @ u # x # vs)" "distinct (ws @ u # x # vs)" for ws :: "addr list" and u a
    using that by (induction ws arbitrary: a) auto
  show ?thesis
  proof (cases us rule: rev_cases)
    case Nil
    with assms d show ?thesis by (auto simp: unchain_def)
  next
    case (snoc ws u)
    with assms d gen [of a ws u] show ?thesis by (auto simp: unchain_def Let_def)
  qed
qed

lemma unchain_same:
  assumes "h x = Some r" and "us \<noteq> [] \<Longrightarrow> \<exists>q. h (last us) = Some q"
  shows "same unchained h (unchain h us x) y"
  using assms by (auto simp: unchain_def same_def unchained_def Let_def)

lemma unchain_frame: "y \<noteq> x \<Longrightarrow> y \<notin> set us \<Longrightarrow> unchain h us x y = h y"
  by (auto simp: unchain_def Let_def)

section \<open>Tables\<close>

definition bucket_of :: "rec_heap \<Rightarrow> nat \<Rightarrow> addr \<Rightarrow> nat" where
  "bucket_of h cap x = cn_bucket_index_for cap (ptr_of h x)"

text \<open>The table \<open>xs\<close> indexes exactly the records \<open>S\<close>: each bucket chains those that hash to it.\<close>

definition indexed :: "rec_heap \<Rightarrow> addr list \<Rightarrow> nat \<Rightarrow> addr set \<Rightarrow> bool" where
  "indexed h xs cap S \<longleftrightarrow> length xs = cap
     \<and> (\<forall>i < cap. \<exists>c. chain h (xs ! i) c \<and> set c = {x \<in> S. bucket_of h cap x = i})"

lemma bucket_index_less: "0 < cap \<Longrightarrow> cn_bucket_index_for cap p < cap"
proof -
  assume "0 < cap"
  have "int (unat (cn_ptr_hash p) AND (cap - 1)) \<le> int (cap - 1)" by (simp only: of_nat_and_eq AND_upper2 of_nat_0_le_iff)
  with \<open>0 < cap\<close> show ?thesis by (simp add: cn_bucket_index_for_def)
qed

lemma indexed_bucket:
  assumes "indexed h xs cap S" and "0 < cap"
  obtains c where "cn_bucket_index_for cap p < length xs" and "chain h (xs ! cn_bucket_index_for cap p) c"
    and "set c = {x \<in> S. bucket_of h cap x = cn_bucket_index_for cap p}"
proof -
  note less = bucket_index_less [OF assms(2), of p]
  with assms(1) obtain c where "chain h (xs ! cn_bucket_index_for cap p) c"
      "set c = {x \<in> S. bucket_of h cap x = cn_bucket_index_for cap p}" unfolding indexed_def by blast
  with less assms(1) show ?thesis by (intro that) (auto simp: indexed_def)
qed

definition chain_part :: "cn_mem_record \<Rightarrow> addr \<times> addr" where
  "chain_part r = (mr_bucket_next r, mr_ptr r)"

lemma ptr_of_same: "same chain_part h h' y \<Longrightarrow> ptr_of h' y = ptr_of h y \<or> h y = None"
  by (cases "h y"; cases "h' y") (auto simp: same_def chain_part_def ptr_of_def)

lemma indexed_same:
  assumes "indexed h xs cap S" and "\<forall>y \<in> S. same chain_part h h' y" and "\<forall>y \<in> S. h y \<noteq> None"
  shows "indexed h' xs cap S"
proof -
  have b: "bucket_of h' cap y = bucket_of h cap y" if "y \<in> S" for y
    using that assms(2,3) ptr_of_same by (fastforce simp: bucket_of_def)
  have "\<exists>c. chain h' (xs ! i) c \<and> set c = {x \<in> S. bucket_of h' cap x = i}" if "i < cap" for i
  proof -
    from that assms(1) obtain c where c: "chain h (xs ! i) c" "set c = {x \<in> S. bucket_of h cap x = i}"
      by (auto simp: indexed_def)
    have "\<forall>y \<in> set c. same mr_bucket_next h h' y"
      using c(2) assms(2) same_comp [of chain_part h h' _ mr_bucket_next fst] by (auto simp: chain_part_def)
    then have "chain h' (xs ! i) c" using c(1) by (simp add: chain_same)
    moreover have "set c = {x \<in> S. bucket_of h' cap x = i}" using c(2) b by auto
    ultimately show ?thesis by blast
  qed
  with assms(1) show ?thesis by (simp add: indexed_def)
qed

lemma indexed_Some: "indexed h xs cap S \<Longrightarrow> 0 < cap \<Longrightarrow> x \<in> S \<Longrightarrow> \<exists>r. h x = Some r \<and> x \<noteq> 0"
  using bucket_index_less [of cap "ptr_of h x"] chain_Some unfolding indexed_def bucket_of_def by blast

text \<open>Lookup.\<close>

definition lookup :: "rec_heap \<Rightarrow> addr set \<Rightarrow> addr \<Rightarrow> addr" where
  "lookup h S p = (if \<exists>x \<in> S. ptr_of h x = p then the_inv_into S (ptr_of h) p else 0)"

lemma lookup_hit: "inj_on (ptr_of h) S \<Longrightarrow> x \<in> S \<Longrightarrow> ptr_of h x = p \<Longrightarrow> lookup h S p = x"
  by (auto simp: lookup_def the_inv_into_f_f)

lemma lookup_miss: "\<forall>x \<in> S. ptr_of h x \<noteq> p \<Longrightarrow> lookup h S p = 0"
  by (auto simp: lookup_def)

lemma find_record_eq:
  assumes "tables s t = Some xs" and "indexed (recs s) xs cap S" and "0 < cap" and "inj_on (ptr_of (recs s)) S"
  shows "cn_find_record_in_buckets t cap p s = Some (Inr (lookup (recs s) S p, s))"
proof -
  obtain c where c: "cn_bucket_index_for cap p < length xs" "chain (recs s) (xs ! cn_bucket_index_for cap p) c"
      "set c = {x \<in> S. bucket_of (recs s) cap x = cn_bucket_index_for cap p}"
    using indexed_bucket [OF assms(2,3), of p] .
  have "find_chain (recs s) (xs ! cn_bucket_index_for cap p) p = Some (lookup (recs s) S p)"
  proof (cases "\<exists>x \<in> S. ptr_of (recs s) x = p")
    case True
    then obtain x where x: "x \<in> S" "ptr_of (recs s) x = p" by blast
    with c have "x \<in> set c" by (auto simp: bucket_of_def)
    moreover have "inj_on (ptr_of (recs s)) (set c)" using assms(4) c(3) by (auto simp: inj_on_def)
    ultimately show ?thesis using find_chain_hit [OF c(2) _ x(2)] by (simp add: lookup_hit [OF assms(4) x])
  next
    case False
    with c show ?thesis by (auto simp: lookup_miss intro!: find_chain_miss)
  qed
  with assms(1,3) c(1) show ?thesis
    by (simp add: cn_find_record_in_buckets_def am_defs lift_read_def)
qed

text \<open>Insertion.\<close>

lemma indexed_insert:
  assumes "indexed h xs cap S" and "0 < cap" and "h x = Some r" and "x \<notin> S" and "x \<noteq> 0"
    and "i = cn_bucket_index_for cap (mr_ptr r)"
  shows "indexed (h(x \<mapsto> r\<lparr>mr_bucket_next := xs ! i\<rparr>)) (xs[i := x]) cap (insert x S)"
proof -
  let ?h = "h(x \<mapsto> r\<lparr>mr_bucket_next := xs ! i\<rparr>)"
  have bx: "bucket_of ?h cap x = i" and bo: "\<And>y. y \<in> S \<Longrightarrow> bucket_of ?h cap y = bucket_of h cap y"
    using assms by (auto simp: bucket_of_def ptr_of_def)
  have i: "i < cap" using assms(2,6) bucket_index_less by simp
  have "\<exists>c. chain ?h (xs[i := x] ! j) c \<and> set c = {y \<in> insert x S. bucket_of ?h cap y = j}" if "j < cap" for j
  proof -
    from that assms(1) obtain c where c: "chain h (xs ! j) c" "set c = {y \<in> S. bucket_of h cap y = j}"
      by (auto simp: indexed_def)
    with assms(4) have "x \<notin> set c" by auto
    with c have ch: "chain ?h (xs ! j) c" by simp
    show ?thesis
    proof (cases "j = i")
      case True
      with ch assms(1,5) i have "chain ?h (xs[i := x] ! j) (x # c)" by (simp add: indexed_def)
      moreover have "set (x # c) = {y \<in> insert x S. bucket_of ?h cap y = j}" using c(2) bx bo True by auto
      ultimately show ?thesis by blast
    next
      case False
      with ch c(2) bx bo have "chain ?h (xs[i := x] ! j) c \<and> set c = {y \<in> insert x S. bucket_of ?h cap y = j}" by auto
      then show ?thesis by blast
    qed
  qed
  with assms(1) show ?thesis by (simp add: indexed_def)
qed

lemma bucket_insert_eq:
  assumes "tables s t = Some xs" and "indexed (recs s) xs cap S" and "0 < cap" and "recs s x = Some r"
    and "x \<notin> S" and "x \<noteq> 0" and "i = cn_bucket_index_for cap (mr_ptr r)"
  shows "cn_bucket_insert_record t cap x s = Some (Inr ((),
      s\<lparr>recs := (recs s)(x \<mapsto> r\<lparr>mr_bucket_next := xs ! i\<rparr>), tables := (tables s)(t \<mapsto> xs[i := x])\<rparr>))"
  using assms bucket_index_less [OF assms(3), of "mr_ptr r"]
  by (auto simp: cn_bucket_insert_record_def am_defs indexed_def Let_def)

text \<open>Removal.\<close>

lemma ptr_of_unchained: "same unchained h h' y \<Longrightarrow> ptr_of h' y = ptr_of h y \<or> h y = None"
  using same_comp [of unchained h h' y mr_ptr mr_ptr] by (cases "h y") (auto simp: same_def unchained_def ptr_of_def)

lemma indexed_remove:
  assumes ix: "indexed h xs cap S" and "0 < cap" and x: "x \<in> S" and i: "i = bucket_of h cap x"
    and c: "chain h (xs ! i) (us @ x # vs)" "set (us @ x # vs) = {y \<in> S. bucket_of h cap y = i}"
  shows "indexed (unchain h us x) (if us = [] then xs[i := mr_bucket_next (the (h x))] else xs) cap (S - {x})"
    (is "indexed ?h ?xs cap _")
proof -
  have some: "\<And>y. y \<in> S \<Longrightarrow> \<exists>r. h y = Some r" using indexed_Some [OF ix assms(2)] by blast
  from c(2) have "set us \<subseteq> S" by auto
  with some have same: "same unchained h ?h y" for y
    using some [OF x] by (auto intro!: unchain_same some dest: last_in_set)
  have bo: "bucket_of ?h cap y = bucket_of h cap y" if "y \<in> S" for y
    using ptr_of_unchained [OF same, of y] some [OF that] by (auto simp: bucket_of_def)
  have il: "i < cap" using i bucket_index_less [OF assms(2)] by (simp add: bucket_of_def)
  have "\<exists>d. chain ?h (?xs ! j) d \<and> set d = {y \<in> S - {x}. bucket_of ?h cap y = j}" if j: "j < cap" for j
  proof (cases "j = i")
    case True
    have "chain ?h (?xs ! j) (us @ vs)" using unchain_chain [OF c(1)] True il ix by (auto simp: indexed_def)
    moreover have "set (us @ vs) = {y \<in> S - {x}. bucket_of ?h cap y = j}"
    proof -
      have "set (us @ vs) = {y \<in> S. bucket_of h cap y = i} - {x}" using c(2) chain_distinct [OF c(1)] by auto
      with bo True show ?thesis by auto
    qed
    ultimately show ?thesis by blast
  next
    case False
    from j ix obtain d where d: "chain h (xs ! j) d" "set d = {y \<in> S. bucket_of h cap y = j}" by (auto simp: indexed_def)
    have nx: "x \<notin> set d" "set us \<inter> set d = {}" using False d(2) c(2) i by auto
    have "\<forall>y \<in> set d. ?h y = h y" using nx unchain_frame by (metis disjoint_iff)
    then have "chain ?h (xs ! j) d = chain h (xs ! j) d" by (intro chain_same) (simp add: same_def)
    with d(1) False have "chain ?h (?xs ! j) d" by auto
    moreover have "set d = {y \<in> S - {x}. bucket_of ?h cap y = j}" using d(2) bo nx(1) by auto
    ultimately show ?thesis by blast
  qed
  with ix show ?thesis by (simp add: indexed_def)
qed

lemma bucket_remove_eq:
  assumes "tables s t = Some xs" and ix: "indexed (recs s) xs cap S" and "0 < cap" and x: "x \<in> S"
    and p: "p = ptr_of (recs s) x"
  obtains h' xs' where "cn_bucket_remove_record t cap x p s =
      Some (Inr ((), s\<lparr>recs := h', tables := (tables s)(t \<mapsto> xs')\<rparr>))"
    and "indexed h' xs' cap (S - {x})" and "\<forall>y. same unchained (recs s) h' y" and "\<forall>y. y \<notin> S \<longrightarrow> h' y = recs s y"
proof -
  let ?i = "cn_bucket_index_for cap p" and ?h = "recs s"
  obtain c where c: "?i < length xs" "chain ?h (xs ! ?i) c" "set c = {y \<in> S. bucket_of ?h cap y = ?i}"
    using indexed_bucket [OF ix assms(3), of p] .
  have "x \<in> set c" using c(3) x p by (auto simp: bucket_of_def)
  then obtain us vs where us: "c = us @ x # vs" by (auto simp: in_set_conv_decomp)
  have xus: "x \<notin> set us" using chain_distinct [OF c(2)] us by auto
  obtain r where r: "?h x = Some r" using indexed_Some [OF ix assms(3) x] by blast
  have sub: "set us \<subseteq> S" using c(3) us by auto
  have some: "\<exists>q. ?h (last us) = Some q" if "us \<noteq> []"
    using indexed_Some [OF ix assms(3), of "last us"] sub last_in_set [OF that] by auto
  have lx: "last us \<noteq> x" if "us \<noteq> []" using last_in_set [OF that] xus by auto
  let ?xs = "if us = [] then xs[?i := mr_bucket_next r] else xs"
  have "find_slot ?h (Cell ?i) (xs ! ?i) x = Some (Some (if us = [] then Cell ?i else Link (last us)))"
    using find_slot_hit [OF c(2) [unfolded us] xus] .
  then have op: "cn_bucket_remove_record t cap x p s =
      abind (rec_at x) (\<lambda>r. aseq (slot_set t (if us = [] then Cell ?i else Link (last us)) (mr_bucket_next r))
        (rec_mod x (\<lambda>r. r\<lparr>mr_bucket_next := 0\<rparr>))) s"
    using assms(1,3) c(1) by (simp add: cn_bucket_remove_record_def am_defs Let_def)
  have "cn_bucket_remove_record t cap x p s =
      Some (Inr ((), s\<lparr>recs := unchain ?h us x, tables := (tables s)(t \<mapsto> ?xs)\<rparr>))"
  proof (cases "us = []")
    case True
    with assms(1) c(1) r show ?thesis unfolding op by (simp add: am_defs slot_set_def unchain_def)
  next
    case False
    with some obtain q where "?h (last us) = Some q" by blast
    with False assms(1) r lx show ?thesis
      unfolding op by (simp add: am_defs slot_set_def unchain_def fun_upd_idem)
  qed
  moreover have "indexed (unchain ?h us x) ?xs cap (S - {x})"
    using indexed_remove [OF ix assms(3) x _ c(2) [unfolded us]] c(3) us p r by (auto simp: bucket_of_def)
  moreover have "same unchained ?h (unchain ?h us x) y" for y
    using unchain_same [OF r some] .
  moreover have "unchain ?h us x y = ?h y" if "y \<notin> S" for y
    using that x sub by (intro unchain_frame) auto
  ultimately show ?thesis using that by blast
qed

text \<open>Rehashing.\<close>

lemma indexed_empty: "indexed h (replicate cap 0) cap {}"
  by (auto simp: indexed_def intro: exI [of _ "[]"])

lemma rehash_loop_eq:
  assumes "dseg (recs s) p a R 0" and "tables s t = Some xs" and "indexed (recs s) xs cap S" and "0 < cap"
    and "distinct R" and "set R \<inter> S = {}"
  shows "\<exists>h' xs'. rehash_loop cap t a s = Some (Inr ((), s\<lparr>recs := h', tables := (tables s)(t \<mapsto> xs')\<rparr>))
    \<and> indexed h' xs' cap (S \<union> set R) \<and> (\<forall>y. same unchained (recs s) h' y) \<and> (\<forall>y. y \<notin> set R \<longrightarrow> h' y = recs s y)"
  using assms
proof (induction R arbitrary: p a s xs S)
  case Nil
  then show ?case
    by (intro exI [of _ "recs s"] exI [of _ xs]) (simp add: rehash_loop.simps aret_def fun_upd_idem)
next
  case (Cons x R)
  then obtain r where r: "a = x" "x \<noteq> 0" "recs s x = Some r" "dseg (recs s) x (mr_next r) R 0" by auto
  let ?i = "cn_bucket_index_for cap (mr_ptr r)"
  let ?h = "(recs s)(x \<mapsto> r\<lparr>mr_bucket_next := xs ! ?i\<rparr>)"
  let ?s = "s\<lparr>recs := ?h, tables := (tables s)(t \<mapsto> xs[?i := x])\<rparr>"
  have il: "?i < length xs" using Cons.prems(3,4) bucket_index_less by (simp add: indexed_def)
  have step: "rehash_loop cap t a s = rehash_loop cap t (mr_next r) ?s"
    using r(1-3) il Cons.prems(2) by (subst rehash_loop.simps) simp
  have ix: "indexed (recs ?s) (xs[?i := x]) cap (insert x S)"
    using indexed_insert [OF Cons.prems(3,4) r(3) _ r(2) refl] Cons.prems(6) by simp
  have ds: "dseg (recs ?s) x (mr_next r) R 0" using r(4) Cons.prems(5) by simp
  have tb: "tables ?s t = Some (xs[?i := x])" by simp
  have "distinct R" "set R \<inter> insert x S = {}" using Cons.prems(5,6) by auto
  from Cons.IH [OF ds tb ix Cons.prems(4) this]
  obtain h' xs' where h': "rehash_loop cap t (mr_next r) ?s = Some (Inr ((), ?s\<lparr>recs := h', tables := (tables ?s)(t \<mapsto> xs')\<rparr>))"
      "indexed h' xs' cap (insert x S \<union> set R)" "\<forall>y. same unchained (recs ?s) h' y" "\<forall>y. y \<notin> set R \<longrightarrow> h' y = recs ?s y"
    by blast
  have "same unchained (recs s) ?h y" for y using r(3) by (simp add: same_def unchained_def)
  moreover have "same unchained ?h h' y" for y using h'(3) by simp
  ultimately have "\<forall>y. same unchained (recs s) h' y" using same_trans by blast
  moreover have "\<forall>y. y \<notin> set (x # R) \<longrightarrow> h' y = recs s y" using h'(4) by auto
  moreover have "rehash_loop cap t a s = Some (Inr ((), s\<lparr>recs := h', tables := (tables s)(t \<mapsto> xs')\<rparr>))"
    using step h'(1) by simp
  moreover have "indexed h' xs' cap (S \<union> set (x # R))" using h'(2) by simp
  ultimately show ?case by blast
qed

end
