(* ===== verification/Memory_Inv.thy ===== *)
theory Memory_Inv
  imports Memory_Index
begin

text \<open>
  The invariant of the allocator's heap and what keeps it. The allocator has two lists of
  records, the live blocks and the quarantine; each is linked in both directions and indexed by a
  hash table.
\<close>

section \<open>The invariant\<close>

text \<open>What a record says about its block, without the links.\<close>

definition info :: "cn_mem_record \<Rightarrow> cn_mem_record" where
  "info r = r\<lparr>mr_prev := 0, mr_next := 0, mr_bucket_next := 0\<rparr>"

definition base_of :: "rec_heap \<Rightarrow> addr \<Rightarrow> addr" where
  "base_of h x = mr_base_ptr (the (h x))"

definition size_of :: "rec_heap \<Rightarrow> addr \<Rightarrow> 64 word" where
  "size_of h x = mr_size (the (h x))"

definition buckets_of :: "which \<Rightarrow> cn_allocator \<Rightarrow> addr" where
  "buckets_of w al = (case w of Live \<Rightarrow> al_buckets al | Freed \<Rightarrow> al_freed_buckets al)"

definition cap_of :: "which \<Rightarrow> cn_allocator \<Rightarrow> nat" where
  "cap_of w al = (case w of Live \<Rightarrow> al_bucket_capacity al | Freed \<Rightarrow> al_freed_bucket_capacity al)"

definition table_ok :: "rec_heap \<Rightarrow> (addr \<Rightarrow> addr list option) \<Rightarrow> addr \<Rightarrow> nat \<Rightarrow> addr set \<Rightarrow> bool" where
  "table_ok h tbs t cap S \<longleftrightarrow>
     (if cap = 0 then t = 0 \<and> S = {} else t \<noteq> 0 \<and> (\<exists>xs. tbs t = Some xs \<and> indexed h xs cap S))"

definition all_of :: "(which \<Rightarrow> addr list) \<Rightarrow> addr set" where
  "all_of LL = set (LL Live) \<union> set (LL Freed)"

definition bucket_arrays :: "cn_allocator \<Rightarrow> addr set" where
  "bucket_arrays al = {al_buckets al, al_freed_buckets al} - {0}"

text \<open>
  The blocks of the C heap that belong to the allocator are pairwise different and allocated:
  the user blocks, the records, the bucket arrays, and \<open>X\<close>, those that an operation in progress
  holds on to.
\<close>

definition blocks_ok :: "addr set \<Rightarrow> mem_state \<Rightarrow> (which \<Rightarrow> addr list) \<Rightarrow> bool" where
  "blocks_ok X s LL \<longleftrightarrow>
     (let R = all_of LL; B = base_of (recs s) ` R; T = bucket_arrays (alloc s) in
      B \<inter> R = {} \<and> B \<inter> T = {} \<and> R \<inter> T = {} \<and> X \<inter> (B \<union> R \<union> T) = {} \<and> 0 \<notin> X \<union> B
      \<and> (al_buckets (alloc s) = al_freed_buckets (alloc s) \<longrightarrow> al_buckets (alloc s) = 0)
      \<and> B \<union> R \<union> T \<union> X \<subseteq> fst ` set (sys_blocks s))"

definition records_ok :: "c_library \<Rightarrow> rec_heap \<Rightarrow> addr set \<Rightarrow> bool" where
  "records_ok lib h R \<longleftrightarrow> inj_on (ptr_of h) R
     \<and> (\<forall>x \<in> R. ptr_of h x = base_of h x + cn_memory_prefix_size lib \<and> ptr_of h x \<noteq> 0 \<and> size_of h x \<noteq> 0)"

definition shape :: "c_library \<Rightarrow> addr set \<Rightarrow> mem_state \<Rightarrow> (which \<Rightarrow> addr list) \<Rightarrow> bool" where
  "shape lib X s LL \<longleftrightarrow>
     (\<forall>w. dlist (recs s) (head_of w (alloc s)) (LL w))
     \<and> (\<forall>w. table_ok (recs s) (tables s) (buckets_of w (alloc s)) (cap_of w (alloc s)) (set (LL w)))
     \<and> al_freed_tail (alloc s) = before (LL Freed)
     \<and> distinct (LL Live @ LL Freed)
     \<and> records_ok lib (recs s) (all_of LL)
     \<and> blocks_ok X s LL"

definition counts :: "mem_state \<Rightarrow> (which \<Rightarrow> addr list) \<Rightarrow> bool" where
  "counts s LL \<longleftrightarrow>
     al_live_blocks (alloc s) = length (LL Live)
     \<and> al_live_bytes (alloc s) = sum_list (map (size_of (recs s)) (LL Live))
     \<and> al_quarantine_blocks (alloc s) = length (LL Freed)
     \<and> al_quarantine_bytes (alloc s) = sum_list (map (size_of (recs s)) (LL Freed))"

text \<open>What the allocator relies on in the C library.\<close>

definition c_library_ok :: "c_library \<Rightarrow> bool" where
  "c_library_ok lib \<longleftrightarrow>
     (\<forall>n bs sz. let a = lib_malloc lib n bs sz in
        a = 0 \<or> a \<notin> fst ` set bs \<and> unat a + unat sz \<le> 2 ^ 64)
     \<and> (\<forall>n bs old sz. let a = lib_realloc lib n bs old sz in
        a = 0 \<or> (a = old \<or> a \<notin> fst ` set bs) \<and> unat a + unat sz \<le> 2 ^ 64)
     \<and> 0 < lib_max_align lib"

section \<open>Frame lemmas\<close>

lemma info_parts:
  "mr_base_ptr (info r) = mr_base_ptr r" "mr_ptr (info r) = mr_ptr r" "mr_size (info r) = mr_size r"
  "info (unlinked r) = info r" "info (unchained r) = info r"
  by (simp_all add: info_def unlinked_def unchained_def)

lemma same_info_unlinked: "same unlinked h h' y \<Longrightarrow> same info h h' y"
  by (erule same_comp [where k = info]) (simp add: info_parts)

lemma same_info_unchained: "same unchained h h' y \<Longrightarrow> same info h h' y"
  by (erule same_comp [where k = info]) (simp add: info_parts)

lemma same_info_of:
  assumes "same info h h' y" and "h y = Some r"
  shows "ptr_of h' y = ptr_of h y" "base_of h' y = base_of h y" "size_of h' y = size_of h y"
proof -
  from same_SomeD [OF assms] obtain r' where r': "h' y = Some r'" "info r' = info r" by blast
  with assms(2) info_parts [of r] info_parts [of r'] show "ptr_of h' y = ptr_of h y" "base_of h' y = base_of h y"
      "size_of h' y = size_of h y"
    by (simp_all add: ptr_of_def base_of_def size_of_def)
qed

lemma shape_Some: "shape lib X s LL \<Longrightarrow> x \<in> set (LL w) \<Longrightarrow> \<exists>r. recs s x = Some r"
  using dseg_Some unfolding shape_def by blast

lemma all_of_iff: "x \<in> all_of LL \<longleftrightarrow> (\<exists>w. x \<in> set (LL w))"
  by (metis (full_types) UnE UnI1 UnI2 all_of_def which.exhaust)

lemma shape_all_Some: "shape lib X s LL \<Longrightarrow> x \<in> all_of LL \<Longrightarrow> \<exists>r. recs s x = Some r"
  using shape_Some by (metis all_of_iff)

lemma records_ok_same:
  assumes "records_ok lib h R" and "\<And>x. x \<in> R \<Longrightarrow> same info h h' x" and "\<And>x. x \<in> R \<Longrightarrow> \<exists>r. h x = Some r"
  shows "records_ok lib h' R"
proof -
  have "ptr_of h' x = ptr_of h x \<and> base_of h' x = base_of h x \<and> size_of h' x = size_of h x" if "x \<in> R" for x
    using same_info_of [OF assms(2) [OF that]] assms(3) [OF that] by blast
  with assms(1) show ?thesis unfolding records_ok_def inj_on_def by metis
qed

lemma table_ok_same:
  assumes "table_ok h tbs t cap S" and "\<And>y. y \<in> S \<Longrightarrow> same chain_part h h' y" and "tbs' t = tbs t"
  shows "table_ok h' tbs' t cap S"
proof (cases "cap = 0")
  case True
  with assms(1) show ?thesis by (simp add: table_ok_def)
next
  case False
  with assms(1) obtain xs where xs: "t \<noteq> 0" "tbs t = Some xs" "indexed h xs cap S" by (auto simp: table_ok_def)
  have "\<forall>y \<in> S. h y \<noteq> None" using indexed_Some [OF xs(3)] False by fastforce
  with indexed_same [OF xs(3), of h'] assms(2) have "indexed h' xs cap S" by blast
  with False xs assms(3) show ?thesis by (simp add: table_ok_def)
qed

lemma same_chain_unlinked: "same unlinked h h' y \<Longrightarrow> same chain_part h h' y"
  by (erule same_comp [where k = chain_part]) (simp add: chain_part_def unlinked_def)

lemma same_links_unchained: "same unchained h h' y \<Longrightarrow> same links h h' y"
  by (erule same_comp [where k = links]) (rule links_unchained)

lemma shape_table:
  assumes "shape lib X s LL" and "0 < cap_of w (alloc s)"
  obtains xs where "tables s (buckets_of w (alloc s)) = Some xs"
    and "indexed (recs s) xs (cap_of w (alloc s)) (set (LL w))" and "buckets_of w (alloc s) \<noteq> 0"
proof -
  from assms(1) have "table_ok (recs s) (tables s) (buckets_of w (alloc s)) (cap_of w (alloc s)) (set (LL w))"
    by (simp add: shape_def)
  with assms(2) that show ?thesis by (auto simp: table_ok_def)
qed

text \<open>Only the lists are looked at in \<^const>\<open>shape\<close>; the bytes and the reports may change.\<close>

lemma shape_cong:
  assumes "recs s' = recs s" and "tables s' = tables s" and "alloc s' = alloc s" and "sys_blocks s' = sys_blocks s"
  shows "shape lib X s' LL = shape lib X s LL"
  using assms by (simp add: shape_def blocks_ok_def)

lemma shape_counters:
  assumes "recs s' = recs s" and "tables s' = tables s" and "sys_blocks s' = sys_blocks s"
    and "\<And>w. head_of w (alloc s') = head_of w (alloc s)" and "\<And>w. buckets_of w (alloc s') = buckets_of w (alloc s)"
    and "\<And>w. cap_of w (alloc s') = cap_of w (alloc s)" and "al_freed_tail (alloc s') = al_freed_tail (alloc s)"
  shows "shape lib X s' LL = shape lib X s LL"
proof -
  have "al_buckets (alloc s') = al_buckets (alloc s)" "al_freed_buckets (alloc s') = al_freed_buckets (alloc s)"
    using assms(5) [of Live] assms(5) [of Freed] by (simp_all add: buckets_of_def)
  with assms show ?thesis by (simp add: shape_def blocks_ok_def bucket_arrays_def)
qed

text \<open>Giving up a block that an operation holds, and changing a record that is on no list.\<close>

lemma shape_less: "shape lib X s LL \<Longrightarrow> Y \<subseteq> X \<Longrightarrow> shape lib Y s LL"
  by (auto simp: shape_def blocks_ok_def Let_def)

lemma shape_outside:
  assumes "shape lib X s LL" and "\<And>y. y \<in> all_of LL \<Longrightarrow> h y = recs s y"
  shows "shape lib X (s\<lparr>recs := h\<rparr>) LL"
proof -
  have sm: "same f (recs s) h y" if "y \<in> all_of LL" for f :: "cn_mem_record \<Rightarrow> 'a" and y
    using assms(2) [OF that] by (simp add: same_def)
  have in_all: "y \<in> all_of LL" if "y \<in> set (LL w)" for y w using that by (auto simp: all_of_iff)
  have "dlist h a (LL w) = dlist (recs s) a (LL w)" for a w
    using sm in_all by (intro dseg_same) blast
  moreover have "table_ok h (tables s) t cap (set (LL w))" if "table_ok (recs s) (tables s) t cap (set (LL w))" for t cap w
    using that by (rule table_ok_same) (use sm in_all in auto)
  moreover have "records_ok lib h (all_of LL)"
    using assms(1) records_ok_same [of lib "recs s" "all_of LL" h] sm shape_all_Some [OF assms(1)] by (auto simp: shape_def)
  moreover have "base_of h ` all_of LL = base_of (recs s) ` all_of LL"
    using assms(2) by (auto simp: base_of_def)
  ultimately show ?thesis using assms(1) by (simp add: shape_def blocks_ok_def)
qed

section \<open>Putting a record on a list, and taking it off\<close>

definition attach :: "which \<Rightarrow> addr \<Rightarrow> unit am" where
  "attach w x = aseq (cn_list_insert_head w x)
     (abind (aget alloc) (\<lambda>al. cn_bucket_insert_record (buckets_of w al) (cap_of w al) x))"

lemma push_head_parts:
  "head_of v (push_head w xs x al) = (if v = w then x else head_of v al)"
  "buckets_of v (push_head w xs x al) = buckets_of v al" "cap_of v (push_head w xs x al) = cap_of v al"
  "al_buckets (push_head w xs x al) = al_buckets al" "al_freed_buckets (push_head w xs x al) = al_freed_buckets al"
  "al_freed_tail (push_head w xs x al) = (if w = Freed \<and> xs = [] then x else al_freed_tail al)"
  by (cases w; cases v; simp add: push_head_def head_of_def buckets_of_def cap_of_def)+

lemma attach_eq:
  assumes sh: "shape lib X s LL" and r: "recs s x = Some r" and x: "x \<noteq> 0" "x \<notin> all_of LL"
    and cap: "0 < cap_of w (alloc s)"
  obtains h' tbs' where "attach w x s = Some (Inr ((), s\<lparr>recs := h', tables := tbs', alloc := push_head w (LL w) x (alloc s)\<rparr>))"
    and "\<forall>y. same info (recs s) h' y"
    and "\<forall>v. dlist h' (if v = w then x else head_of v (alloc s)) ((LL(w := x # LL w)) v)"
    and "\<forall>v. table_ok h' tbs' (buckets_of v (alloc s)) (cap_of v (alloc s)) (set ((LL(w := x # LL w)) v))"
proof -
  let ?hd = "head_of w (alloc s)" and ?t = "buckets_of w (alloc s)" and ?cap = "cap_of w (alloc s)"
  let ?h1 = "linked_head (recs s) ?hd x r" and ?al = "push_head w (LL w) x (alloc s)"
  let ?s1 = "s\<lparr>recs := ?h1, alloc := ?al\<rparr>"
  have dl: "dlist (recs s) (head_of v (alloc s)) (LL v)" for v using sh by (simp add: shape_def)
  have nw: "x \<notin> set (LL v)" for v using x(2) by (auto simp: all_of_iff)
  have dist: "distinct (LL v)" and disj: "v \<noteq> w \<Longrightarrow> set (LL v) \<inter> set (LL w) = {}" for v
    using sh by (cases v; cases w; auto simp: shape_def)+
  have ins: "cn_list_insert_head w x s = Some (Inr ((), ?s1))" using insert_head_eq [OF dl r x(1)] .
  have s1: "same unlinked (recs s) ?h1 y" for y using r by (rule linked_head_same)
  obtain xs where xs: "tables s ?t = Some xs" "indexed (recs s) xs ?cap (set (LL w))" "?t \<noteq> 0"
    using shape_table [OF sh cap] .
  have some: "\<exists>q. recs s y = Some q" if "y \<in> set (LL v)" for y v using shape_Some [OF sh that] .
  have ix1: "indexed ?h1 xs ?cap (set (LL w))"
    using indexed_same [OF xs(2)] s1 same_chain_unlinked some by fastforce
  from same_SomeD [OF s1 r] obtain r1 where r1: "?h1 x = Some r1" by blast
  let ?i = "cn_bucket_index_for ?cap (mr_ptr r1)"
  let ?h2 = "?h1(x \<mapsto> r1\<lparr>mr_bucket_next := xs ! ?i\<rparr>)" and ?tbs = "(tables s)(?t \<mapsto> xs[?i := x])"
  have "cn_bucket_insert_record ?t ?cap x ?s1 = Some (Inr ((), ?s1\<lparr>recs := ?h2, tables := ?tbs\<rparr>))"
    using bucket_insert_eq [of ?s1 ?t xs ?cap "set (LL w)" x r1] xs(1) ix1 cap r1 nw x(1) by simp
  then have op: "attach w x s = Some (Inr ((), s\<lparr>recs := ?h2, tables := ?tbs, alloc := ?al\<rparr>))"
    using ins by (simp add: attach_def am_defs push_head_parts)
  have s2: "same unchained ?h1 ?h2 y" for y using r1 by (simp add: same_def unchained_def)
  have si: "same info (recs s) ?h2 y" for y
    using same_trans [OF same_info_unlinked [OF s1] same_info_unchained [OF s2]] .
  have l2: "same links ?h1 ?h2 y" for y using s2 by (rule same_links_unchained)
  have hdw: "?hd \<notin> set (LL v)" if "v \<noteq> w" for v
    using dseg_head [OF dl [of w]] disj [OF that] dseg_nonnull [OF dl [of v]] by (cases "LL w") auto
  have d: "dlist ?h2 (if v = w then x else head_of v (alloc s)) ((LL(w := x # LL w)) v)" for v
  proof (cases "v = w")
    case True
    have "dlist ?h2 x (x # LL w) = dlist ?h1 x (x # LL w)" using l2 by (intro dseg_same) blast
    with linked_head_dlist [OF dl nw x(1) dist, of w r] True show ?thesis by (simp only: fun_upd_same if_True simp_thms)
  next
    case False
    have "dlist ?h2 (head_of v (alloc s)) (LL v) = dlist ?h1 (head_of v (alloc s)) (LL v)"
      using l2 by (intro dseg_same) blast
    also have "\<dots> = dlist (recs s) (head_of v (alloc s)) (LL v)"
      using hdw [OF False] nw [of v] by (intro dseg_same ballI) (metis linked_head_frame same_def)
    finally show ?thesis using False dl by simp
  qed
  have t: "table_ok ?h2 ?tbs (buckets_of v (alloc s)) (cap_of v (alloc s)) (set ((LL(w := x # LL w)) v))" for v
  proof (cases "v = w")
    case True
    have "indexed ?h2 (xs[?i := x]) ?cap (insert x (set (LL w)))"
      using indexed_insert [OF ix1 cap r1 nw x(1) refl] .
    with True xs(3) cap show ?thesis by (simp add: table_ok_def)
  next
    case False
    have ne: "buckets_of v (alloc s) \<noteq> ?t"
      using sh False xs(3) by (cases v; cases w) (auto simp: shape_def blocks_ok_def buckets_of_def Let_def)
    have "table_ok (recs s) (tables s) (buckets_of v (alloc s)) (cap_of v (alloc s)) (set (LL v))"
      using sh by (simp add: shape_def)
    then have "table_ok ?h2 ?tbs (buckets_of v (alloc s)) (cap_of v (alloc s)) (set (LL v))"
    proof (rule table_ok_same)
      fix y assume "y \<in> set (LL v)"
      with nw have "y \<noteq> x" by blast
      then have "same chain_part ?h1 ?h2 y" by (simp add: same_def)
      with same_chain_unlinked [OF s1] show "same chain_part (recs s) ?h2 y" using same_trans by blast
    qed (use ne in simp)
    with False show ?thesis by simp
  qed
  from that [OF op allI [OF si] allI [OF d] allI [OF t]] show ?thesis .
qed

text \<open>The bytes, the C heap and the reports are not touched.\<close>

definition same_rest :: "mem_state \<Rightarrow> mem_state \<Rightarrow> bool" where
  "same_rest s s' \<longleftrightarrow> bytes s' = bytes s \<and> sys_blocks s' = sys_blocks s \<and> reports s' = reports s"

lemma all_of_cons: "all_of (LL(w := x # LL w)) = insert x (all_of LL)"
  by (cases w) (auto simp: all_of_def)

lemma disjoint_insert_blocks:
  assumes "B \<inter> R = {}" "B \<inter> T = {}" "R \<inter> T = {}" "insert x (insert b X) \<inter> (B \<union> R \<union> T) = {}" "x \<noteq> b" "x \<notin> X" "b \<notin> X"
  shows "insert b B \<inter> insert x R = {}" "insert b B \<inter> T = {}" "insert x R \<inter> T = {}"
    "X \<inter> (insert b B \<union> insert x R \<union> T) = {}"
  using assms by blast+

lemma blocks_okD:
  assumes "blocks_ok X s LL"
  shows "base_of (recs s) ` all_of LL \<inter> all_of LL = {}" "base_of (recs s) ` all_of LL \<inter> bucket_arrays (alloc s) = {}"
    "all_of LL \<inter> bucket_arrays (alloc s) = {}"
    "X \<inter> (base_of (recs s) ` all_of LL \<union> all_of LL \<union> bucket_arrays (alloc s)) = {}"
    "0 \<notin> X \<union> base_of (recs s) ` all_of LL"
    "al_buckets (alloc s) = al_freed_buckets (alloc s) \<longrightarrow> al_buckets (alloc s) = 0"
    "base_of (recs s) ` all_of LL \<union> all_of LL \<union> bucket_arrays (alloc s) \<union> X \<subseteq> fst ` set (sys_blocks s)"
  using assms unfolding blocks_ok_def Let_def by blast+

lemma blocks_okI:
  assumes "base_of (recs s) ` all_of LL = B" and "all_of LL = R" and "bucket_arrays (alloc s) = T"
    and "B \<inter> R = {}" and "B \<inter> T = {}" and "R \<inter> T = {}" and "X \<inter> (B \<union> R \<union> T) = {}" and "0 \<notin> X \<union> B"
    and "al_buckets (alloc s) = al_freed_buckets (alloc s) \<longrightarrow> al_buckets (alloc s) = 0"
    and "B \<union> R \<union> T \<union> X \<subseteq> fst ` set (sys_blocks s)"
  shows "blocks_ok X s LL"
  using assms unfolding blocks_ok_def Let_def by simp

lemma attach_shape:
  assumes sh: "shape lib (insert x (insert b X)) s LL" and r: "recs s x = Some r" "mr_base_ptr r = b"
      "mr_ptr r = b + cn_memory_prefix_size lib" "mr_ptr r \<noteq> 0" "mr_size r \<noteq> 0"
    and x: "x \<noteq> b" "x \<notin> X" "b \<notin> X" and cap: "0 < cap_of w (alloc s)"
  obtains s' where "attach w x s = Some (Inr ((), s'))" and "shape lib X s' (LL(w := x # LL w))"
    and "\<forall>y. same info (recs s) (recs s') y" and "alloc s' = push_head w (LL w) x (alloc s)" and "same_rest s s'"
proof -
  let ?R = "all_of LL" and ?LL = "LL(w := x # LL w)"
  have bk: "blocks_ok (insert x (insert b X)) s LL" and ro: "records_ok lib (recs s) ?R"
    using sh by (simp_all add: shape_def)
  have xb: "x \<noteq> 0" "b \<noteq> 0" "x \<notin> ?R" "b \<notin> ?R" "x \<notin> base_of (recs s) ` ?R" "b \<notin> base_of (recs s) ` ?R"
      "x \<notin> bucket_arrays (alloc s)" "b \<notin> bucket_arrays (alloc s)"
    using blocks_okD(4,5) [OF bk] by blast+
  obtain h' tbs' where op: "attach w x s = Some (Inr ((), s\<lparr>recs := h', tables := tbs', alloc := push_head w (LL w) x (alloc s)\<rparr>))"
    and si: "\<forall>y. same info (recs s) h' y"
    and d: "\<forall>v. dlist h' (if v = w then x else head_of v (alloc s)) (?LL v)"
    and t: "\<forall>v. table_ok h' tbs' (buckets_of v (alloc s)) (cap_of v (alloc s)) (set (?LL v))"
    by (rule attach_eq [OF sh r(1) xb(1,3) cap]) (rule that)
  let ?s = "s\<lparr>recs := h', tables := tbs', alloc := push_head w (LL w) x (alloc s)\<rparr>"
  have of: "ptr_of h' y = ptr_of (recs s) y \<and> base_of h' y = base_of (recs s) y \<and> size_of h' y = size_of (recs s) y"
    if "y \<in> insert x ?R" for y
  proof -
    from that r(1) shape_all_Some [OF sh] obtain q where "recs s y = Some q" by auto
    from same_info_of [OF si [rule_format] this] show ?thesis by simp
  qed
  have xof: "ptr_of (recs s) x = b + cn_memory_prefix_size lib" "base_of (recs s) x = b" "size_of (recs s) x = mr_size r"
    using r by (simp_all add: ptr_of_def base_of_def size_of_def)
  have ne: "ptr_of (recs s) y \<noteq> ptr_of (recs s) x" if "y \<in> ?R" for y
  proof -
    have "base_of (recs s) y \<noteq> b" using xb(6) that by blast
    with ro that xof(1) show ?thesis by (simp add: records_ok_def)
  qed
  have "ptr_of (recs s) x \<notin> ptr_of (recs s) ` (?R - {x})"
  proof
    assume "ptr_of (recs s) x \<in> ptr_of (recs s) ` (?R - {x})"
    then obtain y where y: "ptr_of (recs s) x = ptr_of (recs s) y" "y \<in> ?R - {x}" by (rule imageE)
    then show False using ne [of y] by simp
  qed
  moreover have "inj_on (ptr_of (recs s)) ?R" using ro by (simp only: records_ok_def)
  ultimately have "inj_on (ptr_of (recs s)) (insert x ?R)" by (simp only: inj_on_insert simp_thms)
  moreover have "ptr_of (recs s) y = base_of (recs s) y + cn_memory_prefix_size lib \<and> ptr_of (recs s) y \<noteq> 0
      \<and> size_of (recs s) y \<noteq> 0" if "y \<in> insert x ?R" for y
  proof (cases "y = x")
    case True
    with r xof show ?thesis by simp
  next
    case False
    with that ro show ?thesis unfolding records_ok_def by blast
  qed
  ultimately have "records_ok lib (recs s) (insert x ?R)" unfolding records_ok_def by blast
  then have ro': "records_ok lib h' (insert x ?R)"
    by (rule records_ok_same) (use si r(1) shape_all_Some [OF sh] in auto)
  have base: "base_of h' ` insert x ?R = insert b (base_of (recs s) ` ?R)"
    using of xof(2) by auto
  have ba: "bucket_arrays (push_head w (LL w) x (alloc s)) = bucket_arrays (alloc s)"
    by (simp add: bucket_arrays_def push_head_parts)
  have "blocks_ok X ?s ?LL"
  proof (rule blocks_okI)
    show "base_of (recs ?s) ` all_of ?LL = insert b (base_of (recs s) ` ?R)" unfolding all_of_cons using base by simp
    show "all_of ?LL = insert x ?R" by (rule all_of_cons)
    show "bucket_arrays (alloc ?s) = bucket_arrays (alloc s)" using ba by simp
    show "0 \<notin> X \<union> insert b (base_of (recs s) ` ?R)" using blocks_okD(5) [OF bk] xb(2) by auto
    show "insert b (base_of (recs s) ` ?R) \<union> insert x ?R \<union> bucket_arrays (alloc s) \<union> X \<subseteq> fst ` set (sys_blocks ?s)"
      using blocks_okD(7) [OF bk] by auto
  qed (use disjoint_insert_blocks [OF blocks_okD(1-4) [OF bk] x] blocks_okD(6) [OF bk] push_head_parts in simp_all)
  moreover have "al_freed_tail (push_head w (LL w) x (alloc s)) = before (?LL Freed)"
    using sh by (auto simp: push_head_parts shape_def before_def)
  moreover have "distinct (?LL Live @ ?LL Freed)"
    using sh xb(3) by (cases w) (auto simp: shape_def all_of_def)
  ultimately have "shape lib X ?s ?LL"
    using d t ro' by (simp add: shape_def push_head_parts all_of_cons)
  moreover have "same_rest s ?s" by (simp add: same_rest_def)
  ultimately show ?thesis using that [of ?s] op si by simp
qed

definition detach :: "which \<Rightarrow> addr \<Rightarrow> unit am" where
  "detach w x = abind (rec_at x) (\<lambda>r. abind (aget alloc) (\<lambda>al.
     aseq (cn_bucket_remove_record (buckets_of w al) (cap_of w al) x (mr_ptr r)) (cn_list_remove_record w x)))"

lemma drop_record_parts:
  "buckets_of v (drop_record w xs ys al) = buckets_of v al" "cap_of v (drop_record w xs ys al) = cap_of v al"
  "al_buckets (drop_record w xs ys al) = al_buckets al" "al_freed_buckets (drop_record w xs ys al) = al_freed_buckets al"
  "head_of v (drop_record w xs ys al) = (if v = w \<and> xs = [] then after ys else head_of v al)"
  "al_freed_tail (drop_record w xs ys al) = (if w = Freed \<and> ys = [] then before xs else al_freed_tail al)"
  by (cases w; cases v; simp add: drop_record_def head_of_def buckets_of_def cap_of_def)+

lemma detach_eq:
  assumes sh: "shape lib X s LL" and x: "LL w = us @ x # vs"
  obtains h' tbs' where "detach w x s = Some (Inr ((), s\<lparr>recs := h', tables := tbs', alloc := drop_record w us vs (alloc s)\<rparr>))"
    and "\<forall>y. same info (recs s) h' y"
    and "\<forall>v. dlist h' (head_of v (drop_record w us vs (alloc s))) ((LL(w := us @ vs)) v)"
    and "\<forall>v. table_ok h' tbs' (buckets_of v (alloc s)) (cap_of v (alloc s)) (set ((LL(w := us @ vs)) v))"
proof -
  let ?hd = "head_of w (alloc s)" and ?t = "buckets_of w (alloc s)" and ?cap = "cap_of w (alloc s)"
  have dl: "dlist (recs s) (head_of v (alloc s)) (LL v)" for v using sh by (simp add: shape_def)
  have dist: "distinct (LL v)" and disj: "v \<noteq> w \<Longrightarrow> set (LL v) \<inter> set (LL w) = {}" for v
    using sh by (cases v; cases w; auto simp: shape_def)+
  have xw: "x \<in> set (LL w)" using x by simp
  obtain r where r: "recs s x = Some r" using shape_Some [OF sh xw] by blast
  have cap: "0 < ?cap"
  proof (rule ccontr)
    assume "\<not> 0 < ?cap"
    moreover have "table_ok (recs s) (tables s) ?t ?cap (set (LL w))" using sh by (simp add: shape_def)
    ultimately show False using xw by (simp add: table_ok_def)
  qed
  obtain xs where xs: "tables s ?t = Some xs" "indexed (recs s) xs ?cap (set (LL w))" "?t \<noteq> 0"
    using shape_table [OF sh cap] .
  have mp: "mr_ptr r = ptr_of (recs s) x" using r by (simp add: ptr_of_def)
  obtain h1 xs1 where
      b: "cn_bucket_remove_record ?t ?cap x (mr_ptr r) s = Some (Inr ((), s\<lparr>recs := h1, tables := (tables s)(?t \<mapsto> xs1)\<rparr>))"
    and b2: "indexed h1 xs1 ?cap (set (LL w) - {x})" and b3: "\<forall>y. same unchained (recs s) h1 y"
    and b4: "\<forall>y. y \<notin> set (LL w) \<longrightarrow> h1 y = recs s y" by (rule bucket_remove_eq [OF xs(1,2) cap xw mp]) (rule that)
  let ?s1 = "s\<lparr>recs := h1, tables := (tables s)(?t \<mapsto> xs1)\<rparr>"
  have l1: "dlist h1 a (LL v) = dlist (recs s) a (LL v)" for v a
    using same_links_unchained b3 by (intro dseg_same) blast
  have l1w: "dlist h1 ?hd (us @ x # vs)" using dl [of w] l1 [of ?hd w] unfolding x by blast
  then have "dlist (recs ?s1) ?hd (us @ x # vs)" by simp
  note rm = remove_record_eq [OF this, of w]
  let ?h2 = "removed h1 us x vs"
  have "distinct (us @ x # vs)" using dist [of w] x by simp
  from rm [OF this] b r have op: "detach w x s =
      Some (Inr ((), s\<lparr>recs := ?h2, tables := (tables s)(?t \<mapsto> xs1), alloc := drop_record w us vs (alloc s)\<rparr>))"
    by (simp add: detach_def am_defs)
  have s2: "same unlinked h1 ?h2 y" for y by (rule removed_same)
  have si: "same info (recs s) ?h2 y" for y
    using same_trans [OF same_info_unchained [OF b3 [rule_format]] same_info_unlinked [OF s2]] .
  have d: "dlist ?h2 (head_of v (drop_record w us vs (alloc s))) ((LL(w := us @ vs)) v)" for v
  proof (cases "v = w")
    case True
    from removed_dlist [OF l1w] dist [of w] x True show ?thesis by (auto simp: drop_record_parts)
  next
    case False
    have "y \<noteq> x \<and> y \<notin> set us \<and> y \<notin> set vs \<and> y \<noteq> 0" if "y \<in> set (LL v)" for y
      using disj [OF False] that x dseg_nonnull [OF dl [of v]] by auto
    then have "dlist ?h2 (head_of v (alloc s)) (LL v) = dlist h1 (head_of v (alloc s)) (LL v)"
      by (intro dseg_same ballI) (simp add: removed_frame same_def)
    with False l1 dl show ?thesis by (simp add: drop_record_parts)
  qed
  have t: "table_ok ?h2 ((tables s)(?t \<mapsto> xs1)) (buckets_of v (alloc s)) (cap_of v (alloc s)) (set ((LL(w := us @ vs)) v))" for v
  proof (cases "v = w")
    case True
    have "set (LL w) - {x} = set (us @ vs)" using x dist [of w] by auto
    with b2 have "table_ok h1 ((tables s)(?t \<mapsto> xs1)) ?t ?cap (set (us @ vs))" using cap xs(3) by (simp add: table_ok_def)
    then have "table_ok ?h2 ((tables s)(?t \<mapsto> xs1)) ?t ?cap (set (us @ vs))"
      using same_chain_unlinked [OF s2] by (rule table_ok_same) simp_all
    with True show ?thesis by simp
  next
    case False
    have ne: "buckets_of v (alloc s) \<noteq> ?t"
      using sh False xs(3) by (cases v; cases w) (auto simp: shape_def blocks_ok_def buckets_of_def Let_def)
    have "table_ok (recs s) (tables s) (buckets_of v (alloc s)) (cap_of v (alloc s)) (set (LL v))"
      using sh by (simp add: shape_def)
    then have "table_ok ?h2 ((tables s)(?t \<mapsto> xs1)) (buckets_of v (alloc s)) (cap_of v (alloc s)) (set (LL v))"
    proof (rule table_ok_same)
      fix y assume "y \<in> set (LL v)"
      with disj [OF False] have "h1 y = recs s y" using b4 by auto
      then have "same chain_part (recs s) h1 y" by (simp add: same_def)
      with same_chain_unlinked [OF s2] show "same chain_part (recs s) ?h2 y" using same_trans by blast
    qed (use ne in simp)
    with False show ?thesis by simp
  qed
  from that [OF op allI [OF si] allI [OF d] allI [OF t]] show ?thesis .
qed

lemma disjoint_remove_blocks:
  assumes "insert b B \<inter> insert x R = {}" "insert b B \<inter> T = {}" "insert x R \<inter> T = {}"
    "X \<inter> (insert b B \<union> insert x R \<union> T) = {}" "b \<notin> B" "x \<notin> R"
  shows "B \<inter> R = {}" "B \<inter> T = {}" "R \<inter> T = {}" "insert x (insert b X) \<inter> (B \<union> R \<union> T) = {}"
  using assms by blast+

lemma all_of_remove:
  assumes "LL w = us @ x # vs" and "distinct (LL Live @ LL Freed)"
  shows "all_of LL = insert x (all_of (LL(w := us @ vs)))" and "x \<notin> all_of (LL(w := us @ vs))"
  using assms by (cases w; auto simp: all_of_def)+

lemma records_ok_base: "records_ok lib h R \<Longrightarrow> inj_on (base_of h) R"
  unfolding records_ok_def inj_on_def by metis

lemma detach_shape:
  assumes sh: "shape lib X s LL" and x: "LL w = us @ x # vs"
  obtains s' where "detach w x s = Some (Inr ((), s'))"
    and "shape lib (insert x (insert (base_of (recs s) x) X)) s' (LL(w := us @ vs))"
    and "\<forall>y. same info (recs s) (recs s') y" and "alloc s' = drop_record w us vs (alloc s)" and "same_rest s s'"
proof -
  let ?LL = "LL(w := us @ vs)" and ?b = "base_of (recs s) x"
  let ?R = "all_of ?LL"
  obtain h' tbs' where op: "detach w x s = Some (Inr ((), s\<lparr>recs := h', tables := tbs', alloc := drop_record w us vs (alloc s)\<rparr>))"
    and si: "\<forall>y. same info (recs s) h' y"
    and d: "\<forall>v. dlist h' (head_of v (drop_record w us vs (alloc s))) (?LL v)"
    and t: "\<forall>v. table_ok h' tbs' (buckets_of v (alloc s)) (cap_of v (alloc s)) (set (?LL v))"
    by (rule detach_eq [OF sh x]) (rule that)
  let ?s = "s\<lparr>recs := h', tables := tbs', alloc := drop_record w us vs (alloc s)\<rparr>"
  have dist: "distinct (LL Live @ LL Freed)" and ro: "records_ok lib (recs s) (all_of LL)" and bk: "blocks_ok X s LL"
    using sh by (simp_all add: shape_def)
  note R = all_of_remove [OF x dist]
  have some: "\<exists>q. recs s y = Some q" if "y \<in> ?R" for y
    using shape_all_Some [OF sh] R(1) that by blast
  have "records_ok lib (recs s) ?R" using ro R(1) unfolding records_ok_def inj_on_def by blast
  then have ro': "records_ok lib h' ?R" by (rule records_ok_same) (use si some in auto)
  have base: "base_of h' ` ?R = base_of (recs s) ` ?R"
  proof (rule image_cong [OF refl])
    fix y assume "y \<in> ?R"
    with some same_info_of(2) [OF si [rule_format]] show "base_of h' y = base_of (recs s) y" by blast
  qed
  have nb: "?b \<notin> base_of (recs s) ` ?R"
    using records_ok_base [OF ro] R by (auto simp: inj_on_def)
  have ba: "bucket_arrays (drop_record w us vs (alloc s)) = bucket_arrays (alloc s)"
    by (simp add: bucket_arrays_def drop_record_parts)
  note bD = blocks_okD [OF bk, unfolded R(1) image_insert]
  have "blocks_ok (insert x (insert ?b X)) ?s ?LL"
  proof (rule blocks_okI)
    show "base_of (recs ?s) ` ?R = base_of (recs s) ` ?R" using base by simp
    show "bucket_arrays (alloc ?s) = bucket_arrays (alloc s)" using ba by simp
    have "x \<noteq> 0" using R(1) sh dseg_nonnull unfolding shape_def all_of_def by blast
    with bD(5) show "0 \<notin> insert x (insert ?b X) \<union> base_of (recs s) ` ?R" by auto
    show "base_of (recs s) ` ?R \<union> ?R \<union> bucket_arrays (alloc s) \<union> insert x (insert ?b X) \<subseteq> fst ` set (sys_blocks ?s)"
      using bD(7) by auto
  qed (use disjoint_remove_blocks [OF bD(1-4) nb R(2)] bD(6) drop_record_parts in simp_all)
  moreover have "al_freed_tail (drop_record w us vs (alloc s)) = before (?LL Freed)"
    using sh x by (auto simp: drop_record_parts shape_def before_def)
  moreover have "distinct (?LL Live @ ?LL Freed)"
    using dist x by (cases w) auto
  ultimately have "shape lib (insert x (insert ?b X)) ?s ?LL"
    using d t ro' by (simp add: shape_def drop_record_parts)
  moreover have "same_rest s ?s" by (simp add: same_rest_def)
  ultimately show ?thesis using that [of ?s] op si by simp
qed

end
