(* ===== verification/Memory_Ops.thy ===== *)
theory Memory_Ops
  imports Memory_Inv
begin

text \<open>
  The building blocks of the allocator's operations keep the invariant: blocks of the C heap,
  rehashing, releasing a record, evicting from the quarantine.
\<close>

section \<open>Blocks of the C heap\<close>

text \<open>The counters of the allocator.\<close>

definition counters :: "cn_allocator \<Rightarrow> nat \<times> 64 word \<times> 64 word \<times> nat \<times> 64 word" where
  "counters al = (al_live_blocks al, al_live_bytes al, al_peak_bytes al, al_quarantine_blocks al, al_quarantine_bytes al)"

lemma blocks_ok_sys:
  assumes "blocks_ok X s LL" and "recs s' = recs s" and "alloc s' = alloc s"
    and "fst ` set (sys_blocks s) \<subseteq> fst ` set (sys_blocks s')"
  shows "blocks_ok X s' LL"
proof (rule blocks_okI)
  show "base_of (recs s') ` all_of LL = base_of (recs s) ` all_of LL" using assms(2) by simp
  show "bucket_arrays (alloc s') = bucket_arrays (alloc s)" using assms(3) by simp
  show "base_of (recs s) ` all_of LL \<union> all_of LL \<union> bucket_arrays (alloc s) \<union> X \<subseteq> fst ` set (sys_blocks s')"
    using blocks_okD(7) [OF assms(1)] assms(4) by blast
qed (use blocks_okD [OF assms(1)] assms(3) in simp_all)

lemma shape_sys:
  assumes "shape lib X s LL" and "recs s' = recs s" and "tables s' = tables s" and "alloc s' = alloc s"
    and "fst ` set (sys_blocks s) \<subseteq> fst ` set (sys_blocks s')"
  shows "shape lib X s' LL"
  using assms blocks_ok_sys [of X s LL s'] by (simp add: shape_def)

lemma shape_hold:
  assumes "shape lib X s LL" and "a \<noteq> 0" and "a \<notin> fst ` set (sys_blocks s)" and "recs s' = recs s"
    and "tables s' = tables s" and "alloc s' = alloc s" and "sys_blocks s' = (a, n) # sys_blocks s"
  shows "shape lib (insert a X) s' LL"
proof -
  have bk: "blocks_ok X s LL" using assms(1) by (simp add: shape_def)
  note D = blocks_okD [OF bk]
  have "blocks_ok (insert a X) s' LL"
  proof (rule blocks_okI)
    show "base_of (recs s') ` all_of LL = base_of (recs s) ` all_of LL" using assms(4) by simp
    show "bucket_arrays (alloc s') = bucket_arrays (alloc s)" using assms(6) by simp
    show "insert a X \<inter> (base_of (recs s) ` all_of LL \<union> all_of LL \<union> bucket_arrays (alloc s)) = {}"
      using D(4,7) assms(3) by blast
    show "0 \<notin> insert a X \<union> base_of (recs s) ` all_of LL" using D(5) assms(2) by blast
    show "base_of (recs s) ` all_of LL \<union> all_of LL \<union> bucket_arrays (alloc s) \<union> insert a X \<subseteq> fst ` set (sys_blocks s')"
      using D(7) assms(7) by auto
  qed (use D assms(6) in simp_all)
  with assms(1,4-6) show ?thesis by (simp add: shape_def)
qed

text \<open>A successful \<open>malloc\<close> gives a new block to the operation in progress.\<close>

lemma malloc_shape:
  assumes "c_library_ok lib" and "shape lib X s LL"
  obtains a s' where "c_malloc lib n s = Some (Inr (a, s'))" and "a \<noteq> 0 \<longrightarrow> a \<notin> X \<and> unat a + unat n \<le> 2 ^ 64"
    and "a \<noteq> 0 \<longrightarrow> shape lib (insert a X) s' LL"
    and "recs s' = recs s" and "tables s' = tables s" and "alloc s' = alloc s" and "bytes s' = bytes s"
    and "reports s' = reports s" and "a \<noteq> 0 \<longrightarrow> a \<notin> fst ` set (sys_blocks s) \<and> sys_blocks s' = (a, n) # sys_blocks s"
proof -
  let ?a = "lib_malloc lib (sys_calls s) (sys_blocks s) n"
  let ?s = "if ?a = 0 then s\<lparr>sys_calls := Suc (sys_calls s)\<rparr>
    else s\<lparr>sys_calls := Suc (sys_calls s), sys_blocks := (?a, n) # sys_blocks s\<rparr>"
  have op: "c_malloc lib n s = Some (Inr (?a, ?s))" by (simp add: c_malloc_def Let_def)
  have fresh: "?a \<notin> fst ` set (sys_blocks s)" "unat ?a + unat n \<le> 2 ^ 64" if "?a \<noteq> 0"
    using assms(1) that unfolding c_library_ok_def Let_def by blast+
  have "X \<subseteq> fst ` set (sys_blocks s)" using assms(2) blocks_okD(7) unfolding shape_def by blast
  then have "?a \<noteq> 0 \<longrightarrow> ?a \<notin> X" using fresh by blast
  moreover have "?a \<noteq> 0 \<longrightarrow> shape lib (insert ?a X) ?s LL"
    using shape_hold [OF assms(2) _ fresh(1), of ?s n] by simp
  ultimately show ?thesis using that [OF op] fresh by auto
qed

text \<open>Giving a block back.\<close>

lemma free_shape:
  assumes "shape lib (insert b X) s LL" and "b \<notin> X"
  obtains s' where "c_free b s = Some (Inr ((), s'))" and "shape lib X s' LL"
    and "recs s' = recs s" and "tables s' = tables s" and "alloc s' = alloc s" and "bytes s' = bytes s"
    and "reports s' = reports s"
proof -
  have bk: "blocks_ok (insert b X) s LL" using assms(1) by (simp add: shape_def)
  note D = blocks_okD [OF bk]
  let ?s = "s\<lparr>sys_blocks := filter (\<lambda>c. fst c \<noteq> b) (sys_blocks s)\<rparr>"
  have "b \<noteq> 0" "b \<in> fst ` set (sys_blocks s)" using D(5,7) by auto
  then have op: "c_free b s = Some (Inr ((), ?s))" by (simp add: c_free_def)
  have left: "Y \<subseteq> fst ` set (sys_blocks ?s)" if "Y \<subseteq> fst ` set (sys_blocks s)" "b \<notin> Y" for Y
    using that by (fastforce simp: image_iff)
  have "blocks_ok X ?s LL"
  proof (rule blocks_okI)
    show "base_of (recs ?s) ` all_of LL = base_of (recs s) ` all_of LL" by simp
    show "bucket_arrays (alloc ?s) = bucket_arrays (alloc s)" by simp
    show "base_of (recs s) ` all_of LL \<union> all_of LL \<union> bucket_arrays (alloc s) \<union> X \<subseteq> fst ` set (sys_blocks ?s)"
      using D(4,7) assms(2) by (intro left) auto
    show "X \<inter> (base_of (recs s) ` all_of LL \<union> all_of LL \<union> bucket_arrays (alloc s)) = {}" using D(4) by blast
  qed (use D in simp_all)
  with assms(1) have "shape lib X ?s LL" by (simp add: shape_def)
  then show ?thesis using that [OF op] by simp
qed

section \<open>Releasing a record\<close>

lemma release_shape:
  assumes sh: "shape lib (insert x (insert b X)) s LL" and r: "recs s x = Some r" "mr_base_ptr r = b"
    and x: "x \<noteq> b" "x \<notin> X" "b \<notin> X"
  obtains s' where "cn_record_release_storage x s = Some (Inr ((), s'))" and "shape lib X s' LL"
    and "\<forall>y. y \<noteq> x \<longrightarrow> recs s' y = recs s y" and "alloc s' = alloc s" and "bytes s' = bytes s" and "reports s' = reports s"
proof -
  have sw: "insert x (insert b X) = insert b (insert x X)" by blast
  obtain s1 where s1: "c_free b s = Some (Inr ((), s1))" "shape lib (insert x X) s1 LL" "recs s1 = recs s"
      "alloc s1 = alloc s" "bytes s1 = bytes s" "reports s1 = reports s"
    by (rule free_shape [OF sh [unfolded sw]]) (use x in auto)
  obtain s2 where s2: "c_free x s1 = Some (Inr ((), s2))" "shape lib X s2 LL" "recs s2 = recs s1"
      "alloc s2 = alloc s1" "bytes s2 = bytes s1" "reports s2 = reports s1"
    by (rule free_shape [OF s1(2) x(2)]) auto
  let ?s = "s2\<lparr>recs := (recs s2)(x := None)\<rparr>"
  have "x \<notin> all_of LL" using sh blocks_okD(4) unfolding shape_def by blast
  then have "shape lib X ?s LL" by (intro shape_outside [OF s2(2)]) auto
  moreover have "cn_record_release_storage x s = Some (Inr ((), ?s))"
    using r s1(1) s2(1) by (simp add: cn_record_release_storage_def am_defs)
  ultimately show ?thesis using that [of ?s] s1 s2 by simp
qed

section \<open>Rehashing\<close>

text \<open>\<open>cn_allocator_rehash_active\<close> and \<open>cn_allocator_rehash_freed\<close> as one operation.\<close>

definition set_table :: "which \<Rightarrow> addr \<Rightarrow> nat \<Rightarrow> cn_allocator \<Rightarrow> cn_allocator" where
  "set_table w t cap al = (case w of Live \<Rightarrow> al\<lparr>al_buckets := t, al_bucket_capacity := cap\<rparr>
     | Freed \<Rightarrow> al\<lparr>al_freed_buckets := t, al_freed_bucket_capacity := cap\<rparr>)"

definition rehash :: "which \<Rightarrow> c_library \<Rightarrow> nat \<Rightarrow> unit am" where
  "rehash w lib n = (case w of Live \<Rightarrow> cn_allocator_rehash_active lib n | Freed \<Rightarrow> cn_allocator_rehash_freed lib n)"

lemma abind_aget: "abind (aget f) k s = k (f s) s"
  by (simp add: abind_def aget_def)

lemma set_table_fun:
  "set_table Live t cap = (\<lambda>al. al\<lparr>al_buckets := t, al_bucket_capacity := cap\<rparr>)"
  "set_table Freed t cap = (\<lambda>al. al\<lparr>al_freed_buckets := t, al_freed_bucket_capacity := cap\<rparr>)"
  by (simp_all add: fun_eq_iff set_table_def)

lemma rehash_eq:
  "rehash w lib n s =
     abind (cn_rehash_records lib (head_of w (alloc s)) (buckets_of w (alloc s)) (cap_of w (alloc s)) n)
       (\<lambda>(t, cap). alloc_mod (set_table w t cap)) s"
  by (cases w) (simp_all add: rehash_def cn_allocator_rehash_active_def cn_allocator_rehash_freed_def abind_aget
      head_of_def buckets_of_def cap_of_def set_table_fun)

lemma set_table_parts:
  "head_of v (set_table w t cap al) = head_of v al" "al_freed_tail (set_table w t cap al) = al_freed_tail al"
  "buckets_of v (set_table w t cap al) = (if v = w then t else buckets_of v al)"
  "cap_of v (set_table w t cap al) = (if v = w then cap else cap_of v al)"
  "counters (set_table w t cap al) = counters al"
  by (cases w; cases v; simp add: set_table_def head_of_def buckets_of_def cap_of_def counters_def)+

lemma set_table_id: "set_table w (buckets_of w al) (cap_of w al) al = al"
  by (cases w) (simp_all add: set_table_def buckets_of_def cap_of_def)

lemma bucket_arrays_alt: "bucket_arrays al = (\<Union>w. {buckets_of w al}) - {0}"
proof -
  have "(UNIV :: which set) = {Live, Freed}" using which.exhaust by auto
  then show ?thesis by (auto simp: bucket_arrays_def buckets_of_def split: which.splits)
qed

lemma bucket_arrays_distinct:
  "(al_buckets al = al_freed_buckets al \<longrightarrow> al_buckets al = 0) \<longleftrightarrow>
   (\<forall>v w. v \<noteq> w \<and> buckets_of v al = buckets_of w al \<longrightarrow> buckets_of v al = 0)"
proof
  assume l: "al_buckets al = al_freed_buckets al \<longrightarrow> al_buckets al = 0"
  show "\<forall>v w. v \<noteq> w \<and> buckets_of v al = buckets_of w al \<longrightarrow> buckets_of v al = 0"
  proof (intro allI impI)
    fix v w assume "v \<noteq> w \<and> buckets_of v al = buckets_of w al"
    with l show "buckets_of v al = 0" by (cases v; cases w) (auto simp: buckets_of_def)
  qed
next
  assume "\<forall>v w. v \<noteq> w \<and> buckets_of v al = buckets_of w al \<longrightarrow> buckets_of v al = 0"
  from this [rule_format, of Live Freed] show "al_buckets al = al_freed_buckets al \<longrightarrow> al_buckets al = 0"
    by (simp add: buckets_of_def)
qed

text \<open>Replacing the table of one list by a new one that indexes the same records.\<close>

lemma shape_new_table:
  assumes sh: "shape lib X s LL" and t: "t' \<noteq> 0" "t' \<notin> fst ` set (sys_blocks s)"
    and h: "\<And>y. same unchained (recs s) h y" "\<And>y. y \<notin> set (LL w) \<Longrightarrow> h y = recs s y"
    and ix: "indexed h xs cap (set (LL w))" "0 < cap"
    and s': "recs s' = h" "tables s' = (tables s)(t' \<mapsto> xs, buckets_of w (alloc s) := None)"
      "alloc s' = set_table w t' cap (alloc s)"
      "insert t' (fst ` set (sys_blocks s)) - {buckets_of w (alloc s)} \<subseteq> fst ` set (sys_blocks s')"
  shows "shape lib X s' LL"
proof -
  let ?t = "buckets_of w (alloc s)"
  have bk: "blocks_ok X s LL" using sh by (simp add: shape_def)
  note D = blocks_okD [OF bk]
  have bdist: "buckets_of v (alloc s) = 0" if "v \<noteq> v'" "buckets_of v (alloc s) = buckets_of v' (alloc s)" for v v'
    using D(6) that unfolding bucket_arrays_distinct by blast
  have in_sys: "buckets_of v (alloc s) \<in> fst ` set (sys_blocks s)" if "buckets_of v (alloc s) \<noteq> 0" for v
    using D(7) that unfolding bucket_arrays_alt by blast
  have tne: "t' \<noteq> buckets_of v (alloc s)" for v using in_sys t by metis
  have dl: "dlist h a (LL v) = dlist (recs s) a (LL v)" for a v
    using same_links_unchained [OF h(1)] by (intro dseg_same) blast
  have disj: "set (LL v) \<inter> set (LL w) = {}" if "v \<noteq> w" for v
    using sh that by (cases v; cases w) (auto simp: shape_def)
  have tok: "table_ok h (tables s') (buckets_of v (alloc s')) (cap_of v (alloc s')) (set (LL v))" for v
  proof (cases "v = w")
    case True
    with ix t(1) tne [of w] s'(2,3) show ?thesis by (simp add: table_ok_def set_table_parts)
  next
    case False
    have ok: "table_ok (recs s) (tables s) (buckets_of v (alloc s)) (cap_of v (alloc s)) (set (LL v))"
      using sh by (simp add: shape_def)
    show ?thesis
    proof (cases "cap_of v (alloc s) = 0")
      case True
      with ok False s'(3) show ?thesis by (simp add: table_ok_def set_table_parts)
    next
      case nz: False
      with ok have "buckets_of v (alloc s) \<noteq> 0" by (simp add: table_ok_def)
      with bdist [of v w] False have "tables s' (buckets_of v (alloc s)) = tables s (buckets_of v (alloc s))"
        using s'(2) tne [of v] by auto
      moreover have "same chain_part (recs s) h y" if "y \<in> set (LL v)" for y
        using h(2) disj [OF False] that by (simp add: same_def disjoint_iff)
      ultimately have "table_ok h (tables s') (buckets_of v (alloc s)) (cap_of v (alloc s)) (set (LL v))"
        using table_ok_same [OF ok] by blast
      with False s'(3) show ?thesis by (simp add: set_table_parts)
    qed
  qed
  have some: "\<exists>r. recs s y = Some r" if "y \<in> all_of LL" for y using shape_all_Some [OF sh that] .
  have ro: "records_ok lib h (all_of LL)"
    by (rule records_ok_same [of lib "recs s"]) (use sh some h(1) same_info_unchained in \<open>auto simp: shape_def\<close>)
  have base: "base_of h ` all_of LL = base_of (recs s) ` all_of LL"
  proof (rule image_cong [OF refl])
    fix y assume "y \<in> all_of LL"
    with some same_info_of(2) [OF same_info_unchained [OF h(1)]] show "base_of h y = base_of (recs s) y" by blast
  qed
  let ?T = "insert t' (bucket_arrays (alloc s) - {?t})"
  have ba: "bucket_arrays (alloc s') = ?T"
    using t(1) bdist s'(3) unfolding bucket_arrays_alt by (auto simp: set_table_parts split: if_splits)
  have tsys: "?t \<notin> base_of (recs s) ` all_of LL \<union> all_of LL \<union> X"
  proof (cases "?t = 0")
    case True
    have "0 \<notin> all_of LL" using sh dseg_nonnull unfolding shape_def all_of_def by blast
    with True D(5) show ?thesis by auto
  next
    case False
    then have "?t \<in> bucket_arrays (alloc s)" by (auto simp: bucket_arrays_alt)
    with D(2-4) show ?thesis by blast
  qed
  have "blocks_ok X s' LL"
  proof (rule blocks_okI)
    show "base_of (recs s') ` all_of LL = base_of (recs s) ` all_of LL" using base s'(1) by simp
    show "bucket_arrays (alloc s') = ?T" by (rule ba)
    have nt: "t' \<notin> base_of (recs s) ` all_of LL \<union> all_of LL \<union> X" using D(7) t(2) by blast
    show "base_of (recs s) ` all_of LL \<inter> ?T = {}" "all_of LL \<inter> ?T = {}" using D(2,3) nt by blast+
    show "X \<inter> (base_of (recs s) ` all_of LL \<union> all_of LL \<union> ?T) = {}" using D(4) nt by blast
    show "al_buckets (alloc s') = al_freed_buckets (alloc s') \<longrightarrow> al_buckets (alloc s') = 0"
      unfolding bucket_arrays_distinct using bdist tne s'(3) by (auto simp: set_table_parts)
    have "base_of (recs s) ` all_of LL \<union> all_of LL \<union> X \<subseteq> fst ` set (sys_blocks s) - {?t}" using D(7) tsys by blast
    moreover have "?T \<subseteq> insert t' (fst ` set (sys_blocks s)) - {?t}" using D(7) tne [of w] by blast
    ultimately show "base_of (recs s) ` all_of LL \<union> all_of LL \<union> ?T \<union> X \<subseteq> fst ` set (sys_blocks s')"
      using s'(4) by blast
  qed (use D in simp_all)
  with sh dl tok ro s' show ?thesis by (simp add: shape_def set_table_parts)
qed

lemma bucket_capacity_pos: "0 < cn_bucket_capacity_for n"
proof -
  have "16 \<le> cn_double_until 16 m" for m
  proof (cases "16 < m")
    case True
    with cn_double_until_ge [of 16 m] show ?thesis by simp
  qed (simp add: cn_double_until.simps)
  from this [of "n * 2"] show ?thesis by (simp add: cn_bucket_capacity_for_def)
qed

lemma awp_bind_fun: "awp (abind m k) E P = awp m E (\<lambda>x. awp (k x) E P)"
  by (rule ext) (rule awp_bind)

lemma awp_step: "m s = m' s \<Longrightarrow> awp m' E P s \<Longrightarrow> awp m E P s"
  by (simp add: awp_def)

lemma awpI: "m s = Some (Inr (x, s')) \<Longrightarrow> P x s' \<Longrightarrow> awp m E P s"
  by (simp add: awp_def)

lemma same_self: "same f h h = (\<lambda>_. True)"
  by (rule ext) simp

lemma rehash_shape:
  assumes lib: "c_library_ok lib" and sh: "shape lib X s LL" and n: "0 < n"
  shows "awp (rehash w lib n) (\<lambda>e. e = ''R4001'')
    (\<lambda>_ s'. shape lib X s' LL \<and> 0 < cap_of w (alloc s') \<and> (\<forall>y. same info (recs s) (recs s') y)
       \<and> (\<forall>y. y \<notin> set (LL w) \<longrightarrow> recs s' y = recs s y) \<and> counters (alloc s') = counters (alloc s)
       \<and> bytes s' = bytes s \<and> reports s' = reports s) s"
    (is "awp _ _ (\<lambda>_. ?Q) s")
proof (cases "cap_of w (alloc s) \<ge> n * 2 \<and> cap_of w (alloc s) \<noteq> 0")
  case True
  with n sh show ?thesis
    by (simp add: awp_def rehash_eq cn_rehash_records_def abind_def aret_def alloc_mod_def amod_def set_table_id
        same_self)
next
  case False
  let ?cap = "cn_bucket_capacity_for n" and ?t = "buckets_of w (alloc s)" and ?hd = "head_of w (alloc s)"
  obtain t' s1 where s1: "c_malloc lib (of_nat ?cap * 8) s = Some (Inr (t', s1))"
      "recs s1 = recs s" "tables s1 = tables s" "alloc s1 = alloc s" "bytes s1 = bytes s" "reports s1 = reports s"
      "t' \<noteq> 0 \<longrightarrow> t' \<notin> fst ` set (sys_blocks s) \<and> sys_blocks s1 = (t', of_nat ?cap * 8) # sys_blocks s"
    by (rule malloc_shape [OF lib sh]) (rule that)
  show ?thesis
  proof (cases "t' = 0")
    case True
    with False n s1 show ?thesis
      by (auto simp: awp_def rehash_eq cn_rehash_records_def abind_def cn_memory_fail_def cn_memory_fail_code_def Let_def)
  next
    case t: False
    let ?s2 = "s1\<lparr>tables := (tables s1)(t' \<mapsto> replicate ?cap 0)\<rparr>"
    have dl: "dseg (recs ?s2) 0 ?hd (LL w) 0" using sh s1(2) by (simp add: shape_def)
    have tb: "tables ?s2 t' = Some (replicate ?cap 0)" by simp
    have "distinct (LL w)" using sh by (cases w) (auto simp: shape_def)
    from rehash_loop_eq [OF dl tb indexed_empty bucket_capacity_pos this]
    obtain h' xs' where l: "rehash_loop ?cap t' ?hd ?s2 = Some (Inr ((), ?s2\<lparr>recs := h', tables := (tables ?s2)(t' \<mapsto> xs')\<rparr>))"
        "indexed h' xs' ?cap (set (LL w))" "\<forall>y. same unchained (recs s) h' y" "\<forall>y. y \<notin> set (LL w) \<longrightarrow> h' y = recs s y"
      using s1(2) by auto
    let ?s3 = "?s2\<lparr>recs := h', tables := (tables ?s2)(t' \<mapsto> xs')\<rparr>"
    let ?bs = "if ?t = 0 then sys_blocks s1 else filter (\<lambda>b. fst b \<noteq> ?t) (sys_blocks s1)"
    have bk: "blocks_ok X s LL" using sh by (simp add: shape_def)
    have "?t \<in> fst ` set (sys_blocks s)" if "?t \<noteq> 0"
      using blocks_okD(7) [OF bk] that unfolding bucket_arrays_alt by blast
    with s1(7) t have fr: "free_table ?t ?s3 = Some (Inr ((), ?s3\<lparr>sys_blocks := ?bs, tables := (tables ?s3)(?t := None)\<rparr>))"
      by (auto simp: free_table_def c_free_def abind_def amod_def)
    let ?s4 = "?s3\<lparr>sys_blocks := ?bs, tables := (tables ?s3)(?t := None), alloc := set_table w t' ?cap (alloc s)\<rparr>"
    have op: "rehash w lib n s = Some (Inr ((), ?s4))"
      using False n t s1(1,4) l(1) fr
      by (auto simp: rehash_eq cn_rehash_records_def abind_def aret_def amod_def alloc_mod_def Let_def)
    have sh4: "shape lib X ?s4 LL"
    proof (rule shape_new_table [OF sh t, where h = h' and w = w and xs = xs' and cap = ?cap])
      show "tables ?s4 = (tables s)(t' \<mapsto> xs', ?t := None)" using s1(3) by simp
      show "insert t' (fst ` set (sys_blocks s)) - {?t} \<subseteq> fst ` set (sys_blocks ?s4)" using s1(7) t by (auto simp: image_iff)
    qed (use s1(7) t l bucket_capacity_pos in simp_all)
    have "?Q ?s4" using sh4 l(3,4) s1 bucket_capacity_pos same_info_unchained by (simp add: set_table_parts)
    then show ?thesis by (rule awpI [where m = "rehash w lib n", OF op])
  qed
qed

section \<open>Views\<close>

text \<open>What the records of a list say about their blocks.\<close>

definition view :: "rec_heap \<Rightarrow> addr list \<Rightarrow> cn_mem_record list" where
  "view h xs = map (\<lambda>x. info (the (h x))) xs"

definition mem_inv :: "c_library \<Rightarrow> mem_state \<Rightarrow> (which \<Rightarrow> addr list) \<Rightarrow> bool" where
  "mem_inv lib s LL \<longleftrightarrow> shape lib {} s LL \<and> counts s LL"

lemma view_same:
  assumes "\<forall>y \<in> set xs. same info h h' y" and "\<forall>y \<in> set xs. \<exists>r. h y = Some r"
  shows "view h' xs = view h xs"
  unfolding view_def
proof (rule map_cong [OF refl])
  fix y assume y: "y \<in> set xs"
  with assms(2) obtain r where r: "h y = Some r" by blast
  with same_SomeD [of info h h' y r] assms(1) y obtain r' where "h' y = Some r'" "info r' = info r" by blast
  with r show "info (the (h' y)) = info (the (h y))" by simp
qed

lemma size_view: "map (size_of h) xs = map mr_size (view h xs)"
  by (simp add: view_def size_of_def info_parts)

lemma view_simps [simp]: "view h [] = []" "view h (x # xs) = info (the (h x)) # view h xs" "view h (xs @ ys) = view h xs @ view h ys"
  "length (view h xs) = length xs"
  by (simp_all add: view_def)

text \<open>The counters, over the views of the two lists.\<close>

definition tallies :: "cn_allocator \<Rightarrow> cn_mem_record list \<Rightarrow> cn_mem_record list \<Rightarrow> bool" where
  "tallies al live freed \<longleftrightarrow>
     al_live_blocks al = length live \<and> al_live_bytes al = sum_list (map mr_size live)
     \<and> al_quarantine_blocks al = length freed \<and> al_quarantine_bytes al = sum_list (map mr_size freed)"

lemma counts_tallies: "counts s LL \<longleftrightarrow> tallies (alloc s) (view (recs s) (LL Live)) (view (recs s) (LL Freed))"
  unfolding counts_def tallies_def by (simp add: size_view)

lemma tallies_counters: "counters al' = counters al \<Longrightarrow> tallies al' live freed = tallies al live freed"
  by (simp add: counters_def tallies_def)

lemma shape_view:
  assumes "shape lib X s LL" and "\<forall>y. same info (recs s) h' y" and "set xs \<subseteq> all_of LL"
  shows "view h' xs = view (recs s) xs"
  using assms shape_all_Some [OF assms(1)] by (intro view_same) blast+

lemma counters_list [simp]: "counters (push_head w xs x al) = counters al" "counters (drop_record w us vs al) = counters al"
  by (cases w; simp add: counters_def push_head_def drop_record_def)+

section \<open>Checks\<close>

lemma awp_verify_guards:
  assumes "recs s a = Some r"
  shows "awp (cn_record_verify_guards lib a) E P s =
    (if \<not> head_guard_ok lib (bytes s) r then E ''R4017'' else if \<not> tail_guard_ok (bytes s) r then E ''R4016'' else P () s)"
  using assms by (simp add: cn_record_verify_guards_def awp_simps)

lemma awp_verify_quarantine:
  assumes "recs s a = Some r"
  shows "awp (cn_record_verify_quarantine lib a) E P s =
    (if \<not> head_guard_ok lib (bytes s) r then E ''R4017'' else if \<not> tail_guard_ok (bytes s) r then E ''R4016''
     else if \<not> cn_record_payload_matches (bytes s) r freed_poison then E ''R4013'' else P () s)"
  using assms by (simp add: cn_record_verify_quarantine_def awp_bind awp_verify_guards awp_basic awp_recs awp_if)

text \<open>The checks look at the block only, not at the links.\<close>

lemma checks_info:
  "head_guard_ok lib m (info r) = head_guard_ok lib m r" "tail_guard_ok m (info r) = tail_guard_ok m r"
  "cn_record_payload_matches m (info r) v = cn_record_payload_matches m r v"
  by (simp_all add: head_guard_ok_def tail_guard_ok_def cn_record_payload_matches_def cn_record_guard_value_def
      cn_record_head_guard_ptr_def cn_record_tail_guard_ptr_def info_def)

definition corruption :: "string \<Rightarrow> bool" where
  "corruption e \<longleftrightarrow> e \<in> {''R4013'', ''R4016'', ''R4017''}"

section \<open>Eviction\<close>

text \<open>The quarantine after eviction: its oldest blocks are dropped until it is within the limits.\<close>

definition over_limit :: "cn_mem_record list \<Rightarrow> bool" where
  "over_limit bs \<longleftrightarrow> length bs > 64 \<or> sum_list (map mr_size bs) > 1024 * 1024"

function evict_blocks :: "cn_mem_record list \<Rightarrow> cn_mem_record list" where
  "evict_blocks bs = (if bs \<noteq> [] \<and> over_limit bs then evict_blocks (butlast bs) else bs)"
  by pat_completeness auto
termination
  by (relation "measure length") auto

declare evict_blocks.simps [simp del]

lemma detach_fold:
  assumes "recs s x = Some r"
  shows "awp (cn_bucket_remove_record (buckets_of w (alloc s)) (cap_of w (alloc s)) x (mr_ptr r)) E
      (\<lambda>_. awp (cn_list_remove_record w x) E Q) s = awp (detach w x) E Q s"
  using assms by (simp add: detach_def awp_bind awp_basic awp_recs)

lemma evict_one_spec:
  assumes inv: "mem_inv lib s LL" and z: "LL Freed = F @ [z]"
  shows "awp (evict_one lib z) corruption
    (\<lambda>_ s'. mem_inv lib s' (LL(Freed := F)) \<and> view (recs s') (LL Live) = view (recs s) (LL Live)
       \<and> view (recs s') F = view (recs s) F \<and> bytes s' = bytes s \<and> reports s' = reports s) s"
proof -
  have sh: "shape lib {} s LL" and ct: "counts s LL" using inv by (simp_all add: mem_inv_def)
  have zF: "z \<in> all_of LL" using z by (auto simp: all_of_def)
  obtain r where r: "recs s z = Some r" using shape_all_Some [OF sh zF] by blast
  let ?LL = "LL(Freed := F)" and ?b = "base_of (recs s) z"
  have nil: "LL Freed = F @ z # []" using z by simp
  obtain s1 where s1: "detach Freed z s = Some (Inr ((), s1))" "shape lib {z, ?b} s1 ?LL"
      "\<forall>y. same info (recs s) (recs s1) y" "alloc s1 = drop_record Freed F [] (alloc s)" "same_rest s s1"
    by (rule detach_shape [OF sh nil]) (simp add: that)
  from same_SomeD [OF s1(3) [rule_format] r] obtain r1 where r1: "recs s1 z = Some r1" "info r1 = info r" by blast
  have b1: "mr_base_ptr r1 = ?b" "mr_size r1 = mr_size r" using r r1(2) info_parts [of r] info_parts [of r1]
    by (simp_all add: base_of_def)
  let ?f = "\<lambda>al. al\<lparr>al_quarantine_blocks := al_quarantine_blocks al - 1, al_quarantine_bytes := al_quarantine_bytes al - mr_size r\<rparr>"
  let ?s2 = "s1\<lparr>alloc := ?f (alloc s1)\<rparr>"
  have sh2: "shape lib (insert z (insert ?b {})) ?s2 ?LL"
    using s1(2) by (subst shape_counters [of _ s1]) (simp_all add: head_of_def buckets_of_def cap_of_def split: which.splits)
  have zb: "z \<noteq> ?b" using blocks_okD(1) [of "{}" s LL] sh zF unfolding shape_def by blast
  obtain s3 where s3: "cn_record_release_storage z ?s2 = Some (Inr ((), s3))" "shape lib {} s3 ?LL"
      "\<forall>y. y \<noteq> z \<longrightarrow> recs s3 y = recs s1 y" "alloc s3 = ?f (alloc s1)" "bytes s3 = bytes s1" "reports s3 = reports s1"
    by (rule release_shape [OF sh2, of r1]) (use r1 b1 zb that in auto)
  have nz: "z \<notin> set (LL Live)" "z \<notin> set F" using sh z by (auto simp: shape_def)
  have sub: "set (LL Live) \<subseteq> all_of LL" "set F \<subseteq> all_of LL" using z by (auto simp: all_of_def)
  have v: "view (recs s3) xs = view (recs s) xs" if "set xs \<subseteq> all_of LL" "z \<notin> set xs" for xs
  proof -
    have "view (recs s3) xs = view (recs s1) xs" using s3(3) that(2) unfolding view_def by (intro map_cong) auto
    with shape_view [OF sh s1(3) that(1)] show ?thesis by simp
  qed
  have "tallies (alloc s3) (view (recs s) (LL Live)) (view (recs s) F)"
    using ct s3(4) s1(4) z r unfolding counts_tallies by (auto simp: tallies_def drop_record_def info_parts)
  then have "counts s3 ?LL" unfolding counts_tallies using v [OF sub(1) nz(1)] v [OF sub(2) nz(2)] by simp
  with s3(2) have inv3: "mem_inv lib s3 ?LL" by (simp add: mem_inv_def)
  have "awp (detach Freed z) corruption
      (\<lambda>_. awp (alloc_mod ?f) corruption (\<lambda>_. awp (cn_record_release_storage z) corruption
        (\<lambda>_ s'. mem_inv lib s' ?LL \<and> view (recs s') (LL Live) = view (recs s) (LL Live)
          \<and> view (recs s') F = view (recs s) F \<and> bytes s' = bytes s \<and> reports s' = reports s))) s"
    using s1(1,5) s3(1,5,6) inv3 v [OF sub(1) nz(1)] v [OF sub(2) nz(2)]
    by (simp add: awp_eq awp_basic same_rest_def)
  then show ?thesis
    using r detach_fold [OF r, of Freed]
    by (simp add: evict_one_def awp_bind_fun awp_verify_quarantine awp_basic awp_recs corruption_def buckets_of_def cap_of_def)
qed

lemma evict_spec:
  assumes "mem_inv lib s LL"
  shows "awp (cn_allocator_evict_quarantine lib) corruption
    (\<lambda>_ s'. \<exists>F. mem_inv lib s' (LL(Freed := F)) \<and> view (recs s') (LL Live) = view (recs s) (LL Live)
       \<and> view (recs s') F = evict_blocks (view (recs s) (LL Freed)) \<and> bytes s' = bytes s \<and> reports s' = reports s) s"
  using assms
proof (induction "length (LL Freed)" arbitrary: s LL)
  case 0
  then have F: "LL Freed = []" by simp
  with 0 have "al_freed_tail (alloc s) = 0" by (simp add: mem_inv_def shape_def before_def)
  then have "cn_allocator_evict_quarantine lib s = Some (Inr ((), s))"
    by (subst cn_allocator_evict_quarantine.simps) (simp add: aret_def)
  moreover have "LL(Freed := []) = LL" using F by auto
  ultimately show ?case using F 0
    by (intro awpI [where m = "cn_allocator_evict_quarantine lib"] exI [of _ "[]"]) (simp_all add: evict_blocks.simps)
next
  case (Suc n)
  let ?v = "view (recs s) (LL Freed)"
  from Suc.hyps(2) obtain F z where z: "LL Freed = F @ [z]" by (cases "LL Freed" rule: rev_cases) auto
  have sh: "shape lib {} s LL" and ct: "counts s LL" using Suc.prems by (simp_all add: mem_inv_def)
  have "dlist (recs s) (head_of Freed (alloc s)) (LL Freed)" using sh by (simp only: shape_def)
  from dseg_nonnull [OF this] have tl: "al_freed_tail (alloc s) = z" "z \<noteq> 0"
    using sh z by (auto simp: shape_def before_def)
  have full: "quarantine_full (alloc s) = over_limit ?v"
    using ct unfolding counts_tallies by (simp add: quarantine_full_def over_limit_def tallies_def)
  show ?case
  proof (cases "over_limit ?v")
    case False
    then have "cn_allocator_evict_quarantine lib s = Some (Inr ((), s))"
      by (subst cn_allocator_evict_quarantine.simps) (simp add: full aret_def)
    moreover have "LL(Freed := LL Freed) = LL" by auto
    moreover have "evict_blocks ?v = ?v" using False by (simp add: evict_blocks.simps)
    ultimately show ?thesis using Suc.prems
      by (intro awpI [where m = "cn_allocator_evict_quarantine lib"] exI [of _ "LL Freed"]) simp_all
  next
    case True
    have ev: "evict_blocks ?v = evict_blocks (view (recs s) F)"
      using True z by (subst evict_blocks.simps) simp
    have step: "cn_allocator_evict_quarantine lib s = abind (evict_one lib z) (\<lambda>_. cn_allocator_evict_quarantine lib) s"
      using True tl by (subst cn_allocator_evict_quarantine.simps) (simp add: full abind_def split: option.splits sum.splits)
    have "awp (abind (evict_one lib z) (\<lambda>_. cn_allocator_evict_quarantine lib)) corruption
      (\<lambda>_ s'. \<exists>F'. mem_inv lib s' (LL(Freed := F')) \<and> view (recs s') (LL Live) = view (recs s) (LL Live)
       \<and> view (recs s') F' = evict_blocks ?v \<and> bytes s' = bytes s \<and> reports s' = reports s) s"
      unfolding awp_bind
    proof (rule awp_mono [OF evict_one_spec [OF Suc.prems z]])
      fix u :: unit and s1
      assume s1: "mem_inv lib s1 (LL(Freed := F)) \<and> view (recs s1) (LL Live) = view (recs s) (LL Live)
        \<and> view (recs s1) F = view (recs s) F \<and> bytes s1 = bytes s \<and> reports s1 = reports s"
      have "n = length ((LL(Freed := F)) Freed)" using Suc.hyps(2) z by simp
      from Suc.hyps(1) [of "LL(Freed := F)" s1] this s1 ev
      show "awp (cn_allocator_evict_quarantine lib) corruption
        (\<lambda>_ s'. \<exists>F'. mem_inv lib s' (LL(Freed := F')) \<and> view (recs s') (LL Live) = view (recs s) (LL Live)
          \<and> view (recs s') F' = evict_blocks ?v \<and> bytes s' = bytes s \<and> reports s' = reports s) s1"
        by simp
    qed
    then show ?thesis by (rule awp_step [of "cn_allocator_evict_quarantine lib" s
            "aseq (evict_one lib z) (cn_allocator_evict_quarantine lib)", OF step])
  qed
qed

end
