(* ===== verification/Allocator.thy ===== *)
theory Allocator
  imports Memory_Ops
begin

text \<open>
  The operations of the checking allocator: each keeps the invariant and acts on the lists of live
  and of quarantined blocks as an abstract allocator does, aborts only for the documented
  reasons, and never gets lost in its own data structures.
\<close>

section \<open>Auxiliary operations\<close>

definition guard_bytes :: "c_library \<Rightarrow> cn_mem_record \<Rightarrow> (addr \<Rightarrow> 8 word) \<Rightarrow> addr \<Rightarrow> 8 word" where
  "guard_bytes lib r m =
     write_bytes (cn_record_tail_guard_ptr r) (unat cn_memory_tail_size) (cn_guard_byte (NOT (cn_record_guard_value r)))
       (write_bytes (cn_record_head_guard_ptr r) (unat (cn_memory_prefix_size lib)) (cn_guard_byte (cn_record_guard_value r)) m)"

definition set_bytes :: "addr \<Rightarrow> 8 word \<Rightarrow> 64 word \<Rightarrow> (addr \<Rightarrow> 8 word) \<Rightarrow> addr \<Rightarrow> 8 word" where
  "set_bytes a v n m = (\<lambda>x. if x - a < n then v else m x)"

lemma awp_bytes:
  "recs s a = Some r \<Longrightarrow> awp (cn_record_write_guards lib a) E Q s = Q () (s\<lparr>bytes := guard_bytes lib r (bytes s)\<rparr>)"
  "recs s a = Some r \<Longrightarrow> awp (cn_record_fill_payload a v) E Q s = Q () (s\<lparr>bytes := set_bytes (mr_ptr r) v (mr_size r) (bytes s)\<rparr>)"
  "awp (c_memset p v n) E Q s = Q () (s\<lparr>bytes := set_bytes p v n (bytes s)\<rparr>)"
  by (simp_all add: cn_record_write_guards_def cn_record_fill_payload_def c_memset_def awp_simps guard_bytes_def Let_def
      set_bytes_def)

lemma guard_bytes_info: "guard_bytes lib (info r) = guard_bytes lib r"
  by (simp add: guard_bytes_def cn_record_tail_guard_ptr_def cn_record_head_guard_ptr_def cn_record_guard_value_def
      info_def fun_eq_iff)

lemma awp_aget_fun: "awp (aget f) E P = (\<lambda>s. P (f s) s)"
  by (rule ext) (simp add: awp_basic)

lemma awp_alloc_fun: "awp (alloc_mod f) E P = (\<lambda>s. P () (s\<lparr>alloc := f (alloc s)\<rparr>))" "awp (aret x) E Q = Q x"
  by (rule ext, simp add: awp_basic)+

lemma attach_fold:
  "awp (cn_list_insert_head w x) E
     (\<lambda>_ s. awp (cn_bucket_insert_record (buckets_of w (alloc s)) (cap_of w (alloc s)) x) E Q s) s = awp (attach w x) E Q s"
  by (simp add: attach_def awp_bind_fun awp_aget_fun)

section \<open>Sizes\<close>

lemma word_nonzero_not_less_1: "(sz :: 64 word) \<noteq> 0 \<Longrightarrow> 0 < unat sz"
  by (simp add: unat_gt_0)

lemma add_overflow_iff:
  "cn_size_add_overflow a b = (if unat a + unat b < 2 ^ 64 then Some (a + b) else None)"
proof -
  have "unat (- 1 - b) = unat (- 1 :: 64 word) - unat b" by (rule unat_sub) simp
  then have "unat (- 1 - b) = 2 ^ 64 - 1 - unat b" by (simp add: unsigned_minus_1_eq_mask mask_eq_exp_minus_1)
  moreover have "unat b < 2 ^ 64" using unsigned_less [of b] by simp
  ultimately have "a > - 1 - b \<longleftrightarrow> \<not> unat a + unat b < 2 ^ 64" by (auto simp: word_less_nat_alt)
  then show ?thesis by (simp add: cn_size_add_overflow_def)
qed

lemma total_size_iff:
  "cn_allocation_total_size lib n =
    (if unat n + unat (cn_memory_prefix_size lib) + 8 < 2 ^ 64 then Some (n + cn_memory_prefix_size lib + 8) else None)"
proof (cases "unat n + unat (cn_memory_prefix_size lib) < 2 ^ 64")
  case True
  then have "unat (n + cn_memory_prefix_size lib) = unat n + unat (cn_memory_prefix_size lib)"
    by (simp add: unat_word_ariths)
  with True show ?thesis
    by (simp add: cn_allocation_total_size_def add_overflow_iff cn_memory_tail_size_def)
qed (simp add: cn_allocation_total_size_def add_overflow_iff)

lemma total_size_unat:
  "cn_allocation_total_size lib n = Some t \<Longrightarrow> unat t = unat n + unat (cn_memory_prefix_size lib) + 8"
  by (auto simp: total_size_iff unat_word_ariths split: if_splits)

section \<open>Allocation\<close>

definition new_block :: "c_library \<Rightarrow> addr \<Rightarrow> 64 word \<Rightarrow> string \<Rightarrow> int \<Rightarrow> cn_mem_record" where
  "new_block lib p sz file ln =
     \<lparr>mr_base_ptr = p - cn_memory_prefix_size lib, mr_ptr = p, mr_size = sz, mr_file = file, mr_line = ln,
      mr_released_file = None, mr_released_line = 0, mr_prev = 0, mr_next = 0, mr_bucket_next = 0\<rparr>"

definition actual :: "64 word \<Rightarrow> 64 word" where
  "actual sz = (if sz = 0 then 1 else sz)"

lemma payload_nonnull:
  assumes "c_library_ok lib" and "cn_allocation_total_size lib n = Some t" and "base \<noteq> 0" and "unat base + unat t \<le> 2 ^ 64"
  shows "unat (base + cn_memory_prefix_size lib) = unat base + unat (cn_memory_prefix_size lib)"
    and "base + cn_memory_prefix_size lib \<noteq> 0"
proof -
  have "unat base + unat (cn_memory_prefix_size lib) < 2 ^ 64" using total_size_unat [OF assms(2)] assms(4) by linarith
  then show "unat (base + cn_memory_prefix_size lib) = unat base + unat (cn_memory_prefix_size lib)"
    by (simp add: unat_word_ariths)
  then show "base + cn_memory_prefix_size lib \<noteq> 0" using assms(3) by (metis add_is_0 unat_0 unat_eq_zero)
qed

text \<open>The step from a record that is on no list to a live block, in \<open>cn_alloc_impl\<close>.\<close>

lemma attach_inv:
  assumes sh: "shape lib {x, b} s LL" and r: "recs s x = Some r" "mr_base_ptr r = b"
      "mr_ptr r = b + cn_memory_prefix_size lib" "mr_ptr r \<noteq> 0" "mr_size r \<noteq> 0"
    and x: "x \<noteq> b" and cap: "0 < cap_of w (alloc s)"
  obtains s' where "attach w x s = Some (Inr ((), s'))" and "shape lib {} s' (LL(w := x # LL w))"
    and "\<forall>v. view (recs s') ((LL(w := x # LL w)) v) = (if v = w then [info r] else []) @ view (recs s) (LL v)"
    and "counters (alloc s') = counters (alloc s)" and "same_rest s s'" and "\<exists>r'. recs s' x = Some r' \<and> info r' = info r"
proof -
  obtain s' where s': "attach w x s = Some (Inr ((), s'))" "shape lib {} s' (LL(w := x # LL w))"
      "\<forall>y. same info (recs s) (recs s') y" "alloc s' = push_head w (LL w) x (alloc s)" "same_rest s s'"
    by (rule attach_shape [OF sh r x _ _ cap]) (simp_all add: that)
  from same_SomeD [OF s'(3) [rule_format] r(1)] obtain r' where r': "recs s' x = Some r'" "info r' = info r" by blast
  have "view (recs s') (LL v) = view (recs s) (LL v)" for v
    by (rule shape_view [OF sh s'(3)]) (auto simp: all_of_iff)
  then have "view (recs s') ((LL(w := x # LL w)) v) = (if v = w then [info r] else []) @ view (recs s) (LL v)" for v
    using r' by simp
  with s' r' show ?thesis by (intro that [of s']) simp_all
qed

text \<open>The post-condition of an allocation of \<open>n\<close> bytes.\<close>

definition alloc_post :: "c_library \<Rightarrow> mem_state \<Rightarrow> (which \<Rightarrow> addr list) \<Rightarrow> 64 word \<Rightarrow> string \<Rightarrow> int \<Rightarrow> addr \<Rightarrow> mem_state \<Rightarrow> bool" where
  "alloc_post lib s LL n file ln p s' \<longleftrightarrow>
     (\<exists>x. mem_inv lib s' (LL(Live := x # LL Live)) \<and> p \<noteq> 0
       \<and> view (recs s') (x # LL Live) = new_block lib p n file ln # view (recs s) (LL Live)
       \<and> view (recs s') (LL Freed) = view (recs s) (LL Freed) \<and> reports s' = reports s
       \<and> bytes s' = set_bytes p alloc_poison n (guard_bytes lib (new_block lib p n file ln) (bytes s))
       \<and> unat p + unat n + 8 \<le> 2 ^ 64 \<and> unat (lib_max_align lib) \<le> unat p)"

definition counted :: "64 word \<Rightarrow> mem_state \<Rightarrow> mem_state" where
  "counted n s = s\<lparr>alloc := count_bytes (al_live_bytes (alloc s) + n) ((alloc s)\<lparr>al_live_blocks := al_live_blocks (alloc s) + 1\<rparr>)\<rparr>"

lemma alloc_tail:
  assumes lib: "c_library_ok lib" and ct: "counts s LL" and n: "n \<noteq> 0"
    and s1: "shape lib {base} s1 LL" "recs s1 = recs s" "alloc s1 = alloc s" "bytes s1 = bytes s" "reports s1 = reports s"
    and p: "p = base + cn_memory_prefix_size lib" "p \<noteq> 0" "unat p + unat n + 8 \<le> 2 ^ 64" "unat (lib_max_align lib) \<le> unat p"
    and s2: "shape lib {base} s2 LL" "0 < cap_of Live (alloc s2)" "\<forall>y. same info (recs s1) (recs s2) y"
      "counters (alloc s2) = counters (alloc s1)" "bytes s2 = bytes s1" "reports s2 = reports s1" and E: "E ''R4001''"
  shows "awp (cn_record_create lib base p n file ln) E
    (\<lambda>x. awp (attach Live x) E (\<lambda>_. awp (cn_record_write_guards lib x) E (\<lambda>_. awp (cn_record_fill_payload x alloc_poison) E
       (\<lambda>_ s'. alloc_post lib s LL n file ln p (counted n s'))))) s2"
proof -
  let ?b = "new_block lib p n file ln"
  obtain x s3 where s3: "c_malloc lib 80 s2 = Some (Inr (x, s3))"
      "x \<noteq> 0 \<longrightarrow> x \<notin> {base} \<and> unat x + unat (80 :: 64 word) \<le> 2 ^ 64" "x \<noteq> 0 \<longrightarrow> shape lib {x, base} s3 LL"
      "recs s3 = recs s2" "tables s3 = tables s2" "alloc s3 = alloc s2" "bytes s3 = bytes s2" "reports s3 = reports s2"
    by (rule malloc_shape [OF lib s2(1)]) (rule that)
  show ?thesis
  proof (cases "x = 0")
    case True
    with s3(1) E show ?thesis by (simp add: cn_record_create_def awp_bind_fun awp_eq awp_basic)
  next
    case x: False
    let ?s4 = "s3\<lparr>recs := (recs s3)(x \<mapsto> ?b)\<rparr>"
    have sh3: "shape lib {x, base} s3 LL" using s3(3) x by simp
    have xL: "x \<notin> all_of LL" using sh3 blocks_okD(4) unfolding shape_def by blast
    have sh4: "shape lib {x, base} ?s4 LL" by (rule shape_outside [OF sh3]) (use xL in auto)
    have v4: "view (recs ?s4) (LL v) = view (recs s) (LL v)" for v
    proof -
      have "view (recs ?s4) (LL v) = view (recs s2) (LL v)"
        using xL s3(4) unfolding view_def by (intro map_cong) (auto simp: all_of_iff)
      also have "\<dots> = view (recs s1) (LL v)" by (rule shape_view [OF s1(1) s2(3)]) (auto simp: all_of_iff)
      finally show ?thesis using s1(2) by simp
    qed
    obtain s5 where s5: "attach Live x ?s4 = Some (Inr ((), s5))" "shape lib {} s5 (LL(Live := x # LL Live))"
        "\<forall>v. view (recs s5) ((LL(Live := x # LL Live)) v) = (if v = Live then [info ?b] else []) @ view (recs ?s4) (LL v)"
        "counters (alloc s5) = counters (alloc ?s4)" "same_rest ?s4 s5" "\<exists>r'. recs s5 x = Some r' \<and> info r' = info ?b"
      by (rule attach_inv [OF sh4, of ?b Live]) (use p n s2(2) s3 x that in \<open>auto simp: new_block_def\<close>)
    have ib: "info ?b = ?b" by (simp add: info_def new_block_def)
    from s5(6) ib obtain r' where r': "recs s5 x = Some r'" "info r' = ?b" by auto
    have b5: "bytes s5 = bytes s" "reports s5 = reports s" using s5(5) s3 s2 s1 by (simp_all add: same_rest_def)
    have g: "guard_bytes lib r' = guard_bytes lib ?b" using guard_bytes_info [of lib r'] r'(2) by simp
    have f: "mr_ptr r' = p" "mr_size r' = n" using r'(2) info_parts [of r'] by (simp_all add: new_block_def)
    let ?s6 = "s5\<lparr>bytes := set_bytes p alloc_poison n (guard_bytes lib ?b (bytes s)),
      alloc := count_bytes (al_live_bytes (alloc s5) + n) ((alloc s5)\<lparr>al_live_blocks := al_live_blocks (alloc s5) + 1\<rparr>)\<rparr>"
    have vL: "view (recs s5) (x # LL Live) = ?b # view (recs s) (LL Live)"
      and vF: "view (recs s5) (LL Freed) = view (recs s) (LL Freed)"
      using s5(3) [rule_format, of Live] s5(3) [rule_format, of Freed] v4 ib by simp_all
    have "shape lib {} ?s6 (LL(Live := x # LL Live))"
      using s5(2) by (subst shape_counters [of _ s5])
        (simp_all add: head_of_def buckets_of_def cap_of_def count_bytes_def split: which.splits)
    moreover have "tallies (alloc ?s6) (?b # view (recs s) (LL Live)) (view (recs s) (LL Freed))"
    proof -
      have "tallies (alloc s5) (view (recs s) (LL Live)) (view (recs s) (LL Freed))"
        using ct s5(4) s3(6) s2(4) s1(3) tallies_counters [of "alloc s5" "alloc s"] unfolding counts_tallies by simp
      then show ?thesis by (auto simp: tallies_def count_bytes_def new_block_def)
    qed
    ultimately have "mem_inv lib ?s6 (LL(Live := x # LL Live))"
      unfolding mem_inv_def counts_tallies using vL vF by simp
    then have "alloc_post lib s LL n file ln p ?s6"
      unfolding alloc_post_def using p vL vF b5 by (intro exI [of _ x]) simp
    then show ?thesis
      using s3(1) x s5(1) r'(1) g f b5
      by (simp add: cn_record_create_def awp_bind_fun awp_eq awp_basic awp_bytes new_block_def counted_def p(1))
  qed
qed

lemma attach_unfold:
  "awp (attach w x) E Q = awp (cn_list_insert_head w x) E
     (\<lambda>_ s. awp (cn_bucket_insert_record (buckets_of w (alloc s)) (cap_of w (alloc s)) x) E Q s)"
  by (rule ext) (simp add: attach_fold)

lemma alloc_spec:
  assumes lib: "c_library_ok lib" and inv: "mem_inv lib s LL"
  shows "awp (cn_alloc_impl lib sz file ln) (\<lambda>e. e = ''R4001'' \<or> e = ''R4006'' \<and> 2 ^ 64 \<le> unat (actual sz) + unat (lib_max_align lib) + 8)
    (alloc_post lib s LL (actual sz) file ln) s"
    (is "awp _ ?E ?Q s")
proof (cases "cn_allocation_total_size lib (actual sz)")
  case None
  then show ?thesis
    by (auto simp: cn_alloc_impl_def actual_def [symmetric] Let_def awp_basic total_size_iff cn_memory_prefix_size_def
        split: if_splits)
next
  case (Some total)
  let ?n = "actual sz"
  have sh: "shape lib {} s LL" and ct: "counts s LL" using inv by (simp_all add: mem_inv_def)
  obtain base s1 where s1: "c_malloc lib total s = Some (Inr (base, s1))"
      "base \<noteq> 0 \<longrightarrow> base \<notin> {} \<and> unat base + unat total \<le> 2 ^ 64" "base \<noteq> 0 \<longrightarrow> shape lib {base} s1 LL"
      "recs s1 = recs s" "tables s1 = tables s" "alloc s1 = alloc s" "bytes s1 = bytes s" "reports s1 = reports s"
    by (rule malloc_shape [OF lib sh]) (rule that)
  show ?thesis
  proof (cases "base = 0")
    case True
    with Some s1(1) show ?thesis
      by (simp add: cn_alloc_impl_def actual_def [symmetric] awp_bind_fun awp_eq awp_basic Let_def)
  next
    case False
    let ?p = "base + cn_memory_prefix_size lib"
    have sh1: "shape lib {base} s1 LL" and bt: "unat base + unat total \<le> 2 ^ 64" using s1(2,3) False by auto
    note p = payload_nonnull [OF lib Some False bt]
    have bounds: "unat ?p + unat ?n + 8 \<le> 2 ^ 64" "unat (lib_max_align lib) \<le> unat ?p"
      using bt total_size_unat [OF Some] p(1) by (simp_all add: cn_memory_prefix_size_def)
    have n: "?n \<noteq> 0" by (simp add: actual_def)
    have tail: "awp (cn_record_create lib base ?p ?n file ln) ?E
        (\<lambda>x. awp (attach Live x) ?E (\<lambda>_. awp (cn_record_write_guards lib x) ?E (\<lambda>_. awp (cn_record_fill_payload x alloc_poison) ?E
           (\<lambda>_ s'. ?Q ?p (counted ?n s'))))) s2"
      if "shape lib {base} s2 LL" "0 < cap_of Live (alloc s2)" "\<forall>y. same info (recs s1) (recs s2) y"
        "counters (alloc s2) = counters (alloc s1)" "bytes s2 = bytes s1" "reports s2 = reports s1" for s2
      by (rule alloc_tail [OF lib ct n sh1 s1(4,6,7,8) refl p(2) bounds that]) simp
    have "awp (rehash Live lib (al_live_blocks (alloc s1) + 1)) ?E
       (\<lambda>_. awp (cn_record_create lib base ?p ?n file ln) ?E
        (\<lambda>x. awp (attach Live x) ?E (\<lambda>_. awp (cn_record_write_guards lib x) ?E (\<lambda>_. awp (cn_record_fill_payload x alloc_poison) ?E
           (\<lambda>_ s'. ?Q ?p (counted ?n s')))))) s1"
      by (rule awp_mono [OF rehash_shape [OF lib sh1]]) (use tail in auto)
    then show ?thesis
      using Some s1(1) False
      by (simp add: cn_alloc_impl_def actual_def [symmetric] awp_bind_fun awp_eq awp_basic Let_def rehash_def awp_aget_fun
          attach_unfold buckets_of_def cap_of_def awp_alloc_fun counted_def)
  qed
qed

section \<open>Finding blocks\<close>

lemma set_all: "set (LL v) \<subseteq> all_of LL"
  by (auto simp: all_of_iff)

lemma find_spec:
  assumes "shape lib X s LL"
  shows "cn_find_record_in_buckets (buckets_of w (alloc s)) (cap_of w (alloc s)) p s =
    Some (Inr (lookup (recs s) (set (LL w)) p, s))"
proof (cases "cap_of w (alloc s) = 0")
  case True
  moreover have "table_ok (recs s) (tables s) (buckets_of w (alloc s)) (cap_of w (alloc s)) (set (LL w))"
    using assms by (simp add: shape_def)
  ultimately show ?thesis
    by (simp add: cn_find_record_in_buckets_def aret_def table_ok_def lookup_miss)
next
  case False
  then obtain xs where xs: "tables s (buckets_of w (alloc s)) = Some xs"
      "indexed (recs s) xs (cap_of w (alloc s)) (set (LL w))" "buckets_of w (alloc s) \<noteq> 0"
    using shape_table [OF assms] by blast
  have "inj_on (ptr_of (recs s)) (all_of LL)" using assms by (simp add: shape_def records_ok_def)
  then have "inj_on (ptr_of (recs s)) (set (LL w))" by (rule inj_on_subset) (auto simp: all_of_iff)
  with False show ?thesis using find_record_eq [OF xs(1,2)] by simp
qed

lemma awp_find:
  assumes "shape lib X s LL"
  shows "awp (cn_find_record_in_buckets (buckets_of w (alloc s)) (cap_of w (alloc s)) p) E P s =
    P (lookup (recs s) (set (LL w)) p) s"
  using find_spec [OF assms] by (simp add: awp_eq)

lemma ptr_view: "p \<in> mr_ptr ` set (view h xs) \<longleftrightarrow> (\<exists>x \<in> set xs. ptr_of h x = p)"
  by (auto simp: view_def ptr_of_def info_parts image_iff)

lemma shape_nonnull:
  assumes "shape lib X s LL" and "x \<in> set (LL w)"
  shows "x \<noteq> 0"
proof -
  have "dlist (recs s) (head_of w (alloc s)) (LL w)" using assms(1) by (simp add: shape_def)
  from dseg_nonnull [OF this] assms(2) show ?thesis by blast
qed

lemma lookup_none: "p \<notin> mr_ptr ` set (view h xs) \<Longrightarrow> lookup h (set xs) p = 0"
  unfolding ptr_view by (intro lookup_miss) blast

lemma lookup_some:
  assumes "shape lib X s LL" and "p \<in> mr_ptr ` set (view (recs s) (LL w))"
  obtains x where "x \<in> set (LL w)" and "lookup (recs s) (set (LL w)) p = x" and "ptr_of (recs s) x = p" and "x \<noteq> 0"
proof -
  from assms(2) obtain x where x: "x \<in> set (LL w)" "ptr_of (recs s) x = p" unfolding ptr_view by blast
  have "inj_on (ptr_of (recs s)) (all_of LL)" using assms(1) by (simp add: shape_def records_ok_def)
  then have "inj_on (ptr_of (recs s)) (set (LL w))" by (rule inj_on_subset) (auto simp: all_of_iff)
  from that [OF x(1) lookup_hit [OF this x] x(2) shape_nonnull [OF assms(1) x(1)]] show ?thesis .
qed

text \<open>A pointer strictly inside a block.\<close>

definition interior :: "addr \<Rightarrow> cn_mem_record \<Rightarrow> bool" where
  "interior p b \<longleftrightarrow> p > mr_ptr b \<and> p < mr_ptr b + mr_size b"

lemma find_containing_spec:
  "dseg h q a xs 0 \<Longrightarrow> \<exists>c. find_containing h a p = Some c \<and> (c = 0 \<longleftrightarrow> \<not> (\<exists>b \<in> set (view h xs). interior p b))"
proof (induction xs arbitrary: q a)
  case Nil
  then show ?case by (simp add: find_containing.simps)
next
  case (Cons x xs)
  then obtain r where r: "a = x" "x \<noteq> 0" "h x = Some r" "dseg h x (mr_next r) xs 0" by auto
  from Cons.IH [OF r(4)] obtain c where c: "find_containing h (mr_next r) p = Some c"
      "c = 0 \<longleftrightarrow> \<not> (\<exists>b \<in> set (view h xs). interior p b)" by blast
  show ?case
    using r c by (subst find_containing.simps) (auto simp: interior_def info_parts)
qed

lemma awp_containing:
  assumes "shape lib X s LL" and "\<And>c. (c = 0 \<longleftrightarrow> \<not> (\<exists>b \<in> set (view (recs s) (LL w)). interior p b)) \<Longrightarrow> P c s"
  shows "awp (cn_find_containing_record_in_list (head_of w (alloc s)) p) E P s"
proof -
  have "dlist (recs s) (head_of w (alloc s)) (LL w)" using assms(1) by (simp add: shape_def)
  from find_containing_spec [OF this, of p] assms(2) show ?thesis
    by (auto simp: cn_find_containing_record_in_list_def awp_read)
qed

section \<open>Freeing\<close>

lemma quarantine_tail:
  assumes sh: "shape lib {x, b} s LL" and r: "recs s x = Some r" "mr_base_ptr r = b"
      "mr_ptr r = b + cn_memory_prefix_size lib" "mr_ptr r \<noteq> 0" "mr_size r \<noteq> 0" and x: "x \<noteq> b"
    and cap: "0 < cap_of Freed (alloc s)"
    and t: "tallies (alloc s) (view (recs s) (LL Live)) (view (recs s) (LL Freed))"
  shows "awp (attach Freed x) E (\<lambda>_. awp (rec_at x) E (\<lambda>q. awp (alloc_mod (\<lambda>al. al\<lparr>al_quarantine_blocks := al_quarantine_blocks al + 1,
              al_quarantine_bytes := al_quarantine_bytes al + mr_size q\<rparr>)) E
      (\<lambda>_ s'. mem_inv lib s' (LL(Freed := x # LL Freed)) \<and> view (recs s') (LL Live) = view (recs s) (LL Live)
        \<and> view (recs s') (x # LL Freed) = info r # view (recs s) (LL Freed) \<and> bytes s' = bytes s \<and> reports s' = reports s))) s"
proof -
  obtain s' where s': "attach Freed x s = Some (Inr ((), s'))" "shape lib {} s' (LL(Freed := x # LL Freed))"
      "\<forall>v. view (recs s') ((LL(Freed := x # LL Freed)) v) = (if v = Freed then [info r] else []) @ view (recs s) (LL v)"
      "counters (alloc s') = counters (alloc s)" "same_rest s s'" "\<exists>r'. recs s' x = Some r' \<and> info r' = info r"
    by (rule attach_inv [OF sh r x cap]) (rule that)
  from s'(6) obtain r' where r': "recs s' x = Some r'" "info r' = info r" by blast
  have sz: "mr_size r' = mr_size r" using info_parts(3) [of r] info_parts(3) [of r'] r'(2) by simp
  have vL: "view (recs s') (LL Live) = view (recs s) (LL Live)"
    and vF: "view (recs s') (x # LL Freed) = info r # view (recs s) (LL Freed)"
    using s'(3) [rule_format, of Live] s'(3) [rule_format, of Freed] by simp_all
  let ?f = "\<lambda>al. al\<lparr>al_quarantine_blocks := al_quarantine_blocks al + 1, al_quarantine_bytes := al_quarantine_bytes al + mr_size r\<rparr>"
  have "shape lib {} (s'\<lparr>alloc := ?f (alloc s')\<rparr>) (LL(Freed := x # LL Freed))"
    using s'(2) by (subst shape_counters [of _ s']) (simp_all add: head_of_def buckets_of_def cap_of_def split: which.splits)
  moreover have "tallies (?f (alloc s')) (view (recs s) (LL Live)) (info r # view (recs s) (LL Freed))"
  proof -
    have "tallies (alloc s') (view (recs s) (LL Live)) (view (recs s) (LL Freed))" using t s'(4) tallies_counters by blast
    then show ?thesis by (auto simp: tallies_def info_parts)
  qed
  ultimately have "mem_inv lib (s'\<lparr>alloc := ?f (alloc s')\<rparr>) (LL(Freed := x # LL Freed))"
    unfolding mem_inv_def counts_tallies using vL vF by simp
  with s'(1,5) r'(1) sz vL vF show ?thesis by (simp add: awp_eq awp_recs awp_basic same_rest_def)
qed

definition released :: "string \<Rightarrow> int \<Rightarrow> cn_mem_record \<Rightarrow> cn_mem_record" where
  "released file ln b = b\<lparr>mr_released_file := Some file, mr_released_line := ln\<rparr>"

definition free_errors :: "string \<Rightarrow> bool" where
  "free_errors e \<longleftrightarrow> e = ''R4001'' \<or> corruption e"

lemma quarantine_spec:
  assumes lib: "c_library_ok lib" and sh: "shape lib {x, b} s LL" and r: "recs s x = Some r" "mr_base_ptr r = b"
      "mr_ptr r = b + cn_memory_prefix_size lib" "mr_ptr r \<noteq> 0" "mr_size r \<noteq> 0" and x: "x \<noteq> b"
    and t: "tallies (alloc s) (view (recs s) (LL Live)) (view (recs s) (LL Freed))"
  shows "awp (cn_allocator_move_to_quarantine lib x file ln) free_errors
    (\<lambda>_ s'. \<exists>F. mem_inv lib s' (LL(Freed := F)) \<and> view (recs s') (LL Live) = view (recs s) (LL Live)
      \<and> view (recs s') F = evict_blocks (released file ln (info r) # view (recs s) (LL Freed)) \<and> reports s' = reports s) s"
proof -
  let ?Q = "\<lambda>_ s'. \<exists>F. mem_inv lib s' (LL(Freed := F)) \<and> view (recs s') (LL Live) = view (recs s) (LL Live)
      \<and> view (recs s') F = evict_blocks (released file ln (info r) # view (recs s) (LL Freed)) \<and> reports s' = reports s"
  let ?r = "released file ln r"
  let ?s1 = "s\<lparr>recs := (recs s)(x \<mapsto> ?r), bytes := set_bytes (mr_ptr r) freed_poison (mr_size r) (bytes s)\<rparr>"
  have xL: "x \<notin> all_of LL" using sh blocks_okD(4) unfolding shape_def by blast
  have "shape lib {x, b} (s\<lparr>recs := (recs s)(x \<mapsto> ?r)\<rparr>) LL" by (rule shape_outside [OF sh]) (use xL in auto)
  then have sh1: "shape lib {x, b} ?s1 LL" by (subst shape_cong [of _ "s\<lparr>recs := (recs s)(x \<mapsto> ?r)\<rparr>"]) simp_all
  have v1: "view (recs ?s1) (LL v) = view (recs s) (LL v)" for v
    using xL unfolding view_def by (intro map_cong) (auto simp: all_of_iff)
  have ir: "info ?r = released file ln (info r)" by (simp add: released_def info_def)
  let ?inc = "\<lambda>r al. al\<lparr>al_quarantine_blocks := al_quarantine_blocks al + 1, al_quarantine_bytes := al_quarantine_bytes al + mr_size r\<rparr>"
  have tail: "awp (attach Freed x) free_errors (\<lambda>_. awp (rec_at x) free_errors (\<lambda>r. awp (alloc_mod (?inc r)) free_errors
      (\<lambda>_. awp (cn_allocator_evict_quarantine lib) free_errors ?Q))) s2"
    if s2: "shape lib {x, b} s2 LL" "0 < cap_of Freed (alloc s2)" "\<forall>y. same info (recs ?s1) (recs s2) y"
      "\<forall>y. y \<notin> set (LL Freed) \<longrightarrow> recs s2 y = recs ?s1 y" "counters (alloc s2) = counters (alloc ?s1)"
      "bytes s2 = bytes ?s1" "reports s2 = reports ?s1" for s2
  proof -
    have v2: "view (recs s2) (LL v) = view (recs s) (LL v)" for v
      using shape_view [OF sh1 s2(3) set_all] v1 by simp
    have r2: "recs s2 x = Some ?r" using s2(4) xL by (auto simp: all_of_def)
    have rr: "mr_base_ptr ?r = b" "mr_ptr ?r = b + cn_memory_prefix_size lib" "mr_ptr ?r \<noteq> 0" "mr_size ?r \<noteq> 0"
      using r by (simp_all add: released_def)
    have t2: "tallies (alloc s2) (view (recs s2) (LL Live)) (view (recs s2) (LL Freed))"
      using t v2 s2(5) tallies_counters [of "alloc s2" "alloc s"] by simp
    show ?thesis
    proof (rule awp_mono [OF quarantine_tail [OF s2(1) r2 rr x s2(2) t2, of free_errors]])
      fix u :: unit and s3
      assume a: "awp (rec_at x) free_errors (\<lambda>q. awp (alloc_mod (?inc q)) free_errors
        (\<lambda>_ s'. mem_inv lib s' (LL(Freed := x # LL Freed)) \<and> view (recs s') (LL Live) = view (recs s2) (LL Live)
        \<and> view (recs s') (x # LL Freed) = info ?r # view (recs s2) (LL Freed) \<and> bytes s' = bytes s2 \<and> reports s' = reports s2)) s3"
      have ev: "awp (cn_allocator_evict_quarantine lib) free_errors ?Q s4"
        if s4: "mem_inv lib s4 (LL(Freed := x # LL Freed))" "view (recs s4) (LL Live) = view (recs s2) (LL Live)"
          "view (recs s4) (x # LL Freed) = info ?r # view (recs s2) (LL Freed)" "reports s4 = reports s2" for s4
        by (rule awp_mono [OF evict_spec [OF s4(1)]]) (use s4 v2 ir s2(7) in \<open>auto simp: free_errors_def\<close>)
      from a show "awp (rec_at x) free_errors (\<lambda>r. awp (alloc_mod (?inc r)) free_errors
          (\<lambda>_. awp (cn_allocator_evict_quarantine lib) free_errors ?Q)) s3"
        using ev by (auto simp: awp_recs awp_basic)
    qed simp
  qed
  have "awp (rehash Freed lib (al_quarantine_blocks (alloc ?s1) + 1)) free_errors
      (\<lambda>_. awp (attach Freed x) free_errors (\<lambda>_. awp (rec_at x) free_errors (\<lambda>r. awp (alloc_mod (?inc r)) free_errors
        (\<lambda>_. awp (cn_allocator_evict_quarantine lib) free_errors ?Q)))) ?s1"
    by (rule awp_mono [OF rehash_shape [OF lib sh1]]) (use tail in \<open>auto simp: free_errors_def\<close>)
  then show ?thesis
    using r(1)
    by (simp add: cn_allocator_move_to_quarantine_def awp_bind_fun awp_recs awp_bytes awp_aget_fun rehash_def attach_unfold
        buckets_of_def cap_of_def released_def)
qed

text \<open>Freeing a live block.\<close>

lemma free_live_spec:
  assumes lib: "c_library_ok lib" and inv: "mem_inv lib s LL" and x: "LL Live = us @ x # vs" and p: "ptr_of (recs s) x = p"
  shows "awp (cn_free_impl lib p file ln) free_errors
    (\<lambda>_ s'. \<exists>F. mem_inv lib s' (LL(Live := us @ vs, Freed := F)) \<and> view (recs s') (us @ vs) = view (recs s) (us @ vs)
      \<and> view (recs s') F = evict_blocks (released file ln (info (the (recs s x))) # view (recs s) (LL Freed))
      \<and> reports s' = reports s) s"
proof -
  let ?Q = "\<lambda>_ s'. \<exists>F. mem_inv lib s' (LL(Live := us @ vs, Freed := F)) \<and> view (recs s') (us @ vs) = view (recs s) (us @ vs)
      \<and> view (recs s') F = evict_blocks (released file ln (info (the (recs s x))) # view (recs s) (LL Freed))
      \<and> reports s' = reports s"
  have sh: "shape lib {} s LL" and ct: "counts s LL" using inv by (simp_all add: mem_inv_def)
  have xL: "x \<in> set (LL Live)" using x by simp
  obtain r where r: "recs s x = Some r" using shape_Some [OF sh xL] by blast
  have ro: "ptr_of (recs s) x = base_of (recs s) x + cn_memory_prefix_size lib" "ptr_of (recs s) x \<noteq> 0" "size_of (recs s) x \<noteq> 0"
    using sh xL set_all [of LL Live] unfolding shape_def records_ok_def by blast+
  have "p \<in> mr_ptr ` set (view (recs s) (LL Live))" unfolding ptr_view using xL p by blast
  from lookup_some [OF sh this] obtain y where y: "y \<in> set (LL Live)" "lookup (recs s) (set (LL Live)) p = y" "ptr_of (recs s) y = p"
    by blast
  have "inj_on (ptr_of (recs s)) (all_of LL)" using sh by (simp add: shape_def records_ok_def)
  then have yx: "lookup (recs s) (set (LL Live)) p = x"
    using y p xL set_all [of LL Live] unfolding inj_on_def by blast
  let ?b = "base_of (recs s) x" and ?LL = "LL(Live := us @ vs)"
  obtain s1 where s1: "detach Live x s = Some (Inr ((), s1))" "shape lib {x, ?b} s1 ?LL"
      "\<forall>y. same info (recs s) (recs s1) y" "alloc s1 = drop_record Live us vs (alloc s)" "same_rest s s1"
    by (rule detach_shape [OF sh x]) (rule that)
  from same_SomeD [OF s1(3) [rule_format] r] obtain r1 where r1: "recs s1 x = Some r1" "info r1 = info r" by blast
  have rr: "mr_base_ptr r1 = ?b" "mr_ptr r1 = ?b + cn_memory_prefix_size lib" "mr_ptr r1 \<noteq> 0" "mr_size r1 \<noteq> 0" "mr_size r1 = mr_size r"
    using ro r info_parts [of r] info_parts [of r1] r1(2) by (simp_all add: base_of_def ptr_of_def size_of_def)
  let ?dec = "\<lambda>r al. al\<lparr>al_live_blocks := al_live_blocks al - 1, al_live_bytes := al_live_bytes al - mr_size r\<rparr>"
  let ?s2 = "s1\<lparr>alloc := ?dec r1 (alloc s1)\<rparr>"
  have sh2: "shape lib {x, ?b} ?s2 ?LL"
    using s1(2) by (subst shape_counters [of _ s1]) (simp_all add: head_of_def buckets_of_def cap_of_def split: which.splits)
  have v1: "view (recs s1) xs = view (recs s) xs" if "set xs \<subseteq> all_of LL" for xs using shape_view [OF sh s1(3) that] .
  have vL: "view (recs s1) (us @ vs) = view (recs s) (us @ vs)" and vF: "view (recs s1) (LL Freed) = view (recs s) (LL Freed)"
    using v1 [of "us @ vs"] v1 [OF set_all, of Freed] x by (auto simp: all_of_def)
  have t2: "tallies (alloc ?s2) (view (recs ?s2) (?LL Live)) (view (recs ?s2) (?LL Freed))"
    using ct vL vF s1(4) rr(5) x r unfolding counts_tallies by (auto simp: tallies_def drop_record_def info_parts)
  have rx: "recs ?s2 x = Some r1" using r1(1) by simp
  have xb: "x \<noteq> ?b" using blocks_okD(1) [of "{}" s LL] sh xL set_all [of LL Live] unfolding shape_def by blast
  have "awp (cn_allocator_move_to_quarantine lib x file ln) free_errors ?Q ?s2"
  proof (rule awp_mono [OF quarantine_spec [OF lib sh2 rx rr(1-4) xb t2]])
    fix u :: unit and s'
    assume "\<exists>F. mem_inv lib s' (?LL(Freed := F)) \<and> view (recs s') (?LL Live) = view (recs ?s2) (?LL Live)
      \<and> view (recs s') F = evict_blocks (released file ln (info r1) # view (recs ?s2) (?LL Freed)) \<and> reports s' = reports ?s2"
    then obtain F where F: "mem_inv lib s' (?LL(Freed := F))" "view (recs s') (us @ vs) = view (recs s1) (us @ vs)"
        "view (recs s') F = evict_blocks (released file ln (info r1) # view (recs s1) (LL Freed))" "reports s' = reports s1"
      by auto
    from F vL vF r r1 s1(5) show "?Q u s'" by (intro exI [of _ F]) (simp add: same_rest_def)
  qed simp
  then have "awp (detach Live x) free_errors (\<lambda>_. awp (rec_at x) free_errors (\<lambda>r. awp (alloc_mod (?dec r)) free_errors
      (\<lambda>_. awp (cn_allocator_move_to_quarantine lib x file ln) free_errors ?Q))) s"
    using s1(1) r1(1) by (simp add: awp_eq awp_recs awp_basic)
  then have "awp (cn_bucket_remove_record (al_buckets (alloc s)) (al_bucket_capacity (alloc s)) x p) free_errors
      (\<lambda>_. awp (cn_list_remove_record Live x) free_errors (\<lambda>_. awp (rec_at x) free_errors (\<lambda>r. awp (alloc_mod (?dec r)) free_errors
      (\<lambda>_. awp (cn_allocator_move_to_quarantine lib x file ln) free_errors ?Q)))) s"
    using detach_fold [OF r, of Live] p r by (simp add: buckets_of_def cap_of_def ptr_of_def)
  then show ?thesis
    using yx awp_find [OF sh, of Live p] shape_nonnull [OF sh xL] r p ro(2)
    by (simp add: cn_free_impl_def awp_bind_fun awp_aget_fun buckets_of_def cap_of_def awp_verify_guards free_errors_def corruption_def)
qed

end
