(* ===== verification/Reallocation.thy ===== *)
theory Reallocation
  imports Allocator
begin

text \<open>
  \<open>cn_realloc_impl\<close>: the record of the block stays on the list of live blocks, but it is taken out
  of the hash table and put back under the new address of the block.
\<close>

section \<open>A record under a new address\<close>

lemma moved_sets:
  assumes "insert b B \<inter> R = {}" "insert b B \<inter> T = {}" "R \<inter> T = {}" "insert b B \<union> R \<union> T \<subseteq> A" "b \<notin> B" "nb = b \<or> nb \<notin> A"
  shows "nb \<notin> B" "insert nb B \<inter> R = {}" "insert nb B \<inter> T = {}" "insert nb B \<union> R \<union> T \<subseteq> insert nb (A - {b})"
  using assms by blast+

text \<open>
  The blocks after \<open>realloc\<close> moved the block of the record \<open>x\<close> to \<open>nb\<close>; \<open>q\<close> is the new content
  of the record.
\<close>

lemma moved_blocks:
  assumes bk: "blocks_ok {} s LL" and ro: "records_ok lib (recs s) (all_of LL)" and x: "x \<in> all_of LL"
    and nb: "nb \<noteq> 0" "nb = base_of (recs s) x \<or> nb \<notin> fst ` set (sys_blocks s)"
    and h: "base_of h x = nb" "\<forall>y \<in> all_of LL - {x}. base_of h y = base_of (recs s) y"
    and s': "recs s' = h" "al_buckets (alloc s') = al_buckets (alloc s)" "al_freed_buckets (alloc s') = al_freed_buckets (alloc s)"
      "fst ` set (sys_blocks s') = insert nb (fst ` set (sys_blocks s) - {base_of (recs s) x})"
  shows "blocks_ok {} s' LL" and "nb \<notin> base_of (recs s) ` (all_of LL - {x})"
proof -
  let ?R = "all_of LL" and ?b = "base_of (recs s) x" and ?T = "bucket_arrays (alloc s)"
  let ?B = "base_of (recs s) ` (?R - {x})"
  note D = blocks_okD [OF bk]
  have BR: "base_of (recs s) ` ?R = insert ?b ?B" using x by blast
  have nB: "?b \<notin> ?B" using records_ok_base [OF ro] x by (auto simp: inj_on_def)
  have B': "base_of (recs s') ` ?R = insert nb ?B"
  proof -
    have "base_of h ` ?R = insert (base_of h x) (base_of h ` (?R - {x}))" using x by blast
    moreover have "base_of h ` (?R - {x}) = ?B" using h(2) by (intro image_cong) auto
    ultimately show ?thesis using h(1) s'(1) by simp
  qed
  have T': "bucket_arrays (alloc s') = ?T" using s'(2,3) by (simp add: bucket_arrays_def)
  note M = moved_sets [OF D(1-3,7) [unfolded BR Un_empty_right] nB nb(2)]
  show "nb \<notin> base_of (recs s) ` (all_of LL - {x})" by (rule M(1))
  show "blocks_ok {} s' LL"
  proof (rule blocks_okI [OF B' refl T'])
    show "0 \<notin> {} \<union> insert nb ?B" using D(5) nb(1) unfolding BR by simp
    show "insert nb ?B \<union> ?R \<union> ?T \<union> {} \<subseteq> fst ` set (sys_blocks s')" unfolding s'(4) Un_empty_right by (rule M(4))
  qed (use M(2,3) D(3,6) s'(2,3) in simp_all)
qed

lemma moved_records:
  assumes ro: "records_ok lib (recs s) R" and x: "x \<in> R"
    and q: "h x = Some q" "mr_ptr q = mr_base_ptr q + cn_memory_prefix_size lib" "mr_ptr q \<noteq> 0" "mr_size q \<noteq> 0"
    and nb: "mr_base_ptr q \<notin> base_of (recs s) ` (R - {x})"
    and h: "\<forall>y \<in> R - {x}. ptr_of h y = ptr_of (recs s) y \<and> base_of h y = base_of (recs s) y \<and> size_of h y = size_of (recs s) y"
  shows "records_ok lib h R"
proof -
  have ok: "ptr_of h y = base_of h y + cn_memory_prefix_size lib \<and> ptr_of h y \<noteq> 0 \<and> size_of h y \<noteq> 0" if "y \<in> R" for y
  proof (cases "y = x")
    case True
    with q show ?thesis by (simp add: ptr_of_def base_of_def size_of_def)
  next
    case False
    with that h have "ptr_of h y = ptr_of (recs s) y" "base_of h y = base_of (recs s) y" "size_of h y = size_of (recs s) y"
      by blast+
    with that ro show ?thesis unfolding records_ok_def by metis
  qed
  have xp: "ptr_of h x \<noteq> ptr_of h y" if "y \<in> R" "y \<noteq> x" for y
  proof -
    have "base_of (recs s) y \<in> base_of (recs s) ` (R - {x})" using that by blast
    moreover have "base_of h y = base_of (recs s) y" using h that by blast
    ultimately have "base_of h y \<noteq> base_of h x" using nb q(1) by (auto simp: base_of_def [of h x])
    with ok [OF that(1)] ok [OF x] show ?thesis by simp
  qed
  have "inj_on (ptr_of h) R"
  proof (rule inj_onI)
    fix y z assume yz: "y \<in> R" "z \<in> R" "ptr_of h y = ptr_of h z"
    show "y = z"
    proof (cases "y = x \<or> z = x")
      case True
      with xp yz show ?thesis by metis
    next
      case False
      with yz h ro show ?thesis by (simp add: records_ok_def inj_on_def)
    qed
  qed
  with ok show ?thesis unfolding records_ok_def by blast
qed

lemma shape_cap: "shape lib X s LL \<Longrightarrow> x \<in> set (LL w) \<Longrightarrow> 0 < cap_of w (alloc s)"
  unfolding shape_def table_ok_def by (metis empty_iff gr0I)

text \<open>
  Before: \<open>s\<close>. The heap \<open>h1\<close> has \<open>x\<close> taken out of its chain, and in \<open>s1\<close> the record has its new
  content and the C heap its new block. Then putting \<open>x\<close> back restores the invariant.
\<close>

lemma reinsert_shape:
  assumes sh: "shape lib {} s LL" and x: "x \<in> set (LL Live)" and cap: "0 < cap_of Live (alloc s)"
    and h1: "indexed h1 xs1 (cap_of Live (alloc s)) (set (LL Live) - {x})" "\<forall>y. same unchained (recs s) h1 y"
      "\<forall>y. y \<notin> set (LL Live) \<longrightarrow> h1 y = recs s y"
    and q: "h1 x = Some r1" "links q = links r1" "mr_ptr q = mr_base_ptr q + cn_memory_prefix_size lib"
      "mr_ptr q \<noteq> 0" "mr_size q \<noteq> 0" "mr_base_ptr q \<noteq> 0"
      "mr_base_ptr q = base_of (recs s) x \<or> mr_base_ptr q \<notin> fst ` set (sys_blocks s)"
    and s1: "recs s1 = h1(x \<mapsto> q)" "tables s1 = (tables s)(al_buckets (alloc s) \<mapsto> xs1)"
      "fst ` set (sys_blocks s1) = insert (mr_base_ptr q) (fst ` set (sys_blocks s) - {base_of (recs s) x})"
      "\<forall>w. head_of w (alloc s1) = head_of w (alloc s)" "\<forall>w. buckets_of w (alloc s1) = buckets_of w (alloc s)"
      "\<forall>w. cap_of w (alloc s1) = cap_of w (alloc s)" "al_freed_tail (alloc s1) = al_freed_tail (alloc s)"
  obtains s2 where "cn_bucket_insert_record (al_buckets (alloc s)) (al_bucket_capacity (alloc s)) x s1 = Some (Inr ((), s2))"
    and "shape lib {} s2 LL" and "\<forall>y \<in> all_of LL - {x}. same info (recs s) (recs s2) y"
    and "\<exists>q'. recs s2 x = Some q' \<and> info q' = info q" and "alloc s2 = alloc s1" and "same_rest s1 s2"
proof -
  let ?t = "al_buckets (alloc s)" and ?cap = "al_bucket_capacity (alloc s)" and ?S = "set (LL Live) - {x}"
  have bc: "buckets_of Live (alloc s) = ?t" "cap_of Live (alloc s) = ?cap" by (simp_all add: buckets_of_def cap_of_def)
  have x0: "x \<noteq> 0" and xa: "x \<in> all_of LL" using shape_nonnull [OF sh x] set_all [of LL Live] x by auto
  have t0: "?t \<noteq> 0" using shape_table [OF sh cap] bc by metis
  have ix: "indexed (h1(x \<mapsto> q)) xs1 ?cap ?S"
    by (rule indexed_same [OF h1(1) [unfolded bc]]) (use indexed_Some [OF h1(1) cap] in \<open>auto simp: same_def\<close>)
  let ?i = "cn_bucket_index_for ?cap (mr_ptr q)"
  let ?q = "q\<lparr>mr_bucket_next := xs1 ! ?i\<rparr>" and ?tb = "(tables s1)(?t \<mapsto> xs1[?i := x])"
  let ?h = "h1(x \<mapsto> ?q)"
  let ?s2 = "s1\<lparr>recs := ?h, tables := ?tb\<rparr>"
  have op: "cn_bucket_insert_record ?t ?cap x s1 = Some (Inr ((), ?s2))"
    using bucket_insert_eq [of s1 ?t xs1 ?cap ?S x q] ix s1(1,2) cap bc x0 by simp
  have ix2: "indexed ?h (xs1[?i := x]) ?cap (set (LL Live))"
    using indexed_insert [OF ix, of x q ?i] cap bc x0 insert_Diff [OF x] by simp
  have some: "\<exists>r. recs s y = Some r" if "y \<in> all_of LL" for y using shape_all_Some [OF sh that] .
  have si: "same info (recs s) ?h y" if "y \<noteq> x" for y
    using same_info_unchained [OF h1(2) [rule_format, of y]] that by (simp add: same_def)
  have sl: "same links (recs s) ?h y" for y
  proof (cases "y = x")
    case True
    with same_links_unchained [OF h1(2) [rule_format, of x]] q(1,2) show ?thesis by (simp add: same_def links_def)
  next
    case False
    with same_links_unchained [OF h1(2) [rule_format, of y]] show ?thesis by (simp add: same_def)
  qed
  have dl: "dlist ?h a (LL w) = dlist (recs s) a (LL w)" for a w using sl by (intro dseg_same) blast
  have tok: "table_ok ?h ?tb (buckets_of w (alloc s)) (cap_of w (alloc s)) (set (LL w))" for w
  proof (cases w)
    case Live
    with ix2 bc cap t0 show ?thesis by (simp add: table_ok_def)
  next
    case Freed
    have ok: "table_ok (recs s) (tables s) (buckets_of w (alloc s)) (cap_of w (alloc s)) (set (LL w))"
      using sh by (simp add: shape_def)
    have ne: "buckets_of w (alloc s) \<noteq> ?t"
      using sh Freed t0 by (auto simp: shape_def blocks_ok_def buckets_of_def Let_def)
    show ?thesis
    proof (rule table_ok_same [OF ok])
      fix y assume "y \<in> set (LL w)"
      with sh x Freed have "y \<notin> set (LL Live)" "y \<noteq> x" by (auto simp: shape_def)
      with h1(3) show "same chain_part (recs s) ?h y" by (simp add: same_def)
    qed (use ne s1(2) in simp)
  qed
  have ro: "records_ok lib (recs s) (all_of LL)" and bk: "blocks_ok {} s LL" using sh by (simp_all add: shape_def)
  have of: "ptr_of ?h y = ptr_of (recs s) y \<and> base_of ?h y = base_of (recs s) y \<and> size_of ?h y = size_of (recs s) y"
    if "y \<in> all_of LL - {x}" for y
    using same_info_of [OF si, of y] some [of y] that by auto
  have bx: "base_of ?h x = mr_base_ptr q" by (simp add: base_of_def)
  have al: "al_buckets (alloc ?s2) = al_buckets (alloc s)" "al_freed_buckets (alloc ?s2) = al_freed_buckets (alloc s)"
    using s1(5) [rule_format, of Live] s1(5) [rule_format, of Freed] by (simp_all add: buckets_of_def)
  have base: "\<forall>y \<in> all_of LL - {x}. base_of ?h y = base_of (recs s) y" using of by blast
  have sys: "fst ` set (sys_blocks ?s2) = insert (mr_base_ptr q) (fst ` set (sys_blocks s) - {base_of (recs s) x})"
    using s1(3) by simp
  have "recs ?s2 = ?h" by simp
  note mb = moved_blocks [OF bk ro xa q(6,7) bx base this al sys]
  have "records_ok lib ?h (all_of LL)"
    by (rule moved_records [OF ro xa, of _ ?q]) (use q mb(2) of in simp_all)
  with dl tok mb(1) sh s1 have "shape lib {} ?s2 LL" by (simp add: shape_def)
  moreover have "info ?q = info q" by (simp add: info_def)
  ultimately show ?thesis using that [OF op] si by (simp add: same_rest_def)
qed

section \<open>Reallocation\<close>

lemma realloc_blocks:
  assumes "c_library_ok lib" and "old \<in> fst ` set (sys_blocks s)"
  obtains a s' where "c_realloc lib old n s = Some (Inr (a, s'))"
    and "a \<noteq> 0 \<longrightarrow> (a = old \<or> a \<notin> fst ` set (sys_blocks s)) \<and> unat a + unat n \<le> 2 ^ 64
      \<and> fst ` set (sys_blocks s') = insert a (fst ` set (sys_blocks s) - {old})"
    and "recs s' = recs s" and "tables s' = tables s" and "alloc s' = alloc s" and "reports s' = reports s"
proof -
  let ?a = "lib_realloc lib (sys_calls s) (sys_blocks s) old n"
  from assms(2) have "map_of (sys_blocks s) old \<noteq> None" unfolding map_of_eq_None_iff by simp
  then obtain m where m: "map_of (sys_blocks s) old = Some m" by blast
  have "?a \<noteq> 0 \<longrightarrow> (?a = old \<or> ?a \<notin> fst ` set (sys_blocks s)) \<and> unat ?a + unat n \<le> 2 ^ 64"
    using assms(1) unfolding c_library_ok_def Let_def by blast
  moreover have "fst ` set (filter (\<lambda>b. fst b \<noteq> old) (sys_blocks s)) = fst ` set (sys_blocks s) - {old}" by auto
  ultimately show ?thesis using m
    by (intro that [of ?a "if ?a = 0 then s\<lparr>sys_calls := Suc (sys_calls s)\<rparr>
      else s\<lparr>sys_calls := Suc (sys_calls s), sys_blocks := (?a, n) # filter (\<lambda>b. fst b \<noteq> old) (sys_blocks s),
          bytes := move_bytes old ?a (min m n) (bytes s)\<rparr>"])
      (simp_all add: c_realloc_def Let_def)
qed

definition moved :: "c_library \<Rightarrow> addr \<Rightarrow> 64 word \<Rightarrow> string \<Rightarrow> int \<Rightarrow> cn_mem_record \<Rightarrow> cn_mem_record" where
  "moved lib nb n file ln r = r\<lparr>mr_base_ptr := nb, mr_ptr := nb + cn_memory_prefix_size lib, mr_size := n,
     mr_file := file, mr_line := ln, mr_released_file := None, mr_released_line := 0\<rparr>"

lemma info_moved: "info (moved lib nb n file ln r) = new_block lib (nb + cn_memory_prefix_size lib) n file ln"
  by (simp add: info_def moved_def new_block_def)

text \<open>The operation without its checks, on the record \<open>x\<close>.\<close>

definition move_record :: "c_library \<Rightarrow> addr \<Rightarrow> addr \<Rightarrow> 64 word \<Rightarrow> 64 word \<Rightarrow> string \<Rightarrow> int \<Rightarrow> cn_mem_record \<Rightarrow> cn_allocator \<Rightarrow> addr am" where
  "move_record lib x p n whole file ln r al =
     aseq (cn_bucket_remove_record (al_buckets al) (al_bucket_capacity al) x p)
       (abind (c_realloc lib (mr_base_ptr r) whole) (\<lambda>nb.
          if nb = 0 then cn_memory_fail_code ''R4008''
          else aseq (alloc_mod (\<lambda>al. count_bytes (al_live_bytes al - mr_size r + n) al))
            (aseq (rec_mod x (moved lib nb n file ln))
            (aseq (cn_record_write_guards lib x)
            (aseq (if n > mr_size r then c_memset (nb + cn_memory_prefix_size lib + mr_size r) alloc_poison (n - mr_size r) else aret ())
            (aseq (cn_bucket_insert_record (al_buckets al) (al_bucket_capacity al) x)
              (aret (nb + cn_memory_prefix_size lib))))))))"

lemma realloc_unfold:
  assumes "p \<noteq> 0"
  shows "cn_realloc_impl lib p sz file ln =
    abind (aget alloc) (\<lambda>al. abind (cn_find_record_in_buckets (al_buckets al) (al_bucket_capacity al) p) (\<lambda>x.
      if x = 0 then abind (cn_find_record_in_buckets (al_freed_buckets al) (al_freed_bucket_capacity al) p) (\<lambda>freed.
          if freed \<noteq> 0 then cn_memory_fail_code ''R4013'' else cn_memory_fail_code ''R4002'')
      else aseq (cn_record_verify_guards lib x)
        (case cn_allocation_total_size lib (actual sz) of None \<Rightarrow> cn_memory_fail_code ''R4009''
         | Some whole \<Rightarrow> abind (rec_at x) (\<lambda>r. move_record lib x p (actual sz) whole file ln r al))))"
  using assms unfolding cn_realloc_impl_def actual_def [symmetric] move_record_def moved_def [abs_def] Let_def
  by (simp only: if_False)

lemma view_upd: "x \<notin> set xs \<Longrightarrow> view (h(x := v)) xs = view h xs"
  by (simp add: view_def)

lemma move_record_spec:
  assumes lib: "c_library_ok lib" and inv: "mem_inv lib s LL" and x: "LL Live = us @ x # vs" and r: "recs s x = Some r"
    and tot: "cn_allocation_total_size lib n = Some whole" and n: "n \<noteq> 0" and E: "E ''R4008''"
  shows "awp (move_record lib x (mr_ptr r) n whole file ln r (alloc s)) E
    (\<lambda>p' s'. mem_inv lib s' LL \<and> p' \<noteq> 0 \<and> view (recs s') (LL Freed) = view (recs s) (LL Freed) \<and> reports s' = reports s
      \<and> view (recs s') (LL Live) = view (recs s) us @ new_block lib p' n file ln # view (recs s) vs) s"
    (is "awp _ _ ?Q s")
proof -
  have sh: "shape lib {} s LL" and ct: "counts s LL" using inv by (simp_all add: mem_inv_def)
  have xL: "x \<in> set (LL Live)" and xa: "x \<in> all_of LL" using x by (auto simp: all_of_def)
  let ?t = "al_buckets (alloc s)" and ?cap = "al_bucket_capacity (alloc s)"
  have bc: "buckets_of Live (alloc s) = ?t" "cap_of Live (alloc s) = ?cap" by (simp_all add: buckets_of_def cap_of_def)
  have cap: "0 < cap_of Live (alloc s)" using shape_cap [OF sh xL] .
  obtain xs where xs: "tables s ?t = Some xs" "indexed (recs s) xs ?cap (set (LL Live))"
    using shape_table [OF sh cap] bc by metis
  have mp: "mr_ptr r = ptr_of (recs s) x" using r by (simp add: ptr_of_def)
  obtain h1 xs1 where
      b: "cn_bucket_remove_record ?t ?cap x (mr_ptr r) s = Some (Inr ((), s\<lparr>recs := h1, tables := (tables s)(?t \<mapsto> xs1)\<rparr>))"
    and h1: "indexed h1 xs1 (cap_of Live (alloc s)) (set (LL Live) - {x})" "\<forall>y. same unchained (recs s) h1 y"
      "\<forall>y. y \<notin> set (LL Live) \<longrightarrow> h1 y = recs s y"
    by (rule bucket_remove_eq [OF xs cap [unfolded bc] xL mp]) (simp add: that bc)
  from same_SomeD [OF h1(2) [rule_format] r] obtain r1 where r1: "h1 x = Some r1" by blast
  let ?s1 = "s\<lparr>recs := h1, tables := (tables s)(?t \<mapsto> xs1)\<rparr>"
  have base: "mr_base_ptr r = base_of (recs s) x" using r by (simp add: base_of_def)
  have old: "mr_base_ptr r \<in> fst ` set (sys_blocks ?s1)"
    using sh xa blocks_okD(7) [of "{}" s LL] unfolding base shape_def by auto
  obtain nb s2 where s2: "c_realloc lib (mr_base_ptr r) whole ?s1 = Some (Inr (nb, s2))"
      "nb \<noteq> 0 \<longrightarrow> (nb = mr_base_ptr r \<or> nb \<notin> fst ` set (sys_blocks s)) \<and> unat nb + unat whole \<le> 2 ^ 64
        \<and> fst ` set (sys_blocks s2) = insert nb (fst ` set (sys_blocks s) - {mr_base_ptr r})"
      "recs s2 = h1" "tables s2 = (tables s)(?t \<mapsto> xs1)" "alloc s2 = alloc s" "reports s2 = reports s"
    by (rule realloc_blocks [OF lib old, of whole], rule that, assumption, simp_all)
  show ?thesis
  proof (cases "nb = 0")
    case True
    with b s2(1) E show ?thesis by (simp add: move_record_def awp_bind_fun awp_eq awp_basic)
  next
    case nb: False
    let ?p = "nb + cn_memory_prefix_size lib"
    let ?q = "moved lib nb n file ln r1"
    let ?al = "count_bytes (al_live_bytes (alloc s) - mr_size r + n) (alloc s)"
    have p0: "?p \<noteq> 0" using payload_nonnull(2) [OF lib tot nb] s2(2) nb by blast
    have fin: "awp (cn_bucket_insert_record ?t ?cap x) E (\<lambda>_ s'. ?Q ?p s') s3"
      if s3: "recs s3 = h1(x \<mapsto> ?q)" "tables s3 = (tables s)(?t \<mapsto> xs1)" "alloc s3 = ?al" "sys_blocks s3 = sys_blocks s2"
        "reports s3 = reports s" for s3
    proof -
      have q: "links ?q = links r1" "mr_ptr ?q = mr_base_ptr ?q + cn_memory_prefix_size lib" "mr_ptr ?q \<noteq> 0"
          "mr_size ?q \<noteq> 0" "mr_base_ptr ?q \<noteq> 0"
          "mr_base_ptr ?q = base_of (recs s) x \<or> mr_base_ptr ?q \<notin> fst ` set (sys_blocks s)"
        using nb p0 n s2(2) base by (auto simp: moved_def links_def)
      have sys: "fst ` set (sys_blocks s3) = insert (mr_base_ptr ?q) (fst ` set (sys_blocks s) - {base_of (recs s) x})"
        using s2(2) nb s3(4) base by (simp add: moved_def)
      obtain s4 where s4: "cn_bucket_insert_record ?t ?cap x s3 = Some (Inr ((), s4))" "shape lib {} s4 LL"
          "\<forall>y \<in> all_of LL - {x}. same info (recs s) (recs s4) y" "\<exists>q'. recs s4 x = Some q' \<and> info q' = info ?q"
          "alloc s4 = alloc s3" "same_rest s3 s4"
        by (rule reinsert_shape [OF sh xL cap h1 r1 q s3(1,2) sys])
          (simp_all add: s3(3) count_bytes_def head_of_def buckets_of_def cap_of_def that split: which.splits)
      have v: "view (recs s4) ys = view (recs s) ys" if "set ys \<subseteq> all_of LL - {x}" for ys
        using s4(3) that shape_all_Some [OF sh] by (intro view_same) blast+
      have "distinct (LL Live @ LL Freed)" using sh by (simp add: shape_def)
      then have sub: "set us \<subseteq> all_of LL - {x}" "set vs \<subseteq> all_of LL - {x}" "set (LL Freed) \<subseteq> all_of LL - {x}"
        using x by (auto simp: all_of_def)
      have vL: "view (recs s4) (LL Live) = view (recs s) us @ new_block lib ?p n file ln # view (recs s) vs"
        using v [OF sub(1)] v [OF sub(2)] s4(4) x by (auto simp: info_moved)
      have "tallies (alloc s) (view (recs s) us @ info r # view (recs s) vs) (view (recs s) (LL Freed))"
        using ct x r unfolding counts_tallies by simp
      then have "tallies ?al (view (recs s) us @ new_block lib ?p n file ln # view (recs s) vs) (view (recs s) (LL Freed))"
        by (simp add: tallies_def count_bytes_def new_block_def info_parts algebra_simps)
      then have "counts s4 LL" unfolding counts_tallies using vL v [OF sub(3)] s4(5) s3(3) by simp
      with s4 s3(5) vL v [OF sub(3)] p0 show ?thesis by (simp add: awp_eq mem_inv_def same_rest_def)
    qed
    show ?thesis
      using b s2(1,3-6) nb fin r1
      by (simp add: move_record_def awp_bind_fun awp_eq awp_basic awp_bytes awp_recs moved_def awp_if awp_alloc_fun)
  qed
qed

end
