(* ===== verification/Checked_Alloc.thy ===== *)
theory Checked_Alloc
  imports Reallocation
begin

text \<open>
  The checking allocator against its abstract specification: a list of live blocks and a list of
  blocks in quarantine, most recent first. Every operation either aborts with the code that the
  specification names or takes the abstract state to the specified one; none is ever undefined.
\<close>

section \<open>The abstract allocator\<close>

definition represents :: "c_library \<Rightarrow> mem_state \<Rightarrow> cn_mem_record list \<Rightarrow> cn_mem_record list \<Rightarrow> bool" where
  "represents lib s live quar \<longleftrightarrow>
     (\<exists>LL. mem_inv lib s LL \<and> view (recs s) (LL Live) = live \<and> view (recs s) (LL Freed) = quar)"

definition pointers :: "cn_mem_record list \<Rightarrow> addr set" where
  "pointers bs = mr_ptr ` set bs"

text \<open>The code with which \<open>free\<close> rejects a pointer, and what \<open>free\<close> does with one it accepts.\<close>

definition free_rejects :: "addr \<Rightarrow> cn_mem_record list \<Rightarrow> cn_mem_record list \<Rightarrow> string option" where
  "free_rejects p live quar =
     (if p = 0 \<or> p \<in> pointers live then None
      else if p \<in> pointers quar then Some ''R4010''
      else if list_ex (interior p) (live @ quar) then Some ''R4011''
      else Some ''R4003'')"

definition without :: "addr \<Rightarrow> cn_mem_record list \<Rightarrow> cn_mem_record list" where
  "without p bs = filter (\<lambda>b. mr_ptr b \<noteq> p) bs"

definition free_quarantine :: "string \<Rightarrow> int \<Rightarrow> addr \<Rightarrow> cn_mem_record list \<Rightarrow> cn_mem_record list \<Rightarrow> cn_mem_record list" where
  "free_quarantine file ln p live quar =
     (case find (\<lambda>b. mr_ptr b = p) live of
        None \<Rightarrow> quar
      | Some b \<Rightarrow> evict_blocks (released file ln b # quar))"

definition replace_block :: "addr \<Rightarrow> cn_mem_record \<Rightarrow> cn_mem_record list \<Rightarrow> cn_mem_record list" where
  "replace_block p b bs = map (\<lambda>c. if mr_ptr c = p then b else c) bs"

lemma without_split:
  assumes "distinct (map mr_ptr (us @ b # vs))"
  shows "without (mr_ptr b) (us @ b # vs) = us @ vs" and "find (\<lambda>c. mr_ptr c = mr_ptr b) (us @ b # vs) = Some b"
    and "replace_block (mr_ptr b) c (us @ b # vs) = us @ c # vs"
proof -
  have ne: "mr_ptr d \<noteq> mr_ptr b" if "d \<in> set us \<union> set vs" for d using assms that by (force simp: image_iff)
  then show "without (mr_ptr b) (us @ b # vs) = us @ vs" by (simp add: without_def filter_id_conv)
  show "replace_block (mr_ptr b) c (us @ b # vs) = us @ c # vs" using ne by (simp add: replace_block_def map_idI)
  show "find (\<lambda>c. mr_ptr c = mr_ptr b) (us @ b # vs) = Some b"
  proof -
    have "\<forall>d \<in> set us. mr_ptr d \<noteq> mr_ptr b" using ne by blast
    then show ?thesis by (induction us) auto
  qed
qed

section \<open>The initial state\<close>

definition mem_init :: mem_state where
  "mem_init = \<lparr>alloc = cn_allocator_init, recs = Map.empty, tables = Map.empty, bytes = (\<lambda>_. 0), sys_blocks = [], sys_calls = 0, reports = []\<rparr>"

lemma empty_represents:
  assumes "al_head (alloc s) = 0" "al_freed_head (alloc s) = 0" "al_freed_tail (alloc s) = 0" "al_buckets (alloc s) = 0"
    "al_freed_buckets (alloc s) = 0" "al_bucket_capacity (alloc s) = 0" "al_freed_bucket_capacity (alloc s) = 0"
    "al_live_blocks (alloc s) = 0" "al_live_bytes (alloc s) = 0" "al_quarantine_blocks (alloc s) = 0" "al_quarantine_bytes (alloc s) = 0"
  shows "represents lib s [] []"
  unfolding represents_def mem_inv_def
  by (intro exI [of _ "\<lambda>_. []"])
    (simp add: assms shape_def counts_def head_of_def buckets_of_def cap_of_def table_ok_def
      before_def records_ok_def all_of_def blocks_ok_def bucket_arrays_def split: which.splits)

lemma mem_init_represents: "represents lib mem_init [] []"
  by (rule empty_represents) (simp_all add: mem_init_def cn_allocator_init_def)

section \<open>A C library\<close>

text \<open>
  A C library for the examples: it hands out one region of 4 GiB after the other, as long as they
  are free and the size fits the address space, and moves a block when it is reallocated.
\<close>

definition bump :: "nat \<Rightarrow> (addr \<times> 64 word) list \<Rightarrow> 64 word \<Rightarrow> addr" where
  "bump n bs sz = (let a = of_nat (Suc n) * 0x100000000 in
     if a \<in> set (map fst bs) \<or> unat a + unat sz > 2 ^ 64 then 0 else a)"

definition bump_library :: c_library where
  "bump_library = \<lparr>lib_malloc = bump, lib_realloc = (\<lambda>n bs old sz. bump n bs sz), lib_max_align = 16\<rparr>"

lemma bump_library_ok: "c_library_ok bump_library"
  by (auto simp: c_library_ok_def bump_library_def bump_def Let_def)

lemma bump_alloc: "\<exists>p s. cn_alloc_impl bump_library 8 ''main.c'' 1 mem_init = Some (Inr (p, s))"
proof -
  have cap: "cn_bucket_capacity_for (Suc 0) = 16" by (simp add: cn_bucket_capacity_for_def cn_double_until.simps)
  show ?thesis
    using bucket_index_less [of 16]
    by (simp add: cn_alloc_impl_def total_size_iff cn_memory_prefix_size_def mem_init_def cn_allocator_init_def am_defs c_malloc_def
        bump_library_def bump_def cn_allocator_rehash_active_def cn_rehash_records_def cap rehash_loop.simps free_table_def c_free_def
        cn_record_create_def cn_list_insert_head_def cn_bucket_insert_record_def cn_record_write_guards_def cn_record_fill_payload_def
        c_memset_def Let_def)
qed

section \<open>Facts about represented states\<close>

lemma map_ptr_view: "map mr_ptr (view h xs) = map (ptr_of h) xs"
  by (simp add: view_def ptr_of_def info_parts)

lemma inv_distinct:
  assumes "mem_inv lib s LL"
  shows "distinct (map mr_ptr (view (recs s) (LL Live) @ view (recs s) (LL Freed)))"
proof -
  have sh: "shape lib {} s LL" using assms by (simp add: mem_inv_def)
  then have "distinct (LL Live @ LL Freed)" "inj_on (ptr_of (recs s)) (set (LL Live @ LL Freed))"
    by (simp_all add: shape_def records_ok_def all_of_def)
  then have "distinct (map (ptr_of (recs s)) (LL Live @ LL Freed))" unfolding distinct_map by blast
  then show ?thesis by (simp only: map_append map_ptr_view)
qed

lemma live_record:
  assumes "mem_inv lib s LL" and "p \<in> pointers (view (recs s) (LL Live))"
  obtains us x vs r where "LL Live = us @ x # vs" and "recs s x = Some r" and "mr_ptr r = p" and "p \<noteq> 0"
    and "lookup (recs s) (set (LL Live)) p = x" and "x \<noteq> 0"
proof -
  have sh: "shape lib {} s LL" using assms by (simp add: mem_inv_def)
  obtain x where x: "x \<in> set (LL Live)" "lookup (recs s) (set (LL Live)) p = x" "ptr_of (recs s) x = p" "x \<noteq> 0"
    by (rule lookup_some [OF sh assms(2) [unfolded pointers_def]])
  obtain r where r: "recs s x = Some r" using shape_Some [OF sh x(1)] by blast
  obtain us vs where "LL Live = us @ x # vs" using split_list [OF x(1)] by blast
  moreover have "ptr_of (recs s) x \<noteq> 0"
    using sh x(1) set_all [of LL Live] unfolding shape_def records_ok_def by blast
  ultimately show ?thesis using that r x by (auto simp: ptr_of_def)
qed

lemma inv_find:
  assumes "mem_inv lib s LL"
  shows "awp (cn_find_record_in_buckets (al_buckets (alloc s)) (al_bucket_capacity (alloc s)) p) E P s =
      P (lookup (recs s) (set (LL Live)) p) s"
    and "awp (cn_find_record_in_buckets (al_freed_buckets (alloc s)) (al_freed_bucket_capacity (alloc s)) p) E P s =
      P (lookup (recs s) (set (LL Freed)) p) s"
  using assms awp_find [of lib "{}" s LL Live p E P] awp_find [of lib "{}" s LL Freed p E P]
  by (simp_all add: mem_inv_def buckets_of_def cap_of_def)

lemma freed_lookup:
  assumes "mem_inv lib s LL"
  shows "lookup (recs s) (set (LL Freed)) p = 0 \<longleftrightarrow> p \<notin> pointers (view (recs s) (LL Freed))"
proof
  assume 0: "lookup (recs s) (set (LL Freed)) p = 0"
  show "p \<notin> pointers (view (recs s) (LL Freed))"
  proof
    assume p: "p \<in> pointers (view (recs s) (LL Freed))"
    have sh: "shape lib {} s LL" using assms by (simp add: mem_inv_def)
    show False by (rule lookup_some [OF sh p [unfolded pointers_def]]) (use 0 in simp)
  qed
qed (simp add: lookup_none pointers_def)

section \<open>Freeing\<close>

text \<open>A pointer that is not a live block is rejected, and with which code.\<close>

lemma awp_fail: "awp (cn_memory_fail_code c) E P s = E c"
  by (simp add: awp_def cn_memory_fail_code_def)

lemma awp_exact: "awp m (\<lambda>e. e = c) (\<lambda>_ _. False) s \<Longrightarrow> m s = Some (Inl c)"
  by (auto simp: awp_def split: option.splits sum.splits)

lemma awp_containing':
  assumes "mem_inv lib s LL" and "\<And>c. (c = 0 \<longleftrightarrow> \<not> list_ex (interior p) (view (recs s) (LL w))) \<Longrightarrow> P c s"
    and "a = head_of w (alloc s)"
  shows "awp (cn_find_containing_record_in_list a p) E P s"
proof -
  have sh: "shape lib {} s LL" using assms(1) by (simp add: mem_inv_def)
  show ?thesis unfolding assms(3) by (rule awp_containing [OF sh]) (use assms(2) in \<open>simp add: list_ex_iff\<close>)
qed

lemma free_reject:
  assumes inv: "mem_inv lib s LL"
    and rej: "free_rejects p (view (recs s) (LL Live)) (view (recs s) (LL Freed)) = Some e"
  shows "cn_free_impl lib p file ln s = Some (Inl e)"
proof (rule awp_exact)
  let ?l = "view (recs s) (LL Live)" and ?q = "view (recs s) (LL Freed)"
  let ?E = "\<lambda>c. c = e" and ?P = "\<lambda>_ _. False"
  have p: "p \<noteq> 0" "p \<notin> pointers ?l" using rej by (auto simp: free_rejects_def split: if_splits)
  have l0: "lookup (recs s) (set (LL Live)) p = 0" using p(2) by (simp add: lookup_none pointers_def)
  show "awp (cn_free_impl lib p file ln) ?E ?P s"
  proof (cases "p \<in> pointers ?q")
    case True
    with rej p have "e = ''R4010''" by (simp add: free_rejects_def)
    with True p l0 inv_find [OF inv] freed_lookup [OF inv, of p] show ?thesis
      by (simp add: cn_free_impl_def awp_bind_fun awp_aget_fun awp_fail)
  next
    case False
    with rej p have e: "e = (if list_ex (interior p) (?l @ ?q) then ''R4011'' else ''R4003'')"
      by (auto simp: free_rejects_def split: if_splits)
    have f0: "lookup (recs s) (set (LL Freed)) p = 0" using False freed_lookup [OF inv] by blast
    have "awp (cn_find_containing_record_in_list (al_head (alloc s)) p) ?E
      (\<lambda>c1. awp (if c1 = 0 then cn_find_containing_record_in_list (al_freed_head (alloc s)) p else aret c1) ?E
        (\<lambda>c. awp (if c \<noteq> 0 then cn_memory_fail_code ''R4011'' else cn_memory_fail_code ''R4003'') ?E ?P)) s"
    proof (rule awp_containing' [OF inv, of _ Live])
      fix c1 :: addr assume c1: "c1 = 0 \<longleftrightarrow> \<not> list_ex (interior p) ?l"
      show "awp (if c1 = 0 then cn_find_containing_record_in_list (al_freed_head (alloc s)) p else aret c1) ?E
        (\<lambda>c. awp (if c \<noteq> 0 then cn_memory_fail_code ''R4011'' else cn_memory_fail_code ''R4003'') ?E ?P) s"
      proof (cases "c1 = 0")
        case True
        have "awp (cn_find_containing_record_in_list (al_freed_head (alloc s)) p) ?E
          (\<lambda>c. awp (if c \<noteq> 0 then cn_memory_fail_code ''R4011'' else cn_memory_fail_code ''R4003'') ?E ?P) s"
          by (rule awp_containing' [OF inv, of _ Freed]) (use True c1 e in \<open>auto simp: awp_fail head_of_def\<close>)
        with True show ?thesis by simp
      next
        case False
        with c1 e show ?thesis by (simp add: awp_alloc_fun awp_fail)
      qed
    qed (simp add: head_of_def)
    then show ?thesis using p l0 f0 inv_find [OF inv] by (simp add: cn_free_impl_def awp_bind_fun awp_aget_fun)
  qed
qed

lemma free_accept:
  assumes lib: "c_library_ok lib" and inv: "mem_inv lib s LL" and p: "p \<in> pointers (view (recs s) (LL Live))"
  shows "awp (cn_free_impl lib p file ln) free_errors
    (\<lambda>_ s'. represents lib s' (without p (view (recs s) (LL Live)))
        (free_quarantine file ln p (view (recs s) (LL Live)) (view (recs s) (LL Freed)))) s"
proof -
  obtain us x vs r where x: "LL Live = us @ x # vs" "recs s x = Some r" "mr_ptr r = p"
    by (rule live_record [OF inv p])
  have v: "view (recs s) (LL Live) = view (recs s) us @ info r # view (recs s) vs" using x by simp
  have "distinct (map mr_ptr (view (recs s) (LL Live)))" using inv_distinct [OF inv] by simp
  note W = without_split [OF this [unfolded v], unfolded info_parts x(3)]
  have "ptr_of (recs s) x = p" using x by (simp add: ptr_of_def)
  note spec = free_live_spec [OF lib inv x(1) this]
  show ?thesis
  proof (rule awp_mono [OF spec])
    fix u :: unit and s'
    assume "\<exists>F. mem_inv lib s' (LL(Live := us @ vs, Freed := F)) \<and> view (recs s') (us @ vs) = view (recs s) (us @ vs)
      \<and> view (recs s') F = evict_blocks (released file ln (info (the (recs s x))) # view (recs s) (LL Freed))
      \<and> reports s' = reports s"
    then obtain F where F: "mem_inv lib s' (LL(Live := us @ vs, Freed := F))"
        "view (recs s') (us @ vs) = view (recs s) (us @ vs)"
        "view (recs s') F = evict_blocks (released file ln (info r) # view (recs s) (LL Freed))"
      using x(2) by auto
    then show "represents lib s' (without p (view (recs s) (LL Live)))
        (free_quarantine file ln p (view (recs s) (LL Live)) (view (recs s) (LL Freed)))"
      unfolding represents_def using W x v
      by (intro exI [of _ "LL(Live := us @ vs, Freed := F)"]) (simp add: free_quarantine_def)
  qed simp
qed

lemma null_not_live: "mem_inv lib s LL \<Longrightarrow> 0 \<notin> pointers (view (recs s) (LL Live))"
  by (metis live_record)

lemma awp_no_effect: "Q () s \<Longrightarrow> awp (aret ()) E Q s"
  by (simp add: awp_alloc_fun)

lemma free_cases:
  assumes lib: "c_library_ok lib" and inv: "mem_inv lib s LL"
  shows "case free_rejects p (view (recs s) (LL Live)) (view (recs s) (LL Freed)) of
      Some e \<Rightarrow> cn_free_impl lib p file ln s = Some (Inl e)
    | None \<Rightarrow> awp (cn_free_impl lib p file ln) free_errors
        (\<lambda>_ s'. represents lib s' (without p (view (recs s) (LL Live)))
           (free_quarantine file ln p (view (recs s) (LL Live)) (view (recs s) (LL Freed)))) s"
proof (cases "free_rejects p (view (recs s) (LL Live)) (view (recs s) (LL Freed))")
  case (Some e)
  with free_reject [OF inv] show ?thesis by simp
next
  case None
  let ?live = "view (recs s) (LL Live)"
  show ?thesis
  proof (cases "p = 0")
    case True
    have "0 \<notin> pointers ?live" using null_not_live [OF inv] .
    then have "without 0 ?live = ?live" "find (\<lambda>b. mr_ptr b = 0) ?live = None"
      by (auto simp: without_def pointers_def find_None_iff filter_id_conv)
    moreover have "represents lib s ?live (view (recs s) (LL Freed))" using inv by (auto simp: represents_def)
    ultimately show ?thesis using True None by (simp add: cn_free_impl_def awp_no_effect free_quarantine_def)
  next
    case False
    with None have "p \<in> pointers ?live" by (auto simp: free_rejects_def split: if_splits)
    with free_accept [OF lib inv] None show ?thesis by simp
  qed
qed

text \<open>
  C28: \<open>cn_free_impl\<close> refines the abstract allocator. A pointer that is neither null nor the address
  of a live block is rejected with exactly the code that says why: R4010 for a block that was
  freed already, R4011 for a pointer into a block, R4003 for any other. A null pointer has no
  effect. For a live block the operation is defined and either aborts because memory is exhausted
  or corrupted, or moves the block from the live blocks to the front of the quarantine, from
  which the oldest blocks are then evicted until it is within its limits.
\<close>

theorem cn_free_refines:
  assumes "c_library_ok lib" and "represents lib s live quar"
  shows "case free_rejects p live quar of
      Some e \<Rightarrow> cn_free_impl lib p file ln s = Some (Inl e)
    | None \<Rightarrow> awp (cn_free_impl lib p file ln) free_errors
        (\<lambda>_ s'. represents lib s' (without p live) (free_quarantine file ln p live quar)) s"
  using assms(2) free_cases [OF assms(1)] unfolding represents_def by blast

theorem cn_free_refines_witness: "cn_free_impl bump_library 4096 ''main.c'' 1 mem_init = Some (Inl ''R4003'')"
  using cn_free_refines [OF bump_library_ok mem_init_represents, of 4096 "''main.c''" 1]
  by (simp add: free_rejects_def pointers_def)

end
