(* ===== verification/Alloc_Guards.thy ===== *)
theory Alloc_Guards
  imports Checked_Alloc
begin

text \<open>
  The guards around a block: a block fresh from the allocator passes the check, and a byte that is
  changed outside the block, in the guards, is found when the block is freed.
\<close>

section \<open>Bytes\<close>

lemma word_eq_plus_of_nat: "(x :: 64 word) = a + of_nat i \<longleftrightarrow> unat (x - a) = i" if "i < 2 ^ 64"
proof
  assume "x = a + of_nat i"
  then have "x - a = of_nat i" by simp
  then show "unat (x - a) = i" using that by (simp add: unat_of_nat)
next
  assume "unat (x - a) = i"
  moreover have "word_of_nat (unat (x - a)) = x - a" by simp
  ultimately show "x = a + of_nat i" by simp
qed

lemma write_bytes_at:
  "n \<le> 2 ^ 64 \<Longrightarrow> write_bytes a n f m x = (if unat (x - a) < n then f (unat (x - a)) else m x)"
proof (induction n)
  case 0
  then show ?case by (simp add: write_bytes_def)
next
  case (Suc n)
  have "write_bytes a (Suc n) f m x = (if x = a + of_nat n then f n else write_bytes a n f m x)"
    by (simp add: write_bytes_def)
  moreover have "x = a + of_nat n \<longleftrightarrow> unat (x - a) = n" using Suc.prems by (intro word_eq_plus_of_nat) simp
  ultimately show ?case using Suc by auto
qed

lemma sub_above: "unat p \<le> unat x \<Longrightarrow> unat (x - (p :: 64 word)) = unat x - unat p"
  using unat_sub_if' [of x p] by presburger

lemma sub_below:
  assumes "unat x < unat p"
  shows "unat (x - (p :: 64 word)) = 2 ^ 64 + unat x - unat p"
proof -
  have "\<not> unat p \<le> unat x" using assms by simp
  with unat_sub_if' [of x p] have u: "unat (x - p) = unat x + 2 ^ LENGTH(64) - unat p" by (simp only: if_False)
  have "2 ^ LENGTH(64) = (2 :: nat) ^ 64" by simp
  with u show ?thesis by (simp only: add.commute)
qed

lemma unat_bound: "unat (x :: 64 word) < 2 ^ 64"
  using unsigned_less [of x, where 'a = nat] by simp

section \<open>The check\<close>

text \<open>A block within the address space, with room for its guards.\<close>

definition placed :: "c_library \<Rightarrow> cn_mem_record \<Rightarrow> bool" where
  "placed lib r \<longleftrightarrow> unat (cn_memory_prefix_size lib) \<le> unat (mr_ptr r) \<and> unat (mr_ptr r) + unat (mr_size r) + 8 \<le> 2 ^ 64
     \<and> mr_base_ptr r = mr_ptr r - cn_memory_prefix_size lib"

definition fresh_bytes :: "c_library \<Rightarrow> cn_mem_record \<Rightarrow> 8 word \<Rightarrow> (addr \<Rightarrow> 8 word) \<Rightarrow> addr \<Rightarrow> 8 word" where
  "fresh_bytes lib r v m = set_bytes (mr_ptr r) v (mr_size r) (guard_bytes lib r m)"

lemma fresh_bytes_at:
  assumes "placed lib r"
  shows "fresh_bytes lib r v m x =
    (if unat (x - mr_ptr r) < unat (mr_size r) then v
     else if unat (x - (mr_ptr r + mr_size r)) < 8 then cn_guard_byte (NOT (cn_record_guard_value r)) (unat (x - (mr_ptr r + mr_size r)))
     else if unat (x - mr_base_ptr r) < unat (cn_memory_prefix_size lib)
     then cn_guard_byte (cn_record_guard_value r) (unat (x - mr_base_ptr r)) else m x)"
proof -
  have "unat (cn_memory_prefix_size lib) \<le> 2 ^ 64" using unat_bound by (rule less_imp_le)
  then show ?thesis
    by (simp add: fresh_bytes_def set_bytes_def guard_bytes_def write_bytes_at word_less_nat_alt cn_memory_tail_size_def
        cn_record_tail_guard_ptr_def cn_record_head_guard_ptr_def)
qed

lemma placed_unat:
  assumes "placed lib r"
  shows "unat (mr_base_ptr r) = unat (mr_ptr r) - unat (cn_memory_prefix_size lib)"
    and "i < unat (cn_memory_prefix_size lib) \<Longrightarrow> unat (mr_base_ptr r + of_nat i) = unat (mr_base_ptr r) + i"
    and "i < unat (mr_size r) + 8 \<Longrightarrow> unat (mr_ptr r + of_nat i) = unat (mr_ptr r) + i"
    and "unat (mr_ptr r + mr_size r) = unat (mr_ptr r) + unat (mr_size r)"
proof -
  let ?n = "unat (cn_memory_prefix_size lib)"
  have p: "?n \<le> unat (mr_ptr r)" "unat (mr_ptr r) + unat (mr_size r) + 8 \<le> 2 ^ 64" "unat (mr_ptr r) < 2 ^ 64"
    using assms unat_bound [of "mr_ptr r"] by (simp_all only: placed_def)
  show b: "unat (mr_base_ptr r) = unat (mr_ptr r) - ?n" using assms sub_above by (simp add: placed_def)
  have add: "unat (a + of_nat i) = unat a + i" if "unat a + i < 2 ^ 64" for a :: "64 word" and i
    using that by (simp add: unat_word_ariths unat_of_nat)
  show "i < ?n \<Longrightarrow> unat (mr_base_ptr r + of_nat i) = unat (mr_base_ptr r) + i" using add b p by simp
  show "i < unat (mr_size r) + 8 \<Longrightarrow> unat (mr_ptr r + of_nat i) = unat (mr_ptr r) + i" using add p by simp
  show "unat (mr_ptr r + mr_size r) = unat (mr_ptr r) + unat (mr_size r)" using p by (simp add: unat_word_ariths)
qed

lemma fresh_head:
  assumes "placed lib r" and "i < unat (cn_memory_prefix_size lib)"
  shows "fresh_bytes lib r v m (mr_base_ptr r + of_nat i) = cn_guard_byte (cn_record_guard_value r) i"
proof -
  note u = placed_unat [OF assms(1)]
  let ?x = "mr_base_ptr r + of_nat i"
  have pl: "unat (cn_memory_prefix_size lib) \<le> unat (mr_ptr r)" "unat (mr_ptr r) + unat (mr_size r) + 8 \<le> 2 ^ 64"
    using assms(1) by (simp_all only: placed_def)
  have x: "unat ?x = unat (mr_ptr r) - unat (cn_memory_prefix_size lib) + i" using u(1,2) assms(2) by simp
  then have lt: "unat ?x < unat (mr_ptr r)" "unat ?x < unat (mr_ptr r + mr_size r)" using u(4) pl assms(2) by linarith+
  have "\<not> unat (?x - mr_ptr r) < unat (mr_size r)" "\<not> unat (?x - (mr_ptr r + mr_size r)) < 8"
    unfolding sub_below [OF lt(1)] sub_below [OF lt(2)] u(4) using pl by linarith+
  moreover have "unat (?x - mr_base_ptr r) = i" using u(2) [OF assms(2)] sub_above [of "mr_base_ptr r" ?x] by linarith
  ultimately show ?thesis using assms(2) by (simp only: fresh_bytes_at [OF assms(1)] if_False if_True)
qed

lemma fresh_tail:
  assumes "placed lib r" and "i < 8"
  shows "fresh_bytes lib r v m (mr_ptr r + mr_size r + of_nat i) = cn_guard_byte (NOT (cn_record_guard_value r)) i"
proof -
  note u = placed_unat [OF assms(1)]
  let ?x = "mr_ptr r + mr_size r + of_nat i"
  have "?x = mr_ptr r + of_nat (unat (mr_size r) + i)" by simp
  with u(3) [of "unat (mr_size r) + i"] assms(2) have x: "unat ?x = unat (mr_ptr r) + unat (mr_size r) + i"
    by (simp only: add_less_cancel_left add.assoc)
  have "\<not> unat (?x - mr_ptr r) < unat (mr_size r)" "unat (?x - (mr_ptr r + mr_size r)) = i"
    using x u(4) sub_above [of "mr_ptr r" ?x] sub_above [of "mr_ptr r + mr_size r" ?x] by linarith+
  then show ?thesis using assms(2) by (simp only: fresh_bytes_at [OF assms(1)] if_False if_True)
qed

lemma fresh_checks:
  assumes "placed lib r"
  shows "head_guard_ok lib (fresh_bytes lib r v m) r" and "tail_guard_ok (fresh_bytes lib r v m) r"
    and "cn_record_payload_matches (fresh_bytes lib r v m) r v"
proof -
  show "head_guard_ok lib (fresh_bytes lib r v m) r"
    using fresh_head [OF assms] by (auto simp: head_guard_ok_def list_all_iff cn_record_head_guard_ptr_def)
  show "tail_guard_ok (fresh_bytes lib r v m) r"
    using fresh_tail [OF assms] by (auto simp: tail_guard_ok_def list_all_iff cn_record_tail_guard_ptr_def cn_memory_tail_size_def)
  have "fresh_bytes lib r v m (mr_ptr r + of_nat i) = v" if "i < unat (mr_size r)" for i
  proof -
    have "unat (mr_ptr r + of_nat i) = unat (mr_ptr r) + i" using placed_unat(3) [OF assms] that by simp
    then have "unat (mr_ptr r + of_nat i - mr_ptr r) = i" using sub_above [of "mr_ptr r" "mr_ptr r + of_nat i"] by linarith
    with that show ?thesis by (simp only: fresh_bytes_at [OF assms] if_True)
  qed
  then show "cn_record_payload_matches (fresh_bytes lib r v m) r v"
    by (simp add: cn_record_payload_matches_def list_all_iff)
qed

section \<open>Allocation\<close>

definition alloc_errors :: "c_library \<Rightarrow> 64 word \<Rightarrow> string \<Rightarrow> bool" where
  "alloc_errors lib sz e \<longleftrightarrow>
     e = ''R4001'' \<or> e = ''R4006'' \<and> 2 ^ 64 \<le> unat (actual sz) + unat (lib_max_align lib) + 8"

lemma represents_distinct: "represents lib s live quar \<Longrightarrow> distinct (map mr_ptr (live @ quar))"
  unfolding represents_def using inv_distinct by blast

lemma represents_bytes [simp]: "represents lib (s\<lparr>bytes := m\<rparr>) live quar = represents lib s live quar"
proof -
  have "shape lib {} (s\<lparr>bytes := m\<rparr>) LL = shape lib {} s LL" for LL by (rule shape_cong) simp_all
  then show ?thesis by (simp add: represents_def mem_inv_def counts_def)
qed

lemma alloc_represents:
  assumes lib: "c_library_ok lib" and rep: "represents lib s live quar"
  shows "awp (cn_alloc_impl lib sz file ln) (alloc_errors lib sz)
    (\<lambda>p s'. p \<noteq> 0 \<and> placed lib (new_block lib p (actual sz) file ln)
       \<and> represents lib s' (new_block lib p (actual sz) file ln # live) quar
       \<and> bytes s' = fresh_bytes lib (new_block lib p (actual sz) file ln) alloc_poison (bytes s)) s"
proof -
  obtain LL where inv: "mem_inv lib s LL" and v: "view (recs s) (LL Live) = live" "view (recs s) (LL Freed) = quar"
    using rep unfolding represents_def by blast
  show ?thesis
  proof (rule awp_mono [OF alloc_spec [OF lib inv]])
    fix p s' assume "alloc_post lib s LL (actual sz) file ln p s'"
    then obtain x where x: "mem_inv lib s' (LL(Live := x # LL Live))" "p \<noteq> 0"
        "view (recs s') (x # LL Live) = new_block lib p (actual sz) file ln # live" "view (recs s') (LL Freed) = quar"
        "bytes s' = set_bytes p alloc_poison (actual sz) (guard_bytes lib (new_block lib p (actual sz) file ln) (bytes s))"
        "unat p + unat (actual sz) + 8 \<le> 2 ^ 64" "unat (lib_max_align lib) \<le> unat p"
      unfolding alloc_post_def v by blast
    have "represents lib s' (new_block lib p (actual sz) file ln # live) quar"
      unfolding represents_def using x(1,3,4) by (intro exI [of _ "LL(Live := x # LL Live)"]) simp
    moreover have "placed lib (new_block lib p (actual sz) file ln)"
      using x(6,7) by (simp add: placed_def new_block_def cn_memory_prefix_size_def)
    ultimately show "p \<noteq> 0 \<and> placed lib (new_block lib p (actual sz) file ln)
       \<and> represents lib s' (new_block lib p (actual sz) file ln # live) quar
       \<and> bytes s' = fresh_bytes lib (new_block lib p (actual sz) file ln) alloc_poison (bytes s)"
      using x(2,5) by (simp add: fresh_bytes_def new_block_def)
  qed (simp add: alloc_errors_def)
qed



section \<open>Detection of overruns\<close>

lemma free_checks_guards:
  assumes rep: "represents lib s live quar" and b: "b \<in> set live"
    and bad: "\<not> (head_guard_ok lib (bytes s) b \<and> tail_guard_ok (bytes s) b)"
  shows "cn_free_impl lib (mr_ptr b) file ln s =
    Some (Inl (if head_guard_ok lib (bytes s) b then ''R4016'' else ''R4017''))"
proof (rule awp_exact)
  obtain LL where inv: "mem_inv lib s LL" and v: "view (recs s) (LL Live) = live"
    using rep unfolding represents_def by blast
  have "mr_ptr b \<in> pointers (view (recs s) (LL Live))" using b v by (simp add: pointers_def)
  from live_record [OF inv this] obtain x r where x: "x \<in> set (LL Live)" "recs s x = Some r" "mr_ptr r = mr_ptr b" "mr_ptr b \<noteq> 0"
      "lookup (recs s) (set (LL Live)) (mr_ptr b) = x" "x \<noteq> 0"
    by (metis in_set_conv_decomp)
  have "info r \<in> set live" using x(1,2) v unfolding view_def by force
  moreover have "inj_on mr_ptr (set live)" using represents_distinct [OF rep] by (simp add: distinct_map)
  ultimately have "info r = b" using b x(3) info_parts(2) [of r] by (auto dest: inj_onD)
  then have ck: "head_guard_ok lib (bytes s) r = head_guard_ok lib (bytes s) b" "tail_guard_ok (bytes s) r = tail_guard_ok (bytes s) b"
    using checks_info [where r = r] by auto
  show "awp (cn_free_impl lib (mr_ptr b) file ln) (\<lambda>e. e = (if head_guard_ok lib (bytes s) b then ''R4016'' else ''R4017''))
      (\<lambda>_ _. False) s"
    using bad x ck inv_find [OF inv]
    by (simp add: cn_free_impl_def awp_bind_fun awp_aget_fun awp_verify_guards)
qed

lemma overrun_bytes:
  assumes pl: "placed lib b" and i: "i < 8"
    and m: "m = (fresh_bytes lib b v m0)(mr_ptr b + mr_size b + of_nat i := c)"
    and c: "c \<noteq> fresh_bytes lib b v m0 (mr_ptr b + mr_size b + of_nat i)"
  shows "head_guard_ok lib m b" and "\<not> tail_guard_ok m b"
proof -
  note u = placed_unat [OF pl]
  let ?x = "mr_ptr b + mr_size b + of_nat i"
  have "?x = mr_ptr b + of_nat (unat (mr_size b) + i)" by simp
  with u(3) [of "unat (mr_size b) + i"] i have x: "unat ?x = unat (mr_ptr b) + unat (mr_size b) + i"
    by (simp only: add_less_cancel_left add.assoc)
  have pf: "unat (cn_memory_prefix_size lib) \<le> unat (mr_ptr b)" using pl by (simp only: placed_def)
  have "m (mr_base_ptr b + of_nat j) = fresh_bytes lib b v m0 (mr_base_ptr b + of_nat j)"
    if "j < unat (cn_memory_prefix_size lib)" for j
  proof -
    have "unat (mr_base_ptr b + of_nat j) < unat ?x" using u(1) u(2) [OF that] x that pf by linarith
    then show ?thesis using m by (metis fun_upd_apply less_irrefl)
  qed
  with fresh_checks(1) [OF pl, of v m0] show "head_guard_ok lib m b"
    by (simp add: head_guard_ok_def list_all_iff cn_record_head_guard_ptr_def)
  have "m ?x \<noteq> cn_guard_byte (NOT (cn_record_guard_value b)) i" using m c fresh_tail [OF pl i, of v m0] by simp
  with i show "\<not> tail_guard_ok m b"
    by (auto simp: tail_guard_ok_def list_all_iff cn_record_tail_guard_ptr_def cn_memory_tail_size_def)
qed

text \<open>
  C30: The allocator finds writes past the end of a block. When the client changes one of the
  eight bytes behind a block that it got from \<open>cn_alloc_impl\<close>, to any other value, then freeing the
  block aborts with the code R4016.
\<close>

theorem cn_free_finds_overrun:
  assumes "c_library_ok lib" and "represents lib s live quar"
    and "cn_alloc_impl lib sz file ln s = Some (Inr (p, s'))" and "i < 8"
    and "c \<noteq> bytes s' (p + actual sz + of_nat i)"
  shows "cn_free_impl lib p file' ln' (s'\<lparr>bytes := (bytes s')(p + actual sz + of_nat i := c)\<rparr>) = Some (Inl ''R4016'')"
proof -
  let ?b = "new_block lib p (actual sz) file ln" and ?s = "s'\<lparr>bytes := (bytes s')(p + actual sz + of_nat i := c)\<rparr>"
  have a: "placed lib ?b" "represents lib s' (?b # live) quar" "bytes s' = fresh_bytes lib ?b alloc_poison (bytes s)"
    using alloc_represents [OF assms(1,2), of sz "file" ln] assms(3) by (simp_all add: awp_def)
  have b: "mr_ptr ?b = p" "mr_size ?b = actual sz" by (simp_all add: new_block_def)
  have g: "head_guard_ok lib (bytes ?s) ?b" "\<not> tail_guard_ok (bytes ?s) ?b"
    using overrun_bytes [OF a(1) assms(4), of "bytes ?s" alloc_poison "bytes s" c] a(3) assms(5) b by simp_all
  have "represents lib ?s (?b # live) quar" using a(2) by simp
  from free_checks_guards [OF this, of ?b "file'" ln'] g b show ?thesis by simp
qed

theorem cn_free_finds_overrun_witness:
  "\<exists>p s. cn_alloc_impl bump_library 8 ''main.c'' 1 mem_init = Some (Inr (p, s))
     \<and> cn_free_impl bump_library p ''main.c'' 2 (s\<lparr>bytes := (bytes s)(p + 8 := bytes s (p + 8) + 1)\<rparr>) = Some (Inl ''R4016'')"
proof -
  obtain p s where a: "cn_alloc_impl bump_library 8 ''main.c'' 1 mem_init = Some (Inr (p, s))" using bump_alloc by blast
  with cn_free_finds_overrun [OF bump_library_ok mem_init_represents a, of 0 "bytes s (p + 8) + 1" "''main.c''" 2]
  show ?thesis by (simp add: actual_def)
qed

end
