(* ===== verification/Alloc_Runs.thy ===== *)
theory Alloc_Runs
  imports Alloc_Guards
begin

text \<open>
  All operations of the allocator together, as steps of a client: the abstract allocator, the
  simulation, and what it says about runs.
\<close>

section \<open>Reallocation and the derived operations\<close>

lemma mul_overflow_iff:
  "cn_size_mul_overflow a b = (if unat a * unat b < 2 ^ 64 then Some (a * b) else None)"
proof (cases "b = 0")
  case False
  then have b: "0 < unat b" by (simp add: unat_gt_0)
  have "unat ((- 1 :: 64 word) div b) = (2 ^ 64 - 1) div unat b"
    by (simp add: unat_div unsigned_minus_1_eq_mask mask_eq_exp_minus_1)
  then have "a > (- 1) div b \<longleftrightarrow> (2 ^ 64 - 1) div unat b < unat a" by (simp add: word_less_nat_alt)
  also have "\<dots> \<longleftrightarrow> \<not> unat a * unat b \<le> 2 ^ 64 - 1"
    using less_eq_div_iff_mult_less_eq [OF b, of "unat a" "2 ^ 64 - 1"] by (simp only: not_le [symmetric])
  also have "\<dots> \<longleftrightarrow> \<not> unat a * unat b < 2 ^ 64" by auto
  finally show ?thesis by (auto simp: cn_size_mul_overflow_def)
qed (simp add: cn_size_mul_overflow_def)

lemma unat_mul_exact: "unat a * unat b < 2 ^ 64 \<longleftrightarrow> unat (a * b) = unat a * unat (b :: 64 word)"
proof
  assume "unat a * unat b < 2 ^ 64"
  then show "unat (a * b) = unat a * unat b" using unat_mult_lem [of a b] by simp
next
  assume "unat (a * b) = unat a * unat b"
  then show "unat a * unat b < 2 ^ 64" using unat_bound [of "a * b"] by simp
qed

lemma total_size_exact:
  "map_option unat (cn_allocation_total_size lib n) =
     (if unat n + unat (lib_max_align lib) + 8 < 2 ^ 64 then Some (unat n + unat (lib_max_align lib) + 8) else None)"
proof (cases "cn_allocation_total_size lib n")
  case None
  then show ?thesis using total_size_iff [of lib n] by (simp add: cn_memory_prefix_size_def split: if_splits)
next
  case (Some t)
  then show ?thesis using total_size_iff [of lib n] total_size_unat [OF Some]
    by (simp add: cn_memory_prefix_size_def split: if_splits)
qed


definition realloc_errors :: "c_library \<Rightarrow> addr \<Rightarrow> 64 word \<Rightarrow> cn_mem_record list \<Rightarrow> cn_mem_record list \<Rightarrow> string \<Rightarrow> bool" where
  "realloc_errors lib p sz live quar e \<longleftrightarrow>
     (if p \<notin> pointers live then e = (if p \<in> pointers quar then ''R4013'' else ''R4002'')
      else e \<in> {''R4008'', ''R4016'', ''R4017''} \<or> e = ''R4009'' \<and> 2 ^ 64 \<le> unat (actual sz) + unat (lib_max_align lib) + 8)"

lemma actual_nonzero [simp]: "actual sz \<noteq> 0"
  by (simp add: actual_def)

lemma realloc_represents:
  assumes lib: "c_library_ok lib" and rep: "represents lib s live quar" and p: "p \<noteq> 0"
  shows "awp (cn_realloc_impl lib p sz file ln) (realloc_errors lib p sz live quar)
    (\<lambda>p' s'. p \<in> pointers live \<and> p' \<noteq> 0 \<and> represents lib s' (replace_block p (new_block lib p' (actual sz) file ln) live) quar) s"
    (is "awp _ ?E ?Q s")
proof -
  obtain LL where inv: "mem_inv lib s LL" and v: "view (recs s) (LL Live) = live" "view (recs s) (LL Freed) = quar"
    using rep unfolding represents_def by blast
  show ?thesis
  proof (cases "p \<in> pointers live")
    case False
    then have "lookup (recs s) (set (LL Live)) p = 0" using v by (simp add: lookup_none pointers_def)
    then show ?thesis using False freed_lookup [OF inv, of p] v inv_find [OF inv]
      by (simp add: realloc_unfold [OF p] awp_bind_fun awp_aget_fun awp_fail realloc_errors_def)
  next
    case True
    then obtain us x vs r where x: "LL Live = us @ x # vs" "recs s x = Some r" "mr_ptr r = p"
        "lookup (recs s) (set (LL Live)) p = x" "x \<noteq> 0"
      using live_record [OF inv] v by metis
    have lv: "live = view (recs s) us @ info r # view (recs s) vs" using x v by simp
    have "distinct (map mr_ptr live)" using represents_distinct [OF rep] by simp
    note W = without_split(3) [OF this [unfolded lv], unfolded info_parts x(3)]
    have mv: "awp (move_record lib x p (actual sz) whole file ln r (alloc s)) ?E ?Q s"
      if t: "cn_allocation_total_size lib (actual sz) = Some whole" for whole
    proof (rule awp_mono [OF move_record_spec [OF lib inv x(1,2) t, unfolded x(3), where E = ?E]])
      fix p' s'
      assume "mem_inv lib s' LL \<and> p' \<noteq> 0 \<and> view (recs s') (LL Freed) = view (recs s) (LL Freed) \<and> reports s' = reports s
        \<and> view (recs s') (LL Live) = view (recs s) us @ new_block lib p' (actual sz) file ln # view (recs s) vs"
      then show "?Q p' s'" using True v W lv unfolding represents_def by auto
    qed (use True in \<open>auto simp: realloc_errors_def\<close>)
    have tot: "2 ^ 64 \<le> unat (actual sz) + unat (lib_max_align lib) + 8" if "cn_allocation_total_size lib (actual sz) = None"
      using that by (auto simp: total_size_iff cn_memory_prefix_size_def split: if_splits)
    show ?thesis
      using x True mv tot inv_find [OF inv]
      by (auto simp: realloc_unfold [OF p] awp_bind_fun awp_aget_fun awp_fail awp_verify_guards awp_recs realloc_errors_def
          split: option.splits)
  qed
qed

text \<open>The bytes of blocks are not part of the abstract state.\<close>

lemma awp_write_fun:
  "awp (c_memcpy p xs) E Q = (\<lambda>s. Q () (s\<lparr>bytes := write_bytes p (length xs) (\<lambda>i. of_nat (of_char (xs ! i))) (bytes s)\<rparr>))"
  "awp (c_memset p v n) E Q = (\<lambda>s. Q () (s\<lparr>bytes := set_bytes p v n (bytes s)\<rparr>))"
  by (rule ext, simp add: c_memcpy_def awp_simps awp_bytes)+

section \<open>The steps of a client\<close>

text \<open>
  A client calls the operations, and it writes to its memory: any byte of the blocks, in bounds or
  not. The records of the allocator are other objects of the C heap, which it does not write.
\<close>

datatype mem_op =
    OpAlloc "64 word" string int
  | OpCalloc "64 word" "64 word" string int
  | OpRealloc addr "64 word" string int
  | OpReallocMul addr "64 word" "64 word" string int
  | OpStrndup string nat string int
  | OpFree addr string int
  | OpWrite addr "8 word"

definition mem_step :: "c_library \<Rightarrow> mem_op \<Rightarrow> addr am" where
  "mem_step lib op = (case op of
       OpAlloc sz file ln \<Rightarrow> cn_alloc_impl lib sz file ln
     | OpCalloc n sz file ln \<Rightarrow> cn_calloc_impl lib n sz file ln
     | OpRealloc p sz file ln \<Rightarrow> cn_realloc_impl lib p sz file ln
     | OpReallocMul p n sz file ln \<Rightarrow> cn_realloc_mul_impl lib p n sz file ln
     | OpStrndup xs n file ln \<Rightarrow> cn_strndup_impl lib xs n file ln
     | OpFree p file ln \<Rightarrow> aseq (cn_free_impl lib p file ln) (aret 0)
     | OpWrite a v \<Rightarrow> aseq (amod (\<lambda>s. s\<lparr>bytes := (bytes s)(a := v)\<rparr>)) (aret 0))"

text \<open>The abstract allocator: a state is the live blocks and the quarantine.\<close>

type_synonym abs_mem = "cn_mem_record list \<times> cn_mem_record list"

definition adds_block :: "c_library \<Rightarrow> 64 word \<Rightarrow> string \<Rightarrow> int \<Rightarrow> abs_mem \<Rightarrow> addr \<Rightarrow> abs_mem \<Rightarrow> bool" where
  "adds_block lib sz file ln a p a' \<longleftrightarrow> p \<noteq> 0 \<and> a' = (new_block lib p (actual sz) file ln # fst a, snd a)"

definition moves_block :: "c_library \<Rightarrow> addr \<Rightarrow> 64 word \<Rightarrow> string \<Rightarrow> int \<Rightarrow> abs_mem \<Rightarrow> addr \<Rightarrow> abs_mem \<Rightarrow> bool" where
  "moves_block lib p sz file ln a p' a' \<longleftrightarrow>
     (if p = 0 then adds_block lib sz file ln a p' a'
      else p \<in> pointers (fst a) \<and> p' \<noteq> 0 \<and> a' = (replace_block p (new_block lib p' (actual sz) file ln) (fst a), snd a))"

definition abs_step :: "c_library \<Rightarrow> mem_op \<Rightarrow> abs_mem \<Rightarrow> addr \<Rightarrow> abs_mem \<Rightarrow> bool" where
  "abs_step lib op a r a' = (case op of
       OpAlloc sz file ln \<Rightarrow> adds_block lib sz file ln a r a'
     | OpCalloc n sz file ln \<Rightarrow> unat n * unat sz < 2 ^ 64 \<and> adds_block lib (n * sz) file ln a r a'
     | OpRealloc p sz file ln \<Rightarrow> moves_block lib p sz file ln a r a'
     | OpReallocMul p n sz file ln \<Rightarrow> unat n * unat sz < 2 ^ 64 \<and> moves_block lib p (n * sz) file ln a r a'
     | OpStrndup xs n file ln \<Rightarrow> adds_block lib (of_nat n + 1) file ln a r a'
     | OpFree p file ln \<Rightarrow> free_rejects p (fst a) (snd a) = None
         \<and> a' = (without p (fst a), free_quarantine file ln p (fst a) (snd a))
     | OpWrite x v \<Rightarrow> a' = a)"

text \<open>The codes with which an operation may abort.\<close>

definition moves_errors :: "c_library \<Rightarrow> addr \<Rightarrow> 64 word \<Rightarrow> abs_mem \<Rightarrow> string \<Rightarrow> bool" where
  "moves_errors lib p sz a e = (if p = 0 then alloc_errors lib sz e else realloc_errors lib p sz (fst a) (snd a) e)"

definition abs_errors :: "c_library \<Rightarrow> mem_op \<Rightarrow> abs_mem \<Rightarrow> string \<Rightarrow> bool" where
  "abs_errors lib op a e = (case op of
       OpAlloc sz _ _ \<Rightarrow> alloc_errors lib sz e
     | OpCalloc n sz _ _ \<Rightarrow> if unat n * unat sz < 2 ^ 64 then alloc_errors lib (n * sz) e else e = ''R4006''
     | OpRealloc p sz _ _ \<Rightarrow> moves_errors lib p sz a e
     | OpReallocMul p n sz _ _ \<Rightarrow> if unat n * unat sz < 2 ^ 64 then moves_errors lib p (n * sz) a e else e = ''R4009''
     | OpStrndup xs n _ _ \<Rightarrow> alloc_errors lib (of_nat n + 1) e
     | OpFree p _ _ \<Rightarrow> (case free_rejects p (fst a) (snd a) of Some e' \<Rightarrow> e = e' | None \<Rightarrow> free_errors e)
     | OpWrite _ _ \<Rightarrow> False)"

definition mem_rep :: "c_library \<Rightarrow> mem_state \<Rightarrow> abs_mem \<Rightarrow> bool" where
  "mem_rep lib s a \<longleftrightarrow> c_library_ok lib \<and> represents lib s (fst a) (snd a)"

lemma mem_rep_bytes [simp]: "mem_rep lib (s\<lparr>bytes := m\<rparr>) a = mem_rep lib s a"
  by (simp add: mem_rep_def)

lemma alloc_step:
  assumes "mem_rep lib s a"
  shows "awp (cn_alloc_impl lib sz file ln) (alloc_errors lib sz)
    (\<lambda>r s'. \<exists>a'. adds_block lib sz file ln a r a' \<and> mem_rep lib s' a') s"
  using assms unfolding mem_rep_def
  by (intro awp_mono [OF alloc_represents [of lib s "fst a" "snd a"]]) (auto simp: adds_block_def)

lemma realloc_step:
  assumes "mem_rep lib s a"
  shows "awp (cn_realloc_impl lib p sz file ln) (moves_errors lib p sz a)
    (\<lambda>r s'. \<exists>a'. moves_block lib p sz file ln a r a' \<and> mem_rep lib s' a') s"
proof (cases "p = 0")
  case True
  then show ?thesis using alloc_step [OF assms, of sz "file" ln]
    by (simp add: cn_realloc_impl_def moves_errors_def [abs_def] moves_block_def)
next
  case False
  then show ?thesis using assms unfolding mem_rep_def
    by (intro awp_mono [OF realloc_represents [of lib s "fst a" "snd a"]]) (auto simp: moves_block_def moves_errors_def)
qed

lemma free_step:
  assumes "mem_rep lib s a"
  shows "awp (aseq (cn_free_impl lib p file ln) (aret 0)) (abs_errors lib (OpFree p file ln) a)
    (\<lambda>r s'. \<exists>a'. abs_step lib (OpFree p file ln) a r a' \<and> mem_rep lib s' a') s"
proof -
  obtain LL where lib: "c_library_ok lib" and inv: "mem_inv lib s LL"
    and v: "view (recs s) (LL Live) = fst a" "view (recs s) (LL Freed) = snd a"
    using assms unfolding mem_rep_def represents_def by blast
  note spec = free_cases [OF lib inv, unfolded v, of p "file" ln]
  show ?thesis
  proof (cases "free_rejects p (fst a) (snd a)")
    case (Some e)
    with spec show ?thesis by (simp add: awp_bind_fun awp_def abs_errors_def)
  next
    case None
    with spec have "awp (cn_free_impl lib p file ln) free_errors
      (\<lambda>_ s'. represents lib s' (without p (fst a)) (free_quarantine file ln p (fst a) (snd a))) s" by simp
    then show ?thesis unfolding awp_bind_fun
      by (rule awp_mono) (use None lib in \<open>auto simp: awp_alloc_fun abs_step_def abs_errors_def mem_rep_def\<close>)
  qed
qed

lemma mem_step_sim:
  assumes "mem_rep lib s a"
  shows "awp (mem_step lib op) (abs_errors lib op a) (\<lambda>r s'. \<exists>a'. abs_step lib op a r a' \<and> mem_rep lib s' a') s"
proof (cases op)
  case (OpAlloc sz f l)
  with alloc_step [OF assms, of sz f l] show ?thesis by (simp add: mem_step_def abs_step_def abs_errors_def [abs_def])
next
  case (OpCalloc n sz f l)
  with alloc_step [OF assms, of "n * sz" f l] show ?thesis
    by (simp add: mem_step_def abs_step_def abs_errors_def [abs_def] cn_calloc_impl_def mul_overflow_iff awp_bind_fun
        awp_write_fun awp_alloc_fun awp_fail)
next
  case (OpRealloc p sz f l)
  with realloc_step [OF assms, of p sz f l] show ?thesis by (simp add: mem_step_def abs_step_def abs_errors_def [abs_def])
next
  case (OpReallocMul p n sz f l)
  with realloc_step [OF assms, of p "n * sz" f l] show ?thesis
    by (simp add: mem_step_def abs_step_def abs_errors_def [abs_def] cn_realloc_mul_impl_def mul_overflow_iff awp_fail)
next
  case (OpStrndup xs n f l)
  with alloc_step [OF assms, of "of_nat n + 1" f l] show ?thesis
    by (simp add: mem_step_def abs_step_def abs_errors_def [abs_def] cn_strndup_impl_def awp_bind_fun awp_write_fun awp_alloc_fun)
next
  case (OpFree p f l)
  with free_step [OF assms, of p f l] show ?thesis by (simp add: mem_step_def)
next
  case (OpWrite x v)
  with assms show ?thesis by (simp add: mem_step_def abs_step_def awp_simps)
qed

section \<open>Runs\<close>

text \<open>The operations of a client one after the other, until the first that aborts.\<close>

fun run_ops :: "('op \<Rightarrow> 's \<Rightarrow> ('e + 'r \<times> 's) option) \<Rightarrow> 'op list \<Rightarrow> 's \<Rightarrow> ('e + 'r list \<times> 's) option" where
  "run_ops step [] s = Some (Inr ([], s))"
| "run_ops step (op # ops) s = (case step op s of
       None \<Rightarrow> None
     | Some (Inl e) \<Rightarrow> Some (Inl e)
     | Some (Inr (r, s')) \<Rightarrow>
         (case run_ops step ops s' of
            None \<Rightarrow> None
          | Some (Inl e) \<Rightarrow> Some (Inl e)
          | Some (Inr (rs, s'')) \<Rightarrow> Some (Inr (r # rs, s''))))"

fun abs_run :: "('op \<Rightarrow> 'a \<Rightarrow> 'r \<Rightarrow> 'a \<Rightarrow> bool) \<Rightarrow> 'op list \<Rightarrow> 'a \<Rightarrow> 'r list \<Rightarrow> 'a \<Rightarrow> bool" where
  "abs_run spec [] a [] a' \<longleftrightarrow> a' = a"
| "abs_run spec (op # ops) a (r # rs) a' \<longleftrightarrow> (\<exists>b. spec op a r b \<and> abs_run spec ops b rs a')"
| "abs_run spec _ _ _ _ \<longleftrightarrow> False"

text \<open>
  An implementation that simulates its specification step by step: \<open>rep s a\<close> says that the state \<open>s\<close>
  stands for the abstract state \<open>a\<close>.
\<close>

locale simulation =
  fixes step :: "'op \<Rightarrow> 's \<Rightarrow> ('e + 'r \<times> 's) option" and rep :: "'s \<Rightarrow> 'a \<Rightarrow> bool"
    and spec :: "'op \<Rightarrow> 'a \<Rightarrow> 'r \<Rightarrow> 'a \<Rightarrow> bool" and err :: "'op \<Rightarrow> 'a \<Rightarrow> 'e \<Rightarrow> bool"
  assumes defined: "rep s a \<Longrightarrow> step op s \<noteq> None"
    and fails: "rep s a \<Longrightarrow> step op s = Some (Inl e) \<Longrightarrow> err op a e"
    and steps: "rep s a \<Longrightarrow> step op s = Some (Inr (r, s')) \<Longrightarrow> \<exists>a'. spec op a r a' \<and> rep s' a'"
begin

lemma run_defined: "rep s a \<Longrightarrow> run_ops step ops s \<noteq> None"
proof (induction ops arbitrary: s a)
  case (Cons op ops)
  from defined [OF Cons.prems, of op] show ?case
    using steps [OF Cons.prems, of op] Cons.IH by (fastforce split: option.splits sum.splits)
qed simp

lemma run_steps: "rep s a \<Longrightarrow> run_ops step ops s = Some (Inr (rs, s')) \<Longrightarrow> \<exists>a'. abs_run spec ops a rs a' \<and> rep s' a'"
proof (induction ops arbitrary: s a rs)
  case (Cons op ops)
  from Cons.prems(2) obtain r s1 rs1 where 1: "step op s = Some (Inr (r, s1))" "run_ops step ops s1 = Some (Inr (rs1, s'))" "rs = r # rs1"
    by (auto split: option.splits sum.splits)
  from steps [OF Cons.prems(1) 1(1)] obtain b where b: "spec op a r b" "rep s1 b" by blast
  from Cons.IH [OF b(2) 1(2)] b 1(3) show ?case by auto
qed simp

text \<open>A run that aborts does so in an operation that may, at the state that the run reached.\<close>

lemma run_fails:
  "rep s a \<Longrightarrow> run_ops step ops s = Some (Inl e) \<Longrightarrow>
    \<exists>done op rest rs b. ops = done @ op # rest \<and> abs_run spec done a rs b \<and> err op b e"
proof (induction ops arbitrary: s a)
  case (Cons op ops)
  consider (first) "step op s = Some (Inl e)"
    | (later) r s1 where "step op s = Some (Inr (r, s1))" "run_ops step ops s1 = Some (Inl e)"
    using Cons.prems(2) by (auto split: option.splits sum.splits)
  then show ?case
  proof cases
    case first
    with fails [OF Cons.prems(1)] have "op # ops = [] @ op # ops \<and> abs_run spec [] a [] a \<and> err op a e" by simp
    then show ?thesis by blast
  next
    case later
    from steps [OF Cons.prems(1) later(1)] obtain b where b: "spec op a r b" "rep s1 b" by blast
    from Cons.IH [OF b(2) later(2)] obtain dn op' rest rs c where
      "ops = dn @ op' # rest" "abs_run spec dn b rs c" "err op' c e" by blast
    with b(1) have "op # ops = (op # dn) @ op' # rest \<and> abs_run spec (op # dn) a (r # rs) c \<and> err op' c e" by auto
    then show ?thesis by blast
  qed
qed simp

end

interpretation mem: simulation "mem_step lib" "mem_rep lib" "abs_step lib" "abs_errors lib" for lib
proof
  fix s a op
  assume a: "mem_rep lib s a"
  note sim = mem_step_sim [OF a, of op]
  show "mem_step lib op s \<noteq> None" using sim by (simp add: awp_def split: option.splits)
  fix e assume "mem_step lib op s = Some (Inl e)"
  with sim show "abs_errors lib op a e" by (simp add: awp_def)
next
  fix s a op r s'
  assume "mem_rep lib s a" and "mem_step lib op s = Some (Inr (r, s'))"
  with mem_step_sim [of lib s a op] show "\<exists>a'. abs_step lib op a r a' \<and> mem_rep lib s' a'" by (simp add: awp_def)
qed

lemma mem_init_rep: "c_library_ok lib \<Longrightarrow> mem_rep lib mem_init ([], [])"
  by (simp add: mem_rep_def mem_init_represents)

end
