(* ===== verification/Alloc_Report.thy ===== *)
theory Alloc_Report
  imports Alloc_Runs
begin

text \<open>
  The end of a program: the report of the blocks that were not freed, and the release of
  everything that the allocator holds. At the end, the properties of runs of a client.
\<close>

section \<open>The report\<close>

definition leak_of :: "cn_mem_record \<Rightarrow> mem_report" where
  "leak_of b = Leak (mr_ptr b) (mr_size b) (mr_file b) (mr_line b)"

lemma leak_of_info [simp]: "leak_of (info r) = leak_of r"
  by (simp add: leak_of_def info_def)

lemma corruption_codes [simp]: "corruption ''R4013''" "corruption ''R4016''" "corruption ''R4017''"
  by (simp_all add: corruption_def)

lemma dump_step:
  assumes "a \<noteq> 0" and "recs s a = Some r"
  shows "dump_leaks_loop lib a s =
    abind (aseq (cn_record_verify_guards lib a) (cn_memory_warn (leak_of r))) (\<lambda>_. dump_leaks_loop lib (mr_next r)) s"
  using assms by (subst dump_leaks_loop.simps) (simp add: abind_def leak_of_def split: option.splits sum.splits)

lemma awp_warn: "awp (cn_memory_warn w) E Q s = Q () (s\<lparr>reports := reports s @ [w]\<rparr>)"
  by (simp add: awp_def cn_memory_warn_def)

lemma dump_loop_spec:
  "dseg (recs s) q a xs 0 \<Longrightarrow>
    awp (dump_leaks_loop lib a) corruption (\<lambda>_ s'. s' = s\<lparr>reports := reports s @ map leak_of (view (recs s) xs)\<rparr>) s"
proof (induction xs arbitrary: q a s)
  case Nil
  then show ?case by (simp add: awp_def dump_leaks_loop.simps aret_def)
next
  case (Cons x xs)
  then obtain r where r: "a = x" "x \<noteq> 0" "recs s x = Some r" "dseg (recs s) x (mr_next r) xs 0" by auto
  let ?s1 = "s\<lparr>reports := reports s @ [leak_of r]\<rparr>"
  have "dseg (recs ?s1) x (mr_next r) xs 0" using r(4) by simp
  from Cons.IH [OF this] have "awp (abind (aseq (cn_record_verify_guards lib x) (cn_memory_warn (leak_of r)))
      (\<lambda>_. dump_leaks_loop lib (mr_next r))) corruption
      (\<lambda>_ s'. s' = s\<lparr>reports := reports s @ map leak_of (view (recs s) (x # xs))\<rparr>) s"
    using r by (simp add: awp_bind awp_verify_guards awp_warn)
  then show ?case unfolding r(1) awp_def dump_step [where lib = lib, OF r(2,3)] .
qed

section \<open>The release\<close>

text \<open>The bases of the blocks of a list of records, and what the release of the list needs.\<close>

definition releasable :: "mem_state \<Rightarrow> addr list \<Rightarrow> bool" where
  "releasable s xs \<longleftrightarrow> distinct xs \<and> inj_on (base_of (recs s)) (set xs) \<and> base_of (recs s) ` set xs \<inter> set xs = {}
     \<and> base_of (recs s) ` set xs \<union> set xs \<subseteq> fst ` set (sys_blocks s) \<and> 0 \<notin> base_of (recs s) ` set xs"

definition checks :: "(addr \<Rightarrow> unit am) \<Rightarrow> bool" where
  "checks verify \<longleftrightarrow> (\<forall>a s r. recs s a = Some r \<longrightarrow>
     verify a s = Some (Inr ((), s)) \<or> (\<exists>e. verify a s = Some (Inl e) \<and> corruption e))"

lemma checks_verify: "checks (cn_record_verify_guards lib)" "checks (cn_record_verify_quarantine lib)"
  unfolding checks_def
  by (auto simp: cn_record_verify_quarantine_def cn_record_verify_guards_def am_defs cn_memory_fail_code_def corruption_def)

lemma free_block: "a \<noteq> 0 \<Longrightarrow> a \<in> fst ` set (sys_blocks s) \<Longrightarrow>
    awp (c_free a) E Q s = Q () (s\<lparr>sys_blocks := filter (\<lambda>b. fst b \<noteq> a) (sys_blocks s)\<rparr>)"
  by (simp add: awp_def c_free_def)

lemma awp_amod: "awp (amod f) E Q s = Q () (f s)"
  by (simp add: awp_def amod_def)

lemma fst_filter: "fst ` {b \<in> set bs. fst b \<noteq> a} = fst ` set bs - {a}"
  "fst ` {b \<in> set bs. fst b \<noteq> a \<and> fst b \<noteq> c} = fst ` set bs - {a, c}"
  by auto

lemma release_step:
  assumes "recs s x = Some r" and "x \<noteq> 0" and "mr_base_ptr r \<noteq> 0" and "mr_base_ptr r \<noteq> x"
    and "{mr_base_ptr r, x} \<subseteq> fst ` set (sys_blocks s)"
  shows "awp (cn_record_release_storage x) E
    (\<lambda>_ s'. fst ` set (sys_blocks s') = fst ` set (sys_blocks s) - {mr_base_ptr r, x} \<and> recs s' = (recs s)(x := None)
       \<and> tables s' = tables s \<and> alloc s' = alloc s \<and> reports s' = reports s) s"
proof -
  let ?s = "s\<lparr>sys_blocks := filter (\<lambda>b. fst b \<noteq> mr_base_ptr r) (sys_blocks s)\<rparr>"
  have "x \<in> fst ` set (sys_blocks ?s)" using assms(4,5) by (simp add: fst_filter)
  then show ?thesis
    using assms by (simp add: cn_record_release_storage_def awp_bind awp_recs free_block awp_amod fst_filter)
qed

lemma destroy_step:
  assumes "a \<noteq> 0" and "recs s a = Some r"
  shows "destroy_list verify a s = abind (aseq (verify a) (cn_record_release_storage a)) (\<lambda>_. destroy_list verify (mr_next r)) s"
  using assms by (subst destroy_list.simps) (simp add: abind_def split: option.splits sum.splits)

lemma awp_check:
  assumes "checks verify" and "recs s a = Some r" and "awp m corruption Q s"
  shows "awp (aseq (verify a) m) corruption Q s"
  using assms unfolding checks_def awp_bind by (fastforce simp: awp_def)

lemma release_sets:
  assumes "insert b B \<inter> insert x R = {}" and "insert b B \<union> insert x R \<subseteq> A" and "b \<notin> B" and "x \<notin> R"
  shows "B \<inter> R = {}" and "B \<union> R \<subseteq> A - {b, x}"
  using assms by blast+

lemma releasable_tail:
  assumes "releasable s (x # xs)" and "recs s1 = (recs s)(x := None)"
    and "fst ` set (sys_blocks s1) = fst ` set (sys_blocks s) - {base_of (recs s) x, x}"
  shows "releasable s1 xs" and "base_of (recs s1) ` set xs = base_of (recs s) ` set xs"
proof -
  have x: "x \<notin> set xs" using assms(1) by (simp add: releasable_def)
  show b: "base_of (recs s1) ` set xs = base_of (recs s) ` set xs"
    by (rule image_cong) (use x assms(2) in \<open>auto simp: base_of_def\<close>)
  have "inj_on (base_of (recs s1)) (set xs) = inj_on (base_of (recs s)) (set xs)"
    by (rule inj_on_cong) (use x assms(2) in \<open>auto simp: base_of_def\<close>)
  with assms(1) x release_sets [of "base_of (recs s) x" "base_of (recs s) ` set xs" x "set xs"]
  show "releasable s1 xs" unfolding releasable_def b assms(3) by simp
qed

lemma destroy_list_spec:
  assumes "checks verify"
  shows "dseg (recs s) q a xs 0 \<Longrightarrow> releasable s xs \<Longrightarrow>
    awp (destroy_list verify a) corruption
      (\<lambda>_ s'. fst ` set (sys_blocks s') = fst ` set (sys_blocks s) - (base_of (recs s) ` set xs \<union> set xs)
         \<and> (\<forall>y. y \<notin> set xs \<longrightarrow> recs s' y = recs s y) \<and> tables s' = tables s \<and> alloc s' = alloc s \<and> reports s' = reports s) s"
proof (induction xs arbitrary: q a s)
  case Nil
  then show ?case by (simp add: awp_def destroy_list.simps aret_def)
next
  case (Cons x xs)
  then obtain r where r: "a = x" "x \<noteq> 0" "recs s x = Some r" "dseg (recs s) x (mr_next r) xs 0" by auto
  have b: "base_of (recs s) x = mr_base_ptr r" using r(3) by (simp add: base_of_def)
  have x: "x \<notin> set xs" "mr_base_ptr r \<noteq> 0" "mr_base_ptr r \<noteq> x" "{mr_base_ptr r, x} \<subseteq> fst ` set (sys_blocks s)"
    using Cons.prems(2) b unfolding releasable_def by auto
  let ?Q = "\<lambda>_ s'. fst ` set (sys_blocks s') = fst ` set (sys_blocks s) - (base_of (recs s) ` set (x # xs) \<union> set (x # xs))
         \<and> (\<forall>y. y \<notin> set (x # xs) \<longrightarrow> recs s' y = recs s y) \<and> tables s' = tables s \<and> alloc s' = alloc s \<and> reports s' = reports s"
  have tl: "awp (destroy_list verify (mr_next r)) corruption ?Q s1"
    if s1: "fst ` set (sys_blocks s1) = fst ` set (sys_blocks s) - {mr_base_ptr r, x}" "recs s1 = (recs s)(x := None)"
      "tables s1 = tables s" "alloc s1 = alloc s" "reports s1 = reports s" for s1
  proof -
    have d: "dseg (recs s1) x (mr_next r) xs 0"
      using r(4) dseg_same [of xs "recs s" "recs s1"] x(1) s1(2) by (simp add: same_def)
    note R = releasable_tail [OF Cons.prems(2) s1(2) s1(1) [folded b]]
    show ?thesis
      by (rule awp_mono [OF Cons.IH [OF d R(1), unfolded R(2)]]) (use s1 b in auto)
  qed
  have "awp (abind (aseq (verify x) (cn_record_release_storage x)) (\<lambda>_. destroy_list verify (mr_next r))) corruption ?Q s"
    unfolding awp_bind [of "aseq (verify x) (cn_record_release_storage x)"]
    by (rule awp_check [OF assms r(3)], rule awp_mono [OF release_step [OF r(3,2) x(2-4)]]) (use tl in auto)
  then show ?case unfolding r(1) awp_def destroy_step [where verify = verify, OF r(2,3)] .
qed

lemma shape_releasable:
  assumes "shape lib {} s LL"
  shows "releasable s (LL w)" and "(base_of (recs s) ` set (LL Live) \<union> set (LL Live)) \<inter> (base_of (recs s) ` set (LL Freed) \<union> set (LL Freed)) = {}"
    and "(base_of (recs s) ` all_of LL \<union> all_of LL) \<inter> bucket_arrays (alloc s) = {}" and "bucket_arrays (alloc s) \<subseteq> fst ` set (sys_blocks s)"
proof -
  have bk: "blocks_ok {} s LL" and ro: "records_ok lib (recs s) (all_of LL)" and d: "distinct (LL Live @ LL Freed)"
    using assms by (simp_all add: shape_def)
  note D = blocks_okD [OF bk] and inj = records_ok_base [OF ro]
  have sub: "set (LL w) \<subseteq> all_of LL" for w by (rule set_all)
  have dw: "distinct (LL w)" using d by (cases w) auto
  show "releasable s (LL w)"
    unfolding releasable_def using dw inj_on_subset [OF inj sub] D(1,5,7) sub by blast
  show "(base_of (recs s) ` set (LL Live) \<union> set (LL Live)) \<inter> (base_of (recs s) ` set (LL Freed) \<union> set (LL Freed)) = {}"
  proof -
    have "set (LL Live) \<inter> set (LL Freed) = {}" using d by simp
    moreover from this have "base_of (recs s) ` set (LL Live) \<inter> base_of (recs s) ` set (LL Freed) = {}"
      using inj_on_image_Int [OF inj sub [of Live] sub [of Freed]] by simp
    ultimately show ?thesis using D(1) sub [of Live] sub [of Freed] by blast
  qed
  show "(base_of (recs s) ` all_of LL \<union> all_of LL) \<inter> bucket_arrays (alloc s) = {}" using D(2,3) by blast
  show "bucket_arrays (alloc s) \<subseteq> fst ` set (sys_blocks s)" using D(7) by blast
qed

lemma free_table_spec:
  assumes "t = 0 \<or> t \<in> fst ` set (sys_blocks s)"
  shows "awp (free_table t) E
    (\<lambda>_ s'. fst ` set (sys_blocks s) - {t} \<subseteq> fst ` set (sys_blocks s') \<and> alloc s' = alloc s \<and> reports s' = reports s) s"
  using assms by (auto simp: free_table_def awp_def abind_def c_free_def amod_def)

text \<open>The blocks of the C heap that belong to a list, and the end of the release.\<close>

definition owned :: "mem_state \<Rightarrow> addr list \<Rightarrow> addr set" where
  "owned s xs = base_of (recs s) ` set xs \<union> set xs"

lemma destroy_freed:
  assumes sh: "shape lib {} s LL" and s1: "fst ` set (sys_blocks s1) = fst ` set (sys_blocks s) - owned s (LL Live)"
      "\<forall>y. y \<notin> set (LL Live) \<longrightarrow> recs s1 y = recs s y" "alloc s1 = alloc s" "reports s1 = reports s"
  shows "awp (destroy_list (cn_record_verify_quarantine lib) (al_freed_head (alloc s))) corruption
      (\<lambda>_ s2. fst ` set (sys_blocks s2) = fst ` set (sys_blocks s) - owned s (LL Live) - owned s (LL Freed)
         \<and> alloc s2 = alloc s \<and> reports s2 = reports s) s1"
proof -
  note R = shape_releasable [OF sh]
  have eq: "recs s1 y = recs s y" if "y \<in> set (LL Freed)" for y
    using s1(2) sh that by (auto simp: shape_def)
  have b: "base_of (recs s1) ` set (LL Freed) = base_of (recs s) ` set (LL Freed)"
    by (rule image_cong) (use eq in \<open>auto simp: base_of_def\<close>)
  have i: "inj_on (base_of (recs s1)) (set (LL Freed)) = inj_on (base_of (recs s)) (set (LL Freed))"
    by (rule inj_on_cong) (use eq in \<open>auto simp: base_of_def\<close>)
  have "dlist (recs s) (head_of Freed (alloc s)) (LL Freed)" using sh by (simp only: shape_def)
  then have d: "dseg (recs s1) 0 (al_freed_head (alloc s)) (LL Freed) 0"
    using dseg_same [of "LL Freed" "recs s" "recs s1"] eq by (simp add: same_def head_of_def)
  have "owned s (LL Freed) \<subseteq> fst ` set (sys_blocks s) - owned s (LL Live)"
    using R(1) [of Freed] R(2) unfolding releasable_def owned_def by blast
  then have r: "releasable s1 (LL Freed)" using R(1) [of Freed] s1(1) unfolding releasable_def owned_def b i by simp
  show ?thesis
    by (rule awp_mono [OF destroy_list_spec [OF checks_verify(2) d r, unfolded b]]) (use s1 in \<open>auto simp: owned_def\<close>)
qed

lemma destroy_tables:
  assumes sh: "shape lib {} s LL"
    and s1: "fst ` set (sys_blocks s1) = fst ` set (sys_blocks s) - owned s (LL Live) - owned s (LL Freed)"
  shows "awp (aseq (free_table (al_buckets (alloc s))) (free_table (al_freed_buckets (alloc s)))) E
      (\<lambda>_ s2. alloc s2 = alloc s1 \<and> reports s2 = reports s1) s1"
  unfolding awp_bind
proof (rule awp_mono [OF free_table_spec])
  let ?t = "al_buckets (alloc s)" and ?f = "al_freed_buckets (alloc s)"
  have T: "t \<in> fst ` set (sys_blocks s1)" if "t \<in> bucket_arrays (alloc s)" for t
    using shape_releasable(3,4) [OF sh] that unfolding s1 all_of_def image_Un owned_def by blast
  then show "?t = 0 \<or> ?t \<in> fst ` set (sys_blocks s1)" by (auto simp: bucket_arrays_def)
  fix u :: unit and s2 :: mem_state
  assume s2: "fst ` set (sys_blocks s1) - {?t} \<subseteq> fst ` set (sys_blocks s2) \<and> alloc s2 = alloc s1 \<and> reports s2 = reports s1"
  have "?f = 0 \<or> ?f \<noteq> ?t" using sh by (auto simp: shape_def blocks_ok_def Let_def)
  then have "?f = 0 \<or> ?f \<in> fst ` set (sys_blocks s2)" using T [of ?f] s2 unfolding bucket_arrays_def by blast
  from free_table_spec [OF this] show "awp (free_table ?f) E (\<lambda>_ s2. alloc s2 = alloc s1 \<and> reports s2 = reports s1) s2"
    by (rule awp_mono) (use s2 in auto)
qed simp

lemma destroy_spec:
  assumes inv: "mem_inv lib s LL"
  shows "awp (cn_allocator_destroy lib) corruption (\<lambda>_ s'. represents lib s' [] [] \<and> reports s' = reports s) s"
proof -
  let ?al = "alloc s"
  let ?Q = "\<lambda>_ s'. represents lib s' [] [] \<and> reports s' = reports s"
  let ?z = "\<lambda>al. al\<lparr>al_buckets := 0, al_freed_buckets := 0, al_bucket_capacity := 0, al_freed_bucket_capacity := 0,
      al_live_blocks := 0, al_live_bytes := 0, al_quarantine_blocks := 0, al_quarantine_bytes := 0\<rparr>"
  let ?h = "\<lambda>al. al\<lparr>al_head := 0, al_freed_head := 0, al_freed_tail := 0\<rparr>"
  let ?fin = "\<lambda>_. awp (alloc_mod ?h) corruption (\<lambda>_. awp (free_table (al_buckets ?al)) corruption
      (\<lambda>_. awp (free_table (al_freed_buckets ?al)) corruption (\<lambda>_. awp (alloc_mod ?z) corruption ?Q)))"
  have sh: "shape lib {} s LL" using inv by (simp add: mem_inv_def)
  have "dlist (recs s) (head_of Live ?al) (LL Live)" using sh by (simp only: shape_def)
  then have dl: "dseg (recs s) 0 (al_head ?al) (LL Live) 0" by (simp add: head_of_def)
  have tabs: "?fin u s2" if s2: "fst ` set (sys_blocks s2) = fst ` set (sys_blocks s) - owned s (LL Live) - owned s (LL Freed)"
      "alloc s2 = ?al" "reports s2 = reports s" for u :: unit and s2
  proof -
    let ?s3 = "s2\<lparr>alloc := ?h ?al\<rparr>"
    have "awp (aseq (free_table (al_buckets ?al)) (free_table (al_freed_buckets ?al))) corruption (\<lambda>_. awp (alloc_mod ?z) corruption ?Q) ?s3"
      by (rule awp_mono [OF destroy_tables [OF sh]]) (use s2 in \<open>auto simp: awp_alloc_fun empty_represents\<close>)
    with s2(2) show ?thesis by (simp add: awp_alloc_fun awp_bind_fun)
  qed
  have "awp (destroy_list (cn_record_verify_guards lib) (al_head ?al)) corruption
      (\<lambda>_ s1. awp (destroy_list (cn_record_verify_quarantine lib) (al_freed_head ?al)) corruption ?fin s1) s"
  proof (rule awp_mono [OF destroy_list_spec [OF checks_verify(1) dl shape_releasable(1) [OF sh]]], elim conjE)
    fix u :: unit and s1 :: mem_state
    assume "fst ` set (sys_blocks s1) = fst ` set (sys_blocks s) - (base_of (recs s) ` set (LL Live) \<union> set (LL Live))"
      and s1: "\<forall>y. y \<notin> set (LL Live) \<longrightarrow> recs s1 y = recs s y" "alloc s1 = ?al" "reports s1 = reports s"
    from destroy_freed [OF sh this(1) [folded owned_def] s1]
    show "awp (destroy_list (cn_record_verify_quarantine lib) (al_freed_head ?al)) corruption ?fin s1"
      by (rule awp_mono) (use tabs in auto)
  qed simp
  then show ?thesis by (simp only: cn_allocator_destroy_def awp_bind_fun awp_aget_fun)
qed


section \<open>Properties of runs\<close>

lemma evict_within: "\<not> over_limit (evict_blocks bs)"
proof (induction bs rule: evict_blocks.induct)
  case (1 bs)
  then show ?case by (subst evict_blocks.simps) (auto simp: over_limit_def)
qed

lemma abs_step_within: "abs_step lib op a r a' \<Longrightarrow> \<not> over_limit (snd a) \<Longrightarrow> \<not> over_limit (snd a')"
  using evict_within
  by (auto simp: abs_step_def adds_block_def moves_block_def free_quarantine_def split: mem_op.splits if_splits option.splits)

lemma abs_run_within: "abs_run (abs_step lib) ops a rs a' \<Longrightarrow> \<not> over_limit (snd a) \<Longrightarrow> \<not> over_limit (snd a')"
  by (induction "abs_step lib" ops a rs a' rule: abs_run.induct) (use abs_step_within in auto)




end
