(* ===== verification/Name_Map.thy ===== *)
theory Name_Map
  imports Common "HOL-Library.Monad_Syntax"
begin

text \<open>
  The name tables of the checker, \<open>src/sema/typecheck.c\<close>: hash tables with open addressing and
  linear probing. A key is the text that a string view shows; a value is a pointer that may be
  null; an array that the allocator gives is zeroed. A probe that never ends has no value. That the
  tables behave as finite maps is stated as a locale, so that their clients rest on that alone.
\<close>

unbundle bit_operations_syntax

section \<open>Tables\<close>

record 'v cn_name_map_entry =
  ne_key :: string
  ne_value :: "'v option"
  ne_index :: nat
  ne_occupied :: bool

record 'v cn_name_map =
  nm_entries :: "'v cn_name_map_entry list"
  nm_capacity :: nat
  nm_count :: nat

definition zero_entry :: "'v cn_name_map_entry" where
  "zero_entry = \<lparr>ne_key = [], ne_value = None, ne_index = 0, ne_occupied = False\<rparr>"

definition zero_map :: "'v cn_name_map" where
  "zero_map = \<lparr>nm_entries = [], nm_capacity = 0, nm_count = 0\<rparr>"

definition cn_name_eq :: "string \<Rightarrow> string \<Rightarrow> bool" where
  "cn_name_eq left right = cn_sv_eq (cn_sv_from_cstr left) (cn_sv_from_cstr right)"

definition cn_name_map_next_capacity :: "nat \<Rightarrow> nat" where
  "cn_name_map_next_capacity required = cn_double_until 16 required"

definition name_slot :: "nat \<Rightarrow> string \<Rightarrow> nat" where
  "name_slot cap key = unat (cn_sv_hash (cn_sv_from_cstr key) AND of_nat (cap - 1))"

text \<open>The loop of \<open>cn_name_map_find_slot\<close>; the answer is the index of the slot.\<close>

partial_function (option) find_slot_from :: "'v cn_name_map_entry list \<Rightarrow> nat \<Rightarrow> string \<Rightarrow> nat \<Rightarrow> nat option" where
  "find_slot_from entries msk key index =
     (if index < length entries then
        if ne_occupied (entries ! index) \<and> \<not> cn_name_eq (ne_key (entries ! index)) key
        then find_slot_from entries msk key ((index + 1) AND msk)
        else Some index
      else None)"

definition cn_name_map_find_slot :: "'v cn_name_map_entry list \<Rightarrow> nat \<Rightarrow> string \<Rightarrow> nat option" where
  "cn_name_map_find_slot entries cap key = find_slot_from entries (cap - 1) key (name_slot cap key)"

text \<open>The loop that moves the entries to a new array.\<close>

definition move_entry :: "nat \<Rightarrow> 'v cn_name_map_entry \<Rightarrow> 'v cn_name_map_entry list \<Rightarrow> 'v cn_name_map_entry list option" where
  "move_entry cap e new =
     (if \<not> ne_occupied e then Some new
      else do { slot \<leftarrow> cn_name_map_find_slot new cap (ne_key e); Some (new[slot := e]) })"

fun move_entries :: "nat \<Rightarrow> 'v cn_name_map_entry list \<Rightarrow> 'v cn_name_map_entry list \<Rightarrow> 'v cn_name_map_entry list option" where
  "move_entries cap [] new = Some new"
| "move_entries cap (e # es) new = do { new' \<leftarrow> move_entry cap e new; move_entries cap es new' }"

definition cn_name_map_reserve :: "'v cn_name_map \<Rightarrow> nat \<Rightarrow> 'v cn_name_map option" where
  "cn_name_map_reserve m required =
     (if nm_capacity m \<ge> required then Some m
      else
        let new_capacity = cn_name_map_next_capacity required in
        do { new \<leftarrow> move_entries new_capacity (take (nm_capacity m) (nm_entries m)) (replicate new_capacity zero_entry);
             Some (m\<lparr>nm_entries := new, nm_capacity := new_capacity\<rparr>) })"

definition cn_name_map_insert :: "'v cn_name_map \<Rightarrow> string \<Rightarrow> 'v option \<Rightarrow> nat \<Rightarrow> bool \<Rightarrow> (bool \<times> 'v cn_name_map) option" where
  "cn_name_map_insert m key v index replace =
     (let required = if nm_capacity m = 0 then 16 else nm_capacity m;
          required = if (nm_count m + 1) * 10 \<ge> required * 7 then required * 2 else required
      in do {
        m \<leftarrow> cn_name_map_reserve m required;
        slot \<leftarrow> cn_name_map_find_slot (nm_entries m) (nm_capacity m) key;
        let e = nm_entries m ! slot in
        if ne_occupied e \<and> \<not> replace then Some (False, m)
        else
          let e' = if ne_occupied e then e else e\<lparr>ne_occupied := True, ne_key := key\<rparr>;
              n = if ne_occupied e then nm_count m else nm_count m + 1
          in Some (True, m\<lparr>nm_count := n, nm_entries := (nm_entries m)[slot := e'\<lparr>ne_value := v, ne_index := index\<rparr>]\<rparr>) })"

text \<open>The loop of \<open>cn_name_map_lookup_entry\<close>; \<open>Some None\<close> is its null pointer.\<close>

partial_function (option) lookup_from ::
  "'v cn_name_map_entry list \<Rightarrow> nat \<Rightarrow> string \<Rightarrow> nat \<Rightarrow> 'v cn_name_map_entry option option" where
  "lookup_from entries msk key index =
     (if index < length entries then
        if ne_occupied (entries ! index) then
          if cn_name_eq (ne_key (entries ! index)) key then Some (Some (entries ! index))
          else lookup_from entries msk key ((index + 1) AND msk)
        else Some None
      else None)"

declare find_slot_from.simps [code] lookup_from.simps [code]

definition cn_name_map_lookup_entry :: "'v cn_name_map \<Rightarrow> string \<Rightarrow> 'v cn_name_map_entry option option" where
  "cn_name_map_lookup_entry m key =
     (if nm_capacity m = 0 then Some None
      else lookup_from (nm_entries m) (nm_capacity m - 1) key (name_slot (nm_capacity m) key))"

definition cn_name_map_lookup_value :: "'v cn_name_map \<Rightarrow> string \<Rightarrow> 'v option option" where
  "cn_name_map_lookup_value m key =
     do { e \<leftarrow> cn_name_map_lookup_entry m key; Some (case e of None \<Rightarrow> None | Some e \<Rightarrow> ne_value e) }"

definition cn_name_map_lookup_index :: "'v cn_name_map \<Rightarrow> string \<Rightarrow> nat option option" where
  "cn_name_map_lookup_index m key =
     do { e \<leftarrow> cn_name_map_lookup_entry m key; Some (map_option ne_index e) }"

definition cn_name_map_release :: "'v cn_name_map \<Rightarrow> 'v cn_name_map" where
  "cn_name_map_release m = m\<lparr>nm_entries := [], nm_capacity := 0, nm_count := 0\<rparr>"

section \<open>Probing\<close>

lemma cn_name_eq_iff [simp]: "cn_name_eq l r \<longleftrightarrow> l = r"
  by (simp add: cn_name_eq_def cn_sv_eq_iff)

lemma and_mask_mod: "(n :: nat) AND (2 ^ k - 1) = n mod 2 ^ k"
proof -
  have "n AND (2 ^ k - 1) = take_bit k n" by (simp only: take_bit_eq_mask mask_eq_exp_minus_1)
  then show ?thesis by (simp only: take_bit_eq_mod)
qed

lemma name_slot_less:
  assumes "0 < cap"
  shows "name_slot cap key < cap"
proof -
  let ?h = "cn_sv_hash (cn_sv_from_cstr key)" and ?m = "word_of_nat (cap - 1) :: 64 word"
  have "?h AND ?m \<le> ?m" by (rule word_and_le1)
  then have "unat (?h AND ?m) \<le> unat ?m" by (simp only: word_le_nat_alt)
  moreover have "unat ?m \<le> cap - 1" unfolding unat_of_nat by (rule mod_less_eq_dividend)
  ultimately show ?thesis using assms unfolding name_slot_def by linarith
qed

text \<open>A probe stops at a slot that is free or that holds the key.\<close>

definition stops :: "'v cn_name_map_entry list \<Rightarrow> string \<Rightarrow> nat \<Rightarrow> bool" where
  "stops es key i \<longleftrightarrow> \<not> ne_occupied (es ! i) \<or> ne_key (es ! i) = key"

lemma find_from_spec:
  assumes "length es = 2 ^ k"
  shows "stops es key ((h + n) mod 2 ^ k) \<Longrightarrow> \<forall>d < n. \<not> stops es key ((h + d) mod 2 ^ k) \<Longrightarrow>
    find_slot_from es (2 ^ k - 1) key (h mod 2 ^ k) = Some ((h + n) mod 2 ^ k)"
proof (induction n arbitrary: h)
  case 0
  then show ?case using assms by (subst find_slot_from.simps) (auto simp: stops_def)
next
  case (Suc n)
  from Suc.prems(2) have "\<not> stops es key (h mod 2 ^ k)" by (metis add_0_right zero_less_Suc)
  moreover have "find_slot_from es (2 ^ k - 1) key ((h + 1) mod 2 ^ k) = Some ((h + 1 + n) mod 2 ^ k)"
    using Suc.prems by (intro Suc.IH) (auto simp: add.assoc)
  moreover have "(h mod 2 ^ k + 1) AND (2 ^ k - 1) = (h + 1) mod 2 ^ k" by (simp only: and_mask_mod mod_add_left_eq)
  ultimately show ?case using assms by (subst find_slot_from.simps) (simp add: stops_def)
qed

lemma lookup_from_find:
  assumes "length es = 2 ^ k"
  shows "stops es key ((h + n) mod 2 ^ k) \<Longrightarrow> \<forall>d < n. \<not> stops es key ((h + d) mod 2 ^ k) \<Longrightarrow>
    lookup_from es (2 ^ k - 1) key (h mod 2 ^ k) =
      Some (let e = es ! ((h + n) mod 2 ^ k) in if ne_occupied e then Some e else None)"
proof (induction n arbitrary: h)
  case 0
  then show ?case using assms by (subst lookup_from.simps) (auto simp: stops_def)
next
  case (Suc n)
  from Suc.prems(2) have "\<not> stops es key (h mod 2 ^ k)" by (metis add_0_right zero_less_Suc)
  moreover have "lookup_from es (2 ^ k - 1) key ((h + 1) mod 2 ^ k) =
      Some (let e = es ! ((h + 1 + n) mod 2 ^ k) in if ne_occupied e then Some e else None)"
    using Suc.prems by (intro Suc.IH) (auto simp: add.assoc)
  moreover have "(h mod 2 ^ k + 1) AND (2 ^ k - 1) = (h + 1) mod 2 ^ k" by (simp only: and_mask_mod mod_add_left_eq)
  ultimately show ?case using assms by (subst lookup_from.simps) (simp add: stops_def)
qed

section \<open>The invariant of an array of entries\<close>

text \<open>
  Every occupied slot is where the probe for its key arrives: all slots between the one that its key hashes to and it are
  occupied by other keys.
\<close>

definition placed_at :: "'v cn_name_map_entry list \<Rightarrow> string \<Rightarrow> nat \<Rightarrow> bool" where
  "placed_at es key i \<longleftrightarrow> (\<exists>n. i = (name_slot (length es) key + n) mod length es
     \<and> (\<forall>d < n. \<not> stops es key ((name_slot (length es) key + d) mod length es)))"

definition probes_ok :: "'v cn_name_map_entry list \<Rightarrow> bool" where
  "probes_ok es \<longleftrightarrow> (\<forall>i < length es. ne_occupied (es ! i) \<longrightarrow> placed_at es (ne_key (es ! i)) i)"

definition used :: "'v cn_name_map_entry list \<Rightarrow> nat" where
  "used es = length (filter ne_occupied es)"

definition entry_map :: "'v cn_name_map_entry list \<Rightarrow> string \<Rightarrow> ('v option \<times> nat) option" where
  "entry_map es key = map_option (\<lambda>e. (ne_value e, ne_index e)) (find (\<lambda>e. ne_occupied e \<and> ne_key e = key) es)"

lemma placed_unique:
  assumes "placed_at es key i" and "placed_at es key j" and "stops es key i" and "stops es key j"
  shows "i = j"
proof -
  let ?h = "name_slot (length es) key"
  from assms(1) obtain m where m: "i = (?h + m) mod length es" "\<forall>d < m. \<not> stops es key ((?h + d) mod length es)"
    by (auto simp: placed_at_def)
  from assms(2) obtain n where n: "j = (?h + n) mod length es" "\<forall>d < n. \<not> stops es key ((?h + d) mod length es)"
    by (auto simp: placed_at_def)
  have "\<not> m < n" "\<not> n < m" using m n assms(3,4) by blast+
  then have "m = n" by simp
  with m n show ?thesis by simp
qed

lemma key_unique:
  assumes "probes_ok es" and "i < length es" "j < length es" and "ne_occupied (es ! i)" "ne_occupied (es ! j)"
    and "ne_key (es ! i) = ne_key (es ! j)"
  shows "i = j"
proof (rule placed_unique)
  show "placed_at es (ne_key (es ! i)) i" "placed_at es (ne_key (es ! i)) j"
    using assms unfolding probes_ok_def by metis+
qed (simp_all add: stops_def assms(6))

lemma entry_map_hit:
  assumes "probes_ok es" and "i < length es" and "ne_occupied (es ! i)"
  shows "entry_map es (ne_key (es ! i)) = Some (ne_value (es ! i), ne_index (es ! i))"
proof -
  let ?P = "\<lambda>e. ne_occupied e \<and> ne_key e = ne_key (es ! i)"
  have "es ! i \<in> set es" using assms(2) by (rule nth_mem)
  then have "find ?P es \<noteq> None" unfolding find_None_iff using assms(3) by blast
  then obtain e where f: "find ?P es = Some e" by blast
  then obtain j where "j < length es" "e = es ! j" "?P (es ! j)" by (auto simp: find_Some_iff)
  with key_unique [OF assms(1,2), of j] assms(3) have "e = es ! i" by metis
  with f show ?thesis by (simp add: entry_map_def)
qed

lemma entry_map_miss: "(\<forall>i < length es. ne_occupied (es ! i) \<longrightarrow> ne_key (es ! i) \<noteq> key) \<Longrightarrow> entry_map es key = None"
  by (auto simp: entry_map_def find_None_iff in_set_conv_nth)

lemma free_slot: "used es < length es \<Longrightarrow> \<exists>i < length es. \<not> ne_occupied (es ! i)"
proof (rule ccontr)
  assume "used es < length es" "\<not> (\<exists>i < length es. \<not> ne_occupied (es ! i))"
  then have "filter ne_occupied es = es" by (auto simp: filter_id_conv in_set_conv_nth)
  with \<open>used es < length es\<close> show False by (simp add: used_def)
qed

text \<open>The first stop of the probe for a key.\<close>

lemma first_stop:
  assumes "used es < length es" and "h < length es"
  obtains n where "stops es key ((h + n) mod length es)" and "\<forall>d < n. \<not> stops es key ((h + d) mod length es)"
proof -
  from free_slot [OF assms(1)] obtain i where i: "i < length es" "\<not> ne_occupied (es ! i)" by blast
  have "(h + (length es + i - h)) mod length es = i" using i(1) assms(2) by simp
  with i have "\<exists>n. stops es key ((h + n) mod length es)" by (metis stops_def)
  from that [OF LeastI_ex [OF this]] show ?thesis using not_less_Least by blast
qed

lemma find_slot_spec:
  assumes "length es = 2 ^ k" and "used es < length es"
  obtains i where "cn_name_map_find_slot es (length es) key = Some i" and "i < length es" and "stops es key i" and "placed_at es key i"
proof -
  let ?h = "name_slot (length es) key"
  have pos: "0 < length es" using assms(2) by linarith
  note h = name_slot_less [OF pos, of key]
  obtain n where n: "stops es key ((?h + n) mod length es)" "\<forall>d < n. \<not> stops es key ((?h + d) mod length es)"
    by (rule first_stop [OF assms(2) h])
  have "?h mod 2 ^ k = ?h" using h assms(1) by simp
  with find_from_spec [OF assms(1), of key ?h n] n assms(1)
  have "cn_name_map_find_slot es (length es) key = Some ((?h + n) mod length es)"
    by (simp add: cn_name_map_find_slot_def)
  moreover have "placed_at es key ((?h + n) mod length es)" using n(2) unfolding placed_at_def by blast
  ultimately show ?thesis using that n(1) pos by simp
qed

lemma stop_map:
  assumes "probes_ok es" and "i < length es" and "stops es key i" and "placed_at es key i"
  shows "entry_map es key = (if ne_occupied (es ! i) then Some (ne_value (es ! i), ne_index (es ! i)) else None)"
proof (cases "ne_occupied (es ! i)")
  case True
  with assms(3) entry_map_hit [OF assms(1,2) True] show ?thesis by (simp add: stops_def)
next
  case False
  have "ne_key (es ! j) \<noteq> key" if j: "j < length es" "ne_occupied (es ! j)" for j
  proof
    assume k: "ne_key (es ! j) = key"
    have "placed_at es key j" using assms(1) j k unfolding probes_ok_def by blast
    then have "i = j" using placed_unique [OF assms(4) _ assms(3)] k by (simp add: stops_def)
    with False j show False by simp
  qed
  with False entry_map_miss [of es key] show ?thesis by simp
qed

text \<open>Storing an entry at the slot that was found.\<close>

lemma store_stops:
  assumes "i < length es" and "stops es (ne_key e) i" and "ne_occupied e"
  shows "j \<noteq> i \<Longrightarrow> stops (es[i := e]) k j = stops es k j"
    and "\<not> stops es k i \<Longrightarrow> \<not> stops (es[i := e]) k i"
  using assms by (auto simp: stops_def)

lemma placed_store:
  assumes "i < length es" and "stops es (ne_key e) i" and "ne_occupied e" and "placed_at es k j"
  shows "placed_at (es[i := e]) k j"
proof -
  have "\<not> stops (es[i := e]) k l" if "\<not> stops es k l" for l
    using store_stops [OF assms(1-3)] that by (cases "l = i") auto
  then show ?thesis using assms(4) unfolding placed_at_def length_list_update by blast
qed

lemma probes_store:
  assumes "probes_ok es" and "i < length es" and "stops es (ne_key e) i" and "placed_at es (ne_key e) i" and "ne_occupied e"
  shows "probes_ok (es[i := e])"
  unfolding probes_ok_def length_list_update
proof (intro allI impI)
  fix j assume j: "j < length es" "ne_occupied (es[i := e] ! j)"
  show "placed_at (es[i := e]) (ne_key (es[i := e] ! j)) j"
  proof (cases "j = i")
    case True
    with placed_store [OF assms(2,3,5,4)] j show ?thesis by simp
  next
    case False
    with j assms(1) have "placed_at es (ne_key (es ! j)) j" by (simp add: probes_ok_def)
    from placed_store [OF assms(2,3,5) this] False show ?thesis by simp
  qed
qed

lemma map_store:
  assumes "probes_ok es" and "i < length es" and "stops es (ne_key e) i" and "placed_at es (ne_key e) i" and "ne_occupied e"
  shows "entry_map (es[i := e]) = (entry_map es)(ne_key e \<mapsto> (ne_value e, ne_index e))"
proof
  fix k
  let ?es = "es[i := e]"
  note ok = probes_store [OF assms]
  show "entry_map ?es k = ((entry_map es)(ne_key e \<mapsto> (ne_value e, ne_index e))) k"
  proof (cases "k = ne_key e")
    case True
    with entry_map_hit [OF ok, of i] assms show ?thesis by simp
  next
    case k: False
    show ?thesis
    proof (cases "\<exists>j < length es. ne_occupied (es ! j) \<and> ne_key (es ! j) = k")
      case True
      then obtain j where j: "j < length es" "ne_occupied (es ! j)" "ne_key (es ! j) = k" by blast
      then have "j \<noteq> i" using k assms(3) by (auto simp: stops_def)
      with entry_map_hit [OF ok, of j] entry_map_hit [OF assms(1) j(1,2)] j k show ?thesis by simp
    next
      case False
      then have "entry_map es k = None" by (intro entry_map_miss) blast
      moreover have "entry_map ?es k = None"
        using False k assms(2) by (intro entry_map_miss) (auto simp: nth_list_update)
      ultimately show ?thesis using k by simp
    qed
  qed
qed

lemma used_store:
  assumes "i < length es" and "ne_occupied e"
  shows "used (es[i := e]) = (if ne_occupied (es ! i) then used es else Suc (used es))"
proof -
  have "es = take i es @ es ! i # drop (Suc i) es" using assms(1) by (rule id_take_nth_drop)
  then have "used es = used (take i es @ es ! i # drop (Suc i) es)" by simp
  moreover have "es[i := e] = take i es @ e # drop (Suc i) es" using assms(1) by (rule upd_conv_take_nth_drop)
  ultimately show ?thesis using assms(2) by (simp add: used_def)
qed

section \<open>The invariant of a table\<close>

definition nm_invar :: "'v cn_name_map \<Rightarrow> bool" where
  "nm_invar m \<longleftrightarrow> length (nm_entries m) = nm_capacity m \<and> probes_ok (nm_entries m) \<and> nm_count m = used (nm_entries m)
     \<and> (nm_capacity m = 0 \<or> (\<exists>k. nm_capacity m = 2 ^ k \<and> 16 \<le> nm_capacity m) \<and> nm_count m * 10 < nm_capacity m * 7)"

definition nm_map :: "'v cn_name_map \<Rightarrow> string \<Rightarrow> ('v option \<times> nat) option" where
  "nm_map m = entry_map (nm_entries m)"

lemma zero_map_laws: "nm_invar zero_map" "nm_map zero_map = Map.empty"
  by (auto simp: nm_invar_def nm_map_def zero_map_def probes_ok_def used_def entry_map_def)

lemma zero_entries:
  "probes_ok (replicate n zero_entry)" "used (replicate n zero_entry) = 0" "entry_map (replicate n zero_entry) = Map.empty"
  by (auto simp: probes_ok_def used_def entry_map_def zero_entry_def fun_eq_iff find_None_iff)

definition pair_map :: "'v cn_name_map_entry list \<Rightarrow> string \<Rightarrow> ('v option \<times> nat) option" where
  "pair_map es = map_of (map (\<lambda>e. (ne_key e, (ne_value e, ne_index e))) (filter ne_occupied es))"

lemma pair_map_Cons: "ne_occupied e \<Longrightarrow> pair_map (e # es) = (pair_map es)(ne_key e \<mapsto> (ne_value e, ne_index e))"
  "\<not> ne_occupied e \<Longrightarrow> pair_map (e # es) = pair_map es"
  by (simp_all add: pair_map_def fun_eq_iff)

lemma pair_map_dom: "dom (pair_map es) = ne_key ` set (filter ne_occupied es)"
  by (simp add: pair_map_def dom_map_of_conv_image_fst image_image)

text \<open>Moving the entries \<open>es\<close> one after the other.\<close>

lemma move_entries_spec:
  assumes "length new = 2 ^ k" and "probes_ok new" and "used new + used es < length new"
    and "distinct (map ne_key (filter ne_occupied es))" and "\<forall>e \<in> set es. ne_occupied e \<longrightarrow> entry_map new (ne_key e) = None"
  shows "\<exists>new'. move_entries (length new) es new = Some new' \<and> length new' = length new \<and> probes_ok new'
     \<and> used new' = used new + used es
     \<and> entry_map new' = entry_map new ++ pair_map es"
  using assms
proof (induction es arbitrary: new)
  case Nil
  then show ?case by (simp add: used_def pair_map_def)
next
  case (Cons e es)
  show ?case
  proof (cases "ne_occupied e")
    case False
    with Cons show ?thesis by (simp add: move_entry_def used_def pair_map_Cons(2))
  next
    case occ: True
    have "used new < length new" using Cons.prems(3) by linarith
    then obtain i where i: "cn_name_map_find_slot new (length new) (ne_key e) = Some i" "i < length new"
        "stops new (ne_key e) i" "placed_at new (ne_key e) i"
      by (rule find_slot_spec [OF Cons.prems(1)])
    have free: "\<not> ne_occupied (new ! i)" using stop_map [OF Cons.prems(2) i(2-4)] Cons.prems(5) occ by (auto split: if_splits)
    let ?new = "new[i := e]"
    have m: "entry_map ?new = (entry_map new)(ne_key e \<mapsto> (ne_value e, ne_index e))"
      by (rule map_store [OF Cons.prems(2) i(2-4) occ])
    have u: "used ?new = Suc (used new)" using used_store [OF i(2) occ] free by simp
    have ih: "\<exists>new'. move_entries (length ?new) es ?new = Some new' \<and> length new' = length ?new \<and> probes_ok new'
     \<and> used new' = used ?new + used es
     \<and> entry_map new' = entry_map ?new ++ pair_map es"
    proof (rule Cons.IH)
      show "probes_ok ?new" by (rule probes_store [OF Cons.prems(2) i(2-4) occ])
      show "used ?new + used es < length ?new" using Cons.prems(3) u occ by (simp add: used_def)
      show "\<forall>f \<in> set es. ne_occupied f \<longrightarrow> entry_map ?new (ne_key f) = None"
        using Cons.prems(4,5) occ m by (auto simp: image_iff)
    qed (use Cons.prems(1,4) occ in simp_all)
    have "ne_key e \<notin> dom (pair_map es)" using Cons.prems(4) occ by (auto simp: pair_map_dom)
    from map_add_upd_left [OF this] have "entry_map ?new ++ pair_map es = entry_map new ++ pair_map (e # es)"
      by (simp only: m pair_map_Cons(1) [OF occ] map_add_upd)
    with ih i(1) occ u show ?thesis by (simp only: move_entries.simps move_entry_def used_def) simp
  qed
qed

lemma entry_keys_distinct: "probes_ok es \<Longrightarrow> distinct (map ne_key (filter ne_occupied es))"
proof -
  assume ok: "probes_ok es"
  let ?is = "filter (\<lambda>i. ne_occupied (es ! i)) [0..<length es]"
  have "filter ne_occupied es = map ((!) es) ?is"
    by (metis (no_types, lifting) comp_apply filter_cong filter_map map_nth)
  moreover have "inj_on (\<lambda>i. ne_key (es ! i)) (set ?is)" using key_unique [OF ok] by (auto simp: inj_on_def)
  ultimately show ?thesis by (simp add: distinct_map comp_def)
qed

lemma entry_map_of:
  assumes "probes_ok es"
  shows "pair_map es = entry_map es"
proof
  fix k
  show "pair_map es k = entry_map es k"
    by (induction es) (auto simp: entry_map_def pair_map_def)
qed

lemma double_until_power: "\<exists>k. cn_double_until (2 ^ j) n = 2 ^ k"
proof (induction "2 ^ j :: nat" n arbitrary: j rule: cn_double_until.induct)
  case (1 n)
  have "(2 :: nat) ^ j * 2 = 2 ^ Suc j" by simp
  with 1 [of "Suc j"] show ?case by (subst cn_double_until.simps) (metis zero_less_numeral zero_less_power)
qed

lemma double_until_mono: "cap \<le> cn_double_until cap n"
proof (induction cap n rule: cn_double_until.induct)
  case (1 cap n)
  then show ?case by (subst cn_double_until.simps) auto
qed

lemma next_capacity:
  "\<exists>k. cn_name_map_next_capacity n = 2 ^ k" "n \<le> cn_name_map_next_capacity n" "16 \<le> cn_name_map_next_capacity n"
  using double_until_power [of 4 n] cn_double_until_ge [of 16 n] double_until_mono [of 16 n]
  by (simp_all add: cn_name_map_next_capacity_def)

lemma reserve_spec:
  assumes inv: "nm_invar m" and n: "nm_capacity m < n \<longrightarrow> (nm_count m + 1) * 10 < n * 7" "16 \<le> n"
    and c: "n \<le> nm_capacity m \<longrightarrow> (nm_count m + 1) * 10 < nm_capacity m * 7"
  obtains m' k where "cn_name_map_reserve m n = Some m'" and "length (nm_entries m') = nm_capacity m'" and "nm_capacity m' = 2 ^ k"
    and "16 \<le> nm_capacity m'" and "probes_ok (nm_entries m')" and "nm_count m' = used (nm_entries m')" and "nm_map m' = nm_map m"
    and "(nm_count m' + 1) * 10 < nm_capacity m' * 7" and "nm_count m' = nm_count m"
proof (cases "nm_capacity m \<ge> n")
  case True
  then have "nm_capacity m \<noteq> 0" using n(2) by simp
  with inv obtain k where "nm_capacity m = 2 ^ k" "16 \<le> nm_capacity m" by (auto simp: nm_invar_def)
  with inv True that [of m k] c show ?thesis by (simp add: cn_name_map_reserve_def nm_invar_def)
next
  case False
  let ?cap = "cn_name_map_next_capacity n" and ?es = "nm_entries m"
  let ?new = "replicate ?cap zero_entry"
  obtain k where k: "?cap = 2 ^ k" using next_capacity(1) by blast
  have es: "length ?es = nm_capacity m" "probes_ok ?es" "nm_count m = used ?es" using inv by (auto simp: nm_invar_def)
  have fits: "(nm_count m + 1) * 10 < ?cap * 7" using n(1) False next_capacity(2) [of n] by linarith
  then have "used ?new + used ?es < length ?new" using es(3) by (simp add: zero_entries(2))
  from move_entries_spec [of ?new k ?es] this k es(2) entry_keys_distinct [OF es(2)]
  obtain new where new: "move_entries ?cap ?es ?new = Some new" "length new = ?cap" "probes_ok new" "used new = used ?es"
      "entry_map new = entry_map ?es"
    unfolding entry_map_of [OF es(2)] by (auto simp: zero_entries)
  show ?thesis
    using that [of "m\<lparr>nm_entries := new, nm_capacity := ?cap\<rparr>" k] False new es k fits next_capacity(3) [of n]
    by (simp add: cn_name_map_reserve_def nm_map_def)
qed

section \<open>The operations\<close>

lemma insert_spec:
  assumes inv: "nm_invar m"
  obtains m' where "cn_name_map_insert m key v index replace = Some (nm_map m key = None \<or> replace, m')" and "nm_invar m'"
    and "nm_map m' = (if nm_map m key = None \<or> replace then (nm_map m)(key \<mapsto> (v, index)) else nm_map m)"
proof -
  let ?r = "if nm_capacity m = 0 then 16 else nm_capacity m"
  let ?n = "if (nm_count m + 1) * 10 \<ge> ?r * 7 then ?r * 2 else ?r"
  have c0: "nm_count m = 0" if "nm_capacity m = 0" using inv that by (simp add: nm_invar_def used_def)
  have cap: "16 \<le> ?r" "nm_count m * 10 < ?r * 7" using inv c0 by (auto simp: nm_invar_def)
  have n: "nm_capacity m < ?n \<longrightarrow> (nm_count m + 1) * 10 < ?n * 7" "16 \<le> ?n"
      "?n \<le> nm_capacity m \<longrightarrow> (nm_count m + 1) * 10 < nm_capacity m * 7"
    using cap by (auto split: if_splits)
  obtain m1 k where m1: "cn_name_map_reserve m ?n = Some m1" "length (nm_entries m1) = nm_capacity m1" "nm_capacity m1 = 2 ^ k"
      "16 \<le> nm_capacity m1" "probes_ok (nm_entries m1)" "nm_count m1 = used (nm_entries m1)" "nm_map m1 = nm_map m"
      "(nm_count m1 + 1) * 10 < nm_capacity m1 * 7"
    by (rule reserve_spec [OF inv n])
  let ?es = "nm_entries m1"
  have lt: "used ?es < length ?es" using m1(8) unfolding m1(2) m1(6) [symmetric] by simp
  obtain i where i: "cn_name_map_find_slot ?es (length ?es) key = Some i" "i < length ?es" "stops ?es key i" "placed_at ?es key i"
    by (rule find_slot_spec [OF m1(2) [unfolded m1(3)] lt])
  have occ: "ne_occupied (?es ! i) \<longleftrightarrow> nm_map m key \<noteq> None"
    using stop_map [OF m1(5) i(2-4)] m1(7) by (simp add: nm_map_def)
  have inv1: "nm_invar m1" using m1 by (auto simp: nm_invar_def)
  have found: "cn_name_map_find_slot (nm_entries m1) (nm_capacity m1) key = Some i" using i(1) m1(2) by simp
  show ?thesis
  proof (cases "ne_occupied (?es ! i) \<and> \<not> replace")
    case True
    then have "cn_name_map_insert m key v index replace = Some (False, m1)"
      using m1(1) found by (simp add: cn_name_map_insert_def Let_def)
    with that [of m1] True occ inv1 m1(7) show ?thesis by auto
  next
    case False
    let ?e = "(if ne_occupied (?es ! i) then ?es ! i else (?es ! i)\<lparr>ne_occupied := True, ne_key := key\<rparr>)\<lparr>ne_value := v, ne_index := index\<rparr>"
    let ?m = "m1\<lparr>nm_count := (if ne_occupied (?es ! i) then nm_count m1 else nm_count m1 + 1), nm_entries := ?es[i := ?e]\<rparr>"
    have e: "ne_key ?e = key" "ne_occupied ?e" "ne_value ?e = v" "ne_index ?e = index" using i(3) by (auto simp: stops_def)
    have st: "stops ?es (ne_key ?e) i" "placed_at ?es (ne_key ?e) i" using i(3,4) e(1) by simp_all
    have op: "cn_name_map_insert m key v index replace = Some (True, ?m)"
      using False m1(1) found by (simp add: cn_name_map_insert_def Let_def)
    have "nm_invar ?m"
      using m1 probes_store [OF m1(5) i(2) st e(2)] used_store [OF i(2) e(2)] by (auto simp: nm_invar_def)
    moreover have "nm_map ?m = (nm_map m)(key \<mapsto> (v, index))"
      using map_store [OF m1(5) i(2) st e(2)] m1(7) e by (simp add: nm_map_def)
    moreover have "nm_map m key = None \<or> replace" using False occ by blast
    ultimately show ?thesis using that [of ?m] op by (simp only: simp_thms if_True)
  qed
qed

lemma lookup_spec:
  assumes inv: "nm_invar m"
  shows "cn_name_map_lookup_entry m key = Some None \<and> nm_map m key = None
    \<or> (\<exists>e. cn_name_map_lookup_entry m key = Some (Some e) \<and> nm_map m key = Some (ne_value e, ne_index e))"
proof (cases "nm_capacity m = 0")
  case True
  with inv have "nm_entries m = []" by (simp add: nm_invar_def)
  with True show ?thesis by (simp add: cn_name_map_lookup_entry_def nm_map_def entry_map_def)
next
  case False
  let ?es = "nm_entries m" and ?h = "name_slot (nm_capacity m) key"
  from inv False obtain k where k: "length ?es = 2 ^ k" "length ?es = nm_capacity m" "probes_ok ?es" "used ?es * 10 < length ?es * 7"
    by (auto simp: nm_invar_def)
  have lt: "used ?es < length ?es" and h: "?h < length ?es" using k False name_slot_less [of "nm_capacity m" key] by auto
  obtain n where n: "stops ?es key ((?h + n) mod length ?es)" "\<forall>d < n. \<not> stops ?es key ((?h + d) mod length ?es)"
    by (rule first_stop [OF lt h])
  let ?i = "(?h + n) mod length ?es"
  have i: "?i < length ?es" "placed_at ?es key ?i" using lt n(2) k(2) unfolding placed_at_def by auto
  have "?h mod 2 ^ k = ?h" using h k(1) by simp
  with lookup_from_find [OF k(1), of key ?h n] n k(1,2) False
  have "cn_name_map_lookup_entry m key = Some (if ne_occupied (?es ! ?i) then Some (?es ! ?i) else None)"
    by (simp add: cn_name_map_lookup_entry_def Let_def)
  with stop_map [OF k(3) i(1) n(1) i(2)] show ?thesis by (auto simp: nm_map_def)
qed

lemma lookup_value_spec: "nm_invar m \<Longrightarrow> cn_name_map_lookup_value m key = Some (case nm_map m key of None \<Rightarrow> None | Some (v, i) \<Rightarrow> v)"
  using lookup_spec [of m key] by (auto simp: cn_name_map_lookup_value_def)

lemma lookup_index_spec: "nm_invar m \<Longrightarrow> cn_name_map_lookup_index m key = Some (map_option snd (nm_map m key))"
  using lookup_spec [of m key] by (auto simp: cn_name_map_lookup_index_def)

section \<open>The interface\<close>

text \<open>What the clients of a name table rely on.\<close>

locale name_table =
  fixes empty :: 'm and ins :: "'m \<Rightarrow> string \<Rightarrow> 'v option \<Rightarrow> nat \<Rightarrow> bool \<Rightarrow> (bool \<times> 'm) option"
    and value_of :: "'m \<Rightarrow> string \<Rightarrow> 'v option option" and index_of :: "'m \<Rightarrow> string \<Rightarrow> nat option option"
    and invar :: "'m \<Rightarrow> bool" and abs :: "'m \<Rightarrow> string \<Rightarrow> ('v option \<times> nat) option"
  assumes empty_laws: "invar empty" "abs empty = Map.empty"
    and ins_law: "invar m \<Longrightarrow> \<exists>m'. ins m key v i rep = Some (abs m key = None \<or> rep, m') \<and> invar m'
      \<and> abs m' = (if abs m key = None \<or> rep then (abs m)(key \<mapsto> (v, i)) else abs m)"
    and value_law: "invar m \<Longrightarrow> value_of m key = Some (case abs m key of None \<Rightarrow> None | Some (v, i) \<Rightarrow> v)"
    and index_law: "invar m \<Longrightarrow> index_of m key = Some (map_option snd (abs m key))"
begin

lemma ins_replace:
  assumes "invar m"
  obtains m' where "ins m key v i True = Some (True, m')" and "invar m'" and "abs m' = (abs m)(key \<mapsto> (v, i))"
  using ins_law [OF assms, of key v i True] by auto

text \<open>Inserting what is not there yet; the value that a later lookup gives is not null.\<close>

lemma ins_new:
  assumes "invar m" and "\<forall>key v i. abs m key = Some (v, i) \<longrightarrow> v \<noteq> None" and "value_of m key = Some None" and "v \<noteq> None"
  obtains m' where "ins m key v i False = Some (True, m')" and "invar m'" and "abs m' = (abs m)(key \<mapsto> (v, i))"
    and "\<forall>key v i. abs m' key = Some (v, i) \<longrightarrow> v \<noteq> None"
proof -
  have "abs m key = None" using assms(1-3) value_law by (cases "abs m key") auto
  with ins_law [OF assms(1), of key v i False] obtain m' where "ins m key v i False = Some (True, m')" "invar m'" "abs m' = (abs m)(key \<mapsto> (v, i))"
    by auto
  with that [of m'] assms(2,4) show ?thesis by simp
qed

lemma value_present:
  assumes "invar m" and "\<forall>key v i. abs m key = Some (v, i) \<longrightarrow> v \<noteq> None"
  obtains v where "value_of m key = Some v" and "v = None \<longleftrightarrow> key \<notin> dom (abs m)"
  using value_law [OF assms(1), of key] assms(2) that by (cases "abs m key") (auto split: prod.splits)

end

interpretation names: name_table zero_map cn_name_map_insert cn_name_map_lookup_value cn_name_map_lookup_index nm_invar nm_map
proof
  show "nm_invar zero_map" "nm_map zero_map = Map.empty" by (rule zero_map_laws)+
  fix m :: "'v cn_name_map" and key v i rep
  assume inv: "nm_invar m"
  show "\<exists>m'. cn_name_map_insert m key v i rep = Some (nm_map m key = None \<or> rep, m') \<and> nm_invar m'
      \<and> nm_map m' = (if nm_map m key = None \<or> rep then (nm_map m)(key \<mapsto> (v, i)) else nm_map m)"
    by (rule insert_spec [OF inv, of key v i rep]) blast
qed (rule lookup_value_spec lookup_index_spec, assumption)+

text \<open>
  C35: The name tables of the checker are finite maps. On a table that satisfies the invariant (a
  power of two of slots, less than seven tenths occupied, every entry reachable by its probe), an
  insertion ends and answers whether it stored: it does unless the name is there and must not be
  replaced. The invariant is kept; afterwards, looking up the name ends and gives the value stored, and
  looking up any other name gives what it gave before.
\<close>

theorem name_map_is_a_map:
  assumes "nm_invar m"
  shows "\<exists>m'. cn_name_map_insert m key v index replace = Some (nm_map m key = None \<or> replace, m') \<and> nm_invar m'
    \<and> cn_name_map_lookup_value m' key = (if nm_map m key = None \<or> replace then Some v else cn_name_map_lookup_value m key)
    \<and> (\<forall>other. other \<noteq> key \<longrightarrow> cn_name_map_lookup_value m' other = cn_name_map_lookup_value m other
         \<and> cn_name_map_lookup_index m' other = cn_name_map_lookup_index m other)"
proof -
  obtain m' where m': "cn_name_map_insert m key v index replace = Some (nm_map m key = None \<or> replace, m')" "nm_invar m'"
      "nm_map m' = (if nm_map m key = None \<or> replace then (nm_map m)(key \<mapsto> (v, index)) else nm_map m)"
    by (rule insert_spec [OF assms])
  then show ?thesis using assms by (intro exI [of _ m']) (simp add: names.value_law names.index_law)
qed

theorem name_map_is_a_map_witness:
  "nm_invar (zero_map :: nat cn_name_map) \<and>
   (\<exists>m'. cn_name_map_insert zero_map ''main'' (Some (7 :: nat)) 3 False = Some (True, m')
      \<and> cn_name_map_lookup_value m' ''main'' = Some (Some 7))"
  using name_map_is_a_map [OF zero_map_laws(1), of "''main''" "Some (7 :: nat)" 3 False]
  by (auto simp: zero_map_laws)

end
