(* ===== verification/Modules.thy ===== *)
theory Modules
  imports Name_Map Ast Diagnostics
begin

text \<open>
  Modules, and how names are resolved across them: \<open>include/cnegative/project.h\<close>, the symbol
  caches of the checker (\<open>src/sema/typecheck.c\<close>) and the searches of the lowering
  (\<open>src/ir/lower.c\<close>). A module is its index in the project, a declaration its index in the program; a
  null pointer is \<^term>\<open>None\<close>. The checker looks names up in hash tables that it builds once
  per module and keeps in its context, so its functions take the caches and return them;
  \<^term>\<open>None\<close> in front means that a null pointer was followed or a probe did not end.
\<close>

section \<open>Projects\<close>

record cn_module =
  mo_is_builtin_stdlib :: bool
  mo_name :: string
  mo_path :: string
  mo_directory :: string
  mo_source :: cn_source
  mo_program :: "cn_program option"
  mo_imports :: "nat option list"
  mo_loading :: bool

record cn_project =
  pj_modules :: "cn_module list"
  pj_project_root :: "string option"
  pj_vendor_root :: "string option"
  pj_root :: "nat option"

definition mod_at :: "cn_project \<Rightarrow> nat \<Rightarrow> cn_module option" where
  "mod_at prj m = (if m < length (pj_modules prj) then Some (pj_modules prj ! m) else None)"

text \<open>A loop that answers the first index whose element has the property.\<close>

fun find_from :: "('a \<Rightarrow> bool) \<Rightarrow> nat \<Rightarrow> 'a list \<Rightarrow> nat option" where
  "find_from P i [] = None"
| "find_from P i (x # xs) = (if P x then Some i else find_from P (Suc i) xs)"

definition cn_project_find_module_by_name :: "cn_project \<Rightarrow> string \<Rightarrow> nat option" where
  "cn_project_find_module_by_name prj nm = find_from (\<lambda>m. cn_name_eq nm (mo_name m)) 0 (pj_modules prj)"

section \<open>Symbol caches\<close>

record cn_module_symbol_cache =
  sc_local_functions :: "nat cn_name_map"
  sc_public_functions :: "nat cn_name_map"
  sc_local_consts :: "nat cn_name_map"
  sc_public_consts :: "nat cn_name_map"
  sc_local_structs :: "nat cn_name_map"
  sc_public_structs :: "nat cn_name_map"
  sc_imports :: "nat cn_name_map"

type_synonym sym_caches = "(nat option \<times> cn_module_symbol_cache) list"

type_synonym 'a sema = "sym_caches \<Rightarrow> ('a \<times> sym_caches) option"

definition zero_cache :: cn_module_symbol_cache where
  "zero_cache = \<lparr>sc_local_functions = zero_map, sc_public_functions = zero_map, sc_local_consts = zero_map,
     sc_public_consts = zero_map, sc_local_structs = zero_map, sc_public_structs = zero_map, sc_imports = zero_map\<rparr>"

definition sym_insert :: "nat cn_name_map \<Rightarrow> string \<Rightarrow> nat option \<Rightarrow> nat \<Rightarrow> nat cn_name_map option" where
  "sym_insert m key v i = do { (_, m') \<leftarrow> cn_name_map_insert m key v i True; Some m' }"

text \<open>
  The loops over functions, constants and structs have one shape: every declaration goes into the local
  table and a public one into the public table, too.
\<close>

fun cache_decls :: "('d \<Rightarrow> string) \<Rightarrow> ('d \<Rightarrow> bool) \<Rightarrow> nat \<Rightarrow> 'd list \<Rightarrow> nat cn_name_map \<times> nat cn_name_map
    \<Rightarrow> (nat cn_name_map \<times> nat cn_name_map) option" where
  "cache_decls name_of public i [] (local, pub) = Some (local, pub)"
| "cache_decls name_of public i (d # ds) (local, pub) = do {
     local' \<leftarrow> sym_insert local (name_of d) (Some i) 0;
     pub' \<leftarrow> (if public d then sym_insert pub (name_of d) (Some i) 0 else Some pub);
     cache_decls name_of public (Suc i) ds (local', pub') }"

fun cache_imports :: "nat \<Rightarrow> cn_import_decl list \<Rightarrow> nat cn_name_map \<Rightarrow> nat cn_name_map option" where
  "cache_imports i [] m = Some m"
| "cache_imports i (d # ds) m = do {
     m \<leftarrow> sym_insert m (im_module_name d) None i;
     m \<leftarrow> sym_insert m (im_alias d) None i;
     cache_imports (Suc i) ds m }"

definition build_cache :: "cn_program \<Rightarrow> cn_module_symbol_cache option" where
  "build_cache p = do {
     (lf, pf) \<leftarrow> cache_decls fn_name fn_is_public 0 (pr_functions p) (zero_map, zero_map);
     (lc, pc) \<leftarrow> cache_decls cd_name cd_is_public 0 (pr_consts p) (zero_map, zero_map);
     (ls, ps) \<leftarrow> cache_decls sd_name sd_is_public 0 (pr_structs p) (zero_map, zero_map);
     im \<leftarrow> cache_imports 0 (pr_imports p) zero_map;
     Some \<lparr>sc_local_functions = lf, sc_public_functions = pf, sc_local_consts = lc, sc_public_consts = pc,
       sc_local_structs = ls, sc_public_structs = ps, sc_imports = im\<rparr> }"

definition new_cache :: "cn_project \<Rightarrow> nat option \<Rightarrow> cn_module_symbol_cache option" where
  "new_cache prj m = (case m of
       None \<Rightarrow> Some zero_cache
     | Some m \<Rightarrow> do { md \<leftarrow> mod_at prj m; (case mo_program md of None \<Rightarrow> Some zero_cache | Some p \<Rightarrow> build_cache p) })"

definition cn_get_module_symbol_cache :: "cn_project \<Rightarrow> nat option \<Rightarrow> cn_module_symbol_cache sema" where
  "cn_get_module_symbol_cache prj m cs = (case map_of cs m of
       Some c \<Rightarrow> Some (c, cs)
     | None \<Rightarrow> do { c \<leftarrow> new_cache prj m; Some (c, (m, c) # cs) })"

definition cn_release_module_symbol_caches :: "sym_caches \<Rightarrow> sym_caches" where
  "cn_release_module_symbol_caches cs = []"

section \<open>Lookups of the checker\<close>

definition find_in_cache :: "(cn_module_symbol_cache \<Rightarrow> nat cn_name_map) \<Rightarrow> cn_project \<Rightarrow> nat option \<Rightarrow> string \<Rightarrow> nat option sema" where
  "find_in_cache table prj m nm cs = do {
     (c, cs) \<leftarrow> cn_get_module_symbol_cache prj m cs;
     v \<leftarrow> cn_name_map_lookup_value (table c) nm;
     Some (v, cs) }"

definition cn_find_local_function :: "cn_project \<Rightarrow> nat option \<Rightarrow> string \<Rightarrow> nat option sema" where
  "cn_find_local_function = find_in_cache sc_local_functions"

definition cn_find_public_function :: "cn_project \<Rightarrow> nat option \<Rightarrow> string \<Rightarrow> nat option sema" where
  "cn_find_public_function = find_in_cache sc_public_functions"

definition cn_find_const :: "cn_project \<Rightarrow> nat option \<Rightarrow> string \<Rightarrow> nat option sema" where
  "cn_find_const = find_in_cache sc_local_consts"

definition cn_find_public_const :: "cn_project \<Rightarrow> nat option \<Rightarrow> string \<Rightarrow> nat option sema" where
  "cn_find_public_const = find_in_cache sc_public_consts"

definition cn_find_struct :: "cn_project \<Rightarrow> nat option \<Rightarrow> string \<Rightarrow> nat option sema" where
  "cn_find_struct = find_in_cache sc_local_structs"

definition cn_find_public_struct :: "cn_project \<Rightarrow> nat option \<Rightarrow> string \<Rightarrow> nat option sema" where
  "cn_find_public_struct = find_in_cache sc_public_structs"

definition cn_find_import_decl :: "cn_project \<Rightarrow> nat option \<Rightarrow> string \<Rightarrow> nat option sema" where
  "cn_find_import_decl prj m nm cs = (case m of
       None \<Rightarrow> Some (None, cs)
     | Some i \<Rightarrow> do {
         md \<leftarrow> mod_at prj i;
         if mo_program md = None then Some (None, cs)
         else do {
           (c, cs) \<leftarrow> cn_get_module_symbol_cache prj m cs;
           ix \<leftarrow> cn_name_map_lookup_index (sc_imports c) nm;
           Some (ix, cs) } })"

definition import_at :: "cn_module \<Rightarrow> nat \<Rightarrow> nat option" where
  "import_at md i = (if i \<ge> length (mo_imports md) then None else mo_imports md ! i)"

definition cn_find_imported_module :: "cn_project \<Rightarrow> nat option \<Rightarrow> string \<Rightarrow> nat option sema" where
  "cn_find_imported_module prj m nm cs = do {
     (ix, cs) \<leftarrow> cn_find_import_decl prj m nm cs;
     (case (ix, m) of
        (Some i, Some k) \<Rightarrow> do { md \<leftarrow> mod_at prj k; Some (import_at md i, cs) }
      | _ \<Rightarrow> Some (None, cs)) }"

text \<open>\<open>cur\<close> is \<open>ctx->module\<close>.\<close>

definition cn_resolve_source_named_module :: "cn_project \<Rightarrow> nat \<Rightarrow> string \<Rightarrow> nat option sema" where
  "cn_resolve_source_named_module prj cur nm cs = do {
     md \<leftarrow> mod_at prj cur;
     if nm = [] \<or> cn_name_eq nm (mo_name md) then Some (Some cur, cs)
     else cn_find_imported_module prj (Some cur) nm cs }"

definition cn_resolve_canonical_named_module :: "cn_project \<Rightarrow> nat \<Rightarrow> string \<Rightarrow> nat option sema" where
  "cn_resolve_canonical_named_module prj cur nm cs = do {
     md \<leftarrow> mod_at prj cur;
     if nm = [] \<or> cn_name_eq nm (mo_name md) then Some (Some cur, cs)
     else (case cn_project_find_module_by_name prj nm of
         Some m \<Rightarrow> Some (Some m, cs)
       | None \<Rightarrow> cn_find_imported_module prj (Some cur) nm cs) }"

text \<open>A resolved declaration is a pair of module and declaration, or null.\<close>

type_synonym resolved = "(nat \<times> nat) option"

definition pair_with :: "nat \<Rightarrow> nat option \<Rightarrow> resolved" where
  "pair_with m d = map_option (Pair m) d"

definition has_program :: "cn_project \<Rightarrow> nat \<Rightarrow> bool option" where
  "has_program prj m = do { md \<leftarrow> mod_at prj m; Some (mo_program md \<noteq> None) }"

definition cn_resolve_const_in_module :: "cn_project \<Rightarrow> nat option \<Rightarrow> string \<Rightarrow> resolved sema" where
  "cn_resolve_const_in_module prj m nm cs = (case m of
       None \<Rightarrow> Some (None, cs)
     | Some k \<Rightarrow> do {
         hp \<leftarrow> has_program prj k;
         if \<not> hp then Some (None, cs)
         else do { (d, cs) \<leftarrow> cn_find_const prj m nm cs; Some (pair_with k d, cs) } })"

definition cn_resolve_source_named_const :: "cn_project \<Rightarrow> nat \<Rightarrow> string \<Rightarrow> string \<Rightarrow> resolved sema" where
  "cn_resolve_source_named_const prj cur module_name const_name cs = do {
     (m, cs) \<leftarrow> cn_resolve_source_named_module prj cur module_name cs;
     (case m of
        None \<Rightarrow> cn_resolve_const_in_module prj None const_name cs
      | Some k \<Rightarrow>
          if k = cur then cn_resolve_const_in_module prj m const_name cs
          else do { (d, cs) \<leftarrow> cn_find_public_const prj m const_name cs; Some (pair_with k d, cs) }) }"

definition cn_resolve_struct_in_module :: "cn_project \<Rightarrow> nat option \<Rightarrow> string \<Rightarrow> resolved sema" where
  "cn_resolve_struct_in_module prj m nm cs = (case m of
       None \<Rightarrow> Some (None, cs)
     | Some k \<Rightarrow> do {
         hp \<leftarrow> has_program prj k;
         if \<not> hp then Some (None, cs)
         else do { (d, cs) \<leftarrow> cn_find_struct prj m nm cs; Some (pair_with k d, cs) } })"

definition cn_resolve_source_named_struct :: "cn_project \<Rightarrow> nat \<Rightarrow> string \<Rightarrow> string \<Rightarrow> resolved sema" where
  "cn_resolve_source_named_struct prj cur module_name ty_name cs = do {
     (m, cs) \<leftarrow> cn_resolve_source_named_module prj cur module_name cs;
     (case m of
        None \<Rightarrow> cn_resolve_struct_in_module prj None ty_name cs
      | Some k \<Rightarrow>
          if k = cur then cn_resolve_struct_in_module prj m ty_name cs
          else do { (d, cs) \<leftarrow> cn_find_public_struct prj m ty_name cs; Some (pair_with k d, cs) }) }"

definition cn_resolve_canonical_named_struct :: "cn_project \<Rightarrow> nat \<Rightarrow> string \<Rightarrow> string \<Rightarrow> resolved sema" where
  "cn_resolve_canonical_named_struct prj cur module_name ty_name cs = do {
     (m, cs) \<leftarrow> cn_resolve_canonical_named_module prj cur module_name cs;
     cn_resolve_struct_in_module prj m ty_name cs }"

definition cn_find_struct_field :: "cn_struct_decl \<Rightarrow> string \<Rightarrow> nat option" where
  "cn_find_struct_field d nm = find_from (\<lambda>f. cn_name_eq (sf_name f) nm) 0 (sd_fields d)"

section \<open>Searches of the lowering\<close>

text \<open>A missing program is a null pointer that these functions follow.\<close>

definition ir_search :: "(cn_program \<Rightarrow> 'd list) \<Rightarrow> ('d \<Rightarrow> bool) \<Rightarrow> cn_project \<Rightarrow> nat \<Rightarrow> nat option option" where
  "ir_search decls P prj m = do { md \<leftarrow> mod_at prj m; p \<leftarrow> mo_program md; Some (find_from P 0 (decls p)) }"

definition cn_ir_find_local_function :: "cn_project \<Rightarrow> nat \<Rightarrow> string \<Rightarrow> nat option option" where
  "cn_ir_find_local_function prj m nm = ir_search pr_functions (\<lambda>f. cn_name_eq (fn_name f) nm) prj m"

definition cn_ir_find_public_function :: "cn_project \<Rightarrow> nat \<Rightarrow> string \<Rightarrow> nat option option" where
  "cn_ir_find_public_function prj m nm = ir_search pr_functions (\<lambda>f. fn_is_public f \<and> cn_name_eq (fn_name f) nm) prj m"

definition cn_ir_find_const :: "cn_project \<Rightarrow> nat \<Rightarrow> string \<Rightarrow> nat option option" where
  "cn_ir_find_const prj m nm = ir_search pr_consts (\<lambda>d. cn_name_eq (cd_name d) nm) prj m"

definition cn_ir_find_public_const :: "cn_project \<Rightarrow> nat \<Rightarrow> string \<Rightarrow> nat option option" where
  "cn_ir_find_public_const prj m nm = ir_search pr_consts (\<lambda>d. cd_is_public d \<and> cn_name_eq (cd_name d) nm) prj m"

definition cn_ir_find_struct :: "cn_project \<Rightarrow> nat \<Rightarrow> string \<Rightarrow> nat option option" where
  "cn_ir_find_struct prj m nm = ir_search pr_structs (\<lambda>d. cn_name_eq (sd_name d) nm) prj m"

definition cn_ir_find_public_struct :: "cn_project \<Rightarrow> nat \<Rightarrow> string \<Rightarrow> nat option option" where
  "cn_ir_find_public_struct prj m nm = ir_search pr_structs (\<lambda>d. sd_is_public d \<and> cn_name_eq (sd_name d) nm) prj m"

definition cn_ir_find_struct_field :: "cn_struct_decl \<Rightarrow> string \<Rightarrow> nat option" where
  "cn_ir_find_struct_field d nm = find_from (\<lambda>f. cn_name_eq (sf_name f) nm) 0 (sd_fields d)"

definition cn_ir_find_import_decl :: "cn_project \<Rightarrow> nat \<Rightarrow> string \<Rightarrow> nat option option" where
  "cn_ir_find_import_decl prj m nm = ir_search pr_imports (\<lambda>d. cn_name_eq (im_alias d) nm \<or> cn_name_eq (im_module_name d) nm) prj m"

definition cn_ir_find_imported_module :: "cn_project \<Rightarrow> nat \<Rightarrow> string \<Rightarrow> nat option option" where
  "cn_ir_find_imported_module prj m nm = do {
     ix \<leftarrow> cn_ir_find_import_decl prj m nm;
     (case ix of None \<Rightarrow> Some None | Some i \<Rightarrow> do { md \<leftarrow> mod_at prj m; Some (import_at md i) }) }"

definition cn_ir_resolve_source_named_module :: "cn_project \<Rightarrow> nat \<Rightarrow> string \<Rightarrow> nat option option" where
  "cn_ir_resolve_source_named_module prj cur nm = do {
     md \<leftarrow> mod_at prj cur;
     if nm = [] \<or> cn_name_eq nm (mo_name md) then Some (Some cur) else cn_ir_find_imported_module prj cur nm }"

definition cn_ir_resolve_canonical_named_module :: "cn_project \<Rightarrow> nat \<Rightarrow> string \<Rightarrow> nat option option" where
  "cn_ir_resolve_canonical_named_module prj cur nm = do {
     md \<leftarrow> mod_at prj cur;
     if nm = [] \<or> cn_name_eq nm (mo_name md) then Some (Some cur)
     else (case cn_project_find_module_by_name prj nm of
         Some m \<Rightarrow> Some (Some m)
       | None \<Rightarrow> cn_ir_find_imported_module prj cur nm) }"

definition cn_ir_resolve_const_in_module :: "cn_project \<Rightarrow> nat option \<Rightarrow> string \<Rightarrow> resolved option" where
  "cn_ir_resolve_const_in_module prj m nm = (case m of
       None \<Rightarrow> Some None
     | Some k \<Rightarrow> do {
         hp \<leftarrow> has_program prj k;
         if \<not> hp then Some None else do { d \<leftarrow> cn_ir_find_const prj k nm; Some (pair_with k d) } })"

definition cn_ir_resolve_source_named_const :: "cn_project \<Rightarrow> nat \<Rightarrow> string \<Rightarrow> string \<Rightarrow> resolved option" where
  "cn_ir_resolve_source_named_const prj cur module_name const_name = do {
     m \<leftarrow> cn_ir_resolve_source_named_module prj cur module_name;
     (case m of
        None \<Rightarrow> cn_ir_resolve_const_in_module prj None const_name
      | Some k \<Rightarrow>
          if k = cur then cn_ir_resolve_const_in_module prj m const_name
          else do { d \<leftarrow> cn_ir_find_public_const prj k const_name; Some (pair_with k d) }) }"

definition cn_ir_resolve_struct_in_module :: "cn_project \<Rightarrow> nat option \<Rightarrow> string \<Rightarrow> resolved option" where
  "cn_ir_resolve_struct_in_module prj m nm = (case m of
       None \<Rightarrow> Some None
     | Some k \<Rightarrow> do {
         hp \<leftarrow> has_program prj k;
         if \<not> hp then Some None else do { d \<leftarrow> cn_ir_find_struct prj k nm; Some (pair_with k d) } })"

definition cn_ir_resolve_source_named_struct :: "cn_project \<Rightarrow> nat \<Rightarrow> string \<Rightarrow> string \<Rightarrow> resolved option" where
  "cn_ir_resolve_source_named_struct prj cur module_name ty_name = do {
     m \<leftarrow> cn_ir_resolve_source_named_module prj cur module_name;
     (case m of
        None \<Rightarrow> cn_ir_resolve_struct_in_module prj None ty_name
      | Some k \<Rightarrow>
          if k = cur then cn_ir_resolve_struct_in_module prj m ty_name
          else do { d \<leftarrow> cn_ir_find_public_struct prj k ty_name; Some (pair_with k d) }) }"

definition cn_ir_resolve_canonical_named_struct :: "cn_project \<Rightarrow> nat \<Rightarrow> string \<Rightarrow> string \<Rightarrow> resolved option" where
  "cn_ir_resolve_canonical_named_struct prj cur module_name ty_name = do {
     m \<leftarrow> cn_ir_resolve_canonical_named_module prj cur module_name;
     cn_ir_resolve_struct_in_module prj m ty_name }"

end
