(* ===== verification/Resolution.thy ===== *)
theory Resolution
  imports Modules
begin

text \<open>
  The checker and the lowering resolve the names of a program independently of each other, by
  cached hash tables and by linear search. This theory shows what each finds, and when they agree.
\<close>

section \<open>Searches\<close>

text \<open>What a table that is filled in order finds: the last declaration of the name.\<close>

fun last_from :: "('a \<Rightarrow> bool) \<Rightarrow> nat \<Rightarrow> 'a list \<Rightarrow> nat option" where
  "last_from P i [] = None"
| "last_from P i (x # xs) = (case last_from P (Suc i) xs of Some j \<Rightarrow> Some j | None \<Rightarrow> if P x then Some i else None)"

definition unique_hit :: "('a \<Rightarrow> bool) \<Rightarrow> 'a list \<Rightarrow> bool" where
  "unique_hit P xs \<longleftrightarrow> length (filter P xs) \<le> 1"

lemma last_from_None: "last_from P i xs = None \<longleftrightarrow> filter P xs = []"
  by (induction xs arbitrary: i) (auto split: option.splits)

lemma find_is_last: "unique_hit P xs \<Longrightarrow> find_from P i xs = last_from P i xs"
proof (induction xs arbitrary: i)
  case (Cons x xs)
  show ?case
  proof (cases "P x")
    case True
    with Cons.prems have "last_from P (Suc i) xs = None"
      by (simp add: unique_hit_def last_from_None)
    with True show ?thesis by simp
  next
    case False
    with Cons.prems have "unique_hit P xs" by (simp add: unique_hit_def)
    with Cons.IH [of "Suc i"] False show ?thesis by (simp split: option.split)
  qed
qed simp

lemma last_from_nth: "last_from P i xs = Some j \<Longrightarrow> i \<le> j \<and> j - i < length xs \<and> P (xs ! (j - i))"
proof (induction xs arbitrary: i)
  case (Cons x xs)
  then show ?case
    by (fastforce split: option.splits if_splits simp: nth_Cons' Suc_diff_Suc)
qed simp

lemma find_from_nth: "find_from P i xs = Some j \<Longrightarrow> i \<le> j \<and> j - i < length xs \<and> P (xs ! (j - i))"
proof (induction xs arbitrary: i)
  case (Cons x xs)
  then show ?case
    by (fastforce split: if_splits simp: nth_Cons' Suc_diff_Suc)
qed simp

lemma find_from_None: "find_from P i xs = None \<longleftrightarrow> filter P xs = []"
  by (induction xs arbitrary: i) auto

lemma distinct_unique_hit: "distinct (map f xs) \<Longrightarrow> unique_hit (\<lambda>x. Q x \<and> f x = nm) xs"
proof (induction xs)
  case (Cons x xs)
  have "filter (\<lambda>y. Q y \<and> f y = nm) xs = []" if "f x = nm"
  proof -
    have "f y \<noteq> nm" if "y \<in> set xs" for y
    proof
      assume "f y = nm"
      with \<open>f x = nm\<close> that have "f x \<in> f ` set xs" by (metis imageI)
      with Cons.prems show False by simp
    qed
    then show ?thesis by (simp add: filter_empty_conv)
  qed
  moreover have "unique_hit (\<lambda>y. Q y \<and> f y = nm) xs" using Cons by simp
  ultimately show ?case by (simp add: unique_hit_def)
qed (simp add: unique_hit_def)

section \<open>What the caches hold\<close>

lemma sym_insert_law:
  assumes "nm_invar m"
  obtains m' where "sym_insert m key v i = Some m'" and "nm_invar m'" and "nm_map m' = (nm_map m)(key \<mapsto> (v, i))"
proof -
  obtain m' where "cn_name_map_insert m key v i True = Some (True, m')" "nm_invar m'" "nm_map m' = (nm_map m)(key \<mapsto> (v, i))"
    by (rule names.ins_replace [OF assms])
  with that [of m'] show ?thesis by (simp add: sym_insert_def)
qed

lemma cache_decls_law:
  assumes "nm_invar l" and "nm_invar p"
  shows "\<exists>l' p'. cache_decls nf public i ds (l, p) = Some (l', p') \<and> nm_invar l' \<and> nm_invar p'
    \<and> (\<forall>nm. nm_map l' nm = (case last_from (\<lambda>d. nf d = nm) i ds of Some j \<Rightarrow> Some (Some j, 0) | None \<Rightarrow> nm_map l nm))
    \<and> (\<forall>nm. nm_map p' nm = (case last_from (\<lambda>d. public d \<and> nf d = nm) i ds of Some j \<Rightarrow> Some (Some j, 0) | None \<Rightarrow> nm_map p nm))"
  using assms
proof (induction ds arbitrary: i l p)
  case Nil
  then show ?case by simp
next
  case (Cons d ds)
  obtain l1 where l1: "sym_insert l (nf d) (Some i) 0 = Some l1" "nm_invar l1" "nm_map l1 = (nm_map l)(nf d \<mapsto> (Some i, 0))"
    by (rule sym_insert_law [OF Cons.prems(1)])
  obtain p1 where p1: "(if public d then sym_insert p (nf d) (Some i) 0 else Some p) = Some p1" "nm_invar p1"
      "nm_map p1 = (if public d then (nm_map p)(nf d \<mapsto> (Some i, 0)) else nm_map p)"
  proof (cases "public d")
    case True
    show ?thesis by (rule sym_insert_law [OF Cons.prems(2), of "nf d" "Some i" 0]) (use True that in simp)
  qed (use Cons.prems(2) that in simp)
  from Cons.IH [OF l1(2) p1(2), of "Suc i"] obtain l' p' where *:
    "cache_decls nf public (Suc i) ds (l1, p1) = Some (l', p')" "nm_invar l'" "nm_invar p'"
    "\<forall>nm. nm_map l' nm = (case last_from (\<lambda>d. nf d = nm) (Suc i) ds of Some j \<Rightarrow> Some (Some j, 0) | None \<Rightarrow> nm_map l1 nm)"
    "\<forall>nm. nm_map p' nm = (case last_from (\<lambda>d. public d \<and> nf d = nm) (Suc i) ds of Some j \<Rightarrow> Some (Some j, 0) | None \<Rightarrow> nm_map p1 nm)"
    by blast
  have "\<forall>nm. nm_map l' nm = (case last_from (\<lambda>d. nf d = nm) i (d # ds) of Some j \<Rightarrow> Some (Some j, 0) | None \<Rightarrow> nm_map l nm)"
    using *(4) l1(3) by (auto split: option.splits)
  moreover have "\<forall>nm. nm_map p' nm = (case last_from (\<lambda>d. public d \<and> nf d = nm) i (d # ds) of Some j \<Rightarrow> Some (Some j, 0) | None \<Rightarrow> nm_map p nm)"
    using *(5) p1(3) by (auto split: option.splits)
  ultimately show ?case using l1(1) p1(1) *(1-3) by auto
qed

definition names_import :: "string \<Rightarrow> cn_import_decl \<Rightarrow> bool" where
  "names_import nm d \<longleftrightarrow> im_alias d = nm \<or> im_module_name d = nm"

lemma cache_imports_law:
  assumes "nm_invar m"
  shows "\<exists>m'. cache_imports i ds m = Some m' \<and> nm_invar m'
    \<and> (\<forall>nm. nm_map m' nm = (case last_from (names_import nm) i ds of Some j \<Rightarrow> Some (None, j) | None \<Rightarrow> nm_map m nm))"
  using assms
proof (induction ds arbitrary: i m)
  case Nil
  then show ?case by simp
next
  case (Cons d ds)
  obtain m1 where m1: "sym_insert m (im_module_name d) None i = Some m1" "nm_invar m1" "nm_map m1 = (nm_map m)(im_module_name d \<mapsto> (None, i))"
    by (rule sym_insert_law [OF Cons.prems])
  obtain m2 where m2: "sym_insert m1 (im_alias d) None i = Some m2" "nm_invar m2" "nm_map m2 = (nm_map m1)(im_alias d \<mapsto> (None, i))"
    by (rule sym_insert_law [OF m1(2)])
  from Cons.IH [OF m2(2), of "Suc i"] obtain m' where *: "cache_imports (Suc i) ds m2 = Some m'" "nm_invar m'"
    "\<forall>nm. nm_map m' nm = (case last_from (names_import nm) (Suc i) ds of Some j \<Rightarrow> Some (None, j) | None \<Rightarrow> nm_map m2 nm)"
    by blast
  have "\<forall>nm. nm_map m' nm = (case last_from (names_import nm) i (d # ds) of Some j \<Rightarrow> Some (None, j) | None \<Rightarrow> nm_map m nm)"
    using *(3) m1(3) m2(3) by (auto simp: names_import_def split: option.splits)
  with m1(1) m2(1) *(1,2) show ?case by auto
qed

text \<open>The tables of a module's cache, as the searches they answer.\<close>

definition answers :: "nat cn_name_map \<Rightarrow> (string \<Rightarrow> nat option) \<Rightarrow> bool" where
  "answers m f \<longleftrightarrow> (\<forall>nm. cn_name_map_lookup_value m nm = Some (f nm))"

definition cache_ok :: "cn_program \<Rightarrow> cn_module_symbol_cache \<Rightarrow> bool" where
  "cache_ok p c \<longleftrightarrow>
     answers (sc_local_functions c) (\<lambda>nm. last_from (\<lambda>d. fn_name d = nm) 0 (pr_functions p))
     \<and> answers (sc_public_functions c) (\<lambda>nm. last_from (\<lambda>d. fn_is_public d \<and> fn_name d = nm) 0 (pr_functions p))
     \<and> answers (sc_local_consts c) (\<lambda>nm. last_from (\<lambda>d. cd_name d = nm) 0 (pr_consts p))
     \<and> answers (sc_public_consts c) (\<lambda>nm. last_from (\<lambda>d. cd_is_public d \<and> cd_name d = nm) 0 (pr_consts p))
     \<and> answers (sc_local_structs c) (\<lambda>nm. last_from (\<lambda>d. sd_name d = nm) 0 (pr_structs p))
     \<and> answers (sc_public_structs c) (\<lambda>nm. last_from (\<lambda>d. sd_is_public d \<and> sd_name d = nm) 0 (pr_structs p))
     \<and> (\<forall>nm. cn_name_map_lookup_index (sc_imports c) nm = Some (last_from (names_import nm) 0 (pr_imports p)))"

lemma cache_decls_answers:
  obtains l p where "cache_decls nf public 0 ds (zero_map, zero_map) = Some (l, p)"
    and "answers l (\<lambda>nm. last_from (\<lambda>d. nf d = nm) 0 ds)" and "answers p (\<lambda>nm. last_from (\<lambda>d. public d \<and> nf d = nm) 0 ds)"
proof -
  have "nm_map (zero_map :: nat cn_name_map) nm = None" for nm by (simp add: zero_map_laws)
  with cache_decls_law [OF zero_map_laws(1) zero_map_laws(1), of nf public 0 ds] obtain l p where
    *: "cache_decls nf public 0 ds (zero_map, zero_map) = Some (l, p)" "nm_invar l" "nm_invar p"
    "\<forall>nm. nm_map l nm = (case last_from (\<lambda>d. nf d = nm) 0 ds of Some j \<Rightarrow> Some (Some j, 0) | None \<Rightarrow> None)"
    "\<forall>nm. nm_map p nm = (case last_from (\<lambda>d. public d \<and> nf d = nm) 0 ds of Some j \<Rightarrow> Some (Some j, 0) | None \<Rightarrow> None)"
    by (auto cong: option.case_cong)
  show ?thesis
    by (rule that [OF *(1)]) (use * in \<open>auto simp: answers_def names.value_law split: option.splits\<close>)
qed

lemma build_cache_ok: "\<exists>c. build_cache p = Some c \<and> cache_ok p c"
proof -
  obtain lf pf where f: "cache_decls fn_name fn_is_public 0 (pr_functions p) (zero_map, zero_map) = Some (lf, pf)"
      "answers lf (\<lambda>nm. last_from (\<lambda>d. fn_name d = nm) 0 (pr_functions p))"
      "answers pf (\<lambda>nm. last_from (\<lambda>d. fn_is_public d \<and> fn_name d = nm) 0 (pr_functions p))"
    by (rule cache_decls_answers)
  obtain lc pc where c: "cache_decls cd_name cd_is_public 0 (pr_consts p) (zero_map, zero_map) = Some (lc, pc)"
      "answers lc (\<lambda>nm. last_from (\<lambda>d. cd_name d = nm) 0 (pr_consts p))"
      "answers pc (\<lambda>nm. last_from (\<lambda>d. cd_is_public d \<and> cd_name d = nm) 0 (pr_consts p))"
    by (rule cache_decls_answers)
  obtain ls ps where s: "cache_decls sd_name sd_is_public 0 (pr_structs p) (zero_map, zero_map) = Some (ls, ps)"
      "answers ls (\<lambda>nm. last_from (\<lambda>d. sd_name d = nm) 0 (pr_structs p))"
      "answers ps (\<lambda>nm. last_from (\<lambda>d. sd_is_public d \<and> sd_name d = nm) 0 (pr_structs p))"
    by (rule cache_decls_answers)
  have "nm_map (zero_map :: nat cn_name_map) nm = None" for nm by (simp add: zero_map_laws)
  with cache_imports_law [OF zero_map_laws(1), of 0 "pr_imports p"] obtain im where
    im: "cache_imports 0 (pr_imports p) (zero_map :: nat cn_name_map) = Some im" "nm_invar im"
      "\<forall>nm. nm_map im nm = (case last_from (names_import nm) 0 (pr_imports p) of Some j \<Rightarrow> Some (None, j) | None \<Rightarrow> None)"
    by (auto cong: option.case_cong)
  have "\<forall>nm. cn_name_map_lookup_index im nm = Some (last_from (names_import nm) 0 (pr_imports p))"
    using im(2,3) by (auto simp: names.index_law split: option.splits)
  with f c s im(1) show ?thesis by (simp add: build_cache_def cache_ok_def)
qed

section \<open>Lookups do not depend on what has been cached\<close>

text \<open>The caches that the checker has built are those it would build now.\<close>

definition caches_ok :: "cn_project \<Rightarrow> sym_caches \<Rightarrow> bool" where
  "caches_ok prj cs \<longleftrightarrow> (\<forall>m c. map_of cs m = Some c \<longrightarrow> new_cache prj m = Some c)"

definition yields :: "cn_project \<Rightarrow> 'a sema \<Rightarrow> 'a \<Rightarrow> bool" where
  "yields prj f v \<longleftrightarrow> (\<forall>cs. caches_ok prj cs \<longrightarrow> (\<exists>cs'. f cs = Some (v, cs') \<and> caches_ok prj cs'))"

lemma yieldsD:
  assumes "yields prj f v" and "caches_ok prj cs"
  obtains cs' where "f cs = Some (v, cs')" and "caches_ok prj cs'"
  using assms by (auto simp: yields_def)

lemma yields_pure: "yields prj (\<lambda>cs. Some (v, cs)) v"
  by (simp add: yields_def)

lemma yields_bind:
  assumes "yields prj f v" and "yields prj (g v) w"
  shows "yields prj (\<lambda>cs. do { (x, cs) \<leftarrow> f cs; g x cs }) w"
  unfolding yields_def
proof (intro allI impI)
  fix cs assume "caches_ok prj cs"
  with assms(1) obtain cs1 where "f cs = Some (v, cs1)" and "caches_ok prj cs1" by (rule yieldsD)
  moreover from assms(2) \<open>caches_ok prj cs1\<close> obtain cs2 where "g v cs1 = Some (w, cs2)" and "caches_ok prj cs2" by (rule yieldsD)
  ultimately show "\<exists>cs'. (do { (x, cs) \<leftarrow> f cs; g x cs }) = Some (w, cs') \<and> caches_ok prj cs'" by simp
qed

lemma get_cache_yields:
  assumes "new_cache prj m = Some c"
  shows "yields prj (cn_get_module_symbol_cache prj m) c"
  using assms by (auto simp: yields_def caches_ok_def cn_get_module_symbol_cache_def split: option.splits)

lemma find_in_cache_yields:
  assumes "new_cache prj m = Some c" and "cn_name_map_lookup_value (table c) nm = Some v"
  shows "yields prj (find_in_cache table prj m nm) v"
  unfolding yields_def
proof (intro allI impI)
  fix cs assume "caches_ok prj cs"
  with get_cache_yields [OF assms(1)] obtain cs' where "cn_get_module_symbol_cache prj m cs = Some (c, cs')" "caches_ok prj cs'"
    by (rule yieldsD)
  with assms(2) show "\<exists>cs'. find_in_cache table prj m nm cs = Some (v, cs') \<and> caches_ok prj cs'"
    by (simp add: find_in_cache_def)
qed

section \<open>What the checker finds, and what the lowering finds\<close>

text \<open>
  A project ready for checking: every module has been parsed, and the imports of a module lead to
  modules of the project.
\<close>

definition loaded :: "cn_project \<Rightarrow> bool" where
  "loaded prj \<longleftrightarrow> (\<forall>md \<in> set (pj_modules prj). mo_program md \<noteq> None
     \<and> (\<forall>i \<in> set (mo_imports md). \<forall>k. i = Some k \<longrightarrow> k < length (pj_modules prj)))"

lemma loaded_module:
  assumes "loaded prj" and "k < length (pj_modules prj)"
  obtains md p where "mod_at prj k = Some md" and "mo_program md = Some p" and "md \<in> set (pj_modules prj)"
    and "\<And>i j. import_at md i = Some j \<Longrightarrow> j < length (pj_modules prj)"
proof -
  let ?md = "pj_modules prj ! k"
  have m: "mod_at prj k = Some ?md" "?md \<in> set (pj_modules prj)" using assms(2) by (simp_all add: mod_at_def)
  with assms(1) obtain p where p: "mo_program ?md = Some p" by (auto simp: loaded_def)
  have "j < length (pj_modules prj)" if "import_at ?md i = Some j" for i j
  proof -
    from that have "Some j \<in> set (mo_imports ?md)" by (auto simp: import_at_def split: if_splits) (metis not_le nth_mem)
    with assms(1) m(2) show ?thesis by (auto simp: loaded_def)
  qed
  with m p that show ?thesis by blast
qed

lemma module_cache:
  assumes "mod_at prj k = Some md" and "mo_program md = Some p"
  obtains c where "new_cache prj (Some k) = Some c" and "cache_ok p c"
  using assms build_cache_ok [of p] by (auto simp: new_cache_def)

lemmas find_defs = cn_find_local_function_def cn_find_public_function_def cn_find_const_def
  cn_find_public_const_def cn_find_struct_def cn_find_public_struct_def

lemma sema_finds_last:
  assumes "mod_at prj k = Some md" and "mo_program md = Some p"
  shows "yields prj (cn_find_local_function prj (Some k) nm) (last_from (\<lambda>d. fn_name d = nm) 0 (pr_functions p))"
    and "yields prj (cn_find_public_function prj (Some k) nm) (last_from (\<lambda>d. fn_is_public d \<and> fn_name d = nm) 0 (pr_functions p))"
    and "yields prj (cn_find_const prj (Some k) nm) (last_from (\<lambda>d. cd_name d = nm) 0 (pr_consts p))"
    and "yields prj (cn_find_public_const prj (Some k) nm) (last_from (\<lambda>d. cd_is_public d \<and> cd_name d = nm) 0 (pr_consts p))"
    and "yields prj (cn_find_struct prj (Some k) nm) (last_from (\<lambda>d. sd_name d = nm) 0 (pr_structs p))"
    and "yields prj (cn_find_public_struct prj (Some k) nm) (last_from (\<lambda>d. sd_is_public d \<and> sd_name d = nm) 0 (pr_structs p))"
proof -
  obtain c where c: "new_cache prj (Some k) = Some c" and ok: "cache_ok p c" using assms by (rule module_cache)
  note find = find_in_cache_yields [OF c]
  show "yields prj (cn_find_local_function prj (Some k) nm) (last_from (\<lambda>d. fn_name d = nm) 0 (pr_functions p))"
    unfolding find_defs by (rule find) (use ok in \<open>simp add: cache_ok_def answers_def\<close>)
  show "yields prj (cn_find_public_function prj (Some k) nm) (last_from (\<lambda>d. fn_is_public d \<and> fn_name d = nm) 0 (pr_functions p))"
    unfolding find_defs by (rule find) (use ok in \<open>simp add: cache_ok_def answers_def\<close>)
  show "yields prj (cn_find_const prj (Some k) nm) (last_from (\<lambda>d. cd_name d = nm) 0 (pr_consts p))"
    unfolding find_defs by (rule find) (use ok in \<open>simp add: cache_ok_def answers_def\<close>)
  show "yields prj (cn_find_public_const prj (Some k) nm) (last_from (\<lambda>d. cd_is_public d \<and> cd_name d = nm) 0 (pr_consts p))"
    unfolding find_defs by (rule find) (use ok in \<open>simp add: cache_ok_def answers_def\<close>)
  show "yields prj (cn_find_struct prj (Some k) nm) (last_from (\<lambda>d. sd_name d = nm) 0 (pr_structs p))"
    unfolding find_defs by (rule find) (use ok in \<open>simp add: cache_ok_def answers_def\<close>)
  show "yields prj (cn_find_public_struct prj (Some k) nm) (last_from (\<lambda>d. sd_is_public d \<and> sd_name d = nm) 0 (pr_structs p))"
    unfolding find_defs by (rule find) (use ok in \<open>simp add: cache_ok_def answers_def\<close>)
qed

lemma sema_finds_import:
  assumes "mod_at prj k = Some md" and "mo_program md = Some p"
  shows "yields prj (cn_find_import_decl prj (Some k) nm) (last_from (names_import nm) 0 (pr_imports p))"
proof -
  obtain c where c: "new_cache prj (Some k) = Some c" and "cache_ok p c" using assms by (rule module_cache)
  then have ix: "cn_name_map_lookup_index (sc_imports c) nm = Some (last_from (names_import nm) 0 (pr_imports p))"
    by (simp add: cache_ok_def)
  show ?thesis unfolding yields_def
  proof (intro allI impI)
    fix cs assume "caches_ok prj cs"
    with get_cache_yields [OF c] obtain cs' where "cn_get_module_symbol_cache prj (Some k) cs = Some (c, cs')" "caches_ok prj cs'"
      by (rule yieldsD)
    with ix assms show "\<exists>cs'. cn_find_import_decl prj (Some k) nm cs
        = Some (last_from (names_import nm) 0 (pr_imports p), cs') \<and> caches_ok prj cs'"
      by (simp add: cn_find_import_decl_def)
  qed
qed

text \<open>The lowering finds the first declaration.\<close>

lemmas ir_find_defs = ir_search_def cn_ir_find_local_function_def cn_ir_find_public_function_def cn_ir_find_const_def
  cn_ir_find_public_const_def cn_ir_find_struct_def cn_ir_find_public_struct_def cn_ir_find_import_decl_def

lemma ir_finds_import:
  assumes "mod_at prj k = Some md" and "mo_program md = Some p"
  shows "cn_ir_find_import_decl prj k nm = Some (find_from (names_import nm) 0 (pr_imports p))"
  using assms by (simp add: ir_find_defs names_import_def [abs_def])

section \<open>Agreement\<close>

text \<open>
  Both search for the same thing and find it, one at the last and one at the first declaration. They
  answer the same where a name is declared once, and where two imports that share a name (an alias
  of one may be the module name of the other) lead to the same module.
\<close>

definition share_name :: "cn_import_decl \<Rightarrow> cn_import_decl \<Rightarrow> bool" where
  "share_name d e \<longleftrightarrow> im_alias d \<in> {im_alias e, im_module_name e} \<or> im_module_name d \<in> {im_alias e, im_module_name e}"

definition distinct_names :: "cn_program \<Rightarrow> bool" where
  "distinct_names p \<longleftrightarrow> distinct (map fn_name (pr_functions p)) \<and> distinct (map cd_name (pr_consts p))
     \<and> distinct (map sd_name (pr_structs p))"

definition clear_imports :: "cn_module \<Rightarrow> cn_program \<Rightarrow> bool" where
  "clear_imports md p \<longleftrightarrow> (\<forall>i < length (pr_imports p). \<forall>j < length (pr_imports p).
     share_name (pr_imports p ! i) (pr_imports p ! j) \<longrightarrow> import_at md i = import_at md j)"

definition unambiguous :: "cn_project \<Rightarrow> bool" where
  "unambiguous prj \<longleftrightarrow> (\<forall>md \<in> set (pj_modules prj).
     case mo_program md of None \<Rightarrow> True | Some p \<Rightarrow> distinct_names p \<and> clear_imports md p)"

text \<open>A search of the checker and one of the lowering succeed with one answer, whatever is cached.\<close>

definition agree :: "cn_project \<Rightarrow> 'a sema \<Rightarrow> 'a option \<Rightarrow> bool" where
  "agree prj f g \<longleftrightarrow> (\<exists>v. yields prj f v \<and> g = Some v)"

lemma agree_pure: "agree prj (\<lambda>cs. Some (v, cs)) (Some v)"
  by (simp add: agree_def yields_pure)

lemma agree_bind:
  assumes "agree prj f g" and "\<And>v. g = Some v \<Longrightarrow> agree prj (F v) (G v)"
  shows "agree prj (\<lambda>cs. do { (x, cs) \<leftarrow> f cs; F x cs }) (do { x \<leftarrow> g; G x })"
proof -
  obtain v where v: "yields prj f v" "g = Some v" using assms(1) by (auto simp: agree_def)
  with assms(2) obtain w where w: "yields prj (F v) w" "G v = Some w" by (auto simp: agree_def)
  from yields_bind [where g = F, OF v(1) w(1)] v(2) w(2) show ?thesis by (simp add: agree_def)
qed

lemma agree_pair:
  "agree prj f g \<Longrightarrow> agree prj (\<lambda>cs. do { (d, cs) \<leftarrow> f cs; Some (pair_with k d, cs) }) (do { d \<leftarrow> g; Some (pair_with k d) })"
  by (rule agree_bind) (simp_all add: agree_pure)

lemma decls_agree:
  assumes "loaded prj" and "unambiguous prj" and "k < length (pj_modules prj)"
  shows "agree prj (cn_find_local_function prj (Some k) nm) (cn_ir_find_local_function prj k nm)"
    and "agree prj (cn_find_public_function prj (Some k) nm) (cn_ir_find_public_function prj k nm)"
    and "agree prj (cn_find_const prj (Some k) nm) (cn_ir_find_const prj k nm)"
    and "agree prj (cn_find_public_const prj (Some k) nm) (cn_ir_find_public_const prj k nm)"
    and "agree prj (cn_find_struct prj (Some k) nm) (cn_ir_find_struct prj k nm)"
    and "agree prj (cn_find_public_struct prj (Some k) nm) (cn_ir_find_public_struct prj k nm)"
proof -
  obtain md p where m: "mod_at prj k = Some md" "mo_program md = Some p" "md \<in> set (pj_modules prj)"
    using assms(1,3) by (rule loaded_module)
  with assms(2) have "distinct_names p" by (auto simp: unambiguous_def)
  then have d: "distinct (map fn_name (pr_functions p))" "distinct (map cd_name (pr_consts p))" "distinct (map sd_name (pr_structs p))"
    by (simp_all add: distinct_names_def)
  note once = find_is_last [OF distinct_unique_hit [where Q = "\<lambda>_. True", simplified], symmetric]
    find_is_last [OF distinct_unique_hit, symmetric]
  note finds = sema_finds_last [OF m(1,2), of nm]
  show "agree prj (cn_find_local_function prj (Some k) nm) (cn_ir_find_local_function prj k nm)"
    using finds(1) m by (simp add: agree_def ir_find_defs once(1) [OF d(1)])
  show "agree prj (cn_find_public_function prj (Some k) nm) (cn_ir_find_public_function prj k nm)"
    using finds(2) m by (simp add: agree_def ir_find_defs once(2) [OF d(1)])
  show "agree prj (cn_find_const prj (Some k) nm) (cn_ir_find_const prj k nm)"
    using finds(3) m by (simp add: agree_def ir_find_defs once(1) [OF d(2)])
  show "agree prj (cn_find_public_const prj (Some k) nm) (cn_ir_find_public_const prj k nm)"
    using finds(4) m by (simp add: agree_def ir_find_defs once(2) [OF d(2)])
  show "agree prj (cn_find_struct prj (Some k) nm) (cn_ir_find_struct prj k nm)"
    using finds(5) m by (simp add: agree_def ir_find_defs once(1) [OF d(3)])
  show "agree prj (cn_find_public_struct prj (Some k) nm) (cn_ir_find_public_struct prj k nm)"
    using finds(6) m by (simp add: agree_def ir_find_defs once(2) [OF d(3)])
qed

lemma names_share: "names_import nm d \<Longrightarrow> names_import nm e \<Longrightarrow> share_name d e"
  by (auto simp: share_name_def names_import_def)

lemma import_targets_agree:
  assumes "clear_imports md p"
  shows "(case last_from (names_import nm) 0 (pr_imports p) of None \<Rightarrow> None | Some i \<Rightarrow> import_at md i)
    = (case find_from (names_import nm) 0 (pr_imports p) of None \<Rightarrow> None | Some i \<Rightarrow> import_at md i)"
proof (cases "filter (names_import nm) (pr_imports p) = []")
  case True
  then have "last_from (names_import nm) 0 (pr_imports p) = None" "find_from (names_import nm) 0 (pr_imports p) = None"
    by (simp_all only: last_from_None find_from_None)
  then show ?thesis by simp
next
  case False
  then have "last_from (names_import nm) 0 (pr_imports p) \<noteq> None" "find_from (names_import nm) 0 (pr_imports p) \<noteq> None"
    by (simp_all only: last_from_None find_from_None not_False_eq_True)
  then obtain i j where ij: "last_from (names_import nm) 0 (pr_imports p) = Some i" "find_from (names_import nm) 0 (pr_imports p) = Some j"
    by blast
  have "i < length (pr_imports p)" "names_import nm (pr_imports p ! i)" using last_from_nth [OF ij(1)] by simp_all
  moreover have "j < length (pr_imports p)" "names_import nm (pr_imports p ! j)" using find_from_nth [OF ij(2)] by simp_all
  ultimately have "import_at md i = import_at md j"
    using assms names_share unfolding clear_imports_def by blast
  with ij show ?thesis by simp
qed

lemma imported_module_yields:
  assumes "mod_at prj k = Some md" and "mo_program md = Some p"
  shows "yields prj (cn_find_imported_module prj (Some k) nm)
    (case last_from (names_import nm) 0 (pr_imports p) of None \<Rightarrow> None | Some i \<Rightarrow> import_at md i)"
proof -
  let ?l = "last_from (names_import nm) 0 (pr_imports p)" and ?v = "\<lambda>ix. case ix of None \<Rightarrow> None | Some i \<Rightarrow> import_at md i"
  have "yields prj (\<lambda>cs. do { (ix, cs) \<leftarrow> cn_find_import_decl prj (Some k) nm cs; Some (?v ix, cs) }) (?v ?l)"
    by (rule yields_bind [OF sema_finds_import [OF assms] yields_pure])
  also have "(\<lambda>cs. do { (ix, cs) \<leftarrow> cn_find_import_decl prj (Some k) nm cs; Some (?v ix, cs) }) = cn_find_imported_module prj (Some k) nm"
    by (rule ext) (auto simp: cn_find_imported_module_def assms(1) split: option.split intro!: Option.bind_cong)
  finally show ?thesis .
qed

lemma ir_imported_module:
  assumes "mod_at prj k = Some md" and "mo_program md = Some p"
  shows "cn_ir_find_imported_module prj k nm
    = Some (case find_from (names_import nm) 0 (pr_imports p) of None \<Rightarrow> None | Some i \<Rightarrow> import_at md i)"
  by (simp add: cn_ir_find_imported_module_def ir_finds_import [OF assms] assms(1) split: option.split)

lemma imported_module_agree:
  assumes "loaded prj" and "unambiguous prj" and "k < length (pj_modules prj)"
  shows "agree prj (cn_find_imported_module prj (Some k) nm) (cn_ir_find_imported_module prj k nm)"
proof -
  obtain md p where m: "mod_at prj k = Some md" "mo_program md = Some p" "md \<in> set (pj_modules prj)"
    using assms(1,3) by (rule loaded_module)
  with assms(2) have clear: "clear_imports md p" by (auto simp: unambiguous_def)
  with imported_module_yields [OF m(1,2), of nm] ir_imported_module [OF m(1,2), of nm] show ?thesis
    by (simp add: agree_def import_targets_agree [OF clear])
qed

lemma ir_imported_in_range:
  assumes "loaded prj" and "k < length (pj_modules prj)" and "cn_ir_find_imported_module prj k nm = Some (Some j)"
  shows "j < length (pj_modules prj)"
proof -
  obtain md p where m: "mod_at prj k = Some md" "\<And>i j. import_at md i = Some j \<Longrightarrow> j < length (pj_modules prj)"
    using assms(1,2) by (rule loaded_module) blast
  from assms(3) obtain i where "import_at md i = Some j"
    by (auto simp: cn_ir_find_imported_module_def m(1) Option.bind_eq_Some_conv split: option.splits)
  then show ?thesis by (rule m(2))
qed

lemma source_module_agree:
  assumes "loaded prj" and "unambiguous prj" and "cur < length (pj_modules prj)"
  shows "agree prj (cn_resolve_source_named_module prj cur nm) (cn_ir_resolve_source_named_module prj cur nm)"
proof -
  obtain md where m: "mod_at prj cur = Some md" using assms(3) by (simp add: mod_at_def)
  show ?thesis
    unfolding cn_resolve_source_named_module_def [abs_def] cn_ir_resolve_source_named_module_def m
    using imported_module_agree [OF assms] by (simp add: agree_pure)
qed

lemma canonical_module_agree:
  assumes "loaded prj" and "unambiguous prj" and "cur < length (pj_modules prj)"
  shows "agree prj (cn_resolve_canonical_named_module prj cur nm) (cn_ir_resolve_canonical_named_module prj cur nm)"
proof -
  obtain md where m: "mod_at prj cur = Some md" using assms(3) by (simp add: mod_at_def)
  show ?thesis
    unfolding cn_resolve_canonical_named_module_def [abs_def] cn_ir_resolve_canonical_named_module_def m
    using imported_module_agree [OF assms] by (simp add: agree_pure split: option.split)
qed

lemma source_module_in_range:
  assumes "loaded prj" and "cur < length (pj_modules prj)" and "cn_ir_resolve_source_named_module prj cur nm = Some (Some k)"
  shows "k < length (pj_modules prj)"
  using assms ir_imported_in_range [OF assms(1,2)]
  by (auto simp: cn_ir_resolve_source_named_module_def Option.bind_eq_Some_conv split: if_splits)

lemma find_module_in_range: "cn_project_find_module_by_name prj nm = Some k \<Longrightarrow> k < length (pj_modules prj)"
  using find_from_nth by (fastforce simp: cn_project_find_module_by_name_def)

lemma canonical_module_in_range:
  assumes "loaded prj" and "cur < length (pj_modules prj)" and "cn_ir_resolve_canonical_named_module prj cur nm = Some (Some k)"
  shows "k < length (pj_modules prj)"
  using assms ir_imported_in_range [OF assms(1,2)] find_module_in_range
  by (auto simp: cn_ir_resolve_canonical_named_module_def Option.bind_eq_Some_conv split: if_splits option.splits)

lemma has_program_loaded: "loaded prj \<Longrightarrow> k < length (pj_modules prj) \<Longrightarrow> has_program prj k = Some True"
  by (erule (1) loaded_module) (simp add: has_program_def)

lemma in_module_agree:
  assumes "loaded prj" and "unambiguous prj" and "\<And>k. m = Some k \<Longrightarrow> k < length (pj_modules prj)"
  shows "agree prj (cn_resolve_const_in_module prj m nm) (cn_ir_resolve_const_in_module prj m nm)"
    and "agree prj (cn_resolve_struct_in_module prj m nm) (cn_ir_resolve_struct_in_module prj m nm)"
proof -
  have k: "has_program prj k = Some True" "agree prj (cn_find_const prj (Some k) nm) (cn_ir_find_const prj k nm)"
      "agree prj (cn_find_struct prj (Some k) nm) (cn_ir_find_struct prj k nm)" if "m = Some k" for k
    using has_program_loaded decls_agree assms that by auto
  show "agree prj (cn_resolve_const_in_module prj m nm) (cn_ir_resolve_const_in_module prj m nm)"
    unfolding cn_resolve_const_in_module_def [abs_def] cn_ir_resolve_const_in_module_def
    by (cases m) (simp_all add: agree_pure agree_pair k)
  show "agree prj (cn_resolve_struct_in_module prj m nm) (cn_ir_resolve_struct_in_module prj m nm)"
    unfolding cn_resolve_struct_in_module_def [abs_def] cn_ir_resolve_struct_in_module_def
    by (cases m) (simp_all add: agree_pure agree_pair k)
qed

lemma source_const_agree:
  assumes "loaded prj" and "unambiguous prj" and "cur < length (pj_modules prj)"
  shows "agree prj (cn_resolve_source_named_const prj cur mn nm) (cn_ir_resolve_source_named_const prj cur mn nm)"
  unfolding cn_resolve_source_named_const_def [abs_def] cn_ir_resolve_source_named_const_def
proof (rule agree_bind [OF source_module_agree [OF assms]])
  fix m assume "cn_ir_resolve_source_named_module prj cur mn = Some m"
  then have r: "\<And>k. m = Some k \<Longrightarrow> k < length (pj_modules prj)" using source_module_in_range [OF assms(1,3)] by simp
  have inm: "agree prj (cn_resolve_const_in_module prj m nm) (cn_ir_resolve_const_in_module prj m nm)"
    by (rule in_module_agree [OF assms(1,2)]) (rule r)
  show "agree prj (\<lambda>cs. case m of None \<Rightarrow> cn_resolve_const_in_module prj None nm cs
      | Some k \<Rightarrow> if k = cur then cn_resolve_const_in_module prj m nm cs
          else do { (d, cs) \<leftarrow> cn_find_public_const prj m nm cs; Some (pair_with k d, cs) })
    (case m of None \<Rightarrow> cn_ir_resolve_const_in_module prj None nm
      | Some k \<Rightarrow> if k = cur then cn_ir_resolve_const_in_module prj m nm
          else do { d \<leftarrow> cn_ir_find_public_const prj k nm; Some (pair_with k d) })"
    using inm decls_agree(4) [OF assms(1,2)] r by (cases m) (auto simp: agree_pair)
qed

lemma source_struct_agree:
  assumes "loaded prj" and "unambiguous prj" and "cur < length (pj_modules prj)"
  shows "agree prj (cn_resolve_source_named_struct prj cur mn nm) (cn_ir_resolve_source_named_struct prj cur mn nm)"
  unfolding cn_resolve_source_named_struct_def [abs_def] cn_ir_resolve_source_named_struct_def
proof (rule agree_bind [OF source_module_agree [OF assms]])
  fix m assume "cn_ir_resolve_source_named_module prj cur mn = Some m"
  then have r: "\<And>k. m = Some k \<Longrightarrow> k < length (pj_modules prj)" using source_module_in_range [OF assms(1,3)] by simp
  have inm: "agree prj (cn_resolve_struct_in_module prj m nm) (cn_ir_resolve_struct_in_module prj m nm)"
    by (rule in_module_agree [OF assms(1,2)]) (rule r)
  show "agree prj (\<lambda>cs. case m of None \<Rightarrow> cn_resolve_struct_in_module prj None nm cs
      | Some k \<Rightarrow> if k = cur then cn_resolve_struct_in_module prj m nm cs
          else do { (d, cs) \<leftarrow> cn_find_public_struct prj m nm cs; Some (pair_with k d, cs) })
    (case m of None \<Rightarrow> cn_ir_resolve_struct_in_module prj None nm
      | Some k \<Rightarrow> if k = cur then cn_ir_resolve_struct_in_module prj m nm
          else do { d \<leftarrow> cn_ir_find_public_struct prj k nm; Some (pair_with k d) })"
    using inm decls_agree(6) [OF assms(1,2)] r by (cases m) (auto simp: agree_pair)
qed

lemma canonical_struct_agree:
  assumes "loaded prj" and "unambiguous prj" and "cur < length (pj_modules prj)"
  shows "agree prj (cn_resolve_canonical_named_struct prj cur mn nm) (cn_ir_resolve_canonical_named_struct prj cur mn nm)"
  unfolding cn_resolve_canonical_named_struct_def [abs_def] cn_ir_resolve_canonical_named_struct_def
proof (rule agree_bind [OF canonical_module_agree [OF assms]])
  fix m assume "cn_ir_resolve_canonical_named_module prj cur mn = Some m"
  then have "\<And>k. m = Some k \<Longrightarrow> k < length (pj_modules prj)" using canonical_module_in_range [OF assms(1,3)] by simp
  then show "agree prj (cn_resolve_struct_in_module prj m nm) (cn_ir_resolve_struct_in_module prj m nm)"
    by (rule in_module_agree [OF assms(1,2)])
qed

text \<open>The checker's search from given caches, and the lowering's, come back with one answer.\<close>

definition same_answer :: "cn_project \<Rightarrow> sym_caches \<Rightarrow> 'a sema \<Rightarrow> 'a option \<Rightarrow> bool" where
  "same_answer prj cs f g \<longleftrightarrow> (case f cs of None \<Rightarrow> False | Some (v, cs') \<Rightarrow> caches_ok prj cs' \<and> g = Some v)"

lemma same_answerI: "agree prj f g \<Longrightarrow> caches_ok prj cs \<Longrightarrow> same_answer prj cs f g"
  by (auto simp: agree_def same_answer_def elim!: yieldsD)

text \<open>
  C34: in a loaded project whose modules declare each function, constant and struct name once and whose
  imports are clear, the checker, whatever it has cached so far, and the lowering give the same answer to
  every question about names: local and public functions, imported modules, constants and structs by
  source name, and structs by canonical name. Neither follows a null pointer, every probe of a
  table ends, and the caches stay sound.
\<close>

theorem checker_and_lowering_agree:
  assumes "loaded prj" and "unambiguous prj" and "caches_ok prj cs" and "cur < length (pj_modules prj)"
  shows "same_answer prj cs (cn_find_local_function prj (Some cur) nm) (cn_ir_find_local_function prj cur nm)
    \<and> same_answer prj cs (cn_find_public_function prj (Some cur) nm) (cn_ir_find_public_function prj cur nm)
    \<and> same_answer prj cs (cn_find_imported_module prj (Some cur) nm) (cn_ir_find_imported_module prj cur nm)
    \<and> same_answer prj cs (cn_resolve_source_named_const prj cur mn nm) (cn_ir_resolve_source_named_const prj cur mn nm)
    \<and> same_answer prj cs (cn_resolve_source_named_struct prj cur mn nm) (cn_ir_resolve_source_named_struct prj cur mn nm)
    \<and> same_answer prj cs (cn_resolve_canonical_named_struct prj cur mn nm) (cn_ir_resolve_canonical_named_struct prj cur mn nm)"
proof (intro conjI)
  note here = assms(1,2,4)
  show "same_answer prj cs (cn_find_local_function prj (Some cur) nm) (cn_ir_find_local_function prj cur nm)"
    by (rule same_answerI [OF decls_agree(1) [OF here] assms(3)])
  show "same_answer prj cs (cn_find_public_function prj (Some cur) nm) (cn_ir_find_public_function prj cur nm)"
    by (rule same_answerI [OF decls_agree(2) [OF here] assms(3)])
  show "same_answer prj cs (cn_find_imported_module prj (Some cur) nm) (cn_ir_find_imported_module prj cur nm)"
    by (rule same_answerI [OF imported_module_agree [OF here] assms(3)])
  show "same_answer prj cs (cn_resolve_source_named_const prj cur mn nm) (cn_ir_resolve_source_named_const prj cur mn nm)"
    by (rule same_answerI [OF source_const_agree [OF here] assms(3)])
  show "same_answer prj cs (cn_resolve_source_named_struct prj cur mn nm) (cn_ir_resolve_source_named_struct prj cur mn nm)"
    by (rule same_answerI [OF source_struct_agree [OF here] assms(3)])
  show "same_answer prj cs (cn_resolve_canonical_named_struct prj cur mn nm) (cn_ir_resolve_canonical_named_struct prj cur mn nm)"
    by (rule same_answerI [OF canonical_struct_agree [OF here] assms(3)])
qed

text \<open>A module with given imports and constants, and a project in which one module imports another.\<close>

definition sample_const :: "string \<Rightarrow> bool \<Rightarrow> cn_const_decl" where
  "sample_const nm public = \<lparr>cd_is_public = public, cd_name = nm, cd_type = CnType CN_TYPE_INT [] [] None None 0 0,
     cd_initializer = CN_EXPR_INT 0 1, cd_sema_checked = False, cd_sema_checking = False, cd_offset = 0\<rparr>"

definition sample_import :: "string \<Rightarrow> string \<Rightarrow> cn_import_decl" where
  "sample_import m a = \<lparr>im_module_name = m, im_alias = a, im_has_alias = True, im_offset = 0\<rparr>"

definition sample_module :: "string \<Rightarrow> (string \<times> string \<times> nat) list \<Rightarrow> cn_const_decl list \<Rightarrow> cn_module" where
  "sample_module nm ims cs = \<lparr>mo_is_builtin_stdlib = False, mo_name = nm, mo_path = [], mo_directory = [],
     mo_source = \<lparr>src_path = [], src_text = [], src_length = 0, line_offsets = [], line_count = 0\<rparr>,
     mo_program = Some \<lparr>pr_imports = map (\<lambda>(m, a, _). sample_import m a) ims, pr_consts = cs, pr_structs = [], pr_functions = []\<rparr>,
     mo_imports = map (\<lambda>(_, _, k). Some k) ims, mo_loading = False\<rparr>"

definition sample_project :: "cn_module list \<Rightarrow> cn_project" where
  "sample_project ms = \<lparr>pj_modules = ms, pj_project_root = None, pj_vendor_root = None, pj_root = Some 0\<rparr>"

lemmas sample_defs = sample_const_def sample_import_def sample_module_def sample_project_def

definition import_once :: cn_project where
  "import_once = sample_project [sample_module ''main'' [(''lib'', ''l'', 1)] [sample_const ''a'' False],
     sample_module ''lib'' [] [sample_const ''b'' True]]"

theorem checker_and_lowering_agree_witness:
  "loaded import_once \<and> unambiguous import_once \<and> caches_ok import_once [] \<and> 0 < length (pj_modules import_once)
    \<and> same_answer import_once [] (cn_resolve_source_named_const import_once 0 ''l'' ''b'') (cn_ir_resolve_source_named_const import_once 0 ''l'' ''b'')
    \<and> cn_ir_resolve_source_named_const import_once 0 ''l'' ''b'' = Some (Some (1, 0))"
proof -
  have l: "loaded import_once" and u: "unambiguous import_once" and c: "caches_ok import_once []"
    and n: "0 < length (pj_modules import_once)"
    by (simp_all add: import_once_def sample_defs loaded_def unambiguous_def distinct_names_def clear_imports_def caches_ok_def)
  moreover have "cn_ir_resolve_source_named_const import_once 0 ''l'' ''b'' = Some (Some (1, 0))"
    by (simp add: import_once_def sample_defs cn_ir_resolve_source_named_const_def cn_ir_resolve_source_named_module_def
      cn_ir_find_imported_module_def ir_find_defs mod_at_def import_at_def pair_with_def)
  ultimately show ?thesis using checker_and_lowering_agree [OF l u c n, of "''b''" "''l''"] by simp
qed

end
