(* ===== verification/Module_Header.thy ===== *)
theory Module_Header
  imports Resolution
begin

text \<open>
  The checks of a module's top-level names, \<open>cn_check_module_header\<close> of \<open>src/sema/typecheck.c\<close>. The
  loops over constants, structs and functions have one shape; the tables map a name to the index of
  its first declaration. \<^term>\<open>None\<close> stands for a pointer followed out of range.
\<close>

section \<open>The checks\<close>

definition elem_at :: "'a list \<Rightarrow> nat \<Rightarrow> 'a option" where
  "elem_at xs i = (if i < length xs then Some (xs ! i) else None)"

definition cn_emit_top_level_name_conflict :: "cn_diag_bag \<Rightarrow> nat \<Rightarrow> string \<Rightarrow> string \<Rightarrow> string \<Rightarrow> cn_diag_bag" where
  "cn_emit_top_level_name_conflict bag off name_kind nm other_kind =
     cn_diag_emit bag CN_DIAG_ERROR ''E3027'' off
       (name_kind @ '' name '' @ c_quote @ nm @ c_quote @ '' conflicts with existing '' @ other_kind)"

type_synonym header_state = "nat cn_name_map \<times> cn_diag_bag"

fun check_duplicates :: "string \<Rightarrow> string \<Rightarrow> ('d \<Rightarrow> string) \<Rightarrow> ('d \<Rightarrow> nat) \<Rightarrow> nat \<Rightarrow> 'd list \<Rightarrow> header_state \<Rightarrow> header_state option" where
  "check_duplicates ec word nf off i [] (m, bag) = Some (m, bag)"
| "check_duplicates ec word nf off i (d # ds) (m, bag) = do {
     previous \<leftarrow> cn_name_map_lookup_value m (nf d);
     if previous \<noteq> None
     then check_duplicates ec word nf off (Suc i) ds
       (m, cn_diag_emit bag CN_DIAG_ERROR ec (off d) (''duplicate '' @ word @ '' '' @ c_quote @ nf d @ c_quote))
     else do {
       (_, m) \<leftarrow> cn_name_map_insert m (nf d) (Some i) 0 False;
       check_duplicates ec word nf off (Suc i) ds (m, bag) } }"

text \<open>The lookup of a name in the table of another kind, and the conflict it reports.\<close>

definition report_conflict :: "nat cn_name_map \<Rightarrow> 'd list \<Rightarrow> ('d \<Rightarrow> string) \<Rightarrow> ('d \<Rightarrow> nat) \<Rightarrow> string \<Rightarrow> string \<Rightarrow> string
    \<Rightarrow> cn_diag_bag \<Rightarrow> cn_diag_bag option" where
  "report_conflict m ds nf off name_kind other_kind key bag = do {
     found \<leftarrow> cn_name_map_lookup_value m key;
     (case found of
        None \<Rightarrow> Some bag
      | Some j \<Rightarrow> do { d \<leftarrow> elem_at ds j; Some (cn_emit_top_level_name_conflict bag (off d) name_kind (nf d) other_kind) }) }"

fun check_import_aliases :: "cn_module \<Rightarrow> cn_program \<Rightarrow> nat cn_name_map \<Rightarrow> nat cn_name_map \<Rightarrow> nat \<Rightarrow> cn_import_decl list
    \<Rightarrow> header_state \<Rightarrow> header_state option" where
  "check_import_aliases md p const_names function_names i [] (m, bag) = Some (m, bag)"
| "check_import_aliases md p const_names function_names i (d # ds) (m, bag) = do {
     imported \<leftarrow> elem_at (mo_imports md) i;
     if imported = None then check_import_aliases md p const_names function_names (Suc i) ds (m, bag)
     else do {
       previous \<leftarrow> cn_name_map_lookup_value m (im_alias d);
       (m, bag) \<leftarrow> (if previous \<noteq> None
         then Some (m, cn_diag_emit bag CN_DIAG_ERROR ''E3016'' (im_offset d)
           (''duplicate import alias '' @ c_quote @ im_alias d @ c_quote))
         else do { (_, m) \<leftarrow> cn_name_map_insert m (im_alias d) (Some i) 0 False; Some (m, bag) });
       bag \<leftarrow> report_conflict const_names (pr_consts p) cd_name cd_offset ''constant'' ''import alias'' (im_alias d) bag;
       bag \<leftarrow> report_conflict function_names (pr_functions p) fn_name fn_offset ''function'' ''import alias'' (im_alias d) bag;
       check_import_aliases md p const_names function_names (Suc i) ds (m, bag) } }"

fun check_function_consts :: "cn_program \<Rightarrow> nat cn_name_map \<Rightarrow> cn_function list \<Rightarrow> cn_diag_bag \<Rightarrow> cn_diag_bag option" where
  "check_function_consts p const_names [] bag = Some bag"
| "check_function_consts p const_names (f # fs) bag = do {
     bag \<leftarrow> report_conflict const_names (pr_consts p) cd_name cd_offset ''constant'' ''function'' (fn_name f) bag;
     check_function_consts p const_names fs bag }"

definition cn_check_module_header :: "cn_module \<Rightarrow> cn_diag_bag \<Rightarrow> (bool \<times> cn_diag_bag) option" where
  "cn_check_module_header md bag = do {
     p \<leftarrow> mo_program md;
     (const_names, bag) \<leftarrow> check_duplicates ''E3027'' ''constant'' cd_name cd_offset 0 (pr_consts p) (zero_map, bag);
     (struct_names, bag) \<leftarrow> check_duplicates ''E3013'' ''struct'' sd_name sd_offset 0 (pr_structs p) (zero_map, bag);
     (function_names, bag) \<leftarrow> check_duplicates ''E3001'' ''function'' fn_name fn_offset 0 (pr_functions p) (zero_map, bag);
     (import_aliases, bag) \<leftarrow> check_import_aliases md p const_names function_names 0 (pr_imports p) (zero_map, bag);
     bag \<leftarrow> check_function_consts p const_names (pr_functions p) bag;
     Some (\<not> cn_diag_has_error bag, bag) }"

section \<open>What they count\<close>

fun repeats :: "string set \<Rightarrow> string list \<Rightarrow> nat" where
  "repeats S [] = 0"
| "repeats S (x # xs) = (if x \<in> S then 1 else 0) + repeats (insert x S) xs"

lemma repeats_zero: "repeats S xs = 0 \<longleftrightarrow> distinct xs \<and> set xs \<inter> S = {}"
  by (induction xs arbitrary: S) auto

text \<open>A table holds a set of names, each with an index below a bound.\<close>

definition holds :: "nat cn_name_map \<Rightarrow> string set \<Rightarrow> nat \<Rightarrow> bool" where
  "holds m S n \<longleftrightarrow> nm_invar m \<and> dom (nm_map m) = S \<and> (\<forall>key v i. nm_map m key = Some (v, i) \<longrightarrow> (\<exists>j < n. v = Some j))"

lemma holds_zero: "holds zero_map {} n"
  by (simp add: holds_def zero_map_laws)

lemma holds_lookup:
  assumes "holds m S n"
  shows "\<exists>v. cn_name_map_lookup_value m key = Some v \<and> (v \<noteq> None \<longleftrightarrow> key \<in> S) \<and> (\<forall>j. v = Some j \<longrightarrow> j < n)"
proof (cases "nm_map m key")
  case None
  then have "key \<notin> S" using assms by (auto simp: holds_def)
  moreover have "cn_name_map_lookup_value m key = Some None" using None assms by (simp add: holds_def names.value_law)
  ultimately show ?thesis by simp
next
  case (Some e)
  obtain v i where e: "e = (v, i)" by (cases e)
  with Some assms have "\<exists>j < n. v = Some j" and "key \<in> S" unfolding holds_def by blast+
  moreover have "cn_name_map_lookup_value m key = Some v" using Some e assms by (simp add: holds_def names.value_law)
  ultimately show ?thesis by auto
qed

lemma holds_mono: "holds m S n \<Longrightarrow> n \<le> k \<Longrightarrow> holds m S k"
  unfolding holds_def by (meson less_le_trans)

lemma holds_insert:
  assumes "holds m S n" and "key \<notin> S"
  obtains m' where "cn_name_map_insert m key (Some n) 0 False = Some (True, m')" and "holds m' (insert key S) (Suc n)"
proof -
  have none: "nm_map m key = None" using assms by (auto simp: holds_def)
  have inv: "nm_invar m" using assms(1) by (simp add: holds_def)
  from names.ins_law [OF inv, of key "Some n" 0 False] none obtain m' where
    m': "cn_name_map_insert m key (Some n) 0 False = Some (True, m')" "nm_invar m'" "nm_map m' = (nm_map m)(key \<mapsto> (Some n, 0))"
    by auto
  have "\<exists>j < Suc n. v = Some j" if "nm_map m' k = Some (v, i)" for k v i
    using that assms(1) by (auto simp: m'(3) holds_def less_Suc_eq split: if_splits)
  with m' assms(1) have "holds m' (insert key S) (Suc n)" by (auto simp: holds_def)
  with m'(1) that show ?thesis by blast
qed

lemma check_duplicates_spec:
  assumes "holds m S i" and "diag_invar bag"
  shows "\<exists>m' bag'. check_duplicates ec word nf off i ds (m, bag) = Some (m', bag') \<and> holds m' (S \<union> nf ` set ds) (i + length ds)
    \<and> diag_invar bag' \<and> error_count bag' = error_count bag + repeats S (map nf ds)"
  using assms
proof (induction ds arbitrary: i m S bag)
  case (Cons d ds)
  obtain v where v: "cn_name_map_lookup_value m (nf d) = Some v" "v \<noteq> None \<longleftrightarrow> nf d \<in> S"
    using holds_lookup [OF Cons.prems(1)] by blast
  show ?case
  proof (cases "nf d \<in> S")
    case True
    have "holds m S (Suc i)" using Cons.prems(1) by (rule holds_mono) simp
    note next_one = Cons.IH [OF this cn_diag_emit_invar [OF Cons.prems(2)], of CN_DIAG_ERROR ec "off d"
      "''duplicate '' @ word @ '' '' @ c_quote @ nf d @ c_quote"]
    with v True Cons.prems(2) show ?thesis by (simp add: error_count_emit insert_absorb)
  next
    case False
    obtain m1 where "cn_name_map_insert m (nf d) (Some i) 0 False = Some (True, m1)" "holds m1 (insert (nf d) S) (Suc i)"
      using Cons.prems(1) False by (rule holds_insert)
    with Cons.IH [OF this(2) Cons.prems(2)] v False show ?thesis by simp
  qed
qed simp

lemma report_conflict_spec:
  assumes "holds m S (length ds)" and "diag_invar bag"
  shows "\<exists>bag'. report_conflict m ds nf off k1 k2 key bag = Some bag' \<and> diag_invar bag'
    \<and> error_count bag' = error_count bag + (if key \<in> S then 1 else 0)"
proof -
  obtain v where v: "cn_name_map_lookup_value m key = Some v" "v \<noteq> None \<longleftrightarrow> key \<in> S" "\<forall>j. v = Some j \<longrightarrow> j < length ds"
    using holds_lookup [OF assms(1)] by blast
  then show ?thesis using assms(2)
    by (cases v) (auto simp: report_conflict_def elem_at_def cn_emit_top_level_name_conflict_def error_count_emit)
qed

text \<open>The aliases of the imports that were resolved.\<close>

definition resolved_aliases :: "cn_module \<Rightarrow> nat \<Rightarrow> cn_import_decl list \<Rightarrow> string list" where
  "resolved_aliases md i ds = map fst (filter (\<lambda>(_, t). t \<noteq> None) (zip (map im_alias ds) (drop i (mo_imports md))))"

lemma resolved_aliases_Cons:
  "i < length (mo_imports md) \<Longrightarrow> resolved_aliases md i (d # ds) =
     (if mo_imports md ! i = None then [] else [im_alias d]) @ resolved_aliases md (Suc i) ds"
  by (simp add: resolved_aliases_def Cons_nth_drop_Suc [symmetric])

lemma check_import_aliases_spec:
  assumes "holds m S i" and "diag_invar bag" and "i + length ds = length (mo_imports md)"
    and "holds cm CS (length (pr_consts p))" and "holds fm FS (length (pr_functions p))"
  shows "\<exists>m' bag'. check_import_aliases md p cm fm i ds (m, bag) = Some (m', bag') \<and> diag_invar bag'
    \<and> error_count bag' = error_count bag + repeats S (resolved_aliases md i ds)
        + length (filter (\<lambda>a. a \<in> CS) (resolved_aliases md i ds)) + length (filter (\<lambda>a. a \<in> FS) (resolved_aliases md i ds))"
  using assms(1-3)
proof (induction ds arbitrary: i m S bag)
  case Nil
  then show ?case by (simp add: resolved_aliases_def)
next
  case (Cons d ds)
  have i: "i < length (mo_imports md)" and ds: "Suc i + length ds = length (mo_imports md)" using Cons.prems(3) by simp_all
  have up: "holds m S (Suc i)" using Cons.prems(1) by (rule holds_mono) simp
  note aliases = resolved_aliases_Cons [OF i, of d ds]
  show ?case
  proof (cases "mo_imports md ! i")
    case None
    with Cons.IH [OF up Cons.prems(2) ds] i aliases show ?thesis by (simp add: elem_at_def)
  next
    case (Some t)
    obtain v where v: "cn_name_map_lookup_value m (im_alias d) = Some v" "v \<noteq> None \<longleftrightarrow> im_alias d \<in> S"
      using holds_lookup [OF Cons.prems(1)] by blast
    obtain m1 b1 where b1: "(if v \<noteq> None then Some (m, cn_diag_emit bag CN_DIAG_ERROR ''E3016'' (im_offset d)
           (''duplicate import alias '' @ c_quote @ im_alias d @ c_quote))
         else do { (_, m) \<leftarrow> cn_name_map_insert m (im_alias d) (Some i) 0 False; Some (m, bag) }) = Some (m1, b1)"
        "holds m1 (insert (im_alias d) S) (Suc i)" "diag_invar b1" "error_count b1 = error_count bag + (if im_alias d \<in> S then 1 else 0)"
    proof (cases "im_alias d \<in> S")
      case True
      with that v up Cons.prems(2) show ?thesis by (simp add: insert_absorb error_count_emit)
    next
      case False
      obtain m1 where "cn_name_map_insert m (im_alias d) (Some i) 0 False = Some (True, m1)" "holds m1 (insert (im_alias d) S) (Suc i)"
        using Cons.prems(1) False by (rule holds_insert)
      with that v Cons.prems(2) False show ?thesis by simp
    qed
    obtain b2 where b2: "report_conflict cm (pr_consts p) cd_name cd_offset ''constant'' ''import alias'' (im_alias d) b1 = Some b2"
        "diag_invar b2" "error_count b2 = error_count b1 + (if im_alias d \<in> CS then 1 else 0)"
      using report_conflict_spec [OF assms(4) b1(3)] by blast
    obtain b3 where b3: "report_conflict fm (pr_functions p) fn_name fn_offset ''function'' ''import alias'' (im_alias d) b2 = Some b3"
        "diag_invar b3" "error_count b3 = error_count b2 + (if im_alias d \<in> FS then 1 else 0)"
      using report_conflict_spec [OF assms(5) b2(2)] by blast
    obtain m' b' where b': "check_import_aliases md p cm fm (Suc i) ds (m1, b3) = Some (m', b')" "diag_invar b'"
        "error_count b' = error_count b3 + repeats (insert (im_alias d) S) (resolved_aliases md (Suc i) ds)
        + length (filter (\<lambda>a. a \<in> CS) (resolved_aliases md (Suc i) ds)) + length (filter (\<lambda>a. a \<in> FS) (resolved_aliases md (Suc i) ds))"
      using Cons.IH [OF b1(2) b3(2) ds] by blast
    have "check_import_aliases md p cm fm i (d # ds) (m, bag) = Some (m', b')"
      using Some i v(1) b1(1) b2(1) b3(1) b'(1) by (simp add: elem_at_def)
    with b' b1(4) b2(3) b3(3) aliases Some show ?thesis by simp
  qed
qed

lemma check_function_consts_spec:
  assumes "holds cm CS (length (pr_consts p))" and "diag_invar bag"
  shows "\<exists>bag'. check_function_consts p cm fs bag = Some bag' \<and> diag_invar bag'
    \<and> error_count bag' = error_count bag + length (filter (\<lambda>f. fn_name f \<in> CS) fs)"
  using assms(2)
proof (induction fs arbitrary: bag)
  case (Cons f fs)
  obtain b where b: "report_conflict cm (pr_consts p) cd_name cd_offset ''constant'' ''function'' (fn_name f) bag = Some b"
      "diag_invar b" "error_count b = error_count bag + (if fn_name f \<in> CS then 1 else 0)"
    using report_conflict_spec [OF assms(1) Cons.prems] by blast
  with Cons.IH [OF b(2)] show ?case by auto
qed simp

section \<open>What the header check accepts\<close>

definition header_ok :: "cn_module \<Rightarrow> cn_program \<Rightarrow> bool" where
  "header_ok md p \<longleftrightarrow> distinct_names p
     \<and> distinct (resolved_aliases md 0 (pr_imports p))
     \<and> set (resolved_aliases md 0 (pr_imports p)) \<inter> (cd_name ` set (pr_consts p) \<union> fn_name ` set (pr_functions p)) = {}
     \<and> fn_name ` set (pr_functions p) \<inter> cd_name ` set (pr_consts p) = {}"

text \<open>The number of errors it reports.\<close>

definition header_faults :: "cn_module \<Rightarrow> cn_program \<Rightarrow> nat" where
  "header_faults md p = repeats {} (map cd_name (pr_consts p)) + repeats {} (map sd_name (pr_structs p))
        + repeats {} (map fn_name (pr_functions p)) + repeats {} (resolved_aliases md 0 (pr_imports p))
        + length (filter (\<lambda>a. a \<in> cd_name ` set (pr_consts p)) (resolved_aliases md 0 (pr_imports p)))
        + length (filter (\<lambda>a. a \<in> fn_name ` set (pr_functions p)) (resolved_aliases md 0 (pr_imports p)))
        + length (filter (\<lambda>f. fn_name f \<in> cd_name ` set (pr_consts p)) (pr_functions p))"

lemma header_counts:
  assumes "mo_program md = Some p" and "length (mo_imports md) = length (pr_imports p)" and "diag_invar bag"
  shows "\<exists>bag'. cn_check_module_header md bag = Some (\<not> cn_diag_has_error bag', bag') \<and> diag_invar bag'
    \<and> error_count bag' = error_count bag + header_faults md p"
proof -
  note dup = check_duplicates_spec [OF holds_zero]
  from dup [OF assms(3)] obtain cm b1 where 1:
    "check_duplicates ''E3027'' ''constant'' cd_name cd_offset 0 (pr_consts p) (zero_map, bag) = Some (cm, b1)" "diag_invar b1"
    "holds cm (cd_name ` set (pr_consts p)) (length (pr_consts p))" "error_count b1 = error_count bag + repeats {} (map cd_name (pr_consts p))"
    by fastforce
  from dup [OF 1(2)] obtain sm b2 where 2:
    "check_duplicates ''E3013'' ''struct'' sd_name sd_offset 0 (pr_structs p) (zero_map, b1) = Some (sm, b2)" "diag_invar b2"
    "error_count b2 = error_count b1 + repeats {} (map sd_name (pr_structs p))"
    by fastforce
  from dup [OF 2(2)] obtain fm b3 where 3:
    "check_duplicates ''E3001'' ''function'' fn_name fn_offset 0 (pr_functions p) (zero_map, b2) = Some (fm, b3)" "diag_invar b3"
    "holds fm (fn_name ` set (pr_functions p)) (length (pr_functions p))" "error_count b3 = error_count b2 + repeats {} (map fn_name (pr_functions p))"
    by fastforce
  have n: "0 + length (pr_imports p) = length (mo_imports md)" using assms(2) by simp
  from check_import_aliases_spec [OF holds_zero 3(2) n 1(3) 3(3)] obtain am b4 where 4:
    "check_import_aliases md p cm fm 0 (pr_imports p) (zero_map, b3) = Some (am, b4)" "diag_invar b4"
    "error_count b4 = error_count b3 + repeats {} (resolved_aliases md 0 (pr_imports p))
        + length (filter (\<lambda>a. a \<in> cd_name ` set (pr_consts p)) (resolved_aliases md 0 (pr_imports p)))
        + length (filter (\<lambda>a. a \<in> fn_name ` set (pr_functions p)) (resolved_aliases md 0 (pr_imports p)))"
    by blast
  from check_function_consts_spec [OF 1(3) 4(2), of "pr_functions p"] obtain b5 where 5:
    "check_function_consts p cm (pr_functions p) b4 = Some b5" "diag_invar b5"
    "error_count b5 = error_count b4 + length (filter (\<lambda>f. fn_name f \<in> cd_name ` set (pr_consts p)) (pr_functions p))"
    by blast
  have "cn_check_module_header md bag = Some (\<not> cn_diag_has_error b5, b5)"
    unfolding cn_check_module_header_def assms(1) by (simp only: Option.bind.simps 1(1) 2(1) 3(1) 4(1) 5(1) prod.case)
  moreover have "error_count b5 = error_count bag + header_faults md p"
    using 1(4) 2(3) 3(4) 4(3) 5(3) unfolding header_faults_def by linarith
  ultimately show ?thesis using 5(2) by blast
qed

lemma none_in_filter: "length (filter (\<lambda>x. f x \<in> S) xs) = 0 \<longleftrightarrow> f ` set xs \<inter> S = {}"
  by (auto simp: filter_empty_conv)

lemma no_faults: "header_faults md p = 0 \<longleftrightarrow> header_ok md p"
  unfolding header_faults_def header_ok_def distinct_names_def add_eq_0_iff_both_eq_0 repeats_zero
    none_in_filter [where f = "\<lambda>a. a", simplified image_ident] none_in_filter [where f = fn_name] Int_Un_distrib Un_empty Int_empty_right
  by blast

text \<open>
  C33: on a module whose imports have been looked up, the header check ends, and it answers true exactly
  when no error was reported before and the names are in order: no constant, struct or
  function is declared twice, no two resolved imports have one alias, and no alias, function and constant
  share a name. Otherwise there are more errors afterwards than before.
\<close>

theorem header_accepts_iff:
  assumes "mo_program md = Some p" and "length (mo_imports md) = length (pr_imports p)" and "diag_invar bag"
  shows "\<exists>bag'. cn_check_module_header md bag = Some (\<not> cn_diag_has_error bag \<and> header_ok md p, bag') \<and> diag_invar bag'
    \<and> (if header_ok md p then error_count bag' = error_count bag else error_count bag < error_count bag')"
proof -
  obtain bag' where *: "cn_check_module_header md bag = Some (\<not> cn_diag_has_error bag', bag')" "diag_invar bag'"
      "error_count bag' = error_count bag + header_faults md p"
    using header_counts [OF assms] by blast
  with no_faults [of md p] show ?thesis by (auto simp: cn_diag_has_error_iff)
qed

theorem header_accepts_iff_witness:
  "let md = sample_module ''main'' [(''lib'', ''l'', 1)] [sample_const ''a'' False, sample_const ''a'' True] in
   mo_program md \<noteq> None \<and> \<not> header_ok md (the (mo_program md)) \<and> diag_invar (cn_diag_bag_init None)
   \<and> (\<exists>bag'. cn_check_module_header md (cn_diag_bag_init None) = Some (False, bag') \<and> 0 < error_count bag')"
proof -
  let ?md = "sample_module ''main'' [(''lib'', ''l'', 1)] [sample_const ''a'' False, sample_const ''a'' True]"
  let ?p = "the (mo_program ?md)"
  have p: "mo_program ?md = Some ?p" and n: "length (mo_imports ?md) = length (pr_imports ?p)"
    and bad: "\<not> header_ok ?md ?p"
    by (simp_all add: sample_defs header_ok_def distinct_names_def)
  from header_accepts_iff [OF p n cn_diag_bag_init_laws(1)] bad p show ?thesis unfolding Let_def
    by (fastforce simp: cn_diag_bag_init_laws)
qed

section \<open>A clash of imports that the header check lets through\<close>

text \<open>\<open>import a as b; import b as c;\<close> where the modules \<open>a\<close> and \<open>b\<close> have a public constant each.\<close>

definition import_clash :: cn_project where
  "import_clash = sample_project [sample_module ''main'' [(''a'', ''b'', 1), (''b'', ''c'', 2)] [],
     sample_module ''a'' [] [sample_const ''v'' True], sample_module ''b'' [] [sample_const ''v'' True]]"

text \<open>
  C40: a module that imports \<open>a\<close> as \<open>b\<close> and \<open>b\<close> as \<open>c\<close> passes the header check. For the checker, which
  enters module names and aliases into one table and lets the last one stand, the
  name \<open>b\<close> is then the module \<open>b\<close>; the lowering, which takes the first import with that alias or module
  name, finds the module \<open>a\<close>. What is compiled is not what was checked.
\<close>

theorem import_clash_is_accepted:
  "(\<exists>bag'. cn_check_module_header (pj_modules import_clash ! 0) (cn_diag_bag_init None) = Some (True, bag') \<and> error_count bag' = 0)
   \<and> (\<exists>cs. cn_find_imported_module import_clash (Some 0) ''b'' [] = Some (Some 2, cs))
   \<and> cn_ir_find_imported_module import_clash 0 ''b'' = Some (Some 1)"
proof (intro conjI)
  let ?md = "pj_modules import_clash ! 0"
  let ?p = "the (mo_program ?md)"
  have md: "mod_at import_clash 0 = Some ?md" and p: "mo_program ?md = Some ?p"
    and n: "length (mo_imports ?md) = length (pr_imports ?p)" and ok: "header_ok ?md ?p"
    by (simp_all add: import_clash_def sample_defs mod_at_def header_ok_def distinct_names_def resolved_aliases_def)
  have "error_count (cn_diag_bag_init None) = 0" by (simp add: error_count_def)
  with header_counts [OF p n cn_diag_bag_init_laws(1), of None] no_faults [of ?md ?p] ok
  show "\<exists>bag'. cn_check_module_header ?md (cn_diag_bag_init None) = Some (True, bag') \<and> error_count bag' = 0"
    by (fastforce simp: cn_diag_has_error_iff)
  have "caches_ok import_clash []" by (simp add: caches_ok_def)
  with imported_module_yields [OF md p, of "''b''"]
  show "\<exists>cs. cn_find_imported_module import_clash (Some 0) ''b'' [] = Some (Some 2, cs)"
    by (auto simp: yields_def import_clash_def sample_defs names_import_def import_at_def)
  show "cn_ir_find_imported_module import_clash 0 ''b'' = Some (Some 1)"
    unfolding ir_imported_module [OF md p]
    by (simp add: import_clash_def sample_defs names_import_def import_at_def)
qed

end
