(* ===== verification/Sema_Core.thy ===== *)
theory Sema_Core
  imports Module_Header
begin

text \<open>
  The semantic checker, \<open>src/sema/typecheck.c\<close>, first part: its context, types, scopes and the proofs
  that a result is ok. A checker function is a state transformer on the context with three
  outcomes: it returns, it meets undefined behaviour (it follows a null or dangling pointer, or a
  signed operation overflows), or it runs out of the fuel that bounds the recursion.

  Types are trees; a missing inner type counts as a null pointer where it is read. The checker
  writes canonical module names and array sizes into the types of declarations, so the
  project is part of the context; what it writes into the statements of a function
  body is only read by the lowering and is not kept. The list of temporary types, which only keeps
  memory alive, has no counterpart. A binding is named by a number that stands for its address, and a
  scope with its parents is a list, innermost first; a null scope is the empty list.
\<close>

section \<open>Context and outcomes\<close>

datatype fault = NullPointer | SignedOverflow

record cn_sema_ctx =
  cx_project :: cn_project
  cx_module :: "nat option"
  cx_diagnostics :: cn_diag_bag
  cx_current_function :: "(nat \<times> nat) option"
  cx_module_caches :: sym_caches
  cx_next_binding :: nat

datatype 'a outcome = Done 'a cn_sema_ctx | Fault fault | Fuel

type_synonym 'a cm = "cn_sema_ctx \<Rightarrow> 'a outcome"

definition cret :: "'a \<Rightarrow> 'a cm" where
  "cret x s = Done x s"

definition cbind :: "'a cm \<Rightarrow> ('a \<Rightarrow> 'b cm) \<Rightarrow> 'b cm" where
  "cbind m k s = (case m s of Done x s' \<Rightarrow> k x s' | Fault f \<Rightarrow> Fault f | Fuel \<Rightarrow> Fuel)"

definition cseq :: "'a cm \<Rightarrow> 'b cm \<Rightarrow> 'b cm" where
  "cseq m k = cbind m (\<lambda>_. k)"

definition cfault :: "fault \<Rightarrow> 'a cm" where
  "cfault f s = Fault f"

definition cfuel :: "'a cm" where
  "cfuel s = Fuel"

definition cget :: "(cn_sema_ctx \<Rightarrow> 'a) \<Rightarrow> 'a cm" where
  "cget f s = Done (f s) s"

definition cput :: "(cn_sema_ctx \<Rightarrow> cn_sema_ctx) \<Rightarrow> unit cm" where
  "cput f s = Done () (f s)"

definition cwhen :: "bool \<Rightarrow> unit cm \<Rightarrow> unit cm" where
  "cwhen b m = (if b then m else cret ())"

text \<open>Reading through a pointer, and signed arithmetic.\<close>

definition clift :: "'a option \<Rightarrow> 'a cm" where
  "clift r = (case r of None \<Rightarrow> cfault NullPointer | Some x \<Rightarrow> cret x)"

definition cdefined :: "'a option \<Rightarrow> 'a cm" where
  "cdefined r = (case r of None \<Rightarrow> cfault SignedOverflow | Some x \<Rightarrow> cret x)"

text \<open>The lookups, which fill the symbol caches.\<close>

definition csema :: "(cn_project \<Rightarrow> 'a sema) \<Rightarrow> 'a cm" where
  "csema f s = (case f (cx_project s) (cx_module_caches s) of
       None \<Rightarrow> Fault NullPointer
     | Some (x, cs) \<Rightarrow> Done x (s\<lparr>cx_module_caches := cs\<rparr>))"

text \<open>\<open>ctx->module\<close> where it is followed.\<close>

definition ccur :: "nat cm" where
  "ccur = cbind (cget cx_module) clift"

fun cfold :: "('a \<Rightarrow> 'b \<Rightarrow> 'b cm) \<Rightarrow> 'a list \<Rightarrow> 'b \<Rightarrow> 'b cm" where
  "cfold f [] acc = cret acc"
| "cfold f (x # xs) acc = cbind (f x acc) (cfold f xs)"

fun ceach :: "('a \<Rightarrow> unit cm) \<Rightarrow> 'a list \<Rightarrow> unit cm" where
  "ceach f [] = cret ()"
| "ceach f (x # xs) = cseq (f x) (ceach f xs)"

definition cerror :: "string \<Rightarrow> nat \<Rightarrow> string \<Rightarrow> unit cm" where
  "cerror ec off msg = cput (\<lambda>s. s\<lparr>cx_diagnostics := cn_diag_emit (cx_diagnostics s) CN_DIAG_ERROR ec off msg\<rparr>)"

definition quoted :: "string \<Rightarrow> string" where
  "quoted s = c_quote @ s @ c_quote"

definition ok_so_far :: "bool cm" where
  "ok_so_far = cget (\<lambda>s. \<not> cn_diag_has_error (cx_diagnostics s))"

section \<open>Types\<close>

definition cn_builtin_type :: "cn_type_kind \<Rightarrow> cn_type_ref" where
  "cn_builtin_type k = CnType (if k \<in> {CN_TYPE_INT, CN_TYPE_U8, CN_TYPE_BOOL, CN_TYPE_STR, CN_TYPE_VOID, CN_TYPE_NULL}
     then k else CN_TYPE_UNKNOWN) [] [] None None 0 0"

abbreviation int_type :: cn_type_ref where "int_type \<equiv> cn_builtin_type CN_TYPE_INT"
abbreviation bool_type :: cn_type_ref where "bool_type \<equiv> cn_builtin_type CN_TYPE_BOOL"
abbreviation str_type :: cn_type_ref where "str_type \<equiv> cn_builtin_type CN_TYPE_STR"
abbreviation void_type :: cn_type_ref where "void_type \<equiv> cn_builtin_type CN_TYPE_VOID"
abbreviation unknown_type :: cn_type_ref where "unknown_type \<equiv> cn_builtin_type CN_TYPE_UNKNOWN"

definition cn_make_temp_type :: "cn_type_kind \<Rightarrow> string \<Rightarrow> string \<Rightarrow> cn_type_ref option \<Rightarrow> nat \<Rightarrow> nat \<Rightarrow> cn_type_ref" where
  "cn_make_temp_type k m nm inner n off = CnType k m nm inner None n off"

definition same_type :: "cn_type_ref \<Rightarrow> cn_type_ref \<Rightarrow> bool" where
  "same_type l r = cn_type_equal (Some l) (Some r)"

definition inner_type :: "cn_type_ref \<Rightarrow> cn_type_ref cm" where
  "inner_type t = clift (type_inner t)"

definition cn_emit_type_mismatch :: "nat \<Rightarrow> string \<Rightarrow> cn_type_ref \<Rightarrow> cn_type_ref \<Rightarrow> unit cm" where
  "cn_emit_type_mismatch off msg expected actual = cerror ''E3004'' off
     (msg @ '': expected '' @ cn_type_describe (Some expected) 128 @ '', got '' @ cn_type_describe (Some actual) 128)"

definition cn_type_is_integer_like :: "cn_type_ref \<Rightarrow> bool" where
  "cn_type_is_integer_like t \<longleftrightarrow> type_kind t = CN_TYPE_INT \<or> type_kind t = CN_TYPE_U8"

definition cn_integer_types_match :: "cn_type_ref \<Rightarrow> cn_type_ref \<Rightarrow> bool" where
  "cn_integer_types_match l r \<longleftrightarrow> cn_type_is_integer_like l \<and> same_type l r"

definition cn_type_can_assign_to :: "cn_type_ref \<Rightarrow> cn_type_ref \<Rightarrow> bool" where
  "cn_type_can_assign_to expected actual \<longleftrightarrow>
     (if same_type expected actual then True
      else if type_kind expected = CN_TYPE_SLICE \<and> type_kind actual = CN_TYPE_ARRAY
      then cn_type_equal (type_inner expected) (type_inner actual)
      else type_kind expected = CN_TYPE_PTR \<and> type_kind actual = CN_TYPE_NULL)"

definition cn_type_matches_equality_operands :: "cn_type_ref \<Rightarrow> cn_type_ref \<Rightarrow> bool" where
  "cn_type_matches_equality_operands l r \<longleftrightarrow> same_type l r
     \<or> (type_kind l = CN_TYPE_PTR \<and> type_kind r = CN_TYPE_NULL) \<or> (type_kind l = CN_TYPE_NULL \<and> type_kind r = CN_TYPE_PTR)"

fun cn_int_literal_fits_u8 :: "cn_expr \<Rightarrow> bool" where
  "cn_int_literal_fits_u8 (CN_EXPR_INT off v) \<longleftrightarrow> 0 \<le> sint v \<and> sint v \<le> 255"
| "cn_int_literal_fits_u8 e \<longleftrightarrow> False"

section \<open>Scopes\<close>

datatype cn_result_proof =
    CN_RESULT_PROOF_LEAF nat bool
  | CN_RESULT_PROOF_NOT cn_result_proof
  | CN_RESULT_PROOF_AND "cn_result_proof option" "cn_result_proof option"
  | CN_RESULT_PROOF_OR "cn_result_proof option" "cn_result_proof option"

record cn_binding =
  bd_id :: nat
  bd_name :: string
  bd_type :: cn_type_ref
  bd_is_mutable :: bool
  bd_scope_zone_depth :: nat
  bd_value_zone_depth :: nat
  bd_result_guard_proof :: "cn_result_proof option"

text \<open>A guard whose binding was reassigned is set to null.\<close>

record cn_scope =
  so_bindings :: "cn_binding list"
  so_binding_map :: "nat cn_name_map"
  so_result_guards :: "nat option list"
  so_zone_depth :: nat

type_synonym scopes = "cn_scope list"

definition zone_depth :: "scopes \<Rightarrow> nat" where
  "zone_depth scs = (case scs of [] \<Rightarrow> 0 | sc # _ \<Rightarrow> so_zone_depth sc)"

definition enter_scope :: "nat \<Rightarrow> scopes \<Rightarrow> scopes" where
  "enter_scope depth scs = \<lparr>so_bindings = [], so_binding_map = zero_map, so_result_guards = [], so_zone_depth = depth\<rparr> # scs"

text \<open>The bindings, the table and the guards of the innermost scope are given back.\<close>

definition cn_scope_release :: "scopes \<Rightarrow> scopes" where
  "cn_scope_release scs = tl scs"

definition binding_with :: "nat \<Rightarrow> cn_binding list \<Rightarrow> cn_binding option" where
  "binding_with i bs = find (\<lambda>b. bd_id b = i) bs"

fun cn_scope_lookup :: "scopes \<Rightarrow> string \<Rightarrow> cn_binding option option" where
  "cn_scope_lookup [] nm = Some None"
| "cn_scope_lookup (sc # scs) nm = do {
     v \<leftarrow> cn_name_map_lookup_value (so_binding_map sc) nm;
     (case v of
        Some i \<Rightarrow> do { b \<leftarrow> binding_with i (so_bindings sc); Some (Some b) }
      | None \<Rightarrow> cn_scope_lookup scs nm) }"

text \<open>A write through the pointer that the lookup gives.\<close>

definition update_binding :: "nat \<Rightarrow> (cn_binding \<Rightarrow> cn_binding) \<Rightarrow> scopes \<Rightarrow> scopes" where
  "update_binding i f scs = map (\<lambda>sc. sc\<lparr>so_bindings := map (\<lambda>b. if bd_id b = i then f b else b) (so_bindings sc)\<rparr>) scs"

definition cn_scope_result_is_ok :: "scopes \<Rightarrow> nat \<Rightarrow> bool" where
  "cn_scope_result_is_ok scs i \<longleftrightarrow> (\<exists>sc \<in> set scs. Some i \<in> set (so_result_guards sc))"

definition cn_scope_mark_result_ok :: "nat \<Rightarrow> scopes \<Rightarrow> scopes" where
  "cn_scope_mark_result_ok i scs = (case scs of
       [] \<Rightarrow> []
     | sc # rest \<Rightarrow> if Some i \<in> set (so_result_guards sc) then scs
         else sc\<lparr>so_result_guards := Some i # so_result_guards sc\<rparr> # rest)"

fun cn_result_proof_depends_on_binding :: "nat \<Rightarrow> cn_result_proof option \<Rightarrow> bool" where
  "cn_result_proof_depends_on_binding i None \<longleftrightarrow> False"
| "cn_result_proof_depends_on_binding i (Some (CN_RESULT_PROOF_LEAF j positive)) \<longleftrightarrow> j = i"
| "cn_result_proof_depends_on_binding i (Some (CN_RESULT_PROOF_NOT p)) \<longleftrightarrow> cn_result_proof_depends_on_binding i (Some p)"
| "cn_result_proof_depends_on_binding i (Some (CN_RESULT_PROOF_AND l r)) \<longleftrightarrow>
     cn_result_proof_depends_on_binding i l \<or> cn_result_proof_depends_on_binding i r"
| "cn_result_proof_depends_on_binding i (Some (CN_RESULT_PROOF_OR l r)) \<longleftrightarrow>
     cn_result_proof_depends_on_binding i l \<or> cn_result_proof_depends_on_binding i r"

definition cn_scope_invalidate_result_proofs :: "nat \<Rightarrow> scopes \<Rightarrow> scopes" where
  "cn_scope_invalidate_result_proofs i scs = map (\<lambda>sc. sc\<lparr>
     so_result_guards := map (\<lambda>g. if g = Some i then None else g) (so_result_guards sc),
     so_bindings := map (\<lambda>b. if cn_result_proof_depends_on_binding i (bd_result_guard_proof b)
       then b\<lparr>bd_result_guard_proof := None\<rparr> else b) (so_bindings sc)\<rparr>) scs"

definition cn_scope_define :: "string \<Rightarrow> cn_type_ref \<Rightarrow> bool \<Rightarrow> nat \<Rightarrow> nat \<Rightarrow> scopes \<Rightarrow> (bool \<times> scopes) cm" where
  "cn_scope_define nm ty is_mutable value_zone_depth off scs = (case scs of
       [] \<Rightarrow> cfault NullPointer
     | sc # rest \<Rightarrow>
         cbind (clift (cn_name_map_lookup_entry (so_binding_map sc) nm)) (\<lambda>entry.
         if entry \<noteq> None
         then cseq (cerror ''E3003'' off (''duplicate local binding '' @ quoted nm)) (cret (False, scs))
         else
           cbind (cget cx_next_binding) (\<lambda>i.
           cseq (cput (\<lambda>s. s\<lparr>cx_next_binding := Suc i\<rparr>)) (
           cbind (clift (cn_name_map_insert (so_binding_map sc) nm (Some i) 0 True)) (\<lambda>(_, m).
           cret (True, sc\<lparr>so_bindings := \<lparr>bd_id = i, bd_name = nm, bd_type = ty, bd_is_mutable = is_mutable,
               bd_scope_zone_depth = so_zone_depth sc, bd_value_zone_depth = value_zone_depth, bd_result_guard_proof = None\<rparr>
               # so_bindings sc, so_binding_map := m\<rparr> # rest))))))"

section \<open>Proofs that a result is ok\<close>

fun cn_extract_bool_literal :: "cn_expr \<Rightarrow> bool option" where
  "cn_extract_bool_literal (CN_EXPR_BOOL off b) = Some b"
| "cn_extract_bool_literal e = None"

fun expr_name :: "cn_expr \<Rightarrow> string option" where
  "expr_name (CN_EXPR_NAME off nm) = Some nm"
| "expr_name e = None"

text \<open>A comparison of a proof with a literal.\<close>

definition compare_proof :: "bool \<Rightarrow> bool \<Rightarrow> cn_result_proof \<Rightarrow> cn_result_proof" where
  "compare_proof is_not_equal literal p =
     (let p = (if literal then p else CN_RESULT_PROOF_NOT p) in if is_not_equal then CN_RESULT_PROOF_NOT p else p)"

primrec cn_build_result_proof :: "cn_expr \<Rightarrow> scopes \<Rightarrow> nat \<Rightarrow> cn_result_proof option option" where
  "cn_build_result_proof (CN_EXPR_INT off v) scs depth = Some None"
| "cn_build_result_proof (CN_EXPR_BOOL off b) scs depth = Some None"
| "cn_build_result_proof (CN_EXPR_STRING off v) scs depth = Some None"
| "cn_build_result_proof (CN_EXPR_NULL off) scs depth = Some None"
| "cn_build_result_proof (CN_EXPR_NAME off nm) scs depth = (if 32 \<le> depth then Some None else do {
     b \<leftarrow> cn_scope_lookup scs nm;
     Some (case b of None \<Rightarrow> None | Some b \<Rightarrow> bd_result_guard_proof b) })"
| "cn_build_result_proof (CN_EXPR_UNARY off uop e) scs depth = (if 32 \<le> depth \<or> uop \<noteq> CN_UNARY_NOT then Some None else do {
     inner \<leftarrow> cn_build_result_proof e scs (depth + 1);
     Some (map_option CN_RESULT_PROOF_NOT inner) })"
| "cn_build_result_proof (CN_EXPR_BINARY off bop l r) scs depth = (
     if 32 \<le> depth then Some None
     else if bop \<in> {CN_BINARY_EQUAL, CN_BINARY_NOT_EQUAL} then do {
       right \<leftarrow> (case cn_extract_bool_literal r of None \<Rightarrow> Some None | Some v \<Rightarrow> do {
         p \<leftarrow> cn_build_result_proof l scs (depth + 1);
         Some (map_option (compare_proof (bop = CN_BINARY_NOT_EQUAL) v) p) });
       (if right \<noteq> None then Some right
        else case cn_extract_bool_literal l of None \<Rightarrow> Some None | Some v \<Rightarrow> do {
          p \<leftarrow> cn_build_result_proof r scs (depth + 1);
          Some (map_option (compare_proof (bop = CN_BINARY_NOT_EQUAL) v) p) }) }
     else if bop \<in> {CN_BINARY_AND, CN_BINARY_OR} then do {
       left \<leftarrow> cn_build_result_proof l scs (depth + 1);
       right \<leftarrow> cn_build_result_proof r scs (depth + 1);
       Some (if left = None \<and> right = None then None
         else Some ((if bop = CN_BINARY_AND then CN_RESULT_PROOF_AND else CN_RESULT_PROOF_OR) left right)) }
     else Some None)"
| "cn_build_result_proof (CN_EXPR_IF off c t e) scs depth = Some None"
| "cn_build_result_proof (CN_EXPR_CALL off f xs) scs depth = Some None"
| "cn_build_result_proof (CN_EXPR_ARRAY_LITERAL off xs rc n) scs depth = Some None"
| "cn_build_result_proof (CN_EXPR_INDEX off b i) scs depth = Some None"
| "cn_build_result_proof (CN_EXPR_SLICE_VIEW off b s e) scs depth = Some None"
| "cn_build_result_proof (CN_EXPR_FIELD off base fld) scs depth = (if 32 \<le> depth \<or> fld \<noteq> ''ok'' then Some None
     else case expr_name base of None \<Rightarrow> Some None | Some nm \<Rightarrow> do {
       b \<leftarrow> cn_scope_lookup scs nm;
       Some (case b of None \<Rightarrow> None
         | Some b \<Rightarrow> if type_kind (bd_type b) = CN_TYPE_RESULT then Some (CN_RESULT_PROOF_LEAF (bd_id b) True) else None) })"
| "cn_build_result_proof (CN_EXPR_STRUCT_LITERAL off m n fs) scs depth = Some None"
| "cn_build_result_proof (CN_EXPR_OK off e) scs depth = Some None"
| "cn_build_result_proof (CN_EXPR_ERR off) scs depth = Some None"
| "cn_build_result_proof (CN_EXPR_ALLOC off t) scs depth = Some None"
| "cn_build_result_proof (CN_EXPR_ZALLOC off t) scs depth = Some None"
| "cn_build_result_proof (CN_EXPR_ADDR off e) scs depth = Some None"
| "cn_build_result_proof (CN_EXPR_DEREF off e) scs depth = Some None"

fun cn_mark_result_ok_proof_for_branch :: "cn_result_proof option \<Rightarrow> bool \<Rightarrow> scopes \<Rightarrow> scopes" where
  "cn_mark_result_ok_proof_for_branch None branch_truth target = target"
| "cn_mark_result_ok_proof_for_branch (Some (CN_RESULT_PROOF_LEAF i positive)) branch_truth target =
     (if branch_truth \<and> positive \<or> \<not> branch_truth \<and> \<not> positive then cn_scope_mark_result_ok i target else target)"
| "cn_mark_result_ok_proof_for_branch (Some (CN_RESULT_PROOF_NOT p)) branch_truth target =
     cn_mark_result_ok_proof_for_branch (Some p) (\<not> branch_truth) target"
| "cn_mark_result_ok_proof_for_branch (Some (CN_RESULT_PROOF_AND l r)) branch_truth target =
     (if branch_truth then cn_mark_result_ok_proof_for_branch r True (cn_mark_result_ok_proof_for_branch l True target) else target)"
| "cn_mark_result_ok_proof_for_branch (Some (CN_RESULT_PROOF_OR l r)) branch_truth target =
     (if \<not> branch_truth then cn_mark_result_ok_proof_for_branch r False (cn_mark_result_ok_proof_for_branch l False target) else target)"

definition cn_mark_result_ok_proofs_for_branch :: "scopes \<Rightarrow> cn_expr \<Rightarrow> bool \<Rightarrow> scopes \<Rightarrow> scopes cm" where
  "cn_mark_result_ok_proofs_for_branch analysis e branch_truth target =
     cbind (clift (cn_build_result_proof e analysis 0)) (\<lambda>p. cret (cn_mark_result_ok_proof_for_branch p branch_truth target))"

end
