(* ===== verification/Sema_Expr.thy ===== *)
theory Sema_Expr
  imports Sema_Core
begin

text \<open>
  The semantic checker, second part: zones, types, constants and expressions. The functions of this part
  call each other in a circle (an array size in a type is an expression, whose constants have
  types and initializers), so each one takes the callees as a record \<open>R\<close>; \<open>checkers_of\<close> ties the knot with
  fuel: \<open>n\<close> bounds the nesting of these calls.
\<close>

section \<open>Reading and writing declarations\<close>

definition module_at :: "nat \<Rightarrow> cn_module cm" where
  "module_at m = cbind (cget cx_project) (\<lambda>prj. clift (mod_at prj m))"

definition program_at :: "nat \<Rightarrow> cn_program cm" where
  "program_at m = cbind (module_at m) (\<lambda>md. clift (mo_program md))"

definition struct_at :: "nat \<times> nat \<Rightarrow> cn_struct_decl cm" where
  "struct_at r = cbind (program_at (fst r)) (\<lambda>p. clift (elem_at (pr_structs p) (snd r)))"

definition const_at :: "nat \<times> nat \<Rightarrow> cn_const_decl cm" where
  "const_at r = cbind (program_at (fst r)) (\<lambda>p. clift (elem_at (pr_consts p) (snd r)))"

definition function_at :: "nat \<times> nat \<Rightarrow> cn_function cm" where
  "function_at r = cbind (program_at (fst r)) (\<lambda>p. clift (elem_at (pr_functions p) (snd r)))"

definition update_nth :: "nat \<Rightarrow> ('a \<Rightarrow> 'a) \<Rightarrow> 'a list \<Rightarrow> 'a list" where
  "update_nth i f xs = (if i < length xs then xs[i := f (xs ! i)] else xs)"

definition update_program :: "nat \<Rightarrow> (cn_program \<Rightarrow> cn_program) \<Rightarrow> unit cm" where
  "update_program m f = cput (\<lambda>s. s\<lparr>cx_project := (cx_project s)\<lparr>pj_modules :=
     update_nth m (\<lambda>md. md\<lparr>mo_program := map_option f (mo_program md)\<rparr>) (pj_modules (cx_project s))\<rparr>\<rparr>)"

definition update_const :: "nat \<times> nat \<Rightarrow> (cn_const_decl \<Rightarrow> cn_const_decl) \<Rightarrow> unit cm" where
  "update_const r f = update_program (fst r) (\<lambda>p. p\<lparr>pr_consts := update_nth (snd r) f (pr_consts p)\<rparr>)"

definition update_struct :: "nat \<times> nat \<Rightarrow> (cn_struct_decl \<Rightarrow> cn_struct_decl) \<Rightarrow> unit cm" where
  "update_struct r f = update_program (fst r) (\<lambda>p. p\<lparr>pr_structs := update_nth (snd r) f (pr_structs p)\<rparr>)"

definition update_function :: "nat \<times> nat \<Rightarrow> (cn_function \<Rightarrow> cn_function) \<Rightarrow> unit cm" where
  "update_function r f = update_program (fst r) (\<lambda>p. p\<lparr>pr_functions := update_nth (snd r) f (pr_functions p)\<rparr>)"

text \<open>The lookups from the current module.\<close>

definition here :: "(cn_project \<Rightarrow> nat \<Rightarrow> 'a sema) \<Rightarrow> 'a cm" where
  "here f = cbind ccur (\<lambda>cur. csema (\<lambda>prj. f prj cur))"

definition scope_binding :: "scopes \<Rightarrow> string \<Rightarrow> cn_binding option cm" where
  "scope_binding scs nm = clift (cn_scope_lookup scs nm)"

definition source_const :: "string \<Rightarrow> string \<Rightarrow> resolved cm" where
  "source_const mn nm = here (\<lambda>prj cur. cn_resolve_source_named_const prj cur mn nm)"

definition source_struct :: "string \<Rightarrow> string \<Rightarrow> resolved cm" where
  "source_struct mn nm = here (\<lambda>prj cur. cn_resolve_source_named_struct prj cur mn nm)"

definition canonical_struct :: "string \<Rightarrow> string \<Rightarrow> resolved cm" where
  "canonical_struct mn nm = here (\<lambda>prj cur. cn_resolve_canonical_named_struct prj cur mn nm)"

definition imported_module :: "string \<Rightarrow> nat option cm" where
  "imported_module nm = here (\<lambda>prj cur. cn_find_imported_module prj (Some cur) nm)"

definition module_const :: "string \<Rightarrow> (nat \<times> nat) option cm" where
  "module_const nm = cbind ccur (\<lambda>cur. cbind (csema (\<lambda>prj. cn_find_const prj (Some cur) nm)) (\<lambda>d. cret (pair_with cur d)))"

section \<open>Zones\<close>

text \<open>The structs entered on the way are on the stack, at most 32; the level counts what is left.\<close>

function zone_walk :: "(cn_type_ref \<Rightarrow> bool cm) \<Rightarrow> cn_type_ref option \<Rightarrow> bool cm" where
  "zone_walk named None = cret False"
| "zone_walk named (Some t) = (case type_kind t of
       CN_TYPE_PTR \<Rightarrow> cret True
     | CN_TYPE_SLICE \<Rightarrow> cret True
     | CN_TYPE_RESULT \<Rightarrow> zone_walk named (type_inner t)
     | CN_TYPE_ARRAY \<Rightarrow> zone_walk named (type_inner t)
     | CN_TYPE_NAMED \<Rightarrow> named t
     | CN_TYPE_UNKNOWN \<Rightarrow> cret True
     | _ \<Rightarrow> cret False)"
  by pat_completeness auto
termination
proof (relation "measure (\<lambda>(named, t). size_option size t)", goal_cases)
  case (2 named t)
  then show ?case by (cases t) auto
next
  case (3 named t)
  then show ?case by (cases t) auto
qed simp

definition zone_struct :: "(string \<times> string) list \<Rightarrow> cn_type_ref \<Rightarrow> (string \<times> string \<Rightarrow> cn_struct_decl \<Rightarrow> bool cm) \<Rightarrow> bool cm" where
  "zone_struct stack t k = cbind (canonical_struct (type_module t) (type_name t)) (\<lambda>r. case r of
       None \<Rightarrow> cret True
     | Some r \<Rightarrow>
         cbind (module_at (fst r)) (\<lambda>md.
         cbind (struct_at r) (\<lambda>d.
         if (mo_name md, sd_name d) \<in> set stack then cret False else k (mo_name md, sd_name d) d)))"

fun cany :: "('a \<Rightarrow> bool cm) \<Rightarrow> 'a list \<Rightarrow> bool cm" where
  "cany f [] = cret False"
| "cany f (x # xs) = cbind (f x) (\<lambda>b. if b then cret True else cany f xs)"

primrec zone_named :: "nat \<Rightarrow> (string \<times> string) list \<Rightarrow> cn_type_ref \<Rightarrow> bool cm" where
  "zone_named 0 stack t = zone_struct stack t (\<lambda>key d. cret True)"
| "zone_named (Suc k) stack t = zone_struct stack t (\<lambda>key d.
     cany (\<lambda>f. zone_walk (zone_named k (key # stack)) (Some (sf_type f))) (sd_fields d))"

definition cn_type_may_carry_zone_value :: "cn_type_ref option \<Rightarrow> bool cm" where
  "cn_type_may_carry_zone_value t = zone_walk (zone_named 32 []) t"

definition cmax :: "('a \<Rightarrow> nat cm) \<Rightarrow> 'a list \<Rightarrow> nat cm" where
  "cmax f xs = cfold (\<lambda>x acc. cbind (f x) (\<lambda>d. cret (max acc d))) xs 0"

lemma cbind_cong [fundef_cong]: "m = m' \<Longrightarrow> (\<And>x. k x = k' x) \<Longrightarrow> cbind m k = cbind m' k'"
  by presburger

lemma cmax_cong [fundef_cong]: "xs = ys \<Longrightarrow> (\<And>x. x \<in> set ys \<Longrightarrow> f x = g x) \<Longrightarrow> cmax f xs = cmax g ys"
proof -
  have "cfold (\<lambda>x acc. cbind (f x) (\<lambda>d. cret (max acc d))) ys n = cfold (\<lambda>x acc. cbind (g x) (\<lambda>d. cret (max acc d))) ys n"
    if "\<And>x. x \<in> set ys \<Longrightarrow> f x = g x" for n
    using that
  proof (induction ys arbitrary: n)
    case (Cons y ys)
    then have "cfold (\<lambda>x acc. cbind (f x) (\<lambda>d. cret (max acc d))) ys = cfold (\<lambda>x acc. cbind (g x) (\<lambda>d. cret (max acc d))) ys" by auto
    with Cons.prems show ?case by simp
  qed simp
  then show "xs = ys \<Longrightarrow> (\<And>x. x \<in> set ys \<Longrightarrow> f x = g x) \<Longrightarrow> cmax f xs = cmax g ys" by (simp add: cmax_def)
qed

lemma field_init_smaller: "f \<in> set fs \<Longrightarrow> size (field_init_value f) < Suc (size_list size fs)"
proof -
  assume "f \<in> set fs"
  then have "size f \<le> size_list size fs" by (simp add: size_list_estimation')
  then show ?thesis by (cases f) simp
qed

lemma item_smaller: "x \<in> set xs \<Longrightarrow> size x \<le> size_list size xs + k"
  by (simp add: size_list_estimation' trans_le_add1)

function cn_expr_zone_depth :: "scopes \<Rightarrow> cn_expr \<Rightarrow> cn_type_ref option \<Rightarrow> nat cm" where
  "cn_expr_zone_depth scs e None = cret 0"
| "cn_expr_zone_depth scs e (Some t) = cbind (cn_type_may_carry_zone_value (Some t)) (\<lambda>carries.
     if \<not> carries then cret 0
     else case e of
       CN_EXPR_ZALLOC off ty \<Rightarrow> cret (zone_depth scs)
     | CN_EXPR_NAME off nm \<Rightarrow> cbind (scope_binding scs nm) (\<lambda>b. cret (case b of None \<Rightarrow> 0 | Some b \<Rightarrow> bd_value_zone_depth b))
     | CN_EXPR_IF off c th el \<Rightarrow>
         cbind (cn_expr_zone_depth scs th (Some t)) (\<lambda>d1. cbind (cn_expr_zone_depth scs el (Some t)) (\<lambda>d2. cret (if d1 > d2 then d1 else d2)))
     | CN_EXPR_OK off v \<Rightarrow> if type_kind t = CN_TYPE_RESULT then cn_expr_zone_depth scs v (type_inner t) else cret 0
     | CN_EXPR_FIELD off base f \<Rightarrow> cn_expr_zone_depth scs base (Some t)
     | CN_EXPR_INDEX off base ix \<Rightarrow> cn_expr_zone_depth scs base (Some t)
     | CN_EXPR_SLICE_VIEW off base st en \<Rightarrow> cn_expr_zone_depth scs base (Some t)
     | CN_EXPR_STRUCT_LITERAL off mn nm inits \<Rightarrow>
         if type_kind t \<noteq> CN_TYPE_NAMED then cret 0
         else cbind (canonical_struct (type_module t) (type_name t)) (\<lambda>r. case r of
             None \<Rightarrow> cret 0
           | Some r \<Rightarrow> cbind (struct_at r) (\<lambda>d.
               cmax (\<lambda>fi. case cn_find_struct_field d (field_init_name fi) of
                   None \<Rightarrow> cret 0
                 | Some j \<Rightarrow> cbind (clift (elem_at (sd_fields d) j)) (\<lambda>f. cn_expr_zone_depth scs (field_init_value fi) (Some (sf_type f)))) inits))
     | CN_EXPR_ARRAY_LITERAL off items rc n \<Rightarrow>
         if type_kind t \<noteq> CN_TYPE_ARRAY \<and> type_kind t \<noteq> CN_TYPE_SLICE then cret 0
         else cmax (\<lambda>item. cn_expr_zone_depth scs item (type_inner t)) items
     | _ \<Rightarrow> cret 0)"
  by pat_completeness auto
termination
  by (relation "measure (\<lambda>(scs, e, t). size e)")
    (auto simp: less_Suc_eq_le item_smaller dest: field_init_smaller)

fun cn_assignment_storage_zone_depth :: "scopes \<Rightarrow> cn_expr \<Rightarrow> nat cm" where
  "cn_assignment_storage_zone_depth scs (CN_EXPR_NAME off nm) =
     cbind (scope_binding scs nm) (\<lambda>b. cret (case b of None \<Rightarrow> 0 | Some b \<Rightarrow> bd_scope_zone_depth b))"
| "cn_assignment_storage_zone_depth scs (CN_EXPR_FIELD off base f) = (case expr_name base of
       None \<Rightarrow> cn_assignment_storage_zone_depth scs base
     | Some nm \<Rightarrow> cbind (source_const nm f) (\<lambda>r. if r \<noteq> None then cret 0 else cn_assignment_storage_zone_depth scs base))"
| "cn_assignment_storage_zone_depth scs (CN_EXPR_INDEX off base ix) = cn_assignment_storage_zone_depth scs base"
| "cn_assignment_storage_zone_depth scs (CN_EXPR_DEREF off e) = cn_assignment_storage_zone_depth scs e"
| "cn_assignment_storage_zone_depth scs e = cret 0"

section \<open>Types of declarations\<close>

function cn_type_is_exportable :: "cn_type_ref option \<Rightarrow> bool cm" where
  "cn_type_is_exportable None = cret False"
| "cn_type_is_exportable (Some t) = (case type_kind t of
       CN_TYPE_RESULT \<Rightarrow> cn_type_is_exportable (type_inner t)
     | CN_TYPE_PTR \<Rightarrow> cn_type_is_exportable (type_inner t)
     | CN_TYPE_SLICE \<Rightarrow> cn_type_is_exportable (type_inner t)
     | CN_TYPE_ARRAY \<Rightarrow> cn_type_is_exportable (type_inner t)
     | CN_TYPE_NAMED \<Rightarrow> cbind (canonical_struct (type_module t) (type_name t)) (\<lambda>r. case r of
           None \<Rightarrow> cret False
         | Some r \<Rightarrow> cbind (struct_at r) (\<lambda>d. cret (sd_is_public d)))
     | CN_TYPE_UNKNOWN \<Rightarrow> cret False
     | _ \<Rightarrow> cret True)"
  by pat_completeness auto
termination
proof (relation "measure (\<lambda>t. size_option size t)", goal_cases)
  case (2 t)
  then show ?case by (cases t) auto
next
  case (3 t)
  then show ?case by (cases t) auto
next
  case (4 t)
  then show ?case by (cases t) auto
next
  case (5 t)
  then show ?case by (cases t) auto
qed simp

definition cn_emit_private_type_in_public_api :: "nat \<Rightarrow> string \<Rightarrow> string \<Rightarrow> cn_type_ref \<Rightarrow> unit cm" where
  "cn_emit_private_type_in_public_api off subject_kind subject_name t = cerror ''E3023'' off
     (''public '' @ subject_kind @ '' '' @ quoted subject_name @ '' cannot expose private type '' @ quoted (cn_type_describe (Some t) 128))"

text \<open>The check that follows the validation of a type in a public declaration.\<close>

definition check_exported :: "bool \<Rightarrow> bool \<Rightarrow> nat \<Rightarrow> string \<Rightarrow> string \<Rightarrow> cn_type_ref \<Rightarrow> unit cm" where
  "check_exported is_public type_valid off subject_kind subject_name t =
     (if is_public \<and> type_valid
      then cbind (cn_type_is_exportable (Some t)) (\<lambda>e. cwhen (\<not> e) (cn_emit_private_type_in_public_api off subject_kind subject_name t))
      else cret ())"

section \<open>The callees\<close>

record checkers =
  ck_expr :: "scopes \<Rightarrow> cn_expr \<Rightarrow> cn_type_ref option \<Rightarrow> cn_type_ref cm"
  ck_type :: "cn_type_ref \<Rightarrow> nat \<Rightarrow> (bool \<times> cn_type_ref) cm"
  ck_eval :: "nat option \<Rightarrow> cn_expr \<Rightarrow> int64 option cm"
  ck_const_expr :: "cn_expr \<Rightarrow> bool cm"
  ck_const_decl :: "nat \<times> nat \<Rightarrow> bool cm"

definition int_digits :: "int \<Rightarrow> string" where
  "int_digits i = (if i < 0 then ''-'' @ nat_digits (nat (- i)) else nat_digits (nat i))"

definition set_module :: "nat option \<Rightarrow> unit cm" where
  "set_module m = cput (\<lambda>s. s\<lparr>cx_module := m\<rparr>)"

section \<open>Constants\<close>

text \<open>The size, or null when an error was reported.\<close>

definition cn_resolve_non_negative_const_size :: "checkers \<Rightarrow> cn_expr \<Rightarrow> nat \<Rightarrow> string \<Rightarrow> string \<Rightarrow> nat option cm" where
  "cn_resolve_non_negative_const_size R e off ec msg =
     cbind (ck_expr R [] e (Some int_type)) (\<lambda>size_type.
     if \<not> cn_type_is_integer_like size_type
     then cseq (cn_emit_type_mismatch (expr_offset e) msg int_type size_type) (cret None)
     else cbind (cget cx_module) (\<lambda>m. cbind (ck_eval R m e) (\<lambda>v. case v of
         None \<Rightarrow> cseq (cerror ec off msg) (cret None)
       | Some v \<Rightarrow> if sint v < 0 then cseq (cerror ec off msg) (cret None) else cret (Some (nat (sint v))))))"

text \<open>A constant that is read: it must be there, be checked, and have an integer type.\<close>

definition eval_const :: "checkers \<Rightarrow> resolved \<Rightarrow> int64 option cm" where
  "eval_const R r = (case r of
       None \<Rightarrow> cret None
     | Some r \<Rightarrow> cbind (ck_const_decl R r) (\<lambda>ok.
         if \<not> ok then cret None
         else cbind (const_at r) (\<lambda>d.
           if \<not> cn_type_is_integer_like (cd_type d) then cret None else ck_eval R (Some (fst r)) (cd_initializer d))))"

definition eval_binary :: "cn_binary_op \<Rightarrow> int64 \<Rightarrow> int64 \<Rightarrow> int64 option cm" where
  "eval_binary bop l r = (case bop of
       CN_BINARY_ADD \<Rightarrow> cbind (cdefined (c_add64 l r)) (\<lambda>v. cret (Some v))
     | CN_BINARY_SUB \<Rightarrow> cbind (cdefined (c_sub64 l r)) (\<lambda>v. cret (Some v))
     | CN_BINARY_MUL \<Rightarrow> cbind (cdefined (c_mul64 l r)) (\<lambda>v. cret (Some v))
     | CN_BINARY_DIV \<Rightarrow> if r = 0 then cret None else cbind (cdefined (c_div64 l r)) (\<lambda>v. cret (Some v))
     | CN_BINARY_MOD \<Rightarrow> if r = 0 then cret None else cbind (cdefined (c_mod64 l r)) (\<lambda>v. cret (Some v))
     | _ \<Rightarrow> cret None)"

definition eval_switch :: "checkers \<Rightarrow> nat option \<Rightarrow> cn_expr \<Rightarrow> int64 option cm" where
  "eval_switch R m e = (case e of
       CN_EXPR_INT off v \<Rightarrow> cret (Some v)
     | CN_EXPR_NAME off nm \<Rightarrow> cbind (csema (\<lambda>prj. cn_resolve_const_in_module prj m nm)) (eval_const R)
     | CN_EXPR_FIELD off base f \<Rightarrow> (case expr_name base of None \<Rightarrow> cret None | Some nm \<Rightarrow> cbind (source_const nm f) (eval_const R))
     | CN_EXPR_UNARY off uop x \<Rightarrow> if uop \<noteq> CN_UNARY_NEGATE then cret None
         else cbind (ck_eval R m x) (\<lambda>v. case v of None \<Rightarrow> cret None | Some v \<Rightarrow> cbind (cdefined (c_neg64 v)) (\<lambda>v. cret (Some v)))
     | CN_EXPR_BINARY off bop l r \<Rightarrow>
         cbind (ck_eval R m l) (\<lambda>lv. case lv of None \<Rightarrow> cret None | Some lv \<Rightarrow>
         cbind (ck_eval R m r) (\<lambda>rv. case rv of None \<Rightarrow> cret None | Some rv \<Rightarrow> eval_binary bop lv rv))
     | _ \<Rightarrow> cret None)"

definition cn_eval_const_int_expr_in_module :: "checkers \<Rightarrow> nat option \<Rightarrow> cn_expr \<Rightarrow> int64 option cm" where
  "cn_eval_const_int_expr_in_module R m e =
     cbind (cget cx_module) (\<lambda>previous_module.
     cseq (set_module m) (
     cbind (eval_switch R m e) (\<lambda>v.
     cseq (set_module previous_module) (cret v))))"

definition cand :: "bool cm \<Rightarrow> bool cm \<Rightarrow> bool cm" where
  "cand a b = cbind a (\<lambda>x. if x then b else cret False)"

fun cevery :: "('a \<Rightarrow> bool cm) \<Rightarrow> 'a list \<Rightarrow> bool cm" where
  "cevery f [] = cret True"
| "cevery f (x # xs) = cand (f x) (cevery f xs)"

definition copt :: "('a \<Rightarrow> bool cm) \<Rightarrow> 'a option \<Rightarrow> bool cm" where
  "copt f x = (case x of None \<Rightarrow> cret True | Some x \<Rightarrow> f x)"

definition no_memory :: "nat \<Rightarrow> bool cm" where
  "no_memory off = cseq (cerror ''E3025'' off ''module-level constant initializers cannot use runtime memory operations'') (cret False)"

definition cn_check_const_expr :: "checkers \<Rightarrow> cn_expr \<Rightarrow> bool cm" where
  "cn_check_const_expr R e = (case e of
       CN_EXPR_INT off v \<Rightarrow> cret True
     | CN_EXPR_BOOL off v \<Rightarrow> cret True
     | CN_EXPR_STRING off v \<Rightarrow> cret True
     | CN_EXPR_NULL off \<Rightarrow> cret True
     | CN_EXPR_ERR off \<Rightarrow> cret True
     | CN_EXPR_NAME off nm \<Rightarrow> cbind (cget cx_module) (\<lambda>m. cbind (csema (\<lambda>prj. cn_resolve_const_in_module prj m nm)) (\<lambda>r. case r of
           None \<Rightarrow> cseq (cerror ''E3025'' off (''module-level constant initializers can only use other constants, got '' @ quoted nm)) (cret False)
         | Some r \<Rightarrow> ck_const_decl R r))
     | CN_EXPR_UNARY off uop x \<Rightarrow> ck_const_expr R x
     | CN_EXPR_BINARY off bop l r \<Rightarrow> cand (ck_const_expr R l) (ck_const_expr R r)
     | CN_EXPR_IF off c t f \<Rightarrow> cand (ck_const_expr R c) (cand (ck_const_expr R t) (ck_const_expr R f))
     | CN_EXPR_ARRAY_LITERAL off items rc n \<Rightarrow> cand (cevery (ck_const_expr R) items) (copt (ck_const_expr R) rc)
     | CN_EXPR_INDEX off base ix \<Rightarrow> cand (ck_const_expr R base) (ck_const_expr R ix)
     | CN_EXPR_SLICE_VIEW off base st en \<Rightarrow>
         cand (ck_const_expr R base) (cand (copt (ck_const_expr R) st) (copt (ck_const_expr R) en))
     | CN_EXPR_FIELD off base f \<Rightarrow> (case expr_name base of
           None \<Rightarrow> ck_const_expr R base
         | Some nm \<Rightarrow> cbind (source_const nm f) (\<lambda>r. case r of None \<Rightarrow> ck_const_expr R base | Some r \<Rightarrow> ck_const_decl R r))
     | CN_EXPR_STRUCT_LITERAL off mn nm inits \<Rightarrow> cevery (\<lambda>fi. ck_const_expr R (field_init_value fi)) inits
     | CN_EXPR_OK off v \<Rightarrow> ck_const_expr R v
     | CN_EXPR_CALL off f xs \<Rightarrow>
         cseq (cerror ''E3025'' off ''module-level constant initializers cannot call functions or builtins'') (cret False)
     | CN_EXPR_ALLOC off t \<Rightarrow> no_memory off
     | CN_EXPR_ZALLOC off t \<Rightarrow> no_memory off
     | CN_EXPR_ADDR off x \<Rightarrow> no_memory off
     | CN_EXPR_DEREF off x \<Rightarrow> no_memory off)"

definition cn_check_const_decl :: "checkers \<Rightarrow> nat \<times> nat \<Rightarrow> bool cm" where
  "cn_check_const_decl R r =
     cbind (cget cx_module) (\<lambda>previous_module.
     cbind (const_at r) (\<lambda>d.
     if cd_sema_checked d then cret True
     else if cd_sema_checking d then
       cbind (module_at (fst r)) (\<lambda>md.
       cseq (cerror ''E3026'' (cd_offset d) (''cyclic constant definition involving '' @ quoted (mo_name md @ ''.'' @ cd_name d))) (cret False))
     else
       cseq (set_module (Some (fst r))) (
       cseq (update_const r (\<lambda>d. d\<lparr>cd_sema_checking := True\<rparr>)) (
       cbind (ck_type R (cd_type d) (cd_offset d)) (\<lambda>(type_valid, t).
       cseq (update_const r (\<lambda>d. d\<lparr>cd_type := t\<rparr>)) (
       cseq (check_exported (cd_is_public d) type_valid (cd_offset d) ''constant'' (cd_name d) t) (
       cseq (ck_const_expr R (cd_initializer d)) (
       cbind (ck_expr R [] (cd_initializer d) (Some t)) (\<lambda>initializer_type.
       cseq (cwhen (\<not> same_type t initializer_type)
         (cn_emit_type_mismatch (cd_offset d) ''constant initializer type mismatch'' t initializer_type)) (
       cseq (update_const r (\<lambda>d. d\<lparr>cd_sema_checking := False, cd_sema_checked := True\<rparr>)) (
       cseq (set_module previous_module) ok_so_far)))))))))))"

definition unknown_name :: "string \<Rightarrow> string \<Rightarrow> string \<Rightarrow> string" where
  "unknown_name what mn nm = what @ '' '' @ quoted (mn @ (if mn = [] then [] else ''.'') @ nm)"

definition cn_validate_type_ref :: "checkers \<Rightarrow> cn_type_ref \<Rightarrow> nat \<Rightarrow> (bool \<times> cn_type_ref) cm" where
  "cn_validate_type_ref R t off = (case t of CnType k mn nm inner size_expr n toff \<Rightarrow>
     let validate_inner = (case inner of None \<Rightarrow> cret (False, None) | Some i \<Rightarrow> cbind (ck_type R i off) (\<lambda>(v, i). cret (v, Some i)))
     in case k of
       CN_TYPE_RESULT \<Rightarrow> cbind validate_inner (\<lambda>(v, i). cret (v, CnType k mn nm i size_expr n toff))
     | CN_TYPE_PTR \<Rightarrow> cbind validate_inner (\<lambda>(v, i). cret (v, CnType k mn nm i size_expr n toff))
     | CN_TYPE_SLICE \<Rightarrow> cbind validate_inner (\<lambda>(v, i). cret (v, CnType k mn nm i size_expr n toff))
     | CN_TYPE_ARRAY \<Rightarrow> cbind validate_inner (\<lambda>(v, i). case size_expr of
           None \<Rightarrow> cret (v, CnType k mn nm i size_expr n toff)
         | Some e \<Rightarrow> cbind (cn_resolve_non_negative_const_size R e (expr_offset e) ''E3039'' ''array size must be a non-negative integer constant'') (\<lambda>sz.
             cret (v \<and> sz \<noteq> None, CnType k mn nm i size_expr (case sz of None \<Rightarrow> 0 | Some sz \<Rightarrow> sz) toff)))
     | CN_TYPE_NAMED \<Rightarrow> cbind (source_struct mn nm) (\<lambda>r. case r of
           None \<Rightarrow> cseq (cerror ''E3012'' off (unknown_name ''unknown type'' mn nm)) (cret (False, t))
         | Some r \<Rightarrow> cbind (module_at (fst r)) (\<lambda>md. cret (True, CnType k (mo_name md) nm inner size_expr n toff)))
     | _ \<Rightarrow> cret (True, t))"

end
