(* ===== verification/Sema_Check.thy ===== *)
theory Sema_Check
  imports Sema_Expr
begin

text \<open>
  The semantic checker, third part: the types of expressions, and the knot of the mutually recursive
  functions. The type that a function returns is never null; an expected type may be.
\<close>

section \<open>Helpers\<close>

text \<open>Report an error and answer the unknown type.\<close>

definition fails :: "string \<Rightarrow> nat \<Rightarrow> string \<Rightarrow> cn_type_ref cm" where
  "fails ec off msg = cseq (cerror ec off msg) (cret unknown_type)"

definition expected_kind :: "cn_type_ref option \<Rightarrow> cn_type_kind \<Rightarrow> bool" where
  "expected_kind t k \<longleftrightarrow> (case t of None \<Rightarrow> False | Some t \<Rightarrow> type_kind t = k)"

fun is_int :: "cn_expr \<Rightarrow> bool" where
  "is_int (CN_EXPR_INT off v) \<longleftrightarrow> True"
| "is_int e \<longleftrightarrow> False"

fun is_null :: "cn_expr \<Rightarrow> bool" where
  "is_null (CN_EXPR_NULL off) \<longleftrightarrow> True"
| "is_null e \<longleftrightarrow> False"

section \<open>Expressions under a condition\<close>

definition cn_check_expression_against_peer :: "checkers \<Rightarrow> scopes \<Rightarrow> cn_expr \<Rightarrow> cn_type_ref option \<Rightarrow> cn_type_ref cm" where
  "cn_check_expression_against_peer R scs e peer =
     (if expected_kind peer CN_TYPE_U8 \<and> is_int e then ck_expr R scs e peer
      else if expected_kind peer CN_TYPE_PTR \<and> is_null e then ck_expr R scs e peer
      else ck_expr R scs e None)"

text \<open>The scope in which what a condition proves is known.\<close>

definition guard_scope :: "scopes \<Rightarrow> cn_expr \<Rightarrow> bool \<Rightarrow> scopes cm" where
  "guard_scope scs condition branch_truth =
     cn_mark_result_ok_proofs_for_branch scs condition branch_truth (enter_scope (zone_depth scs) scs)"

definition cn_check_expression_in_proof_scope :: "checkers \<Rightarrow> scopes \<Rightarrow> cn_expr \<Rightarrow> cn_type_ref option \<Rightarrow> cn_expr option \<Rightarrow> bool \<Rightarrow> cn_type_ref cm" where
  "cn_check_expression_in_proof_scope R scs e expected condition branch_truth = (case condition of
       None \<Rightarrow> ck_expr R scs e expected
     | Some c \<Rightarrow> cbind (guard_scope scs c branch_truth) (\<lambda>guarded. ck_expr R guarded e expected))"

definition cn_check_expression_against_peer_in_proof_scope ::
    "checkers \<Rightarrow> scopes \<Rightarrow> cn_expr \<Rightarrow> cn_type_ref option \<Rightarrow> cn_expr option \<Rightarrow> bool \<Rightarrow> cn_type_ref cm" where
  "cn_check_expression_against_peer_in_proof_scope R scs e peer condition branch_truth = (case condition of
       None \<Rightarrow> cn_check_expression_against_peer R scs e peer
     | Some c \<Rightarrow> cbind (guard_scope scs c branch_truth) (\<lambda>guarded. cn_check_expression_against_peer R guarded e peer))"

section \<open>Literals\<close>

text \<open>The loop over the items of an array literal; the accumulator is \<open>element_type\<close>.\<close>

definition check_item :: "checkers \<Rightarrow> scopes \<Rightarrow> cn_type_ref option \<Rightarrow> cn_expr \<Rightarrow> cn_type_ref option \<Rightarrow> cn_type_ref option cm" where
  "check_item R scs element_expected item element_type =
     cbind (ck_expr R scs item element_expected) (\<lambda>item_type. case element_type of
         None \<Rightarrow> cret (if type_kind item_type \<noteq> CN_TYPE_UNKNOWN then Some item_type else None)
       | Some t \<Rightarrow> cseq (cwhen (type_kind item_type \<noteq> CN_TYPE_UNKNOWN \<and> \<not> same_type t item_type)
             (cn_emit_type_mismatch (expr_offset item) ''array element type mismatch'' t item_type)) (cret (Some t)))"

definition cn_check_array_literal :: "checkers \<Rightarrow> scopes \<Rightarrow> nat \<Rightarrow> cn_expr list \<Rightarrow> cn_expr option \<Rightarrow> cn_type_ref option \<Rightarrow> cn_type_ref cm" where
  "cn_check_array_literal R scs off items repeat_count_expr expected =
     cbind (case repeat_count_expr of
         None \<Rightarrow> cret (length items)
       | Some e \<Rightarrow> cbind (cn_resolve_non_negative_const_size R e (expr_offset e) ''E3040'' ''array repeat count must be a non-negative integer constant'')
           (\<lambda>sz. cret (case sz of None \<Rightarrow> 0 | Some sz \<Rightarrow> sz))) (\<lambda>item_count.
     if expected_kind expected CN_TYPE_ARRAY then
       cbind (clift expected) (\<lambda>t.
       cseq (cwhen (item_count \<noteq> array_size t) (cerror ''E3011'' off
         (''array literal size mismatch: expected '' @ nat_digits (array_size t) @ '' items, got '' @ nat_digits item_count))) (
       cseq (cfold (check_item R scs (type_inner t)) items (type_inner t)) (cret t)))
     else
       cbind (cfold (check_item R scs None) items None) (\<lambda>element_type.
       cret (cn_make_temp_type CN_TYPE_ARRAY [] [] (Some (case element_type of None \<Rightarrow> unknown_type | Some t \<Rightarrow> t)) item_count off)))"

text \<open>The loop over the fields of a struct literal; the accumulator is the array \<open>seen\<close>.\<close>

definition check_field_init :: "checkers \<Rightarrow> scopes \<Rightarrow> cn_struct_decl \<Rightarrow> cn_field_init \<Rightarrow> bool list \<Rightarrow> bool list cm" where
  "check_field_init R scs d fi seen = (case cn_find_struct_field d (field_init_name fi) of
       None \<Rightarrow> cseq (cerror ''E3009'' (field_init_offset fi)
         (''unknown field '' @ quoted (field_init_name fi) @ '' on struct '' @ quoted (sd_name d))) (cret seen)
     | Some j \<Rightarrow>
         cbind (clift (elem_at seen j)) (\<lambda>was_seen.
         if was_seen then cseq (cerror ''E3003'' (field_init_offset fi) (''duplicate field initializer '' @ quoted (field_init_name fi))) (cret seen)
         else
           cbind (clift (elem_at (sd_fields d) j)) (\<lambda>f.
           cbind (ck_expr R scs (field_init_value fi) (Some (sf_type f))) (\<lambda>value_type.
           cseq (cwhen (\<not> cn_type_can_assign_to (sf_type f) value_type)
             (cn_emit_type_mismatch (field_init_offset fi) ''struct field type mismatch'' (sf_type f) value_type)) (cret (seen[j := True]))))))"

definition cn_check_struct_literal :: "checkers \<Rightarrow> scopes \<Rightarrow> nat \<Rightarrow> string \<Rightarrow> string \<Rightarrow> cn_field_init list \<Rightarrow> cn_type_ref cm" where
  "cn_check_struct_literal R scs off mn nm inits = cbind (source_struct mn nm) (\<lambda>r. case r of
       None \<Rightarrow> fails ''E3012'' off (unknown_name ''unknown struct'' mn nm)
     | Some r \<Rightarrow>
         cbind (struct_at r) (\<lambda>d.
         cbind (cfold (check_field_init R scs d) inits (replicate (length (sd_fields d)) False)) (\<lambda>seen.
         cseq (ceach (\<lambda>(f, was_seen). cwhen (\<not> was_seen) (cerror ''E3004'' off
           (''missing field '' @ quoted (sf_name f) @ '' in struct literal '' @ quoted (sd_name d)))) (zip (sd_fields d) seen)) (
         cbind (module_at (fst r)) (\<lambda>md. cret (cn_make_temp_type CN_TYPE_NAMED (mo_name md) (sd_name d) None 0 off))))))"

section \<open>Access\<close>

definition check_result_field :: "scopes \<Rightarrow> nat \<Rightarrow> cn_expr \<Rightarrow> string \<Rightarrow> cn_type_ref \<Rightarrow> cn_type_ref cm" where
  "check_result_field scs off base f t =
     (if f = ''ok'' then cret bool_type
      else if f = ''value'' then
        cbind (case expr_name base of None \<Rightarrow> cret None | Some nm \<Rightarrow> scope_binding scs nm) (\<lambda>b.
        cseq (cwhen (case b of None \<Rightarrow> True | Some b \<Rightarrow> \<not> cn_scope_result_is_ok scs (bd_id b))
          (cerror ''E3024'' off (''result '' @ quoted ''.value'' @ '' requires a proven-ok named result in this scope'')))
          (inner_type t))
      else fails ''E3009'' off (''result values only expose '' @ quoted ''.ok'' @ '' and '' @ quoted ''.value''))"

definition check_struct_field :: "nat \<Rightarrow> string \<Rightarrow> cn_type_ref \<Rightarrow> cn_type_ref cm" where
  "check_struct_field off f t = cbind (canonical_struct (type_module t) (type_name t)) (\<lambda>r. case r of
       None \<Rightarrow> fails ''E3009'' off (''type '' @ quoted (type_name t) @ '' does not support field access'')
     | Some r \<Rightarrow> cbind (struct_at r) (\<lambda>d. case cn_find_struct_field d f of
           None \<Rightarrow> fails ''E3009'' off (''unknown field '' @ quoted f @ '' on struct '' @ quoted (sd_name d))
         | Some j \<Rightarrow> cbind (clift (elem_at (sd_fields d) j)) (\<lambda>fd. cret (sf_type fd))))"

definition check_value_field :: "checkers \<Rightarrow> scopes \<Rightarrow> nat \<Rightarrow> cn_expr \<Rightarrow> string \<Rightarrow> cn_type_ref cm" where
  "check_value_field R scs off base f = cbind (ck_expr R scs base None) (\<lambda>t. case type_kind t of
       CN_TYPE_PTR \<Rightarrow> if f = ''value'' then inner_type t
         else fails ''E3009'' off (''pointer values only expose '' @ quoted ''.value'' @ ''; use '' @ quoted ''deref value'' @ '' for explicit dereference'')
     | CN_TYPE_RESULT \<Rightarrow> check_result_field scs off base f t
     | CN_TYPE_SLICE \<Rightarrow> if f = ''length'' then cret int_type else fails ''E3009'' off (''slice values only expose '' @ quoted ''.length'')
     | CN_TYPE_NAMED \<Rightarrow> check_struct_field off f t
     | _ \<Rightarrow> fails ''E3009'' off ''field access requires a struct value'')"

definition cn_check_field_access :: "checkers \<Rightarrow> scopes \<Rightarrow> nat \<Rightarrow> cn_expr \<Rightarrow> string \<Rightarrow> cn_type_ref cm" where
  "cn_check_field_access R scs off base f = (case expr_name base of
       None \<Rightarrow> check_value_field R scs off base f
     | Some nm \<Rightarrow> cbind (source_const nm f) (\<lambda>r. case r of
           Some r \<Rightarrow> cbind (const_at r) (\<lambda>d. cret (cd_type d))
         | None \<Rightarrow> cbind (imported_module nm) (\<lambda>m.
             if m \<noteq> None then fails ''E3014'' off ''module member access is only valid for exported constants or calls like module.function(...)''
             else check_value_field R scs off base f)))"

definition check_int :: "cn_type_ref \<Rightarrow> nat \<Rightarrow> string \<Rightarrow> unit cm" where
  "check_int t off msg = cwhen (\<not> same_type t int_type) (cn_emit_type_mismatch off msg int_type t)"

definition cn_check_index :: "checkers \<Rightarrow> scopes \<Rightarrow> nat \<Rightarrow> cn_expr \<Rightarrow> cn_expr \<Rightarrow> cn_type_ref cm" where
  "cn_check_index R scs off base ix =
     cbind (ck_expr R scs base None) (\<lambda>base_type.
     cbind (ck_expr R scs ix (Some int_type)) (\<lambda>index_type.
     cseq (check_int index_type (expr_offset ix) ''array index must be int'') (
     if type_kind base_type \<noteq> CN_TYPE_ARRAY \<and> type_kind base_type \<noteq> CN_TYPE_SLICE
     then fails ''E3010'' off ''indexing requires an array or slice value''
     else inner_type base_type)))"

definition check_slice_bound :: "checkers \<Rightarrow> scopes \<Rightarrow> cn_expr option \<Rightarrow> string \<Rightarrow> unit cm" where
  "check_slice_bound R scs bound msg = (case bound of
       None \<Rightarrow> cret ()
     | Some e \<Rightarrow> cbind (ck_expr R scs e (Some int_type)) (\<lambda>t. check_int t (expr_offset e) msg))"

definition cn_check_slice_view :: "checkers \<Rightarrow> scopes \<Rightarrow> nat \<Rightarrow> cn_expr \<Rightarrow> cn_expr option \<Rightarrow> cn_expr option \<Rightarrow> cn_type_ref cm" where
  "cn_check_slice_view R scs off base st en =
     cbind (ck_expr R scs base None) (\<lambda>base_type.
     cseq (check_slice_bound R scs st ''slice start must be int'') (
     cseq (check_slice_bound R scs en ''slice end must be int'') (
     if type_kind base_type \<noteq> CN_TYPE_ARRAY \<and> type_kind base_type \<noteq> CN_TYPE_SLICE
     then fails ''E3010'' off ''slicing requires an array or slice value''
     else cret (cn_make_temp_type CN_TYPE_SLICE [] [] (type_inner base_type) 0 off))))"

section \<open>Calls\<close>

definition check_argument :: "checkers \<Rightarrow> scopes \<Rightarrow> cn_expr \<times> cn_param \<Rightarrow> unit cm" where
  "check_argument R scs ap = (case ap of (arg, param) \<Rightarrow>
     cbind (ck_expr R scs arg (Some (pa_type param))) (\<lambda>actual.
     cseq (cwhen (\<not> cn_type_can_assign_to (pa_type param) actual)
       (cn_emit_type_mismatch (expr_offset arg) ''argument type mismatch'' (pa_type param) actual)) (
     cbind (cn_expr_zone_depth scs arg (Some (pa_type param))) (\<lambda>depth.
     if depth > 0 then cbind (cn_type_may_carry_zone_value (Some (pa_type param))) (\<lambda>carries.
       cwhen carries (cerror ''E3045'' (expr_offset arg)
         ''zone-owned value cannot cross a function call boundary yet; copy data out before calling''))
     else cret ()))))"

definition cn_check_call_arguments :: "checkers \<Rightarrow> scopes \<Rightarrow> nat \<Rightarrow> cn_expr list \<Rightarrow> cn_function \<Rightarrow> unit cm" where
  "cn_check_call_arguments R scs off args f =
     cseq (cwhen (length (fn_parameters f) \<noteq> length args) (cerror ''E3008'' off
       (''function '' @ quoted (fn_name f) @ '' expects '' @ nat_digits (length (fn_parameters f)) @ '' arguments, got '' @ nat_digits (length args)))) (
     ceach (check_argument R scs) (zip args (fn_parameters f)))"

definition check_str_argument :: "checkers \<Rightarrow> scopes \<Rightarrow> string \<Rightarrow> cn_expr \<Rightarrow> unit cm" where
  "check_str_argument R scs msg arg = cbind (ck_expr R scs arg (Some str_type)) (\<lambda>t.
     cwhen (\<not> same_type t str_type) (cn_emit_type_mismatch (expr_offset arg) msg str_type t))"

definition check_local_call :: "checkers \<Rightarrow> scopes \<Rightarrow> nat \<Rightarrow> string \<Rightarrow> cn_expr list \<Rightarrow> cn_type_ref cm" where
  "check_local_call R scs off callee args =
     cbind (imported_module callee) (\<lambda>m.
     if m \<noteq> None then fails ''E3014'' off ''module names are not callable; use module.function(...)''
     else cbind (module_const callee) (\<lambda>c.
     if c \<noteq> None then fails ''E3014'' off (''constant '' @ quoted callee @ '' is not callable'')
     else cbind ccur (\<lambda>cur. cbind (csema (\<lambda>prj. cn_find_local_function prj (Some cur) callee)) (\<lambda>i. case i of
         None \<Rightarrow> fails ''E3002'' off (''unknown function '' @ quoted callee)
       | Some i \<Rightarrow> cbind (function_at (cur, i)) (\<lambda>f. cseq (cn_check_call_arguments R scs off args f) (cret (fn_return_type f)))))))"

definition check_module_call :: "checkers \<Rightarrow> scopes \<Rightarrow> nat \<Rightarrow> string \<Rightarrow> string \<Rightarrow> cn_expr list \<Rightarrow> cn_type_ref cm" where
  "check_module_call R scs off mn nm args = cbind (imported_module mn) (\<lambda>m. case m of
       None \<Rightarrow> fails ''E3014'' off ''call target must be a function name or imported module function''
     | Some k \<Rightarrow>
         cbind (csema (\<lambda>prj. cn_find_public_const prj (Some k) nm)) (\<lambda>c.
         cbind (module_at k) (\<lambda>md.
         if c \<noteq> None then fails ''E3014'' off (''module '' @ quoted (mo_name md) @ '' exports constant '' @ quoted nm @ '', not a function'')
         else cbind (csema (\<lambda>prj. cn_find_public_function prj (Some k) nm)) (\<lambda>i. case i of
             None \<Rightarrow> fails ''E3002'' off (''module '' @ quoted (mo_name md) @ '' does not export function '' @ quoted nm)
           | Some i \<Rightarrow> cbind (function_at (k, i)) (\<lambda>f. cseq (cn_check_call_arguments R scs off args f) (cret (fn_return_type f)))))))"

definition cn_check_call :: "checkers \<Rightarrow> scopes \<Rightarrow> nat \<Rightarrow> cn_expr \<Rightarrow> cn_expr list \<Rightarrow> cn_type_ref cm" where
  "cn_check_call R scs off callee args = (case callee of
       CN_EXPR_NAME coff nm \<Rightarrow>
         if nm = ''print'' \<or> nm = ''println'' then
           cseq (case args of
               [arg] \<Rightarrow> cseq (ck_expr R scs arg None) (cret ())
             | _ \<Rightarrow> cerror ''E3008'' off (nm @ '' expects exactly 1 argument'')) (cret void_type)
         else if nm = ''input'' then
           cseq (cwhen (args \<noteq> []) (cerror ''E3008'' off ''input expects 0 arguments'')) (cret str_type)
         else if nm = ''str_copy'' then
           cseq (case args of
               [arg] \<Rightarrow> check_str_argument R scs ''str_copy requires str'' arg
             | _ \<Rightarrow> cerror ''E3008'' off ''str_copy expects exactly 1 argument'') (cret str_type)
         else if nm = ''str_concat'' then
           cseq (if length args \<noteq> 2 then cerror ''E3008'' off ''str_concat expects exactly 2 arguments''
             else ceach (check_str_argument R scs ''str_concat requires str'') args) (cret str_type)
         else check_local_call R scs off nm args
     | CN_EXPR_FIELD foff base nm \<Rightarrow> (case expr_name base of
           Some mn \<Rightarrow> check_module_call R scs off mn nm args
         | None \<Rightarrow>
             cseq (cerror ''E3014'' off ''call target must be a function name or imported module function'') (
             cseq (ceach (\<lambda>arg. cseq (ck_expr R scs arg None) (cret ())) args) (cret unknown_type)))
     | _ \<Rightarrow>
         cseq (cerror ''E3014'' off ''call target must be a function name or imported module function'') (
         cseq (ceach (\<lambda>arg. cseq (ck_expr R scs arg None) (cret ())) args) (cret unknown_type)))"

section \<open>Addresses and conditions\<close>

fun cn_check_address_target_storage :: "scopes \<Rightarrow> cn_expr \<Rightarrow> bool cm" where
  "cn_check_address_target_storage scs (CN_EXPR_NAME off nm) = cbind (scope_binding scs nm) (\<lambda>b. case b of
       Some b \<Rightarrow> if bd_is_mutable b then cret True
         else cseq (cerror ''E3035'' off (''cannot take address of immutable binding '' @ quoted nm @ ''; use '' @ quoted ''let mut'' @ '' for mutable storage'')) (cret False)
     | None \<Rightarrow> cbind (module_const nm) (\<lambda>c.
         if c \<noteq> None then cseq (cerror ''E3036'' off (''cannot take address of module constant '' @ quoted nm)) (cret False)
         else cret True))"
| "cn_check_address_target_storage scs (CN_EXPR_FIELD off base f) = (case expr_name base of
       None \<Rightarrow> cn_check_address_target_storage scs base
     | Some nm \<Rightarrow>
         cbind (if f = ''value'' then cbind (scope_binding scs nm) (\<lambda>b. cret (case b of None \<Rightarrow> False | Some b \<Rightarrow> type_kind (bd_type b) = CN_TYPE_PTR))
           else cret False) (\<lambda>through_pointer.
         if through_pointer then cret True
         else cbind (source_const nm f) (\<lambda>r.
           if r \<noteq> None then cseq (cerror ''E3036'' off (''cannot take address of module constant '' @ quoted (nm @ ''.'' @ f))) (cret False)
           else cn_check_address_target_storage scs base)))"
| "cn_check_address_target_storage scs (CN_EXPR_INDEX off base ix) = cn_check_address_target_storage scs base"
| "cn_check_address_target_storage scs (CN_EXPR_DEREF off x) = cret True"
| "cn_check_address_target_storage scs e =
     cseq (cerror ''E3031'' (expr_offset e) ''address-of target must be a named value, dereference, field, or array element'') (cret False)"

definition cn_check_address_of :: "checkers \<Rightarrow> scopes \<Rightarrow> nat \<Rightarrow> cn_expr \<Rightarrow> cn_type_ref cm" where
  "cn_check_address_of R scs off target = cbind (cn_check_address_target_storage scs target) (\<lambda>ok.
     if \<not> ok then cret unknown_type
     else cbind (ck_expr R scs target None) (\<lambda>t. cret (cn_make_temp_type CN_TYPE_PTR [] [] (Some t) 0 off)))"

definition if_branches :: "checkers \<Rightarrow> scopes \<Rightarrow> cn_expr \<Rightarrow> cn_expr \<Rightarrow> cn_expr \<Rightarrow> cn_type_ref option \<Rightarrow> (cn_type_ref \<times> cn_type_ref) cm" where
  "if_branches R scs c th el expected =
     (if expected \<noteq> None then
        cbind (cn_check_expression_in_proof_scope R scs th expected (Some c) True) (\<lambda>then_type.
        cbind (cn_check_expression_in_proof_scope R scs el expected (Some c) False) (\<lambda>else_type. cret (then_type, else_type)))
      else
        cbind (cn_check_expression_in_proof_scope R scs th None (Some c) True) (\<lambda>then_type.
        cbind (cn_check_expression_against_peer_in_proof_scope R scs el (Some then_type) (Some c) False) (\<lambda>else_type.
        cbind (if type_kind else_type = CN_TYPE_U8 \<and> is_int th
          then cn_check_expression_in_proof_scope R scs th (Some else_type) (Some c) True else cret then_type) (\<lambda>then_type.
        cbind (if type_kind else_type = CN_TYPE_PTR \<and> is_null th
          then cn_check_expression_in_proof_scope R scs th (Some else_type) (Some c) True else cret then_type) (\<lambda>then_type.
        cret (then_type, else_type))))))"

definition branch_mismatch :: "nat \<Rightarrow> cn_type_ref \<Rightarrow> cn_type_ref \<Rightarrow> cn_type_ref cm" where
  "branch_mismatch off then_type else_type = fails ''E3030'' off (''if expression branch types must match: then is ''
     @ cn_type_describe (Some then_type) 64 @ '', else is '' @ cn_type_describe (Some else_type) 64)"

definition cn_check_if_expression :: "checkers \<Rightarrow> scopes \<Rightarrow> nat \<Rightarrow> cn_expr \<Rightarrow> cn_expr \<Rightarrow> cn_expr \<Rightarrow> cn_type_ref option \<Rightarrow> cn_type_ref cm" where
  "cn_check_if_expression R scs off c th el expected =
     cbind (ck_expr R scs c (Some bool_type)) (\<lambda>condition_type.
     cseq (cwhen (\<not> same_type condition_type bool_type) (cerror ''E3005'' (expr_offset c) ''if expression condition must be bool'')) (
     cbind (if_branches R scs c th el expected) (\<lambda>(then_type, else_type).
     if type_kind then_type = CN_TYPE_VOID \<or> type_kind else_type = CN_TYPE_VOID
     then fails ''E3029'' off ''if expressions must produce a non-void value on both branches''
     else case expected of
       Some t \<Rightarrow> if cn_type_can_assign_to t then_type \<and> cn_type_can_assign_to t else_type then cret t
         else if \<not> same_type then_type else_type then branch_mismatch off then_type else_type else cret then_type
     | None \<Rightarrow> if \<not> same_type then_type else_type then branch_mismatch off then_type else_type else cret then_type)))"

section \<open>Operators\<close>

definition check_arithmetic :: "nat \<Rightarrow> cn_type_ref \<Rightarrow> cn_type_ref \<Rightarrow> cn_type_ref cm" where
  "check_arithmetic off l r =
     cseq (check_int l off ''arithmetic operator requires int'') (
     cseq (check_int r off ''arithmetic operator requires int'') (cret int_type))"

definition check_comparison :: "nat \<Rightarrow> cn_type_ref \<Rightarrow> cn_type_ref \<Rightarrow> cn_type_ref cm" where
  "check_comparison off l r =
     cseq (if cn_integer_types_match l r then cret ()
       else if \<not> cn_type_is_integer_like l then cn_emit_type_mismatch off ''comparison operator requires int or u8'' int_type l
       else if \<not> cn_type_is_integer_like r then cn_emit_type_mismatch off ''comparison operator requires int or u8'' l r
       else cn_emit_type_mismatch off ''comparison operands must use the same integer type'' l r) (cret bool_type)"

definition check_logical :: "nat \<Rightarrow> cn_type_ref \<Rightarrow> cn_type_ref \<Rightarrow> cn_type_ref cm" where
  "check_logical off l r =
     cseq (cwhen (\<not> same_type l bool_type) (cn_emit_type_mismatch off ''logical operator requires bool'' bool_type l)) (
     cseq (cwhen (\<not> same_type r bool_type) (cn_emit_type_mismatch off ''logical operator requires bool'' bool_type r)) (cret bool_type))"

definition check_equality :: "nat \<Rightarrow> cn_type_ref \<Rightarrow> cn_type_ref \<Rightarrow> cn_type_ref cm" where
  "check_equality off l r =
     cseq (cwhen (\<not> cn_type_matches_equality_operands l r) (cn_emit_type_mismatch off ''equality operands must match'' l r)) (cret bool_type)"

definition check_binary :: "checkers \<Rightarrow> scopes \<Rightarrow> nat \<Rightarrow> cn_binary_op \<Rightarrow> cn_expr \<Rightarrow> cn_expr \<Rightarrow> cn_type_ref cm" where
  "check_binary R scs off bop le re =
     cbind (ck_expr R scs le None) (\<lambda>l.
     cbind (cn_check_expression_against_peer R scs re (Some l)) (\<lambda>r.
     cbind (if type_kind r = CN_TYPE_U8 \<and> is_int le then ck_expr R scs le (Some r) else cret l) (\<lambda>l.
     cbind (if type_kind r = CN_TYPE_PTR \<and> is_null le then ck_expr R scs le (Some r) else cret l) (\<lambda>l.
     case bop of
       CN_BINARY_ADD \<Rightarrow> check_arithmetic off l r
     | CN_BINARY_SUB \<Rightarrow> check_arithmetic off l r
     | CN_BINARY_MUL \<Rightarrow> check_arithmetic off l r
     | CN_BINARY_DIV \<Rightarrow> check_arithmetic off l r
     | CN_BINARY_MOD \<Rightarrow> check_arithmetic off l r
     | CN_BINARY_EQUAL \<Rightarrow> check_equality off l r
     | CN_BINARY_NOT_EQUAL \<Rightarrow> check_equality off l r
     | CN_BINARY_LESS \<Rightarrow> check_comparison off l r
     | CN_BINARY_LESS_EQUAL \<Rightarrow> check_comparison off l r
     | CN_BINARY_GREATER \<Rightarrow> check_comparison off l r
     | CN_BINARY_GREATER_EQUAL \<Rightarrow> check_comparison off l r
     | CN_BINARY_AND \<Rightarrow> check_logical off l r
     | CN_BINARY_OR \<Rightarrow> check_logical off l r))))"

definition check_unary :: "checkers \<Rightarrow> scopes \<Rightarrow> nat \<Rightarrow> cn_unary_op \<Rightarrow> cn_expr \<Rightarrow> cn_type_ref cm" where
  "check_unary R scs off uop x = cbind (ck_expr R scs x None) (\<lambda>t.
     if uop = CN_UNARY_NEGATE
     then cseq (check_int t off (''unary '' @ quoted ''-'' @ '' requires int'')) (cret int_type)
     else cseq (cwhen (\<not> same_type t bool_type)
       (cn_emit_type_mismatch off (''unary '' @ quoted ''!'' @ '' requires bool'') bool_type t)) (cret bool_type))"

definition check_name :: "scopes \<Rightarrow> nat \<Rightarrow> string \<Rightarrow> cn_type_ref cm" where
  "check_name scs off nm = cbind (scope_binding scs nm) (\<lambda>b. case b of
       Some b \<Rightarrow> cret (bd_type b)
     | None \<Rightarrow> cbind (module_const nm) (\<lambda>c. case c of
         Some r \<Rightarrow> cbind (const_at r) (\<lambda>d. cret (cd_type d))
       | None \<Rightarrow> cbind (imported_module nm) (\<lambda>m.
           if m \<noteq> None then fails ''E3014'' off ''module names are not values yet''
           else fails ''E3002'' off (''unknown name '' @ quoted nm))))"

definition check_ok :: "checkers \<Rightarrow> scopes \<Rightarrow> nat \<Rightarrow> cn_expr \<Rightarrow> cn_type_ref option \<Rightarrow> cn_type_ref cm" where
  "check_ok R scs off x expected =
     (if expected_kind expected CN_TYPE_RESULT then
        cbind (clift expected) (\<lambda>t.
        cbind (ck_expr R scs x (type_inner t)) (\<lambda>value_type.
        cbind (inner_type t) (\<lambda>it.
        cseq (cwhen (\<not> cn_type_can_assign_to it value_type) (cn_emit_type_mismatch off ''ok value type mismatch'' it value_type)) (cret t))))
      else cbind (ck_expr R scs x None) (\<lambda>value_type. cret (cn_make_temp_type CN_TYPE_RESULT [] [] (Some value_type) 0 off)))"

definition check_alloc :: "checkers \<Rightarrow> nat \<Rightarrow> cn_type_ref \<Rightarrow> cn_type_ref cm" where
  "check_alloc R off t = cbind (ck_type R t off) (\<lambda>(_, t). cret (cn_make_temp_type CN_TYPE_PTR [] [] (Some t) 0 off))"

section \<open>Expressions\<close>

definition cn_check_expression_hint :: "checkers \<Rightarrow> scopes \<Rightarrow> cn_expr \<Rightarrow> cn_type_ref option \<Rightarrow> cn_type_ref cm" where
  "cn_check_expression_hint R scs e expected = (case e of
       CN_EXPR_INT off v \<Rightarrow>
         if expected_kind expected CN_TYPE_U8
         then cseq (cwhen (\<not> cn_int_literal_fits_u8 e)
           (cerror ''E3028'' off (''u8 literal out of range: expected 0..255, got '' @ int_digits (sint v)))) (cret (cn_builtin_type CN_TYPE_U8))
         else cret int_type
     | CN_EXPR_BOOL off v \<Rightarrow> cret bool_type
     | CN_EXPR_STRING off v \<Rightarrow> cret str_type
     | CN_EXPR_NULL off \<Rightarrow> if expected_kind expected CN_TYPE_PTR then clift expected else cret (cn_builtin_type CN_TYPE_NULL)
     | CN_EXPR_NAME off nm \<Rightarrow> check_name scs off nm
     | CN_EXPR_UNARY off uop x \<Rightarrow> check_unary R scs off uop x
     | CN_EXPR_BINARY off bop l r \<Rightarrow> check_binary R scs off bop l r
     | CN_EXPR_IF off c th el \<Rightarrow> cn_check_if_expression R scs off c th el expected
     | CN_EXPR_CALL off f args \<Rightarrow> cn_check_call R scs off f args
     | CN_EXPR_ARRAY_LITERAL off items rc n \<Rightarrow> cn_check_array_literal R scs off items rc expected
     | CN_EXPR_INDEX off base ix \<Rightarrow> cn_check_index R scs off base ix
     | CN_EXPR_SLICE_VIEW off base st en \<Rightarrow> cn_check_slice_view R scs off base st en
     | CN_EXPR_FIELD off base f \<Rightarrow> cn_check_field_access R scs off base f
     | CN_EXPR_STRUCT_LITERAL off mn nm inits \<Rightarrow> cn_check_struct_literal R scs off mn nm inits
     | CN_EXPR_OK off x \<Rightarrow> check_ok R scs off x expected
     | CN_EXPR_ERR off \<Rightarrow>
         if expected_kind expected CN_TYPE_RESULT then clift expected
         else fails ''E3015'' off (quoted ''err'' @ '' requires an expected result type'')
     | CN_EXPR_ALLOC off t \<Rightarrow> check_alloc R off t
     | CN_EXPR_ZALLOC off t \<Rightarrow>
         cseq (cwhen (zone_depth scs = 0) (cerror ''E3041'' off ''zalloc requires an enclosing zone block'')) (check_alloc R off t)
     | CN_EXPR_ADDR off x \<Rightarrow> cn_check_address_of R scs off x
     | CN_EXPR_DEREF off x \<Rightarrow> cbind (ck_expr R scs x None) (\<lambda>t.
         if type_kind t \<noteq> CN_TYPE_PTR then fails ''E3032'' off ''deref requires a ptr value'' else inner_type t))"

text \<open>The knot: with no fuel left a call does not come back.\<close>

primrec checkers_of :: "nat \<Rightarrow> checkers" where
  "checkers_of 0 = \<lparr>ck_expr = (\<lambda>scs e expected. cfuel), ck_type = (\<lambda>t off. cfuel), ck_eval = (\<lambda>m e. cfuel),
     ck_const_expr = (\<lambda>e. cfuel), ck_const_decl = (\<lambda>r. cfuel)\<rparr>"
| "checkers_of (Suc n) = (let R = checkers_of n in \<lparr>ck_expr = cn_check_expression_hint R, ck_type = cn_validate_type_ref R,
     ck_eval = cn_eval_const_int_expr_in_module R, ck_const_expr = cn_check_const_expr R, ck_const_decl = cn_check_const_decl R\<rparr>)"

end
