(* ===== verification/Sema_Stmt.thy ===== *)
theory Sema_Stmt
  imports Sema_Check
begin

text \<open>
  The semantic checker, fourth part: statements, declarations and whole projects. A statement takes the
  scopes and gives them back, since it may add bindings and guards to the innermost one and withdraw
  proofs in all of them. The boolean results that no caller reads are left out.
\<close>

section \<open>Paths that return\<close>

fun cn_stmt_guarantees_return :: "cn_stmt \<Rightarrow> bool"
and stmts_guarantee_return :: "cn_stmt list \<Rightarrow> bool"
and cn_block_guarantees_return :: "cn_block \<Rightarrow> bool" where
  "cn_stmt_guarantees_return (CN_STMT_RETURN off v) \<longleftrightarrow> True"
| "cn_stmt_guarantees_return (CN_STMT_IF off c th el) \<longleftrightarrow> (case el of
       None \<Rightarrow> False
     | Some b \<Rightarrow> cn_block_guarantees_return th \<and> cn_block_guarantees_return b)"
| "cn_stmt_guarantees_return (CN_STMT_LOOP off b) \<longleftrightarrow> cn_block_guarantees_return b"
| "cn_stmt_guarantees_return s \<longleftrightarrow> False"
| "stmts_guarantee_return [] \<longleftrightarrow> False"
| "stmts_guarantee_return (s # ss) \<longleftrightarrow> (if cn_stmt_guarantees_return s then True else stmts_guarantee_return ss)"
| "cn_block_guarantees_return (CnBlock ss off) \<longleftrightarrow> stmts_guarantee_return ss"

section \<open>Assignments\<close>

record cn_assignment_target =
  at_type :: cn_type_ref
  at_requires_mutable_binding :: bool
  at_binding_name :: string
  at_binding_scope_zone_depth :: nat

definition no_target :: "cn_type_ref \<Rightarrow> nat \<Rightarrow> cn_assignment_target" where
  "no_target t depth = \<lparr>at_type = t, at_requires_mutable_binding = False, at_binding_name = [], at_binding_scope_zone_depth = depth\<rparr>"

definition check_place_target :: "checkers \<Rightarrow> scopes \<Rightarrow> cn_expr \<Rightarrow> cn_assignment_target cm" where
  "check_place_target R scs target =
     cbind (ck_expr R scs target None) (\<lambda>t.
     cbind (cn_assignment_storage_zone_depth scs target) (\<lambda>depth. cret (no_target t depth)))"

definition cn_check_assignment_target :: "checkers \<Rightarrow> scopes \<Rightarrow> cn_expr \<Rightarrow> cn_assignment_target cm" where
  "cn_check_assignment_target R scs target = (case target of
       CN_EXPR_NAME off nm \<Rightarrow> cbind (scope_binding scs nm) (\<lambda>b. case b of
           Some b \<Rightarrow> cret \<lparr>at_type = bd_type b, at_requires_mutable_binding = True, at_binding_name = bd_name b,
             at_binding_scope_zone_depth = bd_scope_zone_depth b\<rparr>
         | None \<Rightarrow> cbind (module_const nm) (\<lambda>c. case c of
             Some r \<Rightarrow>
               cseq (cerror ''E3006'' off (''cannot assign to module constant '' @ quoted nm)) (
               cbind (const_at r) (\<lambda>d. cret (no_target (cd_type d) 0)))
           | None \<Rightarrow> cseq (cerror ''E3002'' off (''unknown name '' @ quoted nm)) (cret (no_target unknown_type 0))))
     | CN_EXPR_FIELD off base f \<Rightarrow> (case expr_name base of
           None \<Rightarrow> check_place_target R scs target
         | Some nm \<Rightarrow> cbind (source_const nm f) (\<lambda>r. case r of
             Some r \<Rightarrow>
               cseq (cerror ''E3006'' off (''cannot assign to module constant '' @ quoted (nm @ ''.'' @ f))) (
               cbind (const_at r) (\<lambda>d. cret (no_target (cd_type d) 0)))
           | None \<Rightarrow> check_place_target R scs target))
     | CN_EXPR_INDEX off base ix \<Rightarrow> check_place_target R scs target
     | CN_EXPR_DEREF off x \<Rightarrow> check_place_target R scs target
     | _ \<Rightarrow> cseq (cerror ''E3004'' (expr_offset target) ''invalid assignment target'') (cret (no_target unknown_type 0)))"

fun is_ok_expr :: "cn_expr \<Rightarrow> bool" where
  "is_ok_expr (CN_EXPR_OK off x) \<longleftrightarrow> True"
| "is_ok_expr e \<longleftrightarrow> False"

text \<open>The binding that an assignment changes: its zone, and what is known of it.\<close>

definition assign_binding :: "scopes \<Rightarrow> string \<Rightarrow> cn_expr \<Rightarrow> nat \<Rightarrow> scopes cm" where
  "assign_binding scs nm value_expr depth = cbind (scope_binding scs nm) (\<lambda>b. case b of
       None \<Rightarrow> cret scs
     | Some b \<Rightarrow>
         let scs = update_binding (bd_id b) (\<lambda>b. b\<lparr>bd_value_zone_depth := depth\<rparr>) scs
         in if type_kind (bd_type b) = CN_TYPE_RESULT
           then let scs = cn_scope_invalidate_result_proofs (bd_id b) scs
             in cret (if is_ok_expr value_expr then cn_scope_mark_result_ok (bd_id b) scs else scs)
           else cret scs)"

definition check_assign :: "checkers \<Rightarrow> scopes \<Rightarrow> nat \<Rightarrow> cn_expr \<Rightarrow> cn_expr \<Rightarrow> scopes cm" where
  "check_assign R scs off target value_expr =
     cbind (cn_check_assignment_target R scs target) (\<lambda>info.
     cseq (if at_requires_mutable_binding info
       then cbind (scope_binding scs (at_binding_name info)) (\<lambda>b.
         cwhen (case b of None \<Rightarrow> False | Some b \<Rightarrow> \<not> bd_is_mutable b)
           (cerror ''E3006'' off (''cannot assign to immutable binding '' @ quoted (at_binding_name info))))
       else cret ()) (
     cbind (ck_expr R scs value_expr (Some (at_type info))) (\<lambda>value_type.
     cbind (cn_expr_zone_depth scs value_expr (Some (at_type info))) (\<lambda>depth.
     cseq (cwhen (\<not> cn_type_can_assign_to (at_type info) value_type)
       (cn_emit_type_mismatch off ''assignment type mismatch'' (at_type info) value_type)) (
     if depth > 0 \<and> at_binding_scope_zone_depth info < depth
     then cseq (cerror ''E3044'' off ''zone-owned value cannot escape into outer storage'') (cret scs)
     else if at_binding_name info \<noteq> [] then assign_binding scs (at_binding_name info) value_expr depth
     else cret scs)))))"

section \<open>Statements without blocks\<close>

definition check_let :: "checkers \<Rightarrow> scopes \<Rightarrow> nat \<Rightarrow> string \<Rightarrow> bool \<Rightarrow> cn_type_ref \<Rightarrow> cn_expr \<Rightarrow> scopes cm" where
  "check_let R scs off nm is_mutable t e =
     cbind (ck_type R t off) (\<lambda>(_, t).
     cbind (ck_expr R scs e (Some t)) (\<lambda>initializer_type.
     cbind (cn_expr_zone_depth scs e (Some t)) (\<lambda>depth.
     cseq (cwhen (\<not> cn_type_can_assign_to t initializer_type)
       (cn_emit_type_mismatch off ''initializer type mismatch'' t initializer_type)) (
     cbind (cn_scope_define nm t is_mutable depth off scs) (\<lambda>(_, scs).
     if \<not> is_mutable \<and> same_type t bool_type
     then cbind (scope_binding scs nm) (\<lambda>b. case b of
         None \<Rightarrow> cret scs
       | Some b \<Rightarrow> cbind (clift (cn_build_result_proof e scs 0)) (\<lambda>p.
           cret (update_binding (bd_id b) (\<lambda>b. b\<lparr>bd_result_guard_proof := p\<rparr>) scs)))
     else cret scs)))))"

definition current_return_type :: "cn_type_ref cm" where
  "current_return_type = cbind (cget cx_current_function) (\<lambda>r. cbind (clift r) (\<lambda>r. cbind (function_at r) (\<lambda>f. cret (fn_return_type f))))"

definition check_return :: "checkers \<Rightarrow> scopes \<Rightarrow> nat \<Rightarrow> cn_expr option \<Rightarrow> unit cm" where
  "check_return R scs off value_expr = cbind current_return_type (\<lambda>t. case value_expr of
       None \<Rightarrow> cwhen (\<not> same_type t void_type) (cn_emit_type_mismatch off ''return value required'' t void_type)
     | Some e \<Rightarrow>
         cbind (ck_expr R scs e (Some t)) (\<lambda>value_type.
         cseq (cwhen (\<not> cn_type_can_assign_to t value_type) (cn_emit_type_mismatch off ''return type mismatch'' t value_type)) (
         cbind (cn_expr_zone_depth scs e (Some t)) (\<lambda>depth.
         cwhen (depth > 0) (cerror ''E3042'' off ''zone-owned value cannot escape through return'')))))"

definition check_try :: "checkers \<Rightarrow> scopes \<Rightarrow> nat \<Rightarrow> string \<Rightarrow> cn_expr \<Rightarrow> scopes cm" where
  "check_try R scs off nm e =
     cbind (ck_expr R scs e None) (\<lambda>initializer_type.
     cbind (if type_kind initializer_type = CN_TYPE_RESULT then cn_expr_zone_depth scs e (type_inner initializer_type) else cret 0) (\<lambda>depth.
     cbind current_return_type (\<lambda>t.
     cseq (cwhen (type_kind t \<noteq> CN_TYPE_RESULT) (cerror ''E3033'' off ''try requires the enclosing function to return result ...'')) (
     cbind (if type_kind initializer_type \<noteq> CN_TYPE_RESULT
       then cseq (cerror ''E3034'' off ''try initializer must have type result ...'') (cret unknown_type)
       else inner_type initializer_type) (\<lambda>value_type.
     cbind (cn_scope_define nm value_type False depth off scs) (\<lambda>(_, scs). cret scs))))))"

definition check_free :: "checkers \<Rightarrow> scopes \<Rightarrow> nat \<Rightarrow> cn_expr \<Rightarrow> unit cm" where
  "check_free R scs off e =
     cbind (ck_expr R scs e None) (\<lambda>t.
     cbind (cn_expr_zone_depth scs e (Some t)) (\<lambda>depth.
     if depth > 0 then cerror ''E3043'' off ''free cannot release zone-owned memory; zone allocations are released when the zone ends''
     else if type_kind t = CN_TYPE_SLICE then cerror ''E3037'' off ''free cannot release a slice value; slices are non-owning views''
     else if type_kind t = CN_TYPE_RESULT then cerror ''E3038'' off ''free cannot release a result value; unwrap the owned payload first''
     else cwhen (type_kind t \<noteq> CN_TYPE_PTR \<and> type_kind t \<noteq> CN_TYPE_STR) (cerror ''E3019'' off ''free requires a ptr or str value'')))"

definition check_condition :: "checkers \<Rightarrow> scopes \<Rightarrow> cn_expr \<Rightarrow> string \<Rightarrow> unit cm" where
  "check_condition R scs c msg = cbind (ck_expr R scs c (Some bool_type)) (\<lambda>t.
     cwhen (\<not> same_type t bool_type) (cerror ''E3005'' (expr_offset c) msg))"

text \<open>The head of a range loop, and the scope of its variable.\<close>

definition check_for_head :: "checkers \<Rightarrow> scopes \<Rightarrow> nat \<Rightarrow> string \<Rightarrow> cn_type_ref \<Rightarrow> cn_expr \<Rightarrow> cn_expr \<Rightarrow> scopes cm" where
  "check_for_head R scs off nm t st en =
     cbind (ck_type R t off) (\<lambda>(_, t).
     cseq (cwhen (\<not> same_type t int_type) (cn_emit_type_mismatch off ''range loop binding must be int'' int_type t)) (
     cbind (ck_expr R scs st (Some int_type)) (\<lambda>start_type.
     cbind (ck_expr R scs en (Some int_type)) (\<lambda>end_type.
     cseq (check_int start_type (expr_offset st) ''range start must be int'') (
     cseq (check_int end_type (expr_offset en) ''range end must be int'') (
     cbind (cn_scope_define nm t False 0 off (enter_scope (zone_depth scs) scs)) (\<lambda>(_, scs). cret scs)))))))"

definition enter_block :: "scopes \<Rightarrow> bool \<Rightarrow> (cn_expr \<times> bool) option \<Rightarrow> scopes cm" where
  "enter_block parent creates_scope guard = (case guard of
       None \<Rightarrow> cret (if creates_scope then enter_scope (zone_depth parent) parent else parent)
     | Some (c, branch_truth) \<Rightarrow> guard_scope parent c branch_truth)"

definition leave_block :: "bool \<Rightarrow> (cn_expr \<times> bool) option \<Rightarrow> scopes \<Rightarrow> scopes" where
  "leave_block creates_scope guard scs = (if creates_scope \<or> guard \<noteq> None then cn_scope_release scs else scs)"

section \<open>Statements\<close>

definition same_scopes :: "scopes \<Rightarrow> unit cm \<Rightarrow> scopes cm" where
  "same_scopes scs m = cseq m (cret scs)"

lemma cseq_cong [fundef_cong]: "m = m' \<Longrightarrow> k = k' \<Longrightarrow> cseq m k = cseq m' k'"
  by simp

fun cn_check_statement :: "checkers \<Rightarrow> cn_stmt \<Rightarrow> scopes \<Rightarrow> scopes cm"
and check_statements :: "checkers \<Rightarrow> cn_stmt list \<Rightarrow> scopes \<Rightarrow> scopes cm"
and cn_check_block_with_guard :: "checkers \<Rightarrow> cn_block \<Rightarrow> bool \<Rightarrow> (cn_expr \<times> bool) option \<Rightarrow> scopes \<Rightarrow> scopes cm" where
  "cn_check_statement R (CN_STMT_LET off nm is_mutable t e) scs = check_let R scs off nm is_mutable t e"
| "cn_check_statement R (CN_STMT_ASSIGN off target e) scs = check_assign R scs off target e"
| "cn_check_statement R (CN_STMT_RETURN off v) scs = same_scopes scs (check_return R scs off v)"
| "cn_check_statement R (CN_STMT_EXPR off e) scs = cseq (ck_expr R scs e None) (cret scs)"
| "cn_check_statement R (CN_STMT_DEFER off s) scs = cn_check_statement R s scs"
| "cn_check_statement R (CN_STMT_TRY off nm e) scs = check_try R scs off nm e"
| "cn_check_statement R (CN_STMT_ZONE off b) scs =
     cbind (cn_check_block_with_guard R b False None (enter_scope (zone_depth scs + 1) scs)) (\<lambda>scs. cret (cn_scope_release scs))"
| "cn_check_statement R (CN_STMT_IF off c th el) scs =
     cseq (check_condition R scs c ''if condition must be bool'') (
     cbind (cn_check_block_with_guard R th True (Some (c, True)) scs) (\<lambda>scs.
     cbind (case el of None \<Rightarrow> cret scs | Some b \<Rightarrow> cn_check_block_with_guard R b True (Some (c, False)) scs) (\<lambda>scs.
     cbind (if (case el of None \<Rightarrow> False | Some b \<Rightarrow> cn_block_guarantees_return b)
       then cn_mark_result_ok_proofs_for_branch scs c True scs else cret scs) (\<lambda>scs.
     if cn_block_guarantees_return th then cn_mark_result_ok_proofs_for_branch scs c False scs else cret scs))))"
| "cn_check_statement R (CN_STMT_WHILE off c b) scs =
     cseq (check_condition R scs c ''while condition must be bool'') (cn_check_block_with_guard R b True (Some (c, True)) scs)"
| "cn_check_statement R (CN_STMT_LOOP off b) scs = cn_check_block_with_guard R b True None scs"
| "cn_check_statement R (CN_STMT_FOR off nm t st en b) scs =
     cbind (check_for_head R scs off nm t st en) (\<lambda>scs.
     cbind (cn_check_block_with_guard R b True None scs) (\<lambda>scs. cret (cn_scope_release scs)))"
| "cn_check_statement R (CN_STMT_FREE off e) scs = same_scopes scs (check_free R scs off e)"
| "check_statements R [] scs = cret scs"
| "check_statements R (s # ss) scs = cbind (cn_check_statement R s scs) (check_statements R ss)"
| "cn_check_block_with_guard R (CnBlock ss off) creates_scope guard scs =
     cbind (enter_block scs creates_scope guard) (\<lambda>active.
     cbind (check_statements R ss active) (\<lambda>active. cret (leave_block creates_scope guard active)))"

definition cn_check_block :: "checkers \<Rightarrow> cn_block \<Rightarrow> bool \<Rightarrow> scopes \<Rightarrow> scopes cm" where
  "cn_check_block R b creates_scope scs = cn_check_block_with_guard R b creates_scope None scs"

section \<open>Declarations\<close>

definition check_struct_field_decl :: "checkers \<Rightarrow> nat \<times> nat \<Rightarrow> nat \<Rightarrow> unit cm" where
  "check_struct_field_decl R r i =
     cbind (struct_at r) (\<lambda>d.
     cbind (clift (elem_at (sd_fields d) i)) (\<lambda>f.
     cseq (ceach (\<lambda>g. cwhen (cn_name_eq (sf_name f) (sf_name g)) (cerror ''E3003'' (sf_offset g)
       (''duplicate field '' @ quoted (sf_name g) @ '' in struct '' @ quoted (sd_name d)))) (drop (Suc i) (sd_fields d))) (
     cbind (ck_type R (sf_type f) (sf_offset f)) (\<lambda>(type_valid, t).
     cseq (update_struct r (\<lambda>d. d\<lparr>sd_fields := update_nth i (\<lambda>f. f\<lparr>sf_type := t\<rparr>) (sd_fields d)\<rparr>)) (
     check_exported (sd_is_public d) type_valid (sf_offset f) ''struct'' (sd_name d) t)))))"

definition cn_check_struct_decl :: "checkers \<Rightarrow> nat \<times> nat \<Rightarrow> unit cm" where
  "cn_check_struct_decl R r = cbind (struct_at r) (\<lambda>d. ceach (check_struct_field_decl R r) [0..<length (sd_fields d)])"

definition check_param_type :: "checkers \<Rightarrow> nat \<times> nat \<Rightarrow> nat \<Rightarrow> unit cm" where
  "check_param_type R r i =
     cbind (function_at r) (\<lambda>f.
     cbind (clift (elem_at (fn_parameters f) i)) (\<lambda>p.
     cbind (ck_type R (pa_type p) (pa_offset p)) (\<lambda>(type_valid, t).
     cseq (update_function r (\<lambda>f. f\<lparr>fn_parameters := update_nth i (\<lambda>p. p\<lparr>pa_type := t\<rparr>) (fn_parameters f)\<rparr>)) (
     check_exported (fn_is_public f) type_valid (pa_offset p) ''function'' (fn_name f) t))))"

definition cn_check_function_signature :: "checkers \<Rightarrow> nat \<times> nat \<Rightarrow> unit cm" where
  "cn_check_function_signature R r =
     cbind (function_at r) (\<lambda>f.
     cbind (ck_type R (fn_return_type f) (fn_offset f)) (\<lambda>(type_valid, t).
     cseq (update_function r (\<lambda>f. f\<lparr>fn_return_type := t\<rparr>)) (
     cseq (check_exported (fn_is_public f) type_valid (fn_offset f) ''function'' (fn_name f) t) (
     ceach (check_param_type R r) [0..<length (fn_parameters f)]))))"

definition define_param :: "cn_param \<Rightarrow> scopes \<Rightarrow> scopes cm" where
  "define_param p scs = cbind (cn_scope_define (pa_name p) (pa_type p) False 0 (pa_offset p) scs) (\<lambda>(_, scs). cret scs)"

definition cn_check_function :: "checkers \<Rightarrow> nat \<times> nat \<Rightarrow> unit cm" where
  "cn_check_function R r =
     cseq (cput (\<lambda>s. s\<lparr>cx_current_function := Some r\<rparr>)) (
     cbind (function_at r) (\<lambda>f. case fn_body f of
       None \<Rightarrow> cbind (cget cx_module) (\<lambda>m. cbind (case m of None \<Rightarrow> cret False | Some m \<Rightarrow> cbind (module_at m) (\<lambda>md. cret (mo_is_builtin_stdlib md))) (\<lambda>builtin.
         cwhen (\<not> (builtin \<and> fn_is_builtin f)) (cerror ''E3020'' (fn_offset f)
           (''semantic analysis expected a function body for '' @ quoted (fn_name f)))))
     | Some body \<Rightarrow>
         cbind (cfold define_param (fn_parameters f) (enter_scope 0 [])) (\<lambda>scs.
         cbind (cn_check_block R body False scs) (\<lambda>scs.
         cwhen (\<not> same_type (fn_return_type f) void_type \<and> \<not> cn_block_guarantees_return body) (cerror ''E3007'' (fn_offset f)
           (''non-void function '' @ quoted (fn_name f) @ '' must return explicitly on every path''))))))"

section \<open>Projects\<close>

text \<open>A pass over the modules that have been parsed.\<close>

definition pass :: "(nat \<Rightarrow> cn_module \<Rightarrow> cn_program \<Rightarrow> unit cm) \<Rightarrow> unit cm" where
  "pass f = cbind (cget (\<lambda>s. length (pj_modules (cx_project s)))) (\<lambda>n. ceach (\<lambda>m.
     cseq (set_module (Some m)) (
     cbind (module_at m) (\<lambda>md. case mo_program md of
       None \<Rightarrow> cret ()
     | Some p \<Rightarrow>
         cseq (cput (\<lambda>s. s\<lparr>cx_diagnostics := cn_diag_bag_set_source (cx_diagnostics s) (Some (mo_source md))\<rparr>)) (f m md p)))) [0..<n])"

definition check_header :: "cn_module \<Rightarrow> unit cm" where
  "check_header md = cbind (cget cx_diagnostics) (\<lambda>bag. cbind (clift (cn_check_module_header md bag)) (\<lambda>(_, bag).
     cput (\<lambda>s. s\<lparr>cx_diagnostics := bag\<rparr>)))"

definition sema_passes :: "checkers \<Rightarrow> unit cm" where
  "sema_passes R =
     cseq (pass (\<lambda>m md p.
       cseq (check_header md) (
       cseq (ceach (\<lambda>i. cn_check_struct_decl R (m, i)) [0..<length (pr_structs p)])
         (ceach (\<lambda>i. cn_check_function_signature R (m, i)) [0..<length (pr_functions p)])))) (
     cseq (pass (\<lambda>m md p. ceach (\<lambda>i. cseq (ck_const_decl R (m, i)) (cret ())) [0..<length (pr_consts p)]))
       (pass (\<lambda>m md p. ceach (\<lambda>i. cn_check_function R (m, i)) [0..<length (pr_functions p)])))"

definition sema_init :: "cn_project \<Rightarrow> cn_diag_bag \<Rightarrow> cn_sema_ctx" where
  "sema_init prj bag = \<lparr>cx_project = prj, cx_module = None, cx_diagnostics = bag, cx_current_function = None,
     cx_module_caches = [], cx_next_binding = 0\<rparr>"

definition cn_sema_check_project :: "nat \<Rightarrow> cn_project \<Rightarrow> cn_diag_bag \<Rightarrow> bool outcome" where
  "cn_sema_check_project n prj bag =
     cseq (sema_passes (checkers_of n)) (
     cseq (cput (\<lambda>s. s\<lparr>cx_module_caches := cn_release_module_symbol_caches (cx_module_caches s)\<rparr>)) ok_so_far) (sema_init prj bag)"

end
