(* ===== verification/Sema_Static.thy ===== *)
theory Sema_Static
  imports Sema_Stmt
begin

text \<open>
  What the checker leaves alone. It writes module names and array sizes into types, and marks
  constants; everything else of a project is fixed while it runs. \<open>erase\<close> forgets what it writes, and
  the lookups give the same answers on an erased project. Projects are well formed as
  the parser builds them: a type constructor has its inner type.
\<close>

section \<open>Well-formed trees\<close>

definition opt_all :: "('a \<Rightarrow> bool) \<Rightarrow> 'a option \<Rightarrow> bool" where
  "opt_all P x \<longleftrightarrow> (case x of None \<Rightarrow> True | Some y \<Rightarrow> P y)"

lemma opt_all_simps [simp]: "opt_all P None" "opt_all P (Some x) \<longleftrightarrow> P x"
  by (simp_all add: opt_all_def)

lemma opt_all_cong [fundef_cong]: "x = y \<Longrightarrow> (\<And>z. y = Some z \<Longrightarrow> P z = Q z) \<Longrightarrow> opt_all P x = opt_all Q y"
  by (cases y) simp_all

fun wf_type :: "cn_type_ref \<Rightarrow> bool" and wf_expr :: "cn_expr \<Rightarrow> bool" and wf_init :: "cn_field_init \<Rightarrow> bool" where
  "wf_type (CnType k mn nm inner se n off) \<longleftrightarrow> (has_inner k \<longrightarrow> inner \<noteq> None) \<and> opt_all wf_type inner \<and> opt_all wf_expr se"
| "wf_expr (CN_EXPR_UNARY off uop x) \<longleftrightarrow> wf_expr x"
| "wf_expr (CN_EXPR_BINARY off bop l r) \<longleftrightarrow> wf_expr l \<and> wf_expr r"
| "wf_expr (CN_EXPR_IF off c t e) \<longleftrightarrow> wf_expr c \<and> wf_expr t \<and> wf_expr e"
| "wf_expr (CN_EXPR_CALL off f xs) \<longleftrightarrow> wf_expr f \<and> list_all wf_expr xs"
| "wf_expr (CN_EXPR_ARRAY_LITERAL off xs rc n) \<longleftrightarrow> list_all wf_expr xs \<and> opt_all wf_expr rc"
| "wf_expr (CN_EXPR_INDEX off b i) \<longleftrightarrow> wf_expr b \<and> wf_expr i"
| "wf_expr (CN_EXPR_SLICE_VIEW off b s e) \<longleftrightarrow> wf_expr b \<and> opt_all wf_expr s \<and> opt_all wf_expr e"
| "wf_expr (CN_EXPR_FIELD off b f) \<longleftrightarrow> wf_expr b"
| "wf_expr (CN_EXPR_STRUCT_LITERAL off m n fs) \<longleftrightarrow> list_all wf_init fs"
| "wf_expr (CN_EXPR_OK off x) \<longleftrightarrow> wf_expr x"
| "wf_expr (CN_EXPR_ALLOC off t) \<longleftrightarrow> wf_type t"
| "wf_expr (CN_EXPR_ZALLOC off t) \<longleftrightarrow> wf_type t"
| "wf_expr (CN_EXPR_ADDR off x) \<longleftrightarrow> wf_expr x"
| "wf_expr (CN_EXPR_DEREF off x) \<longleftrightarrow> wf_expr x"
| "wf_expr e \<longleftrightarrow> True"
| "wf_init (CnFieldInit nm e off) \<longleftrightarrow> wf_expr e"

text \<open>All expressions and types of a statement.\<close>

fun stmt_all :: "(cn_expr \<Rightarrow> bool) \<Rightarrow> (cn_type_ref \<Rightarrow> bool) \<Rightarrow> cn_stmt \<Rightarrow> bool"
and block_all :: "(cn_expr \<Rightarrow> bool) \<Rightarrow> (cn_type_ref \<Rightarrow> bool) \<Rightarrow> cn_block \<Rightarrow> bool" where
  "stmt_all P T (CN_STMT_LET off nm m t e) \<longleftrightarrow> T t \<and> P e"
| "stmt_all P T (CN_STMT_ASSIGN off l e) \<longleftrightarrow> P l \<and> P e"
| "stmt_all P T (CN_STMT_RETURN off v) \<longleftrightarrow> opt_all P v"
| "stmt_all P T (CN_STMT_EXPR off e) \<longleftrightarrow> P e"
| "stmt_all P T (CN_STMT_DEFER off s) \<longleftrightarrow> stmt_all P T s"
| "stmt_all P T (CN_STMT_TRY off nm e) \<longleftrightarrow> P e"
| "stmt_all P T (CN_STMT_ZONE off b) \<longleftrightarrow> block_all P T b"
| "stmt_all P T (CN_STMT_IF off c b e) \<longleftrightarrow> P c \<and> block_all P T b \<and> opt_all (block_all P T) e"
| "stmt_all P T (CN_STMT_WHILE off c b) \<longleftrightarrow> P c \<and> block_all P T b"
| "stmt_all P T (CN_STMT_LOOP off b) \<longleftrightarrow> block_all P T b"
| "stmt_all P T (CN_STMT_FOR off nm t s e b) \<longleftrightarrow> T t \<and> P s \<and> P e \<and> block_all P T b"
| "stmt_all P T (CN_STMT_FREE off e) \<longleftrightarrow> P e"
| "block_all P T (CnBlock ss off) \<longleftrightarrow> list_all (stmt_all P T) ss"

definition program_all :: "(cn_expr \<Rightarrow> bool) \<Rightarrow> (cn_type_ref \<Rightarrow> bool) \<Rightarrow> cn_program \<Rightarrow> bool" where
  "program_all P T p \<longleftrightarrow> (\<forall>d \<in> set (pr_consts p). T (cd_type d) \<and> P (cd_initializer d))
     \<and> (\<forall>d \<in> set (pr_structs p). \<forall>f \<in> set (sd_fields d). T (sf_type f))
     \<and> (\<forall>f \<in> set (pr_functions p). T (fn_return_type f) \<and> (\<forall>q \<in> set (fn_parameters f). T (pa_type q)) \<and> opt_all (block_all P T) (fn_body f))"

definition project_ok :: "cn_project \<Rightarrow> bool" where
  "project_ok prj \<longleftrightarrow> (\<forall>md \<in> set (pj_modules prj).
     opt_all (\<lambda>p. program_all wf_expr wf_type p \<and> length (mo_imports md) = length (pr_imports p)) (mo_program md)
     \<and> (\<forall>i \<in> set (mo_imports md). opt_all (\<lambda>k. k < length (pj_modules prj)) i))"

section \<open>What is fixed\<close>

fun erase_type :: "cn_type_ref \<Rightarrow> cn_type_ref" where
  "erase_type (CnType k mn nm inner se n off) =
     CnType k [] nm (case inner of None \<Rightarrow> None | Some t \<Rightarrow> Some (erase_type t)) se 0 off"

definition erase_const :: "cn_const_decl \<Rightarrow> cn_const_decl" where
  "erase_const d = d\<lparr>cd_type := erase_type (cd_type d), cd_sema_checked := False, cd_sema_checking := False\<rparr>"

definition erase_field :: "cn_struct_field \<Rightarrow> cn_struct_field" where
  "erase_field f = f\<lparr>sf_type := erase_type (sf_type f)\<rparr>"

definition erase_struct :: "cn_struct_decl \<Rightarrow> cn_struct_decl" where
  "erase_struct d = d\<lparr>sd_fields := map erase_field (sd_fields d)\<rparr>"

definition erase_param :: "cn_param \<Rightarrow> cn_param" where
  "erase_param q = q\<lparr>pa_type := erase_type (pa_type q)\<rparr>"

definition erase_function :: "cn_function \<Rightarrow> cn_function" where
  "erase_function f = f\<lparr>fn_return_type := erase_type (fn_return_type f), fn_parameters := map erase_param (fn_parameters f)\<rparr>"

definition erase_program :: "cn_program \<Rightarrow> cn_program" where
  "erase_program p = p\<lparr>pr_consts := map erase_const (pr_consts p), pr_structs := map erase_struct (pr_structs p),
     pr_functions := map erase_function (pr_functions p)\<rparr>"

definition erase_module :: "cn_module \<Rightarrow> cn_module" where
  "erase_module md = md\<lparr>mo_program := map_option erase_program (mo_program md)\<rparr>"

definition erase :: "cn_project \<Rightarrow> cn_project" where
  "erase prj = prj\<lparr>pj_modules := map erase_module (pj_modules prj)\<rparr>"

lemmas erase_defs = erase_const_def erase_field_def erase_struct_def erase_param_def erase_function_def erase_program_def erase_module_def erase_def

lemma erase_simps [simp]:
  "cd_name (erase_const d) = cd_name d" "cd_is_public (erase_const d) = cd_is_public d" "cd_initializer (erase_const d) = cd_initializer d"
  "cd_type (erase_const d) = erase_type (cd_type d)"
  "sf_name (erase_field f) = sf_name f" "sf_type (erase_field f) = erase_type (sf_type f)"
  "sd_name (erase_struct sd) = sd_name sd" "sd_is_public (erase_struct sd) = sd_is_public sd" "sd_fields (erase_struct sd) = map erase_field (sd_fields sd)"
  "pa_type (erase_param q) = erase_type (pa_type q)"
  "fn_name (erase_function fn) = fn_name fn" "fn_is_public (erase_function fn) = fn_is_public fn" "fn_body (erase_function fn) = fn_body fn"
  "fn_return_type (erase_function fn) = erase_type (fn_return_type fn)" "fn_parameters (erase_function fn) = map erase_param (fn_parameters fn)"
  "pr_imports (erase_program p) = pr_imports p" "pr_consts (erase_program p) = map erase_const (pr_consts p)"
  "pr_structs (erase_program p) = map erase_struct (pr_structs p)" "pr_functions (erase_program p) = map erase_function (pr_functions p)"
  "mo_name (erase_module md) = mo_name md" "mo_imports (erase_module md) = mo_imports md"
  "mo_program (erase_module md) = map_option erase_program (mo_program md)"
  "pj_modules (erase prj) = map erase_module (pj_modules prj)"
  by (simp_all add: erase_defs)

lemma erase_type_simps [simp]: "type_kind (erase_type t) = type_kind t" "array_size_expr (erase_type t) = array_size_expr t"
  by (cases t, simp)+

lemma wf_erase_type [simp]: "wf_type (erase_type t) \<longleftrightarrow> wf_type t"
  by (induction t rule: erase_type.induct) (auto split: option.splits)

lemma wf_inner: "wf_type t \<Longrightarrow> has_inner (type_kind t) \<Longrightarrow> \<exists>i. type_inner t = Some i \<and> wf_type i"
  by (cases t) auto

lemma wf_inner_all: "wf_type t \<Longrightarrow> opt_all wf_type (type_inner t)"
  by (cases t) auto

section \<open>Lookups as functions of the project\<close>

definition decl_in :: "(cn_program \<Rightarrow> 'd list) \<Rightarrow> ('d \<Rightarrow> bool) \<Rightarrow> cn_project \<Rightarrow> nat \<Rightarrow> nat option" where
  "decl_in decls P prj m = (case mod_at prj m of None \<Rightarrow> None
     | Some md \<Rightarrow> (case mo_program md of None \<Rightarrow> None | Some p \<Rightarrow> last_from P 0 (decls p)))"

definition import_in :: "cn_project \<Rightarrow> nat \<Rightarrow> string \<Rightarrow> nat option" where
  "import_in prj m nm = (case mod_at prj m of None \<Rightarrow> None
     | Some md \<Rightarrow> (case mo_program md of None \<Rightarrow> None
     | Some p \<Rightarrow> (case last_from (names_import nm) 0 (pr_imports p) of None \<Rightarrow> None | Some i \<Rightarrow> import_at md i)))"

definition source_module_in :: "cn_project \<Rightarrow> nat \<Rightarrow> string \<Rightarrow> nat option" where
  "source_module_in prj c mn = (case mod_at prj c of None \<Rightarrow> None
     | Some md \<Rightarrow> if mn = [] \<or> mn = mo_name md then Some c else import_in prj c mn)"

definition canonical_module_in :: "cn_project \<Rightarrow> nat \<Rightarrow> string \<Rightarrow> nat option" where
  "canonical_module_in prj c mn = (case mod_at prj c of None \<Rightarrow> None
     | Some md \<Rightarrow> if mn = [] \<or> mn = mo_name md then Some c
       else (case cn_project_find_module_by_name prj mn of Some k \<Rightarrow> Some k | None \<Rightarrow> import_in prj c mn))"

definition const_in :: "cn_project \<Rightarrow> nat \<Rightarrow> string \<Rightarrow> resolved" where
  "const_in prj k nm = pair_with k (decl_in pr_consts (\<lambda>d. cd_name d = nm) prj k)"

definition source_const_in :: "cn_project \<Rightarrow> nat \<Rightarrow> string \<Rightarrow> string \<Rightarrow> resolved" where
  "source_const_in prj c mn nm = (case source_module_in prj c mn of None \<Rightarrow> None
     | Some k \<Rightarrow> if k = c then const_in prj k nm
       else pair_with k (decl_in pr_consts (\<lambda>d. cd_is_public d \<and> cd_name d = nm) prj k))"

definition struct_in :: "cn_project \<Rightarrow> nat \<Rightarrow> string \<Rightarrow> resolved" where
  "struct_in prj k nm = pair_with k (decl_in pr_structs (\<lambda>d. sd_name d = nm) prj k)"

definition source_struct_in :: "cn_project \<Rightarrow> nat \<Rightarrow> string \<Rightarrow> string \<Rightarrow> resolved" where
  "source_struct_in prj c mn nm = (case source_module_in prj c mn of None \<Rightarrow> None
     | Some k \<Rightarrow> if k = c then struct_in prj k nm
       else pair_with k (decl_in pr_structs (\<lambda>d. sd_is_public d \<and> sd_name d = nm) prj k))"

definition canonical_struct_in :: "cn_project \<Rightarrow> nat \<Rightarrow> string \<Rightarrow> string \<Rightarrow> resolved" where
  "canonical_struct_in prj c mn nm = (case canonical_module_in prj c mn of None \<Rightarrow> None | Some k \<Rightarrow> struct_in prj k nm)"

lemma no_program_cache:
  assumes "mod_at prj k = Some md" and "mo_program md = None"
  shows "new_cache prj (Some k) = Some zero_cache"
  using assms by (simp add: new_cache_def)

lemma zero_lookup [simp]: "cn_name_map_lookup_value zero_map nm = Some None"
  by (simp add: names.value_law zero_map_laws)

lemma finds_yield:
  assumes "mod_at prj k = Some md"
  shows "yields prj (cn_find_local_function prj (Some k) nm) (decl_in pr_functions (\<lambda>d. fn_name d = nm) prj k)"
    and "yields prj (cn_find_public_function prj (Some k) nm) (decl_in pr_functions (\<lambda>d. fn_is_public d \<and> fn_name d = nm) prj k)"
    and "yields prj (cn_find_const prj (Some k) nm) (decl_in pr_consts (\<lambda>d. cd_name d = nm) prj k)"
    and "yields prj (cn_find_public_const prj (Some k) nm) (decl_in pr_consts (\<lambda>d. cd_is_public d \<and> cd_name d = nm) prj k)"
    and "yields prj (cn_find_struct prj (Some k) nm) (decl_in pr_structs (\<lambda>d. sd_name d = nm) prj k)"
    and "yields prj (cn_find_public_struct prj (Some k) nm) (decl_in pr_structs (\<lambda>d. sd_is_public d \<and> sd_name d = nm) prj k)"
proof -
  have none: "yields prj (find_in_cache table prj (Some k) nm) None" if "mo_program md = None" "table zero_cache = zero_map" for table
    by (rule find_in_cache_yields [OF no_program_cache [OF assms that(1)]]) (simp add: that(2))
  show "yields prj (cn_find_local_function prj (Some k) nm) (decl_in pr_functions (\<lambda>d. fn_name d = nm) prj k)"
    using sema_finds_last(1) [OF assms] none [of sc_local_functions] by (cases "mo_program md") (auto simp: decl_in_def assms find_defs zero_cache_def)
  show "yields prj (cn_find_public_function prj (Some k) nm) (decl_in pr_functions (\<lambda>d. fn_is_public d \<and> fn_name d = nm) prj k)"
    using sema_finds_last(2) [OF assms] none [of sc_public_functions] by (cases "mo_program md") (auto simp: decl_in_def assms find_defs zero_cache_def)
  show "yields prj (cn_find_const prj (Some k) nm) (decl_in pr_consts (\<lambda>d. cd_name d = nm) prj k)"
    using sema_finds_last(3) [OF assms] none [of sc_local_consts] by (cases "mo_program md") (auto simp: decl_in_def assms find_defs zero_cache_def)
  show "yields prj (cn_find_public_const prj (Some k) nm) (decl_in pr_consts (\<lambda>d. cd_is_public d \<and> cd_name d = nm) prj k)"
    using sema_finds_last(4) [OF assms] none [of sc_public_consts] by (cases "mo_program md") (auto simp: decl_in_def assms find_defs zero_cache_def)
  show "yields prj (cn_find_struct prj (Some k) nm) (decl_in pr_structs (\<lambda>d. sd_name d = nm) prj k)"
    using sema_finds_last(5) [OF assms] none [of sc_local_structs] by (cases "mo_program md") (auto simp: decl_in_def assms find_defs zero_cache_def)
  show "yields prj (cn_find_public_struct prj (Some k) nm) (decl_in pr_structs (\<lambda>d. sd_is_public d \<and> sd_name d = nm) prj k)"
    using sema_finds_last(6) [OF assms] none [of sc_public_structs] by (cases "mo_program md") (auto simp: decl_in_def assms find_defs zero_cache_def)
qed

lemma import_yields:
  assumes "mod_at prj k = Some md"
  shows "yields prj (cn_find_imported_module prj (Some k) nm) (import_in prj k nm)"
proof (cases "mo_program md")
  case None
  then have "cn_find_imported_module prj (Some k) nm cs = Some (None, cs)" for cs
    by (simp add: cn_find_imported_module_def cn_find_import_decl_def assms)
  then show ?thesis by (simp add: yields_def import_in_def assms None)
next
  case (Some p)
  then show ?thesis using imported_module_yields [OF assms Some, of nm] by (simp add: import_in_def assms)
qed

lemma import_in_range: "project_ok prj \<Longrightarrow> import_in prj k nm = Some j \<Longrightarrow> j < length (pj_modules prj)"
proof -
  assume ok: "project_ok prj" and "import_in prj k nm = Some j"
  then obtain md i where "mod_at prj k = Some md" and i: "import_at md i = Some j" by (auto simp: import_in_def split: option.splits)
  then have md: "md \<in> set (pj_modules prj)" by (auto simp: mod_at_def split: if_splits)
  have "Some j \<in> set (mo_imports md)" using i unfolding import_at_def by (metis leI nth_mem option.distinct(1))
  moreover from ok md have "\<forall>i \<in> set (mo_imports md). opt_all (\<lambda>k. k < length (pj_modules prj)) i" by (simp add: project_ok_def)
  ultimately have "opt_all (\<lambda>k. k < length (pj_modules prj)) (Some j)" by blast
  then show ?thesis by simp
qed

lemma source_module_yields:
  assumes "mod_at prj c = Some md"
  shows "yields prj (cn_resolve_source_named_module prj c mn) (source_module_in prj c mn)"
  using import_yields [OF assms] unfolding cn_resolve_source_named_module_def [abs_def] source_module_in_def assms
  by (simp add: yields_pure)

lemma canonical_module_yields:
  assumes "mod_at prj c = Some md"
  shows "yields prj (cn_resolve_canonical_named_module prj c mn) (canonical_module_in prj c mn)"
  using import_yields [OF assms] unfolding cn_resolve_canonical_named_module_def [abs_def] canonical_module_in_def assms
  by (simp add: yields_pure split: option.split)

lemma source_module_range: "project_ok prj \<Longrightarrow> source_module_in prj c mn = Some k \<Longrightarrow> k < length (pj_modules prj)"
  by (auto simp: source_module_in_def mod_at_def import_in_range split: option.splits if_splits)

lemma canonical_module_range: "project_ok prj \<Longrightarrow> canonical_module_in prj c mn = Some k \<Longrightarrow> k < length (pj_modules prj)"
  by (auto simp: canonical_module_in_def mod_at_def import_in_range find_module_in_range split: option.splits if_splits)

lemma yields_pair: "yields prj f v \<Longrightarrow> yields prj (\<lambda>cs. do { (d, cs) \<leftarrow> f cs; Some (pair_with k d, cs) }) (pair_with k v)"
  by (rule yields_bind [where g = "\<lambda>d cs. Some (pair_with k d, cs)"], assumption) (rule yields_pure)

lemma const_in_module_yields:
  assumes "mod_at prj k = Some md"
  shows "yields prj (cn_resolve_const_in_module prj (Some k) nm) (const_in prj k nm)"
proof (cases "mo_program md")
  case None
  then show ?thesis using assms unfolding cn_resolve_const_in_module_def [abs_def]
    by (simp add: has_program_def const_in_def decl_in_def pair_with_def yields_pure)
next
  case (Some p)
  then show ?thesis using assms yields_pair [OF finds_yield(3) [OF assms, of nm], of k] unfolding cn_resolve_const_in_module_def [abs_def]
    by (simp add: has_program_def const_in_def)
qed

lemma struct_in_module_yields:
  assumes "mod_at prj k = Some md"
  shows "yields prj (cn_resolve_struct_in_module prj (Some k) nm) (struct_in prj k nm)"
proof (cases "mo_program md")
  case None
  then show ?thesis using assms unfolding cn_resolve_struct_in_module_def [abs_def]
    by (simp add: has_program_def struct_in_def decl_in_def pair_with_def yields_pure)
next
  case (Some p)
  then show ?thesis using assms yields_pair [OF finds_yield(5) [OF assms, of nm], of k] unfolding cn_resolve_struct_in_module_def [abs_def]
    by (simp add: has_program_def struct_in_def)
qed

lemma source_const_yields:
  assumes "project_ok prj" and "mod_at prj c = Some md"
  shows "yields prj (cn_resolve_source_named_const prj c mn nm) (source_const_in prj c mn nm)"
  unfolding cn_resolve_source_named_const_def [abs_def]
proof (rule yields_bind [OF source_module_yields [OF assms(2)]])
  show "yields prj (\<lambda>cs. case source_module_in prj c mn of None \<Rightarrow> cn_resolve_const_in_module prj None nm cs
      | Some k \<Rightarrow> if k = c then cn_resolve_const_in_module prj (source_module_in prj c mn) nm cs
          else do { (d, cs) \<leftarrow> cn_find_public_const prj (source_module_in prj c mn) nm cs; Some (pair_with k d, cs) })
    (source_const_in prj c mn nm)"
  proof (cases "source_module_in prj c mn")
    case None
    then show ?thesis by (simp add: source_const_in_def cn_resolve_const_in_module_def yields_pure)
  next
    case (Some k)
    then obtain md' where k: "mod_at prj k = Some md'" using source_module_range [OF assms(1)] by (auto simp: mod_at_def)
    then show ?thesis using const_in_module_yields [OF k] yields_pair [OF finds_yield(4) [OF k, of nm], of k]
      by (auto simp: source_const_in_def Some)
  qed
qed

lemma source_struct_yields:
  assumes "project_ok prj" and "mod_at prj c = Some md"
  shows "yields prj (cn_resolve_source_named_struct prj c mn nm) (source_struct_in prj c mn nm)"
  unfolding cn_resolve_source_named_struct_def [abs_def]
proof (rule yields_bind [OF source_module_yields [OF assms(2)]])
  show "yields prj (\<lambda>cs. case source_module_in prj c mn of None \<Rightarrow> cn_resolve_struct_in_module prj None nm cs
      | Some k \<Rightarrow> if k = c then cn_resolve_struct_in_module prj (source_module_in prj c mn) nm cs
          else do { (d, cs) \<leftarrow> cn_find_public_struct prj (source_module_in prj c mn) nm cs; Some (pair_with k d, cs) })
    (source_struct_in prj c mn nm)"
  proof (cases "source_module_in prj c mn")
    case None
    then show ?thesis by (simp add: source_struct_in_def cn_resolve_struct_in_module_def yields_pure)
  next
    case (Some k)
    then obtain md' where k: "mod_at prj k = Some md'" using source_module_range [OF assms(1)] by (auto simp: mod_at_def)
    then show ?thesis using struct_in_module_yields [OF k] yields_pair [OF finds_yield(6) [OF k, of nm], of k]
      by (auto simp: source_struct_in_def Some)
  qed
qed

lemma canonical_struct_yields:
  assumes "project_ok prj" and "mod_at prj c = Some md"
  shows "yields prj (cn_resolve_canonical_named_struct prj c mn nm) (canonical_struct_in prj c mn nm)"
  unfolding cn_resolve_canonical_named_struct_def [abs_def]
proof (rule yields_bind [OF canonical_module_yields [OF assms(2)]])
  show "yields prj (cn_resolve_struct_in_module prj (canonical_module_in prj c mn) nm) (canonical_struct_in prj c mn nm)"
  proof (cases "canonical_module_in prj c mn")
    case None
    then show ?thesis unfolding canonical_struct_in_def cn_resolve_struct_in_module_def [abs_def] by (simp add: yields_pure)
  next
    case (Some k)
    then obtain md' where k: "mod_at prj k = Some md'" using canonical_module_range [OF assms(1)] by (auto simp: mod_at_def)
    then show ?thesis using struct_in_module_yields [OF k] by (simp add: canonical_struct_in_def Some)
  qed
qed

section \<open>Lookups on an erased project\<close>

lemma mod_at_erase [simp]: "mod_at (erase prj) k = map_option erase_module (mod_at prj k)"
  by (simp add: mod_at_def)

lemma last_from_map: "last_from P i (map f xs) = last_from (\<lambda>x. P (f x)) i xs"
  by (induction xs arbitrary: i) (simp_all split: option.split)

lemma find_from_map: "find_from P i (map f xs) = find_from (\<lambda>x. P (f x)) i xs"
  by (induction xs arbitrary: i) simp_all

lemma decl_in_erase [simp]:
  "decl_in pr_consts (\<lambda>d. cd_name d = nm) (erase prj) k = decl_in pr_consts (\<lambda>d. cd_name d = nm) prj k"
  "decl_in pr_consts (\<lambda>d. cd_is_public d \<and> cd_name d = nm) (erase prj) k = decl_in pr_consts (\<lambda>d. cd_is_public d \<and> cd_name d = nm) prj k"
  by (simp_all add: decl_in_def last_from_map split: option.split)

lemma decl_in_erase_more [simp]:
  "decl_in pr_structs (\<lambda>d. sd_name d = nm) (erase prj) k = decl_in pr_structs (\<lambda>d. sd_name d = nm) prj k"
  "decl_in pr_structs (\<lambda>d. sd_is_public d \<and> sd_name d = nm) (erase prj) k = decl_in pr_structs (\<lambda>d. sd_is_public d \<and> sd_name d = nm) prj k"
  "decl_in pr_functions (\<lambda>d. fn_name d = nm) (erase prj) k = decl_in pr_functions (\<lambda>d. fn_name d = nm) prj k"
  "decl_in pr_functions (\<lambda>d. fn_is_public d \<and> fn_name d = nm) (erase prj) k = decl_in pr_functions (\<lambda>d. fn_is_public d \<and> fn_name d = nm) prj k"
  by (simp_all add: decl_in_def last_from_map split: option.split)

lemma import_in_erase [simp]: "import_in (erase prj) k nm = import_in prj k nm"
  by (simp add: import_in_def import_at_def split: option.split)

lemma source_module_in_erase [simp]: "source_module_in (erase prj) k nm = source_module_in prj k nm"
  by (simp add: source_module_in_def split: option.split)

lemma const_in_erase [simp]: "const_in (erase prj) k nm = const_in prj k nm"
  by (simp add: const_in_def)

lemma source_const_in_erase [simp]: "source_const_in (erase prj) k mn nm = source_const_in prj k mn nm"
  by (simp add: source_const_in_def split: option.split)

lemma find_module_erase [simp]: "cn_project_find_module_by_name (erase prj) nm = cn_project_find_module_by_name prj nm"
  by (simp add: cn_project_find_module_by_name_def find_from_map)

lemma struct_in_erase [simp]:
  "struct_in (erase prj) k nm = struct_in prj k nm"
  "source_struct_in (erase prj) k mn nm = source_struct_in prj k mn nm"
  "canonical_struct_in (erase prj) k mn nm = canonical_struct_in prj k mn nm"
  by (simp_all add: struct_in_def source_struct_in_def canonical_struct_in_def canonical_module_in_def split: option.split)

lemma opt_all_map [simp]: "opt_all P (map_option f x) \<longleftrightarrow> opt_all (\<lambda>y. P (f y)) x"
  by (cases x) simp_all

lemma project_ok_erase [simp]: "project_ok (erase prj) \<longleftrightarrow> project_ok prj"
  by (simp add: project_ok_def program_all_def)

lemma cache_decls_map:
  assumes "\<And>d. nf (f d) = nf d" and "\<And>d. public (f d) = public d"
  shows "cache_decls nf public i (map f ds) lp = cache_decls nf public i ds lp"
proof (induction ds arbitrary: i lp)
  case Nil
  then show ?case by (cases lp) simp
next
  case (Cons d ds)
  then show ?case by (cases lp) (simp add: assms)
qed

lemma build_cache_erase [simp]: "build_cache (erase_program p) = build_cache p"
  by (simp add: build_cache_def cache_decls_map)

lemma new_cache_erase [simp]: "new_cache (erase prj) m = new_cache prj m"
proof (cases m)
  case (Some k)
  then show ?thesis by (cases "mod_at prj k") (auto simp: new_cache_def split: option.split)
qed (simp add: new_cache_def)

lemma caches_ok_erase [simp]: "caches_ok (erase prj) cs \<longleftrightarrow> caches_ok prj cs"
  by (simp add: caches_ok_def)

end
