(* ===== verification/Sema_Safe.thy ===== *)
theory Sema_Safe
  imports Sema_Static
begin

text \<open>
  Contracts for the functions of the checker. \<open>safe t G m P\<close> says of a computation \<open>m\<close>, in a context
  that agrees with the frame \<open>G\<close> (the project up to what the checker writes, the current module and
  function): it follows no null pointer, it does not run out of fuel if \<open>t\<close> holds, and when it returns, its
  value satisfies \<open>P\<close>, the context still agrees with the frame, and no error has been taken back. The
  rules of \<open>safe_rules\<close> follow the text of a function.
\<close>

named_theorems safe_rules \<open>contracts of the checker's operations\<close>

section \<open>Frames\<close>

record frame =
  fr_project :: cn_project
  fr_module :: nat
  fr_function :: "(nat \<times> nat) option"

definition valid_decl :: "(cn_program \<Rightarrow> 'd list) \<Rightarrow> cn_project \<Rightarrow> nat \<times> nat \<Rightarrow> bool" where
  "valid_decl decls K r \<longleftrightarrow> (\<exists>md p. mod_at K (fst r) = Some md \<and> mo_program md = Some p \<and> snd r < length (decls p))"

definition valid_module :: "cn_project \<Rightarrow> nat \<Rightarrow> bool" where
  "valid_module K c \<longleftrightarrow> (\<exists>md p. mod_at K c = Some md \<and> mo_program md = Some p)"

abbreviation "valid_const \<equiv> valid_decl pr_consts"
abbreviation "valid_struct \<equiv> valid_decl pr_structs"
abbreviation "valid_function \<equiv> valid_decl pr_functions"

text \<open>The declaration itself.\<close>

definition decl_of :: "(cn_program \<Rightarrow> 'd list) \<Rightarrow> cn_project \<Rightarrow> nat \<times> nat \<Rightarrow> 'd" where
  "decl_of decls K r = decls (the (mo_program (pj_modules K ! fst r))) ! snd r"

definition frame_ok :: "frame \<Rightarrow> bool" where
  "frame_ok G \<longleftrightarrow> project_ok (fr_project G) \<and> valid_module (fr_project G) (fr_module G)
     \<and> opt_all (valid_function (fr_project G)) (fr_function G)"

definition ctx_ok :: "frame \<Rightarrow> cn_sema_ctx \<Rightarrow> bool" where
  "ctx_ok G s \<longleftrightarrow> frame_ok G \<and> erase (cx_project s) = fr_project G \<and> caches_ok (fr_project G) (cx_module_caches s)
     \<and> diag_invar (cx_diagnostics s) \<and> cx_module s = Some (fr_module G) \<and> cx_current_function s = fr_function G"

abbreviation errs :: "cn_sema_ctx \<Rightarrow> nat" where
  "errs s \<equiv> error_count (cx_diagnostics s)"

section \<open>Contracts\<close>

definition cwp :: "bool \<Rightarrow> 'a cm \<Rightarrow> ('a \<Rightarrow> cn_sema_ctx \<Rightarrow> bool) \<Rightarrow> cn_sema_ctx \<Rightarrow> bool" where
  "cwp t m Q s = (case m s of Done x s' \<Rightarrow> Q x s' | Fault f \<Rightarrow> f = SignedOverflow | Fuel \<Rightarrow> \<not> t)"

definition safe :: "bool \<Rightarrow> frame \<Rightarrow> 'a cm \<Rightarrow> ('a \<Rightarrow> bool) \<Rightarrow> bool" where
  "safe t G m P \<longleftrightarrow> (\<forall>s. ctx_ok G s \<longrightarrow> cwp t m (\<lambda>x s'. P x \<and> ctx_ok G s' \<and> errs s \<le> errs s') s)"

lemma cwp_mono: "cwp t m Q s \<Longrightarrow> (\<And>x s'. Q x s' \<Longrightarrow> Q' x s') \<Longrightarrow> cwp t m Q' s"
  by (simp add: cwp_def split: outcome.splits)

lemma cwp_cbind: "cwp t m (\<lambda>x. cwp t (k x) Q) s \<Longrightarrow> cwp t (cbind m k) Q s"
  by (simp add: cwp_def cbind_def split: outcome.splits)

lemma cwp_cseq: "cwp t m (\<lambda>_. cwp t k Q) s \<Longrightarrow> cwp t (cseq m k) Q s"
  unfolding cseq_def by (rule cwp_cbind)

lemma cwp_cret: "Q x s \<Longrightarrow> cwp t (cret x) Q s"
  by (simp add: cwp_def cret_def)

lemma safeD: "safe t G m P \<Longrightarrow> ctx_ok G s \<Longrightarrow> cwp t m (\<lambda>x s'. P x \<and> ctx_ok G s' \<and> errs s \<le> errs s') s"
  by (simp add: safe_def)

lemma safe_conseq: "safe t G m P \<Longrightarrow> (\<And>x. P x \<Longrightarrow> Q x) \<Longrightarrow> safe t G m Q"
  unfolding safe_def by (fastforce elim: cwp_mono)

lemma safe_anything: "safe t G m (\<lambda>_. True) \<Longrightarrow> (\<And>x. P x) \<Longrightarrow> safe t G m P"
  by (rule safe_conseq)

lemma safe_cret: "P x \<Longrightarrow> safe t G (cret x) P"
  by (simp add: safe_def cwp_cret)

lemma safe_cbind:
  assumes "safe t G m P" and "\<And>x. P x \<Longrightarrow> safe t G (k x) Q"
  shows "safe t G (cbind m k) Q"
  unfolding safe_def
proof (intro allI impI)
  fix s assume "ctx_ok G s"
  from safeD [OF assms(1) this] show "cwp t (cbind m k) (\<lambda>x s'. Q x \<and> ctx_ok G s' \<and> errs s \<le> errs s') s"
  proof (rule cwp_cbind [OF cwp_mono])
    fix x s1 assume 1: "P x \<and> ctx_ok G s1 \<and> errs s \<le> errs s1"
    then show "cwp t (k x) (\<lambda>x s'. Q x \<and> ctx_ok G s' \<and> errs s \<le> errs s') s1"
      using safeD [OF assms(2), of x s1] by (auto elim!: cwp_mono)
  qed
qed

lemma safe_cseq:
  assumes "safe t G m P" and "\<And>x. P x \<Longrightarrow> safe t G k Q"
  shows "safe t G (cseq m k) Q"
  unfolding cseq_def by (rule safe_cbind [OF assms])

lemma safe_cfuel: "\<not> t \<Longrightarrow> safe t G cfuel P"
  by (simp add: safe_def cwp_def cfuel_def)

lemma safe_cwhen: "(b \<Longrightarrow> safe t G m P) \<Longrightarrow> (\<not> b \<Longrightarrow> P ()) \<Longrightarrow> safe t G (cwhen b m) P"
  by (simp add: cwhen_def safe_cret)

lemma safe_if: "(c \<Longrightarrow> safe t G a P) \<Longrightarrow> (\<not> c \<Longrightarrow> safe t G b P) \<Longrightarrow> safe t G (if c then a else b) P"
  by simp

lemma safe_option:
  "(r = None \<Longrightarrow> safe t G a P) \<Longrightarrow> (\<And>x. r = Some x \<Longrightarrow> safe t G (k x) P) \<Longrightarrow> safe t G (case r of None \<Rightarrow> a | Some x \<Rightarrow> k x) P"
  by (cases r) auto

lemma safe_prod: "(\<And>x y. r = (x, y) \<Longrightarrow> safe t G (f x y) P) \<Longrightarrow> safe t G (case r of (x, y) \<Rightarrow> f x y) P"
  by (cases r) auto

lemma safe_clift: "r \<noteq> None \<Longrightarrow> (\<And>x. r = Some x \<Longrightarrow> P x) \<Longrightarrow> safe t G (clift r) P"
  by (auto simp: clift_def safe_cret split: option.split)

lemma safe_cdefined: "(\<And>x. P x) \<Longrightarrow> safe t G (cdefined r) P"
  by (auto simp: safe_def cdefined_def cwp_def cret_def cfault_def split: option.split)

lemma safe_cget: "(\<And>s. ctx_ok G s \<Longrightarrow> P (f s)) \<Longrightarrow> safe t G (cget f) P"
  by (simp add: safe_def cget_def cwp_def)

lemma safe_cput:
  assumes "\<And>s. ctx_ok G s \<Longrightarrow> ctx_ok G (f s) \<and> errs s \<le> errs (f s)" and "P ()"
  shows "safe t G (cput f) P"
  using assms by (simp add: safe_def cput_def cwp_def)

lemma safe_cerror: "P () \<Longrightarrow> safe t G (cerror ec off msg) P"
  unfolding cerror_def by (rule safe_cput) (auto simp: ctx_ok_def error_count_emit)

lemma safe_ok_so_far: "(\<And>b. P b) \<Longrightarrow> safe t G ok_so_far P"
  unfolding ok_so_far_def by (rule safe_cget)

lemma safe_fold:
  assumes "P acc" and "\<And>x acc. x \<in> set xs \<Longrightarrow> P acc \<Longrightarrow> safe t G (f x acc) P"
  shows "safe t G (cfold f xs acc) P"
  using assms by (induction xs arbitrary: acc) (auto intro!: safe_cret safe_cbind [where P = P])

lemma safe_each:
  assumes "\<And>x. x \<in> set xs \<Longrightarrow> safe t G (f x) (\<lambda>_. True)" and "P ()"
  shows "safe t G (ceach f xs) P"
  using assms by (induction xs) (auto intro!: safe_cret intro: safe_cseq)

lemma safe_any:
  assumes "\<And>x. x \<in> set xs \<Longrightarrow> safe t G (f x) (\<lambda>_. True)" and "\<And>b. P b"
  shows "safe t G (cany f xs) P"
  using assms by (induction xs) (auto intro!: safe_cret safe_if safe_cbind [where P = "\<lambda>_. True"])

lemma safe_cand: "safe t G a (\<lambda>_. True) \<Longrightarrow> safe t G b (\<lambda>_. True) \<Longrightarrow> (\<And>x. P x) \<Longrightarrow> safe t G (cand a b) P"
  unfolding cand_def by (auto intro!: safe_cret safe_if safe_cbind [where P = "\<lambda>_. True"] intro: safe_anything)

lemma safe_every:
  assumes "\<And>x. x \<in> set xs \<Longrightarrow> safe t G (f x) (\<lambda>_. True)" and "\<And>b. P b"
  shows "safe t G (cevery f xs) P"
proof (rule safe_anything [OF _ assms(2)])
  show "safe t G (cevery f xs) (\<lambda>_. True)" using assms(1) by (induction xs) (auto intro!: safe_cret safe_cand)
qed

lemma safe_copt: "(\<And>y. x = Some y \<Longrightarrow> safe t G (f y) (\<lambda>_. True)) \<Longrightarrow> (\<And>b. P b) \<Longrightarrow> safe t G (copt f x) P"
  unfolding copt_def by (cases x) (auto intro!: safe_cret intro: safe_anything)

lemma safe_cmax: "(\<And>x. x \<in> set xs \<Longrightarrow> safe t G (f x) (\<lambda>_. True)) \<Longrightarrow> (\<And>n. P n) \<Longrightarrow> safe t G (cmax f xs) P"
  unfolding cmax_def by (rule safe_conseq [where P = "\<lambda>_. True"]) (auto intro!: safe_fold safe_cret intro: safe_cbind)

lemma safe_mismatch: "P () \<Longrightarrow> safe t G (cn_emit_type_mismatch off msg l r) P"
  unfolding cn_emit_type_mismatch_def by (rule safe_cerror)

lemma wf_builtin [simp]: "wf_type (cn_builtin_type k)"
  by (auto simp: cn_builtin_type_def has_inner_def)

lemma safe_fails: "P unknown_type \<Longrightarrow> safe t G (fails ec off msg) P"
  unfolding fails_def by (rule safe_cseq [OF safe_cerror]) (auto intro: safe_cret)

lemma safe_check_int: "P () \<Longrightarrow> safe t G (check_int ty off msg) P"
  unfolding check_int_def by (intro safe_cwhen safe_mismatch)

lemma safe_inner_type: "wf_type ty \<Longrightarrow> has_inner (type_kind ty) \<Longrightarrow> (\<And>i. wf_type i \<Longrightarrow> P i) \<Longrightarrow> safe t G (inner_type ty) P"
  unfolding inner_type_def by (rule safe_clift) (use wf_inner in \<open>fastforce+\<close>)

section \<open>Lookups\<close>

lemma ctx_ok_project: "ctx_ok G s \<Longrightarrow> project_ok (cx_project s) \<and> erase (cx_project s) = fr_project G"
  by (metis ctx_ok_def frame_ok_def project_ok_erase)

lemma safe_csema:
  assumes "\<And>prj. erase prj = fr_project G \<Longrightarrow> project_ok prj \<Longrightarrow> frame_ok G \<Longrightarrow> yields prj (f prj) v"
    and "frame_ok G \<Longrightarrow> P v"
  shows "safe t G (csema f) P"
  unfolding safe_def
proof (intro allI impI)
  fix s assume s: "ctx_ok G s"
  then have ok: "frame_ok G" and e: "erase (cx_project s) = fr_project G" by (simp_all add: ctx_ok_def)
  have "yields (cx_project s) (f (cx_project s)) v" using assms(1) ctx_ok_project [OF s] ok by blast
  moreover have "caches_ok (cx_project s) (cx_module_caches s)" using s e caches_ok_erase [of "cx_project s"] by (simp add: ctx_ok_def)
  ultimately obtain cs where "f (cx_project s) (cx_module_caches s) = Some (v, cs)" and "caches_ok (cx_project s) cs" by (rule yieldsD)
  with s e caches_ok_erase [of "cx_project s"] assms(2) [OF ok]
  show "cwp t (csema f) (\<lambda>x s'. P x \<and> ctx_ok G s' \<and> errs s \<le> errs s') s"
    by (simp add: cwp_def csema_def ctx_ok_def)
qed

lemma erased_mod_at: "erase prj = K \<Longrightarrow> mod_at K c = Some md \<Longrightarrow> \<exists>md'. mod_at prj c = Some md' \<and> md = erase_module md'"
  by auto

lemma frame_module: "frame_ok G \<Longrightarrow> erase prj = fr_project G \<Longrightarrow> \<exists>md. mod_at prj (fr_module G) = Some md"
  by (auto simp: frame_ok_def valid_module_def dest: erased_mod_at)

lemma decl_in_valid: "decl_in decls P K k = Some i \<Longrightarrow> valid_decl decls K (k, i)"
  using last_from_nth by (fastforce simp: decl_in_def valid_decl_def split: option.splits)

lemma pair_valid: "opt_all (valid_decl decls K) (pair_with k (decl_in decls P K k))"
  by (cases "decl_in decls P K k") (auto simp: pair_with_def decl_in_valid)

lemma const_in_valid [simp]: "opt_all (valid_const K) (const_in K k nm)"
  unfolding const_in_def by (rule pair_valid)

lemma source_const_in_valid [simp]: "opt_all (valid_const K) (source_const_in K c mn nm)"
  by (auto simp: source_const_in_def pair_valid split: option.split)

lemma struct_in_valid [simp]:
  "opt_all (valid_struct K) (struct_in K k nm)" "opt_all (valid_struct K) (source_struct_in K c mn nm)"
  "opt_all (valid_struct K) (canonical_struct_in K c mn nm)"
  by (auto simp: struct_in_def source_struct_in_def canonical_struct_in_def pair_valid split: option.split)

lemma safe_ccur: "safe t G ccur (\<lambda>c. c = fr_module G)"
  unfolding ccur_def by (rule safe_cbind [where P = "\<lambda>m. m = Some (fr_module G)"]) (auto intro!: safe_cget safe_clift simp: ctx_ok_def)

lemma safe_here:
  assumes "\<And>prj. erase prj = fr_project G \<Longrightarrow> project_ok prj \<Longrightarrow> frame_ok G \<Longrightarrow> yields prj (f prj (fr_module G)) v"
    and "frame_ok G \<Longrightarrow> P v"
  shows "safe t G (here f) P"
  unfolding here_def by (rule safe_cbind [OF safe_ccur]) (auto intro!: safe_csema [where v = v] assms)

abbreviation "module_in G k \<equiv> k < length (pj_modules (fr_project G))"

lemma safe_source_const:
  "safe t G (source_const mn nm) (\<lambda>r. r = source_const_in (fr_project G) (fr_module G) mn nm \<and> opt_all (valid_const (fr_project G)) r)"
  unfolding source_const_def
  by (rule safe_here [where v = "source_const_in (fr_project G) (fr_module G) mn nm"])
    (use frame_module source_const_yields in \<open>metis source_const_in_erase\<close>, simp)

lemma safe_source_struct: "safe t G (source_struct mn nm) (opt_all (valid_struct (fr_project G)))"
  unfolding source_struct_def
  by (rule safe_here [where v = "source_struct_in (fr_project G) (fr_module G) mn nm"])
    (use frame_module source_struct_yields in \<open>metis struct_in_erase(2)\<close>, simp)

lemma safe_canonical_struct: "safe t G (canonical_struct mn nm) (opt_all (valid_struct (fr_project G)))"
  unfolding canonical_struct_def
  by (rule safe_here [where v = "canonical_struct_in (fr_project G) (fr_module G) mn nm"])
    (use frame_module canonical_struct_yields in \<open>metis struct_in_erase(3)\<close>, simp)

lemma safe_imported_module: "safe t G (imported_module nm) (opt_all (\<lambda>k. module_in G k))"
  unfolding imported_module_def
proof (rule safe_here [where v = "import_in (fr_project G) (fr_module G) nm"])
  fix prj assume "erase prj = fr_project G" "frame_ok G"
  then show "yields prj (cn_find_imported_module prj (Some (fr_module G)) nm) (import_in (fr_project G) (fr_module G) nm)"
    by (metis frame_module import_yields import_in_erase)
next
  assume "frame_ok G"
  then show "opt_all (\<lambda>k. module_in G k) (import_in (fr_project G) (fr_module G) nm)"
    using import_in_range by (auto simp: opt_all_def frame_ok_def split: option.split)
qed

lemma safe_const_in_module:
  assumes "valid_module (fr_project G) m"
  shows "safe t G (csema (\<lambda>prj. cn_resolve_const_in_module prj (Some m) nm))
    (\<lambda>r. r = const_in (fr_project G) m nm \<and> opt_all (valid_const (fr_project G)) r)"
proof (rule safe_csema [where v = "const_in (fr_project G) m nm"])
  fix prj assume e: "erase prj = fr_project G"
  then obtain md where "mod_at prj m = Some md" using assms by (auto simp: valid_module_def dest: erased_mod_at)
  then show "yields prj (cn_resolve_const_in_module prj (Some m) nm) (const_in (fr_project G) m nm)"
    using const_in_module_yields e by (metis const_in_erase)
qed simp

lemma safe_module_const:
  "safe t G (module_const nm) (\<lambda>r. r = const_in (fr_project G) (fr_module G) nm \<and> opt_all (valid_const (fr_project G)) r)"
  unfolding module_const_def
proof (rule safe_cbind [OF safe_ccur])
  fix cur assume [simp]: "cur = fr_module G"
  let ?v = "decl_in pr_consts (\<lambda>d. cd_name d = nm) (fr_project G) (fr_module G)"
  have "safe t G (csema (\<lambda>prj. cn_find_const prj (Some cur) nm)) (\<lambda>d. d = ?v)"
  proof (rule safe_csema [where v = ?v])
    fix prj assume "erase prj = fr_project G" "frame_ok G"
    then show "yields prj (cn_find_const prj (Some cur) nm) ?v"
      unfolding \<open>cur = fr_module G\<close> by (metis frame_module finds_yield(3) decl_in_erase(1))
  qed simp
  then show "safe t G (cbind (csema (\<lambda>prj. cn_find_const prj (Some cur) nm)) (\<lambda>d. cret (pair_with cur d)))
      (\<lambda>r. r = const_in (fr_project G) (fr_module G) nm \<and> opt_all (valid_const (fr_project G)) r)"
    by (rule safe_cbind) (auto intro!: safe_cret simp: const_in_def pair_valid)
qed

lemma safe_local_function:
  "safe t G (csema (\<lambda>prj. cn_find_local_function prj (Some (fr_module G)) nm)) (opt_all (\<lambda>i. valid_function (fr_project G) (fr_module G, i)))"
proof (rule safe_csema [where v = "decl_in pr_functions (\<lambda>d. fn_name d = nm) (fr_project G) (fr_module G)"])
  fix prj assume "erase prj = fr_project G" "frame_ok G"
  then show "yields prj (cn_find_local_function prj (Some (fr_module G)) nm) (decl_in pr_functions (\<lambda>d. fn_name d = nm) (fr_project G) (fr_module G))"
    by (metis frame_module finds_yield(1) decl_in_erase_more(3))
qed (auto simp: opt_all_def decl_in_valid split: option.split)

lemma module_in_mod: "module_in G k \<Longrightarrow> erase prj = fr_project G \<Longrightarrow> \<exists>md. mod_at prj k = Some md"
  by (auto simp: mod_at_def) (metis erase_simps(23) length_map)

lemma safe_public_function:
  assumes "module_in G k"
  shows "safe t G (csema (\<lambda>prj. cn_find_public_function prj (Some k) nm)) (opt_all (\<lambda>i. valid_function (fr_project G) (k, i)))"
proof (rule safe_csema [where v = "decl_in pr_functions (\<lambda>d. fn_is_public d \<and> fn_name d = nm) (fr_project G) k"])
  fix prj assume "erase prj = fr_project G"
  with assms show "yields prj (cn_find_public_function prj (Some k) nm) (decl_in pr_functions (\<lambda>d. fn_is_public d \<and> fn_name d = nm) (fr_project G) k)"
    by (metis module_in_mod finds_yield(2) decl_in_erase_more(4))
qed (auto simp: opt_all_def decl_in_valid split: option.split)

lemma safe_public_const:
  assumes "module_in G k"
  shows "safe t G (csema (\<lambda>prj. cn_find_public_const prj (Some k) nm)) (\<lambda>_. True)"
proof (rule safe_csema [where v = "decl_in pr_consts (\<lambda>d. cd_is_public d \<and> cd_name d = nm) (fr_project G) k"])
  fix prj assume "erase prj = fr_project G"
  with assms show "yields prj (cn_find_public_const prj (Some k) nm) (decl_in pr_consts (\<lambda>d. cd_is_public d \<and> cd_name d = nm) (fr_project G) k)"
    by (metis module_in_mod finds_yield(4) decl_in_erase(2))
qed simp

section \<open>Declarations\<close>

lemma safe_module_at: "module_in G k \<Longrightarrow> safe t G (module_at k) (\<lambda>md. mod_at (fr_project G) k = Some (erase_module md))"
  unfolding module_at_def
proof (rule safe_cbind [where P = "\<lambda>prj. erase prj = fr_project G"])
  show "safe t G (cget cx_project) (\<lambda>prj. erase prj = fr_project G)" by (rule safe_cget) (simp add: ctx_ok_def)
  fix prj assume "module_in G k" "erase prj = fr_project G"
  then show "safe t G (clift (mod_at prj k)) (\<lambda>md. mod_at (fr_project G) k = Some (erase_module md))"
    using module_in_mod [of k G prj] mod_at_erase [of prj k] by (intro safe_clift) auto
qed

lemma valid_decl_module: "valid_decl decls (fr_project G) r \<Longrightarrow> module_in G (fst r)"
  by (auto simp: valid_decl_def mod_at_def split: if_splits)

lemma safe_program_at:
  assumes "valid_decl decls (fr_project G) r"
  shows "safe t G (program_at (fst r)) (\<lambda>p. \<exists>md. mod_at (fr_project G) (fst r) = Some md \<and> mo_program md = Some (erase_program p))"
  unfolding program_at_def
proof (rule safe_cbind [OF safe_module_at [OF valid_decl_module [OF assms]]])
  fix md assume md: "mod_at (fr_project G) (fst r) = Some (erase_module md)"
  with assms have "mo_program md \<noteq> None" by (auto simp: valid_decl_def)
  then show "safe t G (clift (mo_program md)) (\<lambda>p. \<exists>md. mod_at (fr_project G) (fst r) = Some md \<and> mo_program md = Some (erase_program p))"
    using md by (intro safe_clift) auto
qed

text \<open>A declaration is the one of the frame, up to what the checker writes.\<close>

lemma safe_decl_at:
  assumes "valid_decl decls (fr_project G) r" and "\<And>p. decls (erase_program p) = map er (decls p)"
  shows "safe t G (cbind (program_at (fst r)) (\<lambda>p. clift (elem_at (decls p) (snd r)))) (\<lambda>d. er d = decl_of decls (fr_project G) r)"
proof (rule safe_cbind [OF safe_program_at [OF assms(1)]])
  fix p assume "\<exists>md. mod_at (fr_project G) (fst r) = Some md \<and> mo_program md = Some (erase_program p)"
  then have *: "the (mo_program (pj_modules (fr_project G) ! fst r)) = erase_program p" by (auto simp: mod_at_def split: if_splits)
  with assms have "snd r < length (decls p)" by (auto simp: valid_decl_def mod_at_def split: if_splits)
  then show "safe t G (clift (elem_at (decls p) (snd r))) (\<lambda>d. er d = decl_of decls (fr_project G) r)"
    by (intro safe_clift) (auto simp: elem_at_def decl_of_def * assms(2))
qed

lemma safe_struct_decl: "valid_struct (fr_project G) r \<Longrightarrow> safe t G (struct_at r) (\<lambda>d. erase_struct d = decl_of pr_structs (fr_project G) r)"
  unfolding struct_at_def by (rule safe_decl_at) simp_all

lemma safe_const_decl: "valid_const (fr_project G) r \<Longrightarrow> safe t G (const_at r) (\<lambda>d. erase_const d = decl_of pr_consts (fr_project G) r)"
  unfolding const_at_def by (rule safe_decl_at) simp_all

lemma safe_function_decl: "valid_function (fr_project G) r \<Longrightarrow> safe t G (function_at r) (\<lambda>d. erase_function d = decl_of pr_functions (fr_project G) r)"
  unfolding function_at_def by (rule safe_decl_at) simp_all

lemma safe_frame: "(frame_ok G \<Longrightarrow> safe t G m P) \<Longrightarrow> safe t G m P"
  by (auto simp: safe_def ctx_ok_def)

lemma decl_ok:
  assumes "frame_ok G" and "valid_decl decls (fr_project G) r"
  shows "\<exists>md p. md \<in> set (pj_modules (fr_project G)) \<and> mo_program md = Some p \<and> program_all wf_expr wf_type p \<and> decl_of decls (fr_project G) r \<in> set (decls p)"
proof -
  obtain md p where md: "mod_at (fr_project G) (fst r) = Some md" "mo_program md = Some p" "snd r < length (decls p)"
    using assms(2) by (auto simp: valid_decl_def)
  then have "md = pj_modules (fr_project G) ! fst r" "md \<in> set (pj_modules (fr_project G))" by (auto simp: mod_at_def split: if_splits)
  with md assms(1) show ?thesis by (auto simp: frame_ok_def project_ok_def decl_of_def intro!: exI [of _ md])
qed

lemma safe_struct_at: "valid_struct (fr_project G) r \<Longrightarrow> safe t G (struct_at r) (\<lambda>d. \<forall>f \<in> set (sd_fields d). wf_type (sf_type f))"
proof (rule safe_frame)
  assume v: "valid_struct (fr_project G) r" and "frame_ok G"
  from decl_ok [OF this(2,1)] have wf: "\<forall>f \<in> set (sd_fields (decl_of pr_structs (fr_project G) r)). wf_type (sf_type f)"
    by (auto simp: program_all_def)
  have "\<forall>f \<in> set (sd_fields d). wf_type (sf_type f)" if "erase_struct d = decl_of pr_structs (fr_project G) r" for d
    using wf unfolding that [symmetric] by simp
  then show ?thesis by (intro safe_conseq [OF safe_struct_decl [OF v]])
qed

definition const_of_frame :: "frame \<Rightarrow> nat \<times> nat \<Rightarrow> cn_const_decl \<Rightarrow> bool" where
  "const_of_frame G r d \<longleftrightarrow> erase_const d = decl_of pr_consts (fr_project G) r \<and> wf_type (cd_type d) \<and> wf_expr (cd_initializer d)"

lemma safe_const_at: "valid_const (fr_project G) r \<Longrightarrow> safe t G (const_at r) (const_of_frame G r)"
proof (rule safe_frame)
  assume v: "valid_const (fr_project G) r" and "frame_ok G"
  from decl_ok [OF this(2,1)] have wf: "wf_type (cd_type (decl_of pr_consts (fr_project G) r)) \<and> wf_expr (cd_initializer (decl_of pr_consts (fr_project G) r))"
    by (auto simp: program_all_def)
  have "wf_type (cd_type d) \<and> wf_expr (cd_initializer d)" if "erase_const d = decl_of pr_consts (fr_project G) r" for d
    using wf unfolding that [symmetric] by simp
  then show ?thesis by (intro safe_conseq [OF safe_const_decl [OF v]]) (simp add: const_of_frame_def)
qed

definition function_of_frame :: "frame \<Rightarrow> nat \<times> nat \<Rightarrow> cn_function \<Rightarrow> bool" where
  "function_of_frame G r f \<longleftrightarrow> erase_function f = decl_of pr_functions (fr_project G) r \<and> wf_type (fn_return_type f)
     \<and> (\<forall>q \<in> set (fn_parameters f). wf_type (pa_type q)) \<and> opt_all (block_all wf_expr wf_type) (fn_body f)"

lemma safe_function_at: "valid_function (fr_project G) r \<Longrightarrow> safe t G (function_at r) (function_of_frame G r)"
proof (rule safe_frame)
  assume v: "valid_function (fr_project G) r" and "frame_ok G"
  let ?f = "decl_of pr_functions (fr_project G) r"
  from decl_ok [OF \<open>frame_ok G\<close> v] have wf: "wf_type (fn_return_type ?f) \<and> (\<forall>q \<in> set (fn_parameters ?f). wf_type (pa_type q)) \<and> opt_all (block_all wf_expr wf_type) (fn_body ?f)"
    by (auto simp: program_all_def)
  have "wf_type (fn_return_type f) \<and> (\<forall>q \<in> set (fn_parameters f). wf_type (pa_type q)) \<and> opt_all (block_all wf_expr wf_type) (fn_body f)"
    if "erase_function f = ?f" for f
    using wf unfolding that [symmetric] by simp
  then show ?thesis by (intro safe_conseq [OF safe_function_decl [OF v]]) (simp add: function_of_frame_def)
qed

text \<open>Writes that the frame does not see.\<close>

lemma map_update_nth: "(\<And>x. i < length xs \<Longrightarrow> x = xs ! i \<Longrightarrow> f (g x) = f x) \<Longrightarrow> map f (update_nth i g xs) = map f xs"
  by (simp add: update_nth_def map_update) (metis length_map list_update_id nth_map)

lemma safe_update_program:
  assumes "\<And>md p. mod_at (fr_project G) m = Some md \<Longrightarrow> mo_program md = Some (erase_program p) \<Longrightarrow> erase_program (f p) = erase_program p"
  shows "safe t G (update_program m f) (\<lambda>_. True)"
  unfolding update_program_def
proof (rule safe_cput)
  fix s assume s: "ctx_ok G s"
  let ?ms = "pj_modules (cx_project s)" and ?g = "\<lambda>md. md\<lparr>mo_program := map_option f (mo_program md)\<rparr>"
  have e: "erase (cx_project s) = fr_project G" using s by (simp add: ctx_ok_def)
  have "map erase_module (update_nth m ?g ?ms) = map erase_module ?ms"
  proof (rule map_update_nth)
    fix md assume m: "m < length ?ms" "md = ?ms ! m"
    then have "mod_at (fr_project G) m = Some (erase_module md)" unfolding e [symmetric] by (simp add: mod_at_def)
    then have "map_option (\<lambda>p. erase_program (f p)) (mo_program md) = map_option erase_program (mo_program md)"
      using assms by (cases "mo_program md") auto
    then show "erase_module (?g md) = erase_module md" by (simp add: erase_module_def comp_def option.map_comp)
  qed
  then have "erase ((cx_project s)\<lparr>pj_modules := update_nth m ?g ?ms\<rparr>) = erase (cx_project s)" by (simp add: erase_def)
  with s e show "ctx_ok G (s\<lparr>cx_project := (cx_project s)\<lparr>pj_modules := update_nth m ?g ?ms\<rparr>\<rparr>)
      \<and> errs s \<le> errs (s\<lparr>cx_project := (cx_project s)\<lparr>pj_modules := update_nth m ?g ?ms\<rparr>\<rparr>)"
    by (simp add: ctx_ok_def)
qed simp

lemma decl_of_program:
  assumes "mod_at K (fst r) = Some md" and "mo_program md = Some (erase_program p)"
    and "\<And>p. decls (erase_program p) = map er (decls p)" and "snd r < length (decls p)"
  shows "er (decls p ! snd r) = decl_of decls K r"
  using assms by (auto simp: decl_of_def mod_at_def split: if_splits)

lemma safe_update_const:
  assumes "\<And>d. erase_const d = decl_of pr_consts (fr_project G) r \<Longrightarrow> erase_const (f d) = erase_const d"
  shows "safe t G (update_const r f) (\<lambda>_. True)"
  unfolding update_const_def
proof (rule safe_update_program)
  fix md p assume m: "mod_at (fr_project G) (fst r) = Some md" "mo_program md = Some (erase_program p)"
  have "map erase_const (update_nth (snd r) f (pr_consts p)) = map erase_const (pr_consts p)"
    by (rule map_update_nth) (use assms decl_of_program [OF m, of pr_consts erase_const] in simp)
  then show "erase_program (p\<lparr>pr_consts := update_nth (snd r) f (pr_consts p)\<rparr>) = erase_program p"
    by (simp add: erase_program_def)
qed

lemma safe_update_struct:
  assumes "\<And>d. erase_struct d = decl_of pr_structs (fr_project G) r \<Longrightarrow> erase_struct (f d) = erase_struct d"
  shows "safe t G (update_struct r f) (\<lambda>_. True)"
  unfolding update_struct_def
proof (rule safe_update_program)
  fix md p assume m: "mod_at (fr_project G) (fst r) = Some md" "mo_program md = Some (erase_program p)"
  have "map erase_struct (update_nth (snd r) f (pr_structs p)) = map erase_struct (pr_structs p)"
    by (rule map_update_nth) (use assms decl_of_program [OF m, of pr_structs erase_struct] in simp)
  then show "erase_program (p\<lparr>pr_structs := update_nth (snd r) f (pr_structs p)\<rparr>) = erase_program p"
    by (simp add: erase_program_def)
qed

lemma safe_update_function:
  assumes "\<And>d. erase_function d = decl_of pr_functions (fr_project G) r \<Longrightarrow> erase_function (f d) = erase_function d"
  shows "safe t G (update_function r f) (\<lambda>_. True)"
  unfolding update_function_def
proof (rule safe_update_program)
  fix md p assume m: "mod_at (fr_project G) (fst r) = Some md" "mo_program md = Some (erase_program p)"
  have "map erase_function (update_nth (snd r) f (pr_functions p)) = map erase_function (pr_functions p)"
    by (rule map_update_nth) (use assms decl_of_program [OF m, of pr_functions erase_function] in simp)
  then show "erase_program (p\<lparr>pr_functions := update_nth (snd r) f (pr_functions p)\<rparr>) = erase_program p"
    by (simp add: erase_program_def)
qed

section \<open>Scopes\<close>

definition scope_ok :: "cn_scope \<Rightarrow> bool" where
  "scope_ok sc \<longleftrightarrow> nm_invar (so_binding_map sc)
     \<and> (\<forall>key v i. nm_map (so_binding_map sc) key = Some (v, i) \<longrightarrow> (\<exists>j. v = Some j \<and> j \<in> bd_id ` set (so_bindings sc)))
     \<and> (\<forall>b \<in> set (so_bindings sc). wf_type (bd_type b))"

definition scopes_ok :: "scopes \<Rightarrow> bool" where
  "scopes_ok scs \<longleftrightarrow> (\<forall>sc \<in> set scs. scope_ok sc)"

lemma binding_with_found: "j \<in> bd_id ` set bs \<Longrightarrow> \<exists>b \<in> set bs. binding_with j bs = Some b"
  unfolding binding_with_def by (induction bs) auto

lemma scope_lookup_ok:
  assumes "scopes_ok scs"
  shows "\<exists>b. cn_scope_lookup scs nm = Some b \<and> opt_all (\<lambda>b. wf_type (bd_type b)) b"
  using assms
proof (induction scs)
  case (Cons sc scs)
  then have sc: "scope_ok sc" and IH: "\<exists>b. cn_scope_lookup scs nm = Some b \<and> opt_all (\<lambda>b. wf_type (bd_type b)) b" by (simp_all add: scopes_ok_def)
  show ?case
  proof (cases "nm_map (so_binding_map sc) nm")
    case None
    with sc have "cn_name_map_lookup_value (so_binding_map sc) nm = Some None" by (simp add: scope_ok_def names.value_law)
    with IH show ?thesis by simp
  next
    case (Some e)
    obtain v i where e: "e = (v, i)" by (cases e)
    with Some sc obtain j where j: "v = Some j" "j \<in> bd_id ` set (so_bindings sc)" unfolding scope_ok_def by blast
    then obtain b where "b \<in> set (so_bindings sc)" "binding_with j (so_bindings sc) = Some b" using binding_with_found by blast
    moreover have "cn_name_map_lookup_value (so_binding_map sc) nm = Some (Some j)" using sc Some e j(1) by (simp add: scope_ok_def names.value_law)
    ultimately show ?thesis using sc by (simp add: scope_ok_def)
  qed
qed simp

lemma safe_scope_binding: "scopes_ok scs \<Longrightarrow> safe t G (scope_binding scs nm) (opt_all (\<lambda>b. wf_type (bd_type b)))"
  unfolding scope_binding_def using scope_lookup_ok [of scs nm] by (intro safe_clift) auto

lemma enter_scope_ok: "scopes_ok scs \<Longrightarrow> scopes_ok (enter_scope d scs)"
  by (simp add: scopes_ok_def scope_ok_def enter_scope_def zero_map_laws)

lemma scope_ok_guards [simp]: "scope_ok (sc\<lparr>so_result_guards := g\<rparr>) \<longleftrightarrow> scope_ok sc"
  by (simp add: scope_ok_def)

lemma mark_ok: "scopes_ok scs \<Longrightarrow> scopes_ok (cn_scope_mark_result_ok i scs)"
  by (cases scs) (simp_all add: scopes_ok_def cn_scope_mark_result_ok_def)

lemma mark_proof_ok: "scopes_ok scs \<Longrightarrow> scopes_ok (cn_mark_result_ok_proof_for_branch p b scs)"
  by (induction p b scs rule: cn_mark_result_ok_proof_for_branch.induct) (auto simp: mark_ok)

lemma build_proof_ok: "scopes_ok scs \<Longrightarrow> \<exists>p. cn_build_result_proof e scs depth = Some p"
proof (induction e arbitrary: depth)
  case (CN_EXPR_NAME off nm)
  then show ?case using scope_lookup_ok [of scs nm] by auto
next
  case (CN_EXPR_FIELD off base f)
  show ?case
  proof (cases "expr_name base")
    case (Some nm)
    obtain b where "cn_scope_lookup scs nm = Some b" using scope_lookup_ok [OF CN_EXPR_FIELD.prems] by blast
    with Some show ?thesis by simp
  qed simp
next
  case (CN_EXPR_UNARY off uop e)
  then obtain p where "cn_build_result_proof e scs (depth + 1) = Some p" by blast
  then show ?case by simp
next
  case (CN_EXPR_BINARY off bop l r)
  then have "\<exists>p. cn_build_result_proof l scs (Suc depth) = Some p" "\<exists>p. cn_build_result_proof r scs (Suc depth) = Some p" by simp_all
  then show ?case by (auto split: option.split)
qed auto

lemma safe_mark: "scopes_ok analysis \<Longrightarrow> scopes_ok target \<Longrightarrow> safe t G (cn_mark_result_ok_proofs_for_branch analysis e b target) scopes_ok"
  unfolding cn_mark_result_ok_proofs_for_branch_def using build_proof_ok [of analysis e 0]
  by (intro safe_cbind [where P = "\<lambda>_. True"] safe_clift) (auto intro!: safe_cret mark_proof_ok)

lemma safe_guard_scope: "scopes_ok scs \<Longrightarrow> safe t G (guard_scope scs c b) scopes_ok"
  unfolding guard_scope_def by (intro safe_mark enter_scope_ok)

end
