(* ===== verification/Sema_Sound.thy ===== *)
theory Sema_Sound
  imports Sema_Safe
begin

text \<open>
  The contract of the mutually recursive functions of the checker, as a locale: the callees that a
  function is given keep their contracts, and they have enough fuel where the fuel predicates say so. Inside the
  locale every function that calls them keeps its own contract, if the fuel of the callees is
  enough for what it passes on.
\<close>

lemma cbind_assoc: "cbind (cbind m f) g = cbind m (\<lambda>x. cbind (f x) g)"
  by (rule ext) (simp add: cbind_def split: outcome.split)

section \<open>What a function passes on\<close>

primrec expr_passes :: "(cn_expr \<Rightarrow> bool) \<Rightarrow> (cn_type_ref \<Rightarrow> bool) \<Rightarrow> (cn_expr \<Rightarrow> bool) \<Rightarrow> cn_expr \<Rightarrow> bool" where
  "expr_passes E T V (CN_EXPR_INT off v) \<longleftrightarrow> True"
| "expr_passes E T V (CN_EXPR_BOOL off b) \<longleftrightarrow> True"
| "expr_passes E T V (CN_EXPR_STRING off v) \<longleftrightarrow> True"
| "expr_passes E T V (CN_EXPR_NULL off) \<longleftrightarrow> True"
| "expr_passes E T V (CN_EXPR_NAME off nm) \<longleftrightarrow> True"
| "expr_passes E T V (CN_EXPR_UNARY off uop x) \<longleftrightarrow> E x"
| "expr_passes E T V (CN_EXPR_BINARY off bop l r) \<longleftrightarrow> E l \<and> E r"
| "expr_passes E T V (CN_EXPR_IF off c t e) \<longleftrightarrow> E c \<and> E t \<and> E e"
| "expr_passes E T V (CN_EXPR_CALL off f xs) \<longleftrightarrow> list_all E xs"
| "expr_passes E T V (CN_EXPR_ARRAY_LITERAL off xs rc n) \<longleftrightarrow> list_all E xs \<and> opt_all E rc \<and> opt_all V rc"
| "expr_passes E T V (CN_EXPR_INDEX off b i) \<longleftrightarrow> E b \<and> E i"
| "expr_passes E T V (CN_EXPR_SLICE_VIEW off b s e) \<longleftrightarrow> E b \<and> opt_all E s \<and> opt_all E e"
| "expr_passes E T V (CN_EXPR_FIELD off b f) \<longleftrightarrow> E b"
| "expr_passes E T V (CN_EXPR_STRUCT_LITERAL off m n fs) \<longleftrightarrow> list_all (\<lambda>f. E (field_init_value f)) fs"
| "expr_passes E T V (CN_EXPR_OK off x) \<longleftrightarrow> E x"
| "expr_passes E T V (CN_EXPR_ERR off) \<longleftrightarrow> True"
| "expr_passes E T V (CN_EXPR_ALLOC off t) \<longleftrightarrow> T t"
| "expr_passes E T V (CN_EXPR_ZALLOC off t) \<longleftrightarrow> T t"
| "expr_passes E T V (CN_EXPR_ADDR off x) \<longleftrightarrow> E x"
| "expr_passes E T V (CN_EXPR_DEREF off x) \<longleftrightarrow> E x"

definition type_passes :: "(cn_expr \<Rightarrow> bool) \<Rightarrow> (cn_type_ref \<Rightarrow> bool) \<Rightarrow> (cn_expr \<Rightarrow> bool) \<Rightarrow> cn_type_ref \<Rightarrow> bool" where
  "type_passes E T V t \<longleftrightarrow> opt_all T (type_inner t) \<and> opt_all E (array_size_expr t) \<and> opt_all V (array_size_expr t)"

text \<open>The constants that an expression names itself, in module \<open>c\<close>.\<close>

definition named_consts :: "cn_project \<Rightarrow> nat \<Rightarrow> cn_expr \<Rightarrow> (nat \<times> nat) set" where
  "named_consts K c e = (case e of
       CN_EXPR_NAME off nm \<Rightarrow> set_option (const_in K c nm)
     | CN_EXPR_FIELD off b f \<Rightarrow> (case expr_name b of None \<Rightarrow> {} | Some nm \<Rightarrow> set_option (source_const_in K c nm f))
     | _ \<Rightarrow> {})"

definition const_init :: "cn_project \<Rightarrow> nat \<times> nat \<Rightarrow> cn_expr" where
  "const_init K r = cd_initializer (decl_of pr_consts K r)"

abbreviation in_module :: "frame \<Rightarrow> nat \<Rightarrow> frame" where
  "in_module G m \<equiv> G\<lparr>fr_module := m\<rparr>"

section \<open>Zones\<close>

lemma zone_walk_safe: "(\<And>y. safe t G (named y) (\<lambda>_. True)) \<Longrightarrow> safe t G (zone_walk named ty) (\<lambda>_. True)"
  by (induction named ty rule: zone_walk.induct) (auto intro!: safe_cret split: cn_type_kind.split)

lemma zone_struct_safe:
  assumes "\<And>key d. safe t G (k key d) (\<lambda>_. True)"
  shows "safe t G (zone_struct stack y k) (\<lambda>_. True)"
  unfolding zone_struct_def
  by (intro safe_cbind [OF safe_canonical_struct] safe_option safe_cret safe_cbind [OF safe_module_at] safe_cbind [OF safe_struct_at] safe_if assms)
    (auto dest: valid_decl_module)

lemma zone_named_safe: "safe t G (zone_named k stack y) (\<lambda>_. True)"
  by (induction k arbitrary: stack y) (auto intro!: zone_struct_safe safe_cret safe_any zone_walk_safe simp del: zone_walk.simps)

lemma may_carry_safe: "safe t G (cn_type_may_carry_zone_value y) (\<lambda>_. True)"
  unfolding cn_type_may_carry_zone_value_def by (rule zone_walk_safe) (rule zone_named_safe)

lemma find_field_range: "cn_find_struct_field d nm = Some j \<Longrightarrow> j < length (sd_fields d)"
  using find_from_nth [of _ 0 "sd_fields d" j] by (simp add: cn_find_struct_field_def)

declare cn_expr_zone_depth.simps [simp del]

lemma zone_depth_safe:
  assumes "scopes_ok scs"
  shows "safe t G (cn_expr_zone_depth scs e y) (\<lambda>_. True)"
proof (induction e arbitrary: y rule: measure_induct_rule [where f = size])
  case (less e)
  show ?case
  proof (cases y)
    case None
    then show ?thesis by (simp add: cn_expr_zone_depth.simps(1) safe_cret)
  next
    case (Some y')
    have body: "safe t G (case e of
         CN_EXPR_ZALLOC off ty \<Rightarrow> cret (zone_depth scs)
       | CN_EXPR_NAME off nm \<Rightarrow> cbind (scope_binding scs nm) (\<lambda>b. cret (case b of None \<Rightarrow> 0 | Some b \<Rightarrow> bd_value_zone_depth b))
       | CN_EXPR_IF off c th el \<Rightarrow>
           cbind (cn_expr_zone_depth scs th (Some y')) (\<lambda>d1. cbind (cn_expr_zone_depth scs el (Some y')) (\<lambda>d2. cret (if d1 > d2 then d1 else d2)))
       | CN_EXPR_OK off v \<Rightarrow> if type_kind y' = CN_TYPE_RESULT then cn_expr_zone_depth scs v (type_inner y') else cret 0
       | CN_EXPR_FIELD off base f \<Rightarrow> cn_expr_zone_depth scs base (Some y')
       | CN_EXPR_INDEX off base ix \<Rightarrow> cn_expr_zone_depth scs base (Some y')
       | CN_EXPR_SLICE_VIEW off base st en \<Rightarrow> cn_expr_zone_depth scs base (Some y')
       | CN_EXPR_STRUCT_LITERAL off mn nm inits \<Rightarrow>
           if type_kind y' \<noteq> CN_TYPE_NAMED then cret 0
           else cbind (canonical_struct (type_module y') (type_name y')) (\<lambda>r. case r of
               None \<Rightarrow> cret 0
             | Some r \<Rightarrow> cbind (struct_at r) (\<lambda>d.
                 cmax (\<lambda>fi. case cn_find_struct_field d (field_init_name fi) of
                     None \<Rightarrow> cret 0
                   | Some j \<Rightarrow> cbind (clift (elem_at (sd_fields d) j)) (\<lambda>f. cn_expr_zone_depth scs (field_init_value fi) (Some (sf_type f)))) inits))
       | CN_EXPR_ARRAY_LITERAL off items rc n \<Rightarrow>
           if type_kind y' \<noteq> CN_TYPE_ARRAY \<and> type_kind y' \<noteq> CN_TYPE_SLICE then cret 0
           else cmax (\<lambda>item. cn_expr_zone_depth scs item (type_inner y')) items
       | _ \<Rightarrow> cret 0) (\<lambda>_. True)"
    proof (cases e)
      case (CN_EXPR_STRUCT_LITERAL off mn nm inits)
      have "safe t G (cn_expr_zone_depth scs (field_init_value fi) z) (\<lambda>_. True)" if "fi \<in> set inits" for fi z
        by (rule less) (use field_init_smaller [OF that] CN_EXPR_STRUCT_LITERAL in simp)
      then show ?thesis unfolding CN_EXPR_STRUCT_LITERAL cn_expr.case
        by (intro safe_if safe_cret safe_cbind [OF safe_canonical_struct] safe_option safe_cbind [OF safe_struct_at] safe_cmax
            safe_cbind [where P = "\<lambda>_. True"] safe_clift) (auto simp: elem_at_def dest: find_field_range)
    next
      case (CN_EXPR_ARRAY_LITERAL off items rc n)
      have "safe t G (cn_expr_zone_depth scs x z) (\<lambda>_. True)" if "x \<in> set items" for x z
        by (rule less) (use item_smaller [OF that] CN_EXPR_ARRAY_LITERAL in \<open>simp add: less_Suc_eq_le\<close>)
      then show ?thesis unfolding CN_EXPR_ARRAY_LITERAL cn_expr.case by (intro safe_if safe_cret safe_cmax) simp_all
    next
      case (CN_EXPR_NAME off nm)
      then show ?thesis by (auto intro!: safe_cbind [OF safe_scope_binding [OF assms]] safe_cret)
    next
      case (CN_EXPR_IF off c th el)
      then show ?thesis by (auto intro!: safe_cret safe_cbind [where P = "\<lambda>_. True"] less)
    qed (auto intro!: safe_cret less)
    show ?thesis unfolding Some by (subst cn_expr_zone_depth.simps) (intro safe_cbind [OF may_carry_safe] safe_if safe_cret body, simp_all)
  qed
qed

lemma storage_depth_safe: "scopes_ok scs \<Longrightarrow> safe t G (cn_assignment_storage_zone_depth scs e) (\<lambda>_. True)"
proof (induction scs e rule: cn_assignment_storage_zone_depth.induct)
  case (2 scs off base f)
  then show ?case by (auto intro!: safe_option safe_cbind [OF safe_source_const] safe_if safe_cret)
qed (auto intro!: safe_cret safe_cbind [OF safe_scope_binding])

section \<open>The contract\<close>

locale sound_checkers =
  fixes R :: checkers
    and fe :: "frame \<Rightarrow> cn_expr \<Rightarrow> bool" and ft :: "frame \<Rightarrow> cn_type_ref \<Rightarrow> bool" and fv :: "frame \<Rightarrow> cn_expr \<Rightarrow> bool"
    and fc :: "frame \<Rightarrow> cn_expr \<Rightarrow> bool" and fd :: "frame \<Rightarrow> nat \<times> nat \<Rightarrow> bool"
  assumes expr: "wf_expr e \<Longrightarrow> opt_all wf_type expected \<Longrightarrow> scopes_ok scs \<Longrightarrow> t \<longrightarrow> fe G e \<Longrightarrow> safe t G (ck_expr R scs e expected) wf_type"
    and ty: "wf_type y \<Longrightarrow> t \<longrightarrow> ft G y \<Longrightarrow> safe t G (ck_type R y off) (\<lambda>r. wf_type (snd r) \<and> erase_type (snd r) = erase_type y)"
    and eval: "wf_expr e \<Longrightarrow> valid_module (fr_project G) m \<Longrightarrow> t \<longrightarrow> fv (in_module G m) e \<Longrightarrow> safe t G (ck_eval R (Some m) e) (\<lambda>_. True)"
    and const_expr: "wf_expr e \<Longrightarrow> t \<longrightarrow> fc G e \<Longrightarrow> safe t G (ck_const_expr R e) (\<lambda>_. True)"
    and const_decl: "valid_const (fr_project G) r \<Longrightarrow> t \<longrightarrow> fd G r \<Longrightarrow> safe t G (ck_const_decl R r) (\<lambda>_. True)"
begin

lemmas bind_expr = safe_cbind [OF expr]

lemma expr_any: "wf_expr e \<Longrightarrow> opt_all wf_type expected \<Longrightarrow> scopes_ok scs \<Longrightarrow> t \<longrightarrow> fe G e \<Longrightarrow> safe t G (ck_expr R scs e expected) (\<lambda>_. True)"
  by (rule safe_anything [OF safe_conseq [OF expr]]) auto

lemma against_peer:
  "wf_expr e \<Longrightarrow> opt_all wf_type peer \<Longrightarrow> scopes_ok scs \<Longrightarrow> t \<longrightarrow> fe G e \<Longrightarrow> safe t G (cn_check_expression_against_peer R scs e peer) wf_type"
  unfolding cn_check_expression_against_peer_def by (intro safe_if expr) simp_all

lemma in_proof_scope:
  "wf_expr e \<Longrightarrow> opt_all wf_type expected \<Longrightarrow> scopes_ok scs \<Longrightarrow> t \<longrightarrow> fe G e \<Longrightarrow>
   safe t G (cn_check_expression_in_proof_scope R scs e expected c b) wf_type"
  unfolding cn_check_expression_in_proof_scope_def by (auto intro!: safe_option expr safe_cbind [OF safe_guard_scope])

lemma against_peer_in_proof_scope:
  "wf_expr e \<Longrightarrow> opt_all wf_type peer \<Longrightarrow> scopes_ok scs \<Longrightarrow> t \<longrightarrow> fe G e \<Longrightarrow>
   safe t G (cn_check_expression_against_peer_in_proof_scope R scs e peer c b) wf_type"
  unfolding cn_check_expression_against_peer_in_proof_scope_def by (auto intro!: safe_option against_peer safe_cbind [OF safe_guard_scope])

lemma eval_here: "wf_expr e \<Longrightarrow> t \<longrightarrow> fv G e \<Longrightarrow> safe t G (cbind (cget cx_module) (\<lambda>m. ck_eval R m e)) (\<lambda>_. True)"
proof (rule safe_frame)
  assume e: "wf_expr e" "t \<longrightarrow> fv G e" and G: "frame_ok G"
  show ?thesis
  proof (rule safe_cbind [where P = "\<lambda>m. m = Some (fr_module G)"])
    show "safe t G (cget cx_module) (\<lambda>m. m = Some (fr_module G))" by (rule safe_cget) (simp add: ctx_ok_def)
    fix m assume m: "m = Some (fr_module G)"
    show "safe t G (ck_eval R m e) (\<lambda>_. True)" unfolding m
      by (rule eval) (use e G in \<open>simp_all add: frame_ok_def\<close>)
  qed
qed

lemma const_size:
  assumes "wf_expr e" and "t \<longrightarrow> fe G e" and "t \<longrightarrow> fv G e"
  shows "safe t G (cn_resolve_non_negative_const_size R e off ec msg) (\<lambda>_. True)"
proof -
  have *: "cn_resolve_non_negative_const_size R e off ec msg =
    cbind (ck_expr R [] e (Some int_type)) (\<lambda>size_type.
     if \<not> cn_type_is_integer_like size_type
     then cseq (cn_emit_type_mismatch (expr_offset e) msg int_type size_type) (cret None)
     else cbind (cbind (cget cx_module) (\<lambda>m. ck_eval R m e)) (\<lambda>v. case v of
         None \<Rightarrow> cseq (cerror ec off msg) (cret None)
       | Some v \<Rightarrow> if sint v < 0 then cseq (cerror ec off msg) (cret None) else cret (Some (nat (sint v)))))"
    unfolding cn_resolve_non_negative_const_size_def cbind_assoc ..
  show ?thesis unfolding *
    by (intro bind_expr safe_cbind [OF eval_here] safe_if safe_option safe_cret safe_cseq [OF safe_cerror] safe_cseq [OF safe_mismatch])
      (use assms in \<open>simp_all add: scopes_ok_def\<close>)
qed

lemma validate_inner:
  assumes "opt_all wf_type inner" and "t \<longrightarrow> opt_all (ft G) inner"
  shows "safe t G (case inner of None \<Rightarrow> cret (False, None) | Some i \<Rightarrow> cbind (ck_type R i off) (\<lambda>(v, i). cret (v, Some i)))
    (\<lambda>r. opt_all wf_type (snd r) \<and> map_option erase_type (snd r) = map_option erase_type inner)"
  by (intro safe_option safe_cbind [OF ty] safe_prod safe_cret) (use assms in auto)

lemma validate:
  assumes "wf_type y" and "t \<longrightarrow> type_passes (fe G) (ft G) (fv G) y"
  shows "safe t G (cn_validate_type_ref R y off) (\<lambda>r. wf_type (snd r) \<and> erase_type (snd r) = erase_type y)"
proof -
  obtain k mn nm inner se n toff where y: "y = CnType k mn nm inner se n toff" by (cases y)
  have wf: "has_inner k \<longrightarrow> inner \<noteq> None" "opt_all wf_type inner" "opt_all wf_expr se" using assms(1) y by simp_all
  have fits: "t \<longrightarrow> opt_all (ft G) inner" "t \<longrightarrow> opt_all (fe G) se" "t \<longrightarrow> opt_all (fv G) se"
    using assms(2) y by (simp_all add: type_passes_def)
  let ?vi = "case inner of None \<Rightarrow> cret (False, None) | Some i \<Rightarrow> cbind (ck_type R i off) (\<lambda>(v, i). cret (v, Some i))"
  have same: "wf_type (CnType k mn' nm i se n' toff) \<and> erase_type (CnType k mn' nm i se n' toff) = erase_type y"
    if "opt_all wf_type i \<and> map_option erase_type i = map_option erase_type inner" for i mn' n'
  proof -
    have "i = None \<longleftrightarrow> inner = None" using that by (cases i; cases inner) auto
    moreover have "(case i of None \<Rightarrow> None | Some t \<Rightarrow> Some (erase_type t)) = (case inner of None \<Rightarrow> None | Some t \<Rightarrow> Some (erase_type t))"
      using that by (cases i; cases inner) auto
    ultimately show ?thesis using that wf y by simp
  qed
  have plain: "safe t G (cbind ?vi (\<lambda>(v, i). cret (v, CnType k mn nm i se n toff))) (\<lambda>r. wf_type (snd r) \<and> erase_type (snd r) = erase_type y)"
    by (intro safe_cbind [OF validate_inner [OF wf(2) fits(1)]] safe_prod safe_cret) (use same in auto)
  have array: "safe t G (cbind ?vi (\<lambda>(v, i). case se of
           None \<Rightarrow> cret (v, CnType k mn nm i se n toff)
         | Some e \<Rightarrow> cbind (cn_resolve_non_negative_const_size R e (expr_offset e) ''E3039'' ''array size must be a non-negative integer constant'') (\<lambda>sz.
             cret (v \<and> sz \<noteq> None, CnType k mn nm i se (case sz of None \<Rightarrow> 0 | Some sz \<Rightarrow> sz) toff))))
       (\<lambda>r. wf_type (snd r) \<and> erase_type (snd r) = erase_type y)"
    by (intro safe_cbind [OF validate_inner [OF wf(2) fits(1)]] safe_prod safe_option safe_cret safe_cbind [OF const_size])
      (use same wf(3) fits in auto)
  have named: "safe t G (cbind (source_struct mn nm) (\<lambda>r. case r of
           None \<Rightarrow> cseq (cerror ''E3012'' off (unknown_name ''unknown type'' mn nm)) (cret (False, y))
         | Some r \<Rightarrow> cbind (module_at (fst r)) (\<lambda>md. cret (True, CnType k (mo_name md) nm inner se n toff))))
       (\<lambda>r. wf_type (snd r) \<and> erase_type (snd r) = erase_type y)"
    by (intro safe_cbind [OF safe_source_struct] safe_option safe_cret safe_cseq [OF safe_cerror] safe_cbind [OF safe_module_at])
      (use same wf(2) assms(1) in \<open>auto dest: valid_decl_module\<close>)
  have rest: "safe t G (cret (True, y)) (\<lambda>r. wf_type (snd r) \<and> erase_type (snd r) = erase_type y)"
    by (rule safe_cret) (simp add: assms(1))
  show ?thesis unfolding cn_validate_type_ref_def y cn_type_ref.case Let_def
    using plain array named rest unfolding y by (cases k) (simp_all only: cn_type_kind.case)
qed

lemma check_item:
  assumes "wf_expr e" and "opt_all wf_type expected" and "scopes_ok scs" and "t \<longrightarrow> fe G e" and "opt_all wf_type acc"
  shows "safe t G (check_item R scs expected e acc) (opt_all wf_type)"
  unfolding check_item_def
  by (intro bind_expr safe_option safe_cret safe_cseq [where P = "\<lambda>_. True"] safe_cwhen safe_mismatch) (use assms in auto)

lemma array_literal:
  assumes "list_all wf_expr items" and "opt_all wf_expr rc" and "opt_all wf_type expected" and "scopes_ok scs"
    and "t \<longrightarrow> list_all (fe G) items" and "t \<longrightarrow> opt_all (fe G) rc" and "t \<longrightarrow> opt_all (fv G) rc"
  shows "safe t G (cn_check_array_literal R scs off items rc expected) wf_type"
proof -
  have count: "safe t G (case rc of None \<Rightarrow> cret (length items)
       | Some e \<Rightarrow> cbind (cn_resolve_non_negative_const_size R e (expr_offset e) ''E3040'' ''array repeat count must be a non-negative integer constant'')
           (\<lambda>sz. cret (case sz of None \<Rightarrow> 0 | Some sz \<Rightarrow> sz))) (\<lambda>_. True)"
    by (intro safe_option safe_cret safe_cbind [OF const_size]) (use assms in auto)
  have items: "safe t G (cfold (check_item R scs ex) items acc) (opt_all wf_type)" if "opt_all wf_type ex" "opt_all wf_type acc" for ex acc
    by (intro safe_fold check_item) (use assms that in \<open>auto simp: list_all_iff\<close>)
  have inner: "opt_all wf_type (type_inner y)" if "expected = Some y" for y
    using assms(3) that wf_inner_all by simp
  show ?thesis unfolding cn_check_array_literal_def
  proof (intro safe_cbind [OF count] safe_if)
    assume "expected_kind expected CN_TYPE_ARRAY"
    then obtain y where y: "expected = Some y" by (auto simp: expected_kind_def split: option.splits)
    show "safe t G (cbind (clift expected) (\<lambda>y. cseq (cwhen (n \<noteq> array_size y) (cerror ''E3011'' off
         (''array literal size mismatch: expected '' @ nat_digits (array_size y) @ '' items, got '' @ nat_digits n))) (
       cseq (cfold (check_item R scs (type_inner y)) items (type_inner y)) (cret y)))) wf_type" for n
      by (intro safe_cbind [where P = "\<lambda>x. x = y"] safe_clift safe_cseq [where P = "\<lambda>_. True"] safe_cwhen safe_cerror
          safe_cseq [OF items] safe_cret) (use y inner assms(3) in auto)
  next
    show "safe t G (cbind (cfold (check_item R scs None) items None) (\<lambda>element_type.
       cret (cn_make_temp_type CN_TYPE_ARRAY [] [] (Some (case element_type of None \<Rightarrow> unknown_type | Some t \<Rightarrow> t)) n off))) wf_type" for n
      by (intro safe_cbind [OF items] safe_cret) (auto simp: cn_make_temp_type_def split: option.split)
  qed
qed

lemma field_init:
  assumes "wf_init fi" and "scopes_ok scs" and "t \<longrightarrow> fe G (field_init_value fi)" and "\<forall>f \<in> set (sd_fields d). wf_type (sf_type f)"
    and "length seen = length (sd_fields d)"
  shows "safe t G (check_field_init R scs d fi seen) (\<lambda>seen. length seen = length (sd_fields d))"
proof -
  have "wf_expr (field_init_value fi)" using assms(1) by (cases fi) simp
  then show ?thesis unfolding check_field_init_def
    by (intro safe_option safe_cseq [where P = "\<lambda>_. True"] safe_cerror safe_cret safe_if safe_cwhen safe_mismatch
        safe_cbind [where P = "\<lambda>_. True"] safe_cbind [where P = "\<lambda>f. wf_type (sf_type f)"] safe_clift bind_expr)
      (use assms find_field_range in \<open>auto simp: elem_at_def split: if_splits\<close>)
qed

lemma struct_literal:
  assumes "list_all wf_init inits" and "scopes_ok scs" and "t \<longrightarrow> list_all (\<lambda>f. fe G (field_init_value f)) inits"
  shows "safe t G (cn_check_struct_literal R scs off mn nm inits) wf_type"
  unfolding cn_check_struct_literal_def
proof (intro safe_cbind [OF safe_source_struct] safe_option safe_fails)
  fix found r assume "opt_all (valid_struct (fr_project G)) found" "found = Some r"
  then have r: "valid_struct (fr_project G) r" by simp
  show "safe t G (cbind (struct_at r) (\<lambda>d.
         cbind (cfold (check_field_init R scs d) inits (replicate (length (sd_fields d)) False)) (\<lambda>seen.
         cseq (ceach (\<lambda>(f, was_seen). cwhen (\<not> was_seen) (cerror ''E3004'' off
           (''missing field '' @ quoted (sf_name f) @ '' in struct literal '' @ quoted (sd_name d)))) (zip (sd_fields d) seen)) (
         cbind (module_at (fst r)) (\<lambda>md. cret (cn_make_temp_type CN_TYPE_NAMED (mo_name md) (sd_name d) None 0 off)))))) wf_type"
  proof (rule safe_cbind [OF safe_struct_at [OF r]])
    fix d :: cn_struct_decl assume d: "\<forall>f \<in> set (sd_fields d). wf_type (sf_type f)"
    have loop: "safe t G (cfold (check_field_init R scs d) inits (replicate (length (sd_fields d)) False)) (\<lambda>seen. length seen = length (sd_fields d))"
      by (intro safe_fold field_init) (use assms d in \<open>auto simp: list_all_iff\<close>)
    show "safe t G (cbind (cfold (check_field_init R scs d) inits (replicate (length (sd_fields d)) False)) (\<lambda>seen.
         cseq (ceach (\<lambda>(f, was_seen). cwhen (\<not> was_seen) (cerror ''E3004'' off
           (''missing field '' @ quoted (sf_name f) @ '' in struct literal '' @ quoted (sd_name d)))) (zip (sd_fields d) seen)) (
         cbind (module_at (fst r)) (\<lambda>md. cret (cn_make_temp_type CN_TYPE_NAMED (mo_name md) (sd_name d) None 0 off))))) wf_type"
      by (intro safe_cbind [OF loop] safe_cseq [where P = "\<lambda>_. True"] safe_each safe_prod safe_cwhen safe_cerror
          safe_cbind [OF safe_module_at] safe_cret) (use valid_decl_module [OF r] in \<open>auto simp: cn_make_temp_type_def has_inner_def\<close>)
  qed
qed simp

lemma result_field:
  assumes "wf_type y" and "type_kind y = CN_TYPE_RESULT" and "scopes_ok scs"
  shows "safe t G (check_result_field scs off base f y) wf_type"
  unfolding check_result_field_def
  by (intro safe_if safe_cret safe_fails safe_cbind [where P = "\<lambda>_. True"] safe_option safe_cseq [where P = "\<lambda>_. True"] safe_cwhen safe_cerror
      safe_inner_type safe_conseq [OF safe_scope_binding]) (use assms in \<open>auto simp: has_inner_def\<close>)

lemma struct_field: "safe t G (check_struct_field off f y) wf_type"
  unfolding check_struct_field_def
  by (intro safe_cbind [OF safe_canonical_struct] safe_option safe_fails safe_cbind [OF safe_struct_at]
      safe_cbind [where P = "\<lambda>f. wf_type (sf_type f)"] safe_clift safe_cret) (auto simp: elem_at_def dest: find_field_range split: if_splits)

lemma value_field:
  assumes "wf_expr base" and "scopes_ok scs" and "t \<longrightarrow> fe G base"
  shows "safe t G (check_value_field R scs off base f) wf_type"
  unfolding check_value_field_def
proof (intro bind_expr)
  fix y assume "wf_type y"
  then show "safe t G (case type_kind y of
       CN_TYPE_PTR \<Rightarrow> if f = ''value'' then inner_type y
         else fails ''E3009'' off (''pointer values only expose '' @ quoted ''.value'' @ ''; use '' @ quoted ''deref value'' @ '' for explicit dereference'')
     | CN_TYPE_RESULT \<Rightarrow> check_result_field scs off base f y
     | CN_TYPE_SLICE \<Rightarrow> if f = ''length'' then cret int_type else fails ''E3009'' off (''slice values only expose '' @ quoted ''.length'')
     | CN_TYPE_NAMED \<Rightarrow> check_struct_field off f y
     | _ \<Rightarrow> fails ''E3009'' off ''field access requires a struct value'') wf_type"
    using assms(2) by (cases "type_kind y") (auto intro!: safe_if safe_inner_type safe_fails safe_cret result_field struct_field simp: has_inner_def)
qed (use assms in simp_all)

lemma const_type: "valid_const (fr_project G) r \<Longrightarrow> safe t G (cbind (const_at r) (\<lambda>d. cret (cd_type d))) wf_type"
  by (intro safe_cbind [OF safe_const_at] safe_cret) (auto simp: const_of_frame_def)

lemma field_access:
  assumes "wf_expr base" and "scopes_ok scs" and "t \<longrightarrow> fe G base"
  shows "safe t G (cn_check_field_access R scs off base f) wf_type"
  unfolding cn_check_field_access_def
  by (intro safe_option value_field safe_cbind [OF safe_source_const] const_type safe_cbind [OF safe_imported_module] safe_if safe_fails)
    (use assms in auto)

lemma index:
  assumes "wf_expr base" and "wf_expr ix" and "scopes_ok scs" and "t \<longrightarrow> fe G base" and "t \<longrightarrow> fe G ix"
  shows "safe t G (cn_check_index R scs off base ix) wf_type"
  unfolding cn_check_index_def
  by (intro bind_expr safe_cseq [where P = "\<lambda>_. True"] safe_check_int safe_if safe_fails safe_inner_type) (use assms in \<open>auto simp: has_inner_def\<close>)

lemma slice_bound:
  "opt_all wf_expr b \<Longrightarrow> scopes_ok scs \<Longrightarrow> t \<longrightarrow> opt_all (fe G) b \<Longrightarrow> safe t G (check_slice_bound R scs b msg) (\<lambda>_. True)"
  unfolding check_slice_bound_def by (intro safe_option bind_expr safe_check_int safe_cret) auto

lemma slice_view:
  assumes "wf_expr base" and "opt_all wf_expr st" and "opt_all wf_expr en" and "scopes_ok scs"
    and "t \<longrightarrow> fe G base" and "t \<longrightarrow> opt_all (fe G) st" and "t \<longrightarrow> opt_all (fe G) en"
  shows "safe t G (cn_check_slice_view R scs off base st en) wf_type"
  unfolding cn_check_slice_view_def
  by (intro bind_expr safe_cseq [OF slice_bound] safe_if safe_fails safe_cret)
    (use assms in \<open>auto simp: cn_make_temp_type_def has_inner_def dest: wf_inner_all wf_inner\<close>)

end

end
