(* ===== verification/Sema_Knot.thy ===== *)
theory Sema_Knot
  imports Sema_Sound
begin

text \<open>
  The rest of the contracts of the mutually recursive functions: calls, conditions, operators and constants.
\<close>

section \<open>Computations that move to another frame\<close>

definition moves :: "bool \<Rightarrow> frame \<Rightarrow> frame \<Rightarrow> 'a cm \<Rightarrow> ('a \<Rightarrow> bool) \<Rightarrow> bool" where
  "moves t G H m P \<longleftrightarrow> (\<forall>s. ctx_ok G s \<longrightarrow> cwp t m (\<lambda>x s'. P x \<and> ctx_ok H s' \<and> errs s \<le> errs s') s)"

lemma moves_safe: "moves t G G m P \<longleftrightarrow> safe t G m P"
  by (simp add: moves_def safe_def)

lemma moves_cbind:
  assumes "moves t G H m P" and "\<And>x. P x \<Longrightarrow> moves t H I (k x) Q"
  shows "moves t G I (cbind m k) Q"
  unfolding moves_def
proof (intro allI impI)
  fix s assume "ctx_ok G s"
  with assms(1) have "cwp t m (\<lambda>x s'. P x \<and> ctx_ok H s' \<and> errs s \<le> errs s') s" by (simp add: moves_def)
  then show "cwp t (cbind m k) (\<lambda>x s'. Q x \<and> ctx_ok I s' \<and> errs s \<le> errs s') s"
  proof (rule cwp_cbind [OF cwp_mono])
    fix x s1 assume 1: "P x \<and> ctx_ok H s1 \<and> errs s \<le> errs s1"
    then have "cwp t (k x) (\<lambda>x s'. Q x \<and> ctx_ok I s' \<and> errs s1 \<le> errs s') s1" using assms(2) by (simp add: moves_def)
    then show "cwp t (k x) (\<lambda>x s'. Q x \<and> ctx_ok I s' \<and> errs s \<le> errs s') s1" using 1 by (auto elim!: cwp_mono)
  qed
qed

lemma moves_cseq: "moves t G H m P \<Longrightarrow> (\<And>x. P x \<Longrightarrow> moves t H I k Q) \<Longrightarrow> moves t G I (cseq m k) Q"
  unfolding cseq_def by (rule moves_cbind)

lemma stays_cbind: "safe t G m P \<Longrightarrow> (\<And>x. P x \<Longrightarrow> moves t G I (k x) Q) \<Longrightarrow> moves t G I (cbind m k) Q"
  unfolding moves_safe [symmetric] by (rule moves_cbind)

lemma stays_cseq: "safe t G m P \<Longrightarrow> (\<And>x. P x \<Longrightarrow> moves t G I k Q) \<Longrightarrow> moves t G I (cseq m k) Q"
  unfolding moves_safe [symmetric] by (rule moves_cseq)

lemma moves_set_module: "valid_module (fr_project G) m \<Longrightarrow> moves t G (in_module G m) (set_module (Some m)) (\<lambda>_. True)"
  by (auto simp: moves_def set_module_def cput_def cwp_def ctx_ok_def frame_ok_def)

lemma in_module_same [simp]: "in_module (in_module G m) (fr_module G) = G"
  by simp

lemma moves_back: "valid_module (fr_project G) (fr_module G) \<Longrightarrow> moves t (in_module G m) G (set_module (Some (fr_module G))) (\<lambda>_. True)"
  using moves_set_module [of "in_module G m" "fr_module G"] by simp

lemma safe_cur_module: "safe t G (cget cx_module) (\<lambda>m. m = Some (fr_module G))"
  by (rule safe_cget) (simp add: ctx_ok_def)

lemma frame_valid_module: "frame_ok G \<Longrightarrow> valid_module (fr_project G) (fr_module G)"
  by (simp add: frame_ok_def)

lemma valid_decl_in_module: "valid_decl decls K r \<Longrightarrow> valid_module K (fst r)"
  by (auto simp: valid_decl_def valid_module_def)

section \<open>Exported types and addresses\<close>

lemma exportable_safe: "safe t G (cn_type_is_exportable y) (\<lambda>_. True)"
proof (induction y rule: cn_type_is_exportable.induct)
  case (2 y)
  then show ?case
    by (cases "type_kind y") (auto intro!: safe_cret safe_cbind [OF safe_canonical_struct] safe_option safe_cbind [OF safe_struct_at])
qed (simp add: safe_cret)

lemma check_exported_safe: "safe t G (check_exported p v off sk sn y) (\<lambda>_. True)"
  unfolding check_exported_def cn_emit_private_type_in_public_api_def
  by (intro safe_if safe_cret safe_cbind [OF exportable_safe] safe_cwhen safe_cerror) simp_all

lemma address_storage_safe: "scopes_ok scs \<Longrightarrow> safe t G (cn_check_address_target_storage scs e) (\<lambda>_. True)"
proof (induction scs e rule: cn_check_address_target_storage.induct)
  case (1 scs off nm)
  then show ?case by (auto intro!: safe_cbind [OF safe_scope_binding] safe_option safe_if safe_cret safe_cseq [OF safe_cerror] safe_cbind [OF safe_module_const])
next
  case (2 scs off base f)
  show ?case
  proof (cases "expr_name base")
    case None
    then show ?thesis using 2 by simp
  next
    case (Some nm)
    have through: "safe t G (if f = ''value'' then cbind (scope_binding scs nm) (\<lambda>b. cret (case b of None \<Rightarrow> False | Some b \<Rightarrow> type_kind (bd_type b) = CN_TYPE_PTR))
           else cret False) (\<lambda>_. True)"
      using 2 by (auto intro!: safe_cret safe_cbind [OF safe_scope_binding])
    have base: "safe t G (cn_check_address_target_storage scs base) (\<lambda>_. True)" by (rule 2(2) [of nm False None]) (simp_all add: Some 2)
    show ?thesis unfolding cn_check_address_target_storage.simps Some option.case
      by (intro safe_cbind [OF through] safe_if safe_cret safe_cbind [OF safe_source_const] safe_cseq [OF safe_cerror] base) simp_all
  qed
qed (auto intro!: safe_cret safe_cseq [OF safe_cerror])

section \<open>What the functions on constants pass on\<close>

definition reads_const :: "(frame \<Rightarrow> cn_expr \<Rightarrow> bool) \<Rightarrow> (frame \<Rightarrow> nat \<times> nat \<Rightarrow> bool) \<Rightarrow> frame \<Rightarrow> nat \<times> nat \<Rightarrow> bool" where
  "reads_const V D G r \<longleftrightarrow> D G r \<and> V (in_module G (fst r)) (const_init (fr_project G) r)"

definition eval_passes :: "(frame \<Rightarrow> cn_expr \<Rightarrow> bool) \<Rightarrow> (frame \<Rightarrow> nat \<times> nat \<Rightarrow> bool) \<Rightarrow> frame \<Rightarrow> cn_expr \<Rightarrow> bool" where
  "eval_passes V D G e \<longleftrightarrow> (\<forall>r \<in> named_consts (fr_project G) (fr_module G) e. reads_const V D G r) \<and> (case e of
       CN_EXPR_UNARY off uop x \<Rightarrow> V G x
     | CN_EXPR_BINARY off bop l r \<Rightarrow> V G l \<and> V G r
     | _ \<Rightarrow> True)"

definition const_expr_passes :: "(frame \<Rightarrow> cn_expr \<Rightarrow> bool) \<Rightarrow> (frame \<Rightarrow> nat \<times> nat \<Rightarrow> bool) \<Rightarrow> frame \<Rightarrow> cn_expr \<Rightarrow> bool" where
  "const_expr_passes C D G e \<longleftrightarrow> (\<forall>r \<in> named_consts (fr_project G) (fr_module G) e. D G r) \<and> expr_passes (C G) (\<lambda>_. True) (\<lambda>_. True) e"

definition const_decl_passes :: "(frame \<Rightarrow> cn_expr \<Rightarrow> bool) \<Rightarrow> (frame \<Rightarrow> cn_type_ref \<Rightarrow> bool) \<Rightarrow> (frame \<Rightarrow> cn_expr \<Rightarrow> bool) \<Rightarrow> frame \<Rightarrow> nat \<times> nat \<Rightarrow> bool" where
  "const_decl_passes E T C G r \<longleftrightarrow> (let H = in_module G (fst r); e = const_init (fr_project G) r in
     (\<forall>y. erase_type y = cd_type (decl_of pr_consts (fr_project G) r) \<longrightarrow> T H y) \<and> C H e \<and> E H e)"

context sound_checkers
begin

section \<open>Calls\<close>

lemma check_argument:
  assumes "wf_expr e" and "wf_type (pa_type p)" and "scopes_ok scs" and "t \<longrightarrow> fe G e"
  shows "safe t G (check_argument R scs (e, p)) (\<lambda>_. True)"
  unfolding check_argument_def prod.case
  by (intro bind_expr safe_cseq [where P = "\<lambda>_. True"] safe_cwhen safe_mismatch safe_cbind [OF zone_depth_safe] safe_if safe_cbind [OF may_carry_safe]
      safe_cerror safe_cret) (use assms in simp_all)

lemma call_arguments:
  assumes "list_all wf_expr args" and "\<forall>q \<in> set (fn_parameters f). wf_type (pa_type q)" and "scopes_ok scs" and "t \<longrightarrow> list_all (fe G) args"
  shows "safe t G (cn_check_call_arguments R scs off args f) (\<lambda>_. True)"
  unfolding cn_check_call_arguments_def
proof (intro safe_cseq [where P = "\<lambda>_. True"] safe_cwhen safe_cerror safe_each TrueI)
  fix ap assume "ap \<in> set (zip args (fn_parameters f))"
  then obtain e p where ap: "ap = (e, p)" "e \<in> set args" "p \<in> set (fn_parameters f)" by (metis set_zip_leftD set_zip_rightD surj_pair)
  with assms show "safe t G (check_argument R scs ap) (\<lambda>_. True)" by (auto intro!: check_argument simp: list_all_iff)
qed

lemma str_argument:
  "wf_expr e \<Longrightarrow> scopes_ok scs \<Longrightarrow> t \<longrightarrow> fe G e \<Longrightarrow> safe t G (check_str_argument R scs msg e) (\<lambda>_. True)"
  unfolding check_str_argument_def by (intro bind_expr safe_cwhen safe_mismatch) simp_all

lemma call_function:
  assumes "list_all wf_expr args" and "scopes_ok scs" and "t \<longrightarrow> list_all (fe G) args" and "valid_function (fr_project G) r"
  shows "safe t G (cbind (function_at r) (\<lambda>f. cseq (cn_check_call_arguments R scs off args f) (cret (fn_return_type f)))) wf_type"
  by (intro safe_cbind [OF safe_function_at] safe_cseq [OF call_arguments] safe_cret) (use assms in \<open>auto simp: function_of_frame_def\<close>)

lemma local_call:
  assumes "list_all wf_expr args" and "scopes_ok scs" and "t \<longrightarrow> list_all (fe G) args"
  shows "safe t G (check_local_call R scs off callee args) wf_type"
  unfolding check_local_call_def
  by (intro safe_cbind [OF safe_imported_module] safe_if safe_fails safe_cbind [OF safe_module_const] safe_cbind [OF safe_ccur])
    (auto intro!: safe_cbind [OF safe_local_function] safe_option safe_fails call_function assms)

lemma module_call:
  assumes "list_all wf_expr args" and "scopes_ok scs" and "t \<longrightarrow> list_all (fe G) args"
  shows "safe t G (check_module_call R scs off mn nm args) wf_type"
  unfolding check_module_call_def
  by (intro safe_cbind [OF safe_imported_module] safe_option safe_fails safe_cbind [OF safe_public_const] safe_cbind [OF safe_module_at] safe_if
      safe_cbind [OF safe_public_function] call_function) (use assms in auto)

lemma arguments_any:
  assumes "list_all wf_expr args" and "scopes_ok scs" and "t \<longrightarrow> list_all (fe G) args"
  shows "safe t G (cseq (cerror ec off msg) (cseq (ceach (\<lambda>arg. cseq (ck_expr R scs arg None) (cret ())) args) (cret unknown_type))) wf_type"
  by (intro safe_cseq [OF safe_cerror] safe_cseq [where P = "\<lambda>_. True"] safe_each safe_cret expr_any) (use assms in \<open>auto simp: list_all_iff\<close>)

lemma call:
  assumes "list_all wf_expr args" and "scopes_ok scs" and "t \<longrightarrow> list_all (fe G) args"
  shows "safe t G (cn_check_call R scs off callee args) wf_type"
proof -
  have one: "safe t G (case args of [arg] \<Rightarrow> k arg | _ \<Rightarrow> cerror ec off msg) (\<lambda>_. True)" if "\<And>arg. arg \<in> set args \<Longrightarrow> safe t G (k arg) (\<lambda>_. True)"
    for k :: "cn_expr \<Rightarrow> unit cm" and ec msg
    using that by (auto intro!: safe_cerror split: list.split)
  have arg: "safe t G (cseq (ck_expr R scs a None) (cret ())) (\<lambda>_. True)" "safe t G (check_str_argument R scs msg a) (\<lambda>_. True)"
    if "a \<in> set args" for a msg
    using that assms by (auto intro!: safe_cseq [where P = "\<lambda>_. True"] expr_any safe_cret str_argument simp: list_all_iff)
  show ?thesis
  proof (cases callee)
    case (CN_EXPR_NAME coff nm)
    show ?thesis unfolding cn_check_call_def CN_EXPR_NAME cn_expr.case
      by (intro safe_if safe_cseq [where P = "\<lambda>_. True"] one arg safe_cret safe_cwhen safe_cerror safe_each local_call assms) simp_all
  next
    case (CN_EXPR_FIELD foff base nm)
    show ?thesis unfolding cn_check_call_def CN_EXPR_FIELD cn_expr.case
      by (intro safe_option module_call arguments_any assms)
  qed (simp_all add: cn_check_call_def arguments_any [OF assms])
qed

section \<open>Conditions and operators\<close>

lemma address_of:
  assumes "wf_expr e" and "scopes_ok scs" and "t \<longrightarrow> fe G e"
  shows "safe t G (cn_check_address_of R scs off e) wf_type"
  unfolding cn_check_address_of_def
  by (intro safe_cbind [OF address_storage_safe] safe_if safe_cret bind_expr) (use assms in \<open>auto simp: cn_make_temp_type_def\<close>)

lemma if_expression:
  assumes "wf_expr c" and "wf_expr th" and "wf_expr el" and "opt_all wf_type expected" and "scopes_ok scs"
    and "t \<longrightarrow> fe G c" and "t \<longrightarrow> fe G th" and "t \<longrightarrow> fe G el"
  shows "safe t G (cn_check_if_expression R scs off c th el expected) wf_type"
proof -
  have branches: "safe t G (if_branches R scs c th el expected) (\<lambda>(x, y). wf_type x \<and> wf_type y)"
    unfolding if_branches_def
    by (intro safe_if safe_cbind [OF in_proof_scope] safe_cbind [OF against_peer_in_proof_scope] safe_cret safe_cbind [where P = wf_type] in_proof_scope)
      (use assms in simp_all)
  show ?thesis unfolding cn_check_if_expression_def branch_mismatch_def
    by (intro bind_expr safe_cseq [where P = "\<lambda>_. True"] safe_cwhen safe_cerror safe_cbind [OF branches] safe_prod safe_if safe_option safe_fails safe_cret)
      (use assms in auto)
qed

lemma binary:
  assumes "wf_expr le" and "wf_expr re" and "scopes_ok scs" and "t \<longrightarrow> fe G le" and "t \<longrightarrow> fe G re"
  shows "safe t G (check_binary R scs off bop le re) wf_type"
proof -
  have again: "safe t G (if b then ck_expr R scs le (Some r) else cret l) wf_type" if "wf_type l" "wf_type r" for b l r
    by (intro safe_if expr safe_cret) (use that assms in simp_all)
  have op: "safe t G (check_arithmetic off l r) wf_type" "safe t G (check_comparison off l r) wf_type"
    "safe t G (check_logical off l r) wf_type" "safe t G (check_equality off l r) wf_type" for l r
    unfolding check_arithmetic_def check_comparison_def check_logical_def check_equality_def
    by (auto intro!: safe_cseq [where P = "\<lambda>_. True"] safe_check_int safe_cret safe_if safe_cwhen safe_mismatch)
  show ?thesis unfolding check_binary_def
  proof (intro bind_expr safe_cbind [OF against_peer] safe_cbind [OF again])
    fix l r
    show "safe t G (case bop of
       CN_BINARY_ADD \<Rightarrow> check_arithmetic off l r
     | CN_BINARY_SUB \<Rightarrow> check_arithmetic off l r
     | CN_BINARY_MUL \<Rightarrow> check_arithmetic off l r
     | CN_BINARY_DIV \<Rightarrow> check_arithmetic off l r
     | CN_BINARY_MOD \<Rightarrow> check_arithmetic off l r
     | CN_BINARY_EQUAL \<Rightarrow> check_equality off l r
     | CN_BINARY_NOT_EQUAL \<Rightarrow> check_equality off l r
     | CN_BINARY_LESS \<Rightarrow> check_comparison off l r
     | CN_BINARY_LESS_EQUAL \<Rightarrow> check_comparison off l r
     | CN_BINARY_GREATER \<Rightarrow> check_comparison off l r
     | CN_BINARY_GREATER_EQUAL \<Rightarrow> check_comparison off l r
     | CN_BINARY_AND \<Rightarrow> check_logical off l r
     | CN_BINARY_OR \<Rightarrow> check_logical off l r) wf_type"
      by (cases bop) (simp_all add: op)
  qed (use assms in simp_all)
qed

lemma unary:
  assumes "wf_expr e" and "scopes_ok scs" and "t \<longrightarrow> fe G e"
  shows "safe t G (check_unary R scs off uop e) wf_type"
  unfolding check_unary_def
  by (intro bind_expr safe_if safe_cseq [where P = "\<lambda>_. True"] safe_check_int safe_cret safe_cwhen safe_mismatch) (use assms in simp_all)

lemma name: "scopes_ok scs \<Longrightarrow> safe t G (check_name scs off nm) wf_type"
  unfolding check_name_def
  by (intro safe_cbind [OF safe_scope_binding] safe_option safe_cret safe_cbind [OF safe_module_const] const_type safe_cbind [OF safe_imported_module]
      safe_if safe_fails) auto

lemma expected_kindD: "expected_kind y k \<Longrightarrow> \<exists>z. y = Some z \<and> type_kind z = k"
  by (cases y) (auto simp: expected_kind_def)

lemma lift_expected: "expected_kind y k \<Longrightarrow> opt_all wf_type y \<Longrightarrow> safe t G (clift y) (\<lambda>z. y = Some z \<and> wf_type z \<and> type_kind z = k)"
  by (auto intro!: safe_clift dest: expected_kindD)

lemma ok_expr:
  assumes "wf_expr e" and "opt_all wf_type expected" and "scopes_ok scs" and "t \<longrightarrow> fe G e"
  shows "safe t G (check_ok R scs off e expected) wf_type"
  unfolding check_ok_def
  by (intro safe_if safe_cbind [OF lift_expected] bind_expr safe_cbind [where P = wf_type] safe_inner_type safe_cseq [where P = "\<lambda>_. True"]
      safe_cwhen safe_mismatch safe_cret) (use assms in \<open>auto simp: cn_make_temp_type_def has_inner_def dest: wf_inner_all\<close>)

lemma alloc: "wf_type y \<Longrightarrow> t \<longrightarrow> ft G y \<Longrightarrow> safe t G (check_alloc R off y) wf_type"
  unfolding check_alloc_def by (intro safe_cbind [OF ty] safe_prod safe_cret) (auto simp: cn_make_temp_type_def)

lemma expression_hint:
  assumes "wf_expr e" and "opt_all wf_type expected" and "scopes_ok scs" and "t \<longrightarrow> expr_passes (fe G) (ft G) (fv G) e"
  shows "safe t G (cn_check_expression_hint R scs e expected) wf_type"
proof -
  have expected: "safe t G (clift expected) wf_type" if "expected_kind expected k" for k
    by (rule safe_conseq [OF lift_expected [OF that assms(2)]]) simp
  show ?thesis
  proof (cases e)
    case (CN_EXPR_DEREF off x)
    then show ?thesis unfolding cn_check_expression_hint_def CN_EXPR_DEREF cn_expr.case
      by (intro bind_expr safe_if safe_fails safe_inner_type) (use assms CN_EXPR_DEREF in \<open>auto simp: has_inner_def\<close>)
  next
    case (CN_EXPR_ERR off)
    then show ?thesis unfolding cn_check_expression_hint_def by (auto intro!: expected safe_fails)
  next
    case (CN_EXPR_NULL off)
    then show ?thesis unfolding cn_check_expression_hint_def by (auto intro!: expected safe_cret)
  next
    case (CN_EXPR_INT off v)
    then show ?thesis unfolding cn_check_expression_hint_def by (auto intro!: safe_cseq [where P = "\<lambda>_. True"] safe_cwhen safe_cerror safe_cret)
  next
    case (CN_EXPR_ZALLOC off y)
    then show ?thesis unfolding cn_check_expression_hint_def using assms
      by (auto intro!: safe_cseq [where P = "\<lambda>_. True"] safe_cwhen safe_cerror alloc)
  qed (use assms in \<open>simp_all add: cn_check_expression_hint_def safe_cret unary binary name if_expression call array_literal index slice_view
      field_access struct_literal ok_expr alloc address_of\<close>)
qed

section \<open>Constants\<close>

lemma eval_const:
  assumes "opt_all (valid_const (fr_project G)) r" and "t \<longrightarrow> opt_all (reads_const fv fd G) r"
  shows "safe t G (eval_const R r) (\<lambda>_. True)"
  unfolding eval_const_def
proof (intro safe_option safe_cret TrueI)
  fix r' assume r: "r = Some r'"
  with assms(1) have v: "valid_const (fr_project G) r'" by simp
  show "safe t G (cbind (ck_const_decl R r') (\<lambda>ok. if \<not> ok then cret None else cbind (const_at r') (\<lambda>d.
      if \<not> cn_type_is_integer_like (cd_type d) then cret None else ck_eval R (Some (fst r')) (cd_initializer d)))) (\<lambda>_. True)"
  proof (intro safe_cbind [OF const_decl [OF v]] safe_if safe_cret safe_cbind [OF safe_const_at [OF v]])
    fix d :: cn_const_decl assume d: "const_of_frame G r' d"
    then have "cd_initializer d = const_init (fr_project G) r'" unfolding const_of_frame_def const_init_def by (metis erase_simps(3))
    then show "safe t G (ck_eval R (Some (fst r')) (cd_initializer d)) (\<lambda>_. True)"
      using assms(2) d v r by (intro eval) (auto simp: const_of_frame_def reads_const_def valid_decl_in_module)
  qed (use assms(2) r in \<open>auto simp: reads_const_def\<close>)
qed

lemma eval_binary: "safe t G (eval_binary bop l r) (\<lambda>_. True)"
  unfolding eval_binary_def by (cases bop) (auto intro!: safe_cret safe_cbind [OF safe_cdefined])

lemma eval_switch:
  assumes "wf_expr e" and "t \<longrightarrow> eval_passes fv fd G e" and "frame_ok G"
  shows "safe t G (eval_switch R (Some (fr_module G)) e) (\<lambda>_. True)"
proof -
  note fits = assms(2) [unfolded eval_passes_def named_consts_def]
  have same: "in_module G (fr_module G) = G" by simp
  have sub: "safe t G (ck_eval R (Some (fr_module G)) x) (\<lambda>_. True)" if "wf_expr x" "t \<longrightarrow> fv G x" for x
    using eval [OF that(1) frame_valid_module [OF assms(3)], of t] that(2) same by simp
  show ?thesis
  proof (cases e)
    case (CN_EXPR_NAME off nm)
    then show ?thesis unfolding eval_switch_def CN_EXPR_NAME cn_expr.case
      by (intro safe_cbind [OF safe_const_in_module [OF frame_valid_module [OF assms(3)]]] eval_const)
        (use fits CN_EXPR_NAME in \<open>auto simp: opt_all_def split: option.split\<close>)
  next
    case (CN_EXPR_FIELD off base f)
    then show ?thesis unfolding eval_switch_def CN_EXPR_FIELD cn_expr.case
      by (intro safe_option safe_cret safe_cbind [OF safe_source_const] eval_const)
        (use fits CN_EXPR_FIELD in \<open>auto simp: opt_all_def split: option.split\<close>)
  next
    case (CN_EXPR_UNARY off uop x)
    then show ?thesis unfolding eval_switch_def CN_EXPR_UNARY cn_expr.case
      by (intro safe_if safe_cret safe_cbind [OF sub] safe_option safe_cbind [OF safe_cdefined]) (use fits assms CN_EXPR_UNARY in auto)
  next
    case (CN_EXPR_BINARY off bop l r)
    then show ?thesis unfolding eval_switch_def CN_EXPR_BINARY cn_expr.case
      by (intro safe_if safe_cret safe_cbind [OF sub] safe_option eval_binary) (use fits assms CN_EXPR_BINARY in auto)
  qed (simp_all add: eval_switch_def safe_cret)
qed

lemma eval_in_module:
  assumes "wf_expr e" and "valid_module (fr_project G) m" and "t \<longrightarrow> eval_passes fv fd (in_module G m) e"
  shows "safe t G (cn_eval_const_int_expr_in_module R (Some m) e) (\<lambda>_. True)"
proof (rule safe_frame)
  assume G: "frame_ok G"
  have "frame_ok (in_module G m)" using G assms(2) by (simp add: frame_ok_def)
  from eval_switch [OF assms(1,3) this] have switch: "safe t (in_module G m) (eval_switch R (Some m) e) (\<lambda>_. True)" by simp
  show ?thesis unfolding cn_eval_const_int_expr_in_module_def moves_safe [symmetric]
  proof (rule stays_cbind [OF safe_cur_module])
    fix p assume p: "p = Some (fr_module G)"
    show "moves t G G (cseq (set_module (Some m)) (cbind (eval_switch R (Some m) e) (\<lambda>v. cseq (set_module p) (cret v)))) (\<lambda>_. True)"
      unfolding p by (intro moves_cseq [OF moves_set_module [OF assms(2)]] stays_cbind [OF switch] moves_cseq [OF moves_back [OF frame_valid_module [OF G]]])
        (simp add: moves_safe safe_cret)
  qed
qed

text \<open>Initializers.\<close>

lemma const_named: "opt_all (valid_const (fr_project G)) r \<Longrightarrow> t \<longrightarrow> opt_all (fd G) r \<Longrightarrow> safe t G m (\<lambda>_. True) \<Longrightarrow>
    safe t G (case r of None \<Rightarrow> m | Some r \<Rightarrow> ck_const_decl R r) (\<lambda>_. True)"
  by (auto intro!: const_decl split: option.split)

lemma no_memory: "safe t G (no_memory off) (\<lambda>_. True)"
  unfolding no_memory_def by (intro safe_cseq [OF safe_cerror] safe_cret) simp_all

lemma check_const_expr:
  assumes "wf_expr e" and "t \<longrightarrow> const_expr_passes fc fd G e"
  shows "safe t G (cn_check_const_expr R e) (\<lambda>_. True)"
proof (rule safe_frame)
  assume G: "frame_ok G"
  note fits = assms(2) [unfolded const_expr_passes_def named_consts_def]
  show ?thesis
  proof (cases e)
    case (CN_EXPR_NAME off nm)
    then show ?thesis unfolding cn_check_const_expr_def CN_EXPR_NAME cn_expr.case
    proof (intro safe_cbind [OF safe_cur_module])
      fix m assume m: "m = Some (fr_module G)"
      show "safe t G (cbind (csema (\<lambda>prj. cn_resolve_const_in_module prj m nm)) (\<lambda>r. case r of
           None \<Rightarrow> cseq (cerror ''E3025'' off (''module-level constant initializers can only use other constants, got '' @ quoted nm)) (cret False)
         | Some r \<Rightarrow> ck_const_decl R r)) (\<lambda>_. True)"
        unfolding m by (intro safe_cbind [OF safe_const_in_module [OF frame_valid_module [OF G]]] const_named safe_cseq [OF safe_cerror] safe_cret)
          (use fits CN_EXPR_NAME in \<open>auto simp: opt_all_def split: option.split\<close>)
    qed
  next
    case (CN_EXPR_FIELD off base f)
    then show ?thesis unfolding cn_check_const_expr_def CN_EXPR_FIELD cn_expr.case
      by (intro safe_option safe_cbind [OF safe_source_const] const_named const_expr)
        (use fits assms CN_EXPR_FIELD in \<open>auto simp: opt_all_def split: option.split\<close>)
  next
    case (CN_EXPR_STRUCT_LITERAL off mn nm inits)
    have "wf_expr (field_init_value fi)" if "fi \<in> set inits" for fi
      by (cases fi) (use that assms(1) CN_EXPR_STRUCT_LITERAL in \<open>auto simp: list_all_iff\<close>)
    then show ?thesis using fits assms CN_EXPR_STRUCT_LITERAL by (auto simp: cn_check_const_expr_def list_all_iff intro!: safe_every const_expr)
  next
    case (CN_EXPR_CALL off f xs)
    then show ?thesis by (auto simp: cn_check_const_expr_def intro!: safe_cseq [OF safe_cerror] safe_cret)
  qed (use fits assms in \<open>auto simp: cn_check_const_expr_def list_all_iff intro!: safe_cret no_memory safe_cand safe_every safe_copt const_expr\<close>)
qed

text \<open>Declarations.\<close>

lemma check_const_decl:
  assumes v: "valid_const (fr_project G) r" and fits: "t \<longrightarrow> const_decl_passes fe ft fc G r"
  shows "safe t G (cn_check_const_decl R r) (\<lambda>_. True)"
proof (rule safe_frame)
  assume G: "frame_ok G"
  let ?H = "in_module G (fst r)"
  show ?thesis unfolding cn_check_const_decl_def
  proof (rule safe_cbind [OF safe_cur_module], rule safe_cbind [OF safe_const_at [OF v]], intro safe_if safe_cret TrueI)
    fix d :: cn_const_decl assume d: "const_of_frame G r d"
    show "safe t G (cbind (module_at (fst r)) (\<lambda>md. cseq (cerror ''E3026'' (cd_offset d)
        (''cyclic constant definition involving '' @ quoted (mo_name md @ ''.'' @ cd_name d))) (cret False))) (\<lambda>_. True)"
      by (intro safe_cbind [OF safe_module_at [OF valid_decl_module [OF v]]] safe_cseq [OF safe_cerror] safe_cret) simp_all
  next
    fix p and d :: cn_const_decl assume p: "p = Some (fr_module G)" and d: "const_of_frame G r d"
    have i: "cd_initializer d = const_init (fr_project G) r" "erase_type (cd_type d) = cd_type (decl_of pr_consts (fr_project G) r)"
      using d unfolding const_of_frame_def const_init_def by (metis erase_simps(3,4))+
    have fit: "t \<longrightarrow> ft ?H (cd_type d)" "t \<longrightarrow> fc ?H (cd_initializer d)" "t \<longrightarrow> fe ?H (cd_initializer d)"
      using fits i by (simp_all add: const_decl_passes_def Let_def)
    have wf: "wf_type (cd_type d)" "wf_expr (cd_initializer d)" using d by (simp_all add: const_of_frame_def)
    have mark: "safe t ?H (update_const r (\<lambda>d. d\<lparr>cd_sema_checking := True\<rparr>)) (\<lambda>_. True)"
      "safe t ?H (update_const r (\<lambda>d. d\<lparr>cd_sema_checking := False, cd_sema_checked := True\<rparr>)) (\<lambda>_. True)"
      by (rule safe_update_const; simp add: erase_const_def)+
    have store: "safe t ?H (update_const r (\<lambda>d. d\<lparr>cd_type := y\<rparr>)) (\<lambda>_. True)" if "erase_type y = erase_type (cd_type d)" for y
      by (rule safe_update_const) (use that i(2) in \<open>simp add: erase_const_def, metis erase_simps(4) erase_const_def\<close>)
    show "safe t G (cseq (set_module (Some (fst r))) (
       cseq (update_const r (\<lambda>d. d\<lparr>cd_sema_checking := True\<rparr>)) (
       cbind (ck_type R (cd_type d) (cd_offset d)) (\<lambda>(type_valid, t).
       cseq (update_const r (\<lambda>d. d\<lparr>cd_type := t\<rparr>)) (
       cseq (check_exported (cd_is_public d) type_valid (cd_offset d) ''constant'' (cd_name d) t) (
       cseq (ck_const_expr R (cd_initializer d)) (
       cbind (ck_expr R [] (cd_initializer d) (Some t)) (\<lambda>initializer_type.
       cseq (cwhen (\<not> same_type t initializer_type)
         (cn_emit_type_mismatch (cd_offset d) ''constant initializer type mismatch'' t initializer_type)) (
       cseq (update_const r (\<lambda>d. d\<lparr>cd_sema_checking := False, cd_sema_checked := True\<rparr>)) (
       cseq (set_module p) ok_so_far)))))))))) (\<lambda>_. True)"
      unfolding moves_safe [symmetric] p
    proof (rule moves_cseq [OF moves_set_module [OF valid_decl_in_module [OF v]]], rule stays_cseq [OF mark(1)], rule stays_cbind [OF ty [OF wf(1) fit(1)]])
      fix vy :: "bool \<times> cn_type_ref" assume vy: "wf_type (snd vy) \<and> erase_type (snd vy) = erase_type (cd_type d)"
      obtain tv y where [simp]: "vy = (tv, y)" by (cases vy)
      have y: "wf_type y" "erase_type y = erase_type (cd_type d)" using vy by simp_all
      show "moves t ?H G (case vy of (type_valid, t) \<Rightarrow>
       cseq (update_const r (\<lambda>d. d\<lparr>cd_type := t\<rparr>)) (
       cseq (check_exported (cd_is_public d) type_valid (cd_offset d) ''constant'' (cd_name d) t) (
       cseq (ck_const_expr R (cd_initializer d)) (
       cbind (ck_expr R [] (cd_initializer d) (Some t)) (\<lambda>initializer_type.
       cseq (cwhen (\<not> same_type t initializer_type)
         (cn_emit_type_mismatch (cd_offset d) ''constant initializer type mismatch'' t initializer_type)) (
       cseq (update_const r (\<lambda>d. d\<lparr>cd_sema_checking := False, cd_sema_checked := True\<rparr>)) (
       cseq (set_module (Some (fr_module G))) ok_so_far))))))) (\<lambda>_. True)"
        unfolding \<open>vy = (tv, y)\<close> prod.case
        by (intro stays_cseq [OF store [OF y(2)]] stays_cseq [OF check_exported_safe] stays_cseq [OF const_expr [OF wf(2) fit(2)]]
            stays_cbind [OF expr_any [OF wf(2) _ _ fit(3)]] stays_cseq [where P = "\<lambda>_. True"] safe_cwhen safe_mismatch mark(2)
            moves_cseq [OF moves_back [OF frame_valid_module [OF G]]])
          (simp_all add: y scopes_ok_def moves_safe safe_ok_so_far)
    qed
  qed
qed

end

end
