(* ===== verification/Sema_Fuel.thy ===== *)
theory Sema_Fuel
  imports Sema_Knot
begin

text \<open>
  The knot of the checker. With any fuel the mutually recursive functions keep their contracts; and if the
  constants of the project are ranked, each one naming only constants of lower
  rank in its type and initializer, then a fuel that follows from the ranks and the sizes of the trees is enough.
\<close>

section \<open>The constants that a tree names\<close>

fun consts_type :: "(nat \<times> nat \<Rightarrow> bool) \<Rightarrow> cn_project \<Rightarrow> nat \<Rightarrow> cn_type_ref \<Rightarrow> bool"
and consts_expr :: "(nat \<times> nat \<Rightarrow> bool) \<Rightarrow> cn_project \<Rightarrow> nat \<Rightarrow> cn_expr \<Rightarrow> bool"
and consts_init :: "(nat \<times> nat \<Rightarrow> bool) \<Rightarrow> cn_project \<Rightarrow> nat \<Rightarrow> cn_field_init \<Rightarrow> bool" where
  "consts_type D K c (CnType k mn nm inner se n off) \<longleftrightarrow> opt_all (consts_type D K c) inner \<and> opt_all (consts_expr D K c) se"
| "consts_expr D K c (CN_EXPR_NAME off nm) \<longleftrightarrow> opt_all D (const_in K c nm)"
| "consts_expr D K c (CN_EXPR_UNARY off uop x) \<longleftrightarrow> consts_expr D K c x"
| "consts_expr D K c (CN_EXPR_BINARY off bop l r) \<longleftrightarrow> consts_expr D K c l \<and> consts_expr D K c r"
| "consts_expr D K c (CN_EXPR_IF off b t e) \<longleftrightarrow> consts_expr D K c b \<and> consts_expr D K c t \<and> consts_expr D K c e"
| "consts_expr D K c (CN_EXPR_CALL off f xs) \<longleftrightarrow> list_all (consts_expr D K c) xs"
| "consts_expr D K c (CN_EXPR_ARRAY_LITERAL off xs rc n) \<longleftrightarrow> list_all (consts_expr D K c) xs \<and> opt_all (consts_expr D K c) rc"
| "consts_expr D K c (CN_EXPR_INDEX off b i) \<longleftrightarrow> consts_expr D K c b \<and> consts_expr D K c i"
| "consts_expr D K c (CN_EXPR_SLICE_VIEW off b s e) \<longleftrightarrow> consts_expr D K c b \<and> opt_all (consts_expr D K c) s \<and> opt_all (consts_expr D K c) e"
| "consts_expr D K c (CN_EXPR_FIELD off b f) \<longleftrightarrow> consts_expr D K c b
     \<and> (case expr_name b of None \<Rightarrow> True | Some nm \<Rightarrow> opt_all D (source_const_in K c nm f))"
| "consts_expr D K c (CN_EXPR_STRUCT_LITERAL off m n fs) \<longleftrightarrow> list_all (consts_init D K c) fs"
| "consts_expr D K c (CN_EXPR_OK off x) \<longleftrightarrow> consts_expr D K c x"
| "consts_expr D K c (CN_EXPR_ALLOC off t) \<longleftrightarrow> consts_type D K c t"
| "consts_expr D K c (CN_EXPR_ZALLOC off t) \<longleftrightarrow> consts_type D K c t"
| "consts_expr D K c (CN_EXPR_ADDR off x) \<longleftrightarrow> consts_expr D K c x"
| "consts_expr D K c (CN_EXPR_DEREF off x) \<longleftrightarrow> consts_expr D K c x"
| "consts_expr D K c e \<longleftrightarrow> True"
| "consts_init D K c (CnFieldInit nm e off) \<longleftrightarrow> consts_expr D K c e"

lemma consts_mono:
  "(\<And>r. D r \<Longrightarrow> D' r) \<Longrightarrow> consts_type D K c y \<Longrightarrow> consts_type D' K c y"
  "(\<And>r. D r \<Longrightarrow> D' r) \<Longrightarrow> consts_expr D K c e \<Longrightarrow> consts_expr D' K c e"
  "(\<And>r. D r \<Longrightarrow> D' r) \<Longrightarrow> consts_init D K c i \<Longrightarrow> consts_init D' K c i"
  by (induction D K c y and D K c e and D K c i rule: consts_type_consts_expr_consts_init.induct)
    (auto simp: list_all_iff opt_all_def split: option.splits)

lemma consts_erase: "consts_type D K c (erase_type y) \<longleftrightarrow> consts_type D K c y"
  by (induction y rule: erase_type.induct) (auto split: option.splits)

lemma size_erase_type [simp]: "size (erase_type y) = size y"
  by (induction y rule: erase_type.induct) (auto split: option.splits)

section \<open>Ranks\<close>

definition ranked :: "(nat \<times> nat \<Rightarrow> nat) \<Rightarrow> nat \<Rightarrow> cn_project \<Rightarrow> bool" where
  "ranked rk w K \<longleftrightarrow> 2 \<le> w \<and> (\<forall>r. valid_const K r \<longrightarrow> (let d = decl_of pr_consts K r; D = (\<lambda>r'. rk r' < rk r) in
     consts_type D K (fst r) (cd_type d) \<and> consts_expr D K (fst r) (cd_initializer d)
     \<and> size (cd_type d) + 2 \<le> w \<and> size (cd_initializer d) + 2 \<le> w))"

definition cost :: "(nat \<times> nat \<Rightarrow> nat) \<Rightarrow> nat \<Rightarrow> nat \<times> nat \<Rightarrow> nat" where
  "cost rk w r = w * Suc (rk r)"

definition expr_fits :: "(nat \<times> nat \<Rightarrow> nat) \<Rightarrow> nat \<Rightarrow> nat \<Rightarrow> frame \<Rightarrow> cn_expr \<Rightarrow> bool" where
  "expr_fits rk w n G e \<longleftrightarrow> ranked rk w (fr_project G) \<and> (\<exists>b. consts_expr (\<lambda>r. cost rk w r \<le> b) (fr_project G) (fr_module G) e \<and> size e + b < n)"

definition type_fits :: "(nat \<times> nat \<Rightarrow> nat) \<Rightarrow> nat \<Rightarrow> nat \<Rightarrow> frame \<Rightarrow> cn_type_ref \<Rightarrow> bool" where
  "type_fits rk w n G y \<longleftrightarrow> ranked rk w (fr_project G) \<and> (\<exists>b. consts_type (\<lambda>r. cost rk w r \<le> b) (fr_project G) (fr_module G) y \<and> size y + b < n)"

definition const_fits :: "(nat \<times> nat \<Rightarrow> nat) \<Rightarrow> nat \<Rightarrow> nat \<Rightarrow> frame \<Rightarrow> nat \<times> nat \<Rightarrow> bool" where
  "const_fits rk w n G r \<longleftrightarrow> ranked rk w (fr_project G) \<and> valid_const (fr_project G) r \<and> cost rk w r \<le> n"

lemma expr_fitsI: "ranked rk w (fr_project G) \<Longrightarrow> consts_expr (\<lambda>r. cost rk w r \<le> b) (fr_project G) (fr_module G) e \<Longrightarrow> size e + b < n \<Longrightarrow> expr_fits rk w n G e"
  by (auto simp: expr_fits_def)

lemma type_fitsI: "ranked rk w (fr_project G) \<Longrightarrow> consts_type (\<lambda>r. cost rk w r \<le> b) (fr_project G) (fr_module G) y \<Longrightarrow> size y + b < n \<Longrightarrow> type_fits rk w n G y"
  by (auto simp: type_fits_def)

lemma expr_fits_passes:
  assumes "expr_fits rk w (Suc n) G e"
  shows "expr_passes (expr_fits rk w n G) (type_fits rk w n G) (expr_fits rk w n G) e"
proof -
  obtain b where r: "ranked rk w (fr_project G)" and c: "consts_expr (\<lambda>r. cost rk w r \<le> b) (fr_project G) (fr_module G) e"
    and n: "size e + b < Suc n" using assms by (auto simp: expr_fits_def)
  note I = expr_fitsI [OF r, where b = b] type_fitsI [OF r, where b = b]
  show ?thesis
  proof (cases e)
    case (CN_EXPR_ARRAY_LITERAL off xs rc k)
    have "size x \<le> size_list size xs" if "x \<in> set xs" for x using item_smaller [OF that, of 0] by simp
    with c n show ?thesis unfolding CN_EXPR_ARRAY_LITERAL
      by (cases rc) (fastforce simp: list_all_iff intro!: I)+
  next
    case (CN_EXPR_CALL off f xs)
    have "size x \<le> size_list size xs" if "x \<in> set xs" for x using item_smaller [OF that, of 0] by simp
    with c n show ?thesis unfolding CN_EXPR_CALL by (fastforce simp: list_all_iff intro!: I)
  next
    case (CN_EXPR_STRUCT_LITERAL off mn nm fs)
    have "expr_fits rk w n G (field_init_value fi)" if "fi \<in> set fs" for fi
    proof (rule I(1))
      show "consts_expr (\<lambda>r. cost rk w r \<le> b) (fr_project G) (fr_module G) (field_init_value fi)"
        by (cases fi) (use c that CN_EXPR_STRUCT_LITERAL in \<open>auto simp: list_all_iff\<close>)
      show "size (field_init_value fi) + b < n" using field_init_smaller [OF that] n CN_EXPR_STRUCT_LITERAL by simp
    qed
    then show ?thesis using CN_EXPR_STRUCT_LITERAL by (simp add: list_all_iff)
  next
    case (CN_EXPR_SLICE_VIEW off bs st en)
    with c n show ?thesis by (cases st; cases en) (auto intro!: I)
  qed (use c n in \<open>auto intro!: I\<close>)
qed

lemma type_fits_passes:
  assumes "type_fits rk w (Suc n) G y"
  shows "type_passes (expr_fits rk w n G) (type_fits rk w n G) (expr_fits rk w n G) y"
proof -
  obtain k mn nm inner se m off where y: "y = CnType k mn nm inner se m off" by (cases y)
  show ?thesis using assms unfolding type_fits_def y type_passes_def
    by (cases inner; cases se) (auto intro: expr_fitsI type_fitsI)
qed

lemma ranked_const:
  assumes "ranked rk w (fr_project G)" and "valid_const (fr_project G) r" and "cost rk w r \<le> Suc n"
  shows "expr_fits rk w n (in_module G (fst r)) (const_init (fr_project G) r)"
    and "erase_type y = cd_type (decl_of pr_consts (fr_project G) r) \<Longrightarrow> type_fits rk w n (in_module G (fst r)) y"
proof -
  let ?d = "decl_of pr_consts (fr_project G) r" and ?D = "\<lambda>r'. rk r' < rk r"
  have rr: "consts_type ?D (fr_project G) (fst r) (cd_type ?d)" "consts_expr ?D (fr_project G) (fst r) (cd_initializer ?d)"
    "size (cd_type ?d) + 2 \<le> w" "size (cd_initializer ?d) + 2 \<le> w"
    using assms(1) [unfolded ranked_def Let_def] assms(2) by (simp_all del: split_paired_All)
  have low: "cost rk w r' \<le> w * rk r" if "rk r' < rk r" for r' unfolding cost_def using that by (intro mult_le_mono2) simp
  have n: "w + w * rk r \<le> Suc n" using assms(3) by (simp add: cost_def)
  show "expr_fits rk w n (in_module G (fst r)) (const_init (fr_project G) r)"
    by (rule expr_fitsI [where b = "w * rk r"]) (use assms(1) rr(4) n consts_mono(2) [OF low rr(2)] in \<open>simp_all add: const_init_def\<close>)
  assume y: "erase_type y = cd_type ?d"
  have c: "consts_type ?D (fr_project G) (fst r) y" and z: "size y + 2 \<le> w" using rr(1,3) unfolding y [symmetric] by (simp_all add: consts_erase)
  show "type_fits rk w n (in_module G (fst r)) y"
    by (rule type_fitsI [where b = "w * rk r"]) (use assms(1) z n consts_mono(1) [OF low c] in simp_all)
qed

lemma named_const_fits:
  assumes "expr_fits rk w (Suc n) G e" and "r \<in> named_consts (fr_project G) (fr_module G) e"
  shows "const_fits rk w n G r"
proof -
  obtain b where rk: "ranked rk w (fr_project G)" and c: "consts_expr (\<lambda>r. cost rk w r \<le> b) (fr_project G) (fr_module G) e"
    and n: "b \<le> n" using assms(1) by (auto simp: expr_fits_def)
  have "valid_const (fr_project G) r \<and> cost rk w r \<le> b"
  proof (cases e)
    case (CN_EXPR_NAME off nm)
    then have "const_in (fr_project G) (fr_module G) nm = Some r" using assms(2) by (simp add: named_consts_def)
    then show ?thesis using c CN_EXPR_NAME const_in_valid [of "fr_project G" "fr_module G" nm] by simp
  next
    case (CN_EXPR_FIELD off base f)
    then obtain nm where "expr_name base = Some nm" "source_const_in (fr_project G) (fr_module G) nm f = Some r"
      using assms(2) by (auto simp: named_consts_def split: option.splits)
    then show ?thesis using c CN_EXPR_FIELD source_const_in_valid [of "fr_project G" "fr_module G" nm f] by simp
  qed (use assms(2) in \<open>simp_all add: named_consts_def\<close>)
  with rk n show ?thesis by (simp add: const_fits_def)
qed

lemma expr_fits_eval:
  assumes "expr_fits rk w (Suc n) G e"
  shows "eval_passes (expr_fits rk w n) (const_fits rk w n) G e"
  unfolding eval_passes_def reads_const_def
proof (intro conjI ballI)
  fix r assume "r \<in> named_consts (fr_project G) (fr_module G) e"
  from named_const_fits [OF assms this] show f: "const_fits rk w n G r" .
  then show "expr_fits rk w n (in_module G (fst r)) (const_init (fr_project G) r)" by (auto simp: const_fits_def intro: ranked_const(1))
qed (use expr_fits_passes [OF assms] in \<open>auto split: cn_expr.split\<close>)

lemma expr_fits_const:
  "expr_fits rk w (Suc n) G e \<Longrightarrow> const_expr_passes (expr_fits rk w n) (const_fits rk w n) G e"
  unfolding const_expr_passes_def using expr_fits_passes [of rk w n G e] named_const_fits [of rk w n G e]
  by (cases e) (auto simp: opt_all_def split: option.split)

lemma const_fits_passes:
  assumes "const_fits rk w (Suc n) G r"
  shows "const_decl_passes (expr_fits rk w n) (type_fits rk w n) (expr_fits rk w n) G r"
proof -
  have r: "ranked rk w (fr_project G)" "valid_const (fr_project G) r" "cost rk w r \<le> Suc n" using assms by (simp_all add: const_fits_def)
  show ?thesis unfolding const_decl_passes_def Let_def using ranked_const [OF r] by simp
qed

section \<open>The knot\<close>

lemma checkers_sound: "sound_checkers (checkers_of n) (expr_fits rk w n) (type_fits rk w n) (expr_fits rk w n) (expr_fits rk w n) (const_fits rk w n)"
proof (induction n)
  case 0
  have "\<not> expr_fits rk w 0 G e" "\<not> type_fits rk w 0 G y" "\<not> const_fits rk w 0 G r" for G e y r
    by (auto simp: expr_fits_def type_fits_def const_fits_def cost_def ranked_def)
  then show ?case by unfold_locales (auto intro!: safe_cfuel)
next
  case (Suc n)
  note rules = expr_fits_passes type_fits_passes expr_fits_eval expr_fits_const const_fits_passes
  show ?case
    by unfold_locales (auto simp: Let_def intro!: sound_checkers.expression_hint [OF Suc] sound_checkers.validate [OF Suc]
        sound_checkers.eval_in_module [OF Suc] sound_checkers.check_const_expr [OF Suc] sound_checkers.check_const_decl [OF Suc] rules)
qed

interpretation sema: sound_checkers "checkers_of n" "expr_fits rk w n" "type_fits rk w n" "expr_fits rk w n" "expr_fits rk w n" "const_fits rk w n" for n rk w
  by (rule checkers_sound)

end
