(* ===== verification/Sema_Decls.thy ===== *)
theory Sema_Decls
  imports Sema_Fuel
begin

text \<open>
  The contracts of statements and declarations: a statement gives back as many scopes as it
  takes, all well formed, and a declaration only writes what the frame does not see.
\<close>

section \<open>Scopes\<close>

definition scoped :: "nat \<Rightarrow> scopes \<Rightarrow> bool" where
  "scoped n scs \<longleftrightarrow> scopes_ok scs \<and> length scs = n \<and> 0 < n"

lemma scopedD: "scoped n scs \<Longrightarrow> scopes_ok scs"
  by (simp add: scoped_def)

lemma scoped_enter [simp]: "scoped n scs \<Longrightarrow> scoped (Suc n) (enter_scope d scs)"
  using enter_scope_ok [of scs d] by (auto simp: scoped_def enter_scope_def)

lemma scoped_start: "scoped 1 (enter_scope d [])"
  using enter_scope_ok [of "[]" d] by (simp add: scoped_def enter_scope_def scopes_ok_def)

lemma scoped_release: "scoped (Suc n) scs \<Longrightarrow> 0 < n \<Longrightarrow> scoped n (cn_scope_release scs)"
  by (cases scs) (auto simp: scoped_def cn_scope_release_def scopes_ok_def)

lemma scope_ok_map:
  assumes "\<And>b. bd_id (g b) = bd_id b" and "\<And>b. bd_type (g b) = bd_type b" and "scope_ok sc"
  shows "scope_ok (sc\<lparr>so_bindings := map g (so_bindings sc)\<rparr>)"
proof -
  have "bd_id ` g ` A = bd_id ` A" for A unfolding image_image by (simp add: assms)
  with assms show ?thesis by (simp add: scope_ok_def)
qed

lemma scopes_ok_update:
  assumes "\<And>b. bd_id (f b) = bd_id b" and "\<And>b. bd_type (f b) = bd_type b"
  shows "scopes_ok scs \<Longrightarrow> scopes_ok (update_binding i f scs)"
  by (auto simp: scopes_ok_def update_binding_def assms intro!: scope_ok_map)

lemma scopes_ok_invalidate: "scopes_ok scs \<Longrightarrow> scopes_ok (cn_scope_invalidate_result_proofs i scs)"
proof -
  have "scope_ok (sc\<lparr>so_result_guards := g, so_bindings := map (\<lambda>b. if cn_result_proof_depends_on_binding i (bd_result_guard_proof b)
      then b\<lparr>bd_result_guard_proof := None\<rparr> else b) (so_bindings sc)\<rparr>)" if "scope_ok sc" for sc g
    using scope_ok_map [where sc = "sc\<lparr>so_result_guards := g\<rparr>"] that by simp
  then show "scopes_ok scs \<Longrightarrow> scopes_ok (cn_scope_invalidate_result_proofs i scs)"
    by (auto simp: scopes_ok_def cn_scope_invalidate_result_proofs_def)
qed

lemma scoped_update: "(\<And>b. bd_id (f b) = bd_id b) \<Longrightarrow> (\<And>b. bd_type (f b) = bd_type b) \<Longrightarrow> scoped n scs \<Longrightarrow> scoped n (update_binding i f scs)"
  using scopes_ok_update [of f scs i] by (simp add: scoped_def) (simp add: update_binding_def)

lemma scoped_invalidate: "scoped n scs \<Longrightarrow> scoped n (cn_scope_invalidate_result_proofs i scs)"
  using scopes_ok_invalidate [of scs i] by (simp add: scoped_def) (simp add: cn_scope_invalidate_result_proofs_def)

lemma mark_length [simp]: "length (cn_scope_mark_result_ok i scs) = length scs"
  by (simp add: cn_scope_mark_result_ok_def split: list.split)

lemma mark_proof_length [simp]: "length (cn_mark_result_ok_proof_for_branch p b scs) = length scs"
  by (induction p b scs rule: cn_mark_result_ok_proof_for_branch.induct) auto

lemma scoped_mark: "scoped n scs \<Longrightarrow> scoped n (cn_scope_mark_result_ok i scs)"
  by (simp add: scoped_def mark_ok)

lemma safe_mark_scoped:
  assumes "scopes_ok analysis" and "scoped n target"
  shows "safe t G (cn_mark_result_ok_proofs_for_branch analysis e b target) (scoped n)"
  unfolding cn_mark_result_ok_proofs_for_branch_def using build_proof_ok [OF assms(1), of e 0] assms(2)
  by (intro safe_cbind [where P = "\<lambda>_. True"] safe_clift) (auto intro!: safe_cret mark_proof_ok simp: scoped_def)

lemma safe_guard_scoped: "scoped n scs \<Longrightarrow> safe t G (guard_scope scs c b) (scoped (Suc n))"
  unfolding guard_scope_def by (intro safe_mark_scoped scoped_enter scopedD)

lemma safe_define:
  assumes "scoped n scs" and "wf_type y"
  shows "safe t G (cn_scope_define nm y m z off scs) (\<lambda>r. scoped n (snd r))"
proof -
  obtain sc rest where scs: "scs = sc # rest" using assms(1) by (cases scs) (auto simp: scoped_def)
  then have sc: "scope_ok sc" and rest: "scopes_ok rest" and n: "n = Suc (length rest)" using assms(1) by (simp_all add: scoped_def scopes_ok_def)
  have inv: "nm_invar (so_binding_map sc)" using sc by (simp add: scope_ok_def)
  obtain en where en: "cn_name_map_lookup_entry (so_binding_map sc) nm = Some en" using lookup_spec [OF inv] by blast
  have ins: "safe t G (clift (cn_name_map_insert (so_binding_map sc) nm (Some i) 0 True))
      (\<lambda>r. nm_invar (snd r) \<and> nm_map (snd r) = (nm_map (so_binding_map sc))(nm \<mapsto> (Some i, 0)))" for i
    by (rule names.ins_replace [OF inv, of nm "Some i" 0]) (auto intro!: safe_clift)
  have fresh: "scoped n (sc\<lparr>so_bindings := \<lparr>bd_id = i, bd_name = nm, bd_type = y, bd_is_mutable = m,
       bd_scope_zone_depth = so_zone_depth sc, bd_value_zone_depth = z, bd_result_guard_proof = None\<rparr> # so_bindings sc, so_binding_map := mp\<rparr> # rest)"
    if "nm_invar mp" "nm_map mp = (nm_map (so_binding_map sc))(nm \<mapsto> (Some i, 0))" for i mp
    using sc rest that assms(2) unfolding scoped_def n scopes_ok_def scope_ok_def by (auto split: if_splits) (metis rev_image_eqI)+
  have next_id: "safe t G (cput (\<lambda>s. s\<lparr>cx_next_binding := k\<rparr>)) (\<lambda>_. True)" for k by (rule safe_cput) (auto simp: ctx_ok_def)
  show ?thesis unfolding cn_scope_define_def scs list.case
    by (intro safe_cbind [where P = "\<lambda>_. True"] safe_clift safe_if safe_cseq [OF safe_cerror] safe_cret safe_cget
        safe_cseq [OF next_id] safe_cbind [OF ins] safe_prod)
      (use en fresh assms(1) scs in auto)
qed

lemma safe_define_scoped:
  "scoped n scs \<Longrightarrow> wf_type y \<Longrightarrow> (\<And>scs. scoped n scs \<Longrightarrow> safe t G (k scs) P) \<Longrightarrow>
   safe t G (cbind (cn_scope_define nm y m z off scs) (\<lambda>(_, scs). k scs)) P"
  by (rule safe_cbind [OF safe_define]) (auto intro!: safe_prod)

lemma safe_return_type:
  assumes "fr_function G \<noteq> None"
  shows "safe t G current_return_type wf_type"
proof (rule safe_frame)
  assume G: "frame_ok G"
  obtain r where r: "fr_function G = Some r" using assms by auto
  then have v: "valid_function (fr_project G) r" using G by (simp add: frame_ok_def)
  show ?thesis unfolding current_return_type_def
    by (intro safe_cbind [where P = "\<lambda>x. x = Some r"] safe_cget safe_cbind [where P = "\<lambda>x. x = r"] safe_clift
        safe_cbind [OF safe_function_at] safe_cret) (use r v in \<open>auto simp: ctx_ok_def function_of_frame_def\<close>)
qed

lemma safe_enter_block:
  "scoped n scs \<Longrightarrow> safe t G (enter_block scs cs g) (scoped (if cs \<or> g \<noteq> None then Suc n else n))"
  unfolding enter_block_def by (intro safe_option safe_cret safe_prod) (auto intro!: safe_guard_scoped)

lemma scoped_leave: "scoped (if cs \<or> g \<noteq> None then Suc n else n) scs \<Longrightarrow> 0 < n \<Longrightarrow> scoped n (leave_block cs g scs)"
  by (auto simp: leave_block_def intro: scoped_release split: if_splits)

section \<open>Statements\<close>

context sound_checkers
begin

lemma place_target:
  assumes "wf_expr e" and "scopes_ok scs" and "t \<longrightarrow> fe G e"
  shows "safe t G (check_place_target R scs e) (\<lambda>a. wf_type (at_type a))"
  unfolding check_place_target_def by (intro bind_expr safe_cbind [OF storage_depth_safe] safe_cret) (use assms in \<open>auto simp: no_target_def\<close>)

lemma assignment_target:
  assumes "wf_expr e" and "scopes_ok scs" and "t \<longrightarrow> fe G e"
  shows "safe t G (cn_check_assignment_target R scs e) (\<lambda>a. wf_type (at_type a))"
proof -
  have const: "safe t G (cseq (cerror ec off msg) (cbind (const_at r) (\<lambda>d. cret (no_target (cd_type d) 0)))) (\<lambda>a. wf_type (at_type a))"
    if "valid_const (fr_project G) r" for r ec off msg
    by (intro safe_cseq [OF safe_cerror] safe_cbind [OF safe_const_at [OF that]] safe_cret) (auto simp: no_target_def const_of_frame_def)
  have bad: "safe t G (cseq (cerror ec off msg) (cret (no_target unknown_type 0))) (\<lambda>a. wf_type (at_type a))" for ec off msg
    by (intro safe_cseq [OF safe_cerror] safe_cret) (simp_all add: no_target_def)
  show ?thesis
  proof (cases e)
    case (CN_EXPR_NAME off nm)
    show ?thesis unfolding cn_check_assignment_target_def CN_EXPR_NAME cn_expr.case
      by (intro safe_cbind [OF safe_scope_binding [OF assms(2)]] safe_option safe_cret safe_cbind [OF safe_module_const] const bad) auto
  next
    case (CN_EXPR_FIELD off base f)
    have place: "safe t G (check_place_target R scs (CN_EXPR_FIELD off base f)) (\<lambda>a. wf_type (at_type a))"
      using place_target [OF assms] CN_EXPR_FIELD by simp
    show ?thesis unfolding cn_check_assignment_target_def CN_EXPR_FIELD cn_expr.case
      by (intro safe_option safe_cbind [OF safe_source_const] const place) auto
  qed (use place_target [OF assms] bad in \<open>simp_all add: cn_check_assignment_target_def\<close>)
qed

lemma assign_binding:
  assumes "scoped n scs"
  shows "safe t G (assign_binding scs nm e d) (scoped n)"
  unfolding assign_binding_def Let_def
  by (intro safe_cbind [OF safe_scope_binding [OF scopedD [OF assms]]] safe_option safe_if safe_cret)
    (auto intro!: scoped_mark scoped_invalidate scoped_update assms)

lemma assign:
  assumes "wf_expr l" and "wf_expr e" and "scoped n scs" and "t \<longrightarrow> fe G l" and "t \<longrightarrow> fe G e"
  shows "safe t G (check_assign R scs off l e) (scoped n)"
proof -
  have ok: "scopes_ok scs" using assms(3) by (rule scopedD)
  have mutable: "safe t G (if at_requires_mutable_binding a then cbind (scope_binding scs (at_binding_name a)) (\<lambda>b.
         cwhen (case b of None \<Rightarrow> False | Some b \<Rightarrow> \<not> bd_is_mutable b)
           (cerror ''E3006'' off (''cannot assign to immutable binding '' @ quoted (at_binding_name a)))) else cret ()) (\<lambda>_. True)" for a
    by (intro safe_if safe_cret safe_cbind [OF safe_scope_binding [OF ok]] safe_cwhen safe_cerror) simp_all
  show ?thesis unfolding check_assign_def
    by (intro safe_cbind [OF assignment_target] safe_cseq [OF mutable] bind_expr safe_cbind [OF zone_depth_safe] safe_cseq [where P = "\<lambda>_. True"]
        safe_cwhen safe_mismatch safe_if safe_cerror safe_cret assign_binding) (use assms ok in simp_all)
qed

lemma let_stmt:
  assumes "wf_type y" and "wf_expr e" and "scoped n scs" and "t \<longrightarrow> ft G y" and "t \<longrightarrow> fe G e"
  shows "safe t G (check_let R scs off nm m y e) (scoped n)"
proof -
  have ok: "scopes_ok scs" using assms(3) by (rule scopedD)
  have proofs: "safe t G (cbind (scope_binding scs' nm) (\<lambda>b. case b of
         None \<Rightarrow> cret scs'
       | Some b \<Rightarrow> cbind (clift (cn_build_result_proof e scs' 0)) (\<lambda>p.
           cret (update_binding (bd_id b) (\<lambda>b. b\<lparr>bd_result_guard_proof := p\<rparr>) scs')))) (scoped n)" if "scoped n scs'" for scs'
    by (intro safe_cbind [OF safe_scope_binding [OF scopedD [OF that]]] safe_option safe_cret that safe_cbind [where P = "\<lambda>_. True"] safe_clift scoped_update)
      (use build_proof_ok [OF scopedD [OF that], of e 0] in auto)
  show ?thesis unfolding check_let_def
    by (intro safe_cbind [OF ty [OF assms(1,4)]] safe_prod bind_expr safe_cbind [OF zone_depth_safe [OF ok]] safe_cseq [where P = "\<lambda>_. True"]
        safe_cwhen safe_mismatch safe_define_scoped [OF assms(3)] safe_if proofs safe_cret)
      (use assms ok in auto)
qed

lemma return_stmt:
  assumes "opt_all wf_expr v" and "scopes_ok scs" and "t \<longrightarrow> opt_all (fe G) v" and "fr_function G \<noteq> None"
  shows "safe t G (check_return R scs off v) (\<lambda>_. True)"
  unfolding check_return_def
  by (intro safe_cbind [OF safe_return_type [OF assms(4)]] safe_option safe_cwhen safe_mismatch bind_expr safe_cseq [where P = "\<lambda>_. True"]
      safe_cbind [OF zone_depth_safe [OF assms(2)]] safe_cerror) (use assms in auto)

lemma try_stmt:
  assumes "wf_expr e" and "scoped n scs" and "t \<longrightarrow> fe G e" and "fr_function G \<noteq> None"
  shows "safe t G (check_try R scs off nm e) (scoped n)"
  unfolding check_try_def
  by (intro bind_expr safe_cbind [where P = "\<lambda>_. True"] safe_if zone_depth_safe safe_cret safe_cbind [OF safe_return_type [OF assms(4)]]
      safe_cseq [where P = "\<lambda>_. True"] safe_cwhen safe_cerror safe_cbind [where P = wf_type] safe_inner_type safe_define_scoped [OF assms(2)])
    (use assms in \<open>auto simp: has_inner_def dest: scopedD\<close>)

lemma free_stmt:
  assumes "wf_expr e" and "scopes_ok scs" and "t \<longrightarrow> fe G e"
  shows "safe t G (check_free R scs off e) (\<lambda>_. True)"
  unfolding check_free_def
  by (intro bind_expr safe_cbind [OF zone_depth_safe [OF assms(2)]] safe_if safe_cerror safe_cwhen) (use assms in simp_all)

lemma condition:
  "wf_expr e \<Longrightarrow> scopes_ok scs \<Longrightarrow> t \<longrightarrow> fe G e \<Longrightarrow> safe t G (check_condition R scs e msg) (\<lambda>_. True)"
  unfolding check_condition_def by (intro bind_expr safe_cwhen safe_cerror) simp_all

lemma for_head:
  assumes "wf_type y" and "wf_expr st" and "wf_expr en" and "scoped n scs" and "t \<longrightarrow> ft G y" and "t \<longrightarrow> fe G st" and "t \<longrightarrow> fe G en"
  shows "safe t G (check_for_head R scs off nm y st en) (scoped (Suc n))"
  unfolding check_for_head_def
  by (intro safe_cbind [OF ty [OF assms(1,5)]] safe_prod safe_cseq [where P = "\<lambda>_. True"] safe_cwhen safe_mismatch bind_expr safe_check_int
      safe_define_scoped [OF scoped_enter [OF assms(4)]] safe_cret) (use assms scopedD in auto)

lemma statements:
  "R' = R \<Longrightarrow> fr_function G \<noteq> None \<Longrightarrow> stmt_all wf_expr wf_type s \<Longrightarrow> t \<longrightarrow> stmt_all (fe G) (ft G) s \<Longrightarrow> scoped n scs \<Longrightarrow>
    safe t G (cn_check_statement R' s scs) (scoped n)"
  "R' = R \<Longrightarrow> fr_function G \<noteq> None \<Longrightarrow> list_all (stmt_all wf_expr wf_type) ss \<Longrightarrow> t \<longrightarrow> list_all (stmt_all (fe G) (ft G)) ss \<Longrightarrow> scoped n scs \<Longrightarrow>
    safe t G (check_statements R' ss scs) (scoped n)"
  "R' = R \<Longrightarrow> fr_function G \<noteq> None \<Longrightarrow> block_all wf_expr wf_type b \<Longrightarrow> t \<longrightarrow> block_all (fe G) (ft G) b \<Longrightarrow> scoped n scs \<Longrightarrow>
    safe t G (cn_check_block_with_guard R' b cs g scs) (scoped n)"
proof (induction R' s scs and R' ss scs and R' b cs g scs arbitrary: n and n and n rule: cn_check_statement_check_statements_cn_check_block_with_guard.induct)
  case (1 R' off nm m y e scs)
  then show ?case by (simp add: let_stmt)
next
  case (2 R' off l e scs)
  then show ?case by (simp add: assign)
next
  case (3 R' off v scs)
  then show ?case by (auto simp: same_scopes_def intro!: safe_cseq [OF return_stmt] safe_cret dest: scopedD)
next
  case (4 R' off e scs)
  then show ?case by (auto intro!: safe_cseq [OF expr] safe_cret dest: scopedD)
next
  case (5 R' off s scs)
  then show ?case by simp
next
  case (6 R' off nm e scs)
  then show ?case by (simp add: try_stmt)
next
  case (7 R' off b scs)
  have n: "0 < n" using "7.prems" by (simp add: scoped_def)
  show ?case unfolding cn_check_statement.simps
    by (intro safe_cbind [where P = "scoped (Suc n)"] safe_cret scoped_release n 7) (use "7.prems" in simp_all)
next
  case (8 R' off c th el scs)
  have other: "safe t G (case el of None \<Rightarrow> cret scs | Some b \<Rightarrow> cn_check_block_with_guard R' b True (Some (c, False)) scs) (scoped n)" if "scoped n scs" for scs
    by (intro safe_option safe_cret 8 that) (use "8.prems" in auto)
  show ?case unfolding cn_check_statement.simps \<open>R' = R\<close>
    by (intro safe_cseq [OF condition] safe_cbind [OF other [unfolded \<open>R' = R\<close>]] safe_cbind [where P = "scoped n"] 8(1) [unfolded \<open>R' = R\<close>]
        safe_if safe_mark_scoped safe_cret) (use "8.prems" in \<open>auto dest: scopedD\<close>)
next
  case (9 R' off c b scs)
  then show ?case by (auto intro!: safe_cseq [OF condition] dest: scopedD)
next
  case (10 R' off b scs)
  then show ?case by simp
next
  case (11 R' off nm y st en b scs)
  have n: "0 < n" using "11.prems" by (simp add: scoped_def)
  show ?case unfolding cn_check_statement.simps \<open>R' = R\<close>
    by (intro safe_cbind [OF for_head] safe_cbind [where P = "scoped (Suc n)"] safe_cret scoped_release n 11(1) [unfolded \<open>R' = R\<close>])
      (use "11.prems" in simp_all)
next
  case (12 R' off e scs)
  then show ?case by (auto simp: same_scopes_def intro!: safe_cseq [OF free_stmt] safe_cret dest: scopedD)
next
  case (13 R' scs)
  then show ?case by (simp add: safe_cret)
next
  case (14 R' s ss scs)
  then show ?case by (auto intro!: safe_cbind [where P = "scoped n"])
next
  case (15 R' ss off cs g scs)
  have n: "0 < n" using "15.prems" by (simp add: scoped_def)
  show ?case unfolding cn_check_block_with_guard.simps
    by (intro safe_cbind [OF safe_enter_block] safe_cbind [where P = "scoped (if cs \<or> g \<noteq> None then Suc n else n)"] safe_cret scoped_leave n 15)
      (use "15.prems" in simp_all)
qed

end

end
