(* ===== verification/Sema_Project.thy ===== *)
theory Sema_Project
  imports Sema_Decls
begin

text \<open>
  The whole semantic check: declarations, the three passes over the modules, and what the answer means.
\<close>

section \<open>Declarations\<close>

lemma safe_conj: "safe t G m P \<Longrightarrow> safe t G m Q \<Longrightarrow> safe t G m (\<lambda>x. P x \<and> Q x)"
  by (fastforce simp: safe_def cwp_def split: outcome.splits)

text \<open>A write of a type that is the same up to what validation writes, into one of many.\<close>

lemma map_update_same:
  assumes "map er xs' = map er xs" and "i < length xs" and "\<And>x. er x = er (xs ! i) \<Longrightarrow> er (g x) = er x"
  shows "map er (update_nth i g xs') = map er xs'"
proof (rule map_update_nth)
  fix x assume i: "i < length xs'" "x = xs' ! i"
  have "map er xs' ! i = map er xs ! i" by (simp add: assms(1))
  with i assms(2) have "er x = er (xs ! i)" by simp
  then show "er (g x) = er x" by (rule assms(3))
qed

lemma store_field: "erase_field x = erase_field z \<Longrightarrow> erase_type y = erase_type (sf_type z) \<Longrightarrow> erase_field (x\<lparr>sf_type := y\<rparr>) = erase_field x"
  using erase_simps(6) [of x] erase_simps(6) [of z] by (simp add: erase_field_def)

lemma store_param: "erase_param x = erase_param z \<Longrightarrow> erase_type y = erase_type (pa_type z) \<Longrightarrow> erase_param (x\<lparr>pa_type := y\<rparr>) = erase_param x"
  using erase_simps(10) [of x] erase_simps(10) [of z] by (simp add: erase_param_def)

text \<open>What validation writes into a type does not change whether the fuel is enough.\<close>

locale sound_programs = sound_checkers +
  assumes ft_erase: "ft G (erase_type y) \<longleftrightarrow> ft G y"
    and any_function: "fe (G\<lparr>fr_function := f\<rparr>) = fe G" "ft (G\<lparr>fr_function := f\<rparr>) = ft G"
begin

definition struct_fits :: "frame \<Rightarrow> nat \<times> nat \<Rightarrow> bool" where
  "struct_fits G r \<longleftrightarrow> (\<forall>f \<in> set (sd_fields (decl_of pr_structs (fr_project G) r)). ft G (sf_type f))"

definition function_fits :: "frame \<Rightarrow> nat \<times> nat \<Rightarrow> bool" where
  "function_fits G r \<longleftrightarrow> (let f = decl_of pr_functions (fr_project G) r in ft G (fn_return_type f)
     \<and> (\<forall>q \<in> set (fn_parameters f). ft G (pa_type q)) \<and> opt_all (block_all (fe G) (ft G)) (fn_body f))"

lemma struct_field_decl:
  assumes v: "valid_struct (fr_project G) r" and fits: "t \<longrightarrow> struct_fits G r" and i: "i < length (sd_fields (decl_of pr_structs (fr_project G) r))"
  shows "safe t G (check_struct_field_decl R r i) (\<lambda>_. True)"
proof -
  let ?D = "decl_of pr_structs (fr_project G) r"
  have sd: "safe t G (struct_at r) (\<lambda>d. erase_struct d = ?D \<and> (\<forall>f \<in> set (sd_fields d). wf_type (sf_type f)))"
    by (intro safe_conj safe_struct_decl safe_struct_at v)
  show ?thesis unfolding check_struct_field_decl_def
  proof (rule safe_cbind [OF sd])
    fix d :: cn_struct_decl assume d: "erase_struct d = ?D \<and> (\<forall>f \<in> set (sd_fields d). wf_type (sf_type f))"
    then have D: "sd_fields ?D = map erase_field (sd_fields d)" by (metis erase_simps(9))
    with i have i': "i < length (sd_fields d)" by simp
    let ?f = "sd_fields d ! i"
    have wf: "wf_type (sf_type ?f)" using d i' by simp
    have "erase_field ?f \<in> set (sd_fields ?D)" unfolding D using i' by simp
    then have ft: "t \<longrightarrow> ft G (sf_type ?f)" using fits ft_erase [of G "sf_type ?f"] unfolding struct_fits_def by fastforce
    have store: "safe t G (update_struct r (\<lambda>d. d\<lparr>sd_fields := update_nth i (\<lambda>f. f\<lparr>sf_type := y\<rparr>) (sd_fields d)\<rparr>)) (\<lambda>_. True)"
      if "erase_type y = erase_type (sf_type ?f)" for y
    proof (rule safe_update_struct)
      fix d' :: cn_struct_decl assume "erase_struct d' = ?D"
      then have "map erase_field (sd_fields d') = map erase_field (sd_fields d)" using D by (metis erase_simps(9))
      then have "map erase_field (update_nth i (\<lambda>f. f\<lparr>sf_type := y\<rparr>) (sd_fields d')) = map erase_field (sd_fields d')"
        by (rule map_update_same [OF _ i']) (rule store_field [OF _ that])
      then show "erase_struct (d'\<lparr>sd_fields := update_nth i (\<lambda>f. f\<lparr>sf_type := y\<rparr>) (sd_fields d')\<rparr>) = erase_struct d'"
        by (simp add: erase_struct_def)
    qed
    show "safe t G (cbind (clift (elem_at (sd_fields d) i)) (\<lambda>f.
     cseq (ceach (\<lambda>g. cwhen (cn_name_eq (sf_name f) (sf_name g)) (cerror ''E3003'' (sf_offset g)
       (''duplicate field '' @ quoted (sf_name g) @ '' in struct '' @ quoted (sd_name d)))) (drop (Suc i) (sd_fields d))) (
     cbind (ck_type R (sf_type f) (sf_offset f)) (\<lambda>(type_valid, t).
     cseq (update_struct r (\<lambda>d. d\<lparr>sd_fields := update_nth i (\<lambda>f. f\<lparr>sf_type := t\<rparr>) (sd_fields d)\<rparr>)) (
     check_exported (sd_is_public d) type_valid (sf_offset f) ''struct'' (sd_name d) t))))) (\<lambda>_. True)"
    proof (rule safe_cbind [where P = "\<lambda>f. f = ?f"])
      show "safe t G (clift (elem_at (sd_fields d) i)) (\<lambda>f. f = ?f)" by (rule safe_clift) (use i' in \<open>auto simp: elem_at_def\<close>)
      fix f :: cn_struct_field assume f: "f = ?f"
      show "safe t G (cseq (ceach (\<lambda>g. cwhen (cn_name_eq (sf_name f) (sf_name g)) (cerror ''E3003'' (sf_offset g)
       (''duplicate field '' @ quoted (sf_name g) @ '' in struct '' @ quoted (sd_name d)))) (drop (Suc i) (sd_fields d))) (
     cbind (ck_type R (sf_type f) (sf_offset f)) (\<lambda>(type_valid, t).
     cseq (update_struct r (\<lambda>d. d\<lparr>sd_fields := update_nth i (\<lambda>f. f\<lparr>sf_type := t\<rparr>) (sd_fields d)\<rparr>)) (
     check_exported (sd_is_public d) type_valid (sf_offset f) ''struct'' (sd_name d) t)))) (\<lambda>_. True)"
        unfolding f by (intro safe_cseq [where P = "\<lambda>_. True"] safe_each safe_cwhen safe_cerror safe_cbind [OF ty [OF wf ft]] safe_prod
            store check_exported_safe) auto
    qed
  qed
qed

lemma struct_decl: "valid_struct (fr_project G) r \<Longrightarrow> t \<longrightarrow> struct_fits G r \<Longrightarrow> safe t G (cn_check_struct_decl R r) (\<lambda>_. True)"
  unfolding cn_check_struct_decl_def
proof (rule safe_cbind [OF safe_struct_decl])
  fix d :: cn_struct_decl
  assume v: "valid_struct (fr_project G) r" "t \<longrightarrow> struct_fits G r" and d: "erase_struct d = decl_of pr_structs (fr_project G) r"
  have "length (sd_fields (decl_of pr_structs (fr_project G) r)) = length (sd_fields d)" unfolding d [symmetric] by simp
  with v show "safe t G (ceach (check_struct_field_decl R r) [0..<length (sd_fields d)]) (\<lambda>_. True)"
    by (intro safe_each struct_field_decl) simp_all
qed

text \<open>A function that is read, and the types of its declaration.\<close>

lemma function_read:
  assumes "function_of_frame G r f" and "t \<longrightarrow> function_fits G r"
  shows "fn_parameters (decl_of pr_functions (fr_project G) r) = map erase_param (fn_parameters f)" and "t \<longrightarrow> ft G (fn_return_type f)"
    and "i < length (fn_parameters f) \<Longrightarrow> t \<longrightarrow> ft G (pa_type (fn_parameters f ! i))" and "t \<longrightarrow> opt_all (block_all (fe G) (ft G)) (fn_body f)"
proof -
  have f: "decl_of pr_functions (fr_project G) r = erase_function f" using assms(1) by (simp add: function_of_frame_def)
  show "fn_parameters (decl_of pr_functions (fr_project G) r) = map erase_param (fn_parameters f)" by (simp add: f)
  show "t \<longrightarrow> ft G (fn_return_type f)" "t \<longrightarrow> opt_all (block_all (fe G) (ft G)) (fn_body f)"
    using assms(2) by (simp_all add: function_fits_def f Let_def ft_erase)
  show "i < length (fn_parameters f) \<Longrightarrow> t \<longrightarrow> ft G (pa_type (fn_parameters f ! i))"
    using assms(2) by (simp add: function_fits_def f Let_def ft_erase)
qed

lemma param_type:
  assumes v: "valid_function (fr_project G) r" and fits: "t \<longrightarrow> function_fits G r"
    and i: "i < length (fn_parameters (decl_of pr_functions (fr_project G) r))"
  shows "safe t G (check_param_type R r i) (\<lambda>_. True)"
  unfolding check_param_type_def
proof (rule safe_cbind [OF safe_function_at [OF v]])
  fix f :: cn_function assume f: "function_of_frame G r f"
  note read = function_read [OF f fits]
  have i': "i < length (fn_parameters f)" using i read(1) by simp
  let ?p = "fn_parameters f ! i"
  have wf: "wf_type (pa_type ?p)" using f i' by (simp add: function_of_frame_def)
  have store: "safe t G (update_function r (\<lambda>f. f\<lparr>fn_parameters := update_nth i (\<lambda>p. p\<lparr>pa_type := y\<rparr>) (fn_parameters f)\<rparr>)) (\<lambda>_. True)"
    if "erase_type y = erase_type (pa_type ?p)" for y
  proof (rule safe_update_function)
    fix g :: cn_function assume "erase_function g = decl_of pr_functions (fr_project G) r"
    then have "map erase_param (fn_parameters g) = map erase_param (fn_parameters f)" using read(1) by (metis erase_simps(15))
    then have "map erase_param (update_nth i (\<lambda>p. p\<lparr>pa_type := y\<rparr>) (fn_parameters g)) = map erase_param (fn_parameters g)"
      by (rule map_update_same [OF _ i']) (rule store_param [OF _ that])
    then show "erase_function (g\<lparr>fn_parameters := update_nth i (\<lambda>p. p\<lparr>pa_type := y\<rparr>) (fn_parameters g)\<rparr>) = erase_function g"
      by (simp add: erase_function_def)
  qed
  show "safe t G (cbind (clift (elem_at (fn_parameters f) i)) (\<lambda>p.
     cbind (ck_type R (pa_type p) (pa_offset p)) (\<lambda>(type_valid, t).
     cseq (update_function r (\<lambda>f. f\<lparr>fn_parameters := update_nth i (\<lambda>p. p\<lparr>pa_type := t\<rparr>) (fn_parameters f)\<rparr>)) (
     check_exported (fn_is_public f) type_valid (pa_offset p) ''function'' (fn_name f) t)))) (\<lambda>_. True)"
  proof (rule safe_cbind [where P = "\<lambda>p. p = ?p"])
    show "safe t G (clift (elem_at (fn_parameters f) i)) (\<lambda>p. p = ?p)" by (rule safe_clift) (use i' in \<open>auto simp: elem_at_def\<close>)
    fix p :: cn_param assume p: "p = ?p"
    show "safe t G (cbind (ck_type R (pa_type p) (pa_offset p)) (\<lambda>(type_valid, t).
     cseq (update_function r (\<lambda>f. f\<lparr>fn_parameters := update_nth i (\<lambda>p. p\<lparr>pa_type := t\<rparr>) (fn_parameters f)\<rparr>)) (
     check_exported (fn_is_public f) type_valid (pa_offset p) ''function'' (fn_name f) t))) (\<lambda>_. True)"
      unfolding p by (intro safe_cseq [where P = "\<lambda>_. True"] safe_cbind [OF ty [OF wf read(3) [OF i']]] safe_prod store check_exported_safe) auto
  qed
qed

lemma function_signature:
  assumes v: "valid_function (fr_project G) r" and fits: "t \<longrightarrow> function_fits G r"
  shows "safe t G (cn_check_function_signature R r) (\<lambda>_. True)"
  unfolding cn_check_function_signature_def
proof (rule safe_cbind [OF safe_function_at [OF v]])
  fix f :: cn_function assume f: "function_of_frame G r f"
  note read = function_read [OF f fits]
  have store: "safe t G (update_function r (\<lambda>f. f\<lparr>fn_return_type := y\<rparr>)) (\<lambda>_. True)" if "erase_type y = erase_type (fn_return_type f)" for y
  proof (rule safe_update_function)
    fix g :: cn_function assume "erase_function g = decl_of pr_functions (fr_project G) r"
    then have "erase_type (fn_return_type g) = erase_type y" using f that unfolding function_of_frame_def by (metis erase_simps(14))
    then show "erase_function (g\<lparr>fn_return_type := y\<rparr>) = erase_function g" by (simp add: erase_function_def)
  qed
  have n: "length (fn_parameters f) = length (fn_parameters (decl_of pr_functions (fr_project G) r))" by (simp add: read(1))
  show "safe t G (cbind (ck_type R (fn_return_type f) (fn_offset f)) (\<lambda>(type_valid, t).
     cseq (update_function r (\<lambda>f. f\<lparr>fn_return_type := t\<rparr>)) (
     cseq (check_exported (fn_is_public f) type_valid (fn_offset f) ''function'' (fn_name f) t) (
     ceach (check_param_type R r) [0..<length (fn_parameters f)])))) (\<lambda>_. True)"
    unfolding n by (intro safe_cbind [OF ty [OF _ read(2)]] safe_prod safe_cseq [where P = "\<lambda>_. True"] store check_exported_safe safe_each param_type v fits)
      (use f in \<open>auto simp: function_of_frame_def\<close>)
qed

text \<open>The body of a function is checked with the function as the current one.\<close>

lemma function_body:
  assumes v: "valid_function (fr_project G) r" and fits: "t \<longrightarrow> function_fits G r"
  shows "moves t G (G\<lparr>fr_function := Some r\<rparr>) (cn_check_function R r) (\<lambda>_. True)"
proof -
  let ?H = "G\<lparr>fr_function := Some r\<rparr>"
  have fitsH: "t \<longrightarrow> function_fits ?H r" using fits by (simp add: function_fits_def any_function)
  have builtin: "safe t ?H (case m of None \<Rightarrow> cret False | Some m \<Rightarrow> cbind (module_at m) (\<lambda>md. cret (mo_is_builtin_stdlib md))) (\<lambda>_. True)"
    if "m = Some (fr_module ?H)" for m
  proof (rule safe_frame)
    assume "frame_ok ?H"
    then have "module_in ?H (fr_module ?H)" by (auto simp: frame_ok_def valid_module_def mod_at_def split: if_splits)
    then show ?thesis unfolding that by (auto intro!: safe_cbind [OF safe_module_at] safe_cret)
  qed
  have params: "safe t ?H (cfold define_param (fn_parameters f) (enter_scope 0 [])) (scoped 1)" if "function_of_frame ?H r f" for f
    by (intro safe_fold scoped_start) (use that in \<open>auto simp: define_param_def function_of_frame_def intro!: safe_define_scoped safe_cret\<close>)
  have block: "safe t ?H (cn_check_block R b False scs) (scoped 1)" if "function_of_frame ?H r f" "fn_body f = Some b" "scoped 1 scs" for f b scs
    unfolding cn_check_block_def
    by (intro statements(3)) (use that function_read(4) [OF that(1) fitsH] in \<open>auto simp: function_of_frame_def\<close>)
  have "safe t ?H (cbind (function_at r) (\<lambda>f. case fn_body f of
       None \<Rightarrow> cbind (cget cx_module) (\<lambda>m. cbind (case m of None \<Rightarrow> cret False | Some m \<Rightarrow> cbind (module_at m) (\<lambda>md. cret (mo_is_builtin_stdlib md))) (\<lambda>builtin.
         cwhen (\<not> (builtin \<and> fn_is_builtin f)) (cerror ''E3020'' (fn_offset f)
           (''semantic analysis expected a function body for '' @ quoted (fn_name f)))))
     | Some body \<Rightarrow>
         cbind (cfold define_param (fn_parameters f) (enter_scope 0 [])) (\<lambda>scs.
         cbind (cn_check_block R body False scs) (\<lambda>scs.
         cwhen (\<not> same_type (fn_return_type f) void_type \<and> \<not> cn_block_guarantees_return body) (cerror ''E3007'' (fn_offset f)
           (''non-void function '' @ quoted (fn_name f) @ '' must return explicitly on every path'')))))) (\<lambda>_. True)"
    by (intro safe_cbind [OF safe_function_at] safe_option safe_cbind [OF safe_cur_module] safe_cbind [OF builtin] safe_cwhen safe_cerror
        safe_cbind [OF params] safe_cbind [OF block]) (use v in simp_all)
  moreover have "moves t G ?H (cput (\<lambda>s. s\<lparr>cx_current_function := Some r\<rparr>)) (\<lambda>_. True)"
    using v by (simp add: moves_def cput_def cwp_def ctx_ok_def frame_ok_def)
  ultimately show ?thesis unfolding cn_check_function_def moves_safe [symmetric] by (auto intro: moves_cseq)
qed

end

section \<open>Passes\<close>

definition idle :: "cn_project \<Rightarrow> cn_sema_ctx \<Rightarrow> bool" where
  "idle K s \<longleftrightarrow> project_ok K \<and> erase (cx_project s) = K \<and> caches_ok K (cx_module_caches s) \<and> diag_invar (cx_diagnostics s)
     \<and> opt_all (valid_function K) (cx_current_function s)"

definition in_frame :: "cn_project \<Rightarrow> nat \<Rightarrow> cn_sema_ctx \<Rightarrow> bool" where
  "in_frame K m s \<longleftrightarrow> (\<exists>f. ctx_ok \<lparr>fr_project = K, fr_module = m, fr_function = f\<rparr> s)"

definition keeps :: "bool \<Rightarrow> (cn_sema_ctx \<Rightarrow> bool) \<Rightarrow> 'a cm \<Rightarrow> bool" where
  "keeps t I m \<longleftrightarrow> (\<forall>s. I s \<longrightarrow> cwp t m (\<lambda>_ s'. I s' \<and> errs s \<le> errs s') s)"

lemma in_frame_idle: "in_frame K m s \<longleftrightarrow> idle K s \<and> valid_module K m \<and> cx_module s = Some m"
  by (auto simp: in_frame_def idle_def ctx_ok_def frame_ok_def)

lemma keepsD: "keeps t I m \<Longrightarrow> I s \<Longrightarrow> cwp t m (\<lambda>_ s'. I s' \<and> errs s \<le> errs s') s"
  by (simp add: keeps_def)

lemma keeps_cseq:
  assumes "keeps t I a" and "keeps t I b"
  shows "keeps t I (cseq a b)"
  unfolding keeps_def
proof (intro allI impI)
  fix s assume "I s"
  from keepsD [OF assms(1) this] show "cwp t (cseq a b) (\<lambda>_ s'. I s' \<and> errs s \<le> errs s') s"
  proof (rule cwp_cseq [OF cwp_mono])
    fix s1 assume 1: "I s1 \<and> errs s \<le> errs s1"
    then show "cwp t b (\<lambda>_ s'. I s' \<and> errs s \<le> errs s') s1" using keepsD [OF assms(2), of s1] by (auto elim!: cwp_mono)
  qed
qed

lemma keeps_cret: "keeps t I (cret x)"
  by (simp add: keeps_def cwp_cret)

lemma keeps_each: "(\<And>x. x \<in> set xs \<Longrightarrow> keeps t I (f x)) \<Longrightarrow> keeps t I (ceach f xs)"
  by (induction xs) (auto intro: keeps_cret keeps_cseq)

lemma safe_keeps: "(\<And>f. safe t \<lparr>fr_project = K, fr_module = m, fr_function = f\<rparr> c (\<lambda>_. True)) \<Longrightarrow> keeps t (in_frame K m) c"
  unfolding keeps_def in_frame_def safe_def by (fastforce elim: cwp_mono)

lemma moves_keeps:
  "(\<And>f. moves t \<lparr>fr_project = K, fr_module = m, fr_function = f\<rparr> \<lparr>fr_project = K, fr_module = m, fr_function = g\<rparr> c (\<lambda>_. True)) \<Longrightarrow> keeps t (in_frame K m) c"
  unfolding keeps_def in_frame_def moves_def by (fastforce elim: cwp_mono)

lemma keeps_pass:
  assumes "\<And>m md p. mod_at K m = Some (erase_module md) \<Longrightarrow> mo_program md = Some p \<Longrightarrow> keeps t (in_frame K m) (f m md p)"
  shows "keeps t (idle K) (pass f)"
  unfolding keeps_def
proof (intro allI impI)
  fix s assume s: "idle K s"
  let ?body = "\<lambda>m. cseq (set_module (Some m)) (cbind (module_at m) (\<lambda>md. case mo_program md of
       None \<Rightarrow> cret ()
     | Some p \<Rightarrow> cseq (cput (\<lambda>s. s\<lparr>cx_diagnostics := cn_diag_bag_set_source (cx_diagnostics s) (Some (mo_source md))\<rparr>)) (f m md p)))"
  let ?n = "length (pj_modules K)"
  have n: "length (pj_modules (cx_project s)) = ?n" using s unfolding idle_def by (metis erase_simps(23) length_map)
  have "keeps t (idle K) (?body m)" if "m < ?n" for m
    unfolding keeps_def
  proof (intro allI impI)
    fix s assume s: "idle K s"
    then have e: "erase (cx_project s) = K" by (simp add: idle_def)
    with that obtain md where md: "mod_at (cx_project s) m = Some md" "mod_at K m = Some (erase_module md)"
      unfolding mod_at_def by (metis (no_types, lifting) erase_simps(23) length_map nth_map)
    let ?s = "s\<lparr>cx_module := Some m\<rparr>"
    show "cwp t (?body m) (\<lambda>_ s'. idle K s' \<and> errs s \<le> errs s') s"
    proof (cases "mo_program md")
      case None
      with s md show ?thesis
        by (simp add: cwp_def cseq_def cbind_def set_module_def cput_def module_at_def cget_def clift_def cret_def idle_def)
    next
      case (Some p)
      let ?s' = "?s\<lparr>cx_diagnostics := cn_diag_bag_set_source (cx_diagnostics s) (Some (mo_source md))\<rparr>"
      have "valid_module K m" using md(2) Some by (auto simp: valid_module_def)
      then have "in_frame K m ?s'" using s
        by (auto simp: in_frame_idle idle_def cn_diag_bag_set_source_def diag_invar_def)
      with assms [OF md(2) Some] have "cwp t (f m md p) (\<lambda>_ s'. in_frame K m s' \<and> errs ?s' \<le> errs s') ?s'" by (rule keepsD)
      then have "cwp t (f m md p) (\<lambda>_ s'. idle K s' \<and> errs s \<le> errs s') ?s'"
        by (rule cwp_mono) (auto simp: in_frame_idle error_count_def diags_def cn_diag_bag_set_source_def)
      then show ?thesis using md Some
        by (simp add: cwp_def cseq_def cbind_def set_module_def cput_def module_at_def cget_def clift_def cret_def)
    qed
  qed
  then have "keeps t (idle K) (ceach ?body [0..<?n])" by (intro keeps_each) simp
  with s show "cwp t (pass f) (\<lambda>_ s'. idle K s' \<and> errs s \<le> errs s') s"
    by (simp add: pass_def keeps_def cwp_def cbind_def cget_def n)
qed

lemma keeps_header:
  assumes "mod_at K m = Some (erase_module md)" and "mo_program md = Some p"
  shows "keeps t (in_frame K m) (check_header md)"
proof (rule safe_keeps)
  fix f
  let ?G = "\<lparr>fr_project = K, fr_module = m, fr_function = f\<rparr>"
  show "safe t ?G (check_header md) (\<lambda>_. True)"
    unfolding safe_def
  proof (intro allI impI)
    fix s assume s: "ctx_ok ?G s"
    then have "project_ok K" by (simp add: ctx_ok_def frame_ok_def)
    moreover have "erase_module md \<in> set (pj_modules K)" using assms(1) by (auto simp: mod_at_def split: if_splits) (metis nth_mem)
    ultimately have "length (mo_imports md) = length (pr_imports p)" using assms(2) by (auto simp: project_ok_def)
    then obtain bag where "cn_check_module_header md (cx_diagnostics s) = Some (\<not> cn_diag_has_error bag, bag)" "diag_invar bag"
        "error_count (cx_diagnostics s) \<le> error_count bag"
      using header_counts [OF assms(2), of "cx_diagnostics s"] s by (auto simp: ctx_ok_def)
    with s show "cwp t (check_header md) (\<lambda>x s'. True \<and> ctx_ok ?G s' \<and> errs s \<le> errs s') s"
      by (simp add: check_header_def cwp_def cbind_def cget_def clift_def cret_def cput_def ctx_ok_def)
  qed
qed

context sound_programs
begin

definition module_fits :: "frame \<Rightarrow> cn_program \<Rightarrow> bool" where
  "module_fits G p \<longleftrightarrow> (\<forall>i < length (pr_structs p). struct_fits G (fr_module G, i)) \<and> (\<forall>i < length (pr_functions p). function_fits G (fr_module G, i))
     \<and> (\<forall>i < length (pr_consts p). fd G (fr_module G, i))"

lemma passes:
  assumes "\<And>m md p f. t \<Longrightarrow> mod_at K m = Some (erase_module md) \<Longrightarrow> mo_program md = Some p \<Longrightarrow>
    module_fits \<lparr>fr_project = K, fr_module = m, fr_function = f\<rparr> p"
  shows "keeps t (idle K) (sema_passes R)"
proof -
  have valid: "valid_struct K (m, i)" if "mod_at K m = Some (erase_module md)" "mo_program md = Some p" "i < length (pr_structs p)" for m md p i
    using that by (auto simp: valid_decl_def)
  have valid': "valid_function K (m, i)" if "mod_at K m = Some (erase_module md)" "mo_program md = Some p" "i < length (pr_functions p)" for m md p i
    using that by (auto simp: valid_decl_def)
  have valid'': "valid_const K (m, i)" if "mod_at K m = Some (erase_module md)" "mo_program md = Some p" "i < length (pr_consts p)" for m md p i
    using that by (auto simp: valid_decl_def)
  note fits = assms [unfolded module_fits_def]
  have first: "keeps t (in_frame K m) (cseq (check_header md) (
       cseq (ceach (\<lambda>i. cn_check_struct_decl R (m, i)) [0..<length (pr_structs p)])
         (ceach (\<lambda>i. cn_check_function_signature R (m, i)) [0..<length (pr_functions p)])))"
    if md: "mod_at K m = Some (erase_module md)" "mo_program md = Some p" for m md p
  proof (intro keeps_cseq keeps_header [OF md] keeps_each safe_keeps)
    fix i f assume "i \<in> set [0..<length (pr_structs p)]"
    then show "safe t \<lparr>fr_project = K, fr_module = m, fr_function = f\<rparr> (cn_check_struct_decl R (m, i)) (\<lambda>_. True)"
      using fits [OF _ md] valid [OF md] by (intro struct_decl) auto
  next
    fix i f assume "i \<in> set [0..<length (pr_functions p)]"
    then show "safe t \<lparr>fr_project = K, fr_module = m, fr_function = f\<rparr> (cn_check_function_signature R (m, i)) (\<lambda>_. True)"
      using fits [OF _ md] valid' [OF md] by (intro function_signature) auto
  qed
  have second: "keeps t (in_frame K m) (ceach (\<lambda>i. cseq (ck_const_decl R (m, i)) (cret ())) [0..<length (pr_consts p)])"
    if md: "mod_at K m = Some (erase_module md)" "mo_program md = Some p" for m md p
    using fits [OF _ md] valid'' [OF md] by (intro keeps_each keeps_cseq keeps_cret safe_keeps const_decl) auto
  have third: "keeps t (in_frame K m) (ceach (\<lambda>i. cn_check_function R (m, i)) [0..<length (pr_functions p)])"
    if md: "mod_at K m = Some (erase_module md)" "mo_program md = Some p" for m md p
  proof (intro keeps_each moves_keeps)
    fix i f assume "i \<in> set [0..<length (pr_functions p)]"
    then show "moves t \<lparr>fr_project = K, fr_module = m, fr_function = f\<rparr> \<lparr>fr_project = K, fr_module = m, fr_function = Some (m, i)\<rparr>
        (cn_check_function R (m, i)) (\<lambda>_. True)"
      using fits [OF _ md] valid' [OF md] function_body [where G = "\<lparr>fr_project = K, fr_module = m, fr_function = f\<rparr>" and r = "(m, i)"] by auto
  qed
  show ?thesis unfolding sema_passes_def by (intro keeps_cseq keeps_pass first second third)
qed

end

section \<open>The whole check\<close>

interpretation whole: sound_programs "checkers_of n" "expr_fits rk w n" "type_fits rk w n" "expr_fits rk w n" "expr_fits rk w n" "const_fits rk w n" for n rk w
  by unfold_locales (auto simp: expr_fits_def type_fits_def consts_erase)

lemma idle_init: "project_ok prj \<Longrightarrow> diag_invar bag \<Longrightarrow> idle (erase prj) (sema_init prj bag)"
  by (simp add: idle_def sema_init_def caches_ok_def)

lemma check_project_cwp:
  assumes "project_ok prj" and "diag_invar bag"
    and "\<And>m md p f. t \<Longrightarrow> mod_at (erase prj) m = Some (erase_module md) \<Longrightarrow> mo_program md = Some p \<Longrightarrow>
      whole.module_fits rk w n \<lparr>fr_project = erase prj, fr_module = m, fr_function = f\<rparr> p"
  shows "case cn_sema_check_project n prj bag of
      Done ok s \<Rightarrow> (ok \<longleftrightarrow> error_count (cx_diagnostics s) = 0) \<and> error_count bag \<le> error_count (cx_diagnostics s)
        \<and> diag_invar (cx_diagnostics s) \<and> erase (cx_project s) = erase prj
    | Fault f \<Rightarrow> f = SignedOverflow
    | Fuel \<Rightarrow> \<not> t"
proof -
  have "keeps t (idle (erase prj)) (sema_passes (checkers_of n))" by (rule whole.passes) (rule assms(3))
  from keepsD [OF this idle_init [OF assms(1,2)]] show ?thesis
    by (auto simp: cwp_def cn_sema_check_project_def cseq_def cbind_def cput_def cget_def ok_so_far_def cn_diag_has_error_iff idle_def sema_init_def
        split: outcome.splits)
qed

section \<open>Sizes\<close>

lemma stmt_all_mono:
  "(\<And>e. P e \<Longrightarrow> P' e) \<Longrightarrow> (\<And>y. T y \<Longrightarrow> T' y) \<Longrightarrow> stmt_all P T s \<Longrightarrow> stmt_all P' T' s"
  "(\<And>e. P e \<Longrightarrow> P' e) \<Longrightarrow> (\<And>y. T y \<Longrightarrow> T' y) \<Longrightarrow> block_all P T b \<Longrightarrow> block_all P' T' b"
  by (induction P T s and P T b rule: stmt_all_block_all.induct) (auto simp: list_all_iff opt_all_def split: option.splits)

lemma consts_valid:
  "consts_type (valid_const K) K c y" "consts_expr (valid_const K) K c e" "consts_init (valid_const K) K c i"
proof (induction "valid_const K" K c y and "valid_const K" K c e and "valid_const K" K c i rule: consts_type_consts_expr_consts_init.induct)
  case (2 K c off nm)
  then show ?case by simp
next
  case (10 K c off b f)
  then show ?case by (auto split: option.split)
qed (auto simp: list_all_iff opt_all_def split: option.split)

definition const_rank_below :: "nat \<Rightarrow> (nat \<times> nat \<Rightarrow> nat) \<Rightarrow> cn_project \<Rightarrow> bool" where
  "const_rank_below k rk K \<longleftrightarrow> (\<forall>r. valid_const K r \<longrightarrow> rk r < k)"

text \<open>No expression and no type of the project is larger than \<open>b\<close>.\<close>

definition sizes_below :: "nat \<Rightarrow> cn_project \<Rightarrow> bool" where
  "sizes_below b prj \<longleftrightarrow> (\<forall>md \<in> set (pj_modules prj). opt_all (program_all (\<lambda>e. size e < b) (\<lambda>y. size y < b)) (mo_program md))"

lemma sizes_below_erase [simp]: "sizes_below b (erase prj) \<longleftrightarrow> sizes_below b prj"
  by (simp add: sizes_below_def program_all_def [abs_def])

lemma module_fits_sizes:
  assumes rk: "ranked rk w K" and k: "const_rank_below k rk K" and b: "sizes_below b K" and n: "b + w * k \<le> n"
    and md: "mod_at K m = Some (erase_module md)" "mo_program md = Some p"
  shows "whole.module_fits rk w n \<lparr>fr_project = K, fr_module = m, fr_function = f\<rparr> p"
proof -
  let ?G = "\<lparr>fr_project = K, fr_module = m, fr_function = f\<rparr>" and ?p = "erase_program p"
  have low: "cost rk w r \<le> w * k" if "valid_const K r" for r
    unfolding cost_def by (intro mult_le_mono2) (use k that in \<open>simp add: const_rank_below_def Suc_le_eq del: split_paired_All\<close>)
  have e: "expr_fits rk w n ?G e" if "size e < b" for e
    by (rule expr_fitsI [where b = "w * k"]) (use rk n that consts_mono(2) [OF low consts_valid(2)] in simp_all)
  have y: "type_fits rk w n ?G y" if "size y < b" for y
    by (rule type_fitsI [where b = "w * k"]) (use rk n that consts_mono(1) [OF low consts_valid(1)] in simp_all)
  have "erase_module md \<in> set (pj_modules K)" using md(1) by (auto simp: mod_at_def split: if_splits) (metis nth_mem)
  with b md(2) have all: "program_all (\<lambda>e. size e < b) (\<lambda>y. size y < b) ?p" unfolding sizes_below_def by fastforce
  have at: "decl_of decls K (m, i) = decls ?p ! i" for decls :: "cn_program \<Rightarrow> 'd list" and i
    using md by (auto simp: decl_of_def mod_at_def split: if_splits)
  have body: "block_all (expr_fits rk w n ?G) (type_fits rk w n ?G) bl" if "block_all (\<lambda>e. size e < b) (\<lambda>y. size y < b) bl" for bl
    by (rule stmt_all_mono(2) [OF e y that])
  show ?thesis unfolding whole.module_fits_def
  proof (intro conjI allI impI)
    fix i assume "i < length (pr_structs p)"
    then have "pr_structs ?p ! i \<in> set (pr_structs ?p)" by simp
    with all show "whole.struct_fits rk w n ?G (fr_module ?G, i)" by (auto simp: whole.struct_fits_def at program_all_def intro!: y)
  next
    fix i assume "i < length (pr_functions p)"
    then have "pr_functions ?p ! i \<in> set (pr_functions ?p)" by simp
    then have "size (fn_return_type (pr_functions ?p ! i)) < b" "\<forall>q \<in> set (fn_parameters (pr_functions ?p ! i)). size (pa_type q) < b"
      "opt_all (block_all (\<lambda>e. size e < b) (\<lambda>y. size y < b)) (fn_body (pr_functions ?p ! i))"
      using all unfolding program_all_def by blast+
    then show "whole.function_fits rk w n ?G (fr_module ?G, i)"
      unfolding whole.function_fits_def Let_def frame.select_convs at by (auto simp: opt_all_def intro!: y body split: option.splits)
  next
    fix i assume "i < length (pr_consts p)"
    then have v: "valid_const K (m, i)" using md by (auto simp: valid_decl_def)
    with low [OF v] rk n show "const_fits rk w n ?G (fr_module ?G, i)" by (simp add: const_fits_def)
  qed
qed

end
