(* ===== verification/Sema_Value.thy ===== *)
theory Sema_Value
  imports Sema_Run
begin

text \<open>
  What the evaluation of constants computes: the value of an expression over the integers, with division
  that truncates and each constant standing for its initializer in the module that
  declares it. The evaluation works on 64-bit words; what it returns is the value itself.
\<close>

inductive const_value :: "cn_project \<Rightarrow> nat \<Rightarrow> cn_expr \<Rightarrow> int \<Rightarrow> bool" for K where
  literal: "const_value K c (CN_EXPR_INT off v) (sint v)"
| named: "const_in K c nm = Some r \<Longrightarrow> const_value K (fst r) (const_init K r) z \<Longrightarrow> const_value K c (CN_EXPR_NAME off nm) z"
| member: "source_const_in K c mn nm = Some r \<Longrightarrow> const_value K (fst r) (const_init K r) z \<Longrightarrow>
    const_value K c (CN_EXPR_FIELD off (CN_EXPR_NAME off' mn) nm) z"
| negate: "const_value K c x z \<Longrightarrow> const_value K c (CN_EXPR_UNARY off CN_UNARY_NEGATE x) (- z)"
| add: "const_value K c l x \<Longrightarrow> const_value K c r y \<Longrightarrow> const_value K c (CN_EXPR_BINARY off CN_BINARY_ADD l r) (x + y)"
| sub: "const_value K c l x \<Longrightarrow> const_value K c r y \<Longrightarrow> const_value K c (CN_EXPR_BINARY off CN_BINARY_SUB l r) (x - y)"
| mul: "const_value K c l x \<Longrightarrow> const_value K c r y \<Longrightarrow> const_value K c (CN_EXPR_BINARY off CN_BINARY_MUL l r) (x * y)"
| quotient: "const_value K c l x \<Longrightarrow> const_value K c r y \<Longrightarrow> y \<noteq> 0 \<Longrightarrow> const_value K c (CN_EXPR_BINARY off CN_BINARY_DIV l r) (c_quot x y)"
| remainder: "const_value K c l x \<Longrightarrow> const_value K c r y \<Longrightarrow> y \<noteq> 0 \<Longrightarrow> const_value K c (CN_EXPR_BINARY off CN_BINARY_MOD l r) (c_rem x y)"

text \<open>An expression has at most one value.\<close>

lemma const_value_unique: "const_value K c e z \<Longrightarrow> const_value K c e z' \<Longrightarrow> z = z'"
proof (induction arbitrary: z' rule: const_value.induct)
  case (named c nm r z off)
  from named.prems named show ?case by cases auto
next
  case (member c mn nm r z off off')
  from member.prems member show ?case by cases auto
next
  case (negate c x z off)
  from negate.prems negate show ?case by cases auto
next
  case (add c l x r y off)
  from add.prems add show ?case by cases auto
next
  case (sub c l x r y off)
  from sub.prems sub show ?case by cases auto
next
  case (mul c l x r y off)
  from mul.prems mul show ?case by cases auto
next
  case (quotient c l x r y off)
  from quotient.prems quotient show ?case by cases auto
next
  case (remainder c l x r y off)
  from remainder.prems remainder show ?case by cases auto
qed (auto elim: const_value.cases)

definition value_post :: "cn_project \<Rightarrow> nat \<Rightarrow> cn_expr \<Rightarrow> int64 option \<Rightarrow> bool" where
  "value_post K c e r \<longleftrightarrow> opt_all (\<lambda>v. const_value K c e (sint v)) r"

lemma value_post_None [simp]: "value_post K c e None"
  by (simp add: value_post_def)

lemma expr_name_Some: "expr_name b = Some nm \<longleftrightarrow> (\<exists>off. b = CN_EXPR_NAME off nm)"
  by (cases b) auto

lemma eval_binary_value:
  assumes "const_value K c l (sint lv)" and "const_value K c r (sint rv)"
  shows "safe t G (eval_binary bop lv rv) (value_post K c (CN_EXPR_BINARY off bop l r))"
proof -
  have lift: "safe t G (cbind (cdefined w) (\<lambda>v. cret (Some v))) (value_post K c x)" if "\<And>v. w = Some v \<Longrightarrow> const_value K c x (sint v)" for w x
    using that by (cases w) (auto simp: cdefined_def safe_def cwp_def cbind_def cret_def cfault_def value_post_def)
  note ops = c_add64_def c_sub64_def c_mul64_def c_div64_def c_mod64_def
  show ?thesis using assms unfolding eval_binary_def
    by (cases bop) (auto intro!: lift safe_cret const_value.intros simp: ops int64_of_eq_Some_iff split: if_splits)
qed

text \<open>Reading a constant, given that evaluation is right for its initializer.\<close>

lemma eval_const_value:
  assumes "opt_all (valid_const (fr_project G)) r"
    and ev: "\<And>m e. wf_expr e \<Longrightarrow> valid_module (fr_project G) m \<Longrightarrow> safe False G (ck_eval (checkers_of n) (Some m) e) (value_post (fr_project G) m e)"
    and step: "\<And>r' z. r = Some r' \<Longrightarrow> const_value (fr_project G) (fst r') (const_init (fr_project G) r') z \<Longrightarrow> const_value (fr_project G) c x z"
  shows "safe False G (eval_const (checkers_of n) r) (value_post (fr_project G) c x)"
  unfolding eval_const_def
proof (intro safe_option safe_cret)
  fix r' assume r: "r = Some r'"
  with assms(1) have v: "valid_const (fr_project G) r'" by simp
  have dc: "safe False G (ck_const_decl (checkers_of n) r') (\<lambda>_. True)" by (rule sema.const_decl [OF v]) simp
  show "safe False G (cbind (ck_const_decl (checkers_of n) r') (\<lambda>ok. if \<not> ok then cret None else cbind (const_at r') (\<lambda>d.
      if \<not> cn_type_is_integer_like (cd_type d) then cret None else ck_eval (checkers_of n) (Some (fst r')) (cd_initializer d)))) (value_post (fr_project G) c x)"
  proof (intro safe_cbind [OF dc] safe_if safe_cret safe_cbind [OF safe_const_at [OF v]])
    fix d :: cn_const_decl assume d: "const_of_frame G r' d"
    then have i: "cd_initializer d = const_init (fr_project G) r'" unfolding const_of_frame_def const_init_def by (metis erase_simps(3))
    show "safe False G (ck_eval (checkers_of n) (Some (fst r')) (cd_initializer d)) (value_post (fr_project G) c x)"
      by (rule safe_conseq [OF ev]) (use d v step [OF r] in \<open>auto simp: i const_of_frame_def valid_decl_in_module value_post_def opt_all_def split: option.splits\<close>)
  qed simp_all
qed simp

lemma eval_switch_value:
  assumes "wf_expr e" and G: "frame_ok G"
    and ev: "\<And>m e. wf_expr e \<Longrightarrow> valid_module (fr_project G) m \<Longrightarrow> safe False G (ck_eval (checkers_of n) (Some m) e) (value_post (fr_project G) m e)"
  shows "safe False G (eval_switch (checkers_of n) (Some (fr_module G)) e) (value_post (fr_project G) (fr_module G) e)"
proof -
  note here = frame_valid_module [OF G]
  show ?thesis
  proof (cases e)
    case (CN_EXPR_INT off v)
    then show ?thesis by (auto simp: eval_switch_def value_post_def intro!: safe_cret const_value.literal)
  next
    case (CN_EXPR_NAME off nm)
    show ?thesis unfolding eval_switch_def CN_EXPR_NAME cn_expr.case
      by (intro safe_cbind [OF safe_const_in_module [OF here]] eval_const_value ev) (use const_value.named in \<open>metis+\<close>)
  next
    case (CN_EXPR_FIELD off base f)
    show ?thesis unfolding eval_switch_def CN_EXPR_FIELD cn_expr.case
      by (intro safe_option safe_cret safe_cbind [OF safe_source_const] eval_const_value ev)
        (auto simp: expr_name_Some, metis const_value.member fst_conv)
  next
    case (CN_EXPR_UNARY off uop x)
    have neg: "safe False G (cbind (cdefined (c_neg64 v)) (\<lambda>v. cret (Some v))) (value_post (fr_project G) (fr_module G) (CN_EXPR_UNARY off uop x))"
      if "uop = CN_UNARY_NEGATE" "const_value (fr_project G) (fr_module G) x (sint v)" for v
    proof (cases "c_neg64 v")
      case (Some u)
      then have "sint u = - sint v" by (auto simp: c_neg64_def dest: int64_of_SomeD)
      with that Some show ?thesis
        by (auto simp: cdefined_def safe_def cwp_def cbind_def cret_def value_post_def intro: const_value.negate)
    qed (simp add: cdefined_def safe_def cwp_def cbind_def cfault_def)
    show ?thesis unfolding eval_switch_def CN_EXPR_UNARY cn_expr.case
      by (intro safe_if safe_cret safe_cbind [OF ev [OF _ here]] safe_option neg) (use assms(1) CN_EXPR_UNARY in \<open>auto simp: value_post_def\<close>)
  next
    case (CN_EXPR_BINARY off bop l r)
    show ?thesis unfolding eval_switch_def CN_EXPR_BINARY cn_expr.case
      by (intro safe_cret safe_cbind [OF ev [OF _ here]] safe_option eval_binary_value) (use assms(1) CN_EXPR_BINARY in \<open>auto simp: value_post_def\<close>)
  qed (simp_all add: eval_switch_def safe_cret)
qed

lemma eval_value:
  "wf_expr e \<Longrightarrow> valid_module (fr_project G) m \<Longrightarrow> safe False G (ck_eval (checkers_of n) (Some m) e) (value_post (fr_project G) m e)"
proof (induction n arbitrary: G m e)
  case 0
  show ?case by (simp add: safe_cfuel)
next
  case (Suc n)
  show ?case
  proof (rule safe_frame)
    assume G: "frame_ok G"
    have "frame_ok (in_module G m)" using G Suc.prems(2) by (simp add: frame_ok_def)
    with eval_switch_value [OF Suc.prems(1) this, of n] Suc.IH [of _ "in_module G m"]
    have switch: "safe False (in_module G m) (eval_switch (checkers_of n) (Some m) e) (value_post (fr_project G) m e)" by simp
    show "safe False G (ck_eval (checkers_of (Suc n)) (Some m) e) (value_post (fr_project G) m e)"
      unfolding checkers_of.simps Let_def checkers.select_convs cn_eval_const_int_expr_in_module_def moves_safe [symmetric]
    proof (rule stays_cbind [OF safe_cur_module])
      fix p assume p: "p = Some (fr_module G)"
      show "moves False G G (cseq (set_module (Some m)) (cbind (eval_switch (checkers_of n) (Some m) e) (\<lambda>v. cseq (set_module p) (cret v))))
          (value_post (fr_project G) m e)"
        unfolding p by (intro moves_cseq [OF moves_set_module [OF Suc.prems(2)]] stays_cbind [OF switch] moves_cseq [OF moves_back [OF frame_valid_module [OF G]]])
          (simp add: moves_safe safe_cret)
    qed
  qed
qed

lemma const_size_value:
  assumes "wf_expr e"
  shows "safe False G (cn_resolve_non_negative_const_size (checkers_of n) e off ec msg)
    (opt_all (\<lambda>k. const_value (fr_project G) (fr_module G) e (int k)))"
  unfolding cn_resolve_non_negative_const_size_def
proof (rule safe_frame, intro safe_cbind [OF sema.expr] safe_if safe_cseq [OF safe_mismatch] safe_cret safe_cbind [OF safe_cur_module])
  fix m assume m: "m = Some (fr_module G)" and G: "frame_ok G"
  show "safe False G (cbind (ck_eval (checkers_of n) m e) (\<lambda>v. case v of
         None \<Rightarrow> cseq (cerror ec off msg) (cret None)
       | Some v \<Rightarrow> if sint v < 0 then cseq (cerror ec off msg) (cret None) else cret (Some (nat (sint v)))))
    (opt_all (\<lambda>k. const_value (fr_project G) (fr_module G) e (int k)))"
    unfolding m by (intro safe_cbind [OF eval_value [OF assms frame_valid_module [OF G]]] safe_option safe_if safe_cseq [OF safe_cerror] safe_cret)
      (auto simp: value_post_def)
qed (simp_all add: assms scopes_ok_def)

lemma array_type_value:
  assumes "wf_type (CnType CN_TYPE_ARRAY mn nm inner (Some e) k toff)"
  shows "safe False G (cn_validate_type_ref (checkers_of n) (CnType CN_TYPE_ARRAY mn nm inner (Some e) k toff) off)
    (\<lambda>r. fst r \<longrightarrow> const_value (fr_project G) (fr_module G) e (int (array_size (snd r))))"
proof -
  have inner: "safe False G (case inner of None \<Rightarrow> cret (False, None) | Some i \<Rightarrow> cbind (ck_type (checkers_of n) i off) (\<lambda>(v, i). cret (v, Some i))) (\<lambda>_. True)"
    by (rule safe_conseq [OF sema.validate_inner]) (use assms in auto)
  show ?thesis unfolding cn_validate_type_ref_def cn_type_ref.case cn_type_kind.case Let_def option.case
    by (intro safe_cbind [OF inner] safe_prod safe_cbind [OF const_size_value] safe_cret) (use assms in \<open>auto split: option.splits\<close>)
qed

text \<open>
  C10: When the checker accepts an array type, the size that it stores is the value of the size expression
  over the integers: no wrap-around, division truncated, every constant replaced by the initializer that the
  module it is looked up in declares. This holds for any fuel, in any context that the checker reaches.
\<close>

theorem array_size_correct:
  assumes "ctx_ok G s" and "wf_type (CnType CN_TYPE_ARRAY mn nm inner (Some e) k toff)"
    and "cn_validate_type_ref (checkers_of n) (CnType CN_TYPE_ARRAY mn nm inner (Some e) k toff) off s = Done (True, y) s'"
  shows "const_value (fr_project G) (fr_module G) e (int (array_size y))"
  using safeD [OF array_type_value [OF assms(2)] assms(1), of n off] assms(3) by (simp add: cwp_def)

definition sized_type :: cn_type_ref where
  "sized_type = CnType CN_TYPE_ARRAY [] [] (Some int_ref) (Some (CN_EXPR_NAME 0 ''m'')) 0 0"

definition main_ctx :: "cn_project \<Rightarrow> cn_sema_ctx" where
  "main_ctx prj = (sema_init prj (cn_diag_bag_init None))\<lparr>cx_module := Some 0\<rparr>"

definition main_frame :: "cn_project \<Rightarrow> frame" where
  "main_frame prj = \<lparr>fr_project = erase prj, fr_module = 0, fr_function = None\<rparr>"

lemma sized_type_run: "is_done (cn_validate_type_ref (checkers_of 9) sized_type 0 (main_ctx sized_program)) (\<lambda>r. fst r \<and> array_size (snd r) = 3)"
  by code_simp

lemma sized_ctx_ok: "ctx_ok (main_frame sized_program) (main_ctx sized_program)"
  using sized_program_ok cn_diag_bag_init_laws(1) [of None]
  by (simp add: ctx_ok_def frame_ok_def main_frame_def main_ctx_def sema_init_def caches_ok_def valid_module_def mod_at_def)
    (simp add: sized_program_def program_defs)

theorem array_size_correct_witness:
  "ctx_ok (main_frame sized_program) (main_ctx sized_program) \<and> wf_type sized_type
    \<and> (\<exists>y s'. cn_validate_type_ref (checkers_of 9) sized_type 0 (main_ctx sized_program) = Done (True, y) s' \<and> array_size y = 3
      \<and> const_value (erase sized_program) 0 (CN_EXPR_NAME 0 ''m'') 3)"
proof -
  have wf: "wf_type sized_type" by (simp add: sized_type_def int_ref_def has_inner_def)
  obtain y s' where run: "cn_validate_type_ref (checkers_of 9) sized_type 0 (main_ctx sized_program) = Done (True, y) s'" "array_size y = 3"
    using sized_type_run by (auto simp: is_done_def split: outcome.splits)
  from array_size_correct [OF sized_ctx_ok wf [unfolded sized_type_def] run(1) [unfolded sized_type_def]] run(2)
  have "const_value (erase sized_program) 0 (CN_EXPR_NAME 0 ''m'') 3" by (simp add: main_frame_def)
  with wf run sized_ctx_ok show ?thesis by blast
qed

section \<open>Constants that name each other\<close>

text \<open>
  \<open>const a: int = b; const b: int = a; fn main() -> int { let x: int[a] = []; return 0; }\<close>
\<close>

definition cyclic_array :: cn_type_ref where
  "cyclic_array = CnType CN_TYPE_ARRAY [] [] (Some int_ref) (Some (CN_EXPR_NAME 0 ''a'')) 0 0"

definition cyclic_program :: cn_project where
  "cyclic_program = program_of [const_decl_of ''a'' (CN_EXPR_NAME 0 ''b''), const_decl_of ''b'' (CN_EXPR_NAME 0 ''a'')]
     [CN_STMT_LET 0 ''x'' False cyclic_array (CN_EXPR_ARRAY_LITERAL 0 [] None 0), CN_STMT_RETURN 0 (Some (CN_EXPR_INT 0 0))]"

text \<open>The pass over the constants, and the context that it leaves.\<close>

definition const_pass :: "checkers \<Rightarrow> unit cm" where
  "const_pass R = pass (\<lambda>m md p. ceach (\<lambda>i. cseq (ck_const_decl R (m, i)) (cret ())) [0..<length (pr_consts p)])"

definition cyclic_ctx :: cn_sema_ctx where
  "cyclic_ctx = (case const_pass (checkers_of 9) (sema_init cyclic_program (cn_diag_bag_init None)) of
     Done x s \<Rightarrow> s | _ \<Rightarrow> sema_init cyclic_program (cn_diag_bag_init None))"

definition checked_consts :: "cn_project \<Rightarrow> cn_project" where
  "checked_consts prj = prj\<lparr>pj_modules := map (\<lambda>md. md\<lparr>mo_program := map_option (\<lambda>p. p\<lparr>pr_consts :=
     map (\<lambda>d. d\<lparr>cd_sema_checked := True\<rparr>) (pr_consts p)\<rparr>) (mo_program md)\<rparr>) (pj_modules prj)\<rparr>"

lemma cyclic_run:
  "case const_pass (checkers_of 9) (sema_init cyclic_program (cn_diag_bag_init None)) of
     Done x s \<Rightarrow> cx_project s = checked_consts cyclic_program \<and> cx_module s = Some 0 \<and> error_count (cx_diagnostics s) = 1 \<and> cx_current_function s = None
   | _ \<Rightarrow> False"
  by code_simp

abbreviation "cyclic_checked \<equiv> checked_consts cyclic_program"

lemma cyclic_modules:
  "mod_at cyclic_checked 0 = Some (pj_modules cyclic_checked ! 0)"
  "const_in cyclic_checked 0 ''a'' = Some (0, 0)" "const_in cyclic_checked 0 ''b'' = Some (0, Suc 0)"
  by (simp_all add: checked_consts_def cyclic_program_def program_defs mod_at_def const_in_def decl_in_def pair_with_def)

lemma cyclic_const_at:
  "cx_project s = cyclic_checked \<Longrightarrow> const_at (0, 0) s = Done ((const_decl_of ''a'' (CN_EXPR_NAME 0 ''b''))\<lparr>cd_sema_checked := True\<rparr>) s"
  "cx_project s = cyclic_checked \<Longrightarrow> const_at (0, Suc 0) s = Done ((const_decl_of ''b'' (CN_EXPR_NAME 0 ''a''))\<lparr>cd_sema_checked := True\<rparr>) s"
  by (simp_all add: checked_consts_def cyclic_program_def program_of_def const_at_def program_at_def module_at_def cbind_def cget_def clift_def cret_def
      mod_at_def elem_at_def)

text \<open>A constant that is marked as checked counts as checked, and is evaluated through its initializer, for ever.\<close>

lemma cyclic_eval_const:
  assumes s: "cx_project s = cyclic_checked" and r: "r = (0, 0) \<and> nm = ''b'' \<or> r = (0, Suc 0) \<and> nm = ''a''"
    and ev: "ck_eval (checkers_of n) (Some 0) (CN_EXPR_NAME 0 nm) s = Fuel"
  shows "eval_const (checkers_of n) (Some r) s = Fuel"
proof (cases n)
  case 0
  then show ?thesis by (simp add: eval_const_def cbind_def cfuel_def)
next
  case (Suc m)
  have "ck_const_decl (checkers_of n) r s = Done True s" using s r
    by (auto simp: Suc Let_def cn_check_const_decl_def cbind_def cget_def cret_def cyclic_const_at const_decl_of_def)
  with s r ev show ?thesis
    by (auto simp: eval_const_def cbind_def cyclic_const_at const_decl_of_def int_ref_def cn_type_is_integer_like_def)
qed

lemma cyclic_eval:
  assumes "cx_project s = cyclic_checked" and "caches_ok cyclic_checked (cx_module_caches s)" and "nm = ''a'' \<or> nm = ''b''"
  shows "ck_eval (checkers_of n) (Some 0) (CN_EXPR_NAME 0 nm) s = Fuel"
  using assms
proof (induction n arbitrary: s nm)
  case 0
  show ?case by (simp add: cfuel_def)
next
  case (Suc n)
  obtain r nm' where r: "const_in cyclic_checked 0 nm = Some r" "r = (0, 0) \<and> nm' = ''b'' \<or> r = (0, Suc 0) \<and> nm' = ''a''"
    using Suc.prems(3) by (metis cyclic_modules(2,3))
  obtain cs where cs: "cn_resolve_const_in_module cyclic_checked (Some 0) nm (cx_module_caches s) = Some (Some r, cs)" "caches_ok cyclic_checked cs"
    using yieldsD [OF const_in_module_yields [OF cyclic_modules(1)] Suc.prems(2), of nm] r(1) by metis
  let ?s = "s\<lparr>cx_module := Some 0, cx_module_caches := cs\<rparr>"
  have "ck_eval (checkers_of n) (Some 0) (CN_EXPR_NAME 0 nm') ?s = Fuel" by (rule Suc.IH) (use Suc.prems cs(2) r(2) in auto)
  then have "eval_const (checkers_of n) (Some r) ?s = Fuel" by (intro cyclic_eval_const [OF _ r(2)]) (simp_all add: Suc.prems)
  with cs(1) Suc.prems(1) show ?case
    by (simp add: Let_def cn_eval_const_int_expr_in_module_def eval_switch_def cbind_def cseq_def cget_def set_module_def cput_def csema_def)
qed

lemma cyclic_state: "cx_project cyclic_ctx = cyclic_checked" "cx_module cyclic_ctx = Some 0" "caches_ok cyclic_checked (cx_module_caches cyclic_ctx)"
  "error_count (cx_diagnostics cyclic_ctx) = 1"
proof -
  let ?K = "erase cyclic_program"
  have ok: "project_ok cyclic_program" by (simp add: cyclic_program_def cyclic_array_def program_defs project_ok_def program_all_def has_inner_def)
  have "keeps False (idle ?K) (const_pass (checkers_of 9))" unfolding const_pass_def
  proof (intro keeps_pass keeps_each keeps_cseq keeps_cret safe_keeps)
    fix m md p i f assume "mod_at ?K m = Some (erase_module md)" "mo_program md = Some p" "i \<in> set [0..<length (pr_consts p)]"
    then have "valid_const ?K (m, i)" by (auto simp: valid_decl_def)
    then show "safe False \<lparr>fr_project = ?K, fr_module = m, fr_function = f\<rparr> (ck_const_decl (checkers_of 9) (m, i)) (\<lambda>_. True)"
      by (intro sema.const_decl) simp_all
  qed
  from keepsD [OF this idle_init [OF ok cn_diag_bag_init_laws(1)], of None] cyclic_run
  have "idle ?K cyclic_ctx" and c: "cx_project cyclic_ctx = cyclic_checked" "cx_module cyclic_ctx = Some 0" "error_count (cx_diagnostics cyclic_ctx) = 1"
    by (auto simp: cwp_def cyclic_ctx_def split: outcome.splits)
  then have "caches_ok (erase (cx_project cyclic_ctx)) (cx_module_caches cyclic_ctx)" by (simp add: idle_def)
  then show "cx_project cyclic_ctx = cyclic_checked" "cx_module cyclic_ctx = Some 0" "caches_ok cyclic_checked (cx_module_caches cyclic_ctx)"
    "error_count (cx_diagnostics cyclic_ctx) = 1" using c by simp_all
qed

text \<open>
  C39: Two constants that name each other are reported once (E3026) by the pass over the
  constants, and both are marked as checked. From then on the check of a type whose array
  size names one of them comes back with no fuel: the evaluation takes the mark for a
  check that succeeded, and follows the initializers round the cycle without end.
\<close>

theorem cyclic_constants_diverge:
  "error_count (cx_diagnostics cyclic_ctx) = 1 \<and> cx_project cyclic_ctx = checked_consts cyclic_program
    \<and> (\<forall>n. cn_validate_type_ref (checkers_of n) cyclic_array 0 cyclic_ctx = Fuel)"
proof (intro conjI allI)
  fix n
  show "cn_validate_type_ref (checkers_of n) cyclic_array 0 cyclic_ctx = Fuel"
  proof (cases n)
    case 0
    then show ?thesis by (simp add: cyclic_array_def cn_validate_type_ref_def cbind_def cfuel_def Let_def)
  next
    case (Suc m)
    have inner: "ck_type (checkers_of n) int_ref 0 s = Done (True, int_ref) s" for s
      by (simp add: Suc Let_def cn_validate_type_ref_def int_ref_def cret_def)
    obtain cs where cs: "cn_find_const cyclic_checked (Some 0) ''a'' (cx_module_caches cyclic_ctx) = Some (Some 0, cs)" "caches_ok cyclic_checked cs"
      using yieldsD [OF finds_yield(3) [OF cyclic_modules(1)] cyclic_state(3), of "''a''"] cyclic_modules(2)
      by (auto simp: const_in_def pair_with_def split: option.splits)
    let ?s = "cyclic_ctx\<lparr>cx_module_caches := cs\<rparr>"
    have e: "ck_expr (checkers_of n) [] (CN_EXPR_NAME 0 ''a'') (Some int_type) cyclic_ctx = Done int_ref ?s"
      using cs(1) cyclic_const_at(1) [of ?s] cyclic_state(1,2)
      by (simp add: Suc Let_def cn_check_expression_hint_def check_name_def scope_binding_def module_const_def ccur_def csema_def cbind_def cget_def clift_def
          cret_def pair_with_def const_decl_of_def)
    have "ck_eval (checkers_of n) (Some 0) (CN_EXPR_NAME 0 ''a'') ?s = Fuel"
      by (rule cyclic_eval) (simp_all add: cyclic_state cs(2))
    with inner e show ?thesis
      by (simp add: cyclic_array_def cn_validate_type_ref_def Let_def cn_resolve_non_negative_const_size_def cbind_def cget_def cret_def
          cn_type_is_integer_like_def int_ref_def cyclic_state)
  qed
qed (simp_all add: cyclic_state)

end
