(* ===== verification/Sema_Results.thy ===== *)
theory Sema_Results
  imports Sema_Value "HOL-Library.AList"
begin

text \<open>
  The proofs that a result is ok. The checker admits \<open>r.value\<close> only where a guard says that \<open>r\<close> is ok; the guards
  come from conditions, from immutable booleans that were bound to conditions, and from
  assignments of \<open>ok\<close>. Here they are compared with what the values really are: \<open>ok i\<close> tells whether the result
  in binding \<open>i\<close> is ok, \<open>bv i\<close> is the value of the boolean in binding \<open>i\<close>.
\<close>

section \<open>What is known and what is so\<close>

fun claims :: "(nat \<Rightarrow> bool) \<Rightarrow> cn_result_proof option \<Rightarrow> bool \<Rightarrow> bool" where
  "claims ok None b \<longleftrightarrow> True"
| "claims ok (Some (CN_RESULT_PROOF_LEAF i positive)) b \<longleftrightarrow> (b \<longleftrightarrow> (ok i \<longleftrightarrow> positive))"
| "claims ok (Some (CN_RESULT_PROOF_NOT p)) b \<longleftrightarrow> claims ok (Some p) (\<not> b)"
| "claims ok (Some (CN_RESULT_PROOF_AND l r)) b \<longleftrightarrow> (\<exists>x y. b = (x \<and> y) \<and> claims ok l x \<and> claims ok r y)"
| "claims ok (Some (CN_RESULT_PROOF_OR l r)) b \<longleftrightarrow> (\<exists>x y. b = (x \<or> y) \<and> claims ok l x \<and> claims ok r y)"

definition tracks :: "(nat \<Rightarrow> bool) \<Rightarrow> (nat \<Rightarrow> bool) \<Rightarrow> scopes \<Rightarrow> bool" where
  "tracks ok bv scs \<longleftrightarrow> (\<forall>sc \<in> set scs. (\<forall>i. Some i \<in> set (so_result_guards sc) \<longrightarrow> ok i)
     \<and> (\<forall>b \<in> set (so_bindings sc). claims ok (bd_result_guard_proof b) (bv (bd_id b))))"

text \<open>The values that a condition can have. What is not about results may have any value.\<close>

primrec cond_value :: "scopes \<Rightarrow> (nat \<Rightarrow> bool) \<Rightarrow> (nat \<Rightarrow> bool) \<Rightarrow> cn_expr \<Rightarrow> bool \<Rightarrow> bool" where
  "cond_value scs ok bv (CN_EXPR_INT off v) b \<longleftrightarrow> True"
| "cond_value scs ok bv (CN_EXPR_BOOL off v) b \<longleftrightarrow> b = v"
| "cond_value scs ok bv (CN_EXPR_STRING off v) b \<longleftrightarrow> True"
| "cond_value scs ok bv (CN_EXPR_NULL off) b \<longleftrightarrow> True"
| "cond_value scs ok bv (CN_EXPR_NAME off nm) b \<longleftrightarrow> (case cn_scope_lookup scs nm of Some (Some d) \<Rightarrow> b = bv (bd_id d) | _ \<Rightarrow> True)"
| "cond_value scs ok bv (CN_EXPR_UNARY off uop x) b \<longleftrightarrow> (uop = CN_UNARY_NOT \<longrightarrow> cond_value scs ok bv x (\<not> b))"
| "cond_value scs ok bv (CN_EXPR_BINARY off bop l r) b \<longleftrightarrow> (\<exists>x y. cond_value scs ok bv l x \<and> cond_value scs ok bv r y \<and> (case bop of
       CN_BINARY_EQUAL \<Rightarrow> b = (x = y)
     | CN_BINARY_NOT_EQUAL \<Rightarrow> b = (x \<noteq> y)
     | CN_BINARY_AND \<Rightarrow> b = (x \<and> y)
     | CN_BINARY_OR \<Rightarrow> b = (x \<or> y)
     | _ \<Rightarrow> True))"
| "cond_value scs ok bv (CN_EXPR_IF off c t e) b \<longleftrightarrow> True"
| "cond_value scs ok bv (CN_EXPR_CALL off f xs) b \<longleftrightarrow> True"
| "cond_value scs ok bv (CN_EXPR_ARRAY_LITERAL off xs rc n) b \<longleftrightarrow> True"
| "cond_value scs ok bv (CN_EXPR_INDEX off bs i) b \<longleftrightarrow> True"
| "cond_value scs ok bv (CN_EXPR_SLICE_VIEW off bs s e) b \<longleftrightarrow> True"
| "cond_value scs ok bv (CN_EXPR_FIELD off base f) b \<longleftrightarrow> (case expr_name base of
       Some nm \<Rightarrow> (case cn_scope_lookup scs nm of
           Some (Some d) \<Rightarrow> (f = ''ok'' \<and> type_kind (bd_type d) = CN_TYPE_RESULT \<longrightarrow> b = ok (bd_id d))
         | _ \<Rightarrow> True)
     | None \<Rightarrow> True)"
| "cond_value scs ok bv (CN_EXPR_STRUCT_LITERAL off m n fs) b \<longleftrightarrow> True"
| "cond_value scs ok bv (CN_EXPR_OK off x) b \<longleftrightarrow> True"
| "cond_value scs ok bv (CN_EXPR_ERR off) b \<longleftrightarrow> True"
| "cond_value scs ok bv (CN_EXPR_ALLOC off t) b \<longleftrightarrow> True"
| "cond_value scs ok bv (CN_EXPR_ZALLOC off t) b \<longleftrightarrow> True"
| "cond_value scs ok bv (CN_EXPR_ADDR off x) b \<longleftrightarrow> True"
| "cond_value scs ok bv (CN_EXPR_DEREF off x) b \<longleftrightarrow> True"

section \<open>Conditions\<close>

lemma lookup_binding: "cn_scope_lookup scs nm = Some (Some b) \<Longrightarrow> \<exists>sc \<in> set scs. b \<in> set (so_bindings sc)"
proof (induction scs)
  case (Cons sc scs)
  then show ?case
    by (auto simp: binding_with_def find_Some_iff split: option.splits bind_splits)
qed simp

lemma claims_known [simp]:
  "claims ok (Some (CN_RESULT_PROOF_AND l r)) True \<longleftrightarrow> claims ok l True \<and> claims ok r True"
  "claims ok (Some (CN_RESULT_PROOF_OR l r)) False \<longleftrightarrow> claims ok l False \<and> claims ok r False"
  by auto

lemma claims_connectives:
  "claims ok l x \<Longrightarrow> claims ok r y \<Longrightarrow> claims ok (Some (CN_RESULT_PROOF_AND l r)) (x \<and> y)"
  "claims ok l x \<Longrightarrow> claims ok r y \<Longrightarrow> claims ok (Some (CN_RESULT_PROOF_OR l r)) (x \<or> y)"
  unfolding claims.simps by blast+

declare claims.simps(4,5) [simp del]

lemma claims_compare: "claims ok (Some p) x \<Longrightarrow> claims ok (Some (compare_proof ne v p)) ((x = v) \<noteq> ne)"
  by (auto simp: compare_proof_def Let_def)

lemma bool_literal_value: "cn_extract_bool_literal e = Some v \<Longrightarrow> cond_value scs ok bv e x \<Longrightarrow> x = v"
  by (cases e) auto

text \<open>The two ways in which a comparison gives a proof, and the two connectives.\<close>

lemma equality_proof:
  assumes built: "cn_build_result_proof (CN_EXPR_BINARY off bop l r) scs depth = Some (Some q)" and eq: "bop \<in> {CN_BINARY_EQUAL, CN_BINARY_NOT_EQUAL}"
  obtains (r) v q' where "cn_extract_bool_literal r = Some v" "cn_build_result_proof l scs (depth + 1) = Some (Some q')"
      "q = compare_proof (bop = CN_BINARY_NOT_EQUAL) v q'"
    | (l) v q' where "cn_extract_bool_literal l = Some v" "cn_build_result_proof r scs (depth + 1) = Some (Some q')"
      "q = compare_proof (bop = CN_BINARY_NOT_EQUAL) v q'"
proof (cases "cn_extract_bool_literal r")
  case None
  then show ?thesis using built eq l by (auto split: if_splits bind_splits option.splits)
next
  case (Some v)
  obtain q1 where q1: "cn_build_result_proof l scs (depth + 1) = Some q1" using built eq Some by (auto split: if_splits bind_splits)
  show ?thesis
  proof (cases q1)
    case None
    then show ?thesis using built eq Some q1 l by (auto split: if_splits bind_splits option.splits)
  next
    case (Some q')
    then show ?thesis using built eq \<open>cn_extract_bool_literal r = Some v\<close> q1 r by (auto split: if_splits)
  qed
qed

lemma connective_proof:
  assumes "cn_build_result_proof (CN_EXPR_BINARY off bop l r) scs depth = Some (Some q)" and "bop \<notin> {CN_BINARY_EQUAL, CN_BINARY_NOT_EQUAL}"
  obtains p1 p2 where "cn_build_result_proof l scs (depth + 1) = Some p1" "cn_build_result_proof r scs (depth + 1) = Some p2"
      "bop = CN_BINARY_AND \<and> q = CN_RESULT_PROOF_AND p1 p2 \<or> bop = CN_BINARY_OR \<and> q = CN_RESULT_PROOF_OR p1 p2"
  using assms by (auto split: if_splits bind_splits)

lemma build_proof_claims:
  assumes "tracks ok bv scs" and "cn_build_result_proof e scs depth = Some p" and "cond_value scs ok bv e b"
  shows "claims ok p b"
  using assms(2,3)
proof (induction e arbitrary: depth p b)
  case (CN_EXPR_NAME off nm)
  then show ?case using assms(1) by (fastforce simp: tracks_def dest!: lookup_binding split: if_splits option.splits bind_splits)
next
  case (CN_EXPR_FIELD off base f)
  then show ?case by (auto split: if_splits option.splits bind_splits)
next
  case (CN_EXPR_UNARY off uop e)
  then show ?case by (cases p) (auto split: if_splits bind_splits)
next
  case (CN_EXPR_BINARY off bop l r)
  from CN_EXPR_BINARY.prems(2) obtain x y where xy: "cond_value scs ok bv l x" "cond_value scs ok bv r y"
    and by_op: "case bop of CN_BINARY_EQUAL \<Rightarrow> b = (x = y) | CN_BINARY_NOT_EQUAL \<Rightarrow> b = (x \<noteq> y)
      | CN_BINARY_AND \<Rightarrow> b = (x \<and> y) | CN_BINARY_OR \<Rightarrow> b = (x \<or> y) | _ \<Rightarrow> True"
    unfolding cond_value.simps by blast
  have left: "claims ok q x" if "cn_build_result_proof l scs (depth + 1) = Some q" for q by (rule CN_EXPR_BINARY.IH(1) [OF that xy(1)])
  have right: "claims ok q y" if "cn_build_result_proof r scs (depth + 1) = Some q" for q by (rule CN_EXPR_BINARY.IH(2) [OF that xy(2)])
  have built: "cn_build_result_proof (CN_EXPR_BINARY off bop l r) scs depth = Some p" by (rule CN_EXPR_BINARY.prems(1))
  show ?case
  proof (cases p)
    case None
    then show ?thesis by simp
  next
    case p: (Some q)
    show ?thesis
    proof (cases "bop \<in> {CN_BINARY_EQUAL, CN_BINARY_NOT_EQUAL}")
      case False
      from connective_proof [OF built [unfolded p] this] show ?thesis
      proof cases
        case (1 p1 p2)
        from 1(3) by_op claims_connectives [OF left [OF 1(1)] right [OF 1(2)]] show ?thesis unfolding p by auto
      qed
    next
      case eq: True
      let ?ne = "bop = CN_BINARY_NOT_EQUAL"
      have b: "b = ((x = y) \<noteq> ?ne)" using eq by_op by auto
      from equality_proof [OF built [unfolded p] eq] show ?thesis
      proof cases
        case (1 v q')
        with claims_compare [OF left [OF 1(2)], of ?ne v] bool_literal_value [OF 1(1) xy(2)] show ?thesis by (simp add: p b)
      next
        case (2 v q')
        with claims_compare [OF right [OF 2(2)], of ?ne v] bool_literal_value [OF 2(1) xy(1)] show ?thesis by (simp add: p b eq_commute)
      qed
    qed
  qed
qed auto

lemma mark_result_claims:
  "claims ok p b \<Longrightarrow> tracks ok bv target \<Longrightarrow> tracks ok bv (cn_mark_result_ok_proof_for_branch p b target)"
proof (induction p b target rule: cn_mark_result_ok_proof_for_branch.induct)
  case (2 i positive b target)
  then show ?case by (cases target) (auto simp: tracks_def cn_scope_mark_result_ok_def)
next
  case (4 l r b target)
  then show ?case by (cases b) auto
next
  case (5 l r b target)
  then show ?case by (cases b) auto
qed auto

section \<open>Assignments\<close>

lemma claims_other: "\<not> cn_result_proof_depends_on_binding i p \<Longrightarrow> claims (ok(i := st)) p b \<longleftrightarrow> claims ok p b"
  by (induction ok p b rule: claims.induct) (auto simp: claims.simps(4,5))

lemma tracks_update: "(\<And>b. bd_id (f b) = bd_id b \<and> bd_result_guard_proof (f b) = bd_result_guard_proof b) \<Longrightarrow> tracks ok bv scs \<Longrightarrow> tracks ok bv (update_binding i f scs)"
  by (auto simp: tracks_def update_binding_def)

lemma tracks_invalidate: "tracks ok bv scs \<Longrightarrow> tracks (ok(i := st)) bv (cn_scope_invalidate_result_proofs i scs)"
  by (auto simp: tracks_def cn_scope_invalidate_result_proofs_def claims_other)

lemma tracks_mark: "tracks ok bv scs \<Longrightarrow> ok i \<Longrightarrow> tracks ok bv (cn_scope_mark_result_ok i scs)"
  by (cases scs) (auto simp: tracks_def cn_scope_mark_result_ok_def)

lemma tracks_enter: "tracks ok bv scs \<Longrightarrow> tracks ok bv (enter_scope d scs)"
  by (simp add: tracks_def enter_scope_def)

text \<open>
  C11: The guards say what is so. If what the scopes claim agrees with the values of the results and
  booleans, it still does when the checker enters the branch that a condition takes, whatever that
  condition is built from, and when it has followed an assignment to a result, which withdraws every
  guard and every boolean that rested on the old value, and sets a guard for \<open>ok\<close> only.
\<close>

theorem result_guards_sound:
  assumes "tracks ok bv scs"
  shows "(cond_value scs ok bv c b \<and> guard_scope scs c b s = Done scs' s' \<longrightarrow> tracks ok bv scs')
    \<and> (cn_scope_lookup scs nm = Some (Some d) \<and> type_kind (bd_type d) = CN_TYPE_RESULT \<and> (is_ok_expr e \<longrightarrow> st)
        \<and> assign_binding scs nm e z s = Done scs'' s'' \<longrightarrow> tracks (ok(bd_id d := st)) bv scs'')"
proof (intro conjI impI)
  assume *: "cond_value scs ok bv c b \<and> guard_scope scs c b s = Done scs' s'"
  then obtain p where p: "cn_build_result_proof c scs 0 = Some p" "scs' = cn_mark_result_ok_proof_for_branch p b (enter_scope (zone_depth scs) scs)"
    by (auto simp: guard_scope_def cn_mark_result_ok_proofs_for_branch_def cbind_def clift_def cret_def cfault_def split: option.splits)
  with * show "tracks ok bv scs'" by (auto intro!: mark_result_claims build_proof_claims tracks_enter assms)
next
  assume *: "cn_scope_lookup scs nm = Some (Some d) \<and> type_kind (bd_type d) = CN_TYPE_RESULT \<and> (is_ok_expr e \<longrightarrow> st)
        \<and> assign_binding scs nm e z s = Done scs'' s''"
  let ?scs = "cn_scope_invalidate_result_proofs (bd_id d) (update_binding (bd_id d) (\<lambda>b. b\<lparr>bd_value_zone_depth := z\<rparr>) scs)"
  have "tracks (ok(bd_id d := st)) bv ?scs" by (intro tracks_invalidate tracks_update assms) simp
  moreover from * have "scs'' = (if is_ok_expr e then cn_scope_mark_result_ok (bd_id d) ?scs else ?scs)"
    by (auto simp: assign_binding_def scope_binding_def Let_def cbind_def clift_def cret_def)
  ultimately show "tracks (ok(bd_id d := st)) bv scs''" using * by (auto intro!: tracks_mark)
qed

definition result_ref :: cn_type_ref where
  "result_ref = CnType CN_TYPE_RESULT [] [] (Some int_ref) None 0 0"

definition guarded_scopes :: scopes where
  "guarded_scopes = (case cn_scope_define ''r'' result_ref True 0 0 (enter_scope 0 []) (main_ctx sized_program) of
     Done x s \<Rightarrow> snd x | _ \<Rightarrow> [])"

definition is_ok_of_r :: cn_expr where
  "is_ok_of_r = CN_EXPR_FIELD 0 (CN_EXPR_NAME 0 ''r'') ''ok''"

lemma guarded_scopes_run:
  "length guarded_scopes = 1" "\<forall>sc \<in> set guarded_scopes. so_result_guards sc = [] \<and> (\<forall>b \<in> set (so_bindings sc). bd_result_guard_proof b = None)"
  "map_option (map_option bd_id) (cn_scope_lookup guarded_scopes ''r'') = Some (Some 0)"
  "is_done (guard_scope guarded_scopes is_ok_of_r True (main_ctx sized_program)) (\<lambda>scs. cn_scope_result_is_ok scs 0)"
  by code_simp+

theorem result_guards_sound_witness:
  "\<exists>scs' s'. tracks (\<lambda>i. i = 0) (\<lambda>_. True) guarded_scopes \<and> cond_value guarded_scopes (\<lambda>i. i = 0) (\<lambda>_. True) is_ok_of_r True
    \<and> guard_scope guarded_scopes is_ok_of_r True (main_ctx sized_program) = Done scs' s' \<and> cn_scope_result_is_ok scs' 0
    \<and> tracks (\<lambda>i. i = 0) (\<lambda>_. True) scs'"
proof -
  have t: "tracks (\<lambda>i. i = 0) (\<lambda>_. True) guarded_scopes" using guarded_scopes_run(2) by (auto simp: tracks_def)
  have c: "cond_value guarded_scopes (\<lambda>i. i = 0) (\<lambda>_. True) is_ok_of_r True"
    using guarded_scopes_run(3) by (auto simp: is_ok_of_r_def split: option.splits)
  obtain scs' s' where g: "guard_scope guarded_scopes is_ok_of_r True (main_ctx sized_program) = Done scs' s'" "cn_scope_result_is_ok scs' 0"
    using guarded_scopes_run(4) by (auto simp: is_done_def split: outcome.splits)
  from conjunct1 [OF result_guards_sound [OF t]] c g show ?thesis using t by blast
qed

section \<open>A value that is not there\<close>

text \<open>
  What programs of results do: \<open>let\<close>, assignments to names, conditionals and \<open>return\<close>. Everything
  else is outside of this fragment.
\<close>

datatype cn_value = VInt int | VBool bool | VOk cn_value | VErr

datatype 'a run = Val 'a | NoValue | Outside

definition run_bind :: "'a run \<Rightarrow> ('a \<Rightarrow> 'b run) \<Rightarrow> 'b run" where
  "run_bind r f = (case r of Val x \<Rightarrow> f x | NoValue \<Rightarrow> NoValue | Outside \<Rightarrow> Outside)"

type_synonym store = "(string \<times> cn_value) list"

fun value_of :: "store \<Rightarrow> cn_expr \<Rightarrow> cn_value run" where
  "value_of st (CN_EXPR_INT off v) = Val (VInt (sint v))"
| "value_of st (CN_EXPR_BOOL off b) = Val (VBool b)"
| "value_of st (CN_EXPR_NAME off nm) = (case map_of st nm of None \<Rightarrow> Outside | Some v \<Rightarrow> Val v)"
| "value_of st (CN_EXPR_OK off x) = run_bind (value_of st x) (\<lambda>v. Val (VOk v))"
| "value_of st (CN_EXPR_ERR off) = Val VErr"
| "value_of st (CN_EXPR_UNARY off uop x) = run_bind (value_of st x) (\<lambda>v. case v of
       VBool b \<Rightarrow> if uop = CN_UNARY_NOT then Val (VBool (\<not> b)) else Outside | _ \<Rightarrow> Outside)"
| "value_of st (CN_EXPR_FIELD off x f) = run_bind (value_of st x) (\<lambda>v.
     if f = ''ok'' then (case v of VOk w \<Rightarrow> Val (VBool True) | VErr \<Rightarrow> Val (VBool False) | _ \<Rightarrow> Outside)
     else if f = ''value'' then (case v of VOk w \<Rightarrow> Val w | VErr \<Rightarrow> NoValue | _ \<Rightarrow> Outside)
     else Outside)"
| "value_of st e = Outside"

text \<open>A statement gives the store, or the value that is returned.\<close>

fun run_stmt :: "store \<Rightarrow> cn_stmt \<Rightarrow> (store + cn_value) run"
and run_stmts :: "store \<Rightarrow> cn_stmt list \<Rightarrow> (store + cn_value) run"
and run_block :: "store \<Rightarrow> cn_block \<Rightarrow> (store + cn_value) run" where
  "run_stmt st (CN_STMT_LET off nm m t e) = run_bind (value_of st e) (\<lambda>v. Val (Inl ((nm, v) # st)))"
| "run_stmt st (CN_STMT_ASSIGN off (CN_EXPR_NAME off' nm) e) = run_bind (value_of st e) (\<lambda>v. Val (Inl (AList.update nm v st)))"
| "run_stmt st (CN_STMT_RETURN off (Some e)) = run_bind (value_of st e) (\<lambda>v. Val (Inr v))"
| "run_stmt st (CN_STMT_IF off c th el) = run_bind (value_of st c) (\<lambda>v. case v of
       VBool True \<Rightarrow> run_block st th
     | VBool False \<Rightarrow> (case el of None \<Rightarrow> Val (Inl st) | Some b \<Rightarrow> run_block st b)
     | _ \<Rightarrow> Outside)"
| "run_stmt st s = Outside"
| "run_stmts st [] = Val (Inl st)"
| "run_stmts st (s # ss) = run_bind (run_stmt st s) (\<lambda>x. case x of Inl st \<Rightarrow> run_stmts st ss | Inr v \<Rightarrow> Val (Inr v))"
| "run_block st (CnBlock ss off) = run_bind (run_stmts st ss) (\<lambda>x. case x of
       Inl st' \<Rightarrow> Val (Inl (drop (length st' - length st) st')) | Inr v \<Rightarrow> Val (Inr v))"

text \<open>
  \<open>let mut r: result int = ok 1; if !r.ok { return 0; } else { r = err; } return r.value;\<close>
\<close>

definition lost_result_body :: "cn_stmt list" where
  "lost_result_body =
    [CN_STMT_LET 0 ''r'' True result_ref (CN_EXPR_OK 0 (CN_EXPR_INT 0 1)),
     CN_STMT_IF 0 (CN_EXPR_UNARY 0 CN_UNARY_NOT is_ok_of_r) (CnBlock [CN_STMT_RETURN 0 (Some (CN_EXPR_INT 0 0))] 0)
       (Some (CnBlock [CN_STMT_ASSIGN 0 (CN_EXPR_NAME 0 ''r'') (CN_EXPR_ERR 0)] 0)),
     CN_STMT_RETURN 0 (Some (CN_EXPR_FIELD 0 (CN_EXPR_NAME 0 ''r'') ''value''))]"

lemma lost_result_runs: "run_stmts [] lost_result_body = NoValue"
  by code_simp

lemma lost_result_checked: "is_done (cn_sema_check_project 9 (program_of [] lost_result_body) (cn_diag_bag_init None)) (\<lambda>ok. ok)"
  by code_simp


end
