(* ===== verification/Lower.thy ===== *)
theory Lower
  imports Modules Ir
begin

text \<open>
  The lowering of checked trees to the intermediate representation, \<open>src/ir/lower.c\<close>. A function
  of the lowering is a state transformer on the context that returns, follows a null
  pointer, or runs out of the fuel that bounds the recursion (the use of a constant lowers its initializer, which
  is no part of the expression that names it). A scope with its parents is a list, innermost first, and a null
  scope is the empty list; so are the frames of deferred statements.

  After an internal error some nodes are left half built. A child that was not set is \<open>unset_expr\<close>, the
  null literal without a type, which the lowering does not build otherwise, and a type that is null in
  a place that holds a type is \<open>unset_type\<close>. The project is then dropped. The parser defers only expression and free
  statements, which leave the scope that was captured for them as it is.
\<close>

section \<open>Context and outcomes\<close>

text \<open>\<open>lx_owned_names\<close> are the names that the current function owns, if there is a current function.\<close>

record cn_ir_lower_ctx =
  lx_module :: nat
  lx_diagnostics :: cn_diag_bag
  lx_owned_names :: "string list option"
  lx_temp_index :: nat

datatype 'a lowered = Lowered 'a cn_ir_lower_ctx | LowerFault | LowerFuel

type_synonym 'a lm = "cn_ir_lower_ctx \<Rightarrow> 'a lowered"

definition lret :: "'a \<Rightarrow> 'a lm" where
  "lret x s = Lowered x s"

definition lbind :: "'a lm \<Rightarrow> ('a \<Rightarrow> 'b lm) \<Rightarrow> 'b lm" where
  "lbind m k s = (case m s of Lowered x s' \<Rightarrow> k x s' | LowerFault \<Rightarrow> LowerFault | LowerFuel \<Rightarrow> LowerFuel)"

definition lget :: "(cn_ir_lower_ctx \<Rightarrow> 'a) \<Rightarrow> 'a lm" where
  "lget f s = Lowered (f s) s"

definition lput :: "(cn_ir_lower_ctx \<Rightarrow> cn_ir_lower_ctx) \<Rightarrow> unit lm" where
  "lput f s = Lowered () (f s)"

definition llift :: "'a option \<Rightarrow> 'a lm" where
  "llift r s = (case r of None \<Rightarrow> LowerFault | Some x \<Rightarrow> Lowered x s)"

definition lfuel :: "'a lm" where
  "lfuel s = LowerFuel"

text \<open>A null pointer is handed on.\<close>

definition lsome :: "'a option lm \<Rightarrow> ('a \<Rightarrow> 'b option lm) \<Rightarrow> 'b option lm" where
  "lsome m k = lbind m (\<lambda>r. case r of None \<Rightarrow> lret None | Some x \<Rightarrow> k x)"

text \<open>A lookup from the current module.\<close>

definition lhere :: "(nat \<Rightarrow> 'a option) \<Rightarrow> 'a lm" where
  "lhere f = lbind (lget lx_module) (\<lambda>m. llift (f m))"

definition cn_ir_emit_internal_error :: "nat \<Rightarrow> string \<Rightarrow> unit lm" where
  "cn_ir_emit_internal_error off msg = lput (\<lambda>s. s\<lparr>lx_diagnostics := cn_diag_emit (lx_diagnostics s) CN_DIAG_ERROR ''E3020'' off msg\<rparr>)"

section \<open>Scopes\<close>

record cn_ir_binding =
  ib_name :: string
  ib_type :: "cn_ir_type option"
  ib_is_mutable :: bool

record cn_ir_scope =
  is_bindings :: "cn_ir_binding list"
  is_zone_name :: string

type_synonym ir_scopes = "cn_ir_scope list"

definition empty_scope :: cn_ir_scope where
  "empty_scope = \<lparr>is_bindings = [], is_zone_name = []\<rparr>"

fun cn_ir_scope_lookup :: "ir_scopes \<Rightarrow> string \<Rightarrow> cn_ir_binding option" where
  "cn_ir_scope_lookup [] nm = None"
| "cn_ir_scope_lookup (sc # scs) nm = (case find (\<lambda>b. cn_name_eq (ib_name b) nm) (is_bindings sc) of
       Some b \<Rightarrow> Some b
     | None \<Rightarrow> cn_ir_scope_lookup scs nm)"

fun cn_ir_scope_current_zone_name :: "ir_scopes \<Rightarrow> string" where
  "cn_ir_scope_current_zone_name [] = []"
| "cn_ir_scope_current_zone_name (sc # scs) = (if is_zone_name sc \<noteq> [] then is_zone_name sc else cn_ir_scope_current_zone_name scs)"

definition cn_ir_scope_define :: "string \<Rightarrow> cn_ir_type option \<Rightarrow> bool \<Rightarrow> ir_scopes \<Rightarrow> ir_scopes lm" where
  "cn_ir_scope_define nm ty is_mutable scs = lbind (llift (case scs of [] \<Rightarrow> None | sc # rest \<Rightarrow> Some (sc, rest))) (\<lambda>(sc, rest).
     if list_ex (\<lambda>b. cn_name_eq (ib_name b) nm) (is_bindings sc)
     then lbind (cn_ir_emit_internal_error 0 (''typed IR lowering hit a duplicate binding invariant for '' @ c_quote @ nm @ c_quote)) (\<lambda>_. lret scs)
     else lret (sc\<lparr>is_bindings := \<lparr>ib_name = nm, ib_type = ty, ib_is_mutable = is_mutable\<rparr> # is_bindings sc\<rparr> # rest))"

text \<open>One scope with all visible bindings, in the order in which they are found.\<close>

fun visible_bindings :: "cn_ir_binding list \<Rightarrow> cn_ir_binding list \<Rightarrow> cn_ir_binding list" where
  "visible_bindings seen [] = seen"
| "visible_bindings seen (b # bs) = visible_bindings (if list_ex (\<lambda>c. cn_name_eq (ib_name c) (ib_name b)) seen then seen
     else seen @ [b\<lparr>ib_type := cn_ir_type_clone (ib_type b)\<rparr>]) bs"

definition cn_ir_capture_scope :: "ir_scopes \<Rightarrow> cn_ir_scope" where
  "cn_ir_capture_scope scs = \<lparr>is_bindings = fold (\<lambda>sc seen. visible_bindings seen (is_bindings sc)) scs [],
     is_zone_name = cn_ir_scope_current_zone_name scs\<rparr>"

text \<open>The buffer of 64 bytes is long enough for both prefixes and any counter.\<close>

definition cn_ir_make_generated_name :: "string \<Rightarrow> string lm" where
  "cn_ir_make_generated_name prefix = lbind (lget lx_temp_index) (\<lambda>i.
     let nm = ''__cn_'' @ prefix @ ''_'' @ nat_digits i
     in lbind (lput (\<lambda>s. s\<lparr>lx_temp_index := i + 1, lx_owned_names := map_option (\<lambda>ns. ns @ [nm]) (lx_owned_names s)\<rparr>)) (\<lambda>_. lret nm))"

section \<open>Types\<close>

definition cn_ir_make_builtin_type :: "cn_ir_type_kind \<Rightarrow> cn_ir_type" where
  "cn_ir_make_builtin_type k = cn_ir_type_create k [] [] None 0"

definition cn_ir_make_ptr_type :: "cn_ir_type option \<Rightarrow> cn_ir_type" where
  "cn_ir_make_ptr_type inner = cn_ir_type_create CN_IR_TYPE_PTR [] [] (cn_ir_type_clone inner) 0"

definition cn_ir_make_result_type :: "cn_ir_type option \<Rightarrow> cn_ir_type" where
  "cn_ir_make_result_type inner = cn_ir_type_create CN_IR_TYPE_RESULT [] [] (cn_ir_type_clone inner) 0"

function cn_ir_type_matches :: "cn_ir_type option \<Rightarrow> cn_ir_type option \<Rightarrow> bool" where
  "cn_ir_type_matches None r \<longleftrightarrow> False"
| "cn_ir_type_matches (Some l) None \<longleftrightarrow> False"
| "cn_ir_type_matches (Some l) (Some r) \<longleftrightarrow> ir_kind l = ir_kind r \<and> (case ir_kind l of
       CN_IR_TYPE_RESULT \<Rightarrow> cn_ir_type_matches (ir_inner l) (ir_inner r)
     | CN_IR_TYPE_PTR \<Rightarrow> cn_ir_type_matches (ir_inner l) (ir_inner r)
     | CN_IR_TYPE_SLICE \<Rightarrow> cn_ir_type_matches (ir_inner l) (ir_inner r)
     | CN_IR_TYPE_ARRAY \<Rightarrow> ir_array_size l = ir_array_size r \<and> cn_ir_type_matches (ir_inner l) (ir_inner r)
     | CN_IR_TYPE_NAMED \<Rightarrow> cn_name_eq (ir_module l) (ir_module r) \<and> cn_name_eq (ir_name l) (ir_name r)
     | _ \<Rightarrow> True)"
  by pat_completeness auto
termination
proof (relation "measure (\<lambda>(l, r). size_option size l)", goal_cases)
  case (2 l r)
  then show ?case by (cases l) auto
next
  case (3 l r)
  then show ?case by (cases l) auto
next
  case (4 l r)
  then show ?case by (cases l) auto
next
  case (5 l r)
  then show ?case by (cases l) auto
qed simp

definition has_ir_kind :: "cn_ir_type option \<Rightarrow> cn_ir_type_kind \<Rightarrow> bool" where
  "has_ir_kind ty k \<longleftrightarrow> (case ty of None \<Rightarrow> False | Some t \<Rightarrow> ir_kind t = k)"

fun ir_expr_offset :: "cn_ir_expr \<Rightarrow> nat" where
  "ir_expr_offset (CN_IR_EXPR_INT ty off v) = off"
| "ir_expr_offset (CN_IR_EXPR_BOOL ty off b) = off"
| "ir_expr_offset (CN_IR_EXPR_STRING ty off v) = off"
| "ir_expr_offset (CN_IR_EXPR_NULL ty off) = off"
| "ir_expr_offset (CN_IR_EXPR_LOCAL ty off nm) = off"
| "ir_expr_offset (CN_IR_EXPR_UNARY ty off uop x) = off"
| "ir_expr_offset (CN_IR_EXPR_BINARY ty off bop l r) = off"
| "ir_expr_offset (CN_IR_EXPR_IF ty off c t e) = off"
| "ir_expr_offset (CN_IR_EXPR_CALL ty off k m f xs) = off"
| "ir_expr_offset (CN_IR_EXPR_ARRAY_LITERAL ty off xs) = off"
| "ir_expr_offset (CN_IR_EXPR_SLICE_FROM_ARRAY ty off x) = off"
| "ir_expr_offset (CN_IR_EXPR_INDEX ty off b i) = off"
| "ir_expr_offset (CN_IR_EXPR_SLICE_VIEW ty off b s e) = off"
| "ir_expr_offset (CN_IR_EXPR_FIELD ty off b f) = off"
| "ir_expr_offset (CN_IR_EXPR_STRUCT_LITERAL ty off m n fs) = off"
| "ir_expr_offset (CN_IR_EXPR_OK ty off x) = off"
| "ir_expr_offset (CN_IR_EXPR_ERR ty off) = off"
| "ir_expr_offset (CN_IR_EXPR_ALLOC ty off t) = off"
| "ir_expr_offset (CN_IR_EXPR_ZALLOC ty off t z) = off"
| "ir_expr_offset (CN_IR_EXPR_ADDR ty off x) = off"
| "ir_expr_offset (CN_IR_EXPR_DEREF ty off x) = off"

text \<open>The null case of the first argument is \<open>lsome\<close> at the calls.\<close>

definition cn_ir_wrap_array_as_slice_if_needed :: "cn_ir_expr \<Rightarrow> cn_ir_type option \<Rightarrow> cn_ir_expr" where
  "cn_ir_wrap_array_as_slice_if_needed e expected = (case expected of
       None \<Rightarrow> e
     | Some ex \<Rightarrow> if ir_kind ex \<noteq> CN_IR_TYPE_SLICE then e
         else (case expr_type e of
             None \<Rightarrow> e
           | Some ty \<Rightarrow> if ir_kind ty \<noteq> CN_IR_TYPE_ARRAY \<or> \<not> cn_ir_type_matches (ir_inner ex) (ir_inner ty) then e
               else CN_IR_EXPR_SLICE_FROM_ARRAY (cn_ir_type_clone expected) (ir_expr_offset e) e))"

definition cn_ir_unary_from_ast :: "cn_unary_op \<Rightarrow> cn_ir_unary_op" where
  "cn_ir_unary_from_ast uop = (case uop of CN_UNARY_NEGATE \<Rightarrow> CN_IR_UNARY_NEGATE | CN_UNARY_NOT \<Rightarrow> CN_IR_UNARY_NOT)"

definition cn_ir_binary_from_ast :: "cn_binary_op \<Rightarrow> cn_ir_binary_op" where
  "cn_ir_binary_from_ast bop = (case bop of
       CN_BINARY_ADD \<Rightarrow> CN_IR_BINARY_ADD
     | CN_BINARY_SUB \<Rightarrow> CN_IR_BINARY_SUB
     | CN_BINARY_MUL \<Rightarrow> CN_IR_BINARY_MUL
     | CN_BINARY_DIV \<Rightarrow> CN_IR_BINARY_DIV
     | CN_BINARY_MOD \<Rightarrow> CN_IR_BINARY_MOD
     | CN_BINARY_EQUAL \<Rightarrow> CN_IR_BINARY_EQUAL
     | CN_BINARY_NOT_EQUAL \<Rightarrow> CN_IR_BINARY_NOT_EQUAL
     | CN_BINARY_LESS \<Rightarrow> CN_IR_BINARY_LESS
     | CN_BINARY_LESS_EQUAL \<Rightarrow> CN_IR_BINARY_LESS_EQUAL
     | CN_BINARY_GREATER \<Rightarrow> CN_IR_BINARY_GREATER
     | CN_BINARY_GREATER_EQUAL \<Rightarrow> CN_IR_BINARY_GREATER_EQUAL
     | CN_BINARY_AND \<Rightarrow> CN_IR_BINARY_AND
     | CN_BINARY_OR \<Rightarrow> CN_IR_BINARY_OR)"

abbreviation "ir_int \<equiv> Some (cn_ir_make_builtin_type CN_IR_TYPE_INT)"
abbreviation "ir_bool \<equiv> Some (cn_ir_make_builtin_type CN_IR_TYPE_BOOL)"
abbreviation "ir_str \<equiv> Some (cn_ir_make_builtin_type CN_IR_TYPE_STR)"
abbreviation "ir_void \<equiv> Some (cn_ir_make_builtin_type CN_IR_TYPE_VOID)"
abbreviation "ir_unknown \<equiv> Some (cn_ir_make_builtin_type CN_IR_TYPE_UNKNOWN)"

definition unset_expr :: cn_ir_expr where
  "unset_expr = CN_IR_EXPR_NULL None 0"

definition child :: "cn_ir_expr option \<Rightarrow> cn_ir_expr" where
  "child e = (case e of None \<Rightarrow> unset_expr | Some x \<Rightarrow> x)"

definition unset_type :: cn_ir_type where
  "unset_type = cn_ir_type_create CN_IR_TYPE_UNKNOWN [] [] None 0"

definition child_type :: "cn_ir_type option \<Rightarrow> cn_ir_type" where
  "child_type ty = (case ty of None \<Rightarrow> unset_type | Some t \<Rightarrow> t)"

definition cn_ir_make_int_literal :: "nat \<Rightarrow> int64 \<Rightarrow> cn_ir_expr" where
  "cn_ir_make_int_literal off v = CN_IR_EXPR_INT ir_int off v"

definition cn_ir_make_local_expr :: "nat \<Rightarrow> string \<Rightarrow> cn_ir_type option \<Rightarrow> cn_ir_expr" where
  "cn_ir_make_local_expr off nm ty = CN_IR_EXPR_LOCAL (cn_ir_type_clone ty) off nm"

definition cn_ir_make_hidden_builtin_call :: "nat \<Rightarrow> string \<Rightarrow> cn_ir_type option \<Rightarrow> cn_ir_expr list \<Rightarrow> cn_ir_expr" where
  "cn_ir_make_hidden_builtin_call off f ty args = CN_IR_EXPR_CALL ty off CN_IR_CALL_BUILTIN [] f args"

definition zone_pointer :: cn_ir_type where
  "zone_pointer = cn_ir_make_ptr_type (Some (cn_ir_make_builtin_type CN_IR_TYPE_U8))"

definition cn_ir_make_zone_release_stmt :: "string \<Rightarrow> nat \<Rightarrow> cn_ir_stmt" where
  "cn_ir_make_zone_release_stmt zone_name off = CN_IR_STMT_EXPR off
     (cn_ir_make_hidden_builtin_call off ''__zone_release'' ir_void [cn_ir_make_local_expr off zone_name (Some zone_pointer)])"

end
