(* ===== verification/Lower_Expr.thy ===== *)
theory Lower_Expr
  imports Lower
begin

text \<open>
  The lowering of expressions. A function takes the callee \<open>L\<close> for the expressions that it lowers in turn;
  \<open>lower_expr_of\<close> ties the knot with fuel. The expected type of an expression may be null. A call whose target was
  not found keeps the target kind that it had before, which no one reads.
\<close>

type_synonym expr_lowering = "ir_scopes \<Rightarrow> cn_expr \<Rightarrow> cn_ir_type option \<Rightarrow> cn_ir_expr option lm"

section \<open>Declarations\<close>

definition ir_decl :: "(cn_program \<Rightarrow> 'd list) \<Rightarrow> cn_project \<Rightarrow> nat \<times> nat \<Rightarrow> 'd option" where
  "ir_decl decls prj r = do {
     md \<leftarrow> mod_at prj (fst r);
     p \<leftarrow> mo_program md;
     (if snd r < length (decls p) then Some (decls p ! snd r) else None) }"

definition module_name_of :: "cn_project \<Rightarrow> nat \<Rightarrow> string option" where
  "module_name_of prj m = map_option mo_name (mod_at prj m)"

section \<open>Constants\<close>

definition cn_ir_lower_const_use :: "cn_project \<Rightarrow> expr_lowering \<Rightarrow> nat \<times> nat \<Rightarrow> cn_ir_type option \<Rightarrow> cn_ir_expr option lm" where
  "cn_ir_lower_const_use prj L r expected =
     lbind (llift (ir_decl pr_consts prj r)) (\<lambda>d.
     lbind (lget lx_module) (\<lambda>previous_module.
     lbind (lput (\<lambda>s. s\<lparr>lx_module := fst r\<rparr>)) (\<lambda>_.
     lbind (L [] (cd_initializer d) expected) (\<lambda>e.
     lbind (lput (\<lambda>s. s\<lparr>lx_module := previous_module\<rparr>)) (\<lambda>_. lret e)))))"

definition cn_ir_lower_with_builtin_expected :: "expr_lowering \<Rightarrow> ir_scopes \<Rightarrow> cn_expr \<Rightarrow> cn_ir_type_kind \<Rightarrow> cn_ir_expr option lm" where
  "cn_ir_lower_with_builtin_expected L scs e k = L scs e (Some (cn_ir_make_builtin_type k))"

section \<open>Literals\<close>

text \<open>A loop that pushes the lowered items until one is null; it tells whether it came to the end.\<close>

fun lower_items :: "expr_lowering \<Rightarrow> ir_scopes \<Rightarrow> (cn_expr \<times> cn_ir_type option) list \<Rightarrow> cn_ir_expr list \<Rightarrow> (bool \<times> cn_ir_expr list) lm" where
  "lower_items L scs [] items = lret (True, items)"
| "lower_items L scs ((e, expected) # es) items = lbind (L scs e expected) (\<lambda>r. case r of
       None \<Rightarrow> lret (False, items)
     | Some x \<Rightarrow> lower_items L scs es (items @ [x]))"

definition literal_items :: "cn_expr list \<Rightarrow> cn_expr option \<Rightarrow> nat \<Rightarrow> cn_expr list option" where
  "literal_items items repeat_count_expr repeat_count = (case repeat_count_expr of
       None \<Rightarrow> Some items
     | Some _ \<Rightarrow> if repeat_count = 0 then Some [] else (case items of [] \<Rightarrow> None | e # _ \<Rightarrow> Some (replicate repeat_count e)))"

definition cn_ir_lower_array_literal ::
    "expr_lowering \<Rightarrow> ir_scopes \<Rightarrow> nat \<Rightarrow> cn_expr list \<Rightarrow> cn_expr option \<Rightarrow> nat \<Rightarrow> cn_ir_type option \<Rightarrow> cn_ir_expr option lm" where
  "cn_ir_lower_array_literal L scs off items repeat_count_expr repeat_count expected =
     (let element_expected = (case expected of
          None \<Rightarrow> None
        | Some t \<Rightarrow> if ir_kind t = CN_IR_TYPE_ARRAY then ir_inner t else None)
      in lbind (llift (literal_items items repeat_count_expr repeat_count)) (\<lambda>es.
         lbind (lower_items L scs (map (\<lambda>e. (e, element_expected)) es) []) (\<lambda>(complete, xs).
         if \<not> complete then lret (Some (CN_IR_EXPR_ARRAY_LITERAL None off xs))
         else if has_ir_kind expected CN_IR_TYPE_ARRAY then lret (Some (CN_IR_EXPR_ARRAY_LITERAL (cn_ir_type_clone expected) off xs))
         else
           let element_type = (case xs of [] \<Rightarrow> ir_unknown | x # _ \<Rightarrow> cn_ir_type_clone (expr_type x));
               ty = cn_ir_type_create CN_IR_TYPE_ARRAY [] [] element_type (length xs)
           in lret (Some (cn_ir_wrap_array_as_slice_if_needed (CN_IR_EXPR_ARRAY_LITERAL (Some ty) off xs) expected)))))"

fun lower_field_inits :: "expr_lowering \<Rightarrow> ir_scopes \<Rightarrow> cn_struct_decl \<Rightarrow> cn_field_init list \<Rightarrow> (string \<times> cn_ir_expr) list
    \<Rightarrow> (bool \<times> (string \<times> cn_ir_expr) list) lm" where
  "lower_field_inits L scs d [] flds = lret (True, flds)"
| "lower_field_inits L scs d (fi # fis) flds = (case cn_ir_find_struct_field d (field_init_name fi) of
       None \<Rightarrow> lbind (cn_ir_emit_internal_error (field_init_offset fi) ''typed IR lowering lost a checked struct field'') (\<lambda>_. lret (False, flds))
     | Some j \<Rightarrow> lbind (L scs (field_init_value fi) (cn_ir_type_from_ast (Some (sf_type (sd_fields d ! j))))) (\<lambda>r. case r of
           None \<Rightarrow> lret (False, flds)
         | Some x \<Rightarrow> lower_field_inits L scs d fis (flds @ [(field_init_name fi, x)])))"

definition cn_ir_lower_struct_literal ::
    "cn_project \<Rightarrow> expr_lowering \<Rightarrow> ir_scopes \<Rightarrow> nat \<Rightarrow> string \<Rightarrow> string \<Rightarrow> cn_field_init list \<Rightarrow> cn_ir_expr option lm" where
  "cn_ir_lower_struct_literal prj L scs off mn nm inits =
     lbind (lhere (\<lambda>cur. cn_ir_resolve_source_named_struct prj cur mn nm)) (\<lambda>r. case r of
       None \<Rightarrow> lbind (cn_ir_emit_internal_error off ''typed IR lowering could not resolve a checked struct literal'') (\<lambda>_. lret None)
     | Some r \<Rightarrow>
         lbind (llift (ir_decl pr_structs prj r)) (\<lambda>d.
         lbind (llift (module_name_of prj (fst r))) (\<lambda>md.
         lbind (lower_field_inits L scs d inits []) (\<lambda>(complete, flds).
         lret (Some (CN_IR_EXPR_STRUCT_LITERAL
           (if complete then Some (cn_ir_type_create CN_IR_TYPE_NAMED md (sd_name d) None 0) else None) off md (sd_name d) flds))))))"

section \<open>Access\<close>

text \<open>The type of a field of a struct, or the unknown type when an error was reported.\<close>

definition lower_struct_field_type :: "cn_project \<Rightarrow> nat \<Rightarrow> string \<Rightarrow> cn_ir_type \<Rightarrow> cn_ir_type option lm" where
  "lower_struct_field_type prj off f t =
     lbind (lhere (\<lambda>cur. cn_ir_resolve_canonical_named_struct prj cur (ir_module t) (ir_name t))) (\<lambda>r. case r of
       None \<Rightarrow> lbind (cn_ir_emit_internal_error off ''typed IR lowering lost a checked named struct type'') (\<lambda>_. lret ir_unknown)
     | Some r \<Rightarrow> lbind (llift (ir_decl pr_structs prj r)) (\<lambda>d. case cn_ir_find_struct_field d f of
           None \<Rightarrow> lbind (cn_ir_emit_internal_error off ''typed IR lowering lost a checked struct field access'') (\<lambda>_. lret ir_unknown)
         | Some j \<Rightarrow> lret (cn_ir_type_from_ast (Some (sf_type (sd_fields d ! j))))))"

definition lower_field_type :: "cn_project \<Rightarrow> nat \<Rightarrow> string \<Rightarrow> cn_ir_type \<Rightarrow> cn_ir_type option lm" where
  "lower_field_type prj off f t = (case ir_kind t of
       CN_IR_TYPE_PTR \<Rightarrow> lret (cn_ir_type_clone (ir_inner t))
     | CN_IR_TYPE_RESULT \<Rightarrow> lret (if f = ''ok'' then ir_bool else cn_ir_type_clone (ir_inner t))
     | CN_IR_TYPE_SLICE \<Rightarrow> if f = ''length'' then lret ir_int
         else lbind (cn_ir_emit_internal_error off ''typed IR lowering expected a checked slice field access'') (\<lambda>_. lret ir_unknown)
     | CN_IR_TYPE_NAMED \<Rightarrow> lower_struct_field_type prj off f t
     | _ \<Rightarrow> lbind (cn_ir_emit_internal_error off ''typed IR lowering expected a named struct type for field access'') (\<lambda>_. lret ir_unknown))"

definition lower_field_of_base :: "cn_project \<Rightarrow> expr_lowering \<Rightarrow> ir_scopes \<Rightarrow> nat \<Rightarrow> cn_expr \<Rightarrow> string \<Rightarrow> cn_ir_expr option lm" where
  "lower_field_of_base prj L scs off base f =
     lsome (L scs base None) (\<lambda>b.
     lbind (llift (expr_type b)) (\<lambda>t.
     lbind (lower_field_type prj off f t) (\<lambda>ty. lret (Some (CN_IR_EXPR_FIELD ty off b f)))))"

definition cn_ir_lower_field_access :: "cn_project \<Rightarrow> expr_lowering \<Rightarrow> ir_scopes \<Rightarrow> nat \<Rightarrow> cn_expr \<Rightarrow> string \<Rightarrow> cn_ir_expr option lm" where
  "cn_ir_lower_field_access prj L scs off base f = (case base of
       CN_EXPR_NAME boff nm \<Rightarrow> lbind (lhere (\<lambda>cur. cn_ir_resolve_source_named_const prj cur nm f)) (\<lambda>r. case r of
           Some r \<Rightarrow> cn_ir_lower_const_use prj L r None
         | None \<Rightarrow> lower_field_of_base prj L scs off base f)
     | _ \<Rightarrow> lower_field_of_base prj L scs off base f)"

definition cn_ir_lower_index :: "expr_lowering \<Rightarrow> ir_scopes \<Rightarrow> nat \<Rightarrow> cn_expr \<Rightarrow> cn_expr \<Rightarrow> cn_ir_expr option lm" where
  "cn_ir_lower_index L scs off base ix =
     lbind (L scs base None) (\<lambda>b.
     lbind (L scs ix None) (\<lambda>i. case (b, i) of
       (Some b, Some i) \<Rightarrow> lbind (llift (expr_type b)) (\<lambda>t.
         if ir_kind t = CN_IR_TYPE_ARRAY \<or> ir_kind t = CN_IR_TYPE_SLICE
         then lret (Some (CN_IR_EXPR_INDEX (cn_ir_type_clone (ir_inner t)) off b i))
         else lbind (cn_ir_emit_internal_error off ''typed IR lowering expected an array or slice type for indexing'') (\<lambda>_.
           lret (Some (CN_IR_EXPR_INDEX ir_unknown off b i))))
     | _ \<Rightarrow> lret None))"

definition lower_slice_end :: "expr_lowering \<Rightarrow> ir_scopes \<Rightarrow> nat \<Rightarrow> cn_ir_expr \<Rightarrow> cn_expr option \<Rightarrow> cn_ir_expr option option lm" where
  "lower_slice_end L scs off b en = (case en of
       Some e \<Rightarrow> lbind (cn_ir_lower_with_builtin_expected L scs e CN_IR_TYPE_INT) (\<lambda>r. lret (map_option Some r))
     | None \<Rightarrow> lbind (llift (expr_type b)) (\<lambda>t. lret (Some (if ir_kind t = CN_IR_TYPE_ARRAY then Some (cn_ir_make_int_literal off (of_nat (ir_array_size t))) else None))))"

definition cn_ir_lower_slice_view :: "expr_lowering \<Rightarrow> ir_scopes \<Rightarrow> nat \<Rightarrow> cn_expr \<Rightarrow> cn_expr option \<Rightarrow> cn_expr option \<Rightarrow> cn_ir_expr option lm" where
  "cn_ir_lower_slice_view L scs off base st en =
     lsome (L scs base None) (\<lambda>b.
     lsome (case st of
         Some e \<Rightarrow> cn_ir_lower_with_builtin_expected L scs e CN_IR_TYPE_INT
       | None \<Rightarrow> lret (Some (cn_ir_make_int_literal off 0))) (\<lambda>s.
     lsome (lower_slice_end L scs off b en) (\<lambda>e.
     lbind (llift (expr_type b)) (\<lambda>t.
     if ir_kind t = CN_IR_TYPE_ARRAY \<or> ir_kind t = CN_IR_TYPE_SLICE
     then lret (Some (CN_IR_EXPR_SLICE_VIEW (Some (cn_ir_type_create CN_IR_TYPE_SLICE [] [] (cn_ir_type_clone (ir_inner t)) 0)) off b (Some s) e))
     else lbind (cn_ir_emit_internal_error off ''typed IR lowering expected an array or slice type for slicing'') (\<lambda>_.
       lret (Some (CN_IR_EXPR_SLICE_VIEW ir_unknown off b (Some s) e)))))))"

section \<open>Calls\<close>

text \<open>The expected types of the arguments: null behind the last parameter.\<close>

definition with_parameters :: "cn_expr list \<Rightarrow> cn_param list \<Rightarrow> (cn_expr \<times> cn_ir_type option) list" where
  "with_parameters args params = map (\<lambda>i. (args ! i, if i < length params then cn_ir_type_from_ast (Some (pa_type (params ! i))) else None)) [0..<length args]"

definition cn_ir_lower_call_arguments :: "expr_lowering \<Rightarrow> ir_scopes \<Rightarrow> cn_expr list \<Rightarrow> cn_param list \<Rightarrow> (bool \<times> cn_ir_expr list) lm" where
  "cn_ir_lower_call_arguments L scs args params = lower_items L scs (with_parameters args params) []"

definition lower_call_to ::
    "expr_lowering \<Rightarrow> ir_scopes \<Rightarrow> nat \<Rightarrow> cn_ir_call_target_kind \<Rightarrow> string \<Rightarrow> string \<Rightarrow> cn_expr list \<Rightarrow> cn_param list \<Rightarrow> cn_ir_type option \<Rightarrow> cn_ir_expr lm" where
  "lower_call_to L scs off k md f args params ty =
     lbind (cn_ir_lower_call_arguments L scs args params) (\<lambda>(complete, xs).
     lret (CN_IR_EXPR_CALL (if complete then ty else None) off k md f xs))"

definition lower_call_fails :: "nat \<Rightarrow> string \<Rightarrow> cn_ir_expr lm" where
  "lower_call_fails off msg = lbind (cn_ir_emit_internal_error off msg) (\<lambda>_. lret (CN_IR_EXPR_CALL ir_unknown off CN_IR_CALL_BUILTIN [] [] []))"

definition lower_call_function ::
    "cn_project \<Rightarrow> expr_lowering \<Rightarrow> ir_scopes \<Rightarrow> nat \<Rightarrow> cn_ir_call_target_kind \<Rightarrow> nat \<times> nat \<Rightarrow> cn_expr list \<Rightarrow> cn_ir_expr lm" where
  "lower_call_function prj L scs off k r args =
     lbind (llift (ir_decl pr_functions prj r)) (\<lambda>f.
     lbind (llift (module_name_of prj (fst r))) (\<lambda>md.
     lower_call_to L scs off k md (fn_name f) args (fn_parameters f) (cn_ir_type_from_ast (Some (fn_return_type f)))))"

definition lower_named_call :: "cn_project \<Rightarrow> expr_lowering \<Rightarrow> ir_scopes \<Rightarrow> nat \<Rightarrow> string \<Rightarrow> cn_expr list \<Rightarrow> cn_ir_expr lm" where
  "lower_named_call prj L scs off callee args =
     (if callee = ''print'' \<or> callee = ''println'' then lower_call_to L scs off CN_IR_CALL_BUILTIN [] callee args [] ir_void
      else if callee = ''input'' then lower_call_to L scs off CN_IR_CALL_BUILTIN [] callee args [] ir_str
      else if callee = ''str_copy'' \<or> callee = ''str_concat'' then lower_call_to L scs off CN_IR_CALL_BUILTIN [] callee args [] ir_str
      else lbind (lget lx_module) (\<lambda>cur. lbind (llift (cn_ir_find_local_function prj cur callee)) (\<lambda>i. case i of
          None \<Rightarrow> lower_call_fails off ''typed IR lowering could not resolve a checked local function call''
        | Some i \<Rightarrow> lower_call_function prj L scs off CN_IR_CALL_LOCAL (cur, i) args)))"

definition lower_module_call :: "cn_project \<Rightarrow> expr_lowering \<Rightarrow> ir_scopes \<Rightarrow> nat \<Rightarrow> string \<Rightarrow> string \<Rightarrow> cn_expr list \<Rightarrow> cn_ir_expr lm" where
  "lower_module_call prj L scs off mn f args =
     lbind (lhere (\<lambda>cur. cn_ir_find_imported_module prj cur mn)) (\<lambda>m. case m of
       None \<Rightarrow> lower_call_fails off ''typed IR lowering could not resolve a checked imported module call''
     | Some k \<Rightarrow> lbind (llift (cn_ir_find_public_function prj k f)) (\<lambda>i. case i of
           None \<Rightarrow> lower_call_fails off ''typed IR lowering could not resolve a checked public module function''
         | Some i \<Rightarrow> lbind (llift (mod_at prj k)) (\<lambda>md.
             lower_call_function prj L scs off (if mo_is_builtin_stdlib md then CN_IR_CALL_BUILTIN else CN_IR_CALL_MODULE) (k, i) args)))"

definition cn_ir_lower_call :: "cn_project \<Rightarrow> expr_lowering \<Rightarrow> ir_scopes \<Rightarrow> nat \<Rightarrow> cn_expr \<Rightarrow> cn_expr list \<Rightarrow> cn_ir_expr lm" where
  "cn_ir_lower_call prj L scs off callee args = (case callee of
       CN_EXPR_NAME coff nm \<Rightarrow> lower_named_call prj L scs off nm args
     | CN_EXPR_FIELD foff (CN_EXPR_NAME noff mn) f \<Rightarrow> lower_module_call prj L scs off mn f args
     | _ \<Rightarrow> lower_call_fails off ''typed IR lowering expected a resolved call target'')"

section \<open>Expressions\<close>

definition lower_name :: "cn_project \<Rightarrow> expr_lowering \<Rightarrow> ir_scopes \<Rightarrow> nat \<Rightarrow> string \<Rightarrow> cn_ir_type option \<Rightarrow> cn_ir_expr option lm" where
  "lower_name prj L scs off nm expected = (case cn_ir_scope_lookup scs nm of
       Some b \<Rightarrow> lret (Some (cn_ir_wrap_array_as_slice_if_needed (CN_IR_EXPR_LOCAL (cn_ir_type_clone (ib_type b)) off nm) expected))
     | None \<Rightarrow> lbind (lhere (\<lambda>cur. cn_ir_resolve_const_in_module prj (Some cur) nm)) (\<lambda>r. case r of
         Some r \<Rightarrow> cn_ir_lower_const_use prj L r expected
       | None \<Rightarrow> lbind (cn_ir_emit_internal_error off ''typed IR lowering could not resolve a checked local or constant name'') (\<lambda>_. lret None)))"

fun is_int_literal :: "cn_expr \<Rightarrow> bool" where
  "is_int_literal (CN_EXPR_INT off v) \<longleftrightarrow> True"
| "is_int_literal e \<longleftrightarrow> False"

text \<open>The operands: a literal takes the type of the other operand if that is \<open>u8\<close>.\<close>

definition lower_operands :: "expr_lowering \<Rightarrow> ir_scopes \<Rightarrow> cn_expr \<Rightarrow> cn_expr \<Rightarrow> (cn_ir_expr \<times> cn_ir_expr) option lm" where
  "lower_operands L scs l r =
     (if is_int_literal l \<and> \<not> is_int_literal r then
        lsome (L scs r None) (\<lambda>y.
        lbind (llift (expr_type y)) (\<lambda>t.
        lsome (L scs l (if ir_kind t = CN_IR_TYPE_U8 then Some t else None)) (\<lambda>x. lret (Some (x, y)))))
      else
        lsome (L scs l None) (\<lambda>x.
        lbind (if is_int_literal r then lbind (llift (expr_type x)) (\<lambda>t. lret (if ir_kind t = CN_IR_TYPE_U8 then Some t else None)) else lret None) (\<lambda>expected.
        lsome (L scs r expected) (\<lambda>y. lret (Some (x, y))))))"

definition binary_type :: "cn_binary_op \<Rightarrow> cn_ir_type" where
  "binary_type bop = cn_ir_make_builtin_type
     (if bop \<in> {CN_BINARY_ADD, CN_BINARY_SUB, CN_BINARY_MUL, CN_BINARY_DIV, CN_BINARY_MOD} then CN_IR_TYPE_INT else CN_IR_TYPE_BOOL)"

definition lower_if :: "expr_lowering \<Rightarrow> ir_scopes \<Rightarrow> nat \<Rightarrow> cn_expr \<Rightarrow> cn_expr \<Rightarrow> cn_expr \<Rightarrow> cn_ir_type option \<Rightarrow> cn_ir_expr option lm" where
  "lower_if L scs off c th el expected =
     lsome (cn_ir_lower_with_builtin_expected L scs c CN_IR_TYPE_BOOL) (\<lambda>c.
     lsome (L scs th expected) (\<lambda>x.
     let ty = (if expected \<noteq> None then expected else expr_type x)
     in lsome (L scs el ty) (\<lambda>y.
        lret (Some (cn_ir_wrap_array_as_slice_if_needed (CN_IR_EXPR_IF (cn_ir_type_clone ty) off c x y) expected)))))"

definition lower_ok :: "expr_lowering \<Rightarrow> ir_scopes \<Rightarrow> nat \<Rightarrow> cn_expr \<Rightarrow> cn_ir_type option \<Rightarrow> cn_ir_expr option lm" where
  "lower_ok L scs off x expected =
     (let value_expected = (case expected of
          None \<Rightarrow> None
        | Some t \<Rightarrow> if ir_kind t = CN_IR_TYPE_RESULT then ir_inner t else None)
      in lbind (L scs x value_expected) (\<lambda>r. case r of
          None \<Rightarrow> lret (Some (CN_IR_EXPR_OK None off unset_expr))
        | Some v \<Rightarrow> lret (Some (CN_IR_EXPR_OK
            (if has_ir_kind expected CN_IR_TYPE_RESULT then cn_ir_type_clone expected else Some (cn_ir_make_result_type (expr_type v))) off v))))"

definition wrapped :: "cn_ir_expr option lm \<Rightarrow> cn_ir_type option \<Rightarrow> cn_ir_expr option lm" where
  "wrapped m expected = lsome m (\<lambda>e. lret (Some (cn_ir_wrap_array_as_slice_if_needed e expected)))"

definition lower_deref :: "expr_lowering \<Rightarrow> ir_scopes \<Rightarrow> nat \<Rightarrow> cn_expr \<Rightarrow> cn_ir_expr option lm" where
  "lower_deref L scs off x = lsome (L scs x None) (\<lambda>v.
     lbind (llift (expr_type v)) (\<lambda>t.
     if ir_kind t \<noteq> CN_IR_TYPE_PTR
     then lbind (cn_ir_emit_internal_error off ''typed IR lowering expected a pointer operand for deref'') (\<lambda>_. lret (Some (CN_IR_EXPR_DEREF ir_unknown off v)))
     else lret (Some (CN_IR_EXPR_DEREF (cn_ir_type_clone (ir_inner t)) off v))))"

definition lower_zalloc :: "ir_scopes \<Rightarrow> nat \<Rightarrow> cn_type_ref \<Rightarrow> cn_ir_expr option lm" where
  "lower_zalloc scs off t =
     (let zone_name = cn_ir_scope_current_zone_name scs; ty = cn_ir_type_from_ast (Some t)
      in if zone_name = []
         then lbind (cn_ir_emit_internal_error off ''typed IR lowering expected zalloc inside a checked zone scope'') (\<lambda>_. lret None)
         else lret (Some (CN_IR_EXPR_ZALLOC (Some (cn_ir_make_ptr_type ty)) off (child_type ty) zone_name)))"

definition cn_ir_lower_expression :: "cn_project \<Rightarrow> expr_lowering \<Rightarrow> expr_lowering" where
  "cn_ir_lower_expression prj L scs e expected = (case e of
       CN_EXPR_INT off v \<Rightarrow> lret (Some (CN_IR_EXPR_INT
         (if has_ir_kind expected CN_IR_TYPE_U8 then Some (cn_ir_make_builtin_type CN_IR_TYPE_U8) else ir_int) off v))
     | CN_EXPR_BOOL off v \<Rightarrow> lret (Some (CN_IR_EXPR_BOOL ir_bool off v))
     | CN_EXPR_STRING off v \<Rightarrow> lret (Some (CN_IR_EXPR_STRING ir_str off v))
     | CN_EXPR_NULL off \<Rightarrow> lret (Some (CN_IR_EXPR_NULL
         (if has_ir_kind expected CN_IR_TYPE_PTR then cn_ir_type_clone expected else Some (cn_ir_make_builtin_type CN_IR_TYPE_NULL)) off))
     | CN_EXPR_NAME off nm \<Rightarrow> lower_name prj L scs off nm expected
     | CN_EXPR_UNARY off uop x \<Rightarrow> lsome (L scs x None) (\<lambda>v.
         lret (Some (cn_ir_wrap_array_as_slice_if_needed (CN_IR_EXPR_UNARY (if uop = CN_UNARY_NEGATE then ir_int else ir_bool) off (cn_ir_unary_from_ast uop) v) expected)))
     | CN_EXPR_BINARY off bop l r \<Rightarrow> lsome (lower_operands L scs l r) (\<lambda>(x, y).
         lret (Some (CN_IR_EXPR_BINARY (Some (binary_type bop)) off (cn_ir_binary_from_ast bop) x y)))
     | CN_EXPR_IF off c th el \<Rightarrow> lower_if L scs off c th el expected
     | CN_EXPR_CALL off f args \<Rightarrow> wrapped (lbind (cn_ir_lower_call prj L scs off f args) (\<lambda>x. lret (Some x))) expected
     | CN_EXPR_ARRAY_LITERAL off items rc n \<Rightarrow> cn_ir_lower_array_literal L scs off items rc n expected
     | CN_EXPR_INDEX off base ix \<Rightarrow> wrapped (cn_ir_lower_index L scs off base ix) expected
     | CN_EXPR_SLICE_VIEW off base st en \<Rightarrow> wrapped (cn_ir_lower_slice_view L scs off base st en) expected
     | CN_EXPR_FIELD off base f \<Rightarrow> wrapped (cn_ir_lower_field_access prj L scs off base f) expected
     | CN_EXPR_STRUCT_LITERAL off mn nm inits \<Rightarrow> cn_ir_lower_struct_literal prj L scs off mn nm inits
     | CN_EXPR_OK off x \<Rightarrow> lower_ok L scs off x expected
     | CN_EXPR_ERR off \<Rightarrow>
         if has_ir_kind expected CN_IR_TYPE_RESULT then lret (Some (CN_IR_EXPR_ERR (cn_ir_type_clone expected) off))
         else lbind (cn_ir_emit_internal_error off (''typed IR lowering expected a result type for '' @ c_quote @ ''err'' @ c_quote)) (\<lambda>_.
           lret (Some (CN_IR_EXPR_ERR ir_unknown off)))
     | CN_EXPR_ALLOC off t \<Rightarrow> let ty = cn_ir_type_from_ast (Some t)
         in lret (Some (CN_IR_EXPR_ALLOC (Some (cn_ir_make_ptr_type ty)) off (child_type ty)))
     | CN_EXPR_ZALLOC off t \<Rightarrow> lower_zalloc scs off t
     | CN_EXPR_ADDR off x \<Rightarrow> lsome (L scs x None) (\<lambda>v. lret (Some (CN_IR_EXPR_ADDR (Some (cn_ir_make_ptr_type (expr_type v))) off v)))
     | CN_EXPR_DEREF off x \<Rightarrow> lower_deref L scs off x)"

primrec lower_expr_of :: "cn_project \<Rightarrow> nat \<Rightarrow> expr_lowering" where
  "lower_expr_of prj 0 = (\<lambda>scs e expected. lfuel)"
| "lower_expr_of prj (Suc n) = cn_ir_lower_expression prj (lower_expr_of prj n)"

end
