(* ===== verification/Lower_Stmt.thy ===== *)
theory Lower_Stmt
  imports Lower_Expr
begin

text \<open>
  The lowering of statements, blocks and declarations, and of the project. A frame of deferred entries with its
  parents is a list, innermost first. A statement answers the lowered statement and the scopes with what it
  defined; a block does not change the scopes of its parent, so it answers the lowered block only. The
  recursion of statements takes the callee \<open>S\<close>, and \<open>lower_stmt_of\<close> ties the knot with fuel.
\<close>

section \<open>Deferred statements\<close>

datatype cn_ir_defer_entry =
    CN_IR_DEFER_AST_STATEMENT cn_stmt nat cn_ir_scope
  | CN_IR_DEFER_ZONE_RELEASE string nat

type_synonym cn_ir_defer_frame = "cn_ir_defer_entry list"

type_synonym stmt_lowering =
  "ir_scopes \<Rightarrow> cn_stmt \<Rightarrow> cn_ir_type option \<Rightarrow> cn_ir_defer_frame list \<Rightarrow> (cn_ir_stmt \<times> ir_scopes) lm"

fun cn_ir_emit_local_deferred_entries ::
    "stmt_lowering \<Rightarrow> cn_ir_type option \<Rightarrow> cn_ir_defer_frame \<Rightarrow> cn_ir_stmt list \<Rightarrow> cn_ir_stmt list lm" where
  "cn_ir_emit_local_deferred_entries S ret [] out = lret out"
| "cn_ir_emit_local_deferred_entries S ret (CN_IR_DEFER_ZONE_RELEASE z off # es) out =
     cn_ir_emit_local_deferred_entries S ret es (out @ [cn_ir_make_zone_release_stmt z off])"
| "cn_ir_emit_local_deferred_entries S ret (CN_IR_DEFER_AST_STATEMENT st off captured # es) out =
     lbind (S [captured] st ret []) (\<lambda>(x, _). cn_ir_emit_local_deferred_entries S ret es (out @ [x]))"

fun cn_ir_emit_deferred_entries ::
    "stmt_lowering \<Rightarrow> cn_ir_type option \<Rightarrow> cn_ir_defer_frame list \<Rightarrow> cn_ir_stmt list \<Rightarrow> cn_ir_stmt list lm" where
  "cn_ir_emit_deferred_entries S ret [] out = lret out"
| "cn_ir_emit_deferred_entries S ret (frame # parents) out =
     lbind (cn_ir_emit_local_deferred_entries S ret frame out) (cn_ir_emit_deferred_entries S ret parents)"

section \<open>Try\<close>

text \<open>The test of the hidden local that holds the result, with the cleanup and the return of the error.\<close>

definition try_test :: "nat \<Rightarrow> string \<Rightarrow> cn_ir_type option \<Rightarrow> cn_ir_type option \<Rightarrow> cn_ir_stmt list \<Rightarrow> cn_ir_stmt" where
  "try_test off temp ty ret cleanup = CN_IR_STMT_IF off
     (CN_IR_EXPR_UNARY ir_bool off CN_IR_UNARY_NOT (CN_IR_EXPR_FIELD ir_bool off (cn_ir_make_local_expr off temp ty) ''ok''))
     (IrBlock (cleanup @ [CN_IR_STMT_RETURN off (Some (CN_IR_EXPR_ERR (cn_ir_type_clone ret) off))]) off) None"

definition try_value :: "nat \<Rightarrow> string \<Rightarrow> string \<Rightarrow> cn_ir_type option \<Rightarrow> cn_ir_type option \<Rightarrow> cn_ir_stmt" where
  "try_value off nm temp ty inner = CN_IR_STMT_LET off nm False (child_type inner)
     (CN_IR_EXPR_FIELD (cn_ir_type_clone inner) off (cn_ir_make_local_expr off temp ty) ''value'')"

definition cn_ir_lower_try_statement ::
    "expr_lowering \<Rightarrow> stmt_lowering \<Rightarrow> ir_scopes \<Rightarrow> nat \<Rightarrow> string \<Rightarrow> cn_expr \<Rightarrow> cn_ir_type option \<Rightarrow> cn_ir_defer_frame list
     \<Rightarrow> cn_ir_stmt list \<Rightarrow> (cn_ir_stmt list \<times> ir_scopes) lm" where
  "cn_ir_lower_try_statement L S scs off nm e ret frames out =
     lbind (L scs e None) (\<lambda>r. case r of
       None \<Rightarrow> lret (out, scs)
     | Some x \<Rightarrow>
         if \<not> has_ir_kind (expr_type x) CN_IR_TYPE_RESULT then
           lbind (cn_ir_emit_internal_error off ''typed IR lowering expected a checked result expression for try'') (\<lambda>_. lret (out, scs))
         else if \<not> has_ir_kind ret CN_IR_TYPE_RESULT then
           lbind (cn_ir_emit_internal_error off ''typed IR lowering expected try inside a result-returning function'') (\<lambda>_. lret (out, scs))
         else
           let ty = cn_ir_type_clone (expr_type x); inner = cn_ir_type_clone (Option.bind (expr_type x) ir_inner)
           in lbind (cn_ir_make_generated_name ''try'') (\<lambda>temp.
              lbind (cn_ir_scope_define temp ty False scs) (\<lambda>scs.
              lbind (cn_ir_emit_deferred_entries S ret frames []) (\<lambda>cleanup.
              lbind (cn_ir_scope_define nm inner False scs) (\<lambda>scs.
              lret (out @ [CN_IR_STMT_LET off temp False (child_type ty) x, try_test off temp ty ret cleanup, try_value off nm temp ty inner],
                scs))))))"

section \<open>Blocks\<close>

text \<open>The loop over the statements of a block, with the entries of the block's own frame and the parent frames.\<close>

fun lower_statements ::
    "expr_lowering \<Rightarrow> stmt_lowering \<Rightarrow> cn_ir_type option \<Rightarrow> cn_ir_defer_frame list \<Rightarrow> cn_ir_defer_frame \<Rightarrow> ir_scopes
     \<Rightarrow> cn_stmt list \<Rightarrow> cn_ir_stmt list \<Rightarrow> cn_ir_stmt list lm" where
  "lower_statements L S ret parents frame scs [] out = cn_ir_emit_local_deferred_entries S ret frame out"
| "lower_statements L S ret parents frame scs (st # sts) out = (case st of
       CN_STMT_DEFER off d \<Rightarrow>
         lower_statements L S ret parents (CN_IR_DEFER_AST_STATEMENT d off (cn_ir_capture_scope scs) # frame) scs sts out
     | CN_STMT_TRY off nm e \<Rightarrow>
         lbind (cn_ir_lower_try_statement L S scs off nm e ret (frame # parents) out) (\<lambda>(out, scs).
         lower_statements L S ret parents frame scs sts out)
     | CN_STMT_RETURN off v \<Rightarrow>
         lbind (cn_ir_emit_deferred_entries S ret (frame # parents) out) (\<lambda>out.
         lbind (S scs st ret (frame # parents)) (\<lambda>(x, _). lret (out @ [x])))
     | _ \<Rightarrow>
         lbind (S scs st ret (frame # parents)) (\<lambda>(x, scs).
         lower_statements L S ret parents frame scs sts (out @ [x])))"

definition block_scopes :: "ir_scopes \<Rightarrow> ir_scopes" where
  "block_scopes parent = \<lparr>is_bindings = [], is_zone_name = (case parent of [] \<Rightarrow> [] | sc # _ \<Rightarrow> is_zone_name sc)\<rparr> # parent"

definition cn_ir_lower_block ::
    "expr_lowering \<Rightarrow> stmt_lowering \<Rightarrow> ir_scopes \<Rightarrow> cn_block \<Rightarrow> bool \<Rightarrow> cn_ir_type option \<Rightarrow> cn_ir_defer_frame list \<Rightarrow> cn_ir_block lm" where
  "cn_ir_lower_block L S parent block creates_scope ret frames =
     lbind (lower_statements L S ret frames [] (if creates_scope then block_scopes parent else parent) (block_statements block) []) (\<lambda>out.
     lret (IrBlock out (block_offset block)))"

section \<open>Statements\<close>

definition cn_ir_lower_zone_statement ::
    "expr_lowering \<Rightarrow> stmt_lowering \<Rightarrow> ir_scopes \<Rightarrow> nat \<Rightarrow> cn_block \<Rightarrow> cn_ir_type option \<Rightarrow> cn_ir_defer_frame list \<Rightarrow> cn_ir_stmt lm" where
  "cn_ir_lower_zone_statement L S scs off body ret frames =
     lbind (cn_ir_make_generated_name ''zone'') (\<lambda>zone.
     lbind (cn_ir_scope_define zone (Some zone_pointer) False (\<lparr>is_bindings = [], is_zone_name = zone\<rparr> # scs)) (\<lambda>zone_scopes.
     lbind (cn_ir_lower_block L S zone_scopes body True ret ([CN_IR_DEFER_ZONE_RELEASE zone off] # frames)) (\<lambda>b.
     lret (CN_IR_STMT_ZONE off zone (IrBlock (ir_statements b @ [cn_ir_make_zone_release_stmt zone off]) (ir_block_offset b))))))"

definition lower_let ::
    "expr_lowering \<Rightarrow> ir_scopes \<Rightarrow> nat \<Rightarrow> string \<Rightarrow> bool \<Rightarrow> cn_type_ref \<Rightarrow> cn_expr \<Rightarrow> (cn_ir_stmt \<times> ir_scopes) lm" where
  "lower_let L scs off nm is_mutable t e =
     (let ty = cn_ir_type_from_ast (Some t)
      in lbind (L scs e ty) (\<lambda>r. case r of
          None \<Rightarrow> lret (CN_IR_STMT_LET off nm is_mutable (child_type ty) unset_expr, scs)
        | Some x \<Rightarrow> lbind (cn_ir_scope_define nm ty is_mutable scs) (\<lambda>scs. lret (CN_IR_STMT_LET off nm is_mutable (child_type ty) x, scs))))"

definition lower_assign :: "expr_lowering \<Rightarrow> ir_scopes \<Rightarrow> nat \<Rightarrow> cn_expr \<Rightarrow> cn_expr \<Rightarrow> cn_ir_stmt lm" where
  "lower_assign L scs off target v =
     lbind (L scs target None) (\<lambda>r. case r of
       None \<Rightarrow> lret (CN_IR_STMT_ASSIGN off unset_expr unset_expr)
     | Some x \<Rightarrow> lbind (L scs v (expr_type x)) (\<lambda>y. lret (CN_IR_STMT_ASSIGN off x (child y))))"

definition lower_for ::
    "expr_lowering \<Rightarrow> stmt_lowering \<Rightarrow> ir_scopes \<Rightarrow> nat \<Rightarrow> string \<Rightarrow> cn_type_ref \<Rightarrow> cn_expr \<Rightarrow> cn_expr \<Rightarrow> cn_block
     \<Rightarrow> cn_ir_type option \<Rightarrow> cn_ir_defer_frame list \<Rightarrow> cn_ir_stmt lm" where
  "lower_for L S scs off nm t st en body ret frames =
     (let ty = cn_ir_type_from_ast (Some t)
      in lbind (cn_ir_lower_with_builtin_expected L scs st CN_IR_TYPE_INT) (\<lambda>x.
         lbind (cn_ir_lower_with_builtin_expected L scs en CN_IR_TYPE_INT) (\<lambda>y.
         lbind (cn_ir_scope_define nm ty False (empty_scope # scs)) (\<lambda>loop_scopes.
         lbind (cn_ir_lower_block L S loop_scopes body True ret frames) (\<lambda>b.
         lret (CN_IR_STMT_FOR off nm (child_type ty) (child x) (child y) b))))))"

definition lower_option :: "('a \<Rightarrow> 'b lm) \<Rightarrow> 'a option \<Rightarrow> 'b option lm" where
  "lower_option f x = (case x of None \<Rightarrow> lret None | Some y \<Rightarrow> lbind (f y) (\<lambda>z. lret (Some z)))"

definition lower_condition ::
    "expr_lowering \<Rightarrow> stmt_lowering \<Rightarrow> ir_scopes \<Rightarrow> nat \<Rightarrow> cn_expr \<Rightarrow> cn_block \<Rightarrow> cn_block option
     \<Rightarrow> cn_ir_type option \<Rightarrow> cn_ir_defer_frame list \<Rightarrow> cn_ir_stmt lm" where
  "lower_condition L S scs off c th el ret frames =
     lbind (cn_ir_lower_with_builtin_expected L scs c CN_IR_TYPE_BOOL) (\<lambda>x.
     lbind (cn_ir_lower_block L S scs th True ret frames) (\<lambda>b.
     lbind (lower_option (\<lambda>e. cn_ir_lower_block L S scs e True ret frames) el) (\<lambda>b'.
     lret (CN_IR_STMT_IF off (child x) b b'))))"

definition lower_while ::
    "expr_lowering \<Rightarrow> stmt_lowering \<Rightarrow> ir_scopes \<Rightarrow> nat \<Rightarrow> cn_expr \<Rightarrow> cn_block \<Rightarrow> cn_ir_type option \<Rightarrow> cn_ir_defer_frame list \<Rightarrow> cn_ir_stmt lm" where
  "lower_while L S scs off c body ret frames =
     lbind (cn_ir_lower_with_builtin_expected L scs c CN_IR_TYPE_BOOL) (\<lambda>x.
     lbind (cn_ir_lower_block L S scs body True ret frames) (\<lambda>b. lret (CN_IR_STMT_WHILE off (child x) b)))"

definition lower_return :: "expr_lowering \<Rightarrow> ir_scopes \<Rightarrow> nat \<Rightarrow> cn_expr option \<Rightarrow> cn_ir_type option \<Rightarrow> cn_ir_stmt lm" where
  "lower_return L scs off v ret = (case v of
       None \<Rightarrow> lret (CN_IR_STMT_RETURN off None)
     | Some e \<Rightarrow> lbind (L scs e ret) (\<lambda>x. lret (CN_IR_STMT_RETURN off x)))"

definition keep_scopes :: "ir_scopes \<Rightarrow> cn_ir_stmt lm \<Rightarrow> (cn_ir_stmt \<times> ir_scopes) lm" where
  "keep_scopes scs m = lbind m (\<lambda>x. lret (x, scs))"

definition lower_unexpected :: "nat \<Rightarrow> cn_ir_stmt lm" where
  "lower_unexpected off =
     lbind (cn_ir_emit_internal_error off ''typed IR lowering expected defer and try to be handled before statement lowering'') (\<lambda>_.
     lret (CN_IR_STMT_EXPR off unset_expr))"

definition cn_ir_lower_statement :: "expr_lowering \<Rightarrow> stmt_lowering \<Rightarrow> stmt_lowering" where
  "cn_ir_lower_statement L S scs st ret frames = (case st of
       CN_STMT_LET off nm is_mutable t e \<Rightarrow> lower_let L scs off nm is_mutable t e
     | CN_STMT_ASSIGN off target v \<Rightarrow> keep_scopes scs (lower_assign L scs off target v)
     | CN_STMT_RETURN off v \<Rightarrow> keep_scopes scs (lower_return L scs off v ret)
     | CN_STMT_EXPR off e \<Rightarrow> keep_scopes scs (lbind (L scs e None) (\<lambda>x. lret (CN_IR_STMT_EXPR off (child x))))
     | CN_STMT_DEFER off d \<Rightarrow> keep_scopes scs (lower_unexpected off)
     | CN_STMT_TRY off nm e \<Rightarrow> keep_scopes scs (lower_unexpected off)
     | CN_STMT_ZONE off body \<Rightarrow> keep_scopes scs (cn_ir_lower_zone_statement L S scs off body ret frames)
     | CN_STMT_IF off c th el \<Rightarrow> keep_scopes scs (lower_condition L S scs off c th el ret frames)
     | CN_STMT_WHILE off c body \<Rightarrow> keep_scopes scs (lower_while L S scs off c body ret frames)
     | CN_STMT_LOOP off body \<Rightarrow>
         keep_scopes scs (lbind (cn_ir_lower_block L S scs body True ret frames) (\<lambda>b. lret (CN_IR_STMT_LOOP off b)))
     | CN_STMT_FOR off nm t st en body \<Rightarrow> keep_scopes scs (lower_for L S scs off nm t st en body ret frames)
     | CN_STMT_FREE off e \<Rightarrow> keep_scopes scs (lbind (L scs e None) (\<lambda>x. lret (CN_IR_STMT_FREE off (child x)))))"

primrec lower_stmt_of :: "cn_project \<Rightarrow> nat \<Rightarrow> stmt_lowering" where
  "lower_stmt_of prj 0 = (\<lambda>scs st ret frames. lfuel)"
| "lower_stmt_of prj (Suc n) = cn_ir_lower_statement (lower_expr_of prj n) (lower_stmt_of prj n)"

section \<open>Declarations\<close>

definition cn_ir_lower_const :: "cn_project \<Rightarrow> nat \<Rightarrow> string \<Rightarrow> nat \<times> nat \<Rightarrow> cn_const_decl \<Rightarrow> cn_ir_const lm" where
  "cn_ir_lower_const prj n md r d =
     (let c = cn_ir_const_create md (cd_name d) (cd_is_public d) (cd_offset d);
          ty = cn_ir_type_from_ast (Some (cd_type d))
      in lbind (cn_ir_lower_const_use prj (lower_expr_of prj n) r ty) (\<lambda>x. lret (c\<lparr>irc_type := ty, irc_initializer := x\<rparr>)))"

definition cn_ir_lower_struct :: "string \<Rightarrow> cn_struct_decl \<Rightarrow> cn_ir_struct" where
  "cn_ir_lower_struct md d = (cn_ir_struct_create md (sd_name d) (sd_is_public d) (sd_offset d))
     \<lparr>irs_fields := map (\<lambda>f. \<lparr>irsf_name = sf_name f, irsf_type = child_type (cn_ir_type_from_ast (Some (sf_type f))), irsf_offset = sf_offset f\<rparr>) (sd_fields d)\<rparr>"

definition lower_param :: "cn_param \<Rightarrow> cn_ir_param" where
  "lower_param p = \<lparr>irp_name = pa_name p, irp_type = child_type (cn_ir_type_from_ast (Some (pa_type p))), irp_offset = pa_offset p\<rparr>"

fun lower_params :: "cn_param list \<Rightarrow> ir_scopes \<Rightarrow> ir_scopes lm" where
  "lower_params [] scs = lret scs"
| "lower_params (p # ps) scs = lbind (cn_ir_scope_define (pa_name p) (cn_ir_type_from_ast (Some (pa_type p))) False scs) (lower_params ps)"

definition cn_ir_lower_function :: "cn_project \<Rightarrow> nat \<Rightarrow> string \<Rightarrow> cn_function \<Rightarrow> cn_ir_function lm" where
  "cn_ir_lower_function prj n md f =
     (let g = cn_ir_function_create md (fn_name f) (fn_is_public f) (fn_offset f);
          ret = cn_ir_type_from_ast (Some (fn_return_type f))
      in lbind (lget lx_owned_names) (\<lambda>previous.
         lbind (lput (\<lambda>s. s\<lparr>lx_owned_names := Some []\<rparr>)) (\<lambda>_.
         lbind (lower_params (fn_parameters f) [empty_scope]) (\<lambda>scs.
         lbind (llift (fn_body f)) (\<lambda>body.
         lbind (cn_ir_lower_block (lower_expr_of prj n) (lower_stmt_of prj n) scs body False ret []) (\<lambda>b.
         lbind (lget lx_owned_names) (\<lambda>owned.
         lbind (lput (\<lambda>s. s\<lparr>lx_owned_names := previous\<rparr>)) (\<lambda>_.
         lret (g\<lparr>irf_return_type := ret, irf_parameters := map lower_param (fn_parameters f), irf_body := Some b,
           irf_owned_names := (case owned of None \<Rightarrow> [] | Some ns \<Rightarrow> ns)\<rparr>)))))))))"

section \<open>The project\<close>

text \<open>A loop that pushes what it makes of the elements of an array, which are numbered.\<close>

fun lower_each :: "(nat \<Rightarrow> 'a \<Rightarrow> 'b lm) \<Rightarrow> ('m \<Rightarrow> 'b \<Rightarrow> 'm) \<Rightarrow> nat \<Rightarrow> 'a list \<Rightarrow> 'm \<Rightarrow> 'm lm" where
  "lower_each f push i [] m = lret m"
| "lower_each f push i (x # xs) m = lbind (f i x) (\<lambda>y. lower_each f push (Suc i) xs (push m y))"

definition cn_ir_lower_module :: "cn_project \<Rightarrow> nat \<Rightarrow> nat \<Rightarrow> cn_module \<Rightarrow> cn_program \<Rightarrow> cn_ir_module lm" where
  "cn_ir_lower_module prj n k md p =
     lbind (lower_each (\<lambda>i d. cn_ir_lower_const prj n (mo_name md) (k, i) d) cn_ir_module_push_const 0 (pr_consts p)
       (cn_ir_module_create (mo_name md) (mo_path md) (Some (mo_source md)))) (\<lambda>m.
     lbind (lower_each (\<lambda>i d. lret (cn_ir_lower_struct (mo_name md) d)) cn_ir_module_push_struct 0 (pr_structs p) m) (\<lambda>m.
     if mo_is_builtin_stdlib md then lret m
     else lower_each (\<lambda>i f. cn_ir_lower_function prj n (mo_name md) f) cn_ir_module_push_function 0 (pr_functions p) m))"

fun lower_modules :: "cn_project \<Rightarrow> nat \<Rightarrow> nat \<Rightarrow> cn_module list \<Rightarrow> cn_ir_program \<Rightarrow> cn_ir_program option lm" where
  "lower_modules prj n k [] prog = lret (Some prog)"
| "lower_modules prj n k (md # mds) prog = lbind (lput (\<lambda>s. s\<lparr>lx_module := k\<rparr>)) (\<lambda>_. case mo_program md of
       None \<Rightarrow> lower_modules prj n (Suc k) mds prog
     | Some p \<Rightarrow>
         if mo_is_builtin_stdlib md \<and> pr_consts p = [] \<and> pr_structs p = [] then lower_modules prj n (Suc k) mds prog
         else
           lbind (lput (\<lambda>s. s\<lparr>lx_diagnostics := cn_diag_bag_set_source (lx_diagnostics s) (Some (mo_source md))\<rparr>)) (\<lambda>_.
           lbind (cn_ir_lower_module prj n k md p) (\<lambda>m.
           lbind (lget (\<lambda>s. cn_diag_has_error (lx_diagnostics s))) (\<lambda>failed.
           if failed then lret None else lower_modules prj n (Suc k) mds (cn_ir_program_push_module prog m)))))"

text \<open>The program that is stored for the caller, and the diagnostics in the context that is left.\<close>

definition cn_ir_lower_project :: "cn_project \<Rightarrow> nat \<Rightarrow> cn_diag_bag \<Rightarrow> cn_ir_program option lowered" where
  "cn_ir_lower_project prj n bag = lower_modules prj n 0 (pj_modules prj) cn_ir_program_create
     \<lparr>lx_module = 0, lx_diagnostics = bag, lx_owned_names = None, lx_temp_index = 0\<rparr>"

end
