(* ===== verification/Lower_Closed.thy ===== *)
theory Lower_Closed
  imports Lower_Stmt
begin

text \<open>
  What the lowering of expressions guarantees: every local that a lowered expression names is bound in the scopes
  it was lowered in, and so is the zone of every \<open>zalloc\<close>; and a fuel that follows from
  the ranks of the constants and the sizes of the trees is enough.
\<close>

section \<open>Outcomes\<close>

text \<open>The run has fuel enough, and what it returns satisfies \<open>Q\<close>.\<close>

definition lends :: "('a \<Rightarrow> cn_ir_lower_ctx \<Rightarrow> bool) \<Rightarrow> 'a lm \<Rightarrow> cn_ir_lower_ctx \<Rightarrow> bool" where
  "lends Q m s \<longleftrightarrow> (case m s of Lowered x s' \<Rightarrow> Q x s' | LowerFault \<Rightarrow> True | LowerFuel \<Rightarrow> False)"

named_theorems lends_rules

lemma lends_bind [lends_rules]: "lends Q (lbind m k) s \<longleftrightarrow> lends (\<lambda>x. lends Q (k x)) m s"
  by (auto simp: lends_def lbind_def split: lowered.splits)

lemma lends_ret [lends_rules]: "lends Q (lret x) s \<longleftrightarrow> Q x s"
  by (simp add: lends_def lret_def)

lemma lends_get [lends_rules]: "lends Q (lget f) s \<longleftrightarrow> Q (f s) s"
  by (simp add: lends_def lget_def)

lemma lends_put [lends_rules]: "lends Q (lput f) s \<longleftrightarrow> Q () (f s)"
  by (simp add: lends_def lput_def)

lemma lends_lift [lends_rules]: "lends Q (llift r) s \<longleftrightarrow> (\<forall>x. r = Some x \<longrightarrow> Q x s)"
  by (simp add: lends_def llift_def split: option.splits)

lemma lends_here [lends_rules]: "lends Q (lhere f) s \<longleftrightarrow> (\<forall>x. f (lx_module s) = Some x \<longrightarrow> Q x s)"
  by (simp add: lhere_def lends_rules)

lemma lends_mono: "lends P m s \<Longrightarrow> (\<And>x s'. P x s' \<Longrightarrow> Q x s') \<Longrightarrow> lends Q m s"
  by (auto simp: lends_def split: lowered.splits)

lemma lends_some [lends_rules]:
  "lends Q (lsome m k) s \<longleftrightarrow> lends (\<lambda>r s'. case r of None \<Rightarrow> Q None s' | Some x \<Rightarrow> lends Q (k x) s') m s"
  unfolding lsome_def lends_bind by (auto simp: lends_ret intro!: arg_cong [where f = "\<lambda>P. lends P m s"] ext split: option.splits)

lemma lends_error [lends_rules]:
  "lends Q (cn_ir_emit_internal_error off msg) s
   \<longleftrightarrow> Q () (s\<lparr>lx_diagnostics := cn_diag_emit (lx_diagnostics s) CN_DIAG_ERROR ''E3020'' off msg\<rparr>)"
  by (simp add: cn_ir_emit_internal_error_def lends_rules)

lemma lends_after_error:
  "lends Q (lbind (cn_ir_emit_internal_error off msg) k) s
   \<longleftrightarrow> lends Q (k ()) (s\<lparr>lx_diagnostics := cn_diag_emit (lx_diagnostics s) CN_DIAG_ERROR ''E3020'' off msg\<rparr>)"
  by (simp add: lends_rules)

declare option.pred_inject [code]

section \<open>Closed expressions\<close>

primrec closed_expr :: "string set \<Rightarrow> cn_ir_expr \<Rightarrow> bool" where
  "closed_expr V (CN_IR_EXPR_INT ty off v) \<longleftrightarrow> True"
| "closed_expr V (CN_IR_EXPR_BOOL ty off b) \<longleftrightarrow> True"
| "closed_expr V (CN_IR_EXPR_STRING ty off v) \<longleftrightarrow> True"
| "closed_expr V (CN_IR_EXPR_NULL ty off) \<longleftrightarrow> True"
| "closed_expr V (CN_IR_EXPR_LOCAL ty off nm) \<longleftrightarrow> nm \<in> V"
| "closed_expr V (CN_IR_EXPR_UNARY ty off uop x) \<longleftrightarrow> closed_expr V x"
| "closed_expr V (CN_IR_EXPR_BINARY ty off bop l r) \<longleftrightarrow> closed_expr V l \<and> closed_expr V r"
| "closed_expr V (CN_IR_EXPR_IF ty off c t e) \<longleftrightarrow> closed_expr V c \<and> closed_expr V t \<and> closed_expr V e"
| "closed_expr V (CN_IR_EXPR_CALL ty off k m f xs) \<longleftrightarrow> list_all id (map (closed_expr V) xs)"
| "closed_expr V (CN_IR_EXPR_ARRAY_LITERAL ty off xs) \<longleftrightarrow> list_all id (map (closed_expr V) xs)"
| "closed_expr V (CN_IR_EXPR_SLICE_FROM_ARRAY ty off x) \<longleftrightarrow> closed_expr V x"
| "closed_expr V (CN_IR_EXPR_INDEX ty off b i) \<longleftrightarrow> closed_expr V b \<and> closed_expr V i"
| "closed_expr V (CN_IR_EXPR_SLICE_VIEW ty off b s e) \<longleftrightarrow> closed_expr V b \<and> pred_option id (map_option (closed_expr V) s) \<and> pred_option id (map_option (closed_expr V) e)"
| "closed_expr V (CN_IR_EXPR_FIELD ty off b f) \<longleftrightarrow> closed_expr V b"
| "closed_expr V (CN_IR_EXPR_STRUCT_LITERAL ty off m n fs) \<longleftrightarrow> list_all snd (map (map_prod id (closed_expr V)) fs)"
| "closed_expr V (CN_IR_EXPR_OK ty off x) \<longleftrightarrow> closed_expr V x"
| "closed_expr V (CN_IR_EXPR_ERR ty off) \<longleftrightarrow> True"
| "closed_expr V (CN_IR_EXPR_ALLOC ty off t) \<longleftrightarrow> True"
| "closed_expr V (CN_IR_EXPR_ZALLOC ty off t z) \<longleftrightarrow> z \<in> V"
| "closed_expr V (CN_IR_EXPR_ADDR ty off x) \<longleftrightarrow> closed_expr V x"
| "closed_expr V (CN_IR_EXPR_DEREF ty off x) \<longleftrightarrow> closed_expr V x"

lemma closed_expr_mono: "closed_expr V e \<Longrightarrow> V \<subseteq> W \<Longrightarrow> closed_expr W e"
proof (induction e)
  case (CN_IR_EXPR_SLICE_VIEW ty off b s e)
  then show ?case by (cases s; cases e) auto
next
  case (CN_IR_EXPR_STRUCT_LITERAL ty off m n fs)
  then show ?case by (fastforce simp: list_all_iff)
qed (auto simp: list_all_iff)

lemma closed_unset [simp]: "closed_expr V unset_expr" "closed_expr V (child None)" "closed_expr V (child (Some x)) = closed_expr V x"
  by (simp_all add: unset_expr_def child_def)

lemma closed_wrap [simp]: "closed_expr V (cn_ir_wrap_array_as_slice_if_needed e ex) = closed_expr V e"
  by (simp add: cn_ir_wrap_array_as_slice_if_needed_def split: option.splits)

section \<open>Bound names\<close>

definition scope_names :: "ir_scopes \<Rightarrow> string set" where
  "scope_names scs = (\<Union>sc \<in> set scs. ib_name ` set (is_bindings sc))"

definition zones_bound :: "ir_scopes \<Rightarrow> bool" where
  "zones_bound scs \<longleftrightarrow> (\<forall>sc \<in> set scs. is_zone_name sc \<noteq> [] \<longrightarrow> is_zone_name sc \<in> scope_names scs)"

lemma scope_names_simps [simp]:
  "scope_names [] = {}"
  "scope_names (sc # scs) = ib_name ` set (is_bindings sc) \<union> scope_names scs"
  by (auto simp: scope_names_def)

lemma zones_bound_Nil [simp]: "zones_bound []"
  by (simp add: zones_bound_def)

lemma lookup_bound: "cn_ir_scope_lookup scs nm = Some b \<Longrightarrow> nm \<in> scope_names scs"
  by (induction scs nm rule: cn_ir_scope_lookup.induct) (auto simp: find_Some_iff split: option.splits)

lemma current_zone_in: "cn_ir_scope_current_zone_name scs \<noteq> [] \<Longrightarrow> \<exists>sc \<in> set scs. cn_ir_scope_current_zone_name scs = is_zone_name sc"
  by (induction scs) auto

lemma current_zone_bound: "zones_bound scs \<Longrightarrow> cn_ir_scope_current_zone_name scs \<noteq> [] \<Longrightarrow> cn_ir_scope_current_zone_name scs \<in> scope_names scs"
  using current_zone_in [of scs] by (auto simp: zones_bound_def)

section \<open>The expressions that an expression lowers\<close>

text \<open>The callee of a call is looked up and not lowered, and the count of a repeated literal was evaluated by the checker.\<close>

definition lowered_children :: "cn_expr \<Rightarrow> cn_expr list" where
  "lowered_children e = (case e of
       CN_EXPR_UNARY off uop x \<Rightarrow> [x]
     | CN_EXPR_BINARY off bop l r \<Rightarrow> [l, r]
     | CN_EXPR_IF off c th el \<Rightarrow> [c, th, el]
     | CN_EXPR_CALL off f args \<Rightarrow> args
     | CN_EXPR_ARRAY_LITERAL off items rc n \<Rightarrow> items
     | CN_EXPR_INDEX off base ix \<Rightarrow> [base, ix]
     | CN_EXPR_SLICE_VIEW off base st en \<Rightarrow> base # (case st of None \<Rightarrow> [] | Some x \<Rightarrow> [x]) @ (case en of None \<Rightarrow> [] | Some x \<Rightarrow> [x])
     | CN_EXPR_FIELD off base f \<Rightarrow> [base]
     | CN_EXPR_STRUCT_LITERAL off mn nm inits \<Rightarrow> map field_init_value inits
     | CN_EXPR_OK off x \<Rightarrow> [x]
     | CN_EXPR_ADDR off x \<Rightarrow> [x]
     | CN_EXPR_DEREF off x \<Rightarrow> [x]
     | _ \<Rightarrow> [])"

definition lowered_const :: "cn_project \<Rightarrow> nat \<Rightarrow> cn_expr \<Rightarrow> (nat \<times> nat) option" where
  "lowered_const prj m e = (case e of
       CN_EXPR_NAME off nm \<Rightarrow> Option.bind (cn_ir_resolve_const_in_module prj (Some m) nm) id
     | CN_EXPR_FIELD off (CN_EXPR_NAME boff nm) f \<Rightarrow> Option.bind (cn_ir_resolve_source_named_const prj m nm f) id
     | _ \<Rightarrow> None)"

definition expr_done :: "ir_scopes \<Rightarrow> nat \<Rightarrow> cn_ir_expr option \<Rightarrow> cn_ir_lower_ctx \<Rightarrow> bool" where
  "expr_done scs m r s' \<longleftrightarrow> lx_module s' = m \<and> pred_option (closed_expr (scope_names scs)) r"

lemma expr_done_simps [simp]:
  "expr_done scs m None s \<longleftrightarrow> lx_module s = m"
  "expr_done scs m (Some x) s \<longleftrightarrow> lx_module s = m \<and> closed_expr (scope_names scs) x"
  by (simp_all add: expr_done_def)

section \<open>The contract of the callee\<close>

locale closing_lowering =
  fixes prj :: cn_project and L :: expr_lowering and fits :: "nat \<Rightarrow> cn_expr \<Rightarrow> bool"
  assumes callee_ends: "zones_bound scs \<Longrightarrow> fits (lx_module s) e \<Longrightarrow> lends (expr_done scs (lx_module s)) (L scs e expected) s"
begin

lemma callee_call:
  assumes "zones_bound scs" and "fits m e" and "lx_module s = m"
    and "\<And>s'. lx_module s' = m \<Longrightarrow> Q None s'"
    and "\<And>x s'. lx_module s' = m \<Longrightarrow> closed_expr (scope_names scs) x \<Longrightarrow> Q (Some x) s'"
  shows "lends Q (L scs e expected) s"
proof (rule lends_mono [OF callee_ends])
  show "Q r s'" if "expr_done scs (lx_module s) r s'" for r s'
    using that assms(3-) by (cases r) auto
qed (use assms in auto)

lemma const_use_ends:
  assumes "\<And>d. ir_decl pr_consts prj r = Some d \<Longrightarrow> fits (fst r) (cd_initializer d)" and "lx_module s = m"
  shows "lends (expr_done scs m) (cn_ir_lower_const_use prj L r expected) s"
  using assms unfolding cn_ir_lower_const_use_def
  by (auto simp: lends_rules intro!: callee_call intro: closed_expr_mono [of "{}"])

lemma items_end:
  assumes "zones_bound scs" and "list_all (\<lambda>p. fits m (fst p)) es" and "lx_module s = m" and "list_all (closed_expr (scope_names scs)) items"
    and "\<And>b xs s'. lx_module s' = m \<Longrightarrow> list_all (closed_expr (scope_names scs)) xs \<Longrightarrow> Q (b, xs) s'"
  shows "lends Q (lower_items L scs es items) s"
  using assms(2-4)
proof (induction es arbitrary: items s)
  case (Cons p es)
  then show ?case using assms(1,5) by (cases p) (auto simp: lends_rules intro!: callee_call)
qed (use assms(5) in \<open>simp add: lends_rules\<close>)

lemma field_inits_end:
  assumes "zones_bound scs" and "list_all (\<lambda>fi. fits m (field_init_value fi)) inits" and "lx_module s = m"
    and "list_all (\<lambda>p. closed_expr (scope_names scs) (snd p)) flds"
    and "\<And>b xs s'. lx_module s' = m \<Longrightarrow> list_all (\<lambda>p. closed_expr (scope_names scs) (snd p)) xs \<Longrightarrow> Q (b, xs) s'"
  shows "lends Q (lower_field_inits L scs d inits flds) s"
  using assms(2-4)
proof (induction inits arbitrary: flds s)
  case (Cons fi inits)
  then show ?case using assms(1,5) by (auto simp: lends_rules split: option.splits intro!: callee_call)
qed (use assms(5) in \<open>simp add: lends_rules\<close>)

section \<open>Each kind of expression\<close>

lemma array_literal_ends:
  assumes "zones_bound scs" and "list_all (fits m) items" and "lx_module s = m"
  shows "lends (expr_done scs m) (cn_ir_lower_array_literal L scs off items rc n expected) s"
  unfolding cn_ir_lower_array_literal_def Let_def lends_bind lends_lift
proof (intro allI impI)
  fix es
  assume es: "literal_items items rc n = Some es"
  have "set es \<subseteq> set items" using es by (auto simp: literal_items_def split: option.splits if_splits list.splits)
  then have "list_all (\<lambda>p. fits m (fst p)) (map (\<lambda>e. (e, t)) es)" for t using assms(2) by (auto simp: list_all_iff)
  note I = items_end [OF assms(1) this assms(3)]
  show "lends (\<lambda>x. lends (expr_done scs m) (case x of (complete, xs) \<Rightarrow>
       if \<not> complete then lret (Some (CN_IR_EXPR_ARRAY_LITERAL None off xs))
       else if has_ir_kind expected CN_IR_TYPE_ARRAY then lret (Some (CN_IR_EXPR_ARRAY_LITERAL (cn_ir_type_clone expected) off xs))
       else lret (Some (cn_ir_wrap_array_as_slice_if_needed (CN_IR_EXPR_ARRAY_LITERAL
         (Some (cn_ir_type_create CN_IR_TYPE_ARRAY [] [] (case xs of [] \<Rightarrow> ir_unknown | x # _ \<Rightarrow> cn_ir_type_clone (expr_type x)) (length xs))) off xs) expected))))
     (lower_items L scs (map (\<lambda>e. (e, case expected of None \<Rightarrow> None | Some t \<Rightarrow> if ir_kind t = CN_IR_TYPE_ARRAY then ir_inner t else None)) es) []) s"
    by (rule I) (auto simp: lends_rules list.pred_map)
qed

lemma struct_literal_ends:
  assumes "zones_bound scs" and "list_all (\<lambda>fi. fits m (field_init_value fi)) inits" and "lx_module s = m"
  shows "lends (expr_done scs m) (cn_ir_lower_struct_literal prj L scs off mn nm inits) s"
  using assms unfolding cn_ir_lower_struct_literal_def
  by (auto simp: lends_rules list_all_iff split: option.splits intro!: field_inits_end [OF assms])

lemma field_type_ends: "lends (\<lambda>ty s'. lx_module s' = lx_module s) (lower_field_type prj off f t) s"
  by (auto simp: lower_field_type_def lower_struct_field_type_def lends_rules split: cn_ir_type_kind.splits option.splits)

lemma field_of_base_ends:
  assumes "zones_bound scs" and "fits m base" and "lx_module s = m"
  shows "lends (expr_done scs m) (lower_field_of_base prj L scs off base f) s"
  unfolding lower_field_of_base_def
  by (auto simp: lends_rules intro!: callee_call [OF assms] lends_mono [OF field_type_ends])

lemma index_ends:
  assumes "zones_bound scs" and "fits m base" and "fits m ix" and "lx_module s = m"
  shows "lends (expr_done scs m) (cn_ir_lower_index L scs off base ix) s"
  unfolding cn_ir_lower_index_def
  by (auto simp: lends_rules intro!: callee_call [OF assms(1,2,4)] callee_call [OF assms(1,3)])

lemma slice_view_ends:
  assumes "zones_bound scs" and "fits m base" and "pred_option (fits m) st" and "pred_option (fits m) en" and "lx_module s = m"
  shows "lends (expr_done scs m) (cn_ir_lower_slice_view L scs off base st en) s"
  using assms unfolding cn_ir_lower_slice_view_def lower_slice_end_def cn_ir_lower_with_builtin_expected_def
  by (cases st; cases en) (auto simp: lends_rules cn_ir_make_int_literal_def intro!: callee_call [of scs m])

lemma call_to_ends:
  assumes "zones_bound scs" and "list_all (fits m) args" and "lx_module s = m"
  shows "lends (\<lambda>x s'. lx_module s' = m \<and> closed_expr (scope_names scs) x) (lower_call_to L scs off k md f args params ty) s"
proof -
  have "list_all (\<lambda>p. fits m (fst p)) (with_parameters args params)"
    using assms(2) by (auto simp: with_parameters_def list_all_iff)
  then show ?thesis unfolding lower_call_to_def cn_ir_lower_call_arguments_def
    by (auto simp: lends_rules list.pred_map intro!: items_end [OF assms(1) _ assms(3)])
qed

lemma call_ends:
  assumes "zones_bound scs" and "list_all (fits m) args" and "lx_module s = m"
  shows "lends (\<lambda>x s'. lx_module s' = m \<and> closed_expr (scope_names scs) x) (cn_ir_lower_call prj L scs off callee args) s"
  using assms unfolding cn_ir_lower_call_def lower_named_call_def lower_module_call_def lower_call_function_def lower_call_fails_def
  by (auto simp: lends_rules split: cn_expr.splits option.splits intro!: call_to_ends)

lemma name_ends:
  assumes "\<And>r d. cn_ir_resolve_const_in_module prj (Some m) nm = Some (Some r) \<Longrightarrow> ir_decl pr_consts prj r = Some d \<Longrightarrow> fits (fst r) (cd_initializer d)"
    and "lx_module s = m"
  shows "lends (expr_done scs m) (lower_name prj L scs off nm expected) s"
  using assms unfolding lower_name_def
  by (auto simp: lends_rules dest: lookup_bound split: option.splits intro!: const_use_ends)

lemma field_access_ends:
  assumes "zones_bound scs" and "fits m base" and "lx_module s = m"
    and "\<And>off nm r d. base = CN_EXPR_NAME off nm \<Longrightarrow> cn_ir_resolve_source_named_const prj m nm f = Some (Some r)
      \<Longrightarrow> ir_decl pr_consts prj r = Some d \<Longrightarrow> fits (fst r) (cd_initializer d)"
  shows "lends (expr_done scs m) (cn_ir_lower_field_access prj L scs off base f) s"
  using assms unfolding cn_ir_lower_field_access_def
  by (auto simp: lends_rules split: cn_expr.split option.split intro!: const_use_ends field_of_base_ends)

lemma operands_end:
  assumes "zones_bound scs" and "fits m l" and "fits m r" and "lx_module s = m"
  shows "lends (\<lambda>p s'. lx_module s' = m \<and> pred_option (\<lambda>(x, y). closed_expr (scope_names scs) x \<and> closed_expr (scope_names scs) y) p)
    (lower_operands L scs l r) s"
  using assms unfolding lower_operands_def by (auto simp: lends_rules intro!: callee_call [of scs m])

lemma if_ends:
  assumes "zones_bound scs" and "fits m c" and "fits m th" and "fits m el" and "lx_module s = m"
  shows "lends (expr_done scs m) (lower_if L scs off c th el expected) s"
  using assms unfolding lower_if_def Let_def cn_ir_lower_with_builtin_expected_def by (auto simp: lends_rules intro!: callee_call [of scs m])

lemma ok_ends:
  assumes "zones_bound scs" and "fits m x" and "lx_module s = m"
  shows "lends (expr_done scs m) (lower_ok L scs off x expected) s"
  using assms unfolding lower_ok_def Let_def by (auto simp: lends_rules intro!: callee_call [of scs m])

lemma deref_ends:
  assumes "zones_bound scs" and "fits m x" and "lx_module s = m"
  shows "lends (expr_done scs m) (lower_deref L scs off x) s"
  using assms unfolding lower_deref_def by (auto simp: lends_rules intro!: callee_call [of scs m])

lemma zalloc_ends:
  assumes "zones_bound scs" and "lx_module s = m"
  shows "lends (expr_done scs m) (lower_zalloc scs off t) s"
  using assms unfolding lower_zalloc_def Let_def by (auto simp: lends_rules current_zone_bound)

lemma wrapped_ends: "lends (expr_done scs m) e s \<Longrightarrow> lends (expr_done scs m) (wrapped e expected) s"
  unfolding wrapped_def lends_some by (erule lends_mono) (auto simp: lends_rules split: option.split)

lemma unary_ends:
  assumes "zones_bound scs" and "fits m x" and "lx_module s = m"
    and "\<And>v s'. lx_module s' = m \<Longrightarrow> closed_expr (scope_names scs) v \<Longrightarrow> lends (expr_done scs m) (k v) s'"
  shows "lends (expr_done scs m) (lsome (L scs x None) k) s"
  using assms by (auto simp: lends_rules intro!: callee_call [of scs m])

lemma binary_ends:
  assumes "zones_bound scs" and "fits m l" and "fits m r" and "lx_module s = m"
  shows "lends (expr_done scs m) (lsome (lower_operands L scs l r) (\<lambda>(x, y). lret (Some (CN_IR_EXPR_BINARY ty off bop x y)))) s"
  unfolding lends_some by (rule lends_mono [OF operands_end [OF assms]]) (auto simp: lends_rules split: option.split)

lemma call_expr_ends:
  assumes "zones_bound scs" and "list_all (fits m) args" and "lx_module s = m"
  shows "lends (expr_done scs m) (lbind (cn_ir_lower_call prj L scs off f args) (\<lambda>x. lret (Some x))) s"
  by (auto simp: lends_rules intro: lends_mono [OF call_ends [OF assms]])

lemmas kinds_end = array_literal_ends struct_literal_ends index_ends slice_view_ends name_ends field_access_ends if_ends ok_ends
  deref_ends zalloc_ends wrapped_ends unary_ends binary_ends call_expr_ends

text \<open>An expression keeps the contract if its callee does.\<close>

lemma expression_ends:
  assumes "zones_bound scs" and "list_all (fits (lx_module s)) (lowered_children e)"
    and "\<And>r d. lowered_const prj (lx_module s) e = Some r \<Longrightarrow> ir_decl pr_consts prj r = Some d \<Longrightarrow> fits (fst r) (cd_initializer d)"
  shows "lends (expr_done scs (lx_module s)) (cn_ir_lower_expression prj L scs e expected) s"
  using assms(2,3)
  by (cases e) (auto simp: lowered_children_def lowered_const_def cn_ir_lower_expression_def Let_def lends_ret lends_after_error list.pred_map comp_def
      split: option.splits intro!: kinds_end assms(1))

end

section \<open>Ranked constants\<close>

lemma child_smaller: "x \<in> set (lowered_children e) \<Longrightarrow> size x < size e"
proof (cases e)
  case (CN_EXPR_STRUCT_LITERAL off mn nm inits)
  assume "x \<in> set (lowered_children e)"
  then obtain fi where fi: "fi \<in> set inits" and x: "x = field_init_value fi" using CN_EXPR_STRUCT_LITERAL by (auto simp: lowered_children_def)
  have "size x < size fi" using x by (cases fi) simp
  with size_list_estimation [OF fi, of "size x" size] CN_EXPR_STRUCT_LITERAL show ?thesis by simp
qed (auto simp: lowered_children_def split: option.splits dest!: size_list_estimation' [OF _ order_refl, where f = size])

function every_expr :: "(cn_expr \<Rightarrow> bool) \<Rightarrow> cn_expr \<Rightarrow> bool" where
  "every_expr P e \<longleftrightarrow> P e \<and> list_all (every_expr P) (lowered_children e)"
  by pat_completeness auto
termination
  by (relation "measure (\<lambda>(P, e). size e)") (auto dest: child_smaller)

declare every_expr.simps [simp del]

lemma every_expr_mono: "every_expr P e \<Longrightarrow> (\<And>x. P x \<Longrightarrow> Q x) \<Longrightarrow> every_expr Q e"
proof (induction P e rule: every_expr.induct)
  case (1 P e)
  then show ?case unfolding every_expr.simps [of _ e] by (auto simp: list_all_iff)
qed

lemma every_expr_always: "(\<And>x. P x) \<Longrightarrow> every_expr P e"
proof (induction e rule: measure_induct_rule [of size])
  case (less e)
  show ?case unfolding every_expr.simps [of _ e] list_all_iff using less.IH less.prems child_smaller by blast
qed

text \<open>Every constant that is used here exists and satisfies \<open>D\<close>.\<close>

definition const_uses :: "(nat \<times> nat \<Rightarrow> bool) \<Rightarrow> cn_project \<Rightarrow> nat \<Rightarrow> cn_expr \<Rightarrow> bool" where
  "const_uses D prj m = every_expr (\<lambda>x. case lowered_const prj m x of None \<Rightarrow> True | Some r \<Rightarrow> ir_decl pr_consts prj r = None \<or> D r)"

lemma const_uses_mono: "const_uses D prj m e \<Longrightarrow> (\<And>r. ir_decl pr_consts prj r \<noteq> None \<Longrightarrow> D r \<Longrightarrow> D' r) \<Longrightarrow> const_uses D' prj m e"
  unfolding const_uses_def
proof (erule every_expr_mono, goal_cases)
  case (1 x)
  then show ?case by (cases "lowered_const prj m x") (simp_all only: option.case, blast)
qed

lemma const_uses_True: "const_uses (\<lambda>r. True) prj m e"
  unfolding const_uses_def by (rule every_expr_always) (simp split: option.split)

text \<open>All constants of the project.\<close>

definition every_const :: "cn_project \<Rightarrow> (nat \<times> nat \<Rightarrow> cn_const_decl \<Rightarrow> bool) \<Rightarrow> bool" where
  "every_const prj P \<longleftrightarrow> list_all (\<lambda>k. case mo_program (pj_modules prj ! k) of
       None \<Rightarrow> True
     | Some p \<Rightarrow> list_all (\<lambda>i. P (k, i) (pr_consts p ! i)) [0..<length (pr_consts p)]) [0..<length (pj_modules prj)]"

lemma every_constD: "every_const prj P \<Longrightarrow> ir_decl pr_consts prj r = Some d \<Longrightarrow> P r d"
  by (cases r) (fastforce simp: every_const_def ir_decl_def mod_at_def list_all_iff split: bind_splits if_splits option.splits)

text \<open>Each constant uses constants of lower rank, \<open>w\<close> is above the size of every initializer and \<open>k\<close> above every rank.\<close>

definition ir_ranked :: "(nat \<times> nat \<Rightarrow> nat) \<Rightarrow> nat \<Rightarrow> nat \<Rightarrow> cn_project \<Rightarrow> bool" where
  "ir_ranked rk w k prj \<longleftrightarrow> every_const prj (\<lambda>r d.
     const_uses (\<lambda>r'. rk r' < rk r) prj (fst r) (cd_initializer d) \<and> size (cd_initializer d) < w \<and> rk r < k)"

definition lower_fits :: "(nat \<times> nat \<Rightarrow> nat) \<Rightarrow> nat \<Rightarrow> nat \<Rightarrow> cn_project \<Rightarrow> nat \<Rightarrow> nat \<Rightarrow> cn_expr \<Rightarrow> bool" where
  "lower_fits rk w k prj n m e \<longleftrightarrow> ir_ranked rk w k prj \<and> (\<exists>b. const_uses (\<lambda>r. w * Suc (rk r) \<le> b) prj m e \<and> size e + b < n)"

lemma fits_children:
  assumes "lower_fits rk w k prj (Suc n) m e"
  shows "list_all (lower_fits rk w k prj n m) (lowered_children e)"
proof -
  obtain b where b: "ir_ranked rk w k prj" "const_uses (\<lambda>r. w * Suc (rk r) \<le> b) prj m e" "size e + b < Suc n"
    using assms by (auto simp: lower_fits_def)
  have "lower_fits rk w k prj n m x" if "x \<in> set (lowered_children e)" for x
    unfolding lower_fits_def using b child_smaller [OF that] that
    by (intro conjI exI [of _ b]) (auto simp: const_uses_def every_expr.simps [of _ e] list_all_iff)
  then show ?thesis by (simp add: list_all_iff)
qed

lemma fits_const:
  assumes "lower_fits rk w k prj (Suc n) m e" and "lowered_const prj m e = Some r" and "ir_decl pr_consts prj r = Some d"
  shows "lower_fits rk w k prj n (fst r) (cd_initializer d)"
proof -
  obtain b where b: "w * Suc (rk r) \<le> b" "b \<le> n"
    using assms unfolding lower_fits_def const_uses_def every_expr.simps [of _ e] by auto
  have d: "const_uses (\<lambda>r'. rk r' < rk r) prj (fst r) (cd_initializer d)" "size (cd_initializer d) < w"
    using every_constD [OF _ assms(3)] assms(1) by (auto simp: lower_fits_def ir_ranked_def)
  have "const_uses (\<lambda>r'. w * Suc (rk r') \<le> w * rk r) prj (fst r) (cd_initializer d)"
    using d(1) by (rule const_uses_mono) (auto simp del: mult_Suc_right intro: mult_le_mono2)
  with d(2) b assms(1) show ?thesis unfolding lower_fits_def by (intro conjI exI [of _ "w * rk r"]) auto
qed

lemma fits_room: "ir_ranked rk w k prj \<Longrightarrow> size e + w * k < n \<Longrightarrow> lower_fits rk w k prj n m e"
  unfolding lower_fits_def
  by (intro conjI exI [of _ "w * k"] const_uses_mono [OF const_uses_True])
    (auto simp: ir_ranked_def simp del: mult_Suc_right dest!: every_constD intro!: mult_le_mono2)

lemma lower_expr_of_closing: "closing_lowering (lower_expr_of prj n) (lower_fits rk w k prj n)"
proof (induction n)
  case 0
  then show ?case by unfold_locales (simp add: lower_fits_def)
next
  case (Suc n)
  show ?case
    by unfold_locales (auto intro!: closing_lowering.expression_ends [OF Suc] fits_children intro: fits_const)
qed

interpretation lowering: closing_lowering prj "lower_expr_of prj n" "lower_fits rk w k prj n" for prj n rk w k
  by (rule lower_expr_of_closing)

end
