(* ===== verification/Lower_Blocks.thy ===== *)
theory Lower_Blocks
  imports Lower_Closed
begin

text \<open>
  What the lowering of statements guarantees: a lowered block names only locals that are parameters or are
  declared before by the block or a block around it, also in the cleanup that is copied to the places
  where a scope is left.
\<close>

section \<open>Closed statements\<close>

fun bound_by :: "cn_ir_stmt \<Rightarrow> string set" where
  "bound_by (CN_IR_STMT_LET off nm is_mutable ty e) = {nm}"
| "bound_by st = {}"

definition bound_in :: "cn_ir_stmt list \<Rightarrow> string set" where
  "bound_in sts = (\<Union>st \<in> set sts. bound_by st)"

fun closed_stmt :: "string set \<Rightarrow> cn_ir_stmt \<Rightarrow> bool"
and closed_stmts :: "string set \<Rightarrow> cn_ir_stmt list \<Rightarrow> bool" where
  "closed_stmt V (CN_IR_STMT_LET off nm is_mutable ty e) \<longleftrightarrow> closed_expr V e"
| "closed_stmt V (CN_IR_STMT_ASSIGN off t e) \<longleftrightarrow> closed_expr V t \<and> closed_expr V e"
| "closed_stmt V (CN_IR_STMT_RETURN off v) \<longleftrightarrow> pred_option (closed_expr V) v"
| "closed_stmt V (CN_IR_STMT_EXPR off e) \<longleftrightarrow> closed_expr V e"
| "closed_stmt V (CN_IR_STMT_ZONE off z (IrBlock sts boff)) \<longleftrightarrow> closed_stmts (insert z V) sts"
| "closed_stmt V (CN_IR_STMT_IF off c (IrBlock sts boff) None) \<longleftrightarrow> closed_expr V c \<and> closed_stmts V sts"
| "closed_stmt V (CN_IR_STMT_IF off c (IrBlock sts boff) (Some (IrBlock sts' boff'))) \<longleftrightarrow> closed_expr V c \<and> closed_stmts V sts \<and> closed_stmts V sts'"
| "closed_stmt V (CN_IR_STMT_WHILE off c (IrBlock sts boff)) \<longleftrightarrow> closed_expr V c \<and> closed_stmts V sts"
| "closed_stmt V (CN_IR_STMT_LOOP off (IrBlock sts boff)) \<longleftrightarrow> closed_stmts V sts"
| "closed_stmt V (CN_IR_STMT_FOR off nm ty st en (IrBlock sts boff)) \<longleftrightarrow> closed_expr V st \<and> closed_expr V en \<and> closed_stmts (insert nm V) sts"
| "closed_stmt V (CN_IR_STMT_FREE off e) \<longleftrightarrow> closed_expr V e"
| "closed_stmts V [] \<longleftrightarrow> True"
| "closed_stmts V (st # sts) \<longleftrightarrow> closed_stmt V st \<and> closed_stmts (V \<union> bound_by st) sts"

definition closed_block :: "string set \<Rightarrow> cn_ir_block \<Rightarrow> bool" where
  "closed_block V b \<longleftrightarrow> closed_stmts V (ir_statements b)"

lemma closed_stmt_mono:
  "closed_stmt V st \<Longrightarrow> V \<subseteq> W \<Longrightarrow> closed_stmt W st"
  "closed_stmts V sts \<Longrightarrow> V \<subseteq> W \<Longrightarrow> closed_stmts W sts"
proof (induction V st and V sts arbitrary: W and W rule: closed_stmt_closed_stmts.induct)
  case (3 V off v)
  then show ?case by (cases v) (auto intro: closed_expr_mono)
next
  case (5 V off z sts boff)
  then show ?case using "5.IH" [of "insert z W"] by auto
next
  case (10 V off nm ty st en sts boff)
  then show ?case using "10.IH" [of "insert nm W"] by (auto intro: closed_expr_mono)
next
  case (13 V st sts)
  from "13.prems" have "V \<union> bound_by st \<subseteq> W \<union> bound_by st" by auto
  with "13.IH" "13.prems" show ?case by auto
qed (auto intro: closed_expr_mono)

lemma closed_stmts_append [simp]: "closed_stmts V (xs @ ys) \<longleftrightarrow> closed_stmts V xs \<and> closed_stmts (V \<union> bound_in xs) ys"
  by (induction xs arbitrary: V) (auto simp: bound_in_def Un_assoc)

lemma bound_in_simps [simp]: "bound_in [] = {}" "bound_in (xs @ ys) = bound_in xs \<union> bound_in ys" "bound_in (st # sts) = bound_by st \<union> bound_in sts"
  by (auto simp: bound_in_def)

lemma closed_zone [simp]: "closed_stmt V (CN_IR_STMT_ZONE off z b) \<longleftrightarrow> closed_block (insert z V) b"
  and closed_if [simp]: "closed_stmt V (CN_IR_STMT_IF off c b el) \<longleftrightarrow> closed_expr V c \<and> closed_block V b \<and> pred_option (closed_block V) el"
  and closed_while [simp]: "closed_stmt V (CN_IR_STMT_WHILE off c b) \<longleftrightarrow> closed_expr V c \<and> closed_block V b"
  and closed_loop [simp]: "closed_stmt V (CN_IR_STMT_LOOP off b) \<longleftrightarrow> closed_block V b"
  and closed_for [simp]: "closed_stmt V (CN_IR_STMT_FOR off nm ty st en b) \<longleftrightarrow> closed_expr V st \<and> closed_expr V en \<and> closed_block (insert nm V) b"
      apply (cases b, simp add: closed_block_def)
     apply (cases b; cases el; (cases "the el")?; simp add: closed_block_def)
    apply (cases b, simp add: closed_block_def)+
  done

lemma closed_release [simp]: "closed_stmt V (cn_ir_make_zone_release_stmt z off) \<longleftrightarrow> z \<in> V" "bound_by (cn_ir_make_zone_release_stmt z off) = {}"
  by (simp_all add: cn_ir_make_zone_release_stmt_def cn_ir_make_hidden_builtin_call_def cn_ir_make_local_expr_def)

section \<open>Scopes and frames\<close>

lemma names_define [lends_rules]:
  "lends Q (cn_ir_scope_define nm ty is_mutable scs) s \<longleftrightarrow> (case scs of [] \<Rightarrow> True | sc # rest \<Rightarrow>
     if nm \<in> ib_name ` set (is_bindings sc)
     then Q scs (s\<lparr>lx_diagnostics := cn_diag_emit (lx_diagnostics s) CN_DIAG_ERROR ''E3020'' 0
       (''typed IR lowering hit a duplicate binding invariant for '' @ c_quote @ nm @ c_quote)\<rparr>)
     else Q (sc\<lparr>is_bindings := \<lparr>ib_name = nm, ib_type = ty, ib_is_mutable = is_mutable\<rparr> # is_bindings sc\<rparr> # rest) s)"
  by (auto simp: cn_ir_scope_define_def lends_rules list_ex_iff split: list.splits)

lemma define_ends:
  assumes "zones_bound scs" and "\<And>scs' s'. lx_module s' = lx_module s \<Longrightarrow> zones_bound scs' \<Longrightarrow> scope_names scs' = insert nm (scope_names scs) \<Longrightarrow> Q scs' s'"
  shows "lends Q (cn_ir_scope_define nm ty is_mutable scs) s"
  using assms(1) unfolding names_define
  by (auto simp: zones_bound_def split: list.splits intro!: assms(2))

lemma generated_ends: "(\<And>nm s'. lx_module s' = lx_module s \<Longrightarrow> Q nm s') \<Longrightarrow> lends Q (cn_ir_make_generated_name prefix) s"
  by (simp add: cn_ir_make_generated_name_def lends_rules Let_def)

lemma names_visible: "ib_name ` set (visible_bindings seen bs) = ib_name ` set seen \<union> ib_name ` set bs"
  by (induction seen bs rule: visible_bindings.induct) (auto simp: list_ex_iff intro: rev_image_eqI)

lemma names_capture [simp]: "ib_name ` set (is_bindings (cn_ir_capture_scope scs)) = scope_names scs"
proof -
  have "ib_name ` set (fold (\<lambda>sc seen. visible_bindings seen (is_bindings sc)) scs seen) = ib_name ` set seen \<union> scope_names scs" for seen
    by (induction scs arbitrary: seen) (auto simp: names_visible)
  then show ?thesis by (simp add: cn_ir_capture_scope_def)
qed

lemma zones_capture: "zones_bound scs \<Longrightarrow> zones_bound [cn_ir_capture_scope scs]"
  using current_zone_bound [of scs] names_capture [of scs] by (auto simp: zones_bound_def cn_ir_capture_scope_def)

fun entry_bound :: "string set \<Rightarrow> cn_ir_defer_entry \<Rightarrow> bool" where
  "entry_bound V (CN_IR_DEFER_AST_STATEMENT st off captured) \<longleftrightarrow> scope_names [captured] \<subseteq> V \<and> zones_bound [captured]"
| "entry_bound V (CN_IR_DEFER_ZONE_RELEASE z off) \<longleftrightarrow> z \<in> V"

lemma entry_bound_mono: "entry_bound V d \<Longrightarrow> V \<subseteq> W \<Longrightarrow> entry_bound W d"
  by (cases d) auto

definition frame_bound :: "string set \<Rightarrow> cn_ir_defer_frame \<Rightarrow> bool" where
  "frame_bound V = list_all (entry_bound V)"

lemma frame_bound_mono: "frame_bound V fr \<Longrightarrow> V \<subseteq> W \<Longrightarrow> frame_bound W fr"
  by (auto simp: frame_bound_def list_all_iff intro: entry_bound_mono)

lemma frames_bound_mono: "list_all (frame_bound V) fs \<Longrightarrow> V \<subseteq> W \<Longrightarrow> list_all (frame_bound W) fs"
  by (auto simp: list_all_iff intro: frame_bound_mono)

lemma zones_block [simp]: "zones_bound (block_scopes scs) \<longleftrightarrow> zones_bound scs" "scope_names (block_scopes scs) = scope_names scs"
  by (auto simp: block_scopes_def zones_bound_def split: list.splits)

section \<open>Weights\<close>

text \<open>A bound for the depth of the recursion on a statement: its own nodes and those of its expressions.\<close>

primrec stmt_weight :: "cn_stmt \<Rightarrow> nat" and block_weight :: "cn_block \<Rightarrow> nat" where
  "stmt_weight (CN_STMT_LET off nm is_mutable t e) = Suc (size e)"
| "stmt_weight (CN_STMT_ASSIGN off t e) = Suc (size t + size e)"
| "stmt_weight (CN_STMT_RETURN off v) = Suc (case v of None \<Rightarrow> 0 | Some e \<Rightarrow> size e)"
| "stmt_weight (CN_STMT_EXPR off e) = Suc (size e)"
| "stmt_weight (CN_STMT_DEFER off d) = Suc (stmt_weight d)"
| "stmt_weight (CN_STMT_TRY off nm e) = Suc (size e)"
| "stmt_weight (CN_STMT_ZONE off b) = Suc (block_weight b)"
| "stmt_weight (CN_STMT_IF off c th el) = Suc (size c + block_weight th + (case map_option block_weight el of None \<Rightarrow> 0 | Some k \<Rightarrow> k))"
| "stmt_weight (CN_STMT_WHILE off c b) = Suc (size c + block_weight b)"
| "stmt_weight (CN_STMT_LOOP off b) = Suc (block_weight b)"
| "stmt_weight (CN_STMT_FOR off nm t st en b) = Suc (size st + size en + block_weight b)"
| "stmt_weight (CN_STMT_FREE off e) = Suc (size e)"
| "block_weight (CnBlock sts off) = sum_list (map stmt_weight sts)"

fun entry_weight :: "cn_ir_defer_entry \<Rightarrow> nat" where
  "entry_weight (CN_IR_DEFER_AST_STATEMENT st off captured) = stmt_weight st"
| "entry_weight (CN_IR_DEFER_ZONE_RELEASE z off) = 0"

definition frames_weight :: "cn_ir_defer_frame list \<Rightarrow> nat" where
  "frames_weight fs = sum_list (map (\<lambda>fr. sum_list (map entry_weight fr)) fs)"

lemma frames_weight_simps [simp]:
  "frames_weight [] = 0" "frames_weight (fr # fs) = sum_list (map entry_weight fr) + frames_weight fs"
  by (simp_all add: frames_weight_def)

definition stmt_lowered :: "ir_scopes \<Rightarrow> nat \<Rightarrow> cn_ir_stmt \<times> ir_scopes \<Rightarrow> cn_ir_lower_ctx \<Rightarrow> bool" where
  "stmt_lowered scs m r s' \<longleftrightarrow> lx_module s' = m \<and> zones_bound (snd r) \<and> closed_stmt (scope_names scs) (fst r)
     \<and> scope_names scs \<subseteq> scope_names (snd r) \<and> scope_names (snd r) \<subseteq> scope_names scs \<union> bound_by (fst r)"

section \<open>The contract of the callees\<close>

locale closing_blocks = closing_lowering prj L fits
  for prj :: cn_project and L :: expr_lowering and fits :: "nat \<Rightarrow> cn_expr \<Rightarrow> bool" +
  fixes S :: stmt_lowering and room :: nat
  assumes expr_room: "size e < room \<Longrightarrow> fits m e"
    and stmt_ends: "stmt_weight st + frames_weight frames < room \<Longrightarrow> zones_bound scs \<Longrightarrow> list_all (frame_bound (scope_names scs)) frames
      \<Longrightarrow> lends (stmt_lowered scs (lx_module s)) (S scs st ret frames) s"
begin

lemma stmt_call:
  assumes "stmt_weight st + frames_weight frames < room" and "zones_bound scs" and "list_all (frame_bound (scope_names scs)) frames"
    and "\<And>x scs' s'. lx_module s' = lx_module s \<Longrightarrow> zones_bound scs' \<Longrightarrow> closed_stmt (scope_names scs) x \<Longrightarrow> scope_names scs \<subseteq> scope_names scs'
      \<Longrightarrow> scope_names scs' \<subseteq> scope_names scs \<union> bound_by x \<Longrightarrow> Q (x, scs') s'"
  shows "lends Q (S scs st ret frames) s"
  by (rule lends_mono [OF stmt_ends [OF assms(1-3)]]) (auto simp: stmt_lowered_def intro: assms(4))

lemma expr_call:
  assumes "size e < room" and "zones_bound scs"
    and "\<And>r s'. lx_module s' = lx_module s \<Longrightarrow> pred_option (closed_expr (scope_names scs)) r \<Longrightarrow> Q r s'"
  shows "lends Q (L scs e expected) s"
  by (rule callee_call [OF assms(2) expr_room [OF assms(1)] refl]) (auto intro: assms(3))

lemma local_entries_end:
  assumes "sum_list (map entry_weight fr) < room" and "frame_bound (V \<union> bound_in out) fr" and "closed_stmts V out"
    and "\<And>out' s'. lx_module s' = lx_module s \<Longrightarrow> closed_stmts V out' \<Longrightarrow> bound_in out \<subseteq> bound_in out' \<Longrightarrow> Q out' s'"
  shows "lends Q (cn_ir_emit_local_deferred_entries S ret fr out) s"
  using assms
proof (induction fr arbitrary: out s)
  case (Cons d fr)
  have b: "frame_bound W fr" if "V \<union> bound_in out \<subseteq> W" for W using Cons.prems(2) that frame_bound_mono [of "V \<union> bound_in out" fr W] by (auto simp: frame_bound_def)
  show ?case
  proof (cases d)
    case (CN_IR_DEFER_AST_STATEMENT st off captured)
    show ?thesis unfolding CN_IR_DEFER_AST_STATEMENT cn_ir_emit_local_deferred_entries.simps lends_bind
    proof (rule stmt_call, goal_cases)
      case (4 x scs s')
      have "closed_stmt (V \<union> bound_in out) x"
        using 4 Cons.prems(2) CN_IR_DEFER_AST_STATEMENT by (auto simp: frame_bound_def intro: closed_stmt_mono(1))
      then have "lends Q (cn_ir_emit_local_deferred_entries S ret fr (out @ [x])) s'"
        using Cons.prems 4 by (intro Cons.IH b) (auto intro: Cons.prems(4))
      then show ?case by simp
    qed (use Cons.prems CN_IR_DEFER_AST_STATEMENT in \<open>auto simp: frame_bound_def\<close>)
  next
    case (CN_IR_DEFER_ZONE_RELEASE z off)
    then show ?thesis using Cons.prems by (auto intro!: Cons.IH b simp: frame_bound_def)
  qed
qed (auto simp: lends_rules)

lemma entries_end:
  assumes "frames_weight frames < room" and "list_all (frame_bound (V \<union> bound_in out)) frames" and "closed_stmts V out"
    and "\<And>out' s'. lx_module s' = lx_module s \<Longrightarrow> closed_stmts V out' \<Longrightarrow> bound_in out \<subseteq> bound_in out' \<Longrightarrow> Q out' s'"
  shows "lends Q (cn_ir_emit_deferred_entries S ret frames out) s"
  using assms
proof (induction frames arbitrary: out s)
  case (Cons fr frames)
  show ?case unfolding cn_ir_emit_deferred_entries.simps lends_bind
  proof (rule local_entries_end [where V = V], goal_cases)
    case (4 out' s')
    from 4(3) have "V \<union> bound_in out \<subseteq> V \<union> bound_in out'" by auto
    then have "list_all (frame_bound (V \<union> bound_in out')) frames" using Cons.prems(2) frames_bound_mono [of "V \<union> bound_in out"] by auto
    then show ?case
      by (rule Cons.IH [rotated]) (use 4 Cons.prems(1) in \<open>auto intro: Cons.prems(4)\<close>)
  qed (use Cons.prems(1-3) in simp_all)
qed (simp add: lends_rules)

section \<open>Blocks\<close>

lemma closed_try:
  "closed_stmt V (try_test off temp ty ret cleanup) \<longleftrightarrow> temp \<in> V \<and> closed_stmts V cleanup"
  "closed_stmt V (try_value off nm temp ty inner) \<longleftrightarrow> temp \<in> V"
  "bound_by (try_test off temp ty ret cleanup) = {}" "bound_by (try_value off nm temp ty inner) = {nm}"
  by (simp_all add: try_test_def try_value_def cn_ir_make_local_expr_def closed_block_def)

lemma try_rest_ends:
  assumes "frames_weight frames < room" and "zones_bound scs" and "list_all (frame_bound (scope_names scs)) frames"
    and "scope_names scs \<subseteq> V \<union> bound_in out" and "closed_stmts V out" and "closed_expr (V \<union> bound_in out) x"
    and "\<And>out' scs' s'. lx_module s' = lx_module s \<Longrightarrow> zones_bound scs' \<Longrightarrow> closed_stmts V out' \<Longrightarrow> scope_names scs \<subseteq> scope_names scs'
      \<Longrightarrow> scope_names scs' \<subseteq> V \<union> bound_in out' \<Longrightarrow> bound_in out \<subseteq> bound_in out' \<Longrightarrow> Q (out', scs') s'"
  shows "lends Q (lbind (cn_ir_make_generated_name ''try'') (\<lambda>temp.
              lbind (cn_ir_scope_define temp ty False scs) (\<lambda>scs.
              lbind (cn_ir_emit_deferred_entries S ret frames []) (\<lambda>cleanup.
              lbind (cn_ir_scope_define nm inner False scs) (\<lambda>scs.
              lret (out @ [CN_IR_STMT_LET off temp False (child_type ty) x, try_test off temp ty ret cleanup, try_value off nm temp ty inner],
                scs)))))) s"
  unfolding lends_bind
proof (rule generated_ends, rule define_ends [OF assms(2)], goal_cases)
  case (1 temp s1 scs1 s2)
  show ?case
  proof (rule entries_end [where V = "scope_names scs"], goal_cases)
    case (4 cleanup s3)
    have c: "closed_stmts (insert temp (V \<union> bound_in out)) cleanup"
      using 4(2) assms(4) by (auto intro: closed_stmt_mono(2))
    show ?case
    proof (rule define_ends [OF 1(3)], goal_cases)
      case (1 scs2 s4)
      show ?case unfolding lends_ret
      proof (rule assms(7))
        show "scope_names scs2 \<subseteq> V \<union> bound_in (out @ [CN_IR_STMT_LET off temp False (child_type ty) x, try_test off temp ty ret cleanup, try_value off nm temp ty inner])"
          using 1 \<open>scope_names scs1 = _\<close> assms(4) by (auto simp: closed_try)
      qed (use 1 4(1) c assms(5,6) \<open>lx_module s1 = _\<close> \<open>lx_module s2 = _\<close> \<open>scope_names scs1 = _\<close> in \<open>auto simp: closed_try\<close>)
    qed
  qed (use assms(1,3) in auto)
qed

lemma try_ends:
  assumes "size e + frames_weight frames < room" and "zones_bound scs" and "list_all (frame_bound (scope_names scs)) frames"
    and "scope_names scs \<subseteq> V \<union> bound_in out" and "closed_stmts V out"
    and "\<And>out' scs' s'. lx_module s' = lx_module s \<Longrightarrow> zones_bound scs' \<Longrightarrow> closed_stmts V out' \<Longrightarrow> scope_names scs \<subseteq> scope_names scs'
      \<Longrightarrow> scope_names scs' \<subseteq> V \<union> bound_in out' \<Longrightarrow> bound_in out \<subseteq> bound_in out' \<Longrightarrow> Q (out', scs') s'"
  shows "lends Q (cn_ir_lower_try_statement L S scs off nm e ret frames out) s"
  unfolding cn_ir_lower_try_statement_def lends_bind
proof (rule expr_call, goal_cases)
  case (3 r s1)
  show ?case
  proof (cases r)
    case (Some x)
    then have x: "closed_expr (V \<union> bound_in out) x" using 3(2) assms(4) closed_expr_mono by auto
    have w: "frames_weight frames < room" using assms(1) by simp
    show ?thesis unfolding Some option.case Let_def using assms(4)
      by (auto simp: lends_after_error lends_ret 3(1) assms(2,5) intro!: assms(6) try_rest_ends [OF w assms(2-5) x])
  qed (use 3 assms in \<open>auto simp: lends_rules\<close>)
qed (use assms in auto)

text \<open>The invariant of the loop over the statements of a block.\<close>

definition loop_inv :: "string set \<Rightarrow> cn_ir_defer_frame list \<Rightarrow> ir_scopes \<Rightarrow> cn_stmt list \<Rightarrow> cn_ir_stmt list \<Rightarrow> bool" where
  "loop_inv V frames scs sts out \<longleftrightarrow> sum_list (map stmt_weight sts) + frames_weight frames < room \<and> zones_bound scs
     \<and> list_all (frame_bound (scope_names scs)) frames \<and> scope_names scs \<subseteq> V \<union> bound_in out \<and> closed_stmts V out"

lemma loop_step:
  assumes "loop_inv V frames scs (st # sts) out" and "zones_bound scs'" and "scope_names scs \<subseteq> scope_names scs'"
    and "scope_names scs' \<subseteq> V \<union> bound_in out'" and "closed_stmts V out'"
  shows "loop_inv V frames scs' sts out'"
  using assms frames_bound_mono [OF _ assms(3), of frames] by (auto simp: loop_inv_def)

lemma statement_step:
  assumes "loop_inv V frames scs (st # sts) out"
    and "\<And>x scs' s'. lx_module s' = lx_module s \<Longrightarrow> closed_stmt (V \<union> bound_in out) x \<Longrightarrow> loop_inv V frames scs' sts (out @ [x]) \<Longrightarrow> Q (x, scs') s'"
  shows "lends Q (S scs st ret frames) s"
proof (rule stmt_call, goal_cases)
  case (4 x scs' s')
  have x: "closed_stmt (V \<union> bound_in out) x" using 4(3) assms(1) by (auto simp: loop_inv_def intro: closed_stmt_mono(1))
  show ?case by (rule assms(2) [OF 4(1) x loop_step [OF assms(1) 4(2,4)]]) (use 4(5) x assms(1) in \<open>auto simp: loop_inv_def\<close>)
qed (use assms(1) in \<open>auto simp: loop_inv_def\<close>)

lemma statements_end:
  assumes "loop_inv V (frame # parents) scs sts out"
    and "\<And>out' s'. lx_module s' = lx_module s \<Longrightarrow> closed_stmts V out' \<Longrightarrow> Q out' s'"
  shows "lends Q (lower_statements L S ret parents frame scs sts out) s"
  using assms
proof (induction sts arbitrary: frame scs out s)
  case Nil
  show ?case unfolding lower_statements.simps
    by (rule local_entries_end [where V = V])
      (use Nil.prems(1) frame_bound_mono [of "scope_names scs" frame] in \<open>auto simp: loop_inv_def intro: Nil.prems(2)\<close>)
next
  case (Cons st sts)
  note inv = Cons.prems(1)
  have plain: "lends Q (lbind (S scs st ret (frame # parents)) (\<lambda>(x, scs). lower_statements L S ret parents frame scs sts (out @ [x]))) s"
    unfolding lends_bind by (rule statement_step [OF inv]) (auto intro!: Cons.IH Cons.prems(2))
  show ?case
  proof (cases st)
    case (CN_STMT_DEFER off d)
    have "loop_inv V ((CN_IR_DEFER_AST_STATEMENT d off (cn_ir_capture_scope scs) # frame) # parents) scs sts out"
      using inv CN_STMT_DEFER zones_capture [of scs] by (auto simp: loop_inv_def frame_bound_def)
    then show ?thesis using CN_STMT_DEFER by (auto intro: Cons.IH Cons.prems(2))
  next
    case (CN_STMT_TRY off nm e)
    have "lends Q (lbind (cn_ir_lower_try_statement L S scs off nm e ret (frame # parents) out) (\<lambda>(out, scs). lower_statements L S ret parents frame scs sts out)) s"
      unfolding lends_bind
    proof (rule try_ends [where V = V], goal_cases)
      case (6 out' scs' s')
      show ?case using 6(1) by (auto intro!: Cons.IH loop_step [OF inv] 6 Cons.prems(2))
    qed (use inv CN_STMT_TRY in \<open>auto simp: loop_inv_def\<close>)
    then show ?thesis using CN_STMT_TRY by simp
  next
    case (CN_STMT_RETURN off v)
    have "lends Q (lbind (cn_ir_emit_deferred_entries S ret (frame # parents) out) (\<lambda>out. lbind (S scs st ret (frame # parents)) (\<lambda>(x, _). lret (out @ [x])))) s"
      unfolding lends_bind
    proof (rule entries_end [where V = V], goal_cases)
      case (2)
      show ?case using inv frames_bound_mono [of "scope_names scs" "frame # parents" "V \<union> bound_in out"] by (simp add: loop_inv_def)
    next
      case (4 out' s')
      have "loop_inv V (frame # parents) scs (st # sts) out'" using inv 4(2,3) by (auto simp: loop_inv_def)
      then show ?case by (rule statement_step) (use 4 in \<open>auto simp: lends_rules intro!: Cons.prems(2)\<close>)
    qed (use inv in \<open>auto simp: loop_inv_def\<close>)
    then show ?thesis using CN_STMT_RETURN by simp
  qed (use plain in \<open>simp_all\<close>)
qed

lemma block_ends:
  assumes "block_weight b + frames_weight frames < room" and "zones_bound scs" and "list_all (frame_bound (scope_names scs)) frames"
    and "\<And>b' s'. lx_module s' = lx_module s \<Longrightarrow> closed_block (scope_names scs) b' \<Longrightarrow> Q b' s'"
  shows "lends Q (cn_ir_lower_block L S scs b creates_scope ret frames) s"
  unfolding cn_ir_lower_block_def lends_bind
  by (rule statements_end [where V = "scope_names scs"], cases b)
    (use assms in \<open>auto simp: loop_inv_def frame_bound_def lends_rules closed_block_def\<close>)

section \<open>Statements\<close>

lemma keep_scopes_ends:
  assumes "zones_bound scs" and "lends (\<lambda>x s'. lx_module s' = m \<and> closed_stmt (scope_names scs) x) e s"
  shows "lends (stmt_lowered scs m) (keep_scopes scs e) s"
  unfolding keep_scopes_def lends_bind by (rule lends_mono [OF assms(2)]) (auto simp: lends_ret stmt_lowered_def assms(1))

lemma let_ends:
  assumes "size e < room" and "zones_bound scs"
  shows "lends (stmt_lowered scs (lx_module s)) (lower_let L scs off nm is_mutable t e) s"
  unfolding lower_let_def Let_def lends_bind
proof (rule expr_call [OF assms], goal_cases)
  case (1 r s1)
  then show ?case using assms(2) by (cases r) (auto simp: lends_bind lends_ret stmt_lowered_def intro!: define_ends)
qed

lemma child_closed: "pred_option (closed_expr V) r \<Longrightarrow> closed_expr V (child r)"
  by (cases r) auto

lemma assign_ends:
  assumes "size t + size e < room" and "zones_bound scs"
  shows "lends (\<lambda>x s'. lx_module s' = lx_module s \<and> closed_stmt (scope_names scs) x) (lower_assign L scs off t e) s"
  using assms unfolding lower_assign_def
  by (auto simp: lends_bind lends_ret child_closed split: option.split intro!: expr_call)

lemma return_ends:
  assumes "(case v of None \<Rightarrow> 0 | Some e \<Rightarrow> size e) < room" and "zones_bound scs"
  shows "lends (\<lambda>x s'. lx_module s' = lx_module s \<and> closed_stmt (scope_names scs) x) (lower_return L scs off v ret) s"
  using assms unfolding lower_return_def
  by (cases v) (auto simp: lends_bind lends_ret intro!: expr_call)

lemma one_expr_ends:
  assumes "size e < room" and "zones_bound scs" and "\<And>x. closed_expr (scope_names scs) x \<Longrightarrow> closed_stmt (scope_names scs) (mk x)"
  shows "lends (\<lambda>x s'. lx_module s' = lx_module s \<and> closed_stmt (scope_names scs) x) (lbind (L scs e None) (\<lambda>x. lret (mk (child x)))) s"
  using assms by (auto simp: lends_bind lends_ret child_closed intro!: expr_call)

lemma zone_ends:
  assumes "block_weight b + frames_weight frames < room" and "zones_bound scs" and "list_all (frame_bound (scope_names scs)) frames"
  shows "lends (\<lambda>x s'. lx_module s' = lx_module s \<and> closed_stmt (scope_names scs) x) (cn_ir_lower_zone_statement L S scs off b ret frames) s"
  unfolding cn_ir_lower_zone_statement_def lends_bind
proof (rule generated_ends, goal_cases)
  case (1 z s1)
  have "zones_bound (\<lparr>is_bindings = [\<lparr>ib_name = z, ib_type = Some zone_pointer, ib_is_mutable = False\<rparr>], is_zone_name = z\<rparr> # scs)"
    using assms(2) by (auto simp: zones_bound_def)
  moreover have "list_all (frame_bound (insert z (scope_names scs))) frames" using assms(3) by (auto intro: frames_bound_mono)
  ultimately show ?case using 1 assms(1)
    by (auto simp: names_define lends_bind lends_ret frame_bound_def closed_block_def intro!: block_ends)
qed

lemma for_ends:
  assumes "size st + size en + block_weight b + frames_weight frames < room" and "zones_bound scs" and "list_all (frame_bound (scope_names scs)) frames"
  shows "lends (\<lambda>x s'. lx_module s' = lx_module s \<and> closed_stmt (scope_names scs) x) (lower_for L S scs off nm t st en b ret frames) s"
proof -
  have "zones_bound (empty_scope # scs)" "scope_names (empty_scope # scs) = scope_names scs"
    using assms(2) by (auto simp: zones_bound_def empty_scope_def)
  moreover have "list_all (frame_bound (insert nm (scope_names scs))) frames" using assms(3) by (auto intro: frames_bound_mono)
  ultimately show ?thesis using assms unfolding lower_for_def Let_def cn_ir_lower_with_builtin_expected_def
    by (auto simp: lends_bind lends_ret child_closed simp del: scope_names_simps intro!: expr_call define_ends block_ends)
qed

lemma condition_ends:
  assumes "size c + block_weight th + (case map_option block_weight el of None \<Rightarrow> 0 | Some k \<Rightarrow> k) + frames_weight frames < room"
    and "zones_bound scs" and "list_all (frame_bound (scope_names scs)) frames"
  shows "lends (\<lambda>x s'. lx_module s' = lx_module s \<and> closed_stmt (scope_names scs) x) (lower_condition L S scs off c th el ret frames) s"
  using assms unfolding lower_condition_def lower_option_def cn_ir_lower_with_builtin_expected_def
  by (cases el) (auto simp: lends_bind lends_ret child_closed intro!: expr_call block_ends)

lemma while_ends:
  assumes "size c + block_weight b + frames_weight frames < room" and "zones_bound scs" and "list_all (frame_bound (scope_names scs)) frames"
  shows "lends (\<lambda>x s'. lx_module s' = lx_module s \<and> closed_stmt (scope_names scs) x) (lower_while L S scs off c b ret frames) s"
  using assms unfolding lower_while_def cn_ir_lower_with_builtin_expected_def
  by (auto simp: lends_bind lends_ret child_closed intro!: expr_call block_ends)

lemma loop_ends:
  assumes "block_weight b + frames_weight frames < room" and "zones_bound scs" and "list_all (frame_bound (scope_names scs)) frames"
  shows "lends (\<lambda>x s'. lx_module s' = lx_module s \<and> closed_stmt (scope_names scs) x)
    (lbind (cn_ir_lower_block L S scs b True ret frames) (\<lambda>b. lret (CN_IR_STMT_LOOP off b))) s"
  using assms by (auto simp: lends_bind lends_ret intro!: block_ends)

lemma unexpected_ends: "lends (\<lambda>x s'. lx_module s' = lx_module s \<and> closed_stmt V x) (lower_unexpected off) s"
  by (simp add: lower_unexpected_def lends_after_error lends_ret)

lemmas stmts_end = keep_scopes_ends let_ends assign_ends return_ends one_expr_ends zone_ends for_ends condition_ends while_ends loop_ends unexpected_ends

lemma statement_ends:
  assumes "stmt_weight st + frames_weight frames < Suc room" and "zones_bound scs" and "list_all (frame_bound (scope_names scs)) frames"
  shows "lends (stmt_lowered scs (lx_module s)) (cn_ir_lower_statement L S scs st ret frames) s"
  using assms by (cases st) (auto simp: cn_ir_lower_statement_def intro!: stmts_end)

end

section \<open>The knot\<close>

definition stmt_room :: "(nat \<times> nat \<Rightarrow> nat) \<Rightarrow> nat \<Rightarrow> nat \<Rightarrow> cn_project \<Rightarrow> nat \<Rightarrow> nat" where
  "stmt_room rk w k prj n = (if ir_ranked rk w k prj then n - w * k else 0)"

lemma lower_stmt_of_closing:
  "closing_blocks (lower_expr_of prj n) (lower_fits rk w k prj n) (lower_stmt_of prj n) (stmt_room rk w k prj n)"
proof (induction n)
  case 0
  show ?case by unfold_locales (auto simp: stmt_room_def split: if_splits)
next
  case (Suc n)
  show ?case
  proof (unfold_locales, goal_cases)
    case (1 e m)
    then show ?case by (intro fits_room) (auto simp: stmt_room_def split: if_splits)
  next
    case (2 st frames scs s ret)
    have "stmt_room rk w k prj (Suc n) \<le> Suc (stmt_room rk w k prj n)" by (auto simp: stmt_room_def)
    then show ?case using 2 by (auto intro: closing_blocks.statement_ends [OF Suc])
  qed
qed

interpretation blocks: closing_blocks prj "lower_expr_of prj n" "lower_fits rk w k prj n" "lower_stmt_of prj n" "stmt_room rk w k prj n"
  for prj n rk w k
  by (rule lower_stmt_of_closing)

end
