(* ===== verification/Lower_Run.thy ===== *)
theory Lower_Run
  imports Lower_Blocks Sema_Run
begin

text \<open>
  The lowering of a whole project: with ranked constants it ends, and the program that it makes is closed.
  At the end, what the lowering of deferred statements does to the value of a return statement and to names that are shadowed.
\<close>

section \<open>Closed programs\<close>

definition closed_function :: "cn_ir_function \<Rightarrow> bool" where
  "closed_function f \<longleftrightarrow> pred_option (closed_block (irp_name ` set (irf_parameters f))) (irf_body f)"

definition closed_module :: "cn_ir_module \<Rightarrow> bool" where
  "closed_module m \<longleftrightarrow> list_all (\<lambda>c. pred_option (closed_expr {}) (irc_initializer c)) (irm_consts m) \<and> list_all closed_function (irm_functions m)"

definition closed_program :: "cn_ir_program \<Rightarrow> bool" where
  "closed_program p \<longleftrightarrow> list_all closed_module (ir_modules p)"

text \<open>Every body weighs less than \<open>b\<close>.\<close>

definition bodies_below :: "nat \<Rightarrow> cn_project \<Rightarrow> bool" where
  "bodies_below b prj \<longleftrightarrow> list_all (\<lambda>md. pred_option (\<lambda>p. list_all (\<lambda>f. pred_option (\<lambda>body. block_weight body < b) (fn_body f)) (pr_functions p))
     (mo_program md)) (pj_modules prj)"

section \<open>Declarations\<close>

lemma each_ends:
  assumes "\<And>i s. i < length xs \<Longrightarrow> lx_module s = c \<Longrightarrow> lends (\<lambda>y s'. lx_module s' = c \<and> G y) (f (j + i) (xs ! i)) s"
    and "I m" and "\<And>m y. I m \<Longrightarrow> G y \<Longrightarrow> I (push m y)" and "lx_module s = c"
  shows "lends (\<lambda>m s'. lx_module s' = c \<and> I m) (lower_each f push j xs m) s"
  using assms(1,2,4)
proof (induction xs arbitrary: j m s)
  case (Cons x xs)
  show ?case unfolding lower_each.simps lends_bind
  proof (rule lends_mono)
    show "lends (\<lambda>y s'. lx_module s' = c \<and> G y) (f j x) s" using Cons.prems(1) [of 0 s] Cons.prems(3) by simp
    show "lends (\<lambda>m s'. lx_module s' = c \<and> I m) (lower_each f push (Suc j) xs (push m y)) s'" if "lx_module s' = c \<and> G y" for y s'
    proof (rule Cons.IH)
      show "lends (\<lambda>y s'. lx_module s' = c \<and> G y) (f (Suc j + i) (xs ! i)) s" if "i < length xs" "lx_module s = c" for i s
        using Cons.prems(1) [of "Suc i" s] that by simp
    qed (use that Cons.prems(2) assms(3) in auto)
  qed
qed (simp add: lends_ret)

lemma params_end:
  assumes "zones_bound scs"
    and "\<And>scs' s'. lx_module s' = lx_module s \<Longrightarrow> zones_bound scs' \<Longrightarrow> scope_names scs' = pa_name ` set ps \<union> scope_names scs \<Longrightarrow> Q scs' s'"
  shows "lends Q (lower_params ps scs) s"
  using assms
proof (induction ps arbitrary: scs s)
  case (Cons p ps)
  show ?case unfolding lower_params.simps lends_bind
    by (rule define_ends [OF Cons.prems(1)], rule Cons.IH) (auto intro!: Cons.prems(2))
qed (simp add: lends_ret)

lemma function_ends:
  assumes "pred_option (\<lambda>body. block_weight body < b) (fn_body f)" and "ir_ranked rk w k prj" and "b + w * k \<le> n" and "lx_module s = c"
  shows "lends (\<lambda>g s'. lx_module s' = c \<and> closed_function g) (cn_ir_lower_function prj n md f) s"
  unfolding cn_ir_lower_function_def Let_def lends_bind lends_get lends_put
proof (rule params_end, goal_cases)
  case (2 scs s')
  have names: "irp_name ` set (map lower_param ps) = pa_name ` set ps" for ps by (force simp: lower_param_def)
  have "scope_names [empty_scope] = {}" by (simp add: empty_scope_def)
  then show ?case using 2 assms names unfolding lends_lift
    by (auto simp: lends_rules closed_function_def cn_ir_function_create_def stmt_room_def simp del: set_map intro!: blocks.block_ends [where rk = rk and w = w and k = k])
qed (simp add: zones_bound_def empty_scope_def)

lemma const_ends:
  assumes "ir_decl pr_consts prj r = Some d" and "ir_ranked rk w k prj" and "w + w * k \<le> n" and "lx_module s = c"
  shows "lends (\<lambda>x s'. lx_module s' = c \<and> pred_option (closed_expr {}) (irc_initializer x)) (cn_ir_lower_const prj n md r d) s"
proof -
  have "size (cd_initializer d) < w" using every_constD [OF _ assms(1)] assms(2) by (auto simp: ir_ranked_def)
  then have "lower_fits rk w k prj n (fst r) (cd_initializer d)" using assms(2,3) by (intro fits_room) auto
  then have "lends (expr_done [] c) (cn_ir_lower_const_use prj (lower_expr_of prj n) r t) s" for t
    using assms(1,4) by (intro lowering.const_use_ends) auto
  then show ?thesis unfolding cn_ir_lower_const_def Let_def lends_bind
    by (rule lends_mono) (auto simp: lends_ret expr_done_def cn_ir_const_create_def)
qed

lemma push_const_closed: "closed_module m \<Longrightarrow> pred_option (closed_expr {}) (irc_initializer c) \<Longrightarrow> closed_module (cn_ir_module_push_const m c)"
  and push_struct_closed: "closed_module m \<Longrightarrow> closed_module (cn_ir_module_push_struct m st)"
  and push_function_closed: "closed_module m \<Longrightarrow> closed_function f \<Longrightarrow> closed_module (cn_ir_module_push_function m f)"
  by (simp_all add: closed_module_def cn_ir_module_push_const_def cn_ir_module_push_struct_def cn_ir_module_push_function_def)

lemma module_ends:
  assumes "mod_at prj c = Some md" and "mo_program md = Some p" and "ir_ranked rk w k prj" and "bodies_below b prj"
    and "b + w * k \<le> n" and "w + w * k \<le> n" and "lx_module s = c"
  shows "lends (\<lambda>m s'. lx_module s' = c \<and> closed_module m) (cn_ir_lower_module prj n c md p) s"
  unfolding cn_ir_lower_module_def lends_bind
proof (rule lends_mono [OF each_ends [where c = c and I = closed_module and G = "\<lambda>x. pred_option (closed_expr {}) (irc_initializer x)"]], goal_cases)
  case (1 i s1)
  then have "ir_decl pr_consts prj (c, i) = Some (pr_consts p ! i)" using assms(1,2) by (simp add: ir_decl_def)
  then show ?case using 1 assms(3,6) by (intro const_ends) auto
next
  case 2
  show ?case by (simp add: cn_ir_module_create_def closed_module_def)
next
  case (3 m x)
  show ?case using 3 by (rule push_const_closed)
next
  case (5 m s1)
  have f: "pred_option (\<lambda>body. block_weight body < b) (fn_body (pr_functions p ! i))" if "i < length (pr_functions p)" for i
    using assms(1,2,4) that by (auto simp: bodies_below_def mod_at_def list_all_length split: if_splits)
  show ?case
    by (rule lends_mono [OF each_ends [where c = c and G = "\<lambda>x. True" and I = closed_module]])
      (use 5 assms(3,5) f in \<open>auto simp: lends_ret push_struct_closed intro!: each_ends function_ends push_function_closed\<close>)
qed (use assms(7) in auto)

section \<open>The project\<close>

lemma has_error_set_source [simp]: "cn_diag_has_error (cn_diag_bag_set_source bag src) = cn_diag_has_error bag"
  by (simp add: cn_diag_has_error_def cn_diag_bag_set_source_def diags_def)

lemma push_module_closed: "closed_program p \<Longrightarrow> closed_module m \<Longrightarrow> closed_program (cn_ir_program_push_module p m)"
  by (simp add: closed_program_def cn_ir_program_push_module_def)

lemma modules_end:
  assumes "ir_ranked rk w k prj" and "bodies_below b prj" and "b + w * k \<le> n" and "w + w * k \<le> n"
    and "mds = drop c (pj_modules prj)" and "closed_program prog" and "\<not> cn_diag_has_error (lx_diagnostics s)"
  shows "lends (\<lambda>r s'. pred_option closed_program r \<and> (r = None \<longleftrightarrow> cn_diag_has_error (lx_diagnostics s'))) (lower_modules prj n c mds prog) s"
  using assms(5-)
proof (induction mds arbitrary: c prog s)
  case (Cons md mds)
  have "c < length (pj_modules prj)" using Cons.prems(1) by (cases "c < length (pj_modules prj)") auto
  then have "md # mds = pj_modules prj ! c # drop (Suc c) (pj_modules prj)" and c: "c < length (pj_modules prj)"
    using Cons.prems(1) Cons_nth_drop_Suc [of c "pj_modules prj"] by simp_all
  then have md: "mod_at prj c = Some md" "mds = drop (Suc c) (pj_modules prj)" by (simp_all add: mod_at_def)
  note IH = Cons.IH [OF md(2)]
  show ?case
  proof (cases "mo_program md")
    case (Some p)
    have m: "lends (\<lambda>m s'. closed_module m) (cn_ir_lower_module prj n c md p)
        (s\<lparr>lx_module := c, lx_diagnostics := cn_diag_bag_set_source (lx_diagnostics s) (Some (mo_source md))\<rparr>)"
      by (rule lends_mono [OF module_ends [OF md(1) Some assms(1-4)]]) auto
    show ?thesis using Cons.prems(2,3)
      by (auto simp: Some lends_bind lends_put lends_get lends_ret intro!: IH lends_mono [OF m] push_module_closed)
  qed (use Cons.prems(2,3) in \<open>auto simp: lends_bind lends_put intro!: IH\<close>)
qed (simp add: lends_ret)

text \<open>
  C12: The lowering of a project ends and is well scoped. Let each constant use only constants of lower rank (\<open>rk\<close>), let \<open>w\<close> be above
  the size of every initializer, \<open>k\<close> above every rank and \<open>b\<close> above the weight of every function body. Then \<open>b + w * k\<close> (and
  \<open>w + w * k\<close>) nested calls are enough for \<open>cn_ir_lower_project\<close>. If it does not follow a null pointer, it stores a program exactly
  when no error was reported, and in that program every local that an expression names, and every zone that a \<open>zalloc\<close>
  allocates in, is a parameter of the function or was declared before by an enclosing block, also in all the copies of deferred
  statements; so the back end never loses a local binding. The initializers of constants name no local.
\<close>

theorem lower_project_closed:
  assumes "ir_ranked rk w k prj" and "bodies_below b prj" and "b + w * k \<le> n" and "w + w * k \<le> n" and "\<not> cn_diag_has_error bag"
  shows "case cn_ir_lower_project prj n bag of
      Lowered r s \<Rightarrow> (r = None \<longleftrightarrow> cn_diag_has_error (lx_diagnostics s)) \<and> pred_option closed_program r
    | LowerFault \<Rightarrow> True
    | LowerFuel \<Rightarrow> False"
proof -
  let ?s = "\<lparr>lx_module = 0, lx_diagnostics = bag, lx_owned_names = None, lx_temp_index = 0\<rparr>"
  have "closed_program cn_ir_program_create" by (simp add: closed_program_def cn_ir_program_create_def)
  from modules_end [OF assms(1-4), of "pj_modules prj" 0, OF _ this, of ?s] assms(5) show ?thesis
    unfolding cn_ir_lower_project_def lends_def by (simp split: lowered.splits)
qed

text \<open>
  \<open>const n: int = 2; const m: int = n + 1; fn main() -> int { let p: ptr int = alloc int; deref p = m; defer free p;
  zone { let q: ptr int = zalloc int; deref q = n; } return 0; }\<close>
\<close>

definition int_ptr :: cn_type_ref where
  "int_ptr = CnType CN_TYPE_PTR [] [] (Some int_ref) None 0 0"

definition lowered_sample :: cn_project where
  "lowered_sample = program_of
     [const_decl_of ''n'' (CN_EXPR_INT 0 2), const_decl_of ''m'' (CN_EXPR_BINARY 0 CN_BINARY_ADD (CN_EXPR_NAME 0 ''n'') (CN_EXPR_INT 0 1))]
     [CN_STMT_LET 0 ''p'' False int_ptr (CN_EXPR_ALLOC 0 int_ref),
      CN_STMT_ASSIGN 0 (CN_EXPR_DEREF 0 (CN_EXPR_NAME 0 ''p'')) (CN_EXPR_NAME 0 ''m''),
      CN_STMT_DEFER 0 (CN_STMT_FREE 0 (CN_EXPR_NAME 0 ''p'')),
      CN_STMT_ZONE 0 (CnBlock [CN_STMT_LET 0 ''q'' False int_ptr (CN_EXPR_ZALLOC 0 int_ref),
        CN_STMT_ASSIGN 0 (CN_EXPR_DEREF 0 (CN_EXPR_NAME 0 ''q'')) (CN_EXPR_NAME 0 ''n'')] 0),
      CN_STMT_RETURN 0 (Some (CN_EXPR_INT 0 0))]"

definition is_lowered :: "'a lowered \<Rightarrow> ('a \<Rightarrow> bool) \<Rightarrow> bool" where
  "is_lowered r P = (case r of Lowered x s \<Rightarrow> P x | _ \<Rightarrow> False)"

lemma sample_ranked: "ir_ranked snd 4 2 lowered_sample" "bodies_below 32 lowered_sample"
  by code_simp+

lemma sample_lowered: "is_lowered (cn_ir_lower_project lowered_sample 40 (cn_diag_bag_init None)) (\<lambda>r. r \<noteq> None)"
  by code_simp

lemma no_error_at_first: "\<not> cn_diag_has_error (cn_diag_bag_init None)"
  by code_simp

theorem lower_project_closed_witness:
  "ir_ranked snd 4 2 lowered_sample \<and> bodies_below 32 lowered_sample \<and> \<not> cn_diag_has_error (cn_diag_bag_init None)
    \<and> (\<exists>p s. cn_ir_lower_project lowered_sample 40 (cn_diag_bag_init None) = Lowered (Some p) s
      \<and> \<not> cn_diag_has_error (lx_diagnostics s) \<and> closed_program p)"
  using lower_project_closed [OF sample_ranked, of 40 "cn_diag_bag_init None"] sample_lowered sample_ranked no_error_at_first
  by (auto simp: is_lowered_def split: lowered.splits)

section \<open>Deferred statements\<close>

text \<open>A captured scope finds the bindings that the scopes find.\<close>

lemma find_append: "find P (xs @ ys) = (case find P xs of None \<Rightarrow> find P ys | Some x \<Rightarrow> Some x)"
  by (induction xs) auto

definition bound_to :: "string \<Rightarrow> cn_ir_binding list \<Rightarrow> cn_ir_binding option" where
  "bound_to nm = find (\<lambda>b. ib_name b = nm)"

lemma bound_to_simps [simp]:
  "bound_to nm [] = None" "bound_to nm (b # bs) = (if ib_name b = nm then Some b else bound_to nm bs)"
  "bound_to nm (xs @ ys) = (case bound_to nm xs of None \<Rightarrow> bound_to nm ys | Some x \<Rightarrow> Some x)"
  by (simp_all add: bound_to_def find_append split: option.split)

lemma bound_to_None: "bound_to nm bs = None \<longleftrightarrow> \<not> list_ex (\<lambda>b. ib_name b = nm) bs"
  by (auto simp: bound_to_def find_None_iff list_ex_iff)

lemma lookup_visible:
  "bound_to nm (visible_bindings seen bs) = (case bound_to nm seen of None \<Rightarrow> bound_to nm bs | Some b \<Rightarrow> Some b)"
proof (induction bs arbitrary: seen)
  case (Cons b bs)
  show ?case
  proof (cases "list_ex (\<lambda>c. ib_name c = ib_name b) seen")
    case True
    then have "bound_to (ib_name b) seen \<noteq> None" by (simp add: bound_to_None)
    then show ?thesis using True by (auto simp: Cons.IH split: option.split)
  qed (simp add: Cons.IH cn_ir_type_clone_id split: option.split)
qed (simp split: option.split)

lemma lookup_bound_to: "cn_ir_scope_lookup (sc # scs) nm = (case bound_to nm (is_bindings sc) of None \<Rightarrow> cn_ir_scope_lookup scs nm | Some b \<Rightarrow> Some b)"
  by (simp add: bound_to_def split: option.split)

lemma lookup_capture: "cn_ir_scope_lookup [cn_ir_capture_scope scs] nm = cn_ir_scope_lookup scs nm"
proof -
  have "bound_to nm (fold (\<lambda>sc seen. visible_bindings seen (is_bindings sc)) scs seen)
      = (case bound_to nm seen of None \<Rightarrow> cn_ir_scope_lookup scs nm | Some b \<Rightarrow> Some b)" for seen
  proof (induction scs arbitrary: seen)
    case (Cons sc scs)
    show ?case unfolding fold_Cons_rev fold.simps comp_def Cons.IH lookup_visible lookup_bound_to by (simp split: option.split)
  qed (simp split: option.split)
  from this [of "[]"] show ?thesis by (simp add: lookup_bound_to cn_ir_capture_scope_def del: cn_ir_scope_lookup.simps(2) split: option.split)
qed

lemma lookup_block [simp]: "cn_ir_scope_lookup (block_scopes scs) nm = cn_ir_scope_lookup scs nm"
  by (simp add: block_scopes_def)

lemma lower_local:
  "cn_ir_scope_lookup scs p = Some b \<Longrightarrow> lower_name prj L scs off p None s = Lowered (Some (CN_IR_EXPR_LOCAL (ib_type b) off p)) s"
  by (simp add: lower_name_def cn_ir_wrap_array_as_slice_if_needed_def lret_def cn_ir_type_clone_id)

text \<open>
  C36: A deferred statement runs before the value of the return statement is read. Where \<open>p\<close> is a local of pointer type, the block
  \<open>{ defer free p; return deref p; }\<close> is lowered to a statement that frees \<open>p\<close>, followed by a return statement that follows the
  freed pointer, in any project and with any fuel of at least three calls.
\<close>

theorem return_reads_after_cleanup:
  assumes "cn_ir_scope_lookup scs p = Some v" and "ib_type v = Some t" and "ir_kind t = CN_IR_TYPE_PTR" and "3 \<le> n"
  shows "cn_ir_lower_block (lower_expr_of prj n) (lower_stmt_of prj n) scs
      (CnBlock [CN_STMT_DEFER o1 (CN_STMT_FREE o2 (CN_EXPR_NAME o3 p)), CN_STMT_RETURN o4 (Some (CN_EXPR_DEREF o5 (CN_EXPR_NAME o6 p)))] o7) True ret [] s
    = Lowered (IrBlock [CN_IR_STMT_FREE o2 (CN_IR_EXPR_LOCAL (Some t) o3 p),
        CN_IR_STMT_RETURN o4 (Some (CN_IR_EXPR_DEREF (ir_inner t) o5 (CN_IR_EXPR_LOCAL (Some t) o6 p)))] o7) s"
proof -
  obtain m where n: "n = Suc (Suc (Suc m))" using that [of "n - 3"] assms(4) by simp
  have c: "cn_ir_scope_lookup [cn_ir_capture_scope (block_scopes scs)] p = Some v" unfolding lookup_capture lookup_block by (rule assms(1))
  show ?thesis using assms(1-3) lower_local [OF c] lower_local [of "block_scopes scs" p v]
    by (simp add: n cn_ir_lower_block_def cn_ir_lower_statement_def keep_scopes_def lower_return_def lower_deref_def cn_ir_lower_expression_def
        lbind_def lret_def lsome_def llift_def child_def cn_ir_type_clone_id)
qed

text \<open>
  \<open>fn main() -> int { let p: ptr int = alloc int; deref p = 1; defer free p; return deref p; }\<close>, and the scope of its \<open>p\<close>.
\<close>

definition freed_sample :: cn_project where
  "freed_sample = program_of [] [CN_STMT_LET 0 ''p'' False int_ptr (CN_EXPR_ALLOC 0 int_ref),
     CN_STMT_ASSIGN 0 (CN_EXPR_DEREF 0 (CN_EXPR_NAME 0 ''p'')) (CN_EXPR_INT 0 1),
     CN_STMT_DEFER 0 (CN_STMT_FREE 0 (CN_EXPR_NAME 0 ''p'')), CN_STMT_RETURN 0 (Some (CN_EXPR_DEREF 0 (CN_EXPR_NAME 0 ''p'')))]"

definition pointer_scope :: ir_scopes where
  "pointer_scope = [empty_scope\<lparr>is_bindings := [\<lparr>ib_name = ''p'', ib_type = cn_ir_type_from_ast (Some int_ptr), ib_is_mutable = False\<rparr>]\<rparr>]"

lemma pointer_scope_lookup:
  "cn_ir_scope_lookup pointer_scope ''p'' = Some \<lparr>ib_name = ''p'', ib_type = Some (cn_ir_make_ptr_type ir_int), ib_is_mutable = False\<rparr>"
  by code_simp

lemma freed_sample_accepted: "is_done (cn_sema_check_project 20 freed_sample (cn_diag_bag_init None)) (\<lambda>ok. ok)"
  by code_simp

theorem return_reads_after_cleanup_witness:
  "is_done (cn_sema_check_project 20 freed_sample (cn_diag_bag_init None)) (\<lambda>ok. ok)
    \<and> (let s = \<lparr>lx_module = 0, lx_diagnostics = cn_diag_bag_init None, lx_owned_names = None, lx_temp_index = 0\<rparr> in
      cn_ir_lower_block (lower_expr_of freed_sample 3) (lower_stmt_of freed_sample 3) pointer_scope
        (CnBlock [CN_STMT_DEFER 0 (CN_STMT_FREE 0 (CN_EXPR_NAME 0 ''p'')), CN_STMT_RETURN 0 (Some (CN_EXPR_DEREF 0 (CN_EXPR_NAME 0 ''p'')))] 0) True ir_int [] s
      = Lowered (IrBlock [CN_IR_STMT_FREE 0 (CN_IR_EXPR_LOCAL (Some (cn_ir_make_ptr_type ir_int)) 0 ''p''),
          CN_IR_STMT_RETURN 0 (Some (CN_IR_EXPR_DEREF ir_int 0 (CN_IR_EXPR_LOCAL (Some (cn_ir_make_ptr_type ir_int)) 0 ''p'')))] 0) s)"
  using freed_sample_accepted return_reads_after_cleanup [OF pointer_scope_lookup, of "cn_ir_make_ptr_type ir_int" 3 freed_sample 0 0 0 0 0 0 0 ir_int]
  by (simp add: Let_def cn_ir_make_ptr_type_def cn_ir_type_create_def cn_ir_type_clone_id)

text \<open>
  C37: A deferred statement is copied by name to every return statement that leaves its scope. Where \<open>p\<close> is a local of pointer type,
  \<open>{ defer free p; if true { let p:T = alloc U; return; } }\<close> is lowered to a block in which the copy before the inner return statement stands
  behind the declaration of the inner \<open>p\<close> in the same block: it frees the inner pointer, and the pointer for which the statement was
  deferred is not freed on this path.
\<close>

theorem cleanup_names_inner_local:
  assumes "cn_ir_scope_lookup scs p = Some v" and "ib_type v = Some t" and "4 \<le> n"
  shows "cn_ir_lower_block (lower_expr_of prj n) (lower_stmt_of prj n) scs
      (CnBlock [CN_STMT_DEFER o1 (CN_STMT_FREE o2 (CN_EXPR_NAME o3 p)),
         CN_STMT_IF o4 (CN_EXPR_BOOL o5 True) (CnBlock [CN_STMT_LET o6 p False T (CN_EXPR_ALLOC o7 U), CN_STMT_RETURN o8 None] o9) None] o10) True ret [] s
    = Lowered (IrBlock [CN_IR_STMT_IF o4 (CN_IR_EXPR_BOOL ir_bool o5 True)
          (IrBlock [CN_IR_STMT_LET o6 p False (child_type (cn_ir_type_from_ast (Some T)))
               (CN_IR_EXPR_ALLOC (Some (cn_ir_make_ptr_type (cn_ir_type_from_ast (Some U)))) o7 (child_type (cn_ir_type_from_ast (Some U)))),
             CN_IR_STMT_FREE o2 (CN_IR_EXPR_LOCAL (Some t) o3 p), CN_IR_STMT_RETURN o8 None] o9) None,
         CN_IR_STMT_FREE o2 (CN_IR_EXPR_LOCAL (Some t) o3 p)] o10) s"
proof -
  obtain m where n: "n = Suc (Suc (Suc (Suc m)))" using that [of "n - 4"] assms(3) by simp
  have c: "cn_ir_scope_lookup [cn_ir_capture_scope (block_scopes scs)] p = Some v" unfolding lookup_capture lookup_block by (rule assms(1))
  show ?thesis using assms(1,2) lower_local [OF c]
    by (simp add: n cn_ir_lower_block_def cn_ir_lower_statement_def keep_scopes_def lower_return_def lower_condition_def lower_option_def lower_let_def
        cn_ir_lower_expression_def cn_ir_lower_with_builtin_expected_def cn_ir_scope_define_def block_scopes_def Let_def
        lbind_def lret_def lsome_def llift_def child_def cn_ir_type_clone_id)
qed

text \<open>
  \<open>fn main() -> int { let p: ptr int = alloc int; defer free p; if true { let p: ptr int = alloc int; return 0; } return 1; }\<close>
\<close>

definition shadow_sample :: cn_project where
  "shadow_sample = program_of [] [CN_STMT_LET 0 ''p'' False int_ptr (CN_EXPR_ALLOC 0 int_ref),
     CN_STMT_DEFER 0 (CN_STMT_FREE 0 (CN_EXPR_NAME 0 ''p'')),
     CN_STMT_IF 0 (CN_EXPR_BOOL 0 True) (CnBlock [CN_STMT_LET 0 ''p'' False int_ptr (CN_EXPR_ALLOC 0 int_ref), CN_STMT_RETURN 0 (Some (CN_EXPR_INT 0 0))] 0) None,
     CN_STMT_RETURN 0 (Some (CN_EXPR_INT 0 1))]"

lemma shadow_sample_accepted: "is_done (cn_sema_check_project 20 shadow_sample (cn_diag_bag_init None)) (\<lambda>ok. ok)"
  by code_simp

theorem cleanup_names_inner_local_witness:
  "is_done (cn_sema_check_project 20 shadow_sample (cn_diag_bag_init None)) (\<lambda>ok. ok)
    \<and> (let s = \<lparr>lx_module = 0, lx_diagnostics = cn_diag_bag_init None, lx_owned_names = None, lx_temp_index = 0\<rparr>; t = cn_ir_make_ptr_type ir_int in
      cn_ir_lower_block (lower_expr_of shadow_sample 4) (lower_stmt_of shadow_sample 4) pointer_scope
        (CnBlock [CN_STMT_DEFER 0 (CN_STMT_FREE 0 (CN_EXPR_NAME 0 ''p'')),
           CN_STMT_IF 0 (CN_EXPR_BOOL 0 True) (CnBlock [CN_STMT_LET 0 ''p'' False int_ptr (CN_EXPR_ALLOC 0 int_ref), CN_STMT_RETURN 0 None] 0) None] 0) True ir_int [] s
      = Lowered (IrBlock [CN_IR_STMT_IF 0 (CN_IR_EXPR_BOOL ir_bool 0 True)
            (IrBlock [CN_IR_STMT_LET 0 ''p'' False t (CN_IR_EXPR_ALLOC (Some t) 0 (cn_ir_make_builtin_type CN_IR_TYPE_INT)),
               CN_IR_STMT_FREE 0 (CN_IR_EXPR_LOCAL (Some t) 0 ''p''), CN_IR_STMT_RETURN 0 None] 0) None,
           CN_IR_STMT_FREE 0 (CN_IR_EXPR_LOCAL (Some t) 0 ''p'')] 0) s)"
  using shadow_sample_accepted
    cleanup_names_inner_local [OF pointer_scope_lookup, of "cn_ir_make_ptr_type ir_int" 4 shadow_sample 0 0 0 0 0 0 int_ptr 0 int_ref 0 0 0 ir_int]
  by (simp add: Let_def cn_ir_make_ptr_type_def cn_ir_make_builtin_type_def cn_ir_type_create_def cn_ir_type_clone_id int_ptr_def int_ref_def
      child_type_def cn_ir_type_kind_from_ast_def)

end
