(* ===== verification/Spec2Isabelle.thy ===== *)
theory Spec2Isabelle
  imports Parser Parser_Fuel Optimizer Alloc_Report Sema_Results Lower_Run
begin

text \<open>
  A verification of \<open>cnegc\<close>, the compiler of the language cnegative, written in C.

  \<^bold>\<open>The program.\<close> The compiler reads a source file (\<open>src/support/source.c\<close>), scans it
  (\<open>src/lex\<close>), parses it (\<open>src/parse\<close>), checks it (\<open>src/sema/typecheck.c\<close>), lowers the checked
  tree to a typed intermediate representation (\<open>src/ir/lower.c\<close>), optimises that
  (\<open>src/ir/optimize.c\<close>), prints it as LLVM text (\<open>src/backend\<close>) and calls the host tools on the
  result. All parts report to a bag of diagnostics (\<open>src/support/diagnostics.c\<close>) and allocate
  through a checking allocator (\<open>src/support/memory.c\<close>). The components meet in data: the scanner's
  token buffer is the parser's input, the parser's tree that of the checker, the intermediate
  program is what lowering, optimiser and printer share.

  \<^bold>\<open>The model.\<close> C structs are records, tagged unions are datatypes with one constructor per
  kind, \<open>int64_t\<close> and \<open>size_t\<close> are 64-bit words where they can wrap around and natural numbers
  where they count objects of the heap, text is a list of bytes. Functions that change a state take
  and return it. Errors are diagnostics in the state, or values.

  \<^item> \<open>Prelude\<close>: 64-bit arithmetic as C has it, with undefined behaviour as \<^term>\<open>None\<close>.
  \<^item> \<open>Common\<close>: \<open>include/cnegative/common.h\<close> (views into text, the FNV hash) and the
    growable arrays of the whole compiler (\<open>cn_grow_items\<close> and the list pushes of
    \<open>src/parse/ast.c\<close>), with a locale for what an array promises.
  \<^item> \<open>Source\<close>, \<open>Diagnostics\<close>: files with their line table, the bag and the printed text. What
    the operating system answers when a file is read is an argument.
  \<^item> \<open>Tokens\<close>, \<open>Lexer\<close>: the token kinds and the scanner. A scan that does not end has no value.
  \<^item> \<open>Ast\<close>, \<open>Parser_Core\<close>, \<open>Parser_Expr\<close>, \<open>Parser_Stmt\<close>: the tree and the whole
    recursive-descent parser, as a state monad over the cursor with three further outcomes: no node,
    undefined behaviour of C, and out of fuel. \<open>Parser_Wp\<close>, \<open>Parser_Safe\<close>,
    \<open>Parser_Total\<close> are its Hoare-style calculus and the facts about progress, \<open>Parser\<close> and
    \<open>Parser_Fuel\<close> its properties. The fuel bounds the recursion: the number of tokens plus a
    constant is shown to be enough wherever the C code returns at all, and once it is enough more
    changes nothing.
  \<^item> \<open>Name_Map\<close>, \<open>Modules\<close>, \<open>Resolution\<close>, \<open>Module_Header\<close>: the checker's hash tables of names, with a
    locale for the finite map that they are; projects and modules; the symbol caches and the lookups of
    names, in the checker and in the lowering (\<open>src/ir/lower.c\<close>); the check of a module's top-level names.
  \<^item> \<open>Sema_Core\<close>, \<open>Sema_Expr\<close>, \<open>Sema_Check\<close>, \<open>Sema_Stmt\<close>: all of \<open>src/sema/typecheck.c\<close>, as a state monad over the
    context with two further outcomes, undefined behaviour of C and out of fuel. The functions that call each
    other in a circle take their callees as a record, and \<open>checkers_of\<close> ties the knot; the fuel bounds the
    nesting of these calls. The project is part of the state, since the checker writes into the types of declarations.
  \<^item> \<open>Sema_Static\<close> (what the checker leaves alone), \<open>Sema_Safe\<close> (contracts relative to a frame),
    \<open>Sema_Sound\<close>, \<open>Sema_Knot\<close> (the contract of the mutually recursive functions, as a locale), \<open>Sema_Fuel\<close> (its
    interpretation, and how much fuel is enough), \<open>Sema_Decls\<close>, \<open>Sema_Project\<close> (statements, declarations,
    passes), \<open>Sema_Run\<close>, \<open>Sema_Value\<close>, \<open>Sema_Results\<close> (the properties).
  \<^item> \<open>Lower\<close>, \<open>Lower_Expr\<close>, \<open>Lower_Stmt\<close>: all of \<open>src/ir/lower.c\<close>, as a state monad over the context with two further
    outcomes, a null pointer that is followed and out of fuel. Scopes and frames of deferred statements are lists, innermost
    first; the fuel bounds the nesting of the calls for expressions and statements. \<open>Lower_Closed\<close>,
    \<open>Lower_Blocks\<close>: what an expression or a statement guarantees if its callees do, as two locales of which the
    second extends the first, and their interpretations on the knot; \<open>Lower_Run\<close>: the properties.
  \<^item> \<open>Ir\<close>: the intermediate representation of \<open>src/ir/ir.c\<close>; \<open>Ir_Semantics\<close>: its meaning, as
    the code generator gives it; \<open>Optimize\<close>: the optimiser; \<open>Optimize_Correct\<close>,
    \<open>Optimize_Normal\<close>, \<open>Optimizer\<close>: it preserves types and meaning, its result is a fixed point
    without dead statements, and where its own arithmetic is undefined.
  \<^item> \<open>Memory\<close>: the checking allocator, with the C heap that its records, bucket arrays and
    blocks live in. \<open>Memory_Heap\<close> (weakest preconditions, doubly linked lists), \<open>Memory_Index\<close> (chained hash
    tables), \<open>Memory_Inv\<close>, \<open>Memory_Ops\<close> (the invariant and what keeps it), \<open>Allocator\<close>,
    \<open>Reallocation\<close> (the operations), \<open>Checked_Alloc\<close> (the abstract allocator),
    \<open>Alloc_Guards\<close> (detection of overruns), \<open>Alloc_Runs\<close> (the simulation, as a locale),
    \<open>Alloc_Report\<close> (leaks, and runs of a client). The C library is a parameter; \<open>c_library_ok\<close>
    says what is relied on: a fresh block is not one in use and lies within the address space.

  \<^bold>\<open>What is shown.\<close> Scanner: it returns exactly on texts without a NUL byte; its tokens are in
  order, spelled as the text is, at the positions that the line table computes, and it reads back
  the names it prints. Parser: it is defined and total on expressions, blocks and programs, on
  the inputs where the C code ends, which are characterised; where it does not end is shown too. Literals, types,
  positions, diagnostics and array growth behave as described. Checker: on projects as the parser builds
  them it follows no null pointer whatever it is given, its answer is that no error was reported, and it
  ends with a fuel that is given if the constants can be ranked; if they name each other it may not, and that is
  shown too. Array sizes are the values of their expressions over the integers. The guards that admit the value of a
  result say what is so when a branch is entered and after an assignment, and a program is shown on which
  they do not after a conditional. Name tables are finite maps, the checker and the lowering
  resolve names alike in projects without clashing imports, and the check of top-level names finds exactly the clashes it
  is meant to find, but for one between imports. Lowering: with ranked constants it ends, with a fuel that is given, it makes a program exactly
  when it reports no error, and that program names no local and no zone that is not declared around it. What it makes of deferred
  statements is not always what they mean: the value of a return statement is read after the cleanup, and the cleanup
  takes the local of a name that is visible at the return; both are shown. Optimiser: refinement of the
  semantics, preservation of types, idempotence. Allocator: its invariant, refinement of the abstract
  allocator by every operation, rejection of every bad pointer with the right code, detection of
  overruns, exact size arithmetic, the report of leaks.

  \<^bold>\<open>Not modelled.\<close> The dump and the destruction of trees and programs (\<open>src/parse/ast.c\<close>, \<open>src/ir/ir.c\<close>), the printers of LLVM
  text and of the run-time library (\<open>src/backend\<close>: the meaning of what they print is that of
  LLVM), reading and writing project files (\<open>src/support/project.c\<close>), the command line (\<open>src/cli\<close>) and the calls of the
  host tools (\<open>src/backend/toolchain.c\<close>: processes and files). The assembly scanners
  (\<open>src/asm\<close>) are represented by their portable version. Of the checker, the list that keeps temporary types alive and
  what it writes into the types inside function bodies, which only the lowering reads, have no counterpart; the lowering takes the project as it finds it. That the lowering of
  a checked project follows no null pointer is not shown.
\<close>

end
